(* ===== verification/Prelude.thy ===== *)
theory Prelude
  imports Main "HOL-Library.Multiset" "HOL-Library.Char_ord" "HOL-Library.List_Lexorder"
begin

text \<open>
  Shared vocabulary of the development.

  Go strings are byte sequences, so a Go \<open>string\<close> is a \<^typ>\<open>string\<close> here (a list of 8-bit
  characters, UTF-8 text being several of them). The first sections give the operations of the Go
  packages strings, strconv and regexp that the repository uses, on such lists. Case folding
  (\<open>to_lower\<close>, \<open>equal_fold\<close>) folds the ASCII letters and leaves every other byte alone.
  The last sections model encoding/json values and their serialisation. The type of JSON numbers
  is a parameter, as is the text-to-value decoder (record \<open>codec\<close>): the repository never
  computes with a decoded number, it only serialises it again.
\<close>

named_theorems go_string \<open>facts about the string operations\<close>

section \<open>Prefixes, substrings, splitting\<close>

type_synonym go_time = int  \<comment> \<open>nanoseconds since the Unix epoch, UTC\<close>

abbreviation second_ns :: int where "second_ns \<equiv> 1000000000"
abbreviation minute_ns :: int where "minute_ns \<equiv> 60000000000"
abbreviation hour_ns :: int where "hour_ns \<equiv> 3600000000000"
abbreviation day_ns :: int where "day_ns \<equiv> 86400000000000"

text \<open>Go's \<open>int64\<close>: the value an addition, subtraction or multiplication leaves. It is written out only where
  numbers come from outside the program and may be that large.\<close>

definition wrap64 :: "int \<Rightarrow> int" where
  "wrap64 n = (n + 2 ^ 63) mod 2 ^ 64 - 2 ^ 63"

lemma wrap64_small: "- (2 ^ 63) \<le> n \<Longrightarrow> n < 2 ^ 63 \<Longrightarrow> wrap64 n = n"
  by (simp add: wrap64_def)

lemma wrap64_bounds: "- (2 ^ 63) \<le> wrap64 n" "wrap64 n < 2 ^ 63"
  by (simp_all add: wrap64_def)

text \<open>\<open>datetime(x)\<close> of SQLite and RFC 3339 formatting both drop the fraction of a second.\<close>

definition unix_secs :: "go_time \<Rightarrow> int" where
  "unix_secs t = t div second_ns"

fun has_prefix :: "string \<Rightarrow> string \<Rightarrow> bool" where
  "has_prefix s [] = True"
| "has_prefix [] (p # ps) = False"
| "has_prefix (c # s) (p # ps) = (c = p \<and> has_prefix s ps)"

definition has_suffix :: "string \<Rightarrow> string \<Rightarrow> bool" where
  "has_suffix s p = has_prefix (rev s) (rev p)"

definition trim_prefix :: "string \<Rightarrow> string \<Rightarrow> string" where
  "trim_prefix s p = (if has_prefix s p then drop (length p) s else s)"

fun contains_str :: "string \<Rightarrow> string \<Rightarrow> bool" where
  "contains_str [] sub = (sub = [])"
| "contains_str (c # s) sub = (has_prefix (c # s) sub \<or> contains_str s sub)"

text \<open>\<open>strings.ReplaceAll\<close> for a non-empty pattern (the repository has no other): leftmost
  non-overlapping occurrences.\<close>

function (sequential) replace_all :: "string \<Rightarrow> string \<Rightarrow> string \<Rightarrow> string" where
  "replace_all old new [] = []"
| "replace_all old new (c # s) =
     (if old \<noteq> [] \<and> has_prefix (c # s) old
      then new @ replace_all old new (drop (length old) (c # s))
      else c # replace_all old new s)"
  by pat_completeness auto
termination
proof (relation "measure (\<lambda>(old, new, s). length s)")
  fix old new :: string and c s
  assume "old \<noteq> [] \<and> has_prefix (c # s) old"
  then have "0 < length old" by simp
  then show "((old, new, drop (length old) (c # s)), old, new, c # s)
      \<in> measure (\<lambda>(old, new, s). length s)"
    by simp
qed auto

text \<open>The split at the first (\<open>strings.Index\<close>, \<open>SplitN(s, sep, 2)\<close>) and at the last
  (\<open>strings.LastIndex\<close>) occurrence of a byte; \<open>None\<close> when there is none.\<close>

fun split_first :: "char \<Rightarrow> string \<Rightarrow> (string \<times> string) option" where
  "split_first c [] = None"
| "split_first c (x # xs) =
     (if x = c then Some ([], xs)
      else map_option (\<lambda>(a, b). (x # a, b)) (split_first c xs))"

definition split_last :: "char \<Rightarrow> string \<Rightarrow> (string \<times> string) option" where
  "split_last c s =
     map_option (\<lambda>(a, b). (rev b, rev a)) (split_first c (rev s))"

text \<open>\<open>strings.TrimRight(s, cutset)\<close> for a one-byte cutset.\<close>

definition trim_right :: "char \<Rightarrow> string \<Rightarrow> string" where
  "trim_right c s = rev (dropWhile (\<lambda>x. x = c) (rev s))"

fun join :: "string \<Rightarrow> string list \<Rightarrow> string" where
  "join sep [] = []"
| "join sep [x] = x"
| "join sep (x # y # xs) = x @ sep @ join sep (y # xs)"

section \<open>Case folding, digits, numbers\<close>

definition lower_char :: "char \<Rightarrow> char" where
  "lower_char c = (let n = of_char c :: nat in if 65 \<le> n \<and> n \<le> 90 then char_of (n + 32) else c)"

definition upper_char :: "char \<Rightarrow> char" where
  "upper_char c = (let n = of_char c :: nat in if 97 \<le> n \<and> n \<le> 122 then char_of (n - 32) else c)"

definition to_lower :: "string \<Rightarrow> string" where
  "to_lower s = map lower_char s"

definition to_upper :: "string \<Rightarrow> string" where
  "to_upper s = map upper_char s"

definition equal_fold :: "string \<Rightarrow> string \<Rightarrow> bool" where
  "equal_fold a b = (to_lower a = to_lower b)"

definition is_digit :: "char \<Rightarrow> bool" where
  "is_digit c = (let n = of_char c :: nat in 48 \<le> n \<and> n \<le> 57)"

definition digit_val :: "char \<Rightarrow> nat" where
  "digit_val c = of_char c - 48"

definition nat_of_digits :: "string \<Rightarrow> nat" where
  "nat_of_digits s = foldl (\<lambda>n c. 10 * n + digit_val c) 0 s"

fun show_nat :: "nat \<Rightarrow> string" where
  "show_nat n = (if n < 10 then [char_of (48 + n)] else show_nat (n div 10) @ [char_of (48 + n mod 10)])"

declare show_nat.simps [simp del]

definition show_int :: "int \<Rightarrow> string" where
  "show_int i = (if i < 0 then ''-'' @ show_nat (nat (- i)) else show_nat (nat i))"

text \<open>The UTF-8 bytes of the two non-ASCII characters the repository's messages use.\<close>

definition em_dash :: string where
  "em_dash = [CHR 0xE2, CHR 0x80, CHR 0x94]"

definition hex_digit :: "nat \<Rightarrow> char" where
  "hex_digit n = (if n < 10 then char_of (48 + n) else char_of (87 + n))"

text \<open>\<open>strconv.Quote\<close>, the \<open>%q\<close> verb, for strings whose non-ASCII part is printable UTF-8.\<close>

definition go_quote_char :: "char \<Rightarrow> string" where
  "go_quote_char c = (let n = of_char c :: nat in
     if n = 34 then [CHR 0x5C, CHR 0x22]
     else if n = 92 then [CHR 0x5C, CHR 0x5C]
     else if n = 7 then [CHR 0x5C, CHR ''a'']
     else if n = 8 then [CHR 0x5C, CHR ''b'']
     else if n = 12 then [CHR 0x5C, CHR ''f'']
     else if n = 10 then [CHR 0x5C, CHR ''n'']
     else if n = 13 then [CHR 0x5C, CHR ''r'']
     else if n = 9 then [CHR 0x5C, CHR ''t'']
     else if n = 11 then [CHR 0x5C, CHR ''v'']
     else if n < 32 \<or> n = 127
       then [CHR 0x5C, CHR ''x'', hex_digit (n div 16), hex_digit (n mod 16)]
     else [c])"

definition go_quote :: "string \<Rightarrow> string" where
  "go_quote s = [CHR 0x22] @ concat (map go_quote_char s) @ [CHR 0x22]"

section \<open>JSON values\<close>

datatype 'n json =
    JNull
  | JBool bool
  | JNum 'n
  | JStr string
  | JArr "'n json list"
  | JObj "(string \<times> 'n json) list"

text \<open>String serialisation of encoding/json (with its HTML-safe escapes).\<close>

definition json_escape_char :: "char \<Rightarrow> string" where
  "json_escape_char c = (let n = of_char c :: nat in
     if n = 34 then [CHR 0x5C, CHR 0x22]
     else if n = 92 then [CHR 0x5C, CHR 0x5C]
     else if n = 8 then [CHR 0x5C, CHR ''b'']
     else if n = 12 then [CHR 0x5C, CHR ''f'']
     else if n = 10 then [CHR 0x5C, CHR ''n'']
     else if n = 13 then [CHR 0x5C, CHR ''r'']
     else if n = 9 then [CHR 0x5C, CHR ''t'']
     else if n < 32 \<or> n = 60 \<or> n = 62 \<or> n = 38
       then [CHR 0x5C, CHR ''u'', CHR ''0'', CHR ''0'', hex_digit (n div 16), hex_digit (n mod 16)]
     else [c])"

text \<open>The line and paragraph separators U+2028 and U+2029 are escaped as well.\<close>

definition json_escape :: "string \<Rightarrow> string" where
  "json_escape s =
     replace_all [CHR 0xE2, CHR 0x80, CHR 0xA8] (CHR 0x5C # ''u2028'')
       (replace_all [CHR 0xE2, CHR 0x80, CHR 0xA9] (CHR 0x5C # ''u2029'')
         (concat (map json_escape_char s)))"

definition json_quote :: "string \<Rightarrow> string" where
  "json_quote s = [CHR 0x22] @ json_escape s @ [CHR 0x22]"

record 'n codec =
  json_unmarshal :: "string \<Rightarrow> 'n json option"  \<comment> \<open>\<open>json.Unmarshal\<close> into \<open>interface{}\<close>\<close>
  num_fmt :: "'n \<Rightarrow> string"                      \<comment> \<open>the text \<open>json.Marshal\<close> writes for a number\<close>

text \<open>\<open>json.Marshal\<close>: object keys are written in sorted order.\<close>

fun json_marshal :: "('n \<Rightarrow> string) \<Rightarrow> 'n json \<Rightarrow> string" where
  "json_marshal fmt JNull = ''null''"
| "json_marshal fmt (JBool b) = (if b then ''true'' else ''false'')"
| "json_marshal fmt (JNum n) = fmt n"
| "json_marshal fmt (JStr s) = json_quote s"
| "json_marshal fmt (JArr vs) = ''['' @ join '','' (map (json_marshal fmt) vs) @ '']''"
| "json_marshal fmt (JObj kvs) =
     ''{'' @ join '','' (map (\<lambda>(k, t). json_quote k @ '':'' @ t)
       (sort_key fst (map (\<lambda>(k, v). (k, json_marshal fmt v)) kvs))) @ ''}''"

section \<open>Lemmas on strings\<close>

lemma has_prefix_iff [go_string]: "has_prefix s p \<longleftrightarrow> (\<exists>t. s = p @ t)"
  by (induction s p rule: has_prefix.induct) auto

lemma has_prefix_append [simp]: "has_prefix (p @ t) p"
  by (auto simp: has_prefix_iff)

lemma trim_prefix_append [simp]: "trim_prefix (p @ t) p = t"
  by (simp add: trim_prefix_def)

lemma contains_str_iff [go_string]: "contains_str s sub \<longleftrightarrow> (\<exists>a b. s = a @ sub @ b)"
proof (induction s)
  case Nil
  then show ?case by auto
next
  case (Cons c s)
  show ?case
  proof
    assume "contains_str (c # s) sub"
    then consider "has_prefix (c # s) sub" | "contains_str s sub" by auto
    then show "\<exists>a b. c # s = a @ sub @ b"
    proof cases
      case 1
      then obtain t where "c # s = sub @ t" by (auto simp: has_prefix_iff)
      then have "c # s = [] @ sub @ t" by simp
      then show ?thesis by blast
    next
      case 2
      with Cons.IH obtain a b where "s = a @ sub @ b" by auto
      then have "c # s = (c # a) @ sub @ b" by simp
      then show ?thesis by blast
    qed
  next
    assume "\<exists>a b. c # s = a @ sub @ b"
    then obtain a b where ab: "c # s = a @ sub @ b" by blast
    show "contains_str (c # s) sub"
    proof (cases a)
      case Nil
      with ab show ?thesis by (metis append_Nil contains_str.simps(2) has_prefix_append)
    next
      case (Cons x xs)
      with ab have "s = xs @ sub @ b" by simp
      with Cons.IH show ?thesis by auto
    qed
  qed
qed

lemma contains_char_iff [go_string]: "contains_str s [c] \<longleftrightarrow> c \<in> set s"
  by (auto simp: contains_str_iff in_set_conv_decomp)

lemma contains_empty [simp]: "contains_str s []"
  by (cases s) auto

lemma has_prefix_first: "has_prefix (c # s) (d # p) \<Longrightarrow> c = d"
  by simp

text \<open>A pattern whose first byte does not occur is not found.\<close>

lemma replace_all_absent: "d \<notin> set s \<Longrightarrow> replace_all (d # old) new s = s"
  by (induction s) auto

lemma replace_all_append_absent:
  "d \<notin> set s \<Longrightarrow> replace_all (d # old) new (s @ t) = s @ replace_all (d # old) new t"
  by (induction s) auto

lemma replace_all_match:
  assumes "old \<noteq> []"
  shows "replace_all old new (old @ t) = new @ replace_all old new t"
  using assms by (cases old) auto

text \<open>Deleting a one-byte pattern is filtering.\<close>

lemma replace_all_delete_char: "replace_all [c] [] s = filter (\<lambda>x. x \<noteq> c) s"
  by (induction s) auto

lemma set_replace_all: "set (replace_all old new s) \<subseteq> set s \<union> set new"
proof (induction old new s rule: replace_all.induct)
  case (1 old new)
  then show ?case by simp
next
  case (2 old new c s)
  have "set (drop (length old) (c # s)) \<subseteq> set (c # s)" by (rule set_drop_subset)
  with 2 show ?case by auto
qed

lemma split_first_None [go_string]: "split_first c s = None \<longleftrightarrow> c \<notin> set s"
  by (induction s) auto

lemma split_first_Some [go_string]:
  "split_first c s = Some (a, b) \<longleftrightarrow> s = a @ c # b \<and> c \<notin> set a"
proof (induction s arbitrary: a b)
  case Nil
  then show ?case by simp
next
  case (Cons x xs)
  then show ?case by (cases a) (auto split: option.splits)
qed

lemma split_first_append [simp]: "c \<notin> set a \<Longrightarrow> split_first c (a @ c # b) = Some (a, b)"
  by (simp add: split_first_Some)

lemma split_last_None [go_string]: "split_last c s = None \<longleftrightarrow> c \<notin> set s"
  by (simp add: split_last_def split_first_None)

lemma split_last_Some [go_string]:
  "split_last c s = Some (a, b) \<longleftrightarrow> s = a @ c # b \<and> c \<notin> set b"
proof -
  have "split_last c s = Some (a, b) \<longleftrightarrow> split_first c (rev s) = Some (rev b, rev a)"
    by (auto simp: split_last_def)
  also have "\<dots> \<longleftrightarrow> rev s = rev b @ c # rev a \<and> c \<notin> set b"
    by (simp add: split_first_Some)
  also have "\<dots> \<longleftrightarrow> s = a @ c # b \<and> c \<notin> set b"
    by (metis append.assoc append_Cons append_Nil rev.simps(2) rev_append rev_rev_ident)
  finally show ?thesis .
qed

lemma equal_fold_refl [simp]: "equal_fold s s"
  by (simp add: equal_fold_def)

lemma equal_fold_sym: "equal_fold a b = equal_fold b a"
  by (auto simp: equal_fold_def)

lemma equal_fold_trans: "equal_fold a b \<Longrightarrow> equal_fold b c \<Longrightarrow> equal_fold a c"
  by (simp add: equal_fold_def)

section \<open>Lemmas on numerals\<close>

lemma char_of_digits [simp]:
  "char_of (48 :: nat) = CHR ''0''" "char_of (49 :: nat) = CHR ''1''" "char_of (50 :: nat) = CHR ''2''"
  "char_of (51 :: nat) = CHR ''3''" "char_of (52 :: nat) = CHR ''4''" "char_of (53 :: nat) = CHR ''5''"
  "char_of (54 :: nat) = CHR ''6''" "char_of (55 :: nat) = CHR ''7''" "char_of (56 :: nat) = CHR ''8''"
  "char_of (57 :: nat) = CHR ''9''"
  by (simp_all add: char_of_eq_iff)

lemma nat_of_digits_snoc [simp]: "nat_of_digits (s @ [c]) = 10 * nat_of_digits s + digit_val c"
  by (simp add: nat_of_digits_def)

lemma nat_of_digits_show_nat [simp]: "nat_of_digits (show_nat n) = n"
proof (induction n rule: show_nat.induct)
  case (1 n)
  show ?case
  proof (cases "n < 10")
    case True
    then show ?thesis
      by (subst show_nat.simps) (simp add: nat_of_digits_def digit_val_def)
  next
    case False
    with 1 show ?thesis
      by (subst show_nat.simps) (simp add: digit_val_def)
  qed
qed

lemma show_nat_digits: "show_nat n \<noteq> [] \<and> list_all is_digit (show_nat n)"
proof (induction n rule: show_nat.induct)
  case (1 n)
  show ?case
  proof (cases "n < 10")
    case True
    then show ?thesis
      by (subst (1 2) show_nat.simps) (simp add: is_digit_def)
  next
    case False
    have "is_digit (char_of (48 + n mod 10))" by (simp add: is_digit_def)
    with 1 False show ?thesis
      by (subst (1 2) show_nat.simps) simp
  qed
qed

lemma digit_not_punct:
  "is_digit c \<Longrightarrow> c \<noteq> CHR ''.''" "is_digit c \<Longrightarrow> c \<noteq> CHR '']''" "is_digit c \<Longrightarrow> c \<noteq> CHR ''[''"
  by (auto simp: is_digit_def)

text \<open>Padding to a fixed number of digits (\<open>%0kd\<close>).\<close>

definition pad_zeros :: "nat \<Rightarrow> string \<Rightarrow> string" where
  "pad_zeros k s = replicate (k - length s) (CHR ''0'') @ s"

lemma digit_val_zero: "digit_val (CHR ''0'') = 0"
  by (simp add: digit_val_def)

lemma nat_of_digits_Cons_zero: "nat_of_digits (CHR ''0'' # s) = nat_of_digits s"
  by (simp add: nat_of_digits_def digit_val_zero)

lemma nat_of_digits_pad [simp]: "nat_of_digits (pad_zeros k s) = nat_of_digits s"
proof -
  have "nat_of_digits (replicate j (CHR ''0'') @ s) = nat_of_digits s" for j
    by (induction j) (simp_all add: nat_of_digits_Cons_zero)
  then show ?thesis by (simp add: pad_zeros_def)
qed

lemma length_show_nat: "n < 10 ^ k \<Longrightarrow> 0 < k \<Longrightarrow> length (show_nat n) \<le> k"
proof (induction k arbitrary: n)
  case 0
  then show ?case by simp
next
  case (Suc k)
  show ?case
  proof (cases "n < 10")
    case True
    then show ?thesis by (simp add: show_nat.simps [of n])
  next
    case False
    have "n div 10 < 10 ^ k" using Suc.prems by (simp add: less_mult_imp_div_less mult.commute)
    moreover have "0 < k" using False Suc.prems by (cases k) auto
    ultimately show ?thesis using Suc.IH [of "n div 10"] False by (simp add: show_nat.simps [of n])
  qed
qed

lemma length_pad: "n < 10 ^ k \<Longrightarrow> 0 < k \<Longrightarrow> length (pad_zeros k (show_nat n)) = k"
  using length_show_nat [of n k] by (simp add: pad_zeros_def)

lemma digits_pad: "list_all is_digit (pad_zeros k (show_nat n))"
  using show_nat_digits [of n] by (auto simp: pad_zeros_def list_all_iff is_digit_def)

section \<open>Lemmas on lists\<close>

lemma filter_comp: "filter P (filter Q xs) = filter (\<lambda>x. Q x \<and> P x) xs"
  by (induction xs) auto

lemma map_of_filter_key: "map_of (filter (\<lambda>(k, v). k \<noteq> a) xs) b = (if a = b then None else map_of xs b)"
  by (induction xs) auto

lemma find_append: "List.find P (xs @ ys) = (case List.find P xs of None \<Rightarrow> List.find P ys | Some x \<Rightarrow> Some x)"
  by (induction xs) auto

end
