(* ===== verification/Store.thy ===== *)
theory Store
  imports Prelude Complex_Main
begin

text \<open>
  The rows of internal/models and the database they live in.

  The SQLite database behind internal/repo is one record of tables, each table a list of rows in
  insertion order. A repository operation is a function from a database to its result and the new
  database; results are sums, \<open>Inl\<close> an error. Every SQL statement can also fail for reasons outside
  the program (disk, lock, closed connection): the field \<open>d_faults\<close> is the environment's choice,
  one Boolean per statement to come, and \<open>db_op\<close> consumes it. An empty list means no further faults.

  Columns that are NULL exactly when the Go field is empty (NULLIF on the way in, COALESCE on the
  way out) are plain strings. Identifiers (UUIDs) and the clock are arguments of the operations.
\<close>

section \<open>Rows\<close>

text \<open>A time written with \<open>Format(time.RFC3339)\<close> and read back.\<close>

definition trunc_sec :: "go_time \<Rightarrow> go_time" where
  "trunc_sec t = second_ns * unix_secs t"

record app_row =
  ap_id :: string
  ap_name :: string
  ap_token :: string
  ap_profile_id :: string
  ap_config :: string
  ap_rate_limit :: int
  ap_created_at :: go_time

record event =
  ev_id :: string
  ev_level :: string
  ev_source_name :: string
  ev_source_type :: string
  ev_source_id :: string
  ev_title :: string
  ev_payload :: string
  ev_created_at :: go_time

record monitor_check =
  mc_id :: string
  mc_app_id :: string
  mc_name :: string
  mc_type :: string
  mc_target :: string
  mc_interval_secs :: int
  mc_expected_status :: int
  mc_ssl_warn_days :: int
  mc_ssl_crit_days :: int
  mc_source_component_id :: "string option"
  mc_skip_tls_verify :: bool
  mc_dns_record_type :: string
  mc_dns_expected_value :: string
  mc_dns_resolver :: string
  mc_enabled :: bool
  mc_last_checked_at :: "go_time option"
  mc_last_status :: string
  mc_last_result :: string
  mc_created_at :: go_time

record rule_condition =
  rc_field :: string
  rc_operator :: string
  rc_value :: string

record rule =
  ru_id :: string
  ru_name :: string
  ru_enabled :: bool
  ru_source_id :: "string option"
  ru_source_type :: "string option"
  ru_severity :: "string option"
  ru_conditions :: string
  ru_condition_logic :: string
  ru_delivery_email :: bool
  ru_delivery_push :: bool
  ru_delivery_webhook :: bool
  ru_webhook_url :: "string option"
  ru_notif_title :: string
  ru_notif_body :: string
  ru_created_at :: go_time
  ru_updated_at :: go_time

record rule_execution =
  ex_id :: string
  ex_rule_id :: string
  ex_event_id :: string
  ex_fired_at :: go_time
  ex_delivery :: string
  ex_success :: bool
  ex_error :: "string option"

record snapshot =
  sn_id :: string
  sn_entity_type :: string
  sn_entity_id :: string
  sn_metric_key :: string
  sn_metric_value :: string
  sn_previous_value :: "string option"
  sn_captured_at :: go_time

record registry_entry =
  dr_id :: string
  dr_profile_id :: string
  dr_source :: string
  dr_entry_type :: string
  dr_name :: string
  dr_label :: string
  dr_config :: string
  dr_profile_source :: string
  dr_active :: bool
  dr_created_at :: go_time
  dr_updated_at :: go_time

record component_link =
  cl_parent_type :: string
  cl_parent_id :: string
  cl_child_type :: string
  cl_child_id :: string

record container =
  dc_id :: string
  dc_infra_component_id :: string
  dc_source_type :: string
  dc_container_id :: string
  dc_container_name :: string
  dc_image :: string
  dc_status :: string
  dc_app_id :: "string option"
  dc_profile_suggestion :: "string option"
  dc_suggestion_confidence :: "int option"
  dc_last_seen_at :: go_time
  dc_created_at :: go_time
  dc_image_digest :: "string option"
  dc_registry_digest :: "string option"
  dc_image_update_available :: bool
  dc_image_last_checked_at :: "go_time option"
  dc_ports :: "string option"
  dc_labels :: "string option"
  dc_volumes :: "string option"
  dc_networks :: "string option"
  dc_restart_policy :: "string option"
  dc_docker_created_at :: "go_time option"
  dc_env_vars :: "string option"

record route =
  rt_id :: string
  rt_infrastructure_id :: string
  rt_router_name :: string
  rt_rule :: string
  rt_domain :: "string option"
  rt_container_id :: "string option"
  rt_app_id :: "string option"
  rt_ssl_expiry :: "go_time option"
  rt_ssl_issuer :: "string option"
  rt_last_seen_at :: go_time
  rt_created_at :: go_time
  rt_router_status :: string
  rt_provider :: "string option"
  rt_entry_points :: "string option"
  rt_has_tls_resolver :: int
  rt_cert_resolver_name :: "string option"
  rt_service_name :: "string option"
  rt_service_status :: "string option"
  rt_service_type :: "string option"
  rt_servers_total :: int
  rt_servers_up :: int
  rt_servers_down :: int
  rt_servers_json :: "string option"

record user_row =
  us_id :: string
  us_email :: string
  us_password_hash :: string
  us_role :: string
  us_totp_secret :: string
  us_totp_enabled :: bool
  us_totp_grace :: bool
  us_totp_exempt :: bool
  us_created_at :: go_time

record rollup =
  ro_app_id :: string
  ro_year :: int
  ro_month :: int
  ro_event_type :: string
  ro_severity :: string
  ro_count :: nat

record infra_component =
  ic_id :: string
  ic_name :: string
  ic_ip :: string
  ic_type :: string
  ic_collection_method :: string
  ic_credentials :: "string option"
  ic_snmp_config :: "string option"
  ic_meta :: "string option"
  ic_notes :: string
  ic_enabled :: bool
  ic_last_polled_at :: "string option"
  ic_last_status :: string
  ic_created_at :: string

record push_sub =
  ps_id :: string
  ps_user_id :: string
  ps_endpoint :: string
  ps_p256dh :: string
  ps_auth :: string
  ps_created_at :: go_time

text \<open>Values of REAL columns are finite float64 values, which are rationals.\<close>

record resource_reading =
  rd_id :: string
  rd_source_id :: string
  rd_source_type :: string
  rd_metric :: string
  rd_value :: rat
  rd_recorded_at :: go_time
  rd_app_id :: "string option"

record resource_rollup =
  rr_source_id :: string
  rr_source_type :: string
  rr_metric :: string
  rr_period_type :: string
  rr_period_start :: go_time
  rr_avg :: rat
  rr_min :: rat
  rr_max :: rat

record app_metric =
  am_app_id :: string
  am_period :: go_time
  am_events_per_hour :: nat
  am_avg_payload_bytes :: nat
  am_peak_per_minute :: nat

record polled_value =
  pv_id :: string
  pv_app_id :: string
  pv_profile_id :: string
  pv_metric_name :: string
  pv_label :: string
  pv_value :: string
  pv_value_type :: string
  pv_polled_at :: go_time

section \<open>The database\<close>

record db =
  d_apps :: "app_row list"
  d_events :: "event list"
  d_checks :: "monitor_check list"
  d_rules :: "rule list"
  d_execs :: "rule_execution list"
  d_snapshots :: "snapshot list"
  d_registry :: "registry_entry list"
  d_links :: "component_link list"
  d_containers :: "container list"
  d_routes :: "route list"
  d_users :: "user_row list"
  d_rollups :: "rollup list"
  d_components :: "infra_component list"
  d_subs :: "push_sub list"
  d_readings :: "resource_reading list"
  d_resource_rollups :: "resource_rollup list"
  d_metrics :: "app_metric list"
  d_polled :: "polled_value list"
  d_settings :: "(string \<times> string) list"
  d_faults :: "bool list"

definition empty_db :: db where
  "empty_db = \<lparr>d_apps = [], d_events = [], d_checks = [], d_rules = [], d_execs = [],
     d_snapshots = [], d_registry = [], d_links = [], d_containers = [], d_routes = [], d_users = [],
     d_rollups = [], d_components = [], d_subs = [],
     d_readings = [], d_resource_rollups = [], d_metrics = [], d_polled = [],
     d_settings = [], d_faults = []\<rparr>"

datatype db_error = DbFail | NotFound | Conflict

type_synonym 'a db_result = "(db_error + 'a) \<times> db"

text \<open>One SQL statement: the environment may make it fail before it has any effect.\<close>

definition db_op :: "(db \<Rightarrow> 'a db_result) \<Rightarrow> db \<Rightarrow> 'a db_result" where
  "db_op f d = (case d_faults d of
       [] \<Rightarrow> f d
     | b # bs \<Rightarrow> (if b then (Inl DbFail, d\<lparr>d_faults := bs\<rparr>) else f (d\<lparr>d_faults := bs\<rparr>)))"

text \<open>A query: its value, no effect.\<close>

definition db_query :: "(db \<Rightarrow> 'a) \<Rightarrow> db \<Rightarrow> 'a db_result" where
  "db_query q = db_op (\<lambda>d. (Inr (q d), d))"

text \<open>A statement whose error the code drops.\<close>

definition db_ignore :: "'a db_result \<Rightarrow> db" where
  "db_ignore r = snd r"

named_theorems db_simps \<open>unfolding of repository operations when no statement faults\<close>

lemma db_op_no_fault [simp]: "d_faults d = [] \<Longrightarrow> db_op f d = f d"
  by (simp add: db_op_def)

lemma db_query_no_fault [simp]: "d_faults d = [] \<Longrightarrow> db_query q d = (Inr (q d), d)"
  by (simp add: db_query_def)

lemma db_ignore_simp [simp]: "db_ignore (r, d) = d"
  by (simp add: db_ignore_def)

text \<open>A query changes nothing but the fault schedule.\<close>

lemma db_query_state:
  "snd (db_query q d) = d \<or> snd (db_query q d) = d\<lparr>d_faults := tl (d_faults d)\<rparr>"
  by (auto simp: db_query_def db_op_def split: list.splits)

text \<open>What a statement may do on the whole: an invariant that is blind to the fault schedule is
  kept by \<open>db_op f\<close> if \<open>f\<close> keeps it.\<close>

definition fault_blind :: "(db \<Rightarrow> bool) \<Rightarrow> bool" where
  "fault_blind P = (\<forall>d bs. P (d\<lparr>d_faults := bs\<rparr>) = P d)"

lemma db_op_invariant:
  assumes "fault_blind P" and "\<And>d. P d \<Longrightarrow> P (snd (f d))" and "P d"
  shows "P (snd (db_op f d))"
  using assms by (auto simp: db_op_def fault_blind_def split: list.splits)

lemma db_query_invariant: "fault_blind P \<Longrightarrow> P d \<Longrightarrow> P (snd (db_query q d))"
  unfolding db_query_def by (rule db_op_invariant) auto

text \<open>Loops that stop at the first error.\<close>

fun each_ok :: "('a \<Rightarrow> db \<Rightarrow> unit db_result) \<Rightarrow> 'a list \<Rightarrow> db \<Rightarrow> unit db_result" where
  "each_ok f [] d = (Inr (), d)"
| "each_ok f (x # xs) d = (case f x d of (Inl e, d1) \<Rightarrow> (Inl e, d1) | (Inr _, d1) \<Rightarrow> each_ok f xs d1)"

lemma each_ok_invariant:
  assumes "\<And>x d. P d \<Longrightarrow> P (snd (f x d))" and "P d"
  shows "P (snd (each_ok f xs d))"
  using assms(2)
proof (induction xs arbitrary: d)
  case (Cons x xs)
  show ?case
    using Cons.IH assms(1) [OF Cons.prems, of x] by (cases "f x d") (auto split: sum.split)
qed simp

text \<open>What an HTTP handler answers: a status with an error message, or with a value.\<close>

datatype 'a response = Failed nat string | Answer nat 'a

text \<open>SQL's \<open>ORDER BY key ASC\<close> and \<open>DESC\<close>; rows with equal keys keep their insertion order
  (SQLite leaves their order open).\<close>

definition order_asc :: "('a \<Rightarrow> 'k::linorder) \<Rightarrow> 'a list \<Rightarrow> 'a list" where
  "order_asc k xs = sort_key k xs"

definition order_desc :: "('a \<Rightarrow> int) \<Rightarrow> 'a list \<Rightarrow> 'a list" where
  "order_desc k xs = sort_key (\<lambda>x. - k x) xs"

lemma set_order_asc [simp]: "set (order_asc k xs) = set xs"
  by (simp add: order_asc_def)

lemma set_order_desc [simp]: "set (order_desc k xs) = set xs"
  by (simp add: order_desc_def)

lemma length_order_desc [simp]: "length (order_desc k xs) = length xs"
  by (simp add: order_desc_def)

lemma mset_order_asc [simp]: "mset (order_asc k xs) = mset xs"
  by (simp add: order_asc_def)

lemma mset_order_desc [simp]: "mset (order_desc k xs) = mset xs"
  by (simp add: order_desc_def)

lemma length_order_asc [simp]: "length (order_asc k xs) = length xs"
  by (simp add: order_asc_def)

text \<open>Updating the rows that satisfy a condition (\<open>UPDATE ... WHERE\<close>).\<close>

definition update_where :: "('a \<Rightarrow> bool) \<Rightarrow> ('a \<Rightarrow> 'a) \<Rightarrow> 'a list \<Rightarrow> 'a list" where
  "update_where P f xs = map (\<lambda>x. if P x then f x else x) xs"

lemma length_update_where [simp]: "length (update_where P f xs) = length xs"
  by (simp add: update_where_def)

lemma map_update_where: "(\<And>x. P x \<Longrightarrow> g (f x) = g x) \<Longrightarrow> map g (update_where P f xs) = map g xs"
  by (auto simp: update_where_def)

lemma set_update_where:
  "y \<in> set (update_where P f xs) \<longleftrightarrow> (\<exists>x \<in> set xs. y = (if P x then f x else x))"
  by (auto simp: update_where_def)

end
