(* ===== verification/Events.thy ===== *)
theory Events
  imports Store "HOL-Library.Sublist"
begin

text \<open>
  The events table: internal/repo/events.go, with the CHECK and PRIMARY KEY constraints that
  migrations/034 puts on it.

  \<open>datetime()\<close> comparisons work on whole seconds. SQLite's JSON1 function \<open>json_extract\<close> is a
  parameter: \<open>None\<close> is its "malformed JSON" error, \<open>Some None\<close> is SQL NULL.
\<close>

section \<open>Schema\<close>

definition event_levels :: "string list" where
  "event_levels = [''debug'', ''info'', ''warn'', ''error'', ''critical'']"

definition event_source_types :: "string list" where
  "event_source_types = [''app'', ''proxmox_node'', ''vm_linux'', ''vm_windows'', ''vm_other'',
     ''linux_host'', ''windows_host'', ''generic_host'', ''synology'', ''docker_engine'', ''traefik'',
     ''portainer'', ''container'', ''monitor_check'', ''physical_host'', ''system'']"

definition event_row_ok :: "event \<Rightarrow> bool" where
  "event_row_ok e = (ev_level e \<in> set event_levels \<and> ev_source_type e \<in> set event_source_types)"

definition events_ok :: "db \<Rightarrow> bool" where
  "events_ok d = (distinct (map ev_id (d_events d)) \<and> (\<forall>e \<in> set (d_events d). event_row_ok e))"

section \<open>Create, Get, DeleteByLevelBefore\<close>

text \<open>The INSERT fails on a duplicate id and on a level or source type outside the CHECK lists.\<close>

definition event_insertable :: "db \<Rightarrow> event \<Rightarrow> bool" where
  "event_insertable d e = (ev_id e \<notin> set (map ev_id (d_events d)) \<and> event_row_ok e)"

definition event_create :: "event \<Rightarrow> db \<Rightarrow> unit db_result" where
  "event_create e = db_op (\<lambda>d.
     if event_insertable d e then (Inr (), d\<lparr>d_events := d_events d @ [e]\<rparr>) else (Inl DbFail, d))"

definition event_get :: "string \<Rightarrow> db \<Rightarrow> event db_result" where
  "event_get eid = db_op (\<lambda>d. (case List.find (\<lambda>e. ev_id e = eid) (d_events d) of
       Some e \<Rightarrow> (Inr e, d) | None \<Rightarrow> (Inl NotFound, d)))"

definition expired_event :: "string \<Rightarrow> go_time \<Rightarrow> event \<Rightarrow> bool" where
  "expired_event level before e = (ev_level e = level \<and> unix_secs (ev_created_at e) < unix_secs before)"

definition event_delete_by_level_before :: "string \<Rightarrow> go_time \<Rightarrow> db \<Rightarrow> nat db_result" where
  "event_delete_by_level_before level before = db_op (\<lambda>d.
     (Inr (length (filter (expired_event level before) (d_events d))),
      d\<lparr>d_events := filter (\<lambda>e. \<not> expired_event level before e) (d_events d)\<rparr>))"

section \<open>List\<close>

record list_filter =
  lf_source_id :: string
  lf_source_type :: string
  lf_source_types :: "string list"
  lf_source_name :: string
  lf_search :: string
  lf_level :: "string list"
  lf_since :: "go_time option"
  lf_until :: "go_time option"
  lf_limit :: int
  lf_offset :: int
  lf_sort :: string

text \<open>SQL LIKE: \<open>%\<close> any run, \<open>_\<close> any one character, letters without regard to ASCII case.\<close>

fun like_match :: "string \<Rightarrow> string \<Rightarrow> bool" where
  "like_match [] s = (s = [])"
| "like_match (p # ps) [] = (p = CHR ''%'' \<and> like_match ps [])"
| "like_match (p # ps) (c # s) =
     (if p = CHR ''%'' then like_match ps (c # s) \<or> like_match (p # ps) s
      else (p = CHR ''_'' \<or> lower_char p = lower_char c) \<and> like_match ps s)"

definition build_where :: "list_filter \<Rightarrow> event \<Rightarrow> bool" where
  "build_where f e =
     ((lf_source_id f \<noteq> [] \<longrightarrow> ev_source_id e = lf_source_id f)
      \<and> (if lf_source_types f \<noteq> [] then ev_source_type e \<in> set (lf_source_types f)
         else lf_source_type f \<noteq> [] \<longrightarrow> ev_source_type e = lf_source_type f)
      \<and> (lf_source_name f \<noteq> [] \<longrightarrow> like_match (''%'' @ lf_source_name f @ ''%'') (ev_source_name e))
      \<and> (lf_search f \<noteq> [] \<longrightarrow> like_match (''%'' @ lf_search f @ ''%'') (ev_title e))
      \<and> (lf_level f \<noteq> [] \<longrightarrow> ev_level e \<in> set (lf_level f))
      \<and> (case lf_since f of None \<Rightarrow> True | Some t \<Rightarrow> unix_secs t \<le> unix_secs (ev_created_at e))
      \<and> (case lf_until f of None \<Rightarrow> True | Some t \<Rightarrow> unix_secs (ev_created_at e) \<le> unix_secs t))"

definition lev_order :: "string \<Rightarrow> int" where
  "lev_order l = (if l = ''critical'' then 5 else if l = ''error'' then 4 else if l = ''warn'' then 3
     else if l = ''info'' then 2 else if l = ''debug'' then 1 else 0)"

definition event_order :: "string \<Rightarrow> event list \<Rightarrow> event list" where
  "event_order s es =
     (if s = ''oldest'' then order_asc ev_created_at es
      else if s = ''level_desc'' then order_desc (\<lambda>e. lev_order (ev_level e)) (order_desc ev_created_at es)
      else if s = ''level_asc'' then order_asc (\<lambda>e. lev_order (ev_level e)) (order_desc ev_created_at es)
      else order_desc ev_created_at es)"

definition clamp_limit :: "int \<Rightarrow> int" where
  "clamp_limit n = (let n1 = (if n \<le> 0 then 50 else n) in if n1 > 500 then 500 else n1)"

definition strip_payload :: "event \<Rightarrow> event" where
  "strip_payload e = e\<lparr>ev_payload := []\<rparr>"

definition page_of :: "int \<Rightarrow> int \<Rightarrow> 'a list \<Rightarrow> 'a list" where
  "page_of limit offset xs = take (nat limit) (drop (nat offset) xs)"

definition event_list :: "list_filter \<Rightarrow> db \<Rightarrow> (event list \<times> nat) db_result" where
  "event_list f d0 =
     (let limit = clamp_limit (lf_limit f);
          offset = (if lf_offset f < 0 then 0 else lf_offset f) in
      case db_query (\<lambda>d. length (filter (build_where f) (d_events d))) d0 of
        (Inl e, d1) \<Rightarrow> (Inl e, d1)
      | (Inr cnt, d1) \<Rightarrow>
          (case db_query (\<lambda>d. map strip_payload
                 (page_of limit offset (event_order (lf_sort f) (filter (build_where f) (d_events d))))) d1 of
             (Inl e, d2) \<Rightarrow> (Inl e, d2)
           | (Inr page, d2) \<Rightarrow> (Inr (page, cnt), d2)))"

section \<open>Aggregates\<close>

definition app_window :: "string \<Rightarrow> go_time \<Rightarrow> go_time \<Rightarrow> event \<Rightarrow> bool" where
  "app_window source_id since until e =
     (ev_source_id e = source_id \<and> ev_source_type e = ''app''
      \<and> unix_secs since \<le> unix_secs (ev_created_at e) \<and> unix_secs (ev_created_at e) < unix_secs until)"

record event_type_count =
  tc_event_type :: string
  tc_level :: string
  tc_count :: nat

text \<open>\<open>GROUP BY event_type, level\<close>: one row per pair that occurs, with the number of its events.
  One malformed payload among the selected rows makes the whole query fail.\<close>

definition event_group_by_type_and_level ::
  "(string \<Rightarrow> string \<Rightarrow> string option option) \<Rightarrow> string \<Rightarrow> go_time \<Rightarrow> go_time \<Rightarrow> db
     \<Rightarrow> event_type_count list db_result" where
  "event_group_by_type_and_level jx source_id since until = db_op (\<lambda>d.
     let rows = filter (app_window source_id since until) (d_events d);
         key = (\<lambda>e. (case jx (ev_payload e) ''$.event_type'' of
                        Some (Some t) \<Rightarrow> t | _ \<Rightarrow> [], ev_level e)) in
     if \<exists>e \<in> set rows. jx (ev_payload e) ''$.event_type'' = None then (Inl DbFail, d)
     else (Inr (map (\<lambda>(t, l). \<lparr>tc_event_type = t, tc_level = l,
                       tc_count = count_list (map key rows) (t, l)\<rparr>) (remdups (map key rows))), d))"

record event_metrics =
  em_events_per_hour :: nat
  em_avg_payload_bytes :: nat
  em_peak_per_minute :: nat

text \<open>SQL \<open>LENGTH\<close> of a text counts characters: the UTF-8 bytes that do not continue one.\<close>

definition sql_length :: "string \<Rightarrow> nat" where
  "sql_length s = length (filter (\<lambda>c. let n = of_char c :: nat in \<not> (128 \<le> n \<and> n < 192)) s)"

definition minute_of :: "event \<Rightarrow> int" where
  "minute_of e = ev_created_at e div minute_ns"

definition max_count :: "nat list \<Rightarrow> nat" where
  "max_count ns = foldr max ns 0"

definition peak_per_minute :: "event list \<Rightarrow> nat" where
  "peak_per_minute rows =
     max_count (map (\<lambda>m. count_list (map minute_of rows) m) (remdups (map minute_of rows)))"

definition avg_payload :: "event list \<Rightarrow> nat" where
  "avg_payload rows = (let ps = filter (\<lambda>e. ev_payload e \<noteq> []) rows in
     if ps = [] then 0 else sum_list (map (\<lambda>e. sql_length (ev_payload e)) ps) div length ps)"

definition event_metrics_for_app :: "string \<Rightarrow> go_time \<Rightarrow> go_time \<Rightarrow> db \<Rightarrow> event_metrics db_result" where
  "event_metrics_for_app app_id since until d0 =
     (let rows = (\<lambda>d. filter (app_window app_id since until) (d_events d)) in
      case db_query (\<lambda>d. (length (rows d), avg_payload (rows d))) d0 of
        (Inl e, d1) \<Rightarrow> (Inl e, d1)
      | (Inr (n, avg), d1) \<Rightarrow>
          (case db_query (\<lambda>d. peak_per_minute (rows d)) d1 of
             (Inl e, d2) \<Rightarrow> (Inl e, d2)
           | (Inr peak, d2) \<Rightarrow> (Inr \<lparr>em_events_per_hour = n, em_avg_payload_bytes = avg,
                                   em_peak_per_minute = peak\<rparr>, d2)))"

text \<open>The latest event of each app; rows with equal timestamps overwrite each other.\<close>

definition event_latest_per_app :: "string list \<Rightarrow> db \<Rightarrow> (string \<rightharpoonup> event) db_result" where
  "event_latest_per_app ids d0 =
     (if ids = [] then (Inr Map.empty, d0)
      else db_query (\<lambda>d.
        foldl (\<lambda>m e. m(ev_source_id e \<mapsto> strip_payload e)) Map.empty
          (filter (\<lambda>e. ev_source_id e \<in> set ids \<and> ev_source_type e = ''app''
             \<and> (\<forall>e2 \<in> set (d_events d). ev_source_id e2 = ev_source_id e \<and> ev_source_type e2 = ''app''
                   \<longrightarrow> ev_created_at e2 \<le> ev_created_at e)) (d_events d))) d0)"

section \<open>Lemmas\<close>

lemma event_create_cases:
  assumes "event_create e d = (r, d')"
  shows "(r = Inr () \<and> event_insertable d e \<and> d_events d' = d_events d @ [e])
       \<or> (r = Inl DbFail \<and> d_events d' = d_events d)"
  using assms
  by (auto simp: event_create_def db_op_def event_insertable_def split: list.splits if_splits)

lemma event_create_no_fault [db_simps]:
  "d_faults d = [] \<Longrightarrow> event_insertable d e \<Longrightarrow>
     event_create e d = (Inr (), d\<lparr>d_events := d_events d @ [e]\<rparr>)"
  by (simp add: event_create_def)

lemma event_create_other_tables [simp]:
  "d_checks (snd (event_create e d)) = d_checks d"
  "d_apps (snd (event_create e d)) = d_apps d"
  "d_snapshots (snd (event_create e d)) = d_snapshots d"
  "d_rules (snd (event_create e d)) = d_rules d"
  "d_execs (snd (event_create e d)) = d_execs d"
  "d_containers (snd (event_create e d)) = d_containers d"
  by (auto simp: event_create_def db_op_def split: list.splits)

lemma events_ok_fault_blind: "fault_blind events_ok"
  by (simp add: fault_blind_def events_ok_def)

lemma event_create_ok: "events_ok d \<Longrightarrow> events_ok (snd (event_create e d))"
  unfolding event_create_def
  by (rule db_op_invariant [OF events_ok_fault_blind])
    (auto simp: events_ok_def event_insertable_def)

lemma distinct_map_filter_keep: "distinct (map f xs) \<Longrightarrow> distinct (map f (filter P xs))"
  by (rule distinct_map_filter)

lemma event_delete_ok: "events_ok d \<Longrightarrow> events_ok (snd (event_delete_by_level_before l t d))"
  unfolding event_delete_by_level_before_def
  by (rule db_op_invariant [OF events_ok_fault_blind])
    (auto simp: events_ok_def distinct_map_filter_keep)

lemma clamp_limit_bounds: "1 \<le> clamp_limit n \<and> clamp_limit n \<le> 500"
  by (simp add: clamp_limit_def Let_def)

lemma length_page_of: "length (page_of l k xs) \<le> nat l"
  by (simp add: page_of_def)

lemma set_event_order [simp]: "set (event_order s es) = set es"
  by (simp add: event_order_def)

lemma length_event_order [simp]: "length (event_order s es) = length es"
  by (simp add: event_order_def)

lemma event_list_no_fault:
  "d_faults d = [] \<Longrightarrow> event_list f d =
     (Inr (map strip_payload (page_of (clamp_limit (lf_limit f))
             (if lf_offset f < 0 then 0 else lf_offset f)
             (event_order (lf_sort f) (filter (build_where f) (d_events d)))),
           length (filter (build_where f) (d_events d))), d)"
  by (simp add: event_list_def Let_def)

text \<open>Consecutive pages put together are a prefix, and enough of them are the whole list.\<close>

lemma pages_concat:
  assumes "0 < l"
  shows "concat (map (\<lambda>k. page_of l (int k * l) xs) [0..<n]) = take (n * nat l) xs"
proof (induction n)
  case 0
  then show ?case by simp
next
  case (Suc n)
  have off: "nat (int n * l) = n * nat l"
    using assms by (simp add: nat_mult_distrib)
  have "concat (map (\<lambda>k. page_of l (int k * l) xs) [0..<Suc n])
      = take (n * nat l) xs @ take (nat l) (drop (n * nat l) xs)"
    using Suc.IH by (simp add: page_of_def off)
  also have "\<dots> = take (n * nat l + nat l) xs"
    by (simp add: take_add)
  finally show ?case by (simp add: add.commute)
qed

lemma like_match_percent: "like_match (CHR ''%'' # ps) s \<longleftrightarrow> (\<exists>a b. s = a @ b \<and> like_match ps b)"
proof (induction s)
  case Nil
  then show ?case by simp
next
  case (Cons c s)
  have "(\<exists>a b. c # s = a @ b \<and> like_match ps b)
      \<longleftrightarrow> like_match ps (c # s) \<or> (\<exists>a b. s = a @ b \<and> like_match ps b)"
    by (metis append_Cons append_Nil append_eq_Cons_conv)
  with Cons.IH show ?case by simp
qed

text \<open>A pattern without wildcards matches up to case; one with a final \<open>%\<close> matches a prefix.\<close>

lemma like_match_literal_prefix:
  assumes "CHR ''%'' \<notin> set p" and "CHR ''_'' \<notin> set p"
  shows "like_match (p @ ''%'') s \<longleftrightarrow> has_prefix (to_lower s) (to_lower p)"
  using assms
proof (induction p arbitrary: s)
  case Nil
  have "like_match ''%'' s"
    unfolding like_match_percent by (rule exI [of _ s]) simp
  then show ?case by (simp add: to_lower_def)
next
  case (Cons a p)
  then show ?case by (cases s) (auto simp: to_lower_def)
qed

lemma contains_str_prefix_tail:
  "contains_str s sub \<longleftrightarrow> (\<exists>a b. s = a @ b \<and> has_prefix b sub)"
  by (auto simp: contains_str_iff has_prefix_iff)

lemma to_lower_append: "to_lower (a @ b) = to_lower a @ to_lower b"
  by (simp add: to_lower_def)

lemma map_append_conv: "map f s = a @ b \<longleftrightarrow> (\<exists>x y. s = x @ y \<and> map f x = a \<and> map f y = b)"
  by (metis map_append map_eq_append_conv)

lemma like_match_literal:
  assumes "CHR ''%'' \<notin> set p" and "CHR ''_'' \<notin> set p"
  shows "like_match (''%'' @ p @ ''%'') s \<longleftrightarrow> contains_str (to_lower s) (to_lower p)"
proof -
  have "like_match (''%'' @ p @ ''%'') s \<longleftrightarrow> (\<exists>a b. s = a @ b \<and> has_prefix (to_lower b) (to_lower p))"
    using like_match_percent [of "p @ ''%''" s] like_match_literal_prefix [OF assms] by simp
  also have "\<dots> \<longleftrightarrow> contains_str (to_lower s) (to_lower p)"
    unfolding contains_str_prefix_tail to_lower_def map_append_conv by metis
  finally show ?thesis .
qed

text \<open>Counting by minute.\<close>

lemma max_count_upper: "n \<in> set ns \<Longrightarrow> n \<le> max_count ns"
  by (induction ns) (auto simp: max_count_def le_max_iff_disj)

lemma max_count_least: "(\<And>n. n \<in> set ns \<Longrightarrow> n \<le> b) \<Longrightarrow> max_count ns \<le> b"
  by (induction ns) (auto simp: max_count_def)

lemma count_minute_le_peak: "count_list (map minute_of rows) m \<le> peak_per_minute rows"
proof (cases "m \<in> set (map minute_of rows)")
  case True
  then show ?thesis unfolding peak_per_minute_def by (auto intro!: max_count_upper)
next
  case False
  then show ?thesis by (simp add: count_notin)
qed

lemma length_le_minutes_times_peak:
  "length rows \<le> card (set (map minute_of rows)) * peak_per_minute rows"
proof -
  have "length rows = (\<Sum>m \<in> set (map minute_of rows). count_list (map minute_of rows) m)"
    using sum_count_set [of "map minute_of rows" "set (map minute_of rows)"] by simp
  also have "\<dots> \<le> (\<Sum>m \<in> set (map minute_of rows). peak_per_minute rows)"
    by (rule sum_mono) (rule count_minute_le_peak)
  finally show ?thesis by simp
qed

lemma peak_le_length: "peak_per_minute rows \<le> length rows"
  unfolding peak_per_minute_def
  by (rule max_count_least) (use count_le_length [of "map minute_of rows"] in auto)

text \<open>In an hour that starts on a minute there are sixty minutes.\<close>

lemma minutes_of_hour:
  assumes "since mod minute_ns = 0" and "\<forall>e \<in> set rows. app_window a since (since + hour_ns) e"
  shows "card (set (map minute_of rows)) \<le> 60"
proof -
  let ?m = "since div minute_ns"
  have "set (map minute_of rows) \<subseteq> {?m ..< ?m + 60}"
  proof
    fix x assume "x \<in> set (map minute_of rows)"
    then obtain e where e: "e \<in> set rows" and x: "x = ev_created_at e div minute_ns"
      by (auto simp: minute_of_def)
    with assms(2) have "since div second_ns \<le> ev_created_at e div second_ns"
      and "ev_created_at e div second_ns < (since + hour_ns) div second_ns"
      by (auto simp: app_window_def unix_secs_def)
    moreover obtain k where k: "since = minute_ns * k"
      using assms(1) by (meson mod_0_imp_dvd dvdE)
    ultimately have "60 * k \<le> ev_created_at e div second_ns" "ev_created_at e div second_ns < 60 * k + 3600"
      by auto
    then have "k \<le> ev_created_at e div minute_ns" "ev_created_at e div minute_ns < k + 60"
      by (auto simp: zdiv_zmult2_eq [of 60 _ second_ns, simplified])
    with k x show "x \<in> {?m ..< ?m + 60}" by simp
  qed
  then have "card (set (map minute_of rows)) \<le> card {?m ..< ?m + 60}"
    by (rule card_mono [rotated]) simp
  then show ?thesis by simp
qed

section \<open>The contract of an event store\<close>

text \<open>What the components that write events rely on: \<open>Create\<close> appends the event, which then satisfies
  the schema, or reports an error and changes nothing.\<close>

locale event_sink =
  fixes create :: "event \<Rightarrow> 's \<Rightarrow> ('e + unit) \<times> 's"
    and rows :: "'s \<Rightarrow> event list"
    and row_ok :: "event \<Rightarrow> bool"
  assumes create_stores: "create e s = (Inr u, s2) \<Longrightarrow> rows s2 = rows s @ [e] \<and> row_ok e"
    and create_fails: "create e s = (Inl err, s2) \<Longrightarrow> rows s2 = rows s"

text \<open>Writing events one after the other, errors being logged and dropped.\<close>

definition post_all :: "(event \<Rightarrow> 's \<Rightarrow> ('e + unit) \<times> 's) \<Rightarrow> event list \<Rightarrow> 's \<Rightarrow> 's" where
  "post_all create es s = foldl (\<lambda>s e. snd (create e s)) s es"

context event_sink
begin

lemma post_one: "rows (snd (create e s)) = rows s @ [e] \<and> row_ok e \<or> rows (snd (create e s)) = rows s"
proof (cases "create e s")
  case (Pair r s2)
  then show ?thesis using create_stores create_fails by (cases r) auto
qed

lemma post_all_rows:
  "\<exists>written. rows (post_all create es s) = rows s @ written \<and> subseq written es \<and> list_all row_ok written"
proof (induction es arbitrary: s)
  case Nil
  then show ?case by (auto simp: post_all_def)
next
  case (Cons e es)
  obtain written where w: "rows (post_all create es (snd (create e s))) = rows (snd (create e s)) @ written"
    "subseq written es" "list_all row_ok written"
    using Cons.IH by blast
  have unfold: "post_all create (e # es) s = post_all create es (snd (create e s))"
    by (simp add: post_all_def)
  from post_one [of e s] show ?case
  proof
    assume "rows (snd (create e s)) = rows s @ [e] \<and> row_ok e"
    with w show ?thesis unfolding unfold by (intro exI [of _ "e # written"]) auto
  next
    assume "rows (snd (create e s)) = rows s"
    with w show ?thesis unfolding unfold by (intro exI [of _ written]) auto
  qed
qed

end

interpretation stored_events: event_sink event_create d_events event_row_ok
proof
  fix e d u d2 assume "event_create e d = (Inr u, d2)"
  from event_create_cases [OF this] show "d_events d2 = d_events d @ [e] \<and> event_row_ok e"
    by (auto simp: event_insertable_def)
next
  fix e d err d2 assume "event_create e d = (Inl err, d2)"
  from event_create_cases [OF this] show "d_events d2 = d_events d" by auto
qed

end
