(* ===== verification/EventsApi.thy ===== *)
theory EventsApi
  imports Events
begin

text \<open>
  The event queries of internal/repo/events.go that the dashboard and the digest use, and the HTTP
  handlers of internal/api/events.go.

  A request is the function \<open>q\<close> from the names of its query parameters to their values, the empty
  string for an absent one. \<open>time.Parse(time.RFC3339, s)\<close> is the argument \<open>parse_time\<close>. The label
  \<open>strftime\<close> gives a bucket is a one-to-one and monotone rendering of the time the bucket starts at
  (for four-digit years), so a bucket carries that time here.
\<close>

section \<open>Counting\<close>

record category_filter =
  cf_source_ids :: "string list"
  cf_match_field :: string
  cf_match_value :: string
  cf_and_field :: string
  cf_and_value :: string
  cf_match_level :: string
  cf_since :: "go_time option"
  cf_until :: "go_time option"

text \<open>\<open>json_extract(payload, '$.f') = v\<close>: SQL NULL is not equal to anything, and the statement fails on
  malformed JSON.\<close>

definition payload_field_is ::
  "(string \<Rightarrow> string \<Rightarrow> string option option) \<Rightarrow> string \<Rightarrow> string \<Rightarrow> event \<Rightarrow> bool option" where
  "payload_field_is jx field value e =
     (if field = [] \<or> value = [] then Some True
      else map_option (\<lambda>v. v = Some value) (jx (ev_payload e) (''$.'' @ field)))"

fun sql_and :: "bool option \<Rightarrow> bool option \<Rightarrow> bool option" where
  "sql_and (Some False) b = Some False"
| "sql_and (Some True) b = b"
| "sql_and None b = None"

definition build_category_where ::
  "(string \<Rightarrow> string \<Rightarrow> string option option) \<Rightarrow> category_filter \<Rightarrow> event \<Rightarrow> bool option" where
  "build_category_where jx f e =
     sql_and (Some (cf_source_ids f \<noteq> [] \<longrightarrow> ev_source_id e \<in> set (cf_source_ids f)))
    (sql_and (payload_field_is jx (cf_match_field f) (cf_match_value f) e)
    (sql_and (payload_field_is jx (cf_and_field f) (cf_and_value f) e)
    (Some ((cf_match_level f \<noteq> [] \<longrightarrow> ev_level e = cf_match_level f)
      \<and> (case cf_since f of None \<Rightarrow> True | Some t \<Rightarrow> unix_secs t \<le> unix_secs (ev_created_at e))
      \<and> (case cf_until f of None \<Rightarrow> True | Some t \<Rightarrow> unix_secs (ev_created_at e) \<le> unix_secs t)))))"

definition event_count_for_category ::
  "(string \<Rightarrow> string \<Rightarrow> string option option) \<Rightarrow> category_filter \<Rightarrow> db \<Rightarrow> nat db_result" where
  "event_count_for_category jx f = db_op (\<lambda>d.
     if \<exists>e \<in> set (d_events d). build_category_where jx f e = None then (Inl DbFail, d)
     else (Inr (length (filter (\<lambda>e. build_category_where jx f e = Some True) (d_events d))), d))"

record timeseries_bucket =
  tb_start :: go_time
  tb_count :: nat

definition bucket_start :: "string \<Rightarrow> event \<Rightarrow> go_time" where
  "bucket_start granularity e =
     (if granularity = ''hour'' then hour_ns * (ev_created_at e div hour_ns)
      else day_ns * (ev_created_at e div day_ns))"

definition in_timeseries :: "go_time \<Rightarrow> go_time \<Rightarrow> string \<Rightarrow> string \<Rightarrow> event \<Rightarrow> bool" where
  "in_timeseries since until source_id level e =
     (unix_secs since \<le> unix_secs (ev_created_at e) \<and> unix_secs (ev_created_at e) \<le> unix_secs until
      \<and> (source_id \<noteq> [] \<longrightarrow> ev_source_id e = source_id) \<and> (level \<noteq> [] \<longrightarrow> ev_level e = level))"

definition event_timeseries ::
  "go_time \<Rightarrow> go_time \<Rightarrow> string \<Rightarrow> string \<Rightarrow> string \<Rightarrow> db \<Rightarrow> timeseries_bucket list db_result" where
  "event_timeseries since until granularity source_id level = db_query (\<lambda>d.
     let starts = map (bucket_start granularity)
                    (filter (in_timeseries since until source_id level) (d_events d)) in
     map (\<lambda>t. \<lparr>tb_start = t, tb_count = count_list starts t\<rparr>) (sort (remdups starts)))"

record app_event_count =
  ac_app_id :: string
  ac_app_name :: string
  ac_count :: nat

text \<open>The name shown for a group is that of one of its rows, the first here.\<close>

definition event_count_per_app :: "go_time \<Rightarrow> db \<Rightarrow> app_event_count list db_result" where
  "event_count_per_app since = db_query (\<lambda>d.
     let rows = filter (\<lambda>e. ev_source_type e = ''app'' \<and> ev_source_id e \<noteq> []
                  \<and> unix_secs since \<le> unix_secs (ev_created_at e)) (d_events d) in
     order_desc (\<lambda>a. int (ac_count a))
       (map (\<lambda>a. \<lparr>ac_app_id = a,
                  ac_app_name = (case List.find (\<lambda>e. ev_source_id e = a) rows of
                                   Some e \<Rightarrow> ev_source_name e | None \<Rightarrow> a),
                  ac_count = count_list (map ev_source_id rows) a\<rparr>)
            (remdups (map ev_source_id rows))))"

section \<open>Query parameters\<close>

text \<open>\<open>strconv.Atoi\<close> on a 64-bit platform.\<close>

definition go_atoi :: "string \<Rightarrow> int option" where
  "go_atoi s =
     (let (neg, digits) = (case s of c # ds \<Rightarrow> if c = CHR ''-'' then (True, ds)
                                     else if c = CHR ''+'' then (False, ds) else (False, s)
                                 | [] \<Rightarrow> (False, [])) in
      if digits = [] \<or> \<not> list_all is_digit digits then None
      else let n = (if neg then - int (nat_of_digits digits) else int (nat_of_digits digits)) in
           if - (2 ^ 63) \<le> n \<and> n < 2 ^ 63 then Some n else None)"

definition is_space :: "char \<Rightarrow> bool" where
  "is_space c = (let n = of_char c :: nat in n = 32 \<or> (9 \<le> n \<and> n \<le> 13))"

definition trim_space :: "string \<Rightarrow> string" where
  "trim_space s = rev (dropWhile is_space (rev (dropWhile is_space s)))"

fun split_on :: "char \<Rightarrow> string \<Rightarrow> string list" where
  "split_on c [] = [[]]"
| "split_on c (x # xs) =
     (if x = c then [] # split_on c xs
      else (case split_on c xs of [] \<Rightarrow> [[x]] | w # ws \<Rightarrow> (x # w) # ws))"

definition infra_source_types :: "string list" where
  "infra_source_types = [''physical_host'', ''proxmox_node'', ''vm_linux'', ''vm_windows'', ''vm_other'',
     ''linux_host'', ''windows_host'', ''generic_host'', ''synology'', ''docker_engine'', ''traefik'',
     ''portainer'', ''container'']"

text \<open>An optional bound: absent, or a time, or malformed.\<close>

definition parse_bound ::
  "(string \<Rightarrow> go_time option) \<Rightarrow> string \<Rightarrow> string \<Rightarrow> string + go_time option" where
  "parse_bound parse_time name s =
     (if s = [] then Inr None
      else case parse_time s of
             None \<Rightarrow> Inl (''invalid '' @ name @ '': must be RFC3339'')
           | Some t \<Rightarrow> Inr (Some t))"

definition parse_int_param :: "int \<Rightarrow> int \<Rightarrow> string \<Rightarrow> string \<Rightarrow> string + int" where
  "parse_int_param least absent msg s =
     (if s = [] then Inr absent
      else case go_atoi s of
             None \<Rightarrow> Inl msg
           | Some n \<Rightarrow> if n < least then Inl msg else Inr n)"

definition parse_filter ::
  "(string \<Rightarrow> go_time option) \<Rightarrow> (string \<Rightarrow> string) \<Rightarrow> string + list_filter" where
  "parse_filter parse_time q =
     (let st = q ''source_type'';
          levels = filter (\<lambda>l. l \<noteq> []) (map trim_space (split_on (CHR '','') (q ''level'')));
          sort_by = q ''sort'' in
      case parse_bound parse_time ''since'' (q ''since'') of
        Inl e \<Rightarrow> Inl e
      | Inr since \<Rightarrow>
      (case parse_bound parse_time ''until'' (q ''until'') of
         Inl e \<Rightarrow> Inl e
       | Inr until \<Rightarrow>
      (case parse_int_param 1 50 ''invalid limit: must be a positive integer'' (q ''limit'') of
         Inl e \<Rightarrow> Inl e
       | Inr limit \<Rightarrow>
      (case parse_int_param 0 0 ''invalid offset: must be a non-negative integer'' (q ''offset'') of
         Inl e \<Rightarrow> Inl e
       | Inr offset \<Rightarrow>
           Inr \<lparr>lf_source_id = q ''source_id'',
             lf_source_type = (if st = ''infra'' then [] else if st = ''check'' then ''monitor_check'' else st),
             lf_source_types = (if st = ''infra'' then infra_source_types else []),
             lf_source_name = q ''source_name'', lf_search = q ''search'', lf_level = levels,
             lf_since = since, lf_until = until, lf_limit = limit, lf_offset = offset,
             lf_sort = (if sort_by \<in> {''newest'', ''oldest'', ''level_desc'', ''level_asc''}
                        then sort_by else [])\<rparr>))))"

section \<open>Handlers\<close>

definition raw_or_empty :: "string \<Rightarrow> string" where
  "raw_or_empty s = (if s = [] \<or> s = ''null'' then ''{}'' else s)"

definition to_event_detail :: "event \<Rightarrow> event" where
  "to_event_detail e = e\<lparr>ev_payload := raw_or_empty (ev_payload e)\<rparr>"

record list_events_response =
  le_data :: "event list"  \<comment> \<open>items: no payload\<close>
  le_total :: nat
  le_limit :: int
  le_offset :: int

definition answer_page :: "list_filter \<Rightarrow> db \<Rightarrow> list_events_response response \<times> db" where
  "answer_page f d0 =
     (case event_list f d0 of
        (Inl _, d1) \<Rightarrow> (Failed 500 ''database'', d1)
      | (Inr (es, n), d1) \<Rightarrow>
          (Answer 200 \<lparr>le_data = es, le_total = n, le_limit = lf_limit f, le_offset = lf_offset f\<rparr>, d1))"

definition events_handler_list ::
  "(string \<Rightarrow> go_time option) \<Rightarrow> (string \<Rightarrow> string) \<Rightarrow> db \<Rightarrow> list_events_response response \<times> db" where
  "events_handler_list parse_time q d =
     (case parse_filter parse_time q of Inl msg \<Rightarrow> (Failed 400 msg, d) | Inr f \<Rightarrow> answer_page f d)"

definition events_handler_list_by_app ::
  "(string \<Rightarrow> go_time option) \<Rightarrow> string \<Rightarrow> (string \<Rightarrow> string) \<Rightarrow> db
     \<Rightarrow> list_events_response response \<times> db" where
  "events_handler_list_by_app parse_time app_id q d =
     (case parse_filter parse_time q of
        Inl msg \<Rightarrow> (Failed 400 msg, d)
      | Inr f \<Rightarrow> answer_page (f\<lparr>lf_source_id := app_id, lf_source_type := ''app''\<rparr>) d)"

definition events_handler_get :: "string \<Rightarrow> db \<Rightarrow> event response \<times> db" where
  "events_handler_get eid d0 =
     (case event_get eid d0 of
        (Inl NotFound, d1) \<Rightarrow> (Failed 404 ''event not found'', d1)
      | (Inl _, d1) \<Rightarrow> (Failed 500 ''database'', d1)
      | (Inr e, d1) \<Rightarrow> (Answer 200 (to_event_detail e), d1))"

definition events_handler_timeseries ::
  "(string \<Rightarrow> go_time option) \<Rightarrow> go_time \<Rightarrow> (string \<Rightarrow> string) \<Rightarrow> db
     \<Rightarrow> timeseries_bucket list response \<times> db" where
  "events_handler_timeseries parse_time now q d =
     (let granularity = (if q ''granularity'' = ''hour'' \<or> q ''granularity'' = ''day''
                         then q ''granularity'' else ''day'') in
      case parse_bound parse_time ''since'' (q ''since'') of
        Inl msg \<Rightarrow> (Failed 400 msg, d)
      | Inr since \<Rightarrow>
      (case parse_bound parse_time ''until'' (q ''until'') of
         Inl msg \<Rightarrow> (Failed 400 msg, d)
       | Inr until \<Rightarrow>
      (case event_timeseries (case since of Some t \<Rightarrow> t | None \<Rightarrow> now - 7 * day_ns)
              (case until of Some t \<Rightarrow> t | None \<Rightarrow> now)
              granularity (q ''source_id'') (q ''level'') d of
         (Inl _, d1) \<Rightarrow> (Failed 500 ''database'', d1)
       | (Inr bs, d1) \<Rightarrow> (Answer 200 bs, d1))))"

section \<open>Properties\<close>

text \<open>Nothing the program does to the events table breaks its schema: identifiers stay unique and
  every row keeps a level and a source type of the CHECK lists, whether the statement succeeds or
  not.\<close>

theorem events_schema_kept:
  assumes "events_ok d"
  shows "events_ok (snd (event_create e d)) \<and> events_ok (snd (event_delete_by_level_before l t d))"
  using event_create_ok [OF assms] event_delete_ok [OF assms] by simp

theorem events_schema_kept_witness:
  "events_ok empty_db
   \<and> events_ok (snd (event_create \<lparr>ev_id = ''e1'', ev_level = ''info'', ev_source_name = ''nora'',
        ev_source_type = ''system'', ev_source_id = [], ev_title = ''started'', ev_payload = [],
        ev_created_at = 0\<rparr> empty_db))"
proof -
  have "events_ok empty_db" by (simp add: events_ok_def empty_db_def)
  with events_schema_kept [OF this] show ?thesis by blast
qed

text \<open>C11: Walking the list in steps of the limit shows every matching event exactly once, in the
  order asked for: the first \<open>n\<close> pages put together are the sorted matching events, cut after
  \<open>n\<close> times the limit, and every page reports the full count.\<close>

theorem event_pages_partition:
  assumes "d_faults d = []" and "1 \<le> lf_limit f" and "lf_limit f \<le> 500"
  shows "concat (map (\<lambda>k. case event_list (f\<lparr>lf_offset := int k * lf_limit f\<rparr>) d of
                              (Inr (page, _), _) \<Rightarrow> page | (Inl _, _) \<Rightarrow> []) [0..<n])
           = take (n * nat (lf_limit f))
               (map strip_payload (event_order (lf_sort f) (filter (build_where f) (d_events d))))
       \<and> mset (event_order (lf_sort f) (filter (build_where f) (d_events d)))
           = filter_mset (build_where f) (mset (d_events d))
       \<and> (\<forall>k. \<exists>page. event_list (f\<lparr>lf_offset := k\<rparr>) d
                = (Inr (page, size (filter_mset (build_where f) (mset (d_events d)))), d))"
proof (intro conjI allI)
  let ?es = "event_order (lf_sort f) (filter (build_where f) (d_events d))"
  have same: "build_where (f\<lparr>lf_offset := j\<rparr>) = build_where f" for j
    by (rule ext) (simp add: build_where_def)
  have page: "event_list (f\<lparr>lf_offset := j\<rparr>) d = (Inr (map strip_payload
        (page_of (lf_limit f) (if j < 0 then 0 else j) ?es), length (filter (build_where f) (d_events d))), d)" for j
    using assms by (simp add: event_list_no_fault same clamp_limit_def)
  have nonneg: "\<not> int k * lf_limit f < 0" for k
    using assms(2) by (simp add: not_less)
  have "concat (map (\<lambda>k. map strip_payload (page_of (lf_limit f) (int k * lf_limit f) ?es)) [0..<n])
      = map strip_payload (concat (map (\<lambda>k. page_of (lf_limit f) (int k * lf_limit f) ?es) [0..<n]))"
    by (simp add: map_concat comp_def)
  also have "\<dots> = take (n * nat (lf_limit f)) (map strip_payload ?es)"
    using assms pages_concat [of "lf_limit f" ?es n] by (simp add: take_map)
  finally show "concat (map (\<lambda>k. case event_list (f\<lparr>lf_offset := int k * lf_limit f\<rparr>) d of
                              (Inr (page, _), _) \<Rightarrow> page | (Inl _, _) \<Rightarrow> []) [0..<n])
           = take (n * nat (lf_limit f)) (map strip_payload ?es)"
    using assms by (simp add: page nonneg)
  show "mset ?es = filter_mset (build_where f) (mset (d_events d))"
    by (simp add: event_order_def)
  show "\<exists>page. event_list (f\<lparr>lf_offset := k\<rparr>) d
                = (Inr (page, size (filter_mset (build_where f) (mset (d_events d)))), d)" for k
    by (simp add: page flip: mset_filter)
qed

definition sample_filter :: list_filter where
  "sample_filter = \<lparr>lf_source_id = [], lf_source_type = [], lf_source_types = [], lf_source_name = [],
     lf_search = [], lf_level = [''error''], lf_since = None, lf_until = None, lf_limit = 1,
     lf_offset = 0, lf_sort = ''oldest''\<rparr>"

definition sample_app_event :: "string \<Rightarrow> string \<Rightarrow> go_time \<Rightarrow> event" where
  "sample_app_event eid level t = \<lparr>ev_id = eid, ev_level = level, ev_source_name = ''Sonarr'',
     ev_source_type = ''app'', ev_source_id = ''a1'', ev_title = ''Import'', ev_payload = [], ev_created_at = t\<rparr>"

definition sample_events_db :: db where
  "sample_events_db = empty_db\<lparr>d_events := [sample_app_event ''e1'' ''error'' 20, sample_app_event ''e2'' ''info'' 30,
     sample_app_event ''e3'' ''error'' 10]\<rparr>"

theorem event_pages_partition_witness:
  "concat (map (\<lambda>k. case event_list (sample_filter\<lparr>lf_offset := int k * 1\<rparr>) sample_events_db of
                        (Inr (page, _), _) \<Rightarrow> map ev_id page | (Inl _, _) \<Rightarrow> []) [0..<2])
     = [''e3'', ''e1'']"
proof -
  have nf: "d_faults sample_events_db = []" by (simp add: sample_events_db_def empty_db_def)
  have lim: "1 \<le> lf_limit sample_filter" "lf_limit sample_filter \<le> 500" "lf_limit sample_filter = 1"
    by (simp_all add: sample_filter_def)
  note pages = event_pages_partition [OF nf lim(1,2), of 2, THEN conjunct1]
  have "map ev_id (take (2 * nat (lf_limit sample_filter)) (map strip_payload (event_order (lf_sort sample_filter)
          (filter (build_where sample_filter) (d_events sample_events_db))))) = [''e3'', ''e1'']"
    by code_simp
  with arg_cong [OF pages, of "map ev_id"] show ?thesis
    by (simp add: lim(3) map_concat comp_def numeral_2_eq_2 split: prod.splits sum.splits)
qed

text \<open>A search term without the wildcards of SQL finds exactly the events whose title contains it,
  letters regardless of case.\<close>

theorem search_is_substring:
  assumes "lf_search f \<noteq> []" and "CHR ''%'' \<notin> set (lf_search f)" and "CHR ''_'' \<notin> set (lf_search f)"
    and "build_where (f\<lparr>lf_search := []\<rparr>) e"
  shows "build_where f e \<longleftrightarrow> contains_str (to_lower (ev_title e)) (to_lower (lf_search f))"
  using assms(1,4) like_match_literal [OF assms(2,3), of "ev_title e"]
  by (auto simp: build_where_def)

theorem search_is_substring_witness:
  "\<not> build_where (sample_filter\<lparr>lf_search := ''EXPORT''\<rparr>) (sample_app_event ''e1'' ''error'' 20)
   \<and> build_where (sample_filter\<lparr>lf_search := ''PORT''\<rparr>) (sample_app_event ''e1'' ''error'' 20)"
proof -
  have base: "build_where (sample_filter\<lparr>lf_search := t\<rparr>\<lparr>lf_search := []\<rparr>) (sample_app_event ''e1'' ''error'' 20)" for t
    by (simp add: build_where_def sample_filter_def sample_app_event_def)
  have no: "\<not> contains_str (to_lower (ev_title (sample_app_event ''e1'' ''error'' 20))) (to_lower ''EXPORT'')"
    and yes: "contains_str (to_lower (ev_title (sample_app_event ''e1'' ''error'' 20))) (to_lower ''PORT'')"
    by code_simp+
  show ?thesis
    using search_is_substring [of "sample_filter\<lparr>lf_search := ''EXPORT''\<rparr>" "sample_app_event ''e1'' ''error'' 20"]
      search_is_substring [of "sample_filter\<lparr>lf_search := ''PORT''\<rparr>" "sample_app_event ''e1'' ''error'' 20"]
      base no yes by simp
qed

text \<open>A wildcard in the term is not escaped.\<close>

theorem search_wildcard_matches_everything:
  "build_where (f\<lparr>lf_search := ''%''\<rparr>) e \<longleftrightarrow> build_where (f\<lparr>lf_search := []\<rparr>) e"
proof -
  have "like_match ''%%%'' s" for s
    unfolding like_match_percent by (rule exI [of _ s], rule exI [of _ "[]"]) simp
  then show ?thesis by (simp add: build_where_def)
qed

text \<open>The metrics of an app over a clock hour fit together: the events of the hour are at most
  sixty times the busiest minute and at least as many as it has.\<close>

theorem hour_metrics_bounded_by_peak:
  assumes "d_faults d = []" and "since mod minute_ns = 0"
    and "event_metrics_for_app a since (since + hour_ns) d = (Inr m, d2)"
  shows "em_events_per_hour m \<le> 60 * em_peak_per_minute m \<and> em_peak_per_minute m \<le> em_events_per_hour m"
proof -
  let ?rows = "filter (app_window a since (since + hour_ns)) (d_events d)"
  have m: "em_events_per_hour m = length ?rows" "em_peak_per_minute m = peak_per_minute ?rows"
    using assms(1,3) by (auto simp: event_metrics_for_app_def)
  have "card (set (map minute_of ?rows)) \<le> 60"
    using assms(2) by (rule minutes_of_hour [of _ _ a]) simp
  then have "card (set (map minute_of ?rows)) * peak_per_minute ?rows \<le> 60 * peak_per_minute ?rows"
    by (rule mult_le_mono1)
  then show ?thesis
    using length_le_minutes_times_peak [of ?rows] peak_le_length [of ?rows] m by linarith
qed

theorem hour_metrics_bounded_by_peak_witness:
  "\<exists>m. event_metrics_for_app ''a1'' 0 (0 + hour_ns) sample_events_db = (Inr m, sample_events_db)
     \<and> em_events_per_hour m = 3 \<and> 3 \<le> 60 * em_peak_per_minute m"
proof -
  have nf: "d_faults sample_events_db = []" by (simp add: sample_events_db_def empty_db_def)
  have ev: "event_metrics_for_app ''a1'' 0 (0 + hour_ns) sample_events_db
      = (Inr \<lparr>em_events_per_hour = 3, em_avg_payload_bytes = 0, em_peak_per_minute = 3\<rparr>, sample_events_db)"
    by (simp add: event_metrics_for_app_def sample_events_db_def empty_db_def app_window_def unix_secs_def
        sample_app_event_def avg_payload_def peak_per_minute_def max_count_def minute_of_def)
  show ?thesis
    using hour_metrics_bounded_by_peak [OF nf _ ev] ev by auto
qed

text \<open>The buckets of a time series count every matching event once: their counts add up to the
  number of matching events, none is empty, and they come in strictly increasing order.\<close>

theorem timeseries_counts_every_event:
  assumes "event_timeseries since until g sid l d = (Inr bs, d2)"
  shows "sum_list (map tb_count bs) = length (filter (in_timeseries since until sid l) (d_events d))
    \<and> (\<forall>b \<in> set bs. 0 < tb_count b) \<and> sorted_wrt (<) (map tb_start bs)"
proof -
  let ?starts = "map (bucket_start g) (filter (in_timeseries since until sid l) (d_events d))"
  have bs: "bs = map (\<lambda>t. \<lparr>tb_start = t, tb_count = count_list ?starts t\<rparr>) (sort (remdups ?starts))"
    using assms by (auto simp: event_timeseries_def db_query_def db_op_def Let_def split: list.splits if_splits)
  have "sum_list (map tb_count bs) = sum_list (map (count_list ?starts) (sort (remdups ?starts)))"
    by (simp add: bs comp_def)
  also have "\<dots> = sum (count_list ?starts) (set ?starts)"
    by (simp add: sum_list_distinct_conv_sum_set)
  also have "\<dots> = length ?starts"
    using sum_count_set [of ?starts "set ?starts"] by simp
  finally have total: "sum_list (map tb_count bs) = length (filter (in_timeseries since until sid l) (d_events d))"
    by simp
  have starts: "map tb_start bs = sort (remdups ?starts)"
    by (simp add: bs comp_def)
  then have "sorted_wrt (<) (map tb_start bs)"
    by (simp add: strict_sorted_iff)
  moreover have "\<forall>b \<in> set bs. 0 < tb_count b"
    by (auto simp: bs count_list_0_iff simp flip: neq0_conv)
  ultimately show ?thesis using total by simp
qed

theorem timeseries_counts_every_event_witness:
  "\<exists>bs. event_timeseries 0 100 ''hour'' [] ''error'' sample_events_db = (Inr bs, sample_events_db)
     \<and> sum_list (map tb_count bs) = 2"
proof -
  obtain bs where bs: "event_timeseries 0 100 ''hour'' [] ''error'' sample_events_db = (Inr bs, sample_events_db)"
    by (simp add: event_timeseries_def sample_events_db_def empty_db_def)
  moreover have "length (filter (in_timeseries 0 100 [] ''error'') (d_events sample_events_db)) = 2"
    by (simp add: sample_events_db_def in_timeseries_def sample_app_event_def unix_secs_def)
  ultimately show ?thesis using timeseries_counts_every_event [OF bs] by auto
qed

lemma parse_filter_Inr:
  assumes "parse_filter parse_time q = Inr f"
  obtains since until limit offset where
    "parse_int_param 1 50 ''invalid limit: must be a positive integer'' (q ''limit'') = Inr limit"
    "parse_int_param 0 0 ''invalid offset: must be a non-negative integer'' (q ''offset'') = Inr offset"
    "lf_limit f = limit" "lf_offset f = offset"
    "lf_level f = filter (\<lambda>l. l \<noteq> []) (map trim_space (split_on (CHR '','') (q ''level'')))"
    "lf_source_types f = (if q ''source_type'' = ''infra'' then infra_source_types else [])"
proof -
  obtain since where since: "parse_bound parse_time ''since'' (q ''since'') = Inr since"
    using assms by (cases "parse_bound parse_time ''since'' (q ''since'')") (simp_all add: parse_filter_def)
  obtain until where until: "parse_bound parse_time ''until'' (q ''until'') = Inr until"
    using assms since
    by (cases "parse_bound parse_time ''until'' (q ''until'')") (simp_all add: parse_filter_def)
  obtain limit where limit:
    "parse_int_param 1 50 ''invalid limit: must be a positive integer'' (q ''limit'') = Inr limit"
    using assms since until
    by (cases "parse_int_param 1 50 ''invalid limit: must be a positive integer'' (q ''limit'')")
      (simp_all add: parse_filter_def)
  obtain offset where offset:
    "parse_int_param 0 0 ''invalid offset: must be a non-negative integer'' (q ''offset'') = Inr offset"
    using assms since until limit
    by (cases "parse_int_param 0 0 ''invalid offset: must be a non-negative integer'' (q ''offset'')")
      (simp_all add: parse_filter_def)
  show thesis
    using assms by (intro that [OF limit offset]) (auto simp: parse_filter_def Let_def since until limit offset)
qed

lemma parse_int_param_bounds:
  assumes "parse_int_param least a msg s = Inr n" and "least \<le> a" and "a < 2 ^ 63"
  shows "least \<le> n \<and> n < 2 ^ 63"
proof -
  have "n < 2 ^ 63" if "go_atoi s = Some n"
    using that by (simp add: go_atoi_def Let_def split: prod.splits if_splits)
  then show ?thesis
    using assms by (auto simp: parse_int_param_def split: if_splits option.splits)
qed

text \<open>A filter that is accepted asks for a positive limit and a non-negative offset, whatever the
  query says.\<close>

theorem parsed_filter_bounds:
  assumes "parse_filter parse_time q = Inr f"
  shows "1 \<le> lf_limit f \<and> 0 \<le> lf_offset f \<and> lf_limit f < 2 ^ 63 \<and> [] \<notin> set (lf_level f)
    \<and> (lf_source_types f = [] \<or> lf_source_types f = infra_source_types)"
proof -
  from assms obtain limit offset where
    lim: "parse_int_param 1 50 ''invalid limit: must be a positive integer'' (q ''limit'') = Inr limit"
    and off: "parse_int_param 0 0 ''invalid offset: must be a non-negative integer'' (q ''offset'') = Inr offset"
    and f: "lf_limit f = limit" "lf_offset f = offset"
      "lf_level f = filter (\<lambda>l. l \<noteq> []) (map trim_space (split_on (CHR '','') (q ''level'')))"
      "lf_source_types f = (if q ''source_type'' = ''infra'' then infra_source_types else [])"
    by (rule parse_filter_Inr)
  show ?thesis
    using parse_int_param_bounds [OF lim] parse_int_param_bounds [OF off] by (simp add: f)
qed

theorem parsed_filter_bounds_witness:
  "\<exists>f. parse_filter (\<lambda>s. None) (\<lambda>name. if name = ''limit'' then ''1000'' else []) = Inr f
     \<and> 1 \<le> lf_limit f \<and> clamp_limit (lf_limit f) = 500"
proof -
  obtain f where f: "parse_filter (\<lambda>s. None) (\<lambda>name. if name = ''limit'' then ''1000'' else []) = Inr f"
    and "lf_limit f = 1000"
  proof -
    have "go_atoi ''1000'' = Some 1000" by code_simp
    then show ?thesis
      by (intro that) (auto simp: parse_filter_def parse_bound_def parse_int_param_def Let_def)
  qed
  with parsed_filter_bounds [OF f] show ?thesis by (auto simp: clamp_limit_def)
qed

text \<open>The infrastructure filter is every source type but the apps, the checks and the system.\<close>

lemma infra_filter_complement:
  "set infra_source_types = set event_source_types - {''app'', ''monitor_check'', ''system''}"
  by code_simp

text \<open>Events of an app asked for with \<open>source_type=infra\<close> are not scoped to apps: the list of types
  takes precedence over the scope.\<close>

theorem list_by_app_infra_leaves_scope:
  assumes "parse_filter parse_time q = Inr f" and "q ''source_type'' = ''infra''"
    and "build_where (f\<lparr>lf_source_id := a, lf_source_type := ''app''\<rparr>) e"
  shows "ev_source_type e \<noteq> ''app''"
proof -
  have "lf_source_types f = infra_source_types"
    using parse_filter_Inr [OF assms(1)] assms(2) by metis
  then have "ev_source_type e \<in> set infra_source_types"
    using assms(3) by (auto simp: build_where_def infra_source_types_def)
  then show ?thesis by (simp add: infra_filter_complement)
qed

lemma event_list_length:
  assumes "event_list f d = (Inr (es, n), d2)"
  shows "length es \<le> 500"
proof -
  obtain k ys d3 where "es = map strip_payload (page_of (clamp_limit (lf_limit f)) k ys)"
    using assms by (auto simp: event_list_def db_query_def db_op_def Let_def split: list.splits if_splits sum.splits)
  then have "length es \<le> nat (clamp_limit (lf_limit f))"
    by (simp add: length_page_of)
  also have "\<dots> \<le> 500"
    using clamp_limit_bounds [of "lf_limit f"] by linarith
  finally show ?thesis .
qed

text \<open>The answer repeats the limit that was asked for, not the one in force.\<close>

theorem answered_limit_is_the_asked_one:
  "answer_page f d = (Answer 200 r, d2) \<Longrightarrow> le_limit r = lf_limit f \<and> length (le_data r) \<le> 500"
proof (cases "event_list f d")
  case (Pair r2 d3)
  assume a: "answer_page f d = (Answer 200 r, d2)"
  then obtain es n where r2: "r2 = Inr (es, n)" and r: "le_data r = es" "le_limit r = lf_limit f"
    using Pair by (cases r2) (auto simp: answer_page_def)
  then show ?thesis
    using event_list_length [of f d es n d3] Pair by simp
qed

end
