(* ===== verification/Tokens.thy ===== *)
theory Tokens
  imports Prelude
begin

text \<open>
  Token substitution, the loop \<open>for k, v := range fields { result = strings.ReplaceAll(result,
  "{"+k+"}", v) }\<close> that three packages of the repository share (internal/ingest/pipeline.go,
  internal/rules/matcher.go, internal/apptemplate/apptemplate.go).

  Go iterates over a map in an unspecified order, so the fields are an association list in the
  order of one iteration and a result must not depend on it. The loop has that property on
  templates that are a sequence of literal text and \<open>{key}\<close> tokens, as long as no substituted
  value brings in an opening brace; it does not have it in general.
\<close>

definition token :: "string \<Rightarrow> string" where
  "token k = ''{'' @ k @ ''}''"

definition substitute :: "(string \<times> string) list \<Rightarrow> string \<Rightarrow> string" where
  "substitute flds tmpl = foldl (\<lambda>s (k, v). replace_all (token k) v s) tmpl flds"

section \<open>Templates as segments\<close>

datatype segment = Lit string | Tok string

fun segment_text :: "segment \<Rightarrow> string" where
  "segment_text (Lit s) = s"
| "segment_text (Tok k) = token k"

definition template_text :: "segment list \<Rightarrow> string" where
  "template_text segs = concat (map segment_text segs)"

definition brace_free :: "string \<Rightarrow> bool" where
  "brace_free s = (CHR ''{'' \<notin> set s \<and> CHR ''}'' \<notin> set s)"

fun segment_ok :: "segment \<Rightarrow> bool" where
  "segment_ok (Lit s) = (CHR ''{'' \<notin> set s)"
| "segment_ok (Tok k) = brace_free k"

definition template_ok :: "segment list \<Rightarrow> bool" where
  "template_ok segs = list_all segment_ok segs"

text \<open>Field lists whose keys are brace-free and whose values bring in no opening brace.\<close>

definition fields_ok :: "(string \<times> string) list \<Rightarrow> bool" where
  "fields_ok flds = (distinct (map fst flds)
     \<and> list_all (\<lambda>(k, v). brace_free k \<and> CHR ''{'' \<notin> set v) flds)"

text \<open>The intended meaning: every token whose key is a field becomes its value, once.\<close>

fun fill_segment :: "(string \<rightharpoonup> string) \<Rightarrow> segment \<Rightarrow> string" where
  "fill_segment m (Lit s) = s"
| "fill_segment m (Tok k) = (case m k of Some v \<Rightarrow> v | None \<Rightarrow> token k)"

definition fill :: "(string \<rightharpoonup> string) \<Rightarrow> segment list \<Rightarrow> string" where
  "fill m segs = concat (map (fill_segment m) segs)"

section \<open>Lemmas\<close>

lemma template_text_simps [simp]:
  "template_text [] = []"
  "template_text (seg # segs) = segment_text seg @ template_text segs"
  by (simp_all add: template_text_def)

lemma template_ok_simps [simp]:
  "template_ok []"
  "template_ok (seg # segs) = (segment_ok seg \<and> template_ok segs)"
  by (simp_all add: template_ok_def)

lemma substitute_simps [simp]:
  "substitute [] t = t"
  "substitute ((k, v) # fs) t = substitute fs (replace_all (token k) v t)"
  by (simp_all add: substitute_def)

lemma fields_ok_Cons:
  "fields_ok ((k, v) # fs) \<longleftrightarrow>
     k \<notin> fst ` set fs \<and> brace_free k \<and> CHR ''{'' \<notin> set v \<and> fields_ok fs"
  by (auto simp: fields_ok_def list_all_iff)

lemma token_nonempty: "token k \<noteq> []"
  by (simp add: token_def)

text \<open>Two tokens at the same position are equal.\<close>

lemma token_prefix:
  assumes "brace_free j" and "brace_free k"
  shows "has_prefix (token j @ t) (token k) \<longleftrightarrow> j = k"
proof
  assume "has_prefix (token j @ t) (token k)"
  then obtain u where "j @ CHR ''}'' # t = k @ CHR ''}'' # u"
    by (auto simp: has_prefix_iff token_def)
  moreover have "CHR ''}'' \<notin> set j" "CHR ''}'' \<notin> set k"
    using assms by (auto simp: brace_free_def)
  ultimately show "j = k"
    by (metis split_first_append option.inject prod.inject)
qed simp

lemma replace_token_other:
  assumes "brace_free j" and "brace_free k" and "j \<noteq> k"
  shows "replace_all (token k) v (token j @ t) = token j @ replace_all (token k) v t"
proof -
  have "\<not> has_prefix (token j @ t) (token k)"
    using token_prefix [OF assms(1,2)] assms(3) by simp
  then have "replace_all (token k) v (token j @ t)
      = CHR ''{'' # replace_all (token k) v ((j @ ''}'') @ t)"
    by (simp add: token_def)
  also have "CHR ''{'' \<notin> set (j @ ''}'')"
    using assms(1) by (simp add: brace_free_def)
  then have "replace_all (token k) v ((j @ ''}'') @ t) = (j @ ''}'') @ replace_all (token k) v t"
    unfolding token_def append_Cons append_Nil by (rule replace_all_append_absent)
  finally show ?thesis by (simp add: token_def)
qed

text \<open>One round of the loop turns the token into a literal.\<close>

fun bind_segment :: "string \<Rightarrow> string \<Rightarrow> segment \<Rightarrow> segment" where
  "bind_segment k v (Lit s) = Lit s"
| "bind_segment k v (Tok j) = (if j = k then Lit v else Tok j)"

lemma replace_template:
  assumes "template_ok segs" and "brace_free k"
  shows "replace_all (token k) v (template_text segs) = template_text (map (bind_segment k v) segs)"
  using assms(1)
proof (induction segs)
  case Nil
  then show ?case by simp
next
  case (Cons seg segs)
  then have IH: "replace_all (token k) v (template_text segs)
      = template_text (map (bind_segment k v) segs)" by simp
  show ?case
  proof (cases seg)
    case (Lit s)
    with Cons.prems have "CHR ''{'' \<notin> set s" by simp
    then show ?thesis
      using Lit IH by (simp add: token_def replace_all_append_absent)
  next
    case (Tok j)
    with Cons.prems have "brace_free j" by simp
    then show ?thesis
      using Tok IH assms(2)
      by (cases "j = k") (simp_all add: replace_token_other replace_all_match token_nonempty)
  qed
qed

lemma bind_template_ok:
  assumes "template_ok segs" and "CHR ''{'' \<notin> set v"
  shows "template_ok (map (bind_segment k v) segs)"
proof -
  have "segment_ok (bind_segment k v seg)" if "segment_ok seg" for seg
    using that assms(2) by (cases seg) auto
  with assms(1) show ?thesis by (auto simp: template_ok_def list_all_iff)
qed

lemma fill_bind:
  assumes "m k = None"
  shows "fill m (map (bind_segment k v) segs) = fill (m(k \<mapsto> v)) segs"
proof -
  have "fill_segment m (bind_segment k v seg) = fill_segment (m(k \<mapsto> v)) seg" for seg
    using assms by (cases seg) auto
  then show ?thesis by (simp add: fill_def o_def)
qed

lemma fill_empty: "fill Map.empty segs = template_text segs"
proof -
  have "fill_segment Map.empty seg = segment_text seg" for seg
    by (cases seg) auto
  then have "map (fill_segment Map.empty) segs = map segment_text segs" by (rule map_cong [OF refl])
  then show ?thesis by (simp only: fill_def template_text_def)
qed

theorem substitute_fill:
  assumes "template_ok segs" and "fields_ok flds"
  shows "substitute flds (template_text segs) = fill (map_of flds) segs"
  using assms
proof (induction flds arbitrary: segs)
  case Nil
  then show ?case by (simp add: fill_empty)
next
  case (Cons kv fs)
  obtain k v where kv: "kv = (k, v)" by fastforce
  from Cons.prems(2) have ok: "k \<notin> fst ` set fs" "brace_free k" "CHR ''{'' \<notin> set v" "fields_ok fs"
    by (auto simp: kv fields_ok_Cons)
  have "substitute (kv # fs) (template_text segs)
      = substitute fs (template_text (map (bind_segment k v) segs))"
    using replace_template [OF Cons.prems(1) ok(2)] by (simp add: kv)
  also have "\<dots> = fill (map_of fs) (map (bind_segment k v) segs)"
    by (rule Cons.IH [OF bind_template_ok [OF Cons.prems(1) ok(3)] ok(4)])
  also have "\<dots> = fill (map_of (kv # fs)) segs"
    using ok(1) by (simp add: kv fill_bind map_of_eq_None_iff)
  finally show ?case .
qed

lemma fields_ok_perm: "mset fs = mset gs \<Longrightarrow> fields_ok fs = fields_ok gs"
  unfolding fields_ok_def list_all_iff
  by (metis mset_eq_setD mset_map mset_eq_imp_distinct_iff)

lemma map_of_perm:
  assumes "mset fs = mset gs" and "distinct (map fst fs)"
  shows "map_of fs = map_of gs"
proof (rule map_of_eqI)
  show "set (map fst fs) = set (map fst gs)"
    using assms(1) by (metis mset_eq_setD mset_map)
next
  have "distinct (map fst gs)"
    using assms by (metis mset_map mset_eq_imp_distinct_iff)
  moreover have "set fs = set gs" using assms(1) by (rule mset_eq_setD)
  ultimately show "\<forall>k \<in> set (map fst fs). map_of fs k = map_of gs k"
    using assms(2) by (metis map_of_eq_Some_iff option.exhaust)
qed

lemma substitute_order:
  assumes "template_ok segs" and "fields_ok fs" and "mset fs = mset gs"
  shows "substitute fs (template_text segs) = substitute gs (template_text segs)"
proof -
  have "fields_ok gs" using assms(2,3) fields_ok_perm by blast
  moreover have "map_of fs = map_of gs"
    using assms(2,3) by (intro map_of_perm) (auto simp: fields_ok_def)
  ultimately show ?thesis
    using assms(1,2) by (simp add: substitute_fill)
qed

text \<open>When every token has a value nothing is left to resolve.\<close>

lemma fill_no_brace:
  assumes "template_ok segs" and "fields_ok flds"
    and "\<forall>k. Tok k \<in> set segs \<longrightarrow> k \<in> fst ` set flds"
  shows "CHR ''{'' \<notin> set (fill (map_of flds) segs)"
proof -
  have "CHR ''{'' \<notin> set (fill_segment (map_of flds) seg)" if "seg \<in> set segs" for seg
  proof (cases seg)
    case (Lit s)
    then show ?thesis using assms(1) that by (auto simp: template_ok_def list_all_iff)
  next
    case (Tok k)
    with assms(3) that have "k \<in> fst ` set flds" by blast
    then obtain v where v: "map_of flds k = Some v"
      by (metis map_of_eq_None_iff option.exhaust)
    then have "(k, v) \<in> set flds" by (rule map_of_SomeD)
    with assms(2) have "CHR ''{'' \<notin> set v" by (auto simp: fields_ok_def list_all_iff)
    then show ?thesis using Tok v by simp
  qed
  then show ?thesis by (auto simp: fill_def)
qed

end
