(* ===== verification/AppTemplate.thy ===== *)
theory AppTemplate
  imports Tokens Store
begin

text \<open>
  App templates: internal/apptemplate/apptemplate.go and validate.go.

  A template is the decoded YAML file. The YAML decoder (gopkg.in/yaml.v3) is a parameter, and so
  is the directory listing, given as a value of \<open>dir_listing\<close>. Go maps are association lists in the
  order of one iteration; lookups go through \<open>map_of\<close>.
\<close>

section \<open>Data\<close>

record event_type_key_rule =
  ek_key :: string
  ek_status_path :: string
  ek_prefix :: string
  ek_present_path :: string
  ek_if_present :: string
  ek_if_absent :: string
  ek_default :: string

record webhook =
  wh_recommended_events :: "string list"
  wh_field_mappings :: "(string \<times> string) list"
  wh_event_type_keys :: "event_type_key_rule list"
  wh_display_template :: string
  wh_display_templates :: "(string \<times> string) list"
  wh_severity_field :: string
  wh_severity_compound_field :: string
  wh_severity_mapping :: "(string \<times> string) list"

record digest_category =
  dg_source :: string
  dg_label :: string
  dg_match_field :: string
  dg_match_value :: string
  dg_match_severity :: string
  dg_and_field :: string
  dg_and_value :: string

record digest_widget =
  dw_source :: string
  dw_label :: string
  dw_metric :: string
  dw_match_field :: string
  dw_match_value :: string
  dw_and_field :: string
  dw_and_value :: string

record api_polling_entry =
  pe_path :: string
  pe_name :: string
  pe_label :: string
  pe_target :: string
  pe_value_type :: string
  pe_event_message :: string

record api_polling_block =
  pb_auth_type :: string
  pb_auth_header :: string
  pb_endpoints :: "api_polling_entry list"

record app_template =
  at_name :: string
  at_webhook :: webhook
  at_categories :: "digest_category list"
  at_widgets :: "digest_widget list"
  at_api_polling :: api_polling_block
  at_source_path :: string

definition infer_capability :: "app_template \<Rightarrow> string" where
  "infer_capability t =
     (let has_webhook = (wh_field_mappings (at_webhook t) \<noteq> [] \<or> wh_recommended_events (at_webhook t) \<noteq> []);
          has_api = (pb_endpoints (at_api_polling t) \<noteq> []) in
      if has_webhook \<and> has_api then ''full''
      else if has_webhook then ''webhook_only''
      else if has_api then ''api_only''
      else ''monitor_only'')"

section \<open>validate\<close>

datatype template_error =
    BadAuthType string
  | AuthHeaderRequired string
  | EndpointPath nat
  | EndpointName nat
  | EndpointLabel nat
  | EndpointTarget nat
  | EndpointValueType nat
  | EndpointBadValueType nat string
  | DuplicateName string
  | CategorySource nat string
  | WidgetSourceRequired nat
  | WidgetSource nat string
  | WidgetMetricRequired nat
  | WidgetMetricUnknown nat string

definition valid_value_types :: "string list" where
  "valid_value_types = [''count'', ''string'', ''boolean'', ''list'']"

definition valid_auth_types :: "string list" where
  "valid_auth_types = ['''', ''none'', ''apikey_header'', ''apikey_query'', ''bearer'', ''basic'']"

fun validate_endpoints :: "nat \<Rightarrow> string list \<Rightarrow> api_polling_entry list \<Rightarrow> template_error + string list" where
  "validate_endpoints i names [] = Inr names"
| "validate_endpoints i names (p # ps) =
     (if pe_path p = [] then Inl (EndpointPath i)
      else if pe_name p = [] then Inl (EndpointName i)
      else if pe_label p = [] then Inl (EndpointLabel i)
      else if pe_target p = [] then Inl (EndpointTarget i)
      else if pe_value_type p = [] then Inl (EndpointValueType i)
      else if pe_value_type p \<notin> set valid_value_types then Inl (EndpointBadValueType i (pe_value_type p))
      else if pe_name p \<in> set names then Inl (DuplicateName (pe_name p))
      else validate_endpoints (i + 1) (pe_name p # names) ps)"

fun validate_categories :: "nat \<Rightarrow> digest_category list \<Rightarrow> template_error + unit" where
  "validate_categories i [] = Inr ()"
| "validate_categories i (c # cs) =
     (if dg_source c \<noteq> [] \<and> dg_source c \<noteq> ''webhook'' \<and> dg_source c \<noteq> ''api''
      then Inl (CategorySource i (dg_source c))
      else validate_categories (i + 1) cs)"

fun validate_widgets :: "nat \<Rightarrow> string list \<Rightarrow> digest_widget list \<Rightarrow> template_error + unit" where
  "validate_widgets i names [] = Inr ()"
| "validate_widgets i names (w # ws) =
     (if dw_source w = [] then Inl (WidgetSourceRequired i)
      else if dw_source w \<noteq> ''api'' \<and> dw_source w \<noteq> ''webhook'' then Inl (WidgetSource i (dw_source w))
      else if dw_source w = ''api'' \<and> dw_metric w = [] then Inl (WidgetMetricRequired i)
      else if dw_source w = ''api'' \<and> dw_metric w \<notin> set names then Inl (WidgetMetricUnknown i (dw_metric w))
      else validate_widgets (i + 1) names ws)"

definition validate :: "app_template \<Rightarrow> template_error + unit" where
  "validate t = (let ap = at_api_polling t in
     if pb_auth_type ap \<notin> set valid_auth_types then Inl (BadAuthType (pb_auth_type ap))
     else if (pb_auth_type ap = ''apikey_header'' \<or> pb_auth_type ap = ''apikey_query'')
             \<and> pb_auth_header ap = [] then Inl (AuthHeaderRequired (pb_auth_type ap))
     else (case validate_endpoints 0 [] (pb_endpoints ap) of
             Inl e \<Rightarrow> Inl e
           | Inr names \<Rightarrow>
               (case validate_categories 0 (at_categories t) of
                  Inl e \<Rightarrow> Inl e
                | Inr _ \<Rightarrow> validate_widgets 0 names (at_widgets t))))"

text \<open>What a valid template is, without an order of checks.\<close>

definition endpoint_wf :: "api_polling_entry \<Rightarrow> bool" where
  "endpoint_wf p = (pe_path p \<noteq> [] \<and> pe_name p \<noteq> [] \<and> pe_label p \<noteq> [] \<and> pe_target p \<noteq> []
     \<and> pe_value_type p \<in> set valid_value_types)"

definition widget_wf :: "string set \<Rightarrow> digest_widget \<Rightarrow> bool" where
  "widget_wf names w = (dw_source w = ''webhook''
     \<or> dw_source w = ''api'' \<and> dw_metric w \<noteq> [] \<and> dw_metric w \<in> names)"

definition template_wf :: "app_template \<Rightarrow> bool" where
  "template_wf t = (let ap = at_api_polling t; names = map pe_name (pb_endpoints ap) in
     pb_auth_type ap \<in> set valid_auth_types
     \<and> (pb_auth_type ap \<in> {''apikey_header'', ''apikey_query''} \<longrightarrow> pb_auth_header ap \<noteq> [])
     \<and> list_all endpoint_wf (pb_endpoints ap) \<and> distinct names
     \<and> list_all (\<lambda>c. dg_source c \<in> {[], ''webhook'', ''api''}) (at_categories t)
     \<and> list_all (widget_wf (set names)) (at_widgets t))"

section \<open>The registry\<close>

type_synonym registry = "(string \<times> app_template) list"

record dir_entry =
  de_name :: string
  de_is_dir :: bool
  de_data :: "string option"  \<comment> \<open>\<open>os.ReadFile\<close>; \<open>None\<close> is a read error\<close>

datatype dir_listing = DirMissing | DirError | Dir "dir_entry list"

datatype load_error = ReadDirFailed | ReadFileFailed string

fun upsert_assoc :: "'k \<Rightarrow> 'v \<Rightarrow> ('k \<times> 'v) list \<Rightarrow> ('k \<times> 'v) list" where
  "upsert_assoc k v [] = [(k, v)]"
| "upsert_assoc k v ((j, w) # xs) = (if j = k then (k, v) # xs else (j, w) # upsert_assoc k v xs)"

definition is_template_file :: "dir_entry \<Rightarrow> bool" where
  "is_template_file e = (\<not> de_is_dir e \<and> has_suffix (de_name e) ''.yaml'')"

definition trim_suffix :: "string \<Rightarrow> string \<Rightarrow> string" where
  "trim_suffix s p = (if has_suffix s p then take (length s - length p) s else s)"

definition template_id :: "dir_entry \<Rightarrow> string" where
  "template_id e = trim_suffix (de_name e) ''.yaml''"

fun load_entries ::
  "(string \<Rightarrow> app_template option) \<Rightarrow> string \<Rightarrow> dir_entry list \<Rightarrow> registry \<Rightarrow> load_error + registry"
where
  "load_entries yaml dir [] m = Inr m"
| "load_entries yaml dir (e # es) m =
     (if \<not> is_template_file e then load_entries yaml dir es m
      else (case de_data e of
              None \<Rightarrow> Inl (ReadFileFailed (de_name e))
            | Some content \<Rightarrow>
                (case yaml content of
                   None \<Rightarrow> load_entries yaml dir es m
                 | Some t0 \<Rightarrow>
                     (let t = t0\<lparr>at_source_path := dir @ ''/'' @ de_name e\<rparr> in
                      case validate t of
                        Inl _ \<Rightarrow> load_entries yaml dir es m
                      | Inr _ \<Rightarrow> load_entries yaml dir es (upsert_assoc (template_id e) t m)))))"

definition load_dir_into_map ::
  "(string \<Rightarrow> app_template option) \<Rightarrow> string \<Rightarrow> dir_listing \<Rightarrow> registry \<Rightarrow> load_error + registry"
where
  "load_dir_into_map yaml dir listing m =
     (if dir = [] then Inr m
      else (case listing of
              DirMissing \<Rightarrow> Inr m
            | DirError \<Rightarrow> Inl ReadDirFailed
            | Dir es \<Rightarrow> load_entries yaml dir es m))"

record registry_state =
  rg_templates :: registry
  rg_builtin_dir :: string
  rg_custom_dir :: string

definition reload ::
  "(string \<Rightarrow> app_template option) \<Rightarrow> (string \<Rightarrow> dir_listing) \<Rightarrow> registry_state
     \<Rightarrow> (load_error + unit) \<times> registry_state"
where
  "reload yaml fsys r =
     (case load_dir_into_map yaml (rg_builtin_dir r) (fsys (rg_builtin_dir r)) [] of
        Inl e \<Rightarrow> (Inl e, r)
      | Inr m \<Rightarrow>
          (case load_dir_into_map yaml (rg_custom_dir r) (fsys (rg_custom_dir r)) m of
             Inl e \<Rightarrow> (Inl e, r)
           | Inr m2 \<Rightarrow> (Inr (), r\<lparr>rg_templates := m2\<rparr>)))"

definition new_registry_from_disk ::
  "(string \<Rightarrow> app_template option) \<Rightarrow> (string \<Rightarrow> dir_listing) \<Rightarrow> string \<Rightarrow> string
     \<Rightarrow> load_error + registry_state"
where
  "new_registry_from_disk yaml fsys builtin custom =
     (case reload yaml fsys \<lparr>rg_templates = [], rg_builtin_dir = builtin, rg_custom_dir = custom\<rparr> of
        (Inl e, _) \<Rightarrow> Inl e
      | (Inr _, r) \<Rightarrow> Inr r)"

datatype embed_error = EmbedReadDir | EmbedReadFile string | EmbedParse string

fun new_registry_entries ::
  "(string \<Rightarrow> app_template option) \<Rightarrow> dir_entry list \<Rightarrow> registry \<Rightarrow> embed_error + registry"
where
  "new_registry_entries yaml [] m = Inr m"
| "new_registry_entries yaml (e # es) m =
     (if \<not> is_template_file e then new_registry_entries yaml es m
      else (case de_data e of
              None \<Rightarrow> Inl (EmbedReadFile (de_name e))
            | Some content \<Rightarrow>
                (case yaml content of
                   None \<Rightarrow> Inl (EmbedParse (de_name e))
                 | Some t \<Rightarrow>
                     (case validate t of
                        Inl _ \<Rightarrow> new_registry_entries yaml es m
                      | Inr _ \<Rightarrow> new_registry_entries yaml es (upsert_assoc (template_id e) t m)))))"

definition new_registry ::
  "(string \<Rightarrow> app_template option) \<Rightarrow> dir_entry list option \<Rightarrow> embed_error + registry_state"
where
  "new_registry yaml listing = (case listing of
       None \<Rightarrow> Inl EmbedReadDir
     | Some es \<Rightarrow> map_sum (\<lambda>e. e) (\<lambda>m. \<lparr>rg_templates = m, rg_builtin_dir = [], rg_custom_dir = []\<rparr>)
                     (new_registry_entries yaml es []))"

definition registry_get :: "registry_state \<Rightarrow> string \<Rightarrow> app_template option" where
  "registry_get r tid = map_of (rg_templates r) tid"

definition registry_list :: "registry_state \<Rightarrow> string \<rightharpoonup> app_template" where
  "registry_list r = map_of (rg_templates r)"

section \<open>JSON paths\<close>

text \<open>\<open>^([^\[]+)\[(\d+)\]$\<close>: the key and the index, a decimal numeral. \<open>strconv.Atoi\<close> saturates on
  overflow, which is out of range of every array as well.\<close>

definition array_index_re :: "string \<Rightarrow> (string \<times> nat) option" where
  "array_index_re seg = (case split_first (CHR ''['') seg of
       None \<Rightarrow> None
     | Some (key, rest) \<Rightarrow>
         (if key \<noteq> [] \<and> rest \<noteq> [] \<and> last rest = CHR '']'' \<and> butlast rest \<noteq> []
             \<and> list_all is_digit (butlast rest)
          then Some (key, nat_of_digits (butlast rest)) else None))"

text \<open>\<open>strings.SplitN(path, ".", 2)\<close>, the remainder being empty when there is no dot.\<close>

definition split_segment :: "string \<Rightarrow> string \<times> string" where
  "split_segment p = (case split_first (CHR ''.'') p of None \<Rightarrow> (p, []) | Some ab \<Rightarrow> ab)"

definition trim_dollar :: "string \<Rightarrow> string" where
  "trim_dollar p = trim_prefix (trim_prefix p ''$.'') ''$''"

definition json_child :: "'n json \<Rightarrow> string \<Rightarrow> 'n json option" where
  "json_child v seg = (case array_index_re seg of
       Some (key, idx) \<Rightarrow>
         (case v of
            JObj kvs \<Rightarrow>
              (case map_of kvs key of
                 Some (JArr xs) \<Rightarrow> (if idx \<ge> length xs then None else Some (xs ! idx))
               | _ \<Rightarrow> None)
          | _ \<Rightarrow> None)
     | None \<Rightarrow> (case v of JObj kvs \<Rightarrow> map_of kvs seg | _ \<Rightarrow> None))"

definition json_to_string :: "('n \<Rightarrow> string) \<Rightarrow> 'n json \<Rightarrow> string" where
  "json_to_string fmt v = (case v of JNull \<Rightarrow> [] | JStr s \<Rightarrow> s | _ \<Rightarrow> json_marshal fmt v)"

lemma length_trim_prefix: "length (trim_prefix s p) \<le> length s"
  by (simp add: trim_prefix_def)

lemma length_trim_dollar: "length (trim_dollar p) \<le> length p"
  unfolding trim_dollar_def by (metis length_trim_prefix le_trans)

lemma length_split_segment: "p \<noteq> [] \<Longrightarrow> length (snd (split_segment p)) < length p"
  by (auto simp: split_segment_def split_first_Some split: option.splits)

function json_path_get :: "('n \<Rightarrow> string) \<Rightarrow> 'n json \<Rightarrow> string \<Rightarrow> string option" where
  "json_path_get fmt v path =
     (let p = trim_dollar path in
      if p = [] then Some (json_to_string fmt v)
      else (case json_child v (fst (split_segment p)) of
              None \<Rightarrow> None
            | Some child \<Rightarrow>
                (if snd (split_segment p) = [] then Some (json_to_string fmt child)
                 else json_path_get fmt child (snd (split_segment p)))))"
  by pat_completeness auto
termination
proof (relation "measure (\<lambda>(fmt, v, path). length path)")
  fix fmt :: "'n \<Rightarrow> string" and v :: "'n json" and path p child
  assume "p = trim_dollar path" and "p \<noteq> []"
  then have "length (snd (split_segment p)) < length p" and "length p \<le> length path"
    by (simp_all add: length_split_segment length_trim_dollar)
  then show "((fmt, child, snd (split_segment p)), fmt, v, path) \<in> measure (\<lambda>(fmt, v, path). length path)"
    by simp
qed simp

declare json_path_get.simps [simp del]

section \<open>Field extraction, display text, severity\<close>

fun infer_keys :: "('n \<Rightarrow> string) \<Rightarrow> 'n json \<Rightarrow> (string \<times> 'n json) list \<Rightarrow> event_type_key_rule list \<Rightarrow> string"
where
  "infer_keys fmt payload obj [] = []"
| "infer_keys fmt payload obj (r # rs) =
     (if map_of obj (ek_key r) = None then infer_keys fmt payload obj rs
      else (let v = (case json_path_get fmt payload (ek_status_path r) of Some v \<Rightarrow> v | None \<Rightarrow> []) in
        if ek_status_path r \<noteq> [] \<and> v \<noteq> [] then ek_prefix r @ v
        else if ek_status_path r \<noteq> [] \<and> ek_default r \<noteq> [] then ek_default r
        else if ek_present_path r \<noteq> [] then
          (if (case json_path_get fmt payload (ek_present_path r) of Some w \<Rightarrow> w | None \<Rightarrow> []) \<noteq> []
           then ek_if_present r else ek_if_absent r)
        else if ek_default r \<noteq> [] then ek_default r
        else infer_keys fmt payload obj rs))"

definition infer_event_type_from_keys ::
  "('n \<Rightarrow> string) \<Rightarrow> 'n json \<Rightarrow> event_type_key_rule list \<Rightarrow> string" where
  "infer_event_type_from_keys fmt payload keys =
     (case payload of JObj obj \<Rightarrow> infer_keys fmt payload obj keys | _ \<Rightarrow> [])"

definition extract_paths ::
  "('n json \<Rightarrow> string \<Rightarrow> string option) \<Rightarrow> 'n json \<Rightarrow> (string \<times> string) list \<Rightarrow> (string \<times> string) list"
where
  "extract_paths get doc mappings =
     concat (map (\<lambda>(tag, path). case get doc path of Some v \<Rightarrow> [(tag, v)] | None \<Rightarrow> []) mappings)"

definition registry_extract_fields ::
  "'n codec \<Rightarrow> registry_state \<Rightarrow> string \<Rightarrow> string \<Rightarrow> (string \<times> string) list option" where
  "registry_extract_fields c r tid payload =
     (case map_of (rg_templates r) tid of
        None \<Rightarrow> Some []
      | Some t \<Rightarrow>
          (case json_unmarshal c payload of
             None \<Rightarrow> None
           | Some doc \<Rightarrow>
               (let flds = extract_paths (json_path_get (num_fmt c)) doc (wh_field_mappings (at_webhook t));
                    et = infer_event_type_from_keys (num_fmt c) doc (wh_event_type_keys (at_webhook t)) in
                Some (if map_of flds ''event_type'' = None \<and> wh_event_type_keys (at_webhook t) \<noteq> [] \<and> et \<noteq> []
                      then upsert_assoc ''event_type'' et flds else flds))))"

definition pick_template :: "webhook \<Rightarrow> (string \<times> string) list \<Rightarrow> string" where
  "pick_template w flds =
     (if wh_display_templates w \<noteq> [] then
        (case map_of flds ''event_type'' of
           Some et \<Rightarrow> (case map_of (wh_display_templates w) et of
                         Some specific \<Rightarrow> specific | None \<Rightarrow> wh_display_template w)
         | None \<Rightarrow> wh_display_template w)
      else wh_display_template w)"

definition registry_render_display_text :: "registry_state \<Rightarrow> string \<Rightarrow> (string \<times> string) list \<Rightarrow> string" where
  "registry_render_display_text r tid flds =
     (case map_of (rg_templates r) tid of
        None \<Rightarrow> ''Event received''
      | Some t \<Rightarrow> (let tmpl = pick_template (at_webhook t) flds in
                    if tmpl = [] then ''Event received'' else substitute flds tmpl))"

definition registry_map_severity :: "registry_state \<Rightarrow> string \<Rightarrow> (string \<times> string) list \<Rightarrow> string" where
  "registry_map_severity r tid flds =
     (case map_of (rg_templates r) tid of
        None \<Rightarrow> ''info''
      | Some t \<Rightarrow>
          (let w = at_webhook t in
           if wh_severity_field w = [] \<or> wh_severity_mapping w = [] then ''info''
           else (case map_of flds (wh_severity_field w) of
             None \<Rightarrow> ''info''
           | Some val \<Rightarrow>
               (let compound = (case map_of flds (wh_severity_compound_field w) of Some x \<Rightarrow> x | None \<Rightarrow> []) in
                case (if wh_severity_compound_field w \<noteq> [] \<and> compound \<noteq> []
                      then map_of (wh_severity_mapping w) (val @ '':'' @ compound) else None) of
                  Some s \<Rightarrow> s
                | None \<Rightarrow> (case map_of (wh_severity_mapping w) val of Some s \<Rightarrow> s | None \<Rightarrow> ''info'')))))"

section \<open>Properties of templates\<close>

lemma validate_endpoints_iff:
  "(\<exists>out. validate_endpoints i names ps = Inr out) \<longleftrightarrow>
     list_all endpoint_wf ps \<and> distinct (map pe_name ps) \<and> set names \<inter> set (map pe_name ps) = {}"
  by (induction i names ps rule: validate_endpoints.induct)
    (auto simp: endpoint_wf_def valid_value_types_def)

lemma validate_endpoints_names:
  "validate_endpoints i names ps = Inr out \<Longrightarrow> set out = set names \<union> set (map pe_name ps)"
  by (induction i names ps rule: validate_endpoints.induct) (auto split: if_splits)

lemma validate_categories_iff:
  "validate_categories i cs = Inr () \<longleftrightarrow>
     list_all (\<lambda>c. dg_source c \<in> {[], ''webhook'', ''api''}) cs"
  by (induction i cs rule: validate_categories.induct) auto

lemma validate_widgets_iff:
  "validate_widgets i names ws = Inr () \<longleftrightarrow> list_all (widget_wf (set names)) ws"
  by (induction i names ws rule: validate_widgets.induct) (auto simp: widget_wf_def)

lemma validate_iff: "validate t = Inr () \<longleftrightarrow> template_wf t"
proof (cases "validate_endpoints 0 [] (pb_endpoints (at_api_polling t))")
  case (Inl e)
  then have "\<not> (list_all endpoint_wf (pb_endpoints (at_api_polling t))
      \<and> distinct (map pe_name (pb_endpoints (at_api_polling t))))"
    using validate_endpoints_iff [of 0 "[]" "pb_endpoints (at_api_polling t)"] by auto
  with Inl show ?thesis by (auto simp: validate_def template_wf_def Let_def)
next
  case (Inr names)
  then have eps: "list_all endpoint_wf (pb_endpoints (at_api_polling t))
      \<and> distinct (map pe_name (pb_endpoints (at_api_polling t)))"
    using validate_endpoints_iff [of 0 "[]" "pb_endpoints (at_api_polling t)"] by auto
  have names: "set names = set (map pe_name (pb_endpoints (at_api_polling t)))"
    using validate_endpoints_names [OF Inr] by simp
  show ?thesis
    using Inr eps names validate_categories_iff [of 0 "at_categories t"]
      validate_widgets_iff [of 0 names "at_widgets t"]
    by (cases "validate_categories 0 (at_categories t)")
      (auto simp: validate_def template_wf_def Let_def)
qed

text \<open>A template passes \<open>validate\<close> exactly when it is well-formed: a known auth type with its
  header where one is needed, endpoints complete and with distinct names, and every digest widget
  that reads an API metric naming one of those endpoints.\<close>

theorem validate_accepts_wf: "validate t = Inr () \<longleftrightarrow> template_wf t"
  by (rule validate_iff)

lemma map_of_upsert_assoc [simp]: "map_of (upsert_assoc k v xs) = (map_of xs)(k \<mapsto> v)"
  by (induction k v xs rule: upsert_assoc.induct) auto

lemma keys_upsert_assoc: "fst ` set (upsert_assoc k v xs) = insert k (fst ` set xs)"
  by (induction k v xs rule: upsert_assoc.induct) auto

lemma distinct_upsert_assoc:
  "distinct (map fst xs) \<Longrightarrow> distinct (map fst (upsert_assoc k v xs))"
proof (induction k v xs rule: upsert_assoc.induct)
  case (2 k v j w xs)
  then show ?case using keys_upsert_assoc [of k v xs] by auto
qed auto

text \<open>What one directory contributes: its valid template files, the later of two with one id.\<close>

definition entry_template ::
  "(string \<Rightarrow> app_template option) \<Rightarrow> string \<Rightarrow> dir_entry \<Rightarrow> (string \<times> app_template) option" where
  "entry_template yaml dir e =
     (if is_template_file e then
        (case de_data e of None \<Rightarrow> None | Some content \<Rightarrow>
          (case yaml content of None \<Rightarrow> None | Some t0 \<Rightarrow>
            (let t = t0\<lparr>at_source_path := dir @ ''/'' @ de_name e\<rparr> in
             if template_wf t then Some (template_id e, t) else None)))
      else None)"

definition dir_templates ::
  "(string \<Rightarrow> app_template option) \<Rightarrow> string \<Rightarrow> dir_listing \<Rightarrow> string \<rightharpoonup> app_template" where
  "dir_templates yaml dir listing =
     (case listing of Dir es \<Rightarrow> if dir = [] then Map.empty
        else map_of (rev (List.map_filter (entry_template yaml dir) es)) | _ \<Rightarrow> Map.empty)"

lemma validate_Inl_iff: "(\<exists>e. validate t = Inl e) \<longleftrightarrow> \<not> template_wf t"
  using validate_iff [of t] by (cases "validate t") auto

lemma load_entries_step:
  "load_entries yaml dir (e # es) m =
     (if is_template_file e \<and> de_data e = None then Inl (ReadFileFailed (de_name e))
      else load_entries yaml dir es
        (case entry_template yaml dir e of None \<Rightarrow> m | Some (k, t) \<Rightarrow> upsert_assoc k t m))"
  using validate_iff validate_Inl_iff
  by (auto simp: entry_template_def Let_def split: option.splits sum.splits)

declare load_entries.simps(2) [simp del]

lemma load_entries_map:
  "load_entries yaml dir es m = Inr m2 \<Longrightarrow>
     map_of m2 = map_of m ++ map_of (rev (List.map_filter (entry_template yaml dir) es))"
proof (induction es arbitrary: m)
  case Nil
  then show ?case by (simp add: List.map_filter_simps)
next
  case (Cons e es)
  have rest: "load_entries yaml dir es
      (case entry_template yaml dir e of None \<Rightarrow> m | Some (k, t) \<Rightarrow> upsert_assoc k t m) = Inr m2"
    using Cons.prems by (simp add: load_entries_step split: if_splits)
  show ?case
  proof (cases "entry_template yaml dir e")
    case None
    then show ?thesis using Cons.IH [OF rest] by (simp add: List.map_filter_simps)
  next
    case (Some kt)
    then show ?thesis
      using Cons.IH [OF rest] by (cases kt) (auto simp: List.map_filter_simps map_add_def fun_eq_iff
          split: option.splits)
  qed
qed

lemma load_dir_map:
  "load_dir_into_map yaml dir listing m = Inr m2 \<Longrightarrow>
     map_of m2 = map_of m ++ dir_templates yaml dir listing"
  by (auto simp: load_dir_into_map_def dir_templates_def load_entries_map
        split: if_splits dir_listing.splits)

text \<open>C12: Reload: a failed reload leaves the registry as it was; after a successful one
  \<open>Get\<close> answers with the custom directory's template of that id and otherwise the builtin one, and
  every template it can answer with is well-formed.\<close>

theorem reload_correct:
  "case reload yaml fsys r of
     (Inl e, r2) \<Rightarrow> r2 = r
   | (Inr _, r2) \<Rightarrow>
       registry_get r2 = dir_templates yaml (rg_builtin_dir r) (fsys (rg_builtin_dir r))
                           ++ dir_templates yaml (rg_custom_dir r) (fsys (rg_custom_dir r))
       \<and> ran (registry_get r2) \<subseteq> {t. template_wf t}"
proof -
  have wf: "template_wf t" if "t \<in> ran (dir_templates yaml dir listing)" for t dir listing
  proof -
    from that obtain k es where "(k, t) \<in> set (List.map_filter (entry_template yaml dir) es)"
      by (auto simp: dir_templates_def ran_def split: dir_listing.splits if_splits dest: map_of_SomeD)
    then obtain e where "entry_template yaml dir e = Some (k, t)"
      by (auto simp: List.map_filter_def)
    then show "template_wf t"
      by (auto simp: entry_template_def Let_def split: if_splits option.splits)
  qed
  have ran_add: "ran (f ++ g) \<subseteq> ran f \<union> ran g" for f g :: "string \<rightharpoonup> app_template"
    by (auto simp: ran_def map_add_Some_iff)
  show ?thesis
  proof (cases "load_dir_into_map yaml (rg_builtin_dir r) (fsys (rg_builtin_dir r)) []")
    case (Inl e)
    then show ?thesis by (simp add: reload_def)
  next
    case (Inr m)
    note b = load_dir_map [OF Inr]
    show ?thesis
    proof (cases "load_dir_into_map yaml (rg_custom_dir r) (fsys (rg_custom_dir r)) m")
      case (Inl e)
      then show ?thesis using Inr by (simp add: reload_def)
    next
      case custom: (Inr m2)
      have "registry_get (r\<lparr>rg_templates := m2\<rparr>)
          = dir_templates yaml (rg_builtin_dir r) (fsys (rg_builtin_dir r))
              ++ dir_templates yaml (rg_custom_dir r) (fsys (rg_custom_dir r))"
        using load_dir_map [OF custom] b by (simp add: registry_get_def fun_eq_iff)
      then show ?thesis
        using Inr custom wf ran_add by (fastforce simp: reload_def)
    qed
  qed
qed

section \<open>Properties of paths\<close>

datatype path_step = Key string | Elem string nat

fun step_text :: "path_step \<Rightarrow> string" where
  "step_text (Key k) = k"
| "step_text (Elem k i) = k @ ''['' @ show_nat i @ '']''"

definition path_text :: "path_step list \<Rightarrow> string" where
  "path_text steps = join ''.'' (map step_text steps)"

text \<open>Keys a path can name: without a dot or an opening bracket, and not starting with the dollar
  sign that \<open>jsonPathGet\<close> strips from every remainder.\<close>

definition key_ok :: "string \<Rightarrow> bool" where
  "key_ok k = (k \<noteq> [] \<and> hd k \<noteq> CHR ''$'' \<and> CHR ''.'' \<notin> set k \<and> CHR ''['' \<notin> set k)"

fun step_ok :: "path_step \<Rightarrow> bool" where
  "step_ok (Key k) = key_ok k"
| "step_ok (Elem k i) = key_ok k"

fun json_step :: "'n json \<Rightarrow> path_step \<Rightarrow> 'n json option" where
  "json_step (JObj kvs) (Key k) = map_of kvs k"
| "json_step (JObj kvs) (Elem k i) =
     (case map_of kvs k of
        Some (JArr xs) \<Rightarrow> if i < length xs then Some (xs ! i) else None
      | _ \<Rightarrow> None)"
| "json_step _ _ = None"

fun json_walk :: "'n json \<Rightarrow> path_step list \<Rightarrow> 'n json option" where
  "json_walk v [] = Some v"
| "json_walk v (s # ss) = (case json_step v s of None \<Rightarrow> None | Some w \<Rightarrow> json_walk w ss)"

lemma array_index_key: "key_ok k \<Longrightarrow> array_index_re k = None"
  by (auto simp: array_index_re_def key_ok_def split_first_Some split: option.splits)

lemma array_index_elem: "key_ok k \<Longrightarrow> array_index_re (k @ ''['' @ show_nat i @ '']'') = Some (k, i)"
  using show_nat_digits [of i] by (simp add: array_index_re_def key_ok_def)

lemma json_child_step:
  assumes "step_ok s"
  shows "json_child v (step_text s) = json_step v s"
  using assms
  by (cases v; cases s) (auto simp: json_child_def array_index_key array_index_elem [simplified]
       split: option.splits json.splits)

lemma show_nat_no_dot: "CHR ''.'' \<notin> set (show_nat n)"
  using show_nat_digits [of n] digit_not_punct(1) by (auto simp: list_all_iff)

lemma step_text_props:
  assumes "step_ok s"
  shows "CHR ''.'' \<notin> set (step_text s)" and "step_text s \<noteq> []" and "hd (step_text s) \<noteq> CHR ''$''"
  using assms show_nat_no_dot by (cases s; auto simp: key_ok_def)+

lemma trim_dollar_plain: "p \<noteq> [] \<Longrightarrow> hd p \<noteq> CHR ''$'' \<Longrightarrow> trim_dollar p = p"
  by (cases p) (auto simp: trim_dollar_def trim_prefix_def)

lemma trim_dollar_root: "p \<noteq> [] \<Longrightarrow> hd p \<noteq> CHR ''$'' \<Longrightarrow> trim_dollar (''$.'' @ p) = p"
  by (cases p) (auto simp: trim_dollar_def trim_prefix_def)

lemma path_text_Cons:
  "path_text (s # ss) = (if ss = [] then step_text s else step_text s @ ''.'' @ path_text ss)"
  by (cases ss) (auto simp: path_text_def)

lemma path_text_head:
  assumes "ss \<noteq> []" and "list_all step_ok ss"
  shows "path_text ss \<noteq> [] \<and> hd (path_text ss) \<noteq> CHR ''$''"
  using assms step_text_props by (cases ss) (auto simp: path_text_Cons)

lemma split_segment_path:
  assumes "step_ok s"
  shows "split_segment (path_text (s # ss)) = (step_text s, path_text ss)"
proof (cases "ss = []")
  case True
  then have "split_first CHR ''.'' (path_text (s # ss)) = None"
    using step_text_props(1) [OF assms] by (simp add: split_first_None path_text_Cons)
  then show ?thesis using True by (simp add: split_segment_def path_text_Cons) (simp add: path_text_def)
next
  case False
  then have "split_first CHR ''.'' (path_text (s # ss)) = Some (step_text s, path_text ss)"
    using step_text_props(1) [OF assms] by (simp add: path_text_Cons)
  then show ?thesis by (simp add: split_segment_def)
qed

lemma path_text_Nil_iff: "list_all step_ok ss \<Longrightarrow> path_text ss = [] \<longleftrightarrow> ss = []"
  using path_text_head [of ss] by (cases ss) (auto simp: path_text_def)

text \<open>The recursion of every path reader, on a remainder and on a full path.\<close>

lemma json_path_get_walk:
  assumes "list_all step_ok ss" and "ss \<noteq> []" and "trim_dollar p = path_text ss"
  shows "json_path_get fmt v p = map_option (json_to_string fmt) (json_walk v ss)"
  using assms
proof (induction ss arbitrary: v p)
  case Nil
  then show ?case by simp
next
  case (Cons s ss)
  from Cons.prems have ok: "step_ok s" "list_all step_ok ss" by auto
  have ne: "trim_dollar p \<noteq> []" using path_text_head [of "s # ss"] Cons.prems by auto
  show ?case
  proof (cases "json_step v s")
    case None
    then show ?thesis
      using ne Cons.prems(3) split_segment_path [OF ok(1), of ss] json_child_step [OF ok(1), of v]
      by (subst json_path_get.simps) (simp add: Let_def)
  next
    case (Some w)
    have "json_path_get fmt w (path_text ss) = map_option (json_to_string fmt) (json_walk w ss)"
      if "ss \<noteq> []"
      using that Cons.IH [OF ok(2) that] path_text_head [OF that ok(2)] trim_dollar_plain by blast
    then show ?thesis
      using Some ne Cons.prems(3) split_segment_path [OF ok(1), of ss] json_child_step [OF ok(1), of v]
        path_text_Nil_iff [OF ok(2)]
      by (subst json_path_get.simps) (auto simp: Let_def)
  qed
qed

text \<open>A path \<open>$.a.b[2].c\<close> written from its steps reads exactly the value those steps lead to, and
  nothing when a step leads nowhere.\<close>

theorem json_path_reads_steps:
  assumes "list_all step_ok ss" and "ss \<noteq> []"
  shows "json_path_get fmt v (''$.'' @ path_text ss) = map_option (json_to_string fmt) (json_walk v ss)"
  using assms path_text_head [OF assms(2,1)] trim_dollar_root by (intro json_path_get_walk) auto

theorem json_path_reads_steps_witness:
  "json_path_get (\<lambda>n::nat. []) (JObj [(''episodes'', JArr [JNull, JObj [(''title'', JStr ''Pilot'')]])])
     ''$.episodes[1].title'' = Some ''Pilot''"
  using json_path_reads_steps [of "[Elem ''episodes'' 1, Key ''title'']" "\<lambda>n::nat. []"
      "JObj [(''episodes'', JArr [JNull, JObj [(''title'', JStr ''Pilot'')]])]"]
  by (simp add: key_ok_def path_text_def show_nat.simps json_to_string_def)

end
