(* ===== verification/Ingest.thy ===== *)
theory Ingest
  imports AppTemplate Events
begin

text \<open>
  Webhook ingestion: internal/ingest/pipeline.go and internal/ingest/ratelimit.go, with the two
  lookups of internal/repo/apps.go that the pipeline and the API need.

  The clock, the new event's id, the decoder, the template loader and the iteration order of the
  extracted-field map are arguments of \<open>process\<close>.
\<close>

section \<open>ratelimit.go\<close>

record rate_window =
  rw_count :: int
  rw_start :: go_time

type_synonym limiter = "string \<rightharpoonup> rate_window"

definition new_rate_limiter :: limiter where
  "new_rate_limiter = Map.empty"

definition allow :: "go_time \<Rightarrow> string \<Rightarrow> int \<Rightarrow> limiter \<Rightarrow> bool \<times> limiter" where
  "allow now app_id limit0 ws =
     (let limit = (if limit0 \<le> 0 then 100 else limit0) in
      case ws app_id of
        None \<Rightarrow> (True, ws(app_id \<mapsto> \<lparr>rw_count = 1, rw_start = now\<rparr>))
      | Some w \<Rightarrow>
          (if now - rw_start w \<ge> 60 * second_ns
           then (True, ws(app_id \<mapsto> \<lparr>rw_count = 1, rw_start = now\<rparr>))
           else (rw_count w + 1 \<le> limit, ws(app_id \<mapsto> w\<lparr>rw_count := rw_count w + 1\<rparr>))))"

section \<open>pipeline.go: fields, severity, title\<close>

definition ingest_to_string :: "('n \<Rightarrow> string) \<Rightarrow> 'n json \<Rightarrow> string" where
  "ingest_to_string fmt v = (case v of JNull \<Rightarrow> [] | JStr s \<Rightarrow> s | _ \<Rightarrow> json_marshal fmt v)"

function ingest_json_path_get :: "('n \<Rightarrow> string) \<Rightarrow> 'n json \<Rightarrow> string \<Rightarrow> string option" where
  "ingest_json_path_get fmt v path =
     (let p = trim_dollar path in
      if p = [] then Some (ingest_to_string fmt v)
      else (case json_child v (fst (split_segment p)) of
              None \<Rightarrow> None
            | Some child \<Rightarrow>
                (if snd (split_segment p) = [] then Some (ingest_to_string fmt child)
                 else ingest_json_path_get fmt child (snd (split_segment p)))))"
  by pat_completeness auto
termination
  by (relation "measure (\<lambda>(fmt, v, path). length path)")
    (auto intro: less_le_trans [OF length_split_segment length_trim_dollar])

declare ingest_json_path_get.simps [simp del]

definition extract_fields :: "'n codec \<Rightarrow> string \<Rightarrow> (string \<times> string) list \<Rightarrow> (string \<times> string) list" where
  "extract_fields c raw mappings =
     (if mappings = [] then []
      else (case json_unmarshal c raw of
              None \<Rightarrow> []
            | Some payload \<Rightarrow> extract_paths (ingest_json_path_get (num_fmt c)) payload mappings))"

definition map_severity ::
  "(string \<times> string) list \<Rightarrow> string \<Rightarrow> string \<Rightarrow> (string \<times> string) list \<Rightarrow> string" where
  "map_severity flds severity_field compound_field mapping =
     (if severity_field = [] \<or> mapping = [] then ''info''
      else (case map_of flds severity_field of
        None \<Rightarrow> ''info''
      | Some val \<Rightarrow>
          (let compound = (if compound_field = [] then []
                 else (case map_of flds compound_field of Some x \<Rightarrow> x | None \<Rightarrow> []));
               hit = (if compound \<noteq> [] then map_of mapping (val @ '':'' @ compound) else None) in
           case hit of
             Some s \<Rightarrow> s
           | None \<Rightarrow> (case map_of mapping val of Some s \<Rightarrow> s | None \<Rightarrow> ''info''))))"

definition event_label :: "(string \<times> string) list \<Rightarrow> string" where
  "event_label flds = (case map_of flds ''event_type'' of
     Some et \<Rightarrow> if et \<noteq> [] then et else ''Event received'' | None \<Rightarrow> ''Event received'')"

definition render_template :: "string \<Rightarrow> (string \<times> string) list \<Rightarrow> string" where
  "render_template tmpl flds =
     (if tmpl = [] then ''Event received''
      else (let result = substitute flds tmpl in
            if contains_str result ''{'' then event_label flds else result))"

definition merge_payload :: "'n codec \<Rightarrow> string \<Rightarrow> (string \<times> string) list \<Rightarrow> string" where
  "merge_payload c raw flds =
     (let obj = (case json_unmarshal c raw of Some (JObj kvs) \<Rightarrow> kvs | _ \<Rightarrow> []) in
      json_marshal (num_fmt c) (JObj (foldl (\<lambda>o1 (k, v). upsert_assoc k (JStr v) o1) obj flds)))"

section \<open>pipeline.go: Process\<close>

datatype ingest_error = InvalidToken | RateLimited | StoreError db_error

type_synonym template_loader = "string \<Rightarrow> unit + app_template option"

record 'n ingest_env =
  ie_codec :: "'n codec"
  ie_profiler :: "template_loader option"
  ie_range :: "(string \<times> string) list \<Rightarrow> (string \<times> string) list"  \<comment> \<open>map iteration order\<close>
  ie_now :: go_time
  ie_uuid :: string

text \<open>internal/repo/apps.go, \<open>GetByToken\<close>.\<close>

definition app_get_by_token :: "string \<Rightarrow> db \<Rightarrow> app_row db_result" where
  "app_get_by_token tok = db_op (\<lambda>d. case List.find (\<lambda>a. ap_token a = tok) (d_apps d) of
       Some a \<Rightarrow> (Inr a, d) | None \<Rightarrow> (Inl NotFound, d))"

definition template_fields :: "'n codec \<Rightarrow> webhook \<Rightarrow> string \<Rightarrow> (string \<times> string) list" where
  "template_fields c w raw =
     (let flds = extract_fields c raw (wh_field_mappings w) in
      if map_of flds ''event_type'' = None \<and> wh_event_type_keys w \<noteq> [] then
        (case json_unmarshal c raw of
           None \<Rightarrow> flds
         | Some decoded \<Rightarrow>
             (let et = infer_event_type_from_keys (num_fmt c) decoded (wh_event_type_keys w) in
              if et \<noteq> [] then upsert_assoc ''event_type'' et flds else flds))
      else flds)"

definition process_template ::
  "'n ingest_env \<Rightarrow> app_template \<Rightarrow> string \<Rightarrow> string \<times> string \<times> (string \<times> string) list" where
  "process_template env t raw =
     (let w = at_webhook t;
          flds = template_fields (ie_codec env) w raw;
          level = map_severity flds (wh_severity_field w) (wh_severity_compound_field w) (wh_severity_mapping w);
          tmpl = pick_template w flds in
      (level, render_template tmpl (ie_range env flds), flds))"

definition app_template_of :: "'n ingest_env \<Rightarrow> app_row \<Rightarrow> app_template option" where
  "app_template_of env app = (case ie_profiler env of
       None \<Rightarrow> None
     | Some get \<Rightarrow>
         (if ap_profile_id app = [] then None
          else (case get (ap_profile_id app) of Inl _ \<Rightarrow> None | Inr t \<Rightarrow> t)))"

definition ingest_event :: "'n ingest_env \<Rightarrow> app_row \<Rightarrow> string \<Rightarrow> event" where
  "ingest_event env app raw =
     (case (case app_template_of env app of
              None \<Rightarrow> (''info'', ''Event received'', [])
            | Some t \<Rightarrow> process_template env t raw) of
        (level, title, flds) \<Rightarrow>
          \<lparr>ev_id = ie_uuid env, ev_level = level, ev_source_name = ap_name app,
           ev_source_type = ''app'', ev_source_id = ap_id app, ev_title = title,
           ev_payload = merge_payload (ie_codec env) raw flds, ev_created_at = ie_now env\<rparr>)"

definition process ::
  "'n ingest_env \<Rightarrow> limiter \<Rightarrow> string \<Rightarrow> string \<Rightarrow> db \<Rightarrow> (ingest_error + string) \<times> limiter \<times> db" where
  "process env ws tok raw d0 =
     (case app_get_by_token tok d0 of
        (Inl _, d1) \<Rightarrow> (Inl InvalidToken, ws, d1)
      | (Inr app, d1) \<Rightarrow>
          (let rate_limit = (if ap_rate_limit app \<le> 0 then 100 else ap_rate_limit app) in
           case allow (ie_now env) (ap_id app) rate_limit ws of
             (ok, ws1) \<Rightarrow>
               (if \<not> ok then (Inl RateLimited, ws1, d1)
                else (let e = ingest_event env app raw in
                  case event_create e d1 of
                    (Inl err, d2) \<Rightarrow> (Inl (StoreError err), ws1, d2)
                  | (Inr _, d2) \<Rightarrow> (Inr (ev_id e), ws1, d2)))))"

section \<open>A concrete app and template\<close>

definition sample_app :: app_row where
  "sample_app = \<lparr>ap_id = ''a1'', ap_name = ''Sonarr'', ap_token = ''tok'', ap_profile_id = ''sonarr'', ap_config = ''{}'',
     ap_rate_limit = 5, ap_created_at = 0\<rparr>"

definition sample_webhook :: "(string \<times> string) list \<Rightarrow> webhook" where
  "sample_webhook sev = \<lparr>wh_recommended_events = [], wh_field_mappings = [(''level'', ''$.level'')],
     wh_event_type_keys = [], wh_display_template = ''Level {level}'', wh_display_templates = [],
     wh_severity_field = ''level'', wh_severity_compound_field = [], wh_severity_mapping = sev\<rparr>"

definition sample_template :: "(string \<times> string) list \<Rightarrow> app_template" where
  "sample_template sev = \<lparr>at_name = ''Sonarr'', at_webhook = sample_webhook sev, at_categories = [],
     at_widgets = [], at_api_polling = \<lparr>pb_auth_type = [], pb_auth_header = [], pb_endpoints = []\<rparr>,
     at_source_path = []\<rparr>"

definition sample_env :: "(string \<times> string) list \<Rightarrow> nat ingest_env" where
  "sample_env sev =
     \<lparr>ie_codec = \<lparr>json_unmarshal = (\<lambda>_. Some (JObj [(''level'', JStr ''warning'')])), num_fmt = show_nat\<rparr>,
      ie_profiler = Some (\<lambda>_. Inr (Some (sample_template sev))),
      ie_range = (\<lambda>flds. flds), ie_now = 0, ie_uuid = ''e1''\<rparr>"

lemmas sample_defs = sample_app_def sample_env_def sample_template_def sample_webhook_def empty_db_def

section \<open>The limiter\<close>

lemma allow_other: "a \<noteq> b \<Longrightarrow> snd (allow now a l ws) b = ws b"
  by (auto simp: allow_def Let_def split: option.splits)

lemma allow_local: "ws a = vs a \<Longrightarrow> fst (allow now a l ws) = fst (allow now a l vs)
    \<and> snd (allow now a l ws) a = snd (allow now a l vs) a"
  by (auto simp: allow_def Let_def split: option.splits)

text \<open>The times at which the requests of one app are accepted, requests of other apps being free to
  come in between.\<close>

fun accepted :: "string \<Rightarrow> (string \<Rightarrow> int) \<Rightarrow> (go_time \<times> string) list \<Rightarrow> limiter \<Rightarrow> go_time list" where
  "accepted a l [] ws = []"
| "accepted a l ((t, b) # reqs) ws =
     (if b = a \<and> fst (allow t b (l b) ws) then t # accepted a l reqs (snd (allow t b (l b) ws))
      else accepted a l reqs (snd (allow t b (l b) ws)))"

definition in_minute :: "go_time \<Rightarrow> go_time \<Rightarrow> bool" where
  "in_minute t u = (t \<le> u \<and> u < t + 60 * second_ns)"

definition counts_ok :: "string \<Rightarrow> limiter \<Rightarrow> bool" where
  "counts_ok a ws = (\<forall>w. ws a = Some w \<longrightarrow> 1 \<le> rw_count w)"

lemma allow_counts_ok: "counts_ok a ws \<Longrightarrow> counts_ok a (snd (allow now b l ws))"
  by (auto simp: counts_ok_def allow_def Let_def split: option.splits)

text \<open>How many more requests the minute from \<open>t\<close> can take in a given state.\<close>

definition room :: "go_time \<Rightarrow> int \<Rightarrow> rate_window option \<Rightarrow> int" where
  "room t l w = (case w of None \<Rightarrow> l
     | Some w \<Rightarrow> max 0 (l - rw_count w) + (if rw_start w < t then l else 0))"

lemma accepted_subset: "set (accepted a l reqs ws) \<subseteq> fst ` set reqs"
  by (induction a l reqs ws rule: accepted.induct) (auto split: if_splits)

lemma accepted_late:
  assumes "\<forall>r \<in> set reqs. t + 60 * second_ns \<le> fst r"
  shows "filter (in_minute t) (accepted a l reqs ws) = []"
  using accepted_subset [of a l reqs ws] assms
  by (fastforce simp: filter_empty_conv in_minute_def)

lemma accepted_room:
  assumes "0 < l a" and "sorted (map fst reqs)" and "\<forall>r \<in> set reqs. t \<le> fst r" and "counts_ok a ws"
  shows "int (length (filter (in_minute t) (accepted a l reqs ws))) \<le> room t (l a) (ws a)"
  using assms(2-)
proof (induction reqs arbitrary: ws)
  case Nil
  then show ?case using assms(1) by (auto simp: room_def split: option.splits)
next
  case (Cons r reqs)
  obtain u b where r: "r = (u, b)" by fastforce
  let ?ws = "snd (allow u b (l b) ws)"
  have IH: "int (length (filter (in_minute t) (accepted a l reqs ?ws))) \<le> room t (l a) (?ws a)"
    using Cons.prems by (intro Cons.IH allow_counts_ok) auto
  show ?case
  proof (cases "b = a")
    case False
    then have "?ws a = ws a" by (simp add: allow_other)
    with IH show ?thesis using False by (simp add: r)
  next
    case True
    show ?thesis
    proof (cases "\<exists>w. ws a = Some w \<and> t \<le> rw_start w \<and> rw_start w + 60 * second_ns \<le> u")
      case True
      then have "t + 60 * second_ns \<le> u" by auto
      moreover have "\<forall>x \<in> set reqs. u \<le> fst x" using Cons.prems(1) r by auto
      ultimately have "\<forall>x \<in> set (r # reqs). t + 60 * second_ns \<le> fst x"
        using r by (fastforce dest: bspec)
      from accepted_late [OF this] True show ?thesis
        using assms(1) by (auto simp: room_def)
    next
      case False
      define n where "n = int (length (filter (in_minute t) (accepted a l reqs ?ws)))"
      have "int (length (filter (in_minute t) (accepted a l (r # reqs) ws)))
          \<le> n + (if fst (allow u b (l b) ws) then 1 else 0)"
        by (simp add: r n_def)
      moreover have "n \<le> room t (l a) (?ws a)" using IH by (simp add: n_def)
      moreover have "room t (l a) (?ws a) + (if fst (allow u b (l b) ws) then 1 else 0)
          \<le> room t (l a) (ws a)"
        using False \<open>b = a\<close> assms(1) Cons.prems(2,3)
        by (auto simp: r allow_def Let_def room_def counts_ok_def split: option.splits if_splits)
      ultimately show ?thesis by linarith
    qed
  qed
qed

lemma room_bound: "0 < l a \<Longrightarrow> counts_ok a ws \<Longrightarrow> room t (l a) (ws a) \<le> 2 * l a"
  by (auto simp: room_def counts_ok_def split: option.splits)

text \<open>C10: Whatever other apps send, in no period of 60 seconds does the limiter accept more than
  twice an app's limit. (The fixed window lets a burst at its end be followed by one at the start
  of the next: \<open>accepted_burst\<close> shows the factor two is reached.)\<close>

theorem accepted_per_minute:
  assumes "0 < l a" and "sorted (map fst reqs)" and "counts_ok a ws"
  shows "int (length (filter (in_minute t) (accepted a l reqs ws))) \<le> 2 * l a"
  using assms(2,3)
proof (induction reqs arbitrary: ws)
  case Nil
  then show ?case using assms(1) by simp
next
  case (Cons r reqs)
  obtain u b where r: "r = (u, b)" by fastforce
  show ?case
  proof (cases "t \<le> u")
    case True
    then have "\<forall>x \<in> set (r # reqs). t \<le> fst x" using Cons.prems(1) r by fastforce
    with accepted_room [of l a "r # reqs" t ws] room_bound [of l a ws t] assms(1) Cons.prems
    show ?thesis by linarith
  next
    case False
    have "int (length (filter (in_minute t) (accepted a l reqs (snd (allow u b (l b) ws))))) \<le> 2 * l a"
      using Cons.prems by (intro Cons.IH allow_counts_ok) auto
    moreover have "\<not> in_minute t u" using False by (simp add: in_minute_def)
    ultimately show ?thesis by (auto simp: r)
  qed
qed

theorem accepted_per_minute_witness:
  "int (length (filter (in_minute 0) (accepted ''a'' (\<lambda>_. 1) [(0, ''a''), (1, ''b''), (2, ''a'')] new_rate_limiter)))
     \<le> 2 * 1"
  using accepted_per_minute [of "\<lambda>_. 1" "''a''" "[(0, ''a''), (1, ''b''), (2, ''a'')]" new_rate_limiter 0]
  by (simp add: counts_ok_def new_rate_limiter_def)

theorem accepted_burst:
  "accepted ''a'' (\<lambda>_. 2)
     (map (\<lambda>t. (t * second_ns, ''a'')) [0, 59, 60, 61]) new_rate_limiter
   = map (\<lambda>t. t * second_ns) [0, 59, 60, 61]"
  by (simp add: allow_def new_rate_limiter_def)

section \<open>The copies of the registry's routines\<close>

lemma ingest_to_string_eq: "ingest_to_string = json_to_string"
  by (simp add: fun_eq_iff ingest_to_string_def json_to_string_def)

lemma ingest_json_path_get_eq: "ingest_json_path_get fmt v path = json_path_get fmt v path"
proof (induction fmt v path rule: json_path_get.induct)
  case (1 fmt v path)
  then show ?case
    by (subst ingest_json_path_get.simps, subst json_path_get.simps)
      (auto simp: Let_def ingest_to_string_eq split: option.split)
qed

text \<open>The pipeline and the template registry implement field extraction and severity mapping
  separately. They agree: for a registered template the pipeline extracts what
  \<open>Registry.ExtractFields\<close> returns (nothing where that reports undecodable JSON), and gives the
  severity \<open>Registry.MapSeverity\<close> gives.\<close>

theorem pipeline_agrees_with_registry:
  assumes "map_of (rg_templates r) tid = Some t"
  shows "template_fields c (at_webhook t) raw =
           (case registry_extract_fields c r tid raw of None \<Rightarrow> [] | Some flds \<Rightarrow> flds)
    \<and> map_severity flds2 (wh_severity_field (at_webhook t)) (wh_severity_compound_field (at_webhook t))
           (wh_severity_mapping (at_webhook t)) = registry_map_severity r tid flds2"
proof
  have "ingest_json_path_get (num_fmt c) = json_path_get (num_fmt c)"
    by (simp add: fun_eq_iff ingest_json_path_get_eq)
  then show "template_fields c (at_webhook t) raw =
      (case registry_extract_fields c r tid raw of None \<Rightarrow> [] | Some flds \<Rightarrow> flds)"
    using assms
    by (auto simp: template_fields_def extract_fields_def registry_extract_fields_def Let_def
          extract_paths_def
        split: option.split)
  show "map_severity flds2 (wh_severity_field (at_webhook t)) (wh_severity_compound_field (at_webhook t))
      (wh_severity_mapping (at_webhook t)) = registry_map_severity r tid flds2"
    using assms(1)
    by (auto simp: map_severity_def registry_map_severity_def Let_def split: option.split)
qed

theorem pipeline_agrees_with_registry_witness:
  "let t = sample_template [(''warning'', ''warn'')];
       r = \<lparr>rg_templates = [(''sonarr'', t)], rg_builtin_dir = [], rg_custom_dir = []\<rparr>;
       c = ie_codec (sample_env []) in
   template_fields c (at_webhook t) ''{}'' =
     (case registry_extract_fields c r ''sonarr'' ''{}'' of None \<Rightarrow> [] | Some flds \<Rightarrow> flds)"
  unfolding Let_def
  by (rule pipeline_agrees_with_registry [THEN conjunct1]) simp

text \<open>The severity is a value of the mapping or \<open>info\<close>.\<close>

lemma map_severity_range:
  "map_severity flds f cf mapping \<in> insert ''info'' (snd ` set mapping)"
proof -
  have "s \<in> snd ` set mapping" if "map_of mapping k = Some s" for k s
    using map_of_SomeD [OF that] by force
  then show ?thesis
    by (auto simp: map_severity_def Let_def split: option.split)
qed

section \<open>Titles\<close>

text \<open>A rendered title never shows an unresolved placeholder: it contains an opening brace only
  if it is the payload's own event type.\<close>

theorem title_has_no_placeholder:
  assumes "CHR ''{'' \<in> set (render_template tmpl flds)"
  shows "map_of flds ''event_type'' = Some (render_template tmpl flds)"
  using assms
  by (auto simp: render_template_def event_label_def contains_char_iff Let_def
      split: if_splits option.splits)

theorem title_has_no_placeholder_witness:
  "map_of [(''event_type'', ''{x}'')] ''event_type'' = Some (render_template ''{y}'' [(''event_type'', ''{x}'')])"
  by (rule title_has_no_placeholder)
    (simp add: render_template_def token_def event_label_def)

text \<open>The title does not depend on the order in which Go iterates over the field map when the
  template is literal text and placeholders and no field value brings in an opening brace; every
  placeholder with a value is then filled in exactly once.\<close>

theorem title_order_independent:
  assumes "template_ok segs" and "fields_ok flds" and "mset flds2 = mset flds"
    and "template_text segs \<noteq> []" and "\<forall>k. Tok k \<in> set segs \<longrightarrow> k \<in> fst ` set flds"
  shows "render_template (template_text segs) flds2 = fill (map_of flds) segs"
proof -
  have sub: "substitute flds2 (template_text segs) = fill (map_of flds) segs"
    using substitute_order [OF assms(1,2)] substitute_fill [OF assms(1,2)] assms(3) by metis
  have "\<not> contains_str (fill (map_of flds) segs) ''{''"
    using fill_no_brace [OF assms(1,2,5)] by (simp add: contains_char_iff)
  then show ?thesis
    using assms(4) sub by (simp add: render_template_def Let_def)
qed

theorem title_order_independent_witness:
  "render_template ''{a}: {b}'' [(''b'', ''y''), (''a'', ''x'')] = ''x: y''"
  using title_order_independent [of "[Tok ''a'', Lit '': '', Tok ''b'']" "[(''a'', ''x''), (''b'', ''y'')]"
      "[(''b'', ''y''), (''a'', ''x'')]"]
  by (simp add: fields_ok_def brace_free_def token_def fill_def)

text \<open>Outside those templates it does depend on it.\<close>

theorem title_order_matters:
  "render_template ''{a}'' [(''a'', ''{b}''), (''b'', ''x'')] = ''x''
   \<and> render_template ''{a}'' [(''b'', ''x''), (''a'', ''{b}'')] = ''Event received''"
  by (simp add: render_template_def token_def event_label_def)

section \<open>The pipeline\<close>

lemma app_get_by_token_state:
  "app_get_by_token tok d = (r, d1) \<Longrightarrow> d_events d1 = d_events d \<and> d_apps d1 = d_apps d
     \<and> (\<forall>app. r = Inr app \<longrightarrow> app \<in> set (d_apps d) \<and> ap_token app = tok)"
  by (auto simp: app_get_by_token_def db_op_def find_Some_iff
      split: list.splits if_splits option.splits)

lemma ingest_event_source [simp]:
  "ev_id (ingest_event env app raw) = ie_uuid env"
  "ev_source_id (ingest_event env app raw) = ap_id app"
  "ev_source_type (ingest_event env app raw) = ''app''"
  "ev_source_name (ingest_event env app raw) = ap_name app"
  "ev_created_at (ingest_event env app raw) = ie_now env"
  by (simp_all add: ingest_event_def split: prod.split)

lemma allow_default_limit: "allow now a (if l \<le> 0 then 100 else l) ws = allow now a l ws"
  by (simp add: allow_def)

lemma process_found:
  assumes "app_get_by_token tok d = (Inr app, d1)"
    and "allow (ie_now env) (ap_id app) (ap_rate_limit app) ws = (ok, ws1)"
  shows "process env ws tok raw d =
    (if \<not> ok then (Inl RateLimited, ws1, d1)
     else (case event_create (ingest_event env app raw) d1 of
             (Inl err, d2) \<Rightarrow> (Inl (StoreError err), ws1, d2)
           | (Inr _, d2) \<Rightarrow> (Inr (ie_uuid env), ws1, d2)))"
  using assms by (simp add: process_def allow_default_limit Let_def split: prod.split sum.split)

text \<open>C3: A webhook call that succeeds has added exactly one event: the app's own, identified by the
  returned id, of a level and source type the schema allows, for an app with the presented token
  that the limiter let through. A call that fails, for whatever reason, has added none.\<close>

theorem process_adds_one_event:
  "case process env ws tok raw d of
     (Inr eid, ws2, d2) \<Rightarrow>
       (\<exists>app \<in> set (d_apps d). ap_token app = tok
          \<and> allow (ie_now env) (ap_id app) (ap_rate_limit app) ws = (True, ws2)
          \<and> d_events d2 = d_events d @ [ingest_event env app raw]
          \<and> event_row_ok (ingest_event env app raw)
          \<and> eid = ev_id (ingest_event env app raw) \<and> eid \<notin> ev_id ` set (d_events d))
   | (Inl err, ws2, d2) \<Rightarrow> d_events d2 = d_events d"
proof -
  obtain r d1 where g: "app_get_by_token tok d = (r, d1)" by fastforce
  note st = app_get_by_token_state [OF g]
  show ?thesis
  proof (cases r)
    case (Inl e)
    then show ?thesis using g st by (simp add: process_def)
  next
    case (Inr app)
    obtain ok ws1 where a: "allow (ie_now env) (ap_id app) (ap_rate_limit app) ws = (ok, ws1)"
      by fastforce
    obtain rc d2 where c: "event_create (ingest_event env app raw) d1 = (rc, d2)" by fastforce
    note run = process_found [OF g [unfolded Inr] a, of raw, unfolded c]
    show ?thesis
    proof (cases "ok \<and> rc = Inr ()")
      case False
      then show ?thesis using event_create_cases [OF c] st run by auto
    next
      case True
      with event_create_cases [OF c] st have
        "d_events d2 = d_events d @ [ingest_event env app raw]"
        "event_insertable d1 (ingest_event env app raw)" by auto
      with True run a st Inr show ?thesis
        by (auto simp: event_insertable_def intro!: bexI [of _ app])
    qed
  qed
qed

text \<open>A call with a known token, within the limit, is accepted and stored, provided its template
  maps severities to event levels only.\<close>

theorem process_accepts:
  assumes "d_faults d = []" and "List.find (\<lambda>a. ap_token a = tok) (d_apps d) = Some app"
    and "allow (ie_now env) (ap_id app) (ap_rate_limit app) ws = (True, ws1)"
    and "ie_uuid env \<notin> ev_id ` set (d_events d)"
    and "\<And>t. app_template_of env app = Some t
           \<Longrightarrow> snd ` set (wh_severity_mapping (at_webhook t)) \<subseteq> set event_levels"
  shows "process env ws tok raw d =
    (Inr (ie_uuid env), ws1, d\<lparr>d_events := d_events d @ [ingest_event env app raw]\<rparr>)"
proof -
  have lev: "ev_level (ingest_event env app raw) \<in> set event_levels"
  proof (cases "app_template_of env app")
    case None
    then show ?thesis by (simp add: ingest_event_def event_levels_def)
  next
    case (Some t)
    let ?w = "at_webhook t"
    have "ev_level (ingest_event env app raw)
        = map_severity (template_fields (ie_codec env) ?w raw) (wh_severity_field ?w)
            (wh_severity_compound_field ?w) (wh_severity_mapping ?w)"
      using Some by (simp add: ingest_event_def process_template_def Let_def)
    moreover have "insert ''info'' (snd ` set (wh_severity_mapping ?w)) \<subseteq> set event_levels"
      using assms(5) [OF Some] by (simp add: event_levels_def)
    ultimately show ?thesis
      using map_severity_range [of "template_fields (ie_codec env) ?w raw" "wh_severity_field ?w"
          "wh_severity_compound_field ?w" "wh_severity_mapping ?w"] by auto
  qed
  have "event_insertable d (ingest_event env app raw)"
    using lev assms(4) by (simp add: event_insertable_def event_row_ok_def event_source_types_def)
  moreover have "app_get_by_token tok d = (Inr app, d)"
    using assms(1,2) by (simp add: app_get_by_token_def)
  ultimately show ?thesis
    using process_found [OF _ assms(3), of tok d d raw] assms(1) by (simp add: event_create_no_fault)
qed

theorem process_accepts_witness:
  "fst (process (sample_env [(''warning'', ''warn'')]) new_rate_limiter ''tok'' ''{}''
      (empty_db\<lparr>d_apps := [sample_app]\<rparr>)) = Inr ''e1''"
proof -
  let ?d = "empty_db\<lparr>d_apps := [sample_app]\<rparr>"
  let ?env = "sample_env [(''warning'', ''warn'')]"
  have "process ?env new_rate_limiter ''tok'' ''{}'' ?d
      = (Inr (ie_uuid ?env), [''a1'' \<mapsto> \<lparr>rw_count = 1, rw_start = 0\<rparr>],
         ?d\<lparr>d_events := d_events ?d @ [ingest_event ?env sample_app ''{}'']\<rparr>)"
    by (rule process_accepts)
      (simp_all add: sample_defs allow_def new_rate_limiter_def app_template_of_def event_levels_def)
  then show ?thesis by (simp add: sample_env_def)
qed

text \<open>A template may map a severity to a word that is not an event level: nothing checks it, the
  insert then violates the CHECK constraint of the table and the event is lost.\<close>

theorem unmapped_level_loses_event:
  "process (sample_env [(''warning'', ''medium'')]) new_rate_limiter ''tok'' ''{}''
      (empty_db\<lparr>d_apps := [sample_app]\<rparr>)
   = (Inl (StoreError DbFail), [''a1'' \<mapsto> \<lparr>rw_count = 1, rw_start = 0\<rparr>], empty_db\<lparr>d_apps := [sample_app]\<rparr>)"
proof -
  have path: "ingest_json_path_get show_nat (JObj [(''level'', JStr ''warning'')]) ''$.level'' = Some ''warning''"
    by (subst ingest_json_path_get.simps)
      (simp add: trim_dollar_def trim_prefix_def split_segment_def json_child_def array_index_re_def
        ingest_to_string_def Let_def)
  show ?thesis
    by (simp add: process_def app_get_by_token_def sample_defs allow_def new_rate_limiter_def
        ingest_event_def app_template_of_def process_template_def template_fields_def
        extract_fields_def extract_paths_def path map_severity_def event_create_def event_insertable_def
        event_row_ok_def event_levels_def Let_def)
qed

end
