(* ===== verification/Mail.thy ===== *)
theory Mail
  imports Prelude
begin

text \<open>
  Outgoing mail: internal/jobs/smtp.go.

  The SMTP conversation of \<open>SendMail\<close> is the list of commands it sends; the server is a function
  that says for each command whether it fails, and with what text. The first failing command ends
  the conversation.
\<close>

abbreviation cr :: char where "cr \<equiv> CHR 0x0D"
abbreviation lf :: char where "lf \<equiv> CHR 0x0A"

definition crlf :: string where
  "crlf = [cr, lf]"

definition sanitize_header :: "string \<Rightarrow> string" where
  "sanitize_header v = replace_all [lf] [] (replace_all [cr] [] v)"

definition build_mime_message :: "string \<Rightarrow> string list \<Rightarrow> string \<Rightarrow> string \<Rightarrow> string" where
  "build_mime_message from_addr rcpts subject html_body =
     (let sanitized_to = map sanitize_header rcpts in
      ''From: '' @ sanitize_header from_addr @ crlf
      @ ''To: '' @ join '', '' sanitized_to @ crlf
      @ ''Subject: '' @ sanitize_header subject @ crlf
      @ ''MIME-Version: 1.0'' @ crlf
      @ ''Content-Type: text/html; charset='' @ [CHR 0x22] @ ''UTF-8'' @ [CHR 0x22] @ crlf
      @ crlf
      @ replace_all [cr] [] html_body)"

section \<open>The conversation\<close>

datatype smtp_cmd =
    SmtpDial string
  | SmtpNewClient
  | SmtpStartTLS
  | SmtpAuth string string
  | SmtpMail string
  | SmtpRcpt string
  | SmtpData
  | SmtpBody string
  | SmtpCloseData
  | SmtpQuit

record smtp_server =
  sv_starttls :: bool
  sv_fail :: "smtp_cmd \<Rightarrow> string option"

fun smtp_error_text :: "smtp_cmd \<Rightarrow> string \<Rightarrow> string" where
  "smtp_error_text (SmtpDial addr) e = ''smtp: dial '' @ addr @ '': '' @ e"
| "smtp_error_text SmtpNewClient e = ''smtp: new client: '' @ e"
| "smtp_error_text SmtpStartTLS e = ''smtp: starttls: '' @ e"
| "smtp_error_text (SmtpAuth u p) e = ''smtp: auth: '' @ e"
| "smtp_error_text (SmtpMail f) e = ''smtp: MAIL FROM: '' @ e"
| "smtp_error_text (SmtpRcpt r) e = ''smtp: RCPT TO '' @ r @ '': '' @ e"
| "smtp_error_text SmtpData e = ''smtp: DATA: '' @ e"
| "smtp_error_text (SmtpBody m) e = ''smtp: write body: '' @ e"
| "smtp_error_text SmtpCloseData e = ''smtp: close data: '' @ e"
| "smtp_error_text SmtpQuit e = e"

fun run_smtp :: "smtp_server \<Rightarrow> smtp_cmd list \<Rightarrow> string option \<times> smtp_cmd list" where
  "run_smtp sv [] = (None, [])"
| "run_smtp sv (c # cs) = (case sv_fail sv c of
       Some e \<Rightarrow> (Some (smtp_error_text c e), [c])
     | None \<Rightarrow> (case run_smtp sv cs of (r, done) \<Rightarrow> (r, c # done)))"

text \<open>\<open>net.JoinHostPort\<close>: an IPv6 host is bracketed.\<close>

definition join_host_port :: "string \<Rightarrow> string \<Rightarrow> string" where
  "join_host_port host port =
     (if CHR '':'' \<in> set host then ''['' @ host @ '']:'' @ port else host @ '':'' @ port)"

definition smtp_commands ::
  "smtp_server \<Rightarrow> string \<Rightarrow> int \<Rightarrow> string \<Rightarrow> string \<Rightarrow> string \<Rightarrow> string list \<Rightarrow> string \<Rightarrow> string \<Rightarrow> smtp_cmd list"
where
  "smtp_commands sv host port user pass from_addr rcpts subject html_body =
     [SmtpDial (join_host_port host (show_int port)), SmtpNewClient]
     @ (if sv_starttls sv then [SmtpStartTLS] else [])
     @ (if user \<noteq> [] \<and> pass \<noteq> [] then [SmtpAuth user pass] else [])
     @ [SmtpMail from_addr] @ map SmtpRcpt rcpts
     @ [SmtpData, SmtpBody (build_mime_message from_addr rcpts subject html_body), SmtpCloseData, SmtpQuit]"

definition send_mail ::
  "smtp_server \<Rightarrow> string \<Rightarrow> int \<Rightarrow> string \<Rightarrow> string \<Rightarrow> string \<Rightarrow> string list \<Rightarrow> string \<Rightarrow> string
     \<Rightarrow> string option \<times> smtp_cmd list"
where
  "send_mail sv host port user pass from_addr rcpts subject html_body =
     (if host = [] then (Some ''smtp: host is not configured'', [])
      else if rcpts = [] then (Some ''smtp: no recipients'', [])
      else run_smtp sv (smtp_commands sv host port user pass from_addr rcpts subject html_body))"

section \<open>Lemmas\<close>

lemma sanitize_header_filter: "sanitize_header v = filter (\<lambda>x. x \<noteq> cr \<and> x \<noteq> lf) v"
  by (simp add: sanitize_header_def replace_all_delete_char filter_comp)

lemma set_join: "set (join sep xs) \<subseteq> set sep \<union> \<Union> (set ` set xs)"
  by (induction sep xs rule: join.induct) auto

definition no_line_break :: "string \<Rightarrow> bool" where
  "no_line_break s = (cr \<notin> set s \<and> lf \<notin> set s)"

lemma no_line_break_sanitize [simp]: "no_line_break (sanitize_header v)"
  by (simp add: no_line_break_def sanitize_header_filter)

lemma no_line_break_append [simp]: "no_line_break (a @ b) \<longleftrightarrow> no_line_break a \<and> no_line_break b"
  by (auto simp: no_line_break_def)

lemma no_line_break_Nil [simp]: "no_line_break []"
  by (simp add: no_line_break_def)

lemma no_line_break_Cons [simp]: "no_line_break (c # s) \<longleftrightarrow> c \<noteq> cr \<and> c \<noteq> lf \<and> no_line_break s"
  by (auto simp: no_line_break_def)

lemma no_line_break_join:
  "no_line_break sep \<Longrightarrow> list_all no_line_break xs \<Longrightarrow> no_line_break (join sep xs)"
  by (induction sep xs rule: join.induct) auto

text \<open>Header lines, an empty line, the body.\<close>

definition message_lines :: "string list \<Rightarrow> string \<Rightarrow> string" where
  "message_lines hs body = concat (map (\<lambda>h. h @ crlf) hs) @ crlf @ body"

text \<open>Whatever the sender, recipients, subject and body contain, the message has exactly the five
  header lines the code writes, none of them broken by a CR or LF of the input, and the body that
  follows has no CR.\<close>

theorem no_header_injection:
  "\<exists>f r s b. build_mime_message from_addr rcpts subject html_body =
      message_lines [''From: '' @ f, ''To: '' @ r, ''Subject: '' @ s, ''MIME-Version: 1.0'',
         ''Content-Type: text/html; charset='' @ [CHR 0x22] @ ''UTF-8'' @ [CHR 0x22]] b
    \<and> no_line_break f \<and> no_line_break r \<and> no_line_break s \<and> cr \<notin> set b"
proof (intro exI conjI)
  show "build_mime_message from_addr rcpts subject html_body =
      message_lines [''From: '' @ sanitize_header from_addr,
         ''To: '' @ join '', '' (map sanitize_header rcpts),
         ''Subject: '' @ sanitize_header subject, ''MIME-Version: 1.0'',
         ''Content-Type: text/html; charset='' @ [CHR 0x22] @ ''UTF-8'' @ [CHR 0x22]]
       (replace_all [cr] [] html_body)"
    by (simp add: build_mime_message_def message_lines_def Let_def)
  show "no_line_break (join '', '' (map sanitize_header rcpts))"
    by (rule no_line_break_join) (auto simp: list_all_iff)
  show "cr \<notin> set (replace_all [cr] [] html_body)"
    by (simp add: replace_all_delete_char)
qed simp_all

text \<open>What the server accepted is a prefix of the conversation, all of it on success.\<close>

lemma run_smtp_prefix:
  "run_smtp sv cs = (r, sent) \<Longrightarrow> (\<exists>rest. cs = sent @ rest) \<and> (r = None \<longleftrightarrow> (\<forall>c \<in> set cs. sv_fail sv c = None))"
proof (induction sv cs arbitrary: r sent rule: run_smtp.induct)
  case (2 sv c cs)
  show ?case
  proof (cases "sv_fail sv c")
    case None
    obtain r2 sent2 where rec: "run_smtp sv cs = (r2, sent2)" by fastforce
    with None "2.prems" have "r = r2" "sent = c # sent2" by simp_all
    with "2.IH" [OF None rec] None show ?thesis by auto
  qed (use "2.prems" in auto)
qed simp

lemma run_smtp_all: "run_smtp sv cs = (None, sent) \<Longrightarrow> sent = cs"
proof (induction sv cs arbitrary: sent rule: run_smtp.induct)
  case (2 sv c cs)
  then show ?case by (auto split: option.splits prod.splits)
qed simp

lemma run_smtp_none: "\<forall>c \<in> set cs. sv_fail sv c = None \<Longrightarrow> run_smtp sv cs = (None, cs)"
  by (induction cs) auto

end
