(* ===== verification/Links.thy ===== *)
theory Links
  imports Store "HOL-Library.List_Lexorder"
begin

text \<open>
  Tables written with \<open>INSERT ... ON CONFLICT(key) DO UPDATE\<close>, and the first two of them:
  component_links (internal/repo/links.go), the canonical parent-child relationships, and settings
  (internal/repo/settings.go). The contract of such a table is the locale \<open>keyed_table\<close>.
\<close>

section \<open>Upserts\<close>

text \<open>\<open>merge old new\<close> is the row after the conflict clause.\<close>

definition upsert_row :: "('a \<Rightarrow> 'k) \<Rightarrow> ('a \<Rightarrow> 'a \<Rightarrow> 'a) \<Rightarrow> 'a \<Rightarrow> 'a list \<Rightarrow> 'a list" where
  "upsert_row key merge r xs =
     (if key r \<in> key ` set xs then map (\<lambda>x. if key x = key r then merge x r else x) xs else xs @ [r])"

text \<open>\<open>INSERT OR IGNORE\<close>.\<close>

definition insert_ignore :: "('a \<Rightarrow> 'k) \<Rightarrow> 'a \<Rightarrow> 'a list \<Rightarrow> 'a list" where
  "insert_ignore key r xs = (if key r \<in> key ` set xs then xs else xs @ [r])"

definition lookup_row :: "('a \<Rightarrow> 'k) \<Rightarrow> 'k \<Rightarrow> 'a list \<Rightarrow> 'a option" where
  "lookup_row key k xs = List.find (\<lambda>x. key x = k) xs"

lemma lookup_row_simps [simp]:
  "lookup_row key k [] = None"
  "lookup_row key k (x # xs) = (if key x = k then Some x else lookup_row key k xs)"
  by (simp_all add: lookup_row_def)

lemma lookup_row_append:
  "lookup_row key k (xs @ ys) = (case lookup_row key k xs of None \<Rightarrow> lookup_row key k ys | Some x \<Rightarrow> Some x)"
  by (induction xs) auto

lemma lookup_row_None: "lookup_row key k xs = None \<longleftrightarrow> k \<notin> key ` set xs"
  by (auto simp: lookup_row_def find_None_iff)

lemma lookup_row_Some: "lookup_row key k xs = Some x \<Longrightarrow> x \<in> set xs \<and> key x = k"
  by (auto simp: lookup_row_def find_Some_iff)

lemma lookup_row_distinct:
  "distinct (map key xs) \<Longrightarrow> x \<in> set xs \<Longrightarrow> lookup_row key (key x) xs = Some x"
  by (induction xs) auto

lemma lookup_row_filter:
  "lookup_row key k (filter (\<lambda>x. P (key x)) xs) = (if P k then lookup_row key k xs else None)"
  by (induction xs) auto

lemma lookup_row_update_where:
  assumes "\<And>x. key (f x) = key x"
  shows "lookup_row key k (update_where P f xs) = map_option (\<lambda>x. if P x then f x else x) (lookup_row key k xs)"
  using assms by (induction xs) (auto simp: update_where_def)

locale keyed_table =
  fixes key :: "'a \<Rightarrow> 'k" and merge :: "'a \<Rightarrow> 'a \<Rightarrow> 'a"
  assumes key_merge [simp]: "key old = key new \<Longrightarrow> key (merge old new) = key old"
begin

lemma map_key_update:
  "map key (map (\<lambda>x. if key x = key r then merge x r else x) xs) = map key xs"
  by (induction xs) auto

lemma keys_upsert: "key ` set (upsert_row key merge r xs) = insert (key r) (key ` set xs)"
proof (cases "key r \<in> key ` set xs")
  case True
  have "key ` set (upsert_row key merge r xs)
      = set (map key (map (\<lambda>x. if key x = key r then merge x r else x) xs))"
    using True by (simp only: upsert_row_def if_True set_map)
  also have "\<dots> = key ` set xs" by (simp only: map_key_update set_map)
  finally show ?thesis using True by auto
qed (simp add: upsert_row_def)

lemma distinct_upsert: "distinct (map key xs) \<Longrightarrow> distinct (map key (upsert_row key merge r xs))"
  using map_key_update [of r xs] by (simp add: upsert_row_def del: map_map)

lemma lookup_update:
  "lookup_row key k (map (\<lambda>x. if key x = key r then merge x r else x) xs) =
     (if k = key r then map_option (\<lambda>x. merge x r) (lookup_row key k xs) else lookup_row key k xs)"
  by (induction xs) auto

lemma lookup_upsert:
  "lookup_row key k (upsert_row key merge r xs) =
     (if k = key r then Some (case lookup_row key k xs of None \<Rightarrow> r | Some old \<Rightarrow> merge old r)
      else lookup_row key k xs)"
proof (cases "key r \<in> key ` set xs")
  case True
  then obtain old where "lookup_row key (key r) xs = Some old"
    using lookup_row_None [of key "key r" xs] by (cases "lookup_row key (key r) xs") auto
  then show ?thesis using True by (auto simp: upsert_row_def lookup_update)
next
  case False
  then have "lookup_row key (key r) xs = None" by (simp add: lookup_row_None)
  then show ?thesis using False by (auto simp: upsert_row_def lookup_row_append split: option.split)
qed

lemma in_upsert: "x \<in> set (upsert_row key merge r xs) \<Longrightarrow> x \<in> set xs \<or> x = r \<or> (\<exists>old \<in> set xs. key old = key r \<and> x = merge old r)"
  by (auto simp: upsert_row_def split: if_splits)

end

text \<open>Tables whose conflict clause overwrites with the same values again: writing a row twice is
  writing it once.\<close>

locale overwriting_table = keyed_table +
  assumes merge_same: "merge r r = r"
    and merge_again: "merge (merge old r) r = merge old r"
begin

lemma upsert_idem: "upsert_row key merge r (upsert_row key merge r xs) = upsert_row key merge r xs"
proof (cases "key r \<in> key ` set xs")
  case True
  then have "key r \<in> key ` set (upsert_row key merge r xs)" using keys_upsert by blast
  then show ?thesis using True by (auto simp: upsert_row_def merge_again)
next
  case False
  then have "\<forall>x \<in> set xs. key x \<noteq> key r" by (metis imageI)
  then have "map (\<lambda>x. if key x = key r then merge x r else x) xs = xs" by (simp add: map_idI)
  then show ?thesis using False by (simp add: upsert_row_def merge_same)
qed

end

section \<open>INSERT OR REPLACE\<close>

text \<open>The old row goes, the new one is appended.\<close>

definition replace_row :: "('a \<Rightarrow> 'k) \<Rightarrow> 'a \<Rightarrow> 'a list \<Rightarrow> 'a list" where
  "replace_row key r xs = filter (\<lambda>x. key x \<noteq> key r) xs @ [r]"

lemma lookup_replace:
  "lookup_row key k (replace_row key r xs) = (if k = key r then Some r else lookup_row key k xs)"
  using lookup_row_filter [of key k "\<lambda>j. j \<noteq> key r" xs]
  by (auto simp: replace_row_def lookup_row_append split: option.split)

lemma in_replace: "x \<in> set (replace_row key r xs) \<longleftrightarrow> x = r \<or> (x \<in> set xs \<and> key x \<noteq> key r)"
  by (auto simp: replace_row_def)

lemma distinct_replace: "distinct (map key xs) \<Longrightarrow> distinct (map key (replace_row key r xs))"
  by (auto simp: replace_row_def distinct_map_filter)

lemma lookup_replaces:
  "lookup_row key k (fold (replace_row key) rs xs) =
     (case lookup_row key k (rev rs) of Some r \<Rightarrow> Some r | None \<Rightarrow> lookup_row key k xs)"
  by (induction rs arbitrary: xs) (auto simp: lookup_replace lookup_row_append split: option.split)

section \<open>settings\<close>

definition settings_get :: "string \<Rightarrow> db \<Rightarrow> string db_result" where
  "settings_get k = db_op (\<lambda>d. case map_of (d_settings d) k of
       Some v \<Rightarrow> (Inr v, d) | None \<Rightarrow> (Inl NotFound, d))"

definition settings_set :: "string \<Rightarrow> string \<Rightarrow> db \<Rightarrow> unit db_result" where
  "settings_set k v = db_op (\<lambda>d. (Inr (), d\<lparr>d_settings := upsert_row fst (\<lambda>old new. new) (k, v) (d_settings d)\<rparr>))"

interpretation settings_table: overwriting_table "fst :: string \<times> string \<Rightarrow> string" "\<lambda>old new. new"
  by unfold_locales auto

declare settings_table.key_merge [simp del]

lemma map_of_lookup_row: "map_of xs k = map_option snd (lookup_row fst k xs)"
  by (induction xs) auto

lemma settings_get_set:
  assumes "d_faults d = []"
  shows "settings_get k (snd (settings_set k v d)) = (Inr v, snd (settings_set k v d))"
  using assms
  by (simp add: settings_get_def settings_set_def map_of_lookup_row settings_table.lookup_upsert
      split: option.split)

section \<open>component_links\<close>

definition link_key :: "component_link \<Rightarrow> string \<times> string" where
  "link_key l = (cl_child_type l, cl_child_id l)"

definition link_merge :: "component_link \<Rightarrow> component_link \<Rightarrow> component_link" where
  "link_merge old new = old\<lparr>cl_parent_type := cl_parent_type new, cl_parent_id := cl_parent_id new\<rparr>"

definition mk_link :: "string \<Rightarrow> string \<Rightarrow> string \<Rightarrow> string \<Rightarrow> component_link" where
  "mk_link pt pid ct cid = \<lparr>cl_parent_type = pt, cl_parent_id = pid, cl_child_type = ct, cl_child_id = cid\<rparr>"

definition set_parent :: "string \<Rightarrow> string \<Rightarrow> string \<Rightarrow> string \<Rightarrow> db \<Rightarrow> unit db_result" where
  "set_parent pt pid ct cid = db_op (\<lambda>d. (Inr (),
     d\<lparr>d_links := upsert_row link_key link_merge (mk_link pt pid ct cid) (d_links d)\<rparr>))"

definition remove_parent :: "string \<Rightarrow> string \<Rightarrow> db \<Rightarrow> unit db_result" where
  "remove_parent ct cid = db_op (\<lambda>d. (Inr (),
     d\<lparr>d_links := filter (\<lambda>l. link_key l \<noteq> (ct, cid)) (d_links d)\<rparr>))"

definition get_parent :: "string \<Rightarrow> string \<Rightarrow> db \<Rightarrow> component_link db_result" where
  "get_parent ct cid = db_op (\<lambda>d. case lookup_row link_key (ct, cid) (d_links d) of
       Some l \<Rightarrow> (Inr l, d) | None \<Rightarrow> (Inl NotFound, d))"

definition get_children :: "string \<Rightarrow> string \<Rightarrow> db \<Rightarrow> component_link list db_result" where
  "get_children pt pid = db_query (\<lambda>d. order_asc cl_child_type (order_asc cl_child_id
     (filter (\<lambda>l. cl_parent_type l = pt \<and> cl_parent_id l = pid) (d_links d))))"

definition get_children_of_type :: "string \<Rightarrow> string \<Rightarrow> string \<Rightarrow> db \<Rightarrow> component_link list db_result" where
  "get_children_of_type pt pid ct = db_query (\<lambda>d. order_asc cl_child_id
     (filter (\<lambda>l. cl_parent_type l = pt \<and> cl_parent_id l = pid \<and> cl_child_type l = ct) (d_links d)))"

definition link_list_all :: "db \<Rightarrow> component_link list db_result" where
  "link_list_all = db_query (\<lambda>d. order_asc cl_parent_type (order_asc cl_parent_id
     (order_asc cl_child_type (order_asc cl_child_id (d_links d)))))"

interpretation link_table: overwriting_table link_key link_merge
  by unfold_locales (auto simp: link_key_def link_merge_def)

text \<open>The statements other repositories run on the table, their errors being dropped.\<close>

definition link_insert_ignore :: "string \<Rightarrow> string \<Rightarrow> string \<Rightarrow> string \<Rightarrow> db \<Rightarrow> unit db_result" where
  "link_insert_ignore pt pid ct cid = db_op (\<lambda>d. (Inr (),
     d\<lparr>d_links := insert_ignore link_key (mk_link pt pid ct cid) (d_links d)\<rparr>))"

definition link_delete_parent :: "string \<Rightarrow> string \<Rightarrow> db \<Rightarrow> unit db_result" where
  "link_delete_parent pt pid = db_op (\<lambda>d. (Inr (),
     d\<lparr>d_links := filter (\<lambda>l. \<not> (cl_parent_type l = pt \<and> cl_parent_id l = pid)) (d_links d)\<rparr>))"

text \<open>A child has at most one parent.\<close>

definition links_ok :: "db \<Rightarrow> bool" where
  "links_ok d = distinct (map link_key (d_links d))"

definition parent_of :: "db \<Rightarrow> string \<Rightarrow> string \<Rightarrow> (string \<times> string) option" where
  "parent_of d ct cid = map_option (\<lambda>l. (cl_parent_type l, cl_parent_id l)) (lookup_row link_key (ct, cid) (d_links d))"

lemma links_ok_fault_blind: "fault_blind links_ok"
  by (simp add: fault_blind_def links_ok_def)

lemma link_key_mk [simp]: "link_key (mk_link pt pid ct cid) = (ct, cid)"
  by (simp add: link_key_def mk_link_def)

lemma mk_link_parent:
  "cl_parent_type (mk_link pt pid ct cid) = pt" "cl_parent_id (mk_link pt pid ct cid) = pid"
  by (simp_all add: mk_link_def)

lemma set_parent_ok: "links_ok d \<Longrightarrow> links_ok (snd (set_parent pt pid ct cid d))"
  unfolding set_parent_def
  by (rule db_op_invariant [OF links_ok_fault_blind]) (auto simp: links_ok_def link_table.distinct_upsert)

lemma distinct_map_filter_links: "distinct (map f xs) \<Longrightarrow> distinct (map f (filter P xs))"
  by (rule distinct_map_filter)

lemma remove_parent_ok: "links_ok d \<Longrightarrow> links_ok (snd (remove_parent ct cid d))"
  unfolding remove_parent_def
  by (rule db_op_invariant [OF links_ok_fault_blind]) (auto simp: links_ok_def distinct_map_filter_links)

lemma link_insert_ignore_ok: "links_ok d \<Longrightarrow> links_ok (snd (link_insert_ignore pt pid ct cid d))"
  unfolding link_insert_ignore_def
  by (rule db_op_invariant [OF links_ok_fault_blind]) (auto simp: links_ok_def insert_ignore_def)

lemma link_delete_parent_ok: "links_ok d \<Longrightarrow> links_ok (snd (link_delete_parent pt pid d))"
  unfolding link_delete_parent_def
  by (rule db_op_invariant [OF links_ok_fault_blind]) (auto simp: links_ok_def distinct_map_filter_links)

text \<open>After \<open>SetParent\<close> the child's parent is the given one and every other child keeps its own;
  after \<open>RemoveParent\<close> it has none; and a child never has two.\<close>

theorem parent_after_update:
  assumes "d_faults d = []"
  shows "parent_of (snd (set_parent pt pid ct cid d)) ct2 cid2 =
           (if (ct2, cid2) = (ct, cid) then Some (pt, pid) else parent_of d ct2 cid2)
    \<and> parent_of (snd (remove_parent ct cid d)) ct2 cid2 =
           (if (ct2, cid2) = (ct, cid) then None else parent_of d ct2 cid2)"
proof
  show "parent_of (snd (set_parent pt pid ct cid d)) ct2 cid2 =
      (if (ct2, cid2) = (ct, cid) then Some (pt, pid) else parent_of d ct2 cid2)"
    using assms
    by (auto simp: set_parent_def parent_of_def link_table.lookup_upsert link_merge_def
        mk_link_parent split: option.split)
  show "parent_of (snd (remove_parent ct cid d)) ct2 cid2 =
      (if (ct2, cid2) = (ct, cid) then None else parent_of d ct2 cid2)"
    using assms lookup_row_filter [of link_key "(ct2, cid2)" "\<lambda>k. k \<noteq> (ct, cid)" "d_links d"]
    by (auto simp: remove_parent_def parent_of_def)
qed

theorem parent_after_update_witness:
  "parent_of (snd (set_parent ''docker_engine'' ''e'' ''container'' ''c'' empty_db)) ''container'' ''c''
     = Some (''docker_engine'', ''e'')"
  using parent_after_update [of empty_db] by (simp add: empty_db_def)

text \<open>Children and parents agree.\<close>

lemma children_iff_parent:
  assumes "links_ok d" and "d_faults d = []"
  shows "(\<exists>cs. fst (get_children pt pid d) = Inr cs \<and> (\<exists>l \<in> set cs. link_key l = (ct, cid)))
    \<longleftrightarrow> parent_of d ct cid = Some (pt, pid)"
proof -
  have child: "(\<exists>cs. fst (get_children pt pid d) = Inr cs \<and> (\<exists>l \<in> set cs. link_key l = (ct, cid)))
      \<longleftrightarrow> (\<exists>l \<in> set (d_links d). cl_parent_type l = pt \<and> cl_parent_id l = pid \<and> link_key l = (ct, cid))"
    using assms(2) by (auto simp: get_children_def)
  show ?thesis
  proof
    assume "\<exists>cs. fst (get_children pt pid d) = Inr cs \<and> (\<exists>l \<in> set cs. link_key l = (ct, cid))"
    with child obtain l where l: "l \<in> set (d_links d)" "cl_parent_type l = pt" "cl_parent_id l = pid"
      "link_key l = (ct, cid)" by blast
    then have "lookup_row link_key (ct, cid) (d_links d) = Some l"
      using lookup_row_distinct [of link_key "d_links d" l] assms(1) by (simp add: links_ok_def)
    then show "parent_of d ct cid = Some (pt, pid)" using l by (simp add: parent_of_def)
  next
    assume "parent_of d ct cid = Some (pt, pid)"
    then obtain l where "lookup_row link_key (ct, cid) (d_links d) = Some l"
      and "cl_parent_type l = pt" "cl_parent_id l = pid"
      by (auto simp: parent_of_def)
    with lookup_row_Some [OF this(1)] have "l \<in> set (d_links d) \<and> cl_parent_type l = pt \<and> cl_parent_id l = pid
      \<and> link_key l = (ct, cid)" by simp
    with child show "\<exists>cs. fst (get_children pt pid d) = Inr cs \<and> (\<exists>l \<in> set cs. link_key l = (ct, cid))"
      by blast
  qed
qed

end
