(* ===== verification/Rules.thy ===== *)
theory Rules
  imports AppTemplate Events Mail Links
begin

text \<open>
  The notification rules engine: internal/rules/matcher.go, engine.go, delivery.go and
  notifying_repo.go, internal/repo/rules.go, and the handlers of internal/api/rules.go.

  The decoder of a JSON array of conditions is a parameter. \<open>dispatch\<close> starts one goroutine per
  channel; here it returns the list of these jobs, and \<open>run_deliveries\<close> runs jobs in some order.
  SMTP, web push and the webhook's HTTP client are arguments of the jobs.
\<close>

section \<open>matcher.go\<close>

definition resolve_field :: "'n codec \<Rightarrow> string \<Rightarrow> event \<Rightarrow> string" where
  "resolve_field c field ev =
     (if field = ''display_text'' then ev_title ev
      else if field = ''severity'' then ev_level ev
      else if field = ''source_name'' then ev_source_name ev
      else if ev_payload ev = [] then []
      else (case json_unmarshal c (ev_payload ev) of
              Some (JObj m) \<Rightarrow>
                (case map_of m field of
                   Some (JStr tv) \<Rightarrow> tv
                 | Some tv \<Rightarrow> json_marshal (num_fmt c) tv
                 | None \<Rightarrow> [])
            | _ \<Rightarrow> []))"

definition evaluate_condition :: "'n codec \<Rightarrow> rule_condition \<Rightarrow> event \<Rightarrow> bool" where
  "evaluate_condition c cond ev =
     (let field_value = resolve_field c (rc_field cond) ev in
      if rc_operator cond = ''is'' then equal_fold field_value (rc_value cond)
      else if rc_operator cond = ''is_not'' then \<not> equal_fold field_value (rc_value cond)
      else if rc_operator cond = ''contains'' then
        contains_str (to_lower field_value) (to_lower (rc_value cond))
      else if rc_operator cond = ''does_not_contain'' then
        \<not> contains_str (to_lower field_value) (to_lower (rc_value cond))
      else False)"

text \<open>The loop of \<open>evaluateConditions\<close> with its two early returns.\<close>

fun conditions_loop :: "'n codec \<Rightarrow> rule_condition list \<Rightarrow> string \<Rightarrow> event \<Rightarrow> bool" where
  "conditions_loop c [] logic ev = (logic = ''AND'')"
| "conditions_loop c (cond # conds) logic ev =
     (let matched = evaluate_condition c cond ev in
      if logic = ''OR'' \<and> matched then True
      else if logic = ''AND'' \<and> \<not> matched then False
      else conditions_loop c conds logic ev)"

definition evaluate_conditions :: "'n codec \<Rightarrow> rule_condition list \<Rightarrow> string \<Rightarrow> event \<Rightarrow> bool" where
  "evaluate_conditions c conds logic ev = (if conds = [] then True else conditions_loop c conds logic ev)"

definition payload_fields :: "'n codec \<Rightarrow> event \<Rightarrow> (string \<times> string) list" where
  "payload_fields c ev =
     (if ev_payload ev = [] then []
      else (case json_unmarshal c (ev_payload ev) of
              Some (JObj m) \<Rightarrow>
                map (\<lambda>(k, v). (k, case v of JStr tv \<Rightarrow> tv | _ \<Rightarrow> json_marshal (num_fmt c) v)) m
            | _ \<Rightarrow> []))"

definition rule_render_template ::
  "'n codec \<Rightarrow> ((string \<times> string) list \<Rightarrow> (string \<times> string) list) \<Rightarrow> string \<Rightarrow> event \<Rightarrow> string" where
  "rule_render_template c rng tmpl ev =
     substitute (rng (payload_fields c ev))
       (replace_all ''{source_name}'' (ev_source_name ev)
         (replace_all ''{severity}'' (ev_level ev)
           (replace_all ''{display_text}'' (ev_title ev) tmpl)))"

section \<open>repo/rules.go\<close>

text \<open>Rule timestamps are written with \<open>Format(time.RFC3339)\<close>.\<close>

definition rule_list :: "db \<Rightarrow> rule list db_result" where
  "rule_list = db_query (\<lambda>d. order_asc ru_created_at (d_rules d))"

definition rule_list_enabled :: "db \<Rightarrow> rule list db_result" where
  "rule_list_enabled = db_query (\<lambda>d. order_asc ru_created_at (filter ru_enabled (d_rules d)))"

definition rule_get :: "string \<Rightarrow> db \<Rightarrow> rule db_result" where
  "rule_get rid = db_op (\<lambda>d. case List.find (\<lambda>r. ru_id r = rid) (d_rules d) of
       Some r \<Rightarrow> (Inr r, d) | None \<Rightarrow> (Inl NotFound, d))"

definition rule_create :: "rule \<Rightarrow> db \<Rightarrow> rule db_result" where
  "rule_create r d0 =
     (case db_op (\<lambda>d. if ru_id r \<in> ru_id ` set (d_rules d) then (Inl DbFail, d)
          else (Inr (), d\<lparr>d_rules := d_rules d @ [r\<lparr>ru_created_at := trunc_sec (ru_created_at r),
                                              ru_updated_at := trunc_sec (ru_updated_at r)\<rparr>]\<rparr>)) d0 of
        (Inl e, d1) \<Rightarrow> (Inl e, d1)
      | (Inr _, d1) \<Rightarrow> rule_get (ru_id r) d1)"

definition rule_update :: "rule \<Rightarrow> db \<Rightarrow> rule db_result" where
  "rule_update r d0 =
     (case db_op (\<lambda>d. (Inr (), d\<lparr>d_rules := update_where (\<lambda>x. ru_id x = ru_id r)
          (\<lambda>x. r\<lparr>ru_created_at := ru_created_at x, ru_updated_at := trunc_sec (ru_updated_at r)\<rparr>)
          (d_rules d)\<rparr>)) d0 of
        (Inl e, d1) \<Rightarrow> (Inl e, d1)
      | (Inr _, d1) \<Rightarrow> rule_get (ru_id r) d1)"

definition rule_delete :: "string \<Rightarrow> db \<Rightarrow> unit db_result" where
  "rule_delete rid = db_op (\<lambda>d. (Inr (), d\<lparr>d_rules := filter (\<lambda>r. ru_id r \<noteq> rid) (d_rules d)\<rparr>))"

definition rule_log_execution :: "rule_execution \<Rightarrow> db \<Rightarrow> unit db_result" where
  "rule_log_execution x = db_op (\<lambda>d.
     if ex_id x \<in> ex_id ` set (d_execs d) then (Inl DbFail, d)
     else (Inr (), d\<lparr>d_execs := d_execs d @ [x\<lparr>ex_fired_at := trunc_sec (ex_fired_at x)\<rparr>]\<rparr>))"

definition rule_delete_executions_before :: "go_time \<Rightarrow> db \<Rightarrow> nat db_result" where
  "rule_delete_executions_before before = db_op (\<lambda>d.
     let old = (\<lambda>x. unix_secs (ex_fired_at x) < unix_secs before) in
     (Inr (length (filter old (d_execs d))), d\<lparr>d_execs := filter (\<lambda>x. \<not> old x) (d_execs d)\<rparr>))"

section \<open>engine.go\<close>

record engine =
  en_cached_rules :: "rule list"
  en_cache_expiry :: "go_time option"  \<comment> \<open>\<open>None\<close> is the zero time\<close>

definition new_engine :: engine where
  "new_engine = \<lparr>en_cached_rules = [], en_cache_expiry = None\<rparr>"

definition cache_ttl :: int where
  "cache_ttl = 30 * second_ns"

definition invalidate_cache :: "engine \<Rightarrow> engine" where
  "invalidate_cache en = en\<lparr>en_cache_expiry := None\<rparr>"

definition cache_fresh :: "go_time \<Rightarrow> engine \<Rightarrow> bool" where
  "cache_fresh now en = (case en_cache_expiry en of None \<Rightarrow> False | Some x \<Rightarrow> now < x)"

text \<open>The clock is read once for the comparison and once more after the query.\<close>

definition enabled_rules ::
  "go_time \<Rightarrow> go_time \<Rightarrow> engine \<Rightarrow> db \<Rightarrow> (db_error + rule list) \<times> engine \<times> db" where
  "enabled_rules now now2 en d0 =
     (if cache_fresh now en then (Inr (en_cached_rules en), en, d0)
      else (case rule_list_enabled d0 of
              (Inl e, d1) \<Rightarrow> (Inl e, en, d1)
            | (Inr rs, d1) \<Rightarrow>
                (Inr rs, en\<lparr>en_cached_rules := rs, en_cache_expiry := Some (now2 + cache_ttl)\<rparr>, d1)))"

definition matches_source_type :: "string \<Rightarrow> string \<Rightarrow> bool" where
  "matches_source_type rule_type event_type =
     (if rule_type = ''app'' then event_type = ''app''
      else if rule_type = ''docker'' then event_type = ''docker_engine''
      else if rule_type = ''monitor'' then event_type = ''monitor_check''
      else rule_type = event_type)"

definition gate :: "string option \<Rightarrow> (string \<Rightarrow> bool) \<Rightarrow> bool" where
  "gate ptr ok = (case ptr of None \<Rightarrow> True | Some s \<Rightarrow> s = [] \<or> ok s)"

definition passes_gate :: "rule \<Rightarrow> event \<Rightarrow> bool" where
  "passes_gate r ev =
     (gate (ru_source_id r) (\<lambda>s. ev_source_id ev = s)
      \<and> gate (ru_source_type r) (\<lambda>s. matches_source_type s (ev_source_type ev))
      \<and> gate (ru_severity r) (\<lambda>s. ev_level ev = s))"

type_synonym condition_decoder = "string \<Rightarrow> rule_condition list option"

definition parse_conditions :: "condition_decoder \<Rightarrow> string \<Rightarrow> rule_condition list option" where
  "parse_conditions cd raw = (if raw = [] \<or> raw = ''[]'' then Some [] else cd raw)"

section \<open>delivery.go\<close>

datatype job =
    EmailJob rule event string string
  | PushJob rule event string string
  | WebhookJob rule event

definition dispatch ::
  "'n codec \<Rightarrow> ((string \<times> string) list \<Rightarrow> (string \<times> string) list) \<Rightarrow> rule \<Rightarrow> event \<Rightarrow> job list" where
  "dispatch c rng r ev =
     (let title = rule_render_template c rng (ru_notif_title r) ev;
          body = rule_render_template c rng (ru_notif_body r) ev in
      (if ru_delivery_email r then [EmailJob r ev title body] else [])
      @ (if ru_delivery_push r then [PushJob r ev title body] else [])
      @ (if ru_delivery_webhook r \<and> (case ru_webhook_url r of None \<Rightarrow> False | Some u \<Rightarrow> u \<noteq> [])
         then [WebhookJob r ev] else []))"

definition rule_matches :: "'n codec \<Rightarrow> condition_decoder \<Rightarrow> rule \<Rightarrow> event \<Rightarrow> bool" where
  "rule_matches c cd r ev =
     (if \<not> passes_gate r ev then False
      else (case parse_conditions cd (ru_conditions r) of
              None \<Rightarrow> False
            | Some conds \<Rightarrow> evaluate_conditions c conds (ru_condition_logic r) ev))"

fun evaluate_rules ::
  "'n codec \<Rightarrow> condition_decoder \<Rightarrow> ((string \<times> string) list \<Rightarrow> (string \<times> string) list) \<Rightarrow> event
     \<Rightarrow> rule list \<Rightarrow> job list"
where
  "evaluate_rules c cd rng ev [] = []"
| "evaluate_rules c cd rng ev (r # rs) =
     (if rule_matches c cd r ev then dispatch c rng r ev @ evaluate_rules c cd rng ev rs
      else evaluate_rules c cd rng ev rs)"

definition evaluate ::
  "'n codec \<Rightarrow> condition_decoder \<Rightarrow> ((string \<times> string) list \<Rightarrow> (string \<times> string) list)
     \<Rightarrow> go_time \<Rightarrow> go_time \<Rightarrow> event \<Rightarrow> engine \<Rightarrow> db \<Rightarrow> job list \<times> engine \<times> db"
where
  "evaluate c cd rng now now2 ev en d =
     (case enabled_rules now now2 en d of
        (Inl _, en1, d1) \<Rightarrow> ([], en1, d1)
      | (Inr rs, en1, d1) \<Rightarrow> (evaluate_rules c cd rng ev rs, en1, d1))"

record smtp_settings =
  sm_host :: string
  sm_port :: int
  sm_user :: string
  sm_pass :: string
  sm_from :: string
  sm_to :: string

datatype http_outcome = HttpBadRequest string | HttpError string | HttpStatus int

record 'n delivery_env =
  dv_codec :: "'n codec"
  dv_smtp_decode :: "string \<Rightarrow> smtp_settings option"   \<comment> \<open>\<open>json.Unmarshal\<close> into \<open>SMTPSettings\<close>\<close>
  dv_smtp_server :: smtp_server
  dv_push :: "string \<Rightarrow> string \<Rightarrow> string option"           \<comment> \<open>\<open>SendToAll\<close>'s error\<close>
  dv_http :: "string \<Rightarrow> string \<Rightarrow> http_outcome"            \<comment> \<open>POST of a body to a URL\<close>
  dv_rfc3339 :: "go_time \<Rightarrow> string"
  dv_db_error :: string                                  \<comment> \<open>text of a database error\<close>
  dv_now :: go_time
  dv_uuid :: string

definition log_execution ::
  "'n delivery_env \<Rightarrow> string \<Rightarrow> string \<Rightarrow> string \<Rightarrow> bool \<Rightarrow> string \<Rightarrow> db \<Rightarrow> db" where
  "log_execution env rule_id event_id delivery success err d =
     db_ignore (rule_log_execution
       \<lparr>ex_id = dv_uuid env, ex_rule_id = rule_id, ex_event_id = event_id, ex_fired_at = dv_now env,
        ex_delivery = delivery, ex_success = success,
        ex_error = (if err \<noteq> [] then Some err else None)\<rparr> d)"

definition smtp_settings_of :: "'n delivery_env \<Rightarrow> db \<Rightarrow> smtp_settings option \<times> db" where
  "smtp_settings_of env d0 = (case settings_get ''smtp'' d0 of
       (Inl _, d1) \<Rightarrow> (None, d1)
     | (Inr raw, d1) \<Rightarrow>
         (case dv_smtp_decode env raw of
            None \<Rightarrow> (None, d1)
          | Some s \<Rightarrow> (if sm_host s = [] then None else Some s, d1)))"

definition escape_html :: "string \<Rightarrow> string" where
  "escape_html s =
     replace_all ''>'' ''&gt;'' (replace_all ''<'' ''&lt;'' (replace_all ''&'' ''&amp;'' s))"

definition email_recipients :: "smtp_settings \<Rightarrow> string list" where
  "email_recipients s = (if sm_to s \<noteq> [] then [sm_to s] else if sm_from s \<noteq> [] then [sm_from s] else [])"

definition pre_style :: string where
  "pre_style = ''<pre style='' @ [CHR 0x22] @ ''font-family:monospace;white-space:pre-wrap'' @ [CHR 0x22] @ ''>''"

definition deliver_email ::
  "'n delivery_env \<Rightarrow> rule \<Rightarrow> event \<Rightarrow> string \<Rightarrow> string \<Rightarrow> db \<Rightarrow> db" where
  "deliver_email env r ev subject body d0 =
     (case smtp_settings_of env d0 of
        (None, d1) \<Rightarrow> log_execution env (ru_id r) (ev_id ev) ''email'' False ''smtp not configured'' d1
      | (Some s, d1) \<Rightarrow>
          (if email_recipients s = [] then d1
           else (case fst (send_mail (dv_smtp_server env) (sm_host s) (sm_port s) (sm_user s) (sm_pass s)
                    (sm_from s) (email_recipients s) subject (pre_style @ escape_html body @ ''</pre>'')) of
                   Some err \<Rightarrow> log_execution env (ru_id r) (ev_id ev) ''email'' False err d1
                 | None \<Rightarrow> log_execution env (ru_id r) (ev_id ev) ''email'' True [] d1)))"

definition push_list_all :: "db \<Rightarrow> push_sub list db_result" where
  "push_list_all = db_query d_subs"

definition deliver_push ::
  "'n delivery_env \<Rightarrow> rule \<Rightarrow> event \<Rightarrow> string \<Rightarrow> string \<Rightarrow> db \<Rightarrow> db" where
  "deliver_push env r ev title body d0 =
     (case push_list_all d0 of
        (Inl _, d1) \<Rightarrow> log_execution env (ru_id r) (ev_id ev) ''push'' False (dv_db_error env) d1
      | (Inr subs, d1) \<Rightarrow>
          (if subs = [] then d1
           else (case dv_push env title body of
                   Some err \<Rightarrow> log_execution env (ru_id r) (ev_id ev) ''push'' False err d1
                 | None \<Rightarrow> log_execution env (ru_id r) (ev_id ev) ''push'' True [] d1)))"

definition webhook_payload :: "'n delivery_env \<Rightarrow> rule \<Rightarrow> event \<Rightarrow> 'n json" where
  "webhook_payload env r ev = JObj
     [(''rule_id'', JStr (ru_id r)), (''rule_name'', JStr (ru_name r)), (''event_id'', JStr (ev_id ev)),
      (''source_name'', JStr (ev_source_name ev)), (''severity'', JStr (ev_level ev)),
      (''display_text'', JStr (ev_title ev)), (''fired_at'', JStr (dv_rfc3339 env (dv_now env))),
      (''fields'',
        if ev_payload ev = [] then JObj []
        else (case json_unmarshal (dv_codec env) (ev_payload ev) of
                Some (JObj m) \<Rightarrow> JObj m
              | Some JNull \<Rightarrow> JNull
              | _ \<Rightarrow> JObj []))]"

definition deliver_webhook :: "'n delivery_env \<Rightarrow> rule \<Rightarrow> event \<Rightarrow> db \<Rightarrow> db" where
  "deliver_webhook env r ev d =
     (let body = json_marshal (num_fmt (dv_codec env)) (webhook_payload env r ev);
          url = (case ru_webhook_url r of Some u \<Rightarrow> u | None \<Rightarrow> []) in
      case dv_http env url body of
        HttpBadRequest err \<Rightarrow> log_execution env (ru_id r) (ev_id ev) ''webhook'' False err d
      | HttpError err \<Rightarrow> log_execution env (ru_id r) (ev_id ev) ''webhook'' False err d
      | HttpStatus status \<Rightarrow>
          (if status < 200 \<or> status \<ge> 300
           then log_execution env (ru_id r) (ev_id ev) ''webhook'' False (''HTTP '' @ show_int status) d
           else log_execution env (ru_id r) (ev_id ev) ''webhook'' True [] d))"

fun run_job :: "'n delivery_env \<Rightarrow> job \<Rightarrow> db \<Rightarrow> db" where
  "run_job env (EmailJob r ev subject body) d = deliver_email env r ev subject body d"
| "run_job env (PushJob r ev title body) d = deliver_push env r ev title body d"
| "run_job env (WebhookJob r ev) d = deliver_webhook env r ev d"

text \<open>Goroutines finish in any order; each job has its own id and time.\<close>

definition run_deliveries :: "('n delivery_env \<times> job) list \<Rightarrow> db \<Rightarrow> db" where
  "run_deliveries js d = foldl (\<lambda>d (env, j). run_job env j d) d js"

section \<open>notifying_repo.go\<close>

text \<open>\<open>Create\<close> of the wrapping repository: the event to evaluate, when the insert succeeded.\<close>

definition notifying_create :: "event \<Rightarrow> db \<Rightarrow> unit db_result \<times> event option" where
  "notifying_create e d = (case event_create e d of
       (Inl err, d1) \<Rightarrow> ((Inl err, d1), None)
     | (Inr _, d1) \<Rightarrow> ((Inr (), d1), Some e))"

section \<open>api/rules.go\<close>

record rule_request =
  rq_name :: string
  rq_enabled :: bool
  rq_source_id :: "string option"
  rq_source_type :: "string option"
  rq_severity :: "string option"
  rq_conditions :: "rule_condition list"
  rq_condition_logic :: string
  rq_delivery_email :: bool
  rq_delivery_push :: bool
  rq_delivery_webhook :: bool
  rq_webhook_url :: "string option"
  rq_notif_title :: string
  rq_notif_body :: string

definition empty_string_to_nil :: "string option \<Rightarrow> string option" where
  "empty_string_to_nil p = (case p of None \<Rightarrow> None | Some s \<Rightarrow> if s = [] then None else Some s)"

text \<open>\<open>json.Marshal\<close> of the condition structs: the fields in declaration order.\<close>

definition condition_json :: "rule_condition \<Rightarrow> string" where
  "condition_json cd = ''{'' @ json_quote ''field'' @ '':'' @ json_quote (rc_field cd)
     @ '','' @ json_quote ''operator'' @ '':'' @ json_quote (rc_operator cd)
     @ '','' @ json_quote ''value'' @ '':'' @ json_quote (rc_value cd) @ ''}''"

definition conditions_json :: "rule_condition list \<Rightarrow> string" where
  "conditions_json cs = (if cs = [] then ''[]'' else ''['' @ join '','' (map condition_json cs) @ '']'')"

definition conditions_slice :: "condition_decoder \<Rightarrow> string \<Rightarrow> rule_condition list" where
  "conditions_slice cd raw =
     (if raw = [] \<or> raw = ''[]'' then [] else (case cd raw of None \<Rightarrow> [] | Some cs \<Rightarrow> cs))"

text \<open>A response is the rule with its conditions as an array.\<close>

type_synonym rule_response = "rule \<times> rule_condition list"

definition to_rule_response :: "condition_decoder \<Rightarrow> rule \<Rightarrow> rule_response" where
  "to_rule_response cd r = (r, conditions_slice cd (ru_conditions r))"

type_synonym server_state = "engine \<times> db"

definition request_logic :: "rule_request \<Rightarrow> string" where
  "request_logic req =
     (if rq_condition_logic req \<noteq> ''AND'' \<and> rq_condition_logic req \<noteq> ''OR'' then ''AND''
      else rq_condition_logic req)"

definition apply_request :: "rule_request \<Rightarrow> go_time \<Rightarrow> rule \<Rightarrow> rule" where
  "apply_request req now r = r\<lparr>ru_name := rq_name req, ru_enabled := rq_enabled req,
     ru_source_id := empty_string_to_nil (rq_source_id req),
     ru_source_type := empty_string_to_nil (rq_source_type req),
     ru_severity := empty_string_to_nil (rq_severity req),
     ru_conditions := conditions_json (rq_conditions req), ru_condition_logic := request_logic req,
     ru_delivery_email := rq_delivery_email req, ru_delivery_push := rq_delivery_push req,
     ru_delivery_webhook := rq_delivery_webhook req,
     ru_webhook_url := empty_string_to_nil (rq_webhook_url req),
     ru_notif_title := rq_notif_title req, ru_notif_body := rq_notif_body req,
     ru_updated_at := now\<rparr>"

definition blank_rule :: "string \<Rightarrow> go_time \<Rightarrow> rule" where
  "blank_rule rid now = \<lparr>ru_id = rid, ru_name = [], ru_enabled = False, ru_source_id = None,
     ru_source_type = None, ru_severity = None, ru_conditions = [], ru_condition_logic = [],
     ru_delivery_email = False, ru_delivery_push = False, ru_delivery_webhook = False,
     ru_webhook_url = None, ru_notif_title = [], ru_notif_body = [], ru_created_at = now,
     ru_updated_at = now\<rparr>"

definition rules_handler_create ::
  "condition_decoder \<Rightarrow> string \<Rightarrow> go_time \<Rightarrow> rule_request option \<Rightarrow> server_state
     \<Rightarrow> rule_response response \<times> server_state"
where
  "rules_handler_create cd rid now body st = (case st of (en, d0) \<Rightarrow>
     (case body of
        None \<Rightarrow> (Failed 400 ''invalid request body'', en, d0)
      | Some req \<Rightarrow>
          (if rq_name req = [] then (Failed 400 ''name is required'', en, d0)
           else (case rule_create (apply_request req now (blank_rule rid now)) d0 of
                   (Inl _, d1) \<Rightarrow> (Failed 500 ''database'', en, d1)
                 | (Inr r, d1) \<Rightarrow> (Answer 201 (to_rule_response cd r), invalidate_cache en, d1)))))"

definition rules_handler_update ::
  "condition_decoder \<Rightarrow> string \<Rightarrow> go_time \<Rightarrow> rule_request option \<Rightarrow> server_state
     \<Rightarrow> rule_response response \<times> server_state"
where
  "rules_handler_update cd rid now body st = (case st of (en, d0) \<Rightarrow>
     (case rule_get rid d0 of
        (Inl NotFound, d1) \<Rightarrow> (Failed 404 ''rule not found'', en, d1)
      | (Inl _, d1) \<Rightarrow> (Failed 500 ''database'', en, d1)
      | (Inr existing, d1) \<Rightarrow>
          (case body of
             None \<Rightarrow> (Failed 400 ''invalid request body'', en, d1)
           | Some req \<Rightarrow>
               (if rq_name req = [] then (Failed 400 ''name is required'', en, d1)
                else (case rule_update (apply_request req now existing) d1 of
                        (Inl _, d2) \<Rightarrow> (Failed 500 ''database'', en, d2)
                      | (Inr r, d2) \<Rightarrow> (Answer 200 (to_rule_response cd r), invalidate_cache en, d2))))))"

definition rules_handler_delete :: "string \<Rightarrow> server_state \<Rightarrow> unit response \<times> server_state" where
  "rules_handler_delete rid st = (case st of (en, d0) \<Rightarrow>
     (case rule_get rid d0 of
        (Inl NotFound, d1) \<Rightarrow> (Failed 404 ''rule not found'', en, d1)
      | (_, d1) \<Rightarrow>
          (case rule_delete rid d1 of
             (Inl _, d2) \<Rightarrow> (Failed 500 ''database'', en, d2)
           | (Inr _, d2) \<Rightarrow> (Answer 204 (), invalidate_cache en, d2))))"

definition rules_handler_toggle ::
  "condition_decoder \<Rightarrow> string \<Rightarrow> go_time \<Rightarrow> server_state \<Rightarrow> rule_response response \<times> server_state"
where
  "rules_handler_toggle cd rid now st = (case st of (en, d0) \<Rightarrow>
     (case rule_get rid d0 of
        (Inl NotFound, d1) \<Rightarrow> (Failed 404 ''rule not found'', en, d1)
      | (Inl _, d1) \<Rightarrow> (Failed 500 ''database'', en, d1)
      | (Inr r, d1) \<Rightarrow>
          (case rule_update (r\<lparr>ru_enabled := \<not> ru_enabled r, ru_updated_at := now\<rparr>) d1 of
             (Inl _, d2) \<Rightarrow> (Failed 500 ''database'', en, d2)
           | (Inr r2, d2) \<Rightarrow> (Answer 200 (to_rule_response cd r2), invalidate_cache en, d2))))"

definition rules_handler_get ::
  "condition_decoder \<Rightarrow> string \<Rightarrow> server_state \<Rightarrow> rule_response response \<times> server_state" where
  "rules_handler_get cd rid st = (case st of (en, d0) \<Rightarrow>
     (case rule_get rid d0 of
        (Inl NotFound, d1) \<Rightarrow> (Failed 404 ''rule not found'', en, d1)
      | (Inl _, d1) \<Rightarrow> (Failed 500 ''database'', en, d1)
      | (Inr r, d1) \<Rightarrow> (Answer 200 (to_rule_response cd r), en, d1)))"

definition rules_handler_list ::
  "condition_decoder \<Rightarrow> server_state \<Rightarrow> (rule_response list \<times> nat) response \<times> server_state" where
  "rules_handler_list cd st = (case st of (en, d0) \<Rightarrow>
     (case rule_list d0 of
        (Inl _, d1) \<Rightarrow> (Failed 500 ''database'', en, d1)
      | (Inr rs, d1) \<Rightarrow> (Answer 200 (map (to_rule_response cd) rs, length rs), en, d1)))"

section \<open>Conditions\<close>

lemma conditions_loop_iff:
  "conditions_loop c conds logic ev =
     (if logic = ''AND'' then list_all (\<lambda>k. evaluate_condition c k ev) conds
      else if logic = ''OR'' then list_ex (\<lambda>k. evaluate_condition c k ev) conds
      else False)"
  by (induction conds) (auto simp: Let_def)

text \<open>A rule's conditions hold when there are none, when all hold under AND, when one holds under
  OR; under any other logic a non-empty list never holds.\<close>

theorem evaluate_conditions_meaning:
  "evaluate_conditions c conds logic ev =
     (conds = []
      \<or> logic = ''AND'' \<and> list_all (\<lambda>k. evaluate_condition c k ev) conds
      \<or> logic = ''OR'' \<and> list_ex (\<lambda>k. evaluate_condition c k ev) conds)"
  by (auto simp: evaluate_conditions_def conditions_loop_iff)

text \<open>The negative operators are the complements of the positive ones.\<close>

lemma negative_operators:
  "evaluate_condition c \<lparr>rc_field = f, rc_operator = ''is_not'', rc_value = v\<rparr> ev
     = (\<not> evaluate_condition c \<lparr>rc_field = f, rc_operator = ''is'', rc_value = v\<rparr> ev)"
  "evaluate_condition c \<lparr>rc_field = f, rc_operator = ''does_not_contain'', rc_value = v\<rparr> ev
     = (\<not> evaluate_condition c \<lparr>rc_field = f, rc_operator = ''contains'', rc_value = v\<rparr> ev)"
  by (simp_all add: evaluate_condition_def)

lemma evaluate_rules_filter:
  "evaluate_rules c cd rng ev rs
     = concat (map (\<lambda>r. dispatch c rng r ev) (filter (\<lambda>r. rule_matches c cd r ev) rs))"
  by (induction rs) auto

section \<open>The cache\<close>

definition current_rules :: "db \<Rightarrow> rule list" where
  "current_rules d = order_asc ru_created_at (filter ru_enabled (d_rules d))"

definition rule_ok :: "rule \<Rightarrow> bool" where
  "rule_ok r = (ru_condition_logic r \<in> {''AND'', ''OR''} \<and> ru_name r \<noteq> []
     \<and> ru_source_id r \<noteq> Some [] \<and> ru_source_type r \<noteq> Some [] \<and> ru_severity r \<noteq> Some []
     \<and> ru_webhook_url r \<noteq> Some [])"

definition rules_ok :: "db \<Rightarrow> bool" where
  "rules_ok d = (distinct (map ru_id (d_rules d)) \<and> (\<forall>r \<in> set (d_rules d). rule_ok r))"

fun cache_coherent :: "server_state \<Rightarrow> bool" where
  "cache_coherent (en, d) = (en_cache_expiry en = None \<or> en_cached_rules en = current_rules d)"

text \<open>What happens to the engine and the rules while the server runs.\<close>

inductive rules_step :: "'n codec \<Rightarrow> condition_decoder \<Rightarrow> server_state \<Rightarrow> server_state \<Rightarrow> bool"
  for c :: "'n codec" and cd :: condition_decoder where
  step_create: "rules_handler_create cd rid now body st = (resp, st2) \<Longrightarrow> rules_step c cd st st2"
| step_update: "rules_handler_update cd rid now body st = (resp, st2) \<Longrightarrow> rules_step c cd st st2"
| step_delete: "rules_handler_delete rid st = (resp, st2) \<Longrightarrow> rules_step c cd st st2"
| step_toggle: "rules_handler_toggle cd rid now st = (resp, st2) \<Longrightarrow> rules_step c cd st st2"
| step_evaluate: "evaluate c cd rng now now2 ev en d = (jobs, st2) \<Longrightarrow> rules_step c cd (en, d) st2"

inductive_cases rules_stepE: "rules_step c cd st st2"

inductive rules_reachable :: "'n codec \<Rightarrow> condition_decoder \<Rightarrow> server_state \<Rightarrow> bool"
  for c :: "'n codec" and cd :: condition_decoder where
  start: "d_faults d = [] \<Longrightarrow> rules_ok d \<Longrightarrow> rules_reachable c cd (new_engine, d)"
| step: "rules_reachable c cd st \<Longrightarrow> rules_step c cd st st2 \<Longrightarrow> rules_reachable c cd st2"

fun server_inv :: "server_state \<Rightarrow> bool" where
  "server_inv (en, d) = (d_faults d = [] \<and> rules_ok d \<and> cache_coherent (en, d))"

lemma invalidate_expiry [simp]: "en_cache_expiry (invalidate_cache en) = None"
  by (simp add: invalidate_cache_def)

lemma rule_get_no_fault [simp]:
  "d_faults d = [] \<Longrightarrow> rule_get rid d =
     (case List.find (\<lambda>r. ru_id r = rid) (d_rules d) of Some r \<Rightarrow> (Inr r, d) | None \<Rightarrow> (Inl NotFound, d))"
  by (simp add: rule_get_def split: option.split)

lemma find_id: "List.find (\<lambda>r. ru_id r = rid) rs = Some r \<Longrightarrow> r \<in> set rs \<and> ru_id r = rid"
  by (auto simp: find_Some_iff)

lemma apply_request_ok: "rq_name req \<noteq> [] \<Longrightarrow> rule_ok (apply_request req now r)"
  by (auto simp: apply_request_def rule_ok_def request_logic_def empty_string_to_nil_def
      split: option.splits)

lemma apply_request_id [simp]: "ru_id (apply_request req now r) = ru_id r"
  by (simp add: apply_request_def)

lemma rule_ok_times [simp]:
  "rule_ok (r\<lparr>ru_created_at := a\<rparr>) = rule_ok r"
  "rule_ok (r\<lparr>ru_updated_at := a\<rparr>) = rule_ok r"
  "rule_ok (r\<lparr>ru_enabled := e\<rparr>) = rule_ok r"
  by (simp_all add: rule_ok_def)

lemma rules_ok_update:
  assumes "rules_ok d" and "rule_ok r"
  shows "rules_ok (d\<lparr>d_rules := update_where (\<lambda>x. ru_id x = ru_id r)
     (\<lambda>x. r\<lparr>ru_created_at := ru_created_at x, ru_updated_at := t\<rparr>) (d_rules d)\<rparr>)"
proof -
  have "map ru_id (update_where (\<lambda>x. ru_id x = ru_id r)
      (\<lambda>x. r\<lparr>ru_created_at := ru_created_at x, ru_updated_at := t\<rparr>) (d_rules d)) = map ru_id (d_rules d)"
    by (rule map_update_where) simp
  then show ?thesis
    using assms by (auto simp: rules_ok_def set_update_where)
qed

lemma rules_ok_no_dup:
  "rules_ok d \<Longrightarrow> rule_ok r \<Longrightarrow> ru_id r \<notin> ru_id ` set (d_rules d)
     \<Longrightarrow> rules_ok (d\<lparr>d_rules := d_rules d @ [r]\<rparr>)"
  by (auto simp: rules_ok_def)

lemma rules_ok_filter: "rules_ok d \<Longrightarrow> rules_ok (d\<lparr>d_rules := filter P (d_rules d)\<rparr>)"
  by (auto simp: rules_ok_def distinct_map_filter_keep)

text \<open>With a working database \<open>rule_create\<close> and \<open>rule_update\<close> have these results.\<close>

lemma rule_create_cases:
  assumes "d_faults d = []"
  shows "rule_create r d = (if ru_id r \<in> ru_id ` set (d_rules d) then (Inl DbFail, d)
     else (Inr (r\<lparr>ru_created_at := trunc_sec (ru_created_at r), ru_updated_at := trunc_sec (ru_updated_at r)\<rparr>),
           d\<lparr>d_rules := d_rules d @ [r\<lparr>ru_created_at := trunc_sec (ru_created_at r),
                ru_updated_at := trunc_sec (ru_updated_at r)\<rparr>]\<rparr>))"
proof (cases "ru_id r \<in> ru_id ` set (d_rules d)")
  case False
  then have "List.find (\<lambda>x. ru_id x = ru_id r) (d_rules d) = None"
    by (auto simp: find_None_iff) (metis imageI)
  then show ?thesis using assms False by (auto simp: rule_create_def find_append)
qed (use assms in \<open>simp add: rule_create_def\<close>)

lemma rule_update_found:
  assumes "d_faults d = []" and "ru_id r \<in> ru_id ` set (d_rules d)"
  shows "\<exists>r2. rule_update r d = (Inr r2, d\<lparr>d_rules := update_where (\<lambda>x. ru_id x = ru_id r)
     (\<lambda>x. r\<lparr>ru_created_at := ru_created_at x, ru_updated_at := trunc_sec (ru_updated_at r)\<rparr>) (d_rules d)\<rparr>)"
proof -
  let ?rs = "update_where (\<lambda>x. ru_id x = ru_id r)
     (\<lambda>x. r\<lparr>ru_created_at := ru_created_at x, ru_updated_at := trunc_sec (ru_updated_at r)\<rparr>) (d_rules d)"
  have "map ru_id ?rs = map ru_id (d_rules d)" by (rule map_update_where) simp
  then have "ru_id r \<in> ru_id ` set ?rs" using assms(2) by (metis set_map)
  then have "List.find (\<lambda>x. ru_id x = ru_id r) ?rs \<noteq> None"
    by (auto simp: find_None_iff image_iff)
  then show ?thesis using assms(1) by (auto simp: rule_update_def split: option.splits)
qed

lemma step_create_inv:
  "rules_handler_create cd rid now body st = (resp, st2) \<Longrightarrow> server_inv st \<Longrightarrow> server_inv st2"
  by (cases st)
    (auto simp: rules_handler_create_def rule_create_cases apply_request_ok rules_ok_no_dup
      split: option.splits if_splits)

lemma step_update_inv:
  assumes "rules_handler_update cd rid now body st = (resp, st2)" and "server_inv st"
  shows "server_inv st2"
proof -
  obtain en d where st: "st = (en, d)" by fastforce
  have inv: "d_faults d = []" "rules_ok d" "cache_coherent (en, d)" using assms(2) st by auto
  show ?thesis
  proof (cases "List.find (\<lambda>r. ru_id r = rid) (d_rules d)")
    case None
    then show ?thesis using assms inv st by (auto simp: rules_handler_update_def)
  next
    case (Some r)
    then have r: "ru_id r \<in> ru_id ` set (d_rules d)" using find_id by blast
    show ?thesis
    proof (cases "\<exists>req. body = Some req \<and> rq_name req \<noteq> []")
      case True
      then obtain req where req: "body = Some req" "rq_name req \<noteq> []" by blast
      from rule_update_found [OF inv(1), of "apply_request req now r"] r obtain r2 where
        "rule_update (apply_request req now r) d = (Inr r2, d\<lparr>d_rules := update_where
           (\<lambda>x. ru_id x = ru_id (apply_request req now r))
           (\<lambda>x. (apply_request req now r)\<lparr>ru_created_at := ru_created_at x,
              ru_updated_at := trunc_sec (ru_updated_at (apply_request req now r))\<rparr>) (d_rules d)\<rparr>)"
        by auto
      then show ?thesis
        using assms inv st Some req rules_ok_update [OF inv(2) apply_request_ok [OF req(2), of now r]]
        by (auto simp: rules_handler_update_def)
    next
      case False
      then show ?thesis
        using assms inv st Some by (auto simp: rules_handler_update_def split: option.splits if_splits)
    qed
  qed
qed

lemma step_toggle_inv:
  assumes "rules_handler_toggle cd rid now st = (resp, st2)" and "server_inv st"
  shows "server_inv st2"
proof -
  obtain en d where st: "st = (en, d)" by fastforce
  have inv: "d_faults d = []" "rules_ok d" "cache_coherent (en, d)" using assms(2) st by auto
  show ?thesis
  proof (cases "List.find (\<lambda>r. ru_id r = rid) (d_rules d)")
    case None
    then show ?thesis using assms inv st by (auto simp: rules_handler_toggle_def)
  next
    case (Some r)
    let ?r = "r\<lparr>ru_enabled := \<not> ru_enabled r, ru_updated_at := now\<rparr>"
    have r: "r \<in> set (d_rules d)" using find_id [OF Some] by simp
    then have ok: "rule_ok ?r" using inv(2) by (auto simp: rules_ok_def)
    from r have "ru_id ?r \<in> ru_id ` set (d_rules d)" by auto
    from rule_update_found [OF inv(1) this] obtain r2 where
      "rule_update ?r d = (Inr r2, d\<lparr>d_rules := update_where (\<lambda>x. ru_id x = ru_id ?r)
         (\<lambda>x. ?r\<lparr>ru_created_at := ru_created_at x, ru_updated_at := trunc_sec (ru_updated_at ?r)\<rparr>)
         (d_rules d)\<rparr>)" by blast
    then show ?thesis
      using assms inv st Some rules_ok_update [OF inv(2) ok]
      by (auto simp: rules_handler_toggle_def)
  qed
qed

lemma step_delete_inv:
  "rules_handler_delete rid st = (resp, st2) \<Longrightarrow> server_inv st \<Longrightarrow> server_inv st2"
  by (cases st)
    (auto simp: rules_handler_delete_def rule_delete_def rules_ok_filter split: option.splits)

lemma step_evaluate_inv:
  "evaluate c cd rng now now2 ev en d = (jobs, st2) \<Longrightarrow> server_inv (en, d) \<Longrightarrow> server_inv st2"
  by (auto simp: evaluate_def enabled_rules_def rule_list_enabled_def current_rules_def
      split: if_splits)

lemma step_inv:
  assumes "rules_step c cd st st2" and "server_inv st"
  shows "server_inv st2"
  using assms
proof (cases rule: rules_step.cases)
  case step_create
  then show ?thesis using assms(2) step_create_inv by metis
next
  case step_update
  then show ?thesis using assms(2) step_update_inv by metis
next
  case step_delete
  then show ?thesis using assms(2) step_delete_inv by metis
next
  case step_toggle
  then show ?thesis using assms(2) step_toggle_inv by metis
next
  case step_evaluate
  then show ?thesis using assms(2) step_evaluate_inv by metis
qed

lemma reachable_inv: "rules_reachable c cd st \<Longrightarrow> server_inv st"
proof (induction rule: rules_reachable.induct)
  case (start d)
  then show ?case by (simp add: new_engine_def)
next
  case (step st st2)
  then show ?case using step_inv by blast
qed

text \<open>C1: As long as the database works, every rule change goes through a handler and the engine
  evaluates exactly the rules that are enabled at that moment, in creation order, whatever the age of
  its cache: an event fires the channels of all enabled rules it matches and of no others.\<close>

theorem evaluate_fires_current_rules:
  assumes "rules_reachable c cd (en, d)"
  shows "fst (evaluate c cd rng now now2 ev en d) =
    concat (map (\<lambda>r. dispatch c rng r ev)
      (filter (\<lambda>r. rule_matches c cd r ev) (order_asc ru_created_at (filter ru_enabled (d_rules d)))))"
proof -
  have "d_faults d = []" "cache_coherent (en, d)"
    using reachable_inv [OF assms] by auto
  then show ?thesis
    by (auto simp: evaluate_def enabled_rules_def rule_list_enabled_def current_rules_def
        evaluate_rules_filter cache_fresh_def)
qed

text \<open>Every rule the API has stored has a name, AND or OR as its logic, and no gate or webhook URL
  that is an empty string; ids are unique.\<close>

theorem reachable_rules_ok:
  assumes "rules_reachable c cd (en, d)"
  shows "distinct (map ru_id (d_rules d)) \<and> list_all rule_ok (d_rules d)"
  using reachable_inv [OF assms] by (auto simp: rules_ok_def list_all_iff)

text \<open>What the creation handler does with a named request when the database works: it answers 201,
  drops the engine's rule cache and stores one rule that, when the decoder reads back what the
  encoder wrote, matches an event exactly when the request's gates and conditions hold for it.\<close>

theorem create_rule_semantics:
  assumes "d_faults d = []" and "rid \<notin> ru_id ` set (d_rules d)"
    and "rq_name req \<noteq> []" and "parse_conditions cd (conditions_json (rq_conditions req)) = Some (rq_conditions req)"
  shows "\<exists>r resp. rules_handler_create cd rid now (Some req) (en, d) =
      (Answer 201 resp, invalidate_cache en, d\<lparr>d_rules := d_rules d @ [r]\<rparr>)
    \<and> ru_id r = rid \<and> ru_enabled r = rq_enabled req
    \<and> rule_matches c cd r ev =
        (gate (rq_source_id req) (\<lambda>s. ev_source_id ev = s)
         \<and> gate (rq_source_type req) (\<lambda>s. matches_source_type s (ev_source_type ev))
         \<and> gate (rq_severity req) (\<lambda>s. ev_level ev = s)
         \<and> (rq_conditions req = []
            \<or> rq_condition_logic req \<noteq> ''OR'' \<and> list_all (\<lambda>k. evaluate_condition c k ev) (rq_conditions req)
            \<or> rq_condition_logic req = ''OR'' \<and> list_ex (\<lambda>k. evaluate_condition c k ev) (rq_conditions req)))"
proof -
  let ?r0 = "apply_request req now (blank_rule rid now)"
  let ?r = "?r0\<lparr>ru_created_at := trunc_sec (ru_created_at ?r0), ru_updated_at := trunc_sec (ru_updated_at ?r0)\<rparr>"
  have id0: "ru_id ?r0 = rid" by (simp add: blank_rule_def)
  have "rules_handler_create cd rid now (Some req) (en, d) =
      (Answer 201 (to_rule_response cd ?r), invalidate_cache en, d\<lparr>d_rules := d_rules d @ [?r]\<rparr>)"
    using assms(1-3) id0 by (simp add: rules_handler_create_def rule_create_cases)
  moreover have "ru_id ?r = rid" "ru_enabled ?r = rq_enabled req"
    by (simp_all add: apply_request_def blank_rule_def)
  moreover have gates: "gate (empty_string_to_nil p) f = gate p f" for p f
    by (auto simp: gate_def empty_string_to_nil_def split: option.split)
  have "passes_gate ?r ev = (gate (rq_source_id req) (\<lambda>s. ev_source_id ev = s)
         \<and> gate (rq_source_type req) (\<lambda>s. matches_source_type s (ev_source_type ev))
         \<and> gate (rq_severity req) (\<lambda>s. ev_level ev = s))"
    by (simp add: passes_gate_def apply_request_def gates)
  moreover have "parse_conditions cd (ru_conditions ?r) = Some (rq_conditions req)"
    using assms(4) by (simp add: apply_request_def)
  moreover have "ru_condition_logic ?r = request_logic req" by (simp add: apply_request_def)
  ultimately show ?thesis
    by (intro exI [of _ ?r] exI [of _ "to_rule_response cd ?r"])
      (auto simp: rule_matches_def evaluate_conditions_def conditions_loop_iff request_logic_def)
qed

definition sample_request :: rule_request where
  "sample_request = \<lparr>rq_name = ''warn'', rq_enabled = True, rq_source_id = None,
     rq_source_type = Some ''app'', rq_severity = Some [], rq_conditions = [], rq_condition_logic = ''XOR'',
     rq_delivery_email = False, rq_delivery_push = True, rq_delivery_webhook = False,
     rq_webhook_url = Some [], rq_notif_title = ''t'', rq_notif_body = ''b''\<rparr>"

definition sample_event :: event where
  "sample_event = \<lparr>ev_id = ''e1'', ev_level = ''warn'', ev_source_name = ''Sonarr'',
     ev_source_type = ''app'', ev_source_id = ''a1'', ev_title = ''Health'', ev_payload = [],
     ev_created_at = 0\<rparr>"

definition sample_codec :: "nat codec" where
  "sample_codec = \<lparr>json_unmarshal = (\<lambda>_. None), num_fmt = show_nat\<rparr>"

text \<open>The state after one rule has been created through the API.\<close>

definition sample_server :: server_state where
  "sample_server = snd (rules_handler_create (\<lambda>_. None) ''r1'' 0 (Some sample_request) (new_engine, empty_db))"

lemma sample_server_eq:
  "sample_server = (invalidate_cache new_engine,
     empty_db\<lparr>d_rules := [apply_request sample_request 0 (blank_rule ''r1'' 0)]\<rparr>)"
  by (simp add: sample_server_def rules_handler_create_def rule_create_cases empty_db_def
      sample_request_def apply_request_def blank_rule_def trunc_sec_def unix_secs_def)

lemma sample_server_reachable: "rules_reachable sample_codec (\<lambda>_. None) sample_server"
proof (rule rules_reachable.step)
  show "rules_reachable sample_codec (\<lambda>_. None) (new_engine, empty_db)"
    by (rule rules_reachable.start) (simp_all add: empty_db_def rules_ok_def)
  show "rules_step sample_codec (\<lambda>_. None) (new_engine, empty_db) sample_server"
    unfolding sample_server_def by (rule step_create [OF surjective_pairing])
qed

theorem evaluate_fires_current_rules_witness:
  "length (fst (evaluate sample_codec (\<lambda>_. None) (\<lambda>m. m) 5 5 sample_event
      (fst sample_server) (snd sample_server))) = 1"
proof -
  have "rules_reachable sample_codec (\<lambda>_. None) (fst sample_server, snd sample_server)"
    using sample_server_reachable by simp
  from evaluate_fires_current_rules [OF this, of "\<lambda>m. m" 5 5 sample_event] show ?thesis
    by (simp add: sample_server_eq order_asc_def rule_matches_def passes_gate_def gate_def
        parse_conditions_def conditions_json_def evaluate_conditions_def dispatch_def
        sample_request_def apply_request_def blank_rule_def sample_event_def matches_source_type_def
        empty_string_to_nil_def empty_db_def Let_def)
qed

theorem reachable_rules_ok_witness:
  "list_all rule_ok (d_rules (snd sample_server)) \<and> length (d_rules (snd sample_server)) = 1"
  using reachable_rules_ok [of sample_codec "\<lambda>_. None" "fst sample_server" "snd sample_server"]
    sample_server_reachable
  by (simp add: sample_server_eq)

theorem create_rule_semantics_witness:
  "\<exists>r resp. rules_handler_create (\<lambda>_. None) ''r1'' 0 (Some sample_request) (new_engine, empty_db) =
     (Answer 201 resp, invalidate_cache new_engine, empty_db\<lparr>d_rules := [r]\<rparr>)
   \<and> rule_matches sample_codec (\<lambda>_. None) r sample_event"
  using create_rule_semantics [of empty_db "''r1''" sample_request "\<lambda>_. None" 0 new_engine sample_codec sample_event]
  by (simp add: empty_db_def sample_request_def conditions_json_def parse_conditions_def gate_def
      sample_event_def matches_source_type_def) blast

section \<open>Deliveries\<close>

definition exec_row :: "'n delivery_env \<Rightarrow> rule \<Rightarrow> event \<Rightarrow> string \<Rightarrow> bool \<Rightarrow> string \<Rightarrow> rule_execution" where
  "exec_row env r ev channel success err =
     \<lparr>ex_id = dv_uuid env, ex_rule_id = ru_id r, ex_event_id = ev_id ev,
      ex_fired_at = trunc_sec (dv_now env), ex_delivery = channel, ex_success = success,
      ex_error = (if err \<noteq> [] then Some err else None)\<rparr>"

text \<open>The SMTP settings in force, and what a channel needs to be attempted and to succeed.\<close>

definition smtp_in_force :: "'n delivery_env \<Rightarrow> db \<Rightarrow> smtp_settings option" where
  "smtp_in_force env d = (case map_of (d_settings d) ''smtp'' of
       None \<Rightarrow> None
     | Some raw \<Rightarrow> (case dv_smtp_decode env raw of
         None \<Rightarrow> None | Some s \<Rightarrow> if sm_host s = [] then None else Some s))"

fun job_attempted :: "'n delivery_env \<Rightarrow> db \<Rightarrow> job \<Rightarrow> bool" where
  "job_attempted env d (EmailJob r ev s b) =
     (case smtp_in_force env d of None \<Rightarrow> True | Some s \<Rightarrow> sm_to s \<noteq> [] \<or> sm_from s \<noteq> [])"
| "job_attempted env d (PushJob r ev t b) = (d_subs d \<noteq> [])"
| "job_attempted env d (WebhookJob r ev) = True"

fun job_succeeds :: "'n delivery_env \<Rightarrow> db \<Rightarrow> job \<Rightarrow> bool" where
  "job_succeeds env d (EmailJob r ev subj b) =
     (case smtp_in_force env d of None \<Rightarrow> False | Some s \<Rightarrow>
        list_all (\<lambda>cmd. sv_fail (dv_smtp_server env) cmd = None)
          (smtp_commands (dv_smtp_server env) (sm_host s) (sm_port s) (sm_user s) (sm_pass s)
             (sm_from s) (email_recipients s) subj (pre_style @ escape_html b @ ''</pre>'')))"
| "job_succeeds env d (PushJob r ev t b) = (dv_push env t b = None)"
| "job_succeeds env d (WebhookJob r ev) =
     (case dv_http env (case ru_webhook_url r of Some u \<Rightarrow> u | None \<Rightarrow> [])
        (json_marshal (num_fmt (dv_codec env)) (webhook_payload env r ev)) of
        HttpStatus n \<Rightarrow> 200 \<le> n \<and> n < 300 | _ \<Rightarrow> False)"

fun job_rule :: "job \<Rightarrow> rule" where
  "job_rule (EmailJob r ev s b) = r" | "job_rule (PushJob r ev t b) = r" | "job_rule (WebhookJob r ev) = r"

fun job_event :: "job \<Rightarrow> event" where
  "job_event (EmailJob r ev s b) = ev" | "job_event (PushJob r ev t b) = ev" | "job_event (WebhookJob r ev) = ev"

fun job_channel :: "job \<Rightarrow> string" where
  "job_channel (EmailJob r ev s b) = ''email''" | "job_channel (PushJob r ev t b) = ''push''"
| "job_channel (WebhookJob r ev) = ''webhook''"

lemma log_execution_fresh:
  assumes "d_faults d = []" and "dv_uuid env \<notin> ex_id ` set (d_execs d)"
  shows "log_execution env (ru_id r) (ev_id ev) channel ok err d
    = d\<lparr>d_execs := d_execs d @ [exec_row env r ev channel ok err]\<rparr>"
  using assms by (simp add: log_execution_def rule_log_execution_def exec_row_def)

lemma smtp_settings_of_no_fault:
  "d_faults d = [] \<Longrightarrow> smtp_settings_of env d = (smtp_in_force env d, d)"
  by (simp add: smtp_settings_of_def settings_get_def smtp_in_force_def split: option.split)

lemma send_mail_result:
  "host \<noteq> [] \<Longrightarrow> rcpts \<noteq> [] \<Longrightarrow>
     (fst (send_mail sv host port user pass f rcpts subj html) = None)
     = list_all (\<lambda>cmd. sv_fail sv cmd = None) (smtp_commands sv host port user pass f rcpts subj html)"
  using run_smtp_prefix [of sv "smtp_commands sv host port user pass f rcpts subj html"]
  by (auto simp: send_mail_def list_all_iff) (metis fst_conv prod.collapse)+

text \<open>A job writes at most one row of the execution log and nothing else.\<close>

lemma run_job_rows:
  assumes "d_faults d = []" and "dv_uuid env \<notin> ex_id ` set (d_execs d)"
  shows "\<exists>err. run_job env j d = d\<lparr>d_execs := d_execs d @
     (if job_attempted env d j
      then [exec_row env (job_rule j) (job_event j) (job_channel j) (job_succeeds env d j) err] else [])\<rparr>
     \<and> (job_succeeds env d j \<longrightarrow> err = [])"
proof (cases j)
  case (EmailJob r ev subj body)
  show ?thesis
  proof (cases "smtp_in_force env d")
    case None
    then show ?thesis
      using assms EmailJob
      by (auto simp: deliver_email_def smtp_settings_of_no_fault log_execution_fresh)
  next
    case (Some s)
    then have host: "sm_host s \<noteq> []" by (auto simp: smtp_in_force_def split: option.splits if_splits)
    show ?thesis
    proof (cases "email_recipients s = []")
      case True
      then show ?thesis
        using assms EmailJob Some
        by (auto simp: deliver_email_def smtp_settings_of_no_fault email_recipients_def split: if_splits)
    next
      case False
      then have "sm_to s \<noteq> [] \<or> sm_from s \<noteq> []" by (auto simp: email_recipients_def)
      then show ?thesis
        using assms EmailJob Some send_mail_result [OF host False, of "dv_smtp_server env" "sm_port s"
            "sm_user s" "sm_pass s" "sm_from s" subj "pre_style @ escape_html body @ ''</pre>''"] False
        by (auto simp: deliver_email_def smtp_settings_of_no_fault log_execution_fresh split: option.split)
    qed
  qed
next
  case (PushJob r ev title body)
  then show ?thesis
    using assms
    by (auto simp: deliver_push_def push_list_all_def log_execution_fresh split: option.split)
next
  case (WebhookJob r ev)
  then show ?thesis
    using assms
    by (auto simp: deliver_webhook_def Let_def log_execution_fresh split: http_outcome.split)
qed

lemma run_job_frame:
  assumes "d_faults d = []" and "dv_uuid env \<notin> ex_id ` set xs"
  shows "run_job env j (d\<lparr>d_execs := xs\<rparr>)
    = d\<lparr>d_execs := xs @ d_execs (run_job env j (d\<lparr>d_execs := []\<rparr>))\<rparr>"
proof -
  have log: "log_execution env (ru_id r) (ev_id ev) ch ok err (d\<lparr>d_execs := xs\<rparr>)
      = d\<lparr>d_execs := xs @ [exec_row env r ev ch ok err]\<rparr>"
    "log_execution env (ru_id r) (ev_id ev) ch ok err (d\<lparr>d_execs := []\<rparr>)
      = d\<lparr>d_execs := [exec_row env r ev ch ok err]\<rparr>" for r ev ch ok err
    using assms by (simp_all add: log_execution_fresh)
  have smtp: "smtp_settings_of env (d\<lparr>d_execs := ys\<rparr>) = (smtp_in_force env d, d\<lparr>d_execs := ys\<rparr>)" for ys
    using assms(1) smtp_settings_of_no_fault [of "d\<lparr>d_execs := ys\<rparr>" env] by (simp add: smtp_in_force_def)
  show ?thesis
  proof (cases j)
    case (EmailJob r ev subj body)
    then show ?thesis
      by (auto simp: deliver_email_def smtp log split: option.split)
  next
    case (PushJob r ev title body)
    then show ?thesis
      using assms(1) by (auto simp: deliver_push_def push_list_all_def log split: option.split)
  next
    case (WebhookJob r ev)
    then show ?thesis
      by (auto simp: deliver_webhook_def Let_def log split: http_outcome.split)
  qed
qed

lemma run_job_row_ids:
  assumes "d_faults d = []"
  shows "ex_id ` set (d_execs (run_job env j (d\<lparr>d_execs := []\<rparr>))) \<subseteq> {dv_uuid env}"
  using run_job_rows [of "d\<lparr>d_execs := []\<rparr>" env j] assms
  by (auto simp: exec_row_def split: if_splits)

lemma disjoint_singleton: "R \<subseteq> {u} \<Longrightarrow> u \<notin> S \<Longrightarrow> S \<inter> R = {}"
  by blast

lemma run_deliveries_rows:
  assumes "d_faults d = []" and "distinct (map (dv_uuid \<circ> fst) js)"
    and "(dv_uuid \<circ> fst) ` set js \<inter> ex_id ` set xs = {}"
  shows "run_deliveries js (d\<lparr>d_execs := xs\<rparr>) =
    d\<lparr>d_execs := xs @ concat (map (\<lambda>(env, j). d_execs (run_job env j (d\<lparr>d_execs := []\<rparr>))) js)\<rparr>"
  using assms(2,3)
proof (induction js arbitrary: xs)
  case Nil
  then show ?case by (simp add: run_deliveries_def)
next
  case (Cons ej js)
  obtain env j where ej: "ej = (env, j)" by fastforce
  let ?row = "d_execs (run_job env j (d\<lparr>d_execs := []\<rparr>))"
  have step: "run_job env j (d\<lparr>d_execs := xs\<rparr>) = d\<lparr>d_execs := xs @ ?row\<rparr>"
    using Cons.prems(2) ej by (intro run_job_frame [OF assms(1)]) auto
  have fresh: "(dv_uuid \<circ> fst) ` set js \<inter> ex_id ` set (xs @ ?row) = {}"
  proof -
    have "dv_uuid env \<notin> (dv_uuid \<circ> fst) ` set js" using Cons.prems(1) ej by auto
    then have "(dv_uuid \<circ> fst) ` set js \<inter> ex_id ` set ?row = {}"
      by (rule disjoint_singleton [OF run_job_row_ids [OF assms(1)]])
    moreover have "(dv_uuid \<circ> fst) ` set js \<inter> ex_id ` set xs = {}" using Cons.prems(2) by auto
    ultimately show ?thesis unfolding set_append image_Un Int_Un_distrib by simp
  qed
  have "distinct (map (dv_uuid \<circ> fst) js)" using Cons.prems(1) by (simp add: o_def)
  then have "run_deliveries js (d\<lparr>d_execs := xs @ ?row\<rparr>) = d\<lparr>d_execs := (xs @ ?row)
      @ concat (map (\<lambda>(env, j). d_execs (run_job env j (d\<lparr>d_execs := []\<rparr>))) js)\<rparr>"
    using fresh by (rule Cons.IH)
  then show ?case using step by (simp add: run_deliveries_def ej)
qed

text \<open>C5: A delivery job writes exactly one execution row when its channel is attempted (mail unless no
  recipient is configured, push unless nobody subscribed, a webhook always) and none otherwise; the
  row records success exactly when the mail server accepted every command, the push service
  reported no error, or the webhook answered 2xx, and a success carries no error text.\<close>

theorem delivery_is_logged:
  assumes "d_faults d = []" and "dv_uuid env \<notin> ex_id ` set (d_execs d)"
  shows "\<exists>err. run_job env j d = d\<lparr>d_execs := d_execs d @
     (if job_attempted env d j
      then [exec_row env (job_rule j) (job_event j) (job_channel j) (job_succeeds env d j) err] else [])\<rparr>
     \<and> (job_succeeds env d j \<longrightarrow> err = [])"
  by (rule run_job_rows [OF assms])

definition sample_delivery :: "string \<Rightarrow> nat delivery_env" where
  "sample_delivery u = \<lparr>dv_codec = sample_codec, dv_smtp_decode = (\<lambda>_. None),
     dv_smtp_server = \<lparr>sv_starttls = True, sv_fail = (\<lambda>_. None)\<rparr>, dv_push = (\<lambda>_ _. Some ''gone''),
     dv_http = (\<lambda>_ _. HttpStatus 204), dv_rfc3339 = (\<lambda>_. ''2024-01-01T00:00:00Z''),
     dv_db_error = ''x'', dv_now = 0, dv_uuid = u\<rparr>"

definition sample_rule :: rule where
  "sample_rule = (blank_rule ''r1'' 0)\<lparr>ru_webhook_url := Some ''http://h''\<rparr>"

theorem delivery_is_logged_witness:
  "map ex_success (d_execs (run_job (sample_delivery ''x1'') (WebhookJob sample_rule sample_event) empty_db)) = [True]"
  using delivery_is_logged [of empty_db "sample_delivery ''x1''" "WebhookJob sample_rule sample_event"]
  by (auto simp: empty_db_def sample_delivery_def exec_row_def sample_rule_def)

text \<open>The deliveries of an event run concurrently; whatever order they finish in, the execution
  log ends up with the same rows and nothing else in the database differs.\<close>

theorem deliveries_any_order:
  assumes "d_faults d = []" and "mset js2 = mset js"
    and "distinct (map (dv_uuid \<circ> fst) js)" and "(dv_uuid \<circ> fst) ` set js \<inter> ex_id ` set (d_execs d) = {}"
  shows "mset (d_execs (run_deliveries js2 d)) = mset (d_execs (run_deliveries js d))
    \<and> (run_deliveries js2 d)\<lparr>d_execs := []\<rparr> = (run_deliveries js d)\<lparr>d_execs := []\<rparr>"
proof -
  have sets: "set js2 = set js" using assms(2) by (rule mset_eq_setD)
  have dist: "distinct (map (dv_uuid \<circ> fst) js2)"
    using assms(2,3) by (metis mset_map mset_eq_imp_distinct_iff)
  let ?row = "\<lambda>(env, j). d_execs (run_job env j (d\<lparr>d_execs := []\<rparr>))"
  have run: "run_deliveries ks d = d\<lparr>d_execs := d_execs d @ concat (map ?row ks)\<rparr>"
    if "distinct (map (dv_uuid \<circ> fst) ks)" "set ks = set js" for ks
    using run_deliveries_rows [OF assms(1) that(1), of "d_execs d"] assms(4) that(2) by simp
  have "mset (concat (map ?row ks)) = sum_mset (image_mset (\<lambda>x. mset (?row x)) (mset ks))" for ks
    by (induction ks) auto
  then have "mset (concat (map ?row js2)) = mset (concat (map ?row js))"
    using assms(2) by metis
  then show ?thesis using run [OF dist sets] run [OF assms(3) refl] by simp
qed

theorem deliveries_any_order_witness:
  "mset (d_execs (run_deliveries
      [(sample_delivery ''x2'', PushJob sample_rule sample_event [] []), (sample_delivery ''x1'', WebhookJob sample_rule sample_event)] empty_db))
   = mset (d_execs (run_deliveries
      [(sample_delivery ''x1'', WebhookJob sample_rule sample_event), (sample_delivery ''x2'', PushJob sample_rule sample_event [] [])] empty_db))"
  by (rule deliveries_any_order [THEN conjunct1]) (simp_all add: empty_db_def sample_delivery_def)

text \<open>Escaping the body for HTML is one pass over its characters.\<close>

definition html_char :: "char \<Rightarrow> string" where
  "html_char c = (if c = CHR ''&'' then ''&amp;'' else if c = CHR ''<'' then ''&lt;''
     else if c = CHR ''>'' then ''&gt;'' else [c])"

lemma replace_all_char: "replace_all [c] new s = concat (map (\<lambda>x. if x = c then new else [x]) s)"
  by (induction s) auto

lemma replace_all_char_append:
  "replace_all [c] new (s @ t) = replace_all [c] new s @ replace_all [c] new t"
  by (simp add: replace_all_char)

lemma escape_html_chars: "escape_html s = concat (map html_char s)"
proof (induction s)
  case (Cons x s)
  have "escape_html (x # s) = html_char x @ escape_html s"
    by (auto simp: escape_html_def html_char_def replace_all_char)
  then show ?case using Cons by simp
qed (simp add: escape_html_def)

section \<open>The wrapping repository is an event sink\<close>

definition notifying_sink_create :: "event \<Rightarrow> db \<Rightarrow> unit db_result" where
  "notifying_sink_create e d = fst (notifying_create e d)"

interpretation notifying_events: event_sink notifying_sink_create d_events event_row_ok
proof
  fix e d u d2 assume "notifying_sink_create e d = (Inr u, d2)"
  then have "event_create e d = (Inr (), d2)"
    by (auto simp: notifying_sink_create_def notifying_create_def split: prod.splits sum.splits)
  from event_create_cases [OF this] show "d_events d2 = d_events d @ [e] \<and> event_row_ok e"
    by (auto simp: event_insertable_def)
next
  fix e d err d2 assume "notifying_sink_create e d = (Inl err, d2)"
  then have "event_create e d = (Inl err, d2)"
    by (auto simp: notifying_sink_create_def notifying_create_def split: prod.splits sum.splits)
  from event_create_cases [OF this] show "d_events d2 = d_events d" by auto
qed

text \<open>The engine is asked to evaluate an event exactly when the event has been stored.\<close>

lemma notify_iff_stored:
  "snd (notifying_create e d) = (case fst (event_create e d) of Inr _ \<Rightarrow> Some e | Inl _ \<Rightarrow> None)"
  by (simp add: notifying_create_def split: prod.split sum.split)

end
