(* ===== verification/Checks.thy ===== *)
theory Checks
  imports Events Links
begin

text \<open>
  Monitor checks: internal/repo/checks.go, internal/monitor/runner.go (the probes) and the four
  checkers ping.go, url.go, ssl.go, dns.go.

  What the network answers is an argument: the outcome of the ping command, of the HTTP request, of
  the TLS dial and of the DNS lookups. Latencies are milliseconds.
\<close>

section \<open>repo/checks.go\<close>

definition check_types :: "string list" where
  "check_types = [''ping'', ''url'', ''ssl'', ''dns'']"

definition check_insertable :: "db \<Rightarrow> monitor_check \<Rightarrow> bool" where
  "check_insertable d c = (mc_id c \<notin> mc_id ` set (d_checks d) \<and> mc_type c \<in> set check_types
     \<and> (mc_app_id c = [] \<or> mc_app_id c \<in> ap_id ` set (d_apps d)))"

definition check_list :: "db \<Rightarrow> monitor_check list db_result" where
  "check_list = db_query (\<lambda>d. order_asc mc_created_at (d_checks d))"

definition check_get :: "string \<Rightarrow> db \<Rightarrow> monitor_check db_result" where
  "check_get cid = db_op (\<lambda>d. case lookup_row mc_id cid (d_checks d) of
       Some c \<Rightarrow> (Inr c, d) | None \<Rightarrow> (Inl NotFound, d))"

text \<open>The row the INSERT makes: no owner, no status yet, created at the database's clock.\<close>

definition new_check_row :: "go_time \<Rightarrow> monitor_check \<Rightarrow> monitor_check" where
  "new_check_row dbnow c = c\<lparr>mc_source_component_id := None, mc_last_checked_at := None,
     mc_last_status := [], mc_last_result := [], mc_created_at := dbnow\<rparr>"

definition check_create :: "go_time \<Rightarrow> monitor_check \<Rightarrow> db \<Rightarrow> unit db_result" where
  "check_create dbnow c d0 =
     (case db_op (\<lambda>d. if check_insertable d c
          then (Inr (), d\<lparr>d_checks := d_checks d @ [new_check_row dbnow c]\<rparr>) else (Inl DbFail, d)) d0 of
        (Inl e, d1) \<Rightarrow> (Inl e, d1)
      | (Inr _, d1) \<Rightarrow>
          (Inr (), if mc_app_id c \<noteq> []
                   then db_ignore (link_insert_ignore ''monitor'' (mc_id c) ''app'' (mc_app_id c) d1) else d1))"

definition update_check_row :: "monitor_check \<Rightarrow> monitor_check \<Rightarrow> monitor_check" where
  "update_check_row c old = c\<lparr>mc_source_component_id := mc_source_component_id old,
     mc_last_checked_at := mc_last_checked_at old, mc_last_status := mc_last_status old,
     mc_last_result := mc_last_result old, mc_created_at := mc_created_at old\<rparr>"

definition check_update :: "monitor_check \<Rightarrow> db \<Rightarrow> unit db_result" where
  "check_update c d0 =
     (case db_op (\<lambda>d.
          if mc_id c \<notin> mc_id ` set (d_checks d) then (Inl NotFound, d)
          else if mc_type c \<notin> set check_types
                  \<or> (mc_app_id c \<noteq> [] \<and> mc_app_id c \<notin> ap_id ` set (d_apps d)) then (Inl DbFail, d)
          else (Inr (), d\<lparr>d_checks := update_where (\<lambda>x. mc_id x = mc_id c) (update_check_row c) (d_checks d)\<rparr>)) d0 of
        (Inl e, d1) \<Rightarrow> (Inl e, d1)
      | (Inr _, d1) \<Rightarrow>
          (let d2 = db_ignore (link_delete_parent ''monitor'' (mc_id c) d1) in
           (Inr (), if mc_app_id c \<noteq> []
                    then db_ignore (link_insert_ignore ''monitor'' (mc_id c) ''app'' (mc_app_id c) d2) else d2)))"

definition check_delete :: "string \<Rightarrow> db \<Rightarrow> unit db_result" where
  "check_delete cid = db_op (\<lambda>d.
     if cid \<in> mc_id ` set (d_checks d)
     then (Inr (), d\<lparr>d_checks := filter (\<lambda>c. mc_id c \<noteq> cid) (d_checks d)\<rparr>) else (Inl NotFound, d))"

definition set_check_status :: "string \<Rightarrow> string \<Rightarrow> go_time \<Rightarrow> monitor_check \<Rightarrow> monitor_check" where
  "set_check_status status result now c =
     c\<lparr>mc_last_status := status, mc_last_result := result, mc_last_checked_at := Some now\<rparr>"

definition check_update_status :: "string \<Rightarrow> string \<Rightarrow> string \<Rightarrow> go_time \<Rightarrow> db \<Rightarrow> unit db_result" where
  "check_update_status cid status result now = db_op (\<lambda>d.
     if cid \<in> mc_id ` set (d_checks d)
     then (Inr (), d\<lparr>d_checks := update_where (\<lambda>c. mc_id c = cid) (set_check_status status result now) (d_checks d)\<rparr>)
     else (Inl NotFound, d))"

definition check_set_dns_baseline :: "string \<Rightarrow> string \<Rightarrow> db \<Rightarrow> unit db_result" where
  "check_set_dns_baseline cid baseline = db_op (\<lambda>d.
     (Inr (), d\<lparr>d_checks := update_where (\<lambda>c. mc_id c = cid)
                  (\<lambda>c. c\<lparr>mc_dns_expected_value := baseline\<rparr>) (d_checks d)\<rparr>))"

definition check_list_by_source_component :: "string \<Rightarrow> db \<Rightarrow> monitor_check list db_result" where
  "check_list_by_source_component owner = db_query (\<lambda>d. order_asc mc_created_at
     (filter (\<lambda>c. mc_source_component_id c = Some owner) (d_checks d)))"

definition check_delete_by_source_component :: "string \<Rightarrow> db \<Rightarrow> unit db_result" where
  "check_delete_by_source_component owner = db_op (\<lambda>d.
     (Inr (), d\<lparr>d_checks := filter (\<lambda>c. mc_source_component_id c \<noteq> Some owner) (d_checks d)\<rparr>))"

definition check_exists_for_type_and_target :: "string \<Rightarrow> string \<Rightarrow> db \<Rightarrow> bool db_result" where
  "check_exists_for_type_and_target ty target = db_query (\<lambda>d.
     \<exists>c \<in> set (d_checks d). mc_type c = ty \<and> mc_target c = target)"

definition component_check_merge :: "monitor_check \<Rightarrow> monitor_check \<Rightarrow> monitor_check" where
  "component_check_merge old new = old\<lparr>mc_name := mc_name new, mc_ssl_warn_days := mc_ssl_warn_days new,
     mc_ssl_crit_days := mc_ssl_crit_days new, mc_source_component_id := mc_source_component_id new,
     mc_enabled := mc_enabled new\<rparr>"

definition component_check_row :: "go_time \<Rightarrow> monitor_check \<Rightarrow> monitor_check" where
  "component_check_row dbnow c = c\<lparr>mc_dns_record_type := [], mc_dns_expected_value := [],
     mc_dns_resolver := [], mc_last_checked_at := None, mc_last_status := [], mc_last_result := [],
     mc_created_at := dbnow\<rparr>"

definition check_upsert_for_component :: "go_time \<Rightarrow> monitor_check \<Rightarrow> db \<Rightarrow> unit db_result" where
  "check_upsert_for_component dbnow c d0 =
     (case db_op (\<lambda>d.
          if mc_type c \<notin> set check_types
             \<or> (mc_id c \<notin> mc_id ` set (d_checks d) \<and> \<not> check_insertable d c) then (Inl DbFail, d)
          else (Inr (), d\<lparr>d_checks := upsert_row mc_id component_check_merge (component_check_row dbnow c)
                            (d_checks d)\<rparr>)) d0 of
        (Inl e, d1) \<Rightarrow> (Inl e, d1)
      | (Inr _, d1) \<Rightarrow>
          (Inr (), if mc_app_id c \<noteq> []
                   then db_ignore (link_insert_ignore ''monitor'' (mc_id c) ''app'' (mc_app_id c) d1) else d1))"

section \<open>runner.go: results\<close>

record probe_result =
  pr_status :: string
  pr_details :: string
  pr_checked_at :: go_time

text \<open>\<open>json.Marshal\<close> of a struct: its fields in declaration order, values already encoded.\<close>

definition json_struct :: "(string \<times> string) list \<Rightarrow> string" where
  "json_struct kvs = ''{'' @ join '','' (map (\<lambda>(k, v). json_quote k @ '':'' @ v) kvs) @ ''}''"

definition json_opt :: "('a \<Rightarrow> string) \<Rightarrow> 'a option \<Rightarrow> string" where
  "json_opt f p = (case p of None \<Rightarrow> ''null'' | Some x \<Rightarrow> f x)"

definition ping_details :: "int \<Rightarrow> string" where
  "ping_details latency = json_struct (if latency = 0 then [] else [(''latency_ms'', show_int latency)])"

definition url_details :: "int \<Rightarrow> int \<Rightarrow> string" where
  "url_details status latency =
     json_struct [(''status_code'', show_int status), (''latency_ms'', show_int latency)]"

definition dns_details :: "string \<Rightarrow> string list \<Rightarrow> int \<Rightarrow> string option \<Rightarrow> string" where
  "dns_details record_type records latency err = json_struct
     ([(''record_type'', json_quote record_type)]
      @ (if records = [] then [] else [(''records'', ''['' @ join '','' (map json_quote records) @ '']'')])
      @ [(''latency_ms'', show_int latency)]
      @ (case err of None \<Rightarrow> [] | Some e \<Rightarrow> [(''error'', json_quote e)]))"

section \<open>runner.go: probes\<close>

definition run_ping :: "go_time \<Rightarrow> bool \<Rightarrow> int \<Rightarrow> probe_result" where
  "run_ping now ok latency =
     \<lparr>pr_status = (if ok then ''up'' else ''down''),
      pr_details = (if ok then ping_details latency else ping_details 0), pr_checked_at = now\<rparr>"

datatype http_probe = ProbeError string | ProbeStatus int

definition run_url :: "go_time \<Rightarrow> int \<Rightarrow> int \<Rightarrow> http_probe \<Rightarrow> probe_result" where
  "run_url now latency expected0 outcome =
     (let expected = (if expected0 = 0 then 200 else expected0) in
      case outcome of
        ProbeError _ \<Rightarrow> \<lparr>pr_status = ''down'', pr_details = url_details 0 latency, pr_checked_at = now\<rparr>
      | ProbeStatus code \<Rightarrow>
          \<lparr>pr_status = (if code \<noteq> expected then ''down'' else ''up''),
           pr_details = url_details code latency, pr_checked_at = now\<rparr>)"

text \<open>\<open>host:port\<close> of a URL, as \<open>RunSSL\<close> dials it and as \<open>extractDomain\<close> shows it.\<close>

definition strip_scheme :: "string \<Rightarrow> string" where
  "strip_scheme t = trim_prefix (trim_prefix t ''https://'') ''http://''"

definition extract_domain :: "string \<Rightarrow> string" where
  "extract_domain target = (let d = strip_scheme target in
     case split_first (CHR ''/'') d of Some (h, _) \<Rightarrow> h | None \<Rightarrow> d)"

definition ssl_dial_address :: "string \<Rightarrow> string" where
  "ssl_dial_address target = (let h = extract_domain target in
     if CHR '':'' \<in> set h then h else h @ '':443'')"

record cert_info =
  ce_not_after :: go_time
  ce_issuer :: string
  ce_subject :: string

datatype tls_probe = TlsDialError string | TlsNotTls | TlsCerts "cert_info list"

text \<open>\<open>int(time.Until(expiry).Hours() / 24)\<close>: whole days, truncated towards zero (exactly, where the
  code goes through a float64).\<close>

definition days_until :: "go_time \<Rightarrow> go_time \<Rightarrow> int" where
  "days_until now t = (if t \<ge> now then (t - now) div day_ns else - ((now - t) div day_ns))"

record time_format =
  tf_rfc3339 :: "go_time \<Rightarrow> string"
  tf_json :: "go_time \<Rightarrow> string"   \<comment> \<open>a \<open>time.Time\<close> in JSON, quotes included\<close>

definition ssl_details ::
  "time_format \<Rightarrow> int option \<Rightarrow> go_time option \<Rightarrow> string option \<Rightarrow> string option \<Rightarrow> string option \<Rightarrow> string"
where
  "ssl_details tf days expires issuer subject err = json_struct
     [(''days_remaining'', json_opt show_int days), (''expires_at'', json_opt (tf_json tf) expires),
      (''issuer'', json_opt json_quote issuer), (''subject'', json_opt json_quote subject),
      (''error'', json_opt json_quote err)]"

definition ssl_failure :: "time_format \<Rightarrow> go_time \<Rightarrow> string \<Rightarrow> probe_result" where
  "ssl_failure tf now err = \<lparr>pr_status = ''down'',
     pr_details = ssl_details tf None None None None (Some err), pr_checked_at = now\<rparr>"

definition ssl_status :: "int \<Rightarrow> int \<Rightarrow> int \<Rightarrow> string" where
  "ssl_status days warn crit =
     (if days \<le> 0 then ''down'' else if days \<le> crit then ''critical''
      else if days \<le> warn then ''warn'' else ''up'')"

definition run_ssl ::
  "time_format \<Rightarrow> (string \<Rightarrow> tls_probe) \<Rightarrow> go_time \<Rightarrow> go_time \<Rightarrow> string \<Rightarrow> int \<Rightarrow> int \<Rightarrow> probe_result"
where
  "run_ssl tf dial now now2 target warn0 crit0 =
     (let warn = (if warn0 = 0 then 30 else warn0); crit = (if crit0 = 0 then 7 else crit0) in
      case dial (ssl_dial_address target) of
        TlsDialError err \<Rightarrow> ssl_failure tf now err
      | TlsNotTls \<Rightarrow> ssl_failure tf now ''not a TLS connection''
      | TlsCerts [] \<Rightarrow> ssl_failure tf now ''no certificates''
      | TlsCerts (cert # _) \<Rightarrow>
          (let days = days_until now2 (ce_not_after cert) in
           \<lparr>pr_status = ssl_status days warn crit,
            pr_details = ssl_details tf (Some days) (Some (ce_not_after cert)) (Some (ce_issuer cert))
              (Some (ce_subject cert)) None,
            pr_checked_at = now\<rparr>))"

text \<open>The lookups of \<open>net.Resolver\<close>, for the resolver address in use (\<open>None\<close>: the system's). A host
  lookup may return addresses and an error.\<close>

record dns_answers =
  da_host :: "string list \<times> string option"
  da_mx :: "string list \<times> string option"
  da_cname :: "string + string"
  da_txt :: "string list \<times> string option"

definition dns_resolver_address :: "string \<Rightarrow> string option" where
  "dns_resolver_address resolver =
     (if resolver = [] then None
      else Some (if CHR '':'' \<in> set resolver then resolver else resolver @ '':53''))"

definition dns_lookup :: "dns_answers \<Rightarrow> string \<Rightarrow> string list \<times> string option" where
  "dns_lookup a record_type = (let rt = to_upper record_type in
     if rt = ''A'' \<or> rt = ''AAAA'' then
       (filter (\<lambda>x. (CHR '':'' \<in> set x) = (rt = ''AAAA'')) (fst (da_host a)), snd (da_host a))
     else if rt = ''MX'' then da_mx a
     else if rt = ''CNAME'' then (case da_cname a of Inl e \<Rightarrow> ([], Some e) | Inr c \<Rightarrow> ([c], None))
     else if rt = ''TXT'' then da_txt a
     else da_host a)"

definition run_dns ::
  "(string option \<Rightarrow> string \<Rightarrow> dns_answers) \<Rightarrow> go_time \<Rightarrow> int \<Rightarrow> string \<Rightarrow> string \<Rightarrow> string \<Rightarrow> string \<Rightarrow> probe_result"
where
  "run_dns net now latency target record_type0 expected resolver =
     (let record_type = (if record_type0 = [] then ''A'' else record_type0) in
      case dns_lookup (net (dns_resolver_address resolver) target) record_type of
        (records, Some err) \<Rightarrow>
          \<lparr>pr_status = ''down'', pr_details = dns_details record_type [] latency (Some err), pr_checked_at = now\<rparr>
      | (records, None) \<Rightarrow>
          \<lparr>pr_status = (if expected \<noteq> [] \<and> \<not> list_ex (\<lambda>r. contains_str r expected) records
                        then ''warn'' else ''up''),
           pr_details = dns_details record_type records latency None, pr_checked_at = now\<rparr>)"

text \<open>The network as one probe sees it.\<close>

record network =
  nw_now :: go_time
  nw_now2 :: go_time            \<comment> \<open>the clock after the answer\<close>
  nw_latency :: int
  nw_ping :: "string \<Rightarrow> bool"
  nw_http :: "string \<Rightarrow> bool \<Rightarrow> http_probe"
  nw_tls :: "string \<Rightarrow> tls_probe"
  nw_dns :: "string option \<Rightarrow> string \<Rightarrow> dns_answers"
  nw_tf :: time_format

definition run_check :: "network \<Rightarrow> monitor_check \<Rightarrow> string + probe_result" where
  "run_check nw c =
     (if mc_type c = ''ping'' then Inr (run_ping (nw_now nw) (nw_ping nw (mc_target c)) (nw_latency nw))
      else if mc_type c = ''url'' then
        Inr (run_url (nw_now nw) (nw_latency nw) (mc_expected_status c)
               (nw_http nw (mc_target c) (mc_skip_tls_verify c)))
      else if mc_type c = ''ssl'' then
        Inr (run_ssl (nw_tf nw) (nw_tls nw) (nw_now nw) (nw_now2 nw) (mc_target c)
               (mc_ssl_warn_days c) (mc_ssl_crit_days c))
      else if mc_type c = ''dns'' then
        Inr (run_dns (nw_dns nw) (nw_now nw) (nw_latency nw) (mc_target c) (mc_dns_record_type c)
               (mc_dns_expected_value c) (mc_dns_resolver c))
      else Inl (''unknown check type: '' @ mc_type c))"

end
