(* ===== verification/Monitor.thy ===== *)
theory Monitor
  imports Checks
begin

text \<open>
  The checkers: \<open>Run\<close> and \<open>createStatusEvent\<close> of internal/monitor/ping.go, url.go, ssl.go and dns.go.

  A checker probes, writes an event when the status differs from the one the check was loaded with,
  and stores the new status. Reading a probe's details back (\<open>json.Unmarshal\<close> into a struct) is a
  parameter, as are event ids and the clock.
\<close>

section \<open>Shared parts\<close>

record check_env =
  cv_uuid :: string
  cv_now :: go_time
  cv_tf :: time_format
  cv_latency :: "string \<Rightarrow> int"                                 \<comment> \<open>\<open>pingDetails\<close>\<close>
  cv_records :: "string \<Rightarrow> string list option"                  \<comment> \<open>\<open>records\<close> of \<open>dnsDetails\<close>\<close>
  cv_dns :: "string \<Rightarrow> string \<times> int"                            \<comment> \<open>record type and latency\<close>
  cv_ssl :: "string \<Rightarrow> int option \<times> go_time option \<times> string option"  \<comment> \<open>days, expiry, issuer\<close>

datatype check_error = StatusUpdateFailed db_error | ProbeFailed string

definition status_event ::
  "check_env \<Rightarrow> monitor_check \<Rightarrow> go_time \<Rightarrow> string \<Rightarrow> string \<Rightarrow> string \<Rightarrow> event" where
  "status_event env c now level title payload =
     \<lparr>ev_id = cv_uuid env, ev_level = level, ev_source_name = mc_name c, ev_source_type = ''monitor_check'',
      ev_source_id = mc_id c, ev_title = title, ev_payload = payload, ev_created_at = now\<rparr>"

text \<open>The guard every checker puts before an event.\<close>

definition status_changed :: "monitor_check \<Rightarrow> string \<Rightarrow> bool" where
  "status_changed c new_status = (mc_last_status c \<noteq> [] \<and> mc_last_status c \<noteq> new_status)"

definition store_status :: "monitor_check \<Rightarrow> string \<Rightarrow> string \<Rightarrow> go_time \<Rightarrow> db \<Rightarrow> (check_error + unit) \<times> db" where
  "store_status c status details now d = (case check_update_status (mc_id c) status details now d of
       (Inl e, d1) \<Rightarrow> (Inl (StatusUpdateFailed e), d1)
     | (Inr _, d1) \<Rightarrow> (Inr (), d1))"

section \<open>ping.go\<close>

text \<open>Three attempts; the latency kept is that of the last one that was answered.\<close>

fun ping_loop :: "(string \<Rightarrow> int) \<Rightarrow> probe_result list \<Rightarrow> nat \<Rightarrow> int \<Rightarrow> nat \<times> int" where
  "ping_loop lat [] down_count latency = (down_count, latency)"
| "ping_loop lat (r # rs) down_count latency =
     (if pr_status r = ''down'' then ping_loop lat rs (down_count + 1) latency
      else ping_loop lat rs down_count (lat (pr_details r)))"

definition ping_attempts :: nat where
  "ping_attempts = 3"

definition ping_status_event :: "check_env \<Rightarrow> monitor_check \<Rightarrow> string \<Rightarrow> int \<Rightarrow> event" where
  "ping_status_event env c new_status latency =
     status_event env c (cv_now env)
       (if new_status = ''down'' then ''error'' else ''info'')
       ((if new_status = ''down'' then ''Ping failed '' else ''Ping restored '') @ em_dash @ '' ''
          @ mc_name c @ '' ('' @ mc_target c @ '')'')
       (''{'' @ json_quote ''type'' @ '':'' @ json_quote ''ping'' @ '','' @ json_quote ''target'' @ '':''
          @ go_quote (mc_target c) @ '','' @ json_quote ''latency_ms'' @ '':'' @ show_int latency @ ''}'')"

definition ping_check_run ::
  "check_env \<Rightarrow> (nat \<Rightarrow> probe_result) \<Rightarrow> monitor_check \<Rightarrow> db \<Rightarrow> (check_error + unit) \<times> db" where
  "ping_check_run env pinger c d0 =
     (case ping_loop (cv_latency env) (map pinger [0..<ping_attempts]) 0 0 of
        (down_count, latency0) \<Rightarrow>
          (let new_status = (if down_count = ping_attempts then ''down'' else ''up'');
               latency = (if down_count = ping_attempts then 0 else latency0);
               details = ping_details latency;
               d1 = (if status_changed c new_status
                     then db_ignore (event_create (ping_status_event env c new_status latency) d0) else d0) in
           store_status c new_status details (cv_now env) d1))"

section \<open>url.go\<close>

definition url_result :: "int \<Rightarrow> int \<Rightarrow> string option \<Rightarrow> string" where
  "url_result status latency err = json_struct
     [(''status_code'', show_int status), (''latency_ms'', show_int latency), (''error'', json_opt json_quote err)]"

definition url_status_event ::
  "check_env \<Rightarrow> monitor_check \<Rightarrow> string \<Rightarrow> int \<Rightarrow> int \<Rightarrow> int \<Rightarrow> event" where
  "url_status_event env c new_status got expected latency =
     status_event env c (cv_now env)
       (if new_status = ''down'' then ''error'' else ''info'')
       (if new_status = ''down''
        then ''URL check failed '' @ em_dash @ '' '' @ mc_name c @ '': got '' @ show_int got
               @ '', expected '' @ show_int expected
        else ''URL check restored '' @ em_dash @ '' '' @ mc_name c)
       (''{'' @ json_quote ''type'' @ '':'' @ json_quote ''url'' @ '','' @ json_quote ''url'' @ '':''
          @ go_quote (mc_target c) @ '','' @ json_quote ''status_code'' @ '':'' @ show_int got
          @ '','' @ json_quote ''expected_status'' @ '':'' @ show_int expected
          @ '','' @ json_quote ''latency_ms'' @ '':'' @ show_int latency @ ''}'')"

definition expected_status :: "monitor_check \<Rightarrow> int" where
  "expected_status c = (if mc_expected_status c = 0 then 200 else mc_expected_status c)"

definition url_record_error ::
  "check_env \<Rightarrow> monitor_check \<Rightarrow> string \<Rightarrow> db \<Rightarrow> (check_error + unit) \<times> db" where
  "url_record_error env c err d0 =
     (let d1 = (if status_changed c ''down''
                then db_ignore (event_create (url_status_event env c ''down'' 0 (expected_status c) 0) d0)
                else d0) in
      case store_status c ''down'' (url_result 0 0 (Some err)) (cv_now env) d1 of
        (Inl e, d2) \<Rightarrow> (Inl e, d2)
      | (Inr _, d2) \<Rightarrow> (Inl (ProbeFailed (''url checker: '' @ mc_name c @ '': '' @ err)), d2))"

datatype url_answer = UrlBadRequest string | UrlError string | UrlStatus int int  \<comment> \<open>status, latency\<close>

definition has_http_scheme :: "string \<Rightarrow> bool" where
  "has_http_scheme t = (has_prefix t ''http://'' \<or> has_prefix t ''https://'')"

definition url_check_run ::
  "check_env \<Rightarrow> (string \<Rightarrow> bool \<Rightarrow> url_answer) \<Rightarrow> monitor_check \<Rightarrow> db \<Rightarrow> (check_error + unit) \<times> db" where
  "url_check_run env client c d0 =
     (if \<not> has_http_scheme (mc_target c) then
        url_record_error env c
          (''invalid check target: URL missing scheme '' @ em_dash @ '' check configuration'') d0
      else (case client (mc_target c) (mc_skip_tls_verify c) of
          UrlBadRequest e \<Rightarrow> url_record_error env c (''build request: '' @ e) d0
        | UrlError e \<Rightarrow> url_record_error env c e d0
        | UrlStatus code latency \<Rightarrow>
            (let new_status = (if code \<noteq> expected_status c then ''down'' else ''up'');
                 d1 = (if status_changed c new_status
                       then db_ignore (event_create
                              (url_status_event env c new_status code (expected_status c) latency) d0)
                       else d0) in
             store_status c new_status (url_result code latency None) (cv_now env) d1)))"

section \<open>ssl.go\<close>

definition ssl_status_event ::
  "check_env \<Rightarrow> monitor_check \<Rightarrow> string \<Rightarrow> string \<Rightarrow> int \<Rightarrow> go_time option \<Rightarrow> string \<Rightarrow> event" where
  "ssl_status_event env c new_status domain days expires issuer =
     (let day_text = '': '' @ show_int days @ '' days remaining'' in
      status_event env c (cv_now env)
       (if new_status = ''warn'' then ''warn'' else if new_status = ''critical'' then ''critical''
        else if new_status = ''down'' then ''error'' else ''info'')
       (if new_status = ''warn'' then ''SSL expiring soon '' @ em_dash @ '' '' @ domain @ day_text
        else if new_status = ''critical'' then ''SSL expiry critical '' @ em_dash @ '' '' @ domain @ day_text
        else if new_status = ''down'' then ''SSL invalid or expired '' @ em_dash @ '' '' @ domain
        else ''SSL renewed '' @ em_dash @ '' '' @ domain @ day_text)
       (''{'' @ json_quote ''type'' @ '':'' @ json_quote ''ssl'' @ '','' @ json_quote ''domain'' @ '':''
          @ go_quote domain @ '','' @ json_quote ''days_remaining'' @ '':'' @ show_int days
          @ '','' @ json_quote ''expires_at'' @ '':''
          @ go_quote (case expires of None \<Rightarrow> [] | Some t \<Rightarrow> tf_rfc3339 (cv_tf env) t)
          @ '','' @ json_quote ''issuer'' @ '':'' @ go_quote issuer @ ''}''))"

definition ssl_check_run ::
  "check_env \<Rightarrow> (string \<Rightarrow> int \<Rightarrow> int \<Rightarrow> probe_result) \<Rightarrow> monitor_check \<Rightarrow> db \<Rightarrow> (check_error + unit) \<times> db" where
  "ssl_check_run env runner c d0 =
     (let warn = (if mc_ssl_warn_days c = 0 then 30 else mc_ssl_warn_days c);
          crit = (if mc_ssl_crit_days c = 0 then 7 else mc_ssl_crit_days c);
          result = runner (mc_target c) warn crit in
      case cv_ssl env (pr_details result) of
        (days_remaining, expires, issuer) \<Rightarrow>
          (let days = (case days_remaining of None \<Rightarrow> 0 | Some n \<Rightarrow> n);
               new_status = pr_status result;
               d1 = (if status_changed c new_status
                     then db_ignore (event_create
                            (ssl_status_event env c new_status (extract_domain (mc_target c)) days expires
                              (case issuer of None \<Rightarrow> [] | Some s \<Rightarrow> s)) d0)
                     else d0) in
           store_status c new_status (pr_details result) (cv_now env) d1))"

section \<open>dns.go\<close>

definition dns_status_event :: "check_env \<Rightarrow> monitor_check \<Rightarrow> probe_result \<Rightarrow> event" where
  "dns_status_event env c result =
     (let where_text = em_dash @ '' '' @ mc_name c @ '' ('' @ mc_target c @ '')'';
          det = cv_dns env (pr_details result) in
      status_event env c (cv_now env)
       (if pr_status result = ''down'' then ''error'' else if pr_status result = ''warn'' then ''warn'' else ''info'')
       ((if pr_status result = ''down'' then ''DNS check failed ''
         else if pr_status result = ''warn'' then ''DNS record changed '' else ''DNS check restored '') @ where_text)
       (''{'' @ json_quote ''type'' @ '':'' @ json_quote ''dns'' @ '','' @ json_quote ''target'' @ '':''
          @ go_quote (mc_target c) @ '','' @ json_quote ''record_type'' @ '':'' @ go_quote (fst det)
          @ '','' @ json_quote ''latency_ms'' @ '':'' @ show_int (snd det) @ ''}''))"

text \<open>The first successful run of a check without a baseline captures the first record.\<close>

definition dns_capture_baseline ::
  "check_env \<Rightarrow> monitor_check \<Rightarrow> probe_result \<Rightarrow> db \<Rightarrow> monitor_check \<times> db" where
  "dns_capture_baseline env c result d0 =
     (if mc_dns_expected_value c = [] \<and> pr_status result = ''up'' then
        (case cv_records env (pr_details result) of
           Some (baseline # _) \<Rightarrow>
             (case check_set_dns_baseline (mc_id c) baseline d0 of
                (Inl _, d1) \<Rightarrow> (c, d1)
              | (Inr _, d1) \<Rightarrow> (c\<lparr>mc_dns_expected_value := baseline\<rparr>, d1))
         | _ \<Rightarrow> (c, d0))
      else (c, d0))"

text \<open>The check object is updated in place, hence returned.\<close>

definition dns_check_run ::
  "check_env \<Rightarrow> (string \<Rightarrow> string \<Rightarrow> string \<Rightarrow> string \<Rightarrow> probe_result) \<Rightarrow> monitor_check \<Rightarrow> db
     \<Rightarrow> (check_error + unit) \<times> monitor_check \<times> db"
where
  "dns_check_run env resolve c0 d0 =
     (let result = resolve (mc_target c0) (mc_dns_record_type c0) (mc_dns_expected_value c0) (mc_dns_resolver c0) in
      case dns_capture_baseline env c0 result d0 of
        (c, d1) \<Rightarrow>
          (let d2 = (if status_changed c (pr_status result)
                     then db_ignore (event_create (dns_status_event env c result) d1) else d1) in
           case store_status c (pr_status result) (pr_details result) (cv_now env) d2 of
             (r, d3) \<Rightarrow> (r, c, d3)))"

section \<open>scheduler.go, dispatch\<close>

record probes =
  pb_ping :: "string \<Rightarrow> nat \<Rightarrow> probe_result"
  pb_url :: "string \<Rightarrow> bool \<Rightarrow> url_answer"
  pb_ssl :: "string \<Rightarrow> int \<Rightarrow> int \<Rightarrow> probe_result"
  pb_dns :: "string \<Rightarrow> string \<Rightarrow> string \<Rightarrow> string \<Rightarrow> probe_result"

definition dispatch_check ::
  "check_env \<Rightarrow> probes \<Rightarrow> monitor_check \<Rightarrow> db \<Rightarrow> monitor_check \<times> db" where
  "dispatch_check env ps c d =
     (if mc_type c = ''ping'' then (c, snd (ping_check_run env (pb_ping ps (mc_target c)) c d))
      else if mc_type c = ''url'' then (c, snd (url_check_run env (pb_url ps) c d))
      else if mc_type c = ''ssl'' then (c, snd (ssl_check_run env (pb_ssl ps) c d))
      else if mc_type c = ''dns'' then snd (dns_check_run env (pb_dns ps) c d)
      else (c, d))"

section \<open>What a checker does\<close>

text \<open>The verdict of one cycle, per type: a ping is down only when all attempts are, a URL is up when
  its scheme is HTTP and the expected status came back, certificates and names are as probed.\<close>

definition verdict :: "probes \<Rightarrow> monitor_check \<Rightarrow> string" where
  "verdict ps c =
     (if mc_type c = ''ping'' then
        (if list_all (\<lambda>i. pr_status (pb_ping ps (mc_target c) i) = ''down'') [0, 1, 2] then ''down'' else ''up'')
      else if mc_type c = ''url'' then
        (if has_http_scheme (mc_target c)
            \<and> (case pb_url ps (mc_target c) (mc_skip_tls_verify c) of
                 UrlStatus code _ \<Rightarrow> code = expected_status c | _ \<Rightarrow> False)
         then ''up'' else ''down'')
      else if mc_type c = ''ssl'' then
        pr_status (pb_ssl ps (mc_target c) (if mc_ssl_warn_days c = 0 then 30 else mc_ssl_warn_days c)
           (if mc_ssl_crit_days c = 0 then 7 else mc_ssl_crit_days c))
      else pr_status (pb_dns ps (mc_target c) (mc_dns_record_type c) (mc_dns_expected_value c) (mc_dns_resolver c)))"

definition check_event_ok :: "monitor_check \<Rightarrow> string \<Rightarrow> check_env \<Rightarrow> event \<Rightarrow> bool" where
  "check_event_ok c v env e = (ev_source_id e = mc_id c \<and> ev_id e = cv_uuid env \<and> event_row_ok e
     \<and> ev_source_type e = ''monitor_check'' \<and> (ev_level e = ''error'' \<longleftrightarrow> v = ''down''))"

lemma ping_loop_count:
  "fst (ping_loop lat rs n l) = n + length (filter (\<lambda>r. pr_status r = ''down'') rs)"
  by (induction lat rs n l rule: ping_loop.induct) auto

lemma ping_all_down:
  "fst (ping_loop lat (map f [0..<ping_attempts]) 0 l) = ping_attempts
     \<longleftrightarrow> list_all (\<lambda>i. pr_status (f i) = ''down'') [0, 1, 2]"
  by (simp add: ping_loop_count ping_attempts_def numeral_3_eq_3 numeral_2_eq_2)

lemma status_event_fields [simp]:
  "ev_source_id (status_event env c now l t p) = mc_id c"
  "ev_id (status_event env c now l t p) = cv_uuid env"
  "ev_level (status_event env c now l t p) = l"
  "ev_source_type (status_event env c now l t p) = ''monitor_check''"
  by (simp_all add: status_event_def)

lemma status_event_row_ok: "l \<in> set event_levels \<Longrightarrow> event_row_ok (status_event env c now l t p)"
  by (simp add: event_row_ok_def event_source_types_def)

lemma checker_events_ok:
  "v \<in> {''up'', ''down''} \<Longrightarrow> check_event_ok c v env (ping_status_event env c v l)"
  "v \<in> {''up'', ''down''} \<Longrightarrow> check_event_ok c v env (url_status_event env c v g x l)"
  "check_event_ok c v env (ssl_status_event env c v domain days ex iss)"
  "check_event_ok c (pr_status r) env (dns_status_event env c r)"
  unfolding check_event_ok_def ping_status_event_def url_status_event_def ssl_status_event_def
    dns_status_event_def Let_def
  by (auto simp: status_event_row_ok event_levels_def)

text \<open>The common ending: an event when the status changed, then the new status.\<close>

definition conclude :: "monitor_check \<Rightarrow> string \<Rightarrow> string \<Rightarrow> go_time \<Rightarrow> event \<Rightarrow> db \<Rightarrow> db" where
  "conclude c v details now e d =
     snd (store_status c v details now
       (if status_changed c v then db_ignore (event_create e d) else d))"

lemma db_ignore_event:
  "d_faults d = [] \<Longrightarrow> ev_id e \<notin> ev_id ` set (d_events d) \<Longrightarrow> event_row_ok e
     \<Longrightarrow> db_ignore (event_create e d) = d\<lparr>d_events := d_events d @ [e]\<rparr>"
  by (simp add: event_create_no_fault event_insertable_def)

lemma store_status_no_fault:
  "d_faults d = [] \<Longrightarrow> mc_id c \<in> mc_id ` set (d_checks d) \<Longrightarrow> store_status c v details now d =
     (Inr (), d\<lparr>d_checks := update_where (\<lambda>x. mc_id x = mc_id c) (set_check_status v details now) (d_checks d)\<rparr>)"
  by (simp add: store_status_def check_update_status_def)

lemma conclude_no_fault:
  assumes "d_faults d = []" and "mc_id c \<in> mc_id ` set (d_checks d)"
    and "cv_uuid env \<notin> ev_id ` set (d_events d)" and "check_event_ok c v env e"
  shows "conclude c v details now e d =
    d\<lparr>d_events := d_events d @ (if status_changed c v then [e] else []),
      d_checks := update_where (\<lambda>x. mc_id x = mc_id c) (set_check_status v details now) (d_checks d)\<rparr>"
  using assms
  by (auto simp: conclude_def db_ignore_event store_status_no_fault check_event_ok_def)

text \<open>Every checker ends that way; the DNS one may first have recorded a baseline.\<close>

definition sets_baseline :: "check_env \<Rightarrow> monitor_check \<Rightarrow> probe_result \<Rightarrow> string option" where
  "sets_baseline env c r =
     (if mc_type c = ''dns'' \<and> mc_dns_expected_value c = [] \<and> pr_status r = ''up'' then
        (case cv_records env (pr_details r) of Some (b # _) \<Rightarrow> Some b | _ \<Rightarrow> None) else None)"

lemma ping_check_conclude:
  "\<exists>e details. snd (ping_check_run env pinger c d) = conclude c v details (cv_now env) e d
     \<and> check_event_ok c v env e"
  if v: "v = (if list_all (\<lambda>i. pr_status (pinger i) = ''down'') [0, 1, 2] then ''down'' else ''up'')"
proof -
  obtain n l where loop: "ping_loop (cv_latency env) (map pinger [0..<ping_attempts]) 0 0 = (n, l)"
    by fastforce
  then have "n = ping_attempts \<longleftrightarrow> list_all (\<lambda>i. pr_status (pinger i) = ''down'') [0, 1, 2]"
    using ping_all_down [of "cv_latency env" pinger 0] by simp
  then have v': "v = (if n = ping_attempts then ''down'' else ''up'')" using v by simp
  let ?l = "if n = ping_attempts then 0 else l"
  have "snd (ping_check_run env pinger c d)
      = conclude c v (ping_details ?l) (cv_now env) (ping_status_event env c v ?l) d"
    unfolding ping_check_run_def loop conclude_def Let_def prod.case v' by simp
  moreover have "check_event_ok c v env (ping_status_event env c v ?l)"
    by (rule checker_events_ok) (simp add: v')
  ultimately show ?thesis by blast
qed

lemma url_record_conclude:
  "snd (url_record_error env c err d)
     = conclude c ''down'' (url_result 0 0 (Some err)) (cv_now env)
         (url_status_event env c ''down'' 0 (expected_status c) 0) d"
  by (auto simp: url_record_error_def conclude_def Let_def split: prod.split sum.split)

lemma url_check_conclude:
  assumes "v = (if has_http_scheme (mc_target c)
            \<and> (case client (mc_target c) (mc_skip_tls_verify c) of
                 UrlStatus code _ \<Rightarrow> code = expected_status c | _ \<Rightarrow> False)
         then ''up'' else ''down'')"
  shows "\<exists>e details. snd (url_check_run env client c d) = conclude c v details (cv_now env) e d
     \<and> check_event_ok c v env e"
proof (cases "has_http_scheme (mc_target c) \<and> (\<exists>code l. client (mc_target c) (mc_skip_tls_verify c) = UrlStatus code l)")
  case True
  then obtain code l where "has_http_scheme (mc_target c)" and
    "client (mc_target c) (mc_skip_tls_verify c) = UrlStatus code l" by blast
  moreover from this assms have "v = (if code \<noteq> expected_status c then ''down'' else ''up'')" by simp
  ultimately have "snd (url_check_run env client c d) = conclude c v (url_result code l None) (cv_now env)
      (url_status_event env c v code (expected_status c) l) d"
    by (simp add: url_check_run_def conclude_def Let_def)
  moreover have "check_event_ok c v env (url_status_event env c v code (expected_status c) l)"
    by (rule checker_events_ok) (simp add: assms)
  ultimately show ?thesis by blast
next
  case False
  then have v: "v = ''down''" using assms by (auto split: url_answer.splits)
  have "\<exists>err. snd (url_check_run env client c d) = snd (url_record_error env c err d)"
  proof (cases "has_http_scheme (mc_target c)")
    case True
    with False show ?thesis
      by (cases "client (mc_target c) (mc_skip_tls_verify c)") (auto simp: url_check_run_def)
  qed (auto simp: url_check_run_def)
  then obtain err where "snd (url_check_run env client c d) = snd (url_record_error env c err d)" by blast
  moreover have "check_event_ok c ''down'' env (url_status_event env c ''down'' 0 (expected_status c) 0)"
    by (rule checker_events_ok) simp
  ultimately show ?thesis unfolding v url_record_conclude by metis
qed

lemma ssl_check_conclude:
  assumes "v = pr_status (runner (mc_target c) (if mc_ssl_warn_days c = 0 then 30 else mc_ssl_warn_days c)
     (if mc_ssl_crit_days c = 0 then 7 else mc_ssl_crit_days c))"
  shows "\<exists>e details. snd (ssl_check_run env runner c d) = conclude c v details (cv_now env) e d
     \<and> check_event_ok c v env e"
proof -
  let ?r = "runner (mc_target c) (if mc_ssl_warn_days c = 0 then 30 else mc_ssl_warn_days c)
     (if mc_ssl_crit_days c = 0 then 7 else mc_ssl_crit_days c)"
  obtain dr ex iss where "cv_ssl env (pr_details ?r) = (dr, ex, iss)" by (metis prod_cases3)
  then have "snd (ssl_check_run env runner c d) = conclude c v (pr_details ?r) (cv_now env)
      (ssl_status_event env c v (extract_domain (mc_target c)) (case dr of None \<Rightarrow> 0 | Some n \<Rightarrow> n) ex
         (case iss of None \<Rightarrow> [] | Some s \<Rightarrow> s)) d"
    unfolding ssl_check_run_def conclude_def Let_def assms by simp
  then show ?thesis using checker_events_ok(3) by metis
qed

lemma dns_capture_no_fault:
  assumes "d_faults d = []" and "mc_type c = ''dns''"
  shows "dns_capture_baseline env c r d = (case sets_baseline env c r of
       None \<Rightarrow> (c, d)
     | Some b \<Rightarrow> (c\<lparr>mc_dns_expected_value := b\<rparr>,
                 d\<lparr>d_checks := update_where (\<lambda>x. mc_id x = mc_id c)
                     (\<lambda>x. x\<lparr>mc_dns_expected_value := b\<rparr>) (d_checks d)\<rparr>))"
  using assms
  by (auto simp: dns_capture_baseline_def sets_baseline_def check_set_dns_baseline_def
      split: option.split list.split)

lemma conclude_same_check:
  "conclude (c\<lparr>mc_dns_expected_value := b\<rparr>) v details now e d = conclude c v details now e d"
  by (simp add: conclude_def store_status_def status_changed_def)

lemma dns_check_conclude:
  assumes "d_faults d = []" and "mc_type c = ''dns''"
    and "r = resolve (mc_target c) (mc_dns_record_type c) (mc_dns_expected_value c) (mc_dns_resolver c)"
  shows "\<exists>e. check_event_ok c (pr_status r) env e \<and>
    snd (dns_check_run env resolve c d) = (case sets_baseline env c r of
       None \<Rightarrow> (c, conclude c (pr_status r) (pr_details r) (cv_now env) e d)
     | Some b \<Rightarrow> (c\<lparr>mc_dns_expected_value := b\<rparr>,
                 conclude c (pr_status r) (pr_details r) (cv_now env) e
                   (d\<lparr>d_checks := update_where (\<lambda>x. mc_id x = mc_id c)
                     (\<lambda>x. x\<lparr>mc_dns_expected_value := b\<rparr>) (d_checks d)\<rparr>)))"
proof (cases "sets_baseline env c r")
  case None
  then have "snd (dns_check_run env resolve c d) = (c, conclude c (pr_status r) (pr_details r) (cv_now env)
      (dns_status_event env c r) d)"
    using dns_capture_no_fault [OF assms(1,2), of env r]
    by (simp add: dns_check_run_def assms(3) [symmetric] conclude_def Let_def split: prod.split)
  then show ?thesis using None checker_events_ok(4) by auto
next
  case (Some b)
  let ?c = "c\<lparr>mc_dns_expected_value := b\<rparr>"
  have ev: "dns_status_event env ?c r = dns_status_event env c r"
    by (simp add: dns_status_event_def status_event_def)
  have "snd (dns_check_run env resolve c d) = (?c, conclude ?c (pr_status r) (pr_details r) (cv_now env)
      (dns_status_event env c r) (d\<lparr>d_checks := update_where (\<lambda>x. mc_id x = mc_id c)
                     (\<lambda>x. x\<lparr>mc_dns_expected_value := b\<rparr>) (d_checks d)\<rparr>))"
    using Some dns_capture_no_fault [OF assms(1,2), of env r]
    by (simp add: dns_check_run_def assms(3) [symmetric] conclude_def Let_def ev split: prod.split)
  then show ?thesis using Some checker_events_ok(4) by (auto simp: conclude_same_check)
qed

lemma lookup_update_where:
  "lookup_row mc_id k (update_where (\<lambda>x. mc_id x = k2) f xs) =
     (if k = k2 then map_option f (lookup_row mc_id k xs) else lookup_row mc_id k xs)"
  if "\<And>x. mc_id (f x) = mc_id x"
  using that by (induction xs) (auto simp: update_where_def)

lemma mc_id_set_check_status [simp]: "mc_id (set_check_status v details now x) = mc_id x"
  by (simp add: set_check_status_def)

lemma ids_update_where:
  "(\<And>x. mc_id (f x) = mc_id x) \<Longrightarrow> mc_id ` set (update_where P f xs) = mc_id ` set xs"
  by (metis map_update_where set_map)

lemma conclude_effect:
  assumes "d_faults d = []" and "mc_id c \<in> mc_id ` set (d_checks d)"
    and "cv_uuid env \<notin> ev_id ` set (d_events d)" and "check_event_ok c v env e"
    and d2_def: "d2 = conclude c v details now e d"
  shows "d_events d2 = d_events d @ (if status_changed c v then [e] else [])
    \<and> map_option mc_last_status (lookup_row mc_id (mc_id c) (d_checks d2)) = Some v
    \<and> mc_id ` set (d_checks d2) = mc_id ` set (d_checks d) \<and> d_faults d2 = []"
proof -
  obtain row where "lookup_row mc_id (mc_id c) (d_checks d) = Some row"
    using assms(2) lookup_row_None [of mc_id "mc_id c" "d_checks d"]
    by (cases "lookup_row mc_id (mc_id c) (d_checks d)") auto
  then show ?thesis
    unfolding d2_def conclude_no_fault [OF assms(1-4)]
    using assms(1)
    by (simp add: lookup_update_where ids_update_where) (simp add: set_check_status_def)
qed

text \<open>The effect of one dispatch, whatever the type.\<close>

lemma dispatch_effect:
  assumes "d_faults d = []" and "mc_type c \<in> set check_types" and "mc_id c \<in> mc_id ` set (d_checks d)"
    and "cv_uuid env \<notin> ev_id ` set (d_events d)"
    and d2_def: "d2 = snd (dispatch_check env ps c d)"
  shows "(\<exists>e. check_event_ok c (verdict ps c) env e
        \<and> d_events d2 = d_events d @ (if status_changed c (verdict ps c) then [e] else []))
    \<and> map_option mc_last_status (lookup_row mc_id (mc_id c) (d_checks d2)) = Some (verdict ps c)
    \<and> mc_id ` set (d_checks d2) = mc_id ` set (d_checks d) \<and> d_faults d2 = []"
proof -
  let ?v = "verdict ps c"
  have concl: ?thesis if "d2 = conclude c ?v details now e d3" and "check_event_ok c ?v env e"
    and "d_faults d3 = []" and "d_events d3 = d_events d" and "mc_id ` set (d_checks d3) = mc_id ` set (d_checks d)"
    for e details now d3
    using conclude_effect [of d3 c env ?v e d2 details now] that assms(3,4) by auto
  consider "mc_type c = ''ping''" | "mc_type c = ''url''" | "mc_type c = ''ssl''" | "mc_type c = ''dns''"
    using assms(2) by (auto simp: check_types_def)
  then show ?thesis
  proof cases
    case 1
    have "?v = (if list_all (\<lambda>i. pr_status (pb_ping ps (mc_target c) i) = ''down'') [0, 1, 2] then ''down'' else ''up'')"
      using 1 by (simp add: verdict_def)
    from ping_check_conclude [OF this, of env c d] obtain e details where
      "snd (ping_check_run env (pb_ping ps (mc_target c)) c d) = conclude c ?v details (cv_now env) e d"
      "check_event_ok c ?v env e" by blast
    then show ?thesis using 1 assms(1) by (intro concl) (auto simp: d2_def dispatch_check_def)
  next
    case 2
    have "?v = (if has_http_scheme (mc_target c)
            \<and> (case pb_url ps (mc_target c) (mc_skip_tls_verify c) of
                 UrlStatus code _ \<Rightarrow> code = expected_status c | _ \<Rightarrow> False) then ''up'' else ''down'')"
      using 2 by (simp add: verdict_def)
    from url_check_conclude [where client = "pb_url ps" and c = c, OF this, of env d] obtain e details where
      "snd (url_check_run env (pb_url ps) c d) = conclude c ?v details (cv_now env) e d"
      "check_event_ok c ?v env e" by blast
    then show ?thesis using 2 assms(1) by (intro concl) (auto simp: d2_def dispatch_check_def)
  next
    case 3
    have "?v = pr_status (pb_ssl ps (mc_target c) (if mc_ssl_warn_days c = 0 then 30 else mc_ssl_warn_days c)
        (if mc_ssl_crit_days c = 0 then 7 else mc_ssl_crit_days c))"
      using 3 by (simp add: verdict_def)
    from ssl_check_conclude [where runner = "pb_ssl ps" and c = c, OF this, of env d] obtain e details where
      "snd (ssl_check_run env (pb_ssl ps) c d) = conclude c ?v details (cv_now env) e d"
      "check_event_ok c ?v env e" by blast
    then show ?thesis using 3 assms(1) by (intro concl) (auto simp: d2_def dispatch_check_def)
  next
    case 4
    let ?r = "pb_dns ps (mc_target c) (mc_dns_record_type c) (mc_dns_expected_value c) (mc_dns_resolver c)"
    have v: "?v = pr_status ?r" using 4 by (simp add: verdict_def)
    from dns_check_conclude [where resolve = "pb_dns ps" and c = c and env = env, OF assms(1) 4 refl] obtain e where
      e: "check_event_ok c ?v env e" and run: "snd (dns_check_run env (pb_dns ps) c d) =
       (case sets_baseline env c ?r of
          None \<Rightarrow> (c, conclude c ?v (pr_details ?r) (cv_now env) e d)
        | Some b \<Rightarrow> (c\<lparr>mc_dns_expected_value := b\<rparr>,
                 conclude c ?v (pr_details ?r) (cv_now env) e
                   (d\<lparr>d_checks := update_where (\<lambda>x. mc_id x = mc_id c)
                     (\<lambda>x. x\<lparr>mc_dns_expected_value := b\<rparr>) (d_checks d)\<rparr>)))"
      unfolding v by blast
    have d2: "d2 = snd (snd (dns_check_run env (pb_dns ps) c d))"
      using 4 by (simp add: d2_def dispatch_check_def)
    show ?thesis
    proof (cases "sets_baseline env c ?r")
      case None
      then show ?thesis using e run d2 assms(1) by (intro concl [of "pr_details ?r" "cv_now env" e d]) auto
    next
      case (Some b)
      then show ?thesis using e run d2 assms(1)
        by (intro concl [of "pr_details ?r" "cv_now env" e "d\<lparr>d_checks := update_where (\<lambda>x. mc_id x = mc_id c)
                     (\<lambda>x. x\<lparr>mc_dns_expected_value := b\<rparr>) (d_checks d)\<rparr>"])
          (auto simp: ids_update_where)
    qed
  qed
qed

section \<open>Properties of the checkers\<close>

text \<open>C4: One cycle of a check, of any type, stores its verdict as the check's status and adds an event
  exactly when the status the check was loaded with is known and different; the event is the check's
  own, allowed by the schema, and an error exactly when the verdict is down.\<close>

theorem checker_reports_transitions:
  assumes "d_faults d = []" and "mc_type c \<in> set check_types" and "mc_id c \<in> mc_id ` set (d_checks d)"
    and "cv_uuid env \<notin> ev_id ` set (d_events d)"
  shows "\<exists>e. check_event_ok c (verdict ps c) env e
    \<and> d_events (snd (dispatch_check env ps c d)) = d_events d
        @ (if mc_last_status c \<noteq> [] \<and> mc_last_status c \<noteq> verdict ps c then [e] else [])
    \<and> map_option mc_last_status (lookup_row mc_id (mc_id c) (d_checks (snd (dispatch_check env ps c d))))
        = Some (verdict ps c)"
  using dispatch_effect [OF assms refl, of ps] by (simp add: status_changed_def)

definition sample_check :: "string \<Rightarrow> string \<Rightarrow> monitor_check" where
  "sample_check ty status = \<lparr>mc_id = ''c1'', mc_app_id = [], mc_name = ''router'', mc_type = ty,
     mc_target = ''10.0.0.1'', mc_interval_secs = 60, mc_expected_status = 0, mc_ssl_warn_days = 30,
     mc_ssl_crit_days = 7, mc_source_component_id = None, mc_skip_tls_verify = False,
     mc_dns_record_type = [], mc_dns_expected_value = [], mc_dns_resolver = [], mc_enabled = True,
     mc_last_checked_at = None, mc_last_status = status, mc_last_result = [], mc_created_at = 0\<rparr>"

definition sample_check_env :: check_env where
  "sample_check_env = \<lparr>cv_uuid = ''e1'', cv_now = 0, cv_tf = \<lparr>tf_rfc3339 = (\<lambda>_. []), tf_json = (\<lambda>_. [])\<rparr>,
     cv_latency = (\<lambda>_. 3), cv_records = (\<lambda>_. Some [''1.2.3.4'']), cv_dns = (\<lambda>_. (''A'', 3)),
     cv_ssl = (\<lambda>_. (None, None, None))\<rparr>"

definition sample_net :: "string option \<Rightarrow> string \<Rightarrow> dns_answers" where
  "sample_net r t = \<lparr>da_host = ([''1.2.3.4''], None), da_mx = ([], None), da_cname = Inl [], da_txt = ([], None)\<rparr>"

definition sample_probes :: "string \<Rightarrow> probes" where
  "sample_probes status = \<lparr>pb_ping = (\<lambda>_ _. \<lparr>pr_status = status, pr_details = [], pr_checked_at = 0\<rparr>),
     pb_url = (\<lambda>_ _. UrlStatus 200 1), pb_ssl = (\<lambda>_ _ _. \<lparr>pr_status = status, pr_details = [], pr_checked_at = 0\<rparr>),
     pb_dns = run_dns sample_net 0 5\<rparr>"

theorem checker_reports_transitions_witness:
  "length (d_events (snd (dispatch_check sample_check_env (sample_probes ''down'') (sample_check ''ping'' ''up'')
     (empty_db\<lparr>d_checks := [sample_check ''ping'' ''up'']\<rparr>)))) = 1"
proof -
  obtain e where "d_events (snd (dispatch_check sample_check_env (sample_probes ''down'') (sample_check ''ping'' ''up'')
     (empty_db\<lparr>d_checks := [sample_check ''ping'' ''up'']\<rparr>))) = [e]"
    using checker_reports_transitions [of "empty_db\<lparr>d_checks := [sample_check ''ping'' ''up'']\<rparr>"
        "sample_check ''ping'' ''up''" sample_check_env "sample_probes ''down''"]
    by (auto simp: empty_db_def sample_check_def check_types_def sample_check_env_def sample_probes_def verdict_def)
  then show ?thesis by simp
qed

text \<open>How bad an SSL status is.\<close>

definition ssl_rank :: "string \<Rightarrow> nat" where
  "ssl_rank s = (if s = ''down'' then 3 else if s = ''critical'' then 2 else if s = ''warn'' then 1 else 0)"

lemma ssl_status_antimono: "a \<le> b \<Longrightarrow> ssl_rank (ssl_status b w k) \<le> ssl_rank (ssl_status a w k)"
  by (auto simp: ssl_status_def ssl_rank_def)

lemma days_until_antimono:
  assumes "a \<le> b"
  shows "days_until b t \<le> days_until a t"
proof -
  have "(b - t) div day_ns \<ge> (a - t) div day_ns" using assms by (intro zdiv_mono1) auto
  moreover have "(t - b) div day_ns \<le> (t - a) div day_ns" using assms by (intro zdiv_mono1) auto
  moreover have "0 \<le> (t - a) div day_ns" if "a \<le> t" using that by simp
  moreover have "0 \<le> (b - t) div day_ns" if "t \<le> b" using that by simp
  ultimately show ?thesis using assms by (auto simp: days_until_def)
qed

text \<open>As long as the served certificate and the thresholds stay the same, the SSL verdict only gets
  worse as time passes.\<close>

theorem ssl_verdict_monotone:
  assumes "now2 \<le> later2"
  shows "ssl_rank (pr_status (run_ssl tf dial now now2 target warn crit))
    \<le> ssl_rank (pr_status (run_ssl tf dial later later2 target warn crit))"
  using ssl_status_antimono [OF days_until_antimono [OF assms]]
  by (auto simp: run_ssl_def Let_def ssl_failure_def split: tls_probe.split list.split)

definition sample_cert :: "go_time \<Rightarrow> tls_probe" where
  "sample_cert t = TlsCerts [\<lparr>ce_not_after = t, ce_issuer = ''CA'', ce_subject = ''host''\<rparr>]"

theorem ssl_verdict_monotone_witness:
  "\<forall>tf. ssl_rank (pr_status (run_ssl tf (\<lambda>_. sample_cert (40 * day_ns)) 0 (0 :: int) ''https://h'' 0 0))
    \<le> ssl_rank (pr_status (run_ssl tf (\<lambda>_. sample_cert (40 * day_ns)) 0 (35 * day_ns) ''https://h'' 0 0))"
  by (rule allI, rule ssl_verdict_monotone) simp

text \<open>Truncation to whole days calls a certificate that is valid for another 23 hours down, which the
  event then words as invalid or expired.\<close>

theorem valid_cert_reported_down:
  "pr_status (run_ssl tf (\<lambda>_. sample_cert (23 * hour_ns)) 0 0 ''https://h'' 0 0) = ''down''"
  by (simp add: run_ssl_def sample_cert_def days_until_def ssl_status_def)

definition dns_record_type_of :: "monitor_check \<Rightarrow> string" where
  "dns_record_type_of c = (if mc_dns_record_type c = [] then ''A'' else mc_dns_record_type c)"

lemma run_dns_status:
  "pr_status (run_dns net now l target rt expected resolver) =
     (case dns_lookup (net (dns_resolver_address resolver) target) (if rt = [] then ''A'' else rt) of
        (records, Some _) \<Rightarrow> ''down''
      | (records, None) \<Rightarrow> if expected = [] \<or> list_ex (\<lambda>r. contains_str r expected) records then ''up'' else ''warn'')"
  by (auto simp: run_dns_def Let_def split: prod.split option.split)

text \<open>The first successful cycle of a DNS check without a baseline records the first answer as its
  baseline, in the database and in the running check; from then on a cycle is up exactly when some
  answer contains it, and warns when the name resolves to others.\<close>

theorem dns_baseline_captured:
  assumes "d_faults d = []" and "mc_type c = ''dns''" and "mc_dns_expected_value c = []"
    and "mc_id c \<in> mc_id ` set (d_checks d)" and "cv_uuid env \<notin> ev_id ` set (d_events d)"
    and "pb_dns ps = run_dns net now l"
    and "dns_lookup (net (dns_resolver_address (mc_dns_resolver c)) (mc_target c)) (dns_record_type_of c)
           = (r0 # rs, None)"
    and "cv_records env (dns_details (dns_record_type_of c) (r0 # rs) l None) = Some (r0 # rs)" and "r0 \<noteq> []"
  shows "mc_dns_expected_value (fst (dispatch_check env ps c d)) = r0
    \<and> map_option mc_dns_expected_value
        (lookup_row mc_id (mc_id c) (d_checks (snd (dispatch_check env ps c d)))) = Some r0
    \<and> pr_status (run_dns net2 now2 l2 (mc_target c) (mc_dns_record_type c) r0 (mc_dns_resolver c))
        = (case dns_lookup (net2 (dns_resolver_address (mc_dns_resolver c)) (mc_target c)) (dns_record_type_of c) of
             (records, Some _) \<Rightarrow> ''down''
           | (records, None) \<Rightarrow> if list_ex (\<lambda>r. contains_str r r0) records then ''up'' else ''warn'')"
proof -
  let ?r = "run_dns net now l (mc_target c) (mc_dns_record_type c) (mc_dns_expected_value c) (mc_dns_resolver c)"
  have r: "?r = \<lparr>pr_status = ''up'', pr_details = dns_details (dns_record_type_of c) (r0 # rs) l None,
      pr_checked_at = now\<rparr>"
    using assms(3,7) by (simp add: run_dns_def dns_record_type_of_def Let_def)
  have base: "sets_baseline env c ?r = Some r0"
    unfolding sets_baseline_def r using assms(2,3,8) by simp
  let ?d = "d\<lparr>d_checks := update_where (\<lambda>x. mc_id x = mc_id c) (\<lambda>x. x\<lparr>mc_dns_expected_value := r0\<rparr>) (d_checks d)\<rparr>"
  from dns_check_conclude [where resolve = "pb_dns ps" and c = c and env = env, OF assms(1,2) refl] obtain e where
    e: "check_event_ok c (pr_status ?r) env e" and
    run: "snd (dns_check_run env (pb_dns ps) c d) = (c\<lparr>mc_dns_expected_value := r0\<rparr>,
       conclude c (pr_status ?r) (pr_details ?r) (cv_now env) e ?d)"
    unfolding assms(6) base option.case by blast
  obtain row where row: "lookup_row mc_id (mc_id c) (d_checks d) = Some row"
    using assms(4) lookup_row_None [of mc_id "mc_id c" "d_checks d"]
    by (cases "lookup_row mc_id (mc_id c) (d_checks d)") auto
  have "conclude c (pr_status ?r) (pr_details ?r) (cv_now env) e ?d =
      ?d\<lparr>d_events := d_events d @ (if status_changed c (pr_status ?r) then [e] else []),
         d_checks := update_where (\<lambda>x. mc_id x = mc_id c)
           (set_check_status (pr_status ?r) (pr_details ?r) (cv_now env)) (d_checks ?d)\<rparr>"
    using conclude_no_fault [of ?d c env "pr_status ?r" e "pr_details ?r" "cv_now env"] assms(1,4,5) e
    by (simp add: ids_update_where)
  moreover have "dispatch_check env ps c d = snd (dns_check_run env (pb_dns ps) c d)"
    using assms(2) by (simp add: dispatch_check_def)
  ultimately show ?thesis
    using row assms(9)
    by (simp add: run lookup_update_where run_dns_status dns_record_type_of_def)
      (simp add: set_check_status_def)
qed

theorem dns_baseline_captured_witness:
  "mc_dns_expected_value (fst (dispatch_check sample_check_env (sample_probes []) (sample_check ''dns'' [])
     (empty_db\<lparr>d_checks := [sample_check ''dns'' []]\<rparr>))) = ''1.2.3.4''"
  by (rule dns_baseline_captured [where net = sample_net and now = 0 and l = 5 and rs = "[]", THEN conjunct1])
    (simp_all add: empty_db_def sample_check_def sample_check_env_def sample_probes_def sample_net_def
      dns_lookup_def dns_record_type_of_def to_upper_def upper_char_def Let_def)

end
