(* ===== verification/MonitorSched.thy ===== *)
theory MonitorSched
  imports Monitor
begin

text \<open>
  The scheduler of the checks: internal/monitor/scheduler.go.

  \<open>active\<close> maps a check id to the goroutine running it; what matters of the goroutine is the check
  object it was started with, which it keeps for its whole life. The buffered channel of
  \<open>TriggerSync\<close> is a Boolean. \<open>Start\<close>'s loop and the ticking goroutines are the rules of
  \<open>sched_step\<close>.
\<close>

record scheduler =
  sc_active :: "(string \<times> monitor_check) list"
  sc_queued :: bool

definition new_scheduler :: scheduler where
  "new_scheduler = \<lparr>sc_active = [], sc_queued = False\<rparr>"

definition trigger_sync :: "scheduler \<Rightarrow> scheduler" where
  "trigger_sync s = s\<lparr>sc_queued := True\<rparr>"

text \<open>The loop over the checks: start what is enabled and not running.\<close>

fun start_loops :: "monitor_check list \<Rightarrow> (string \<times> monitor_check) list \<Rightarrow> (string \<times> monitor_check) list" where
  "start_loops [] active = active"
| "start_loops (c # cs) active =
     (if \<not> mc_enabled c then start_loops cs active
      else if map_of active (mc_id c) \<noteq> None then start_loops cs active
      else start_loops cs (active @ [(mc_id c, c)]))"

definition enabled_ids :: "monitor_check list \<Rightarrow> string set" where
  "enabled_ids cs = mc_id ` set (filter mc_enabled cs)"

definition sync_checks :: "scheduler \<Rightarrow> db \<Rightarrow> (db_error + unit) \<times> scheduler \<times> db" where
  "sync_checks s d0 = (case check_list d0 of
       (Inl e, d1) \<Rightarrow> (Inl e, s, d1)
     | (Inr checks, d1) \<Rightarrow>
         (Inr (), s\<lparr>sc_active := filter (\<lambda>(i, _). i \<in> enabled_ids checks)
                                  (start_loops checks (sc_active s))\<rparr>, d1))"

definition cancel_all :: "scheduler \<Rightarrow> scheduler" where
  "cancel_all s = s\<lparr>sc_active := []\<rparr>"

definition loop_interval :: "monitor_check \<Rightarrow> int" where
  "loop_interval c = (let interval = wrap64 (mc_interval_secs c * second_ns) in
     if interval < 30 * second_ns then 30 * second_ns else interval)"

text \<open>One tick of the goroutine of check \<open>cid\<close>.\<close>

definition loop_tick :: "check_env \<Rightarrow> probes \<Rightarrow> string \<Rightarrow> scheduler \<Rightarrow> db \<Rightarrow> scheduler \<times> db" where
  "loop_tick env ps cid s d = (case map_of (sc_active s) cid of
       None \<Rightarrow> (s, d)
     | Some c \<Rightarrow> (case dispatch_check env ps c d of
         (c2, d2) \<Rightarrow> (s\<lparr>sc_active := map (\<lambda>(i, x). if i = cid then (i, c2) else (i, x)) (sc_active s)\<rparr>, d2)))"

inductive sched_step :: "scheduler \<times> db \<Rightarrow> scheduler \<times> db \<Rightarrow> bool" where
  trigger: "sched_step (s, d) (trigger_sync s, d)"
| triggered_sync: "sc_queued s \<Longrightarrow> sync_checks (s\<lparr>sc_queued := False\<rparr>) d = (r, s2, d2)
     \<Longrightarrow> sched_step (s, d) (s2, d2)"
| reload: "sync_checks s d = (r, s2, d2) \<Longrightarrow> sched_step (s, d) (s2, d2)"
| tick: "loop_tick env ps cid s d = (s2, d2) \<Longrightarrow> sched_step (s, d) (s2, d2)"
| shutdown: "sched_step (s, d) (cancel_all s, d)"
| other_writer: "sched_step (s, d) (s, d2)"

inductive_cases sched_stepE: "sched_step (s, d) (s2, d2)"

inductive sched_reachable :: "scheduler \<times> db \<Rightarrow> bool" where
  start: "sync_checks new_scheduler d = (r, s, d2) \<Longrightarrow> sched_reachable (s, d2)"
| step: "sched_reachable st \<Longrightarrow> sched_step st st2 \<Longrightarrow> sched_reachable st2"

section \<open>RunAll, RunAllByType\<close>

text \<open>\<open>live i\<close>: the context is not cancelled when the \<open>i\<close>-th check comes up. Both functions work on
  check objects loaded a moment before.\<close>

datatype run_error = RunList db_error | RunCancelled

fun run_selected ::
  "(monitor_check \<Rightarrow> bool) \<Rightarrow> (nat \<Rightarrow> bool) \<Rightarrow> (string \<Rightarrow> check_env \<times> probes) \<Rightarrow> nat \<Rightarrow> monitor_check list
     \<Rightarrow> db \<Rightarrow> (run_error + unit) \<times> db"
where
  "run_selected sel live envs i [] d = (Inr (), d)"
| "run_selected sel live envs i (c # cs) d =
     (if \<not> mc_enabled c \<or> \<not> sel c then run_selected sel live envs (i + 1) cs d
      else if \<not> live i then (Inl RunCancelled, d)
      else (case envs (mc_id c) of (env, ps) \<Rightarrow>
              run_selected sel live envs (i + 1) cs (snd (dispatch_check env ps c d))))"

definition run_all_by_type ::
  "string \<Rightarrow> (nat \<Rightarrow> bool) \<Rightarrow> (string \<Rightarrow> check_env \<times> probes) \<Rightarrow> db \<Rightarrow> (run_error + unit) \<times> db" where
  "run_all_by_type ty live envs d0 = (case check_list d0 of
       (Inl e, d1) \<Rightarrow> (Inl (RunList e), d1)
     | (Inr cs, d1) \<Rightarrow> run_selected (\<lambda>c. mc_type c = ty) live envs 0 cs d1)"

definition run_all :: "(nat \<Rightarrow> bool) \<Rightarrow> (string \<Rightarrow> check_env \<times> probes) \<Rightarrow> db \<Rightarrow> (run_error + unit) \<times> db" where
  "run_all live envs d0 = (case check_list d0 of
       (Inl e, d1) \<Rightarrow> (Inl (RunList e), d1)
     | (Inr cs, d1) \<Rightarrow> run_selected (\<lambda>c. True) live envs 0 cs d1)"

section \<open>Lemmas\<close>

lemma start_loops_keys:
  "fst ` set (start_loops cs active) = fst ` set active \<union> enabled_ids cs"
  by (induction cs active rule: start_loops.induct)
    (auto simp: enabled_ids_def map_of_eq_None_iff)

lemma start_loops_distinct:
  "distinct (map fst active) \<Longrightarrow> distinct (map fst (start_loops cs active))"
  by (induction cs active rule: start_loops.induct) (auto simp: map_of_eq_None_iff)

lemma start_loops_running:
  "map_of active k = Some c \<Longrightarrow> map_of (start_loops cs active) k = Some c"
  by (induction cs active rule: start_loops.induct) (auto simp: map_add_def)

lemma start_loops_new:
  assumes "map_of active k = None" and "distinct (map mc_id cs)"
  shows "map_of (start_loops cs active) k =
    (case lookup_row mc_id k cs of Some c \<Rightarrow> if mc_enabled c then Some c else None | None \<Rightarrow> None)"
  using assms
proof (induction cs active rule: start_loops.induct)
  case (2 c cs active)
  have none: "lookup_row mc_id (mc_id c) cs = None"
    using "2.prems"(2) by (simp add: lookup_row_None)
  consider "\<not> mc_enabled c" | "mc_enabled c" "map_of active (mc_id c) \<noteq> None"
    | "mc_enabled c" "map_of active (mc_id c) = None" by blast
  then show ?case
  proof cases
    case 1
    then show ?thesis using 2 none by auto
  next
    case 2
    then show ?thesis using "2.IH"(2) "2.prems" by auto
  next
    case 3
    show ?thesis
    proof (cases "k = mc_id c")
      case True
      have "map_of (active @ [(mc_id c, c)]) k = Some c"
        using 3 True by (simp add: map_add_def)
      then show ?thesis using 3 True start_loops_running by simp
    next
      case False
      then have "map_of (active @ [(mc_id c, c)]) k = None"
        using "2.prems"(1) by (simp add: map_add_def)
      then show ?thesis using "2.IH"(3) "2.prems"(2) 3 False by simp
    qed
  qed
qed simp

lemma map_of_filter_fst:
  "map_of (filter (\<lambda>(i, _). P i) xs) k = (if P k then map_of xs k else None)"
  by (induction xs) auto

text \<open>Every loop is registered once, under its check's id.\<close>

definition active_ok :: "scheduler \<Rightarrow> bool" where
  "active_ok s = (distinct (map fst (sc_active s)) \<and> list_all (\<lambda>(i, c). mc_id c = i) (sc_active s))"

lemma start_loops_named:
  "list_all (\<lambda>(i, c). mc_id c = i) active \<Longrightarrow> list_all (\<lambda>(i, c). mc_id c = i) (start_loops cs active)"
  by (induction cs active rule: start_loops.induct) auto

lemma list_all_filter_keep: "list_all P xs \<Longrightarrow> list_all P (filter Q xs)"
  by (auto simp: list_all_iff)

lemma sync_active_ok: "sync_checks s d = (r, s2, d2) \<Longrightarrow> active_ok s \<Longrightarrow> active_ok s2"
  by (auto simp: sync_checks_def active_ok_def start_loops_distinct start_loops_named
      distinct_map_filter_keep list_all_filter_keep split: prod.splits sum.splits)

section \<open>Properties of the scheduler\<close>

text \<open>C29: After a successful sync exactly the enabled checks have a goroutine; one that was already
  running goes on with the check object it had, a new one starts from the database row.\<close>

theorem sync_runs_enabled_checks:
  assumes "sync_checks s d = (Inr (), s2, d2)" and "distinct (map mc_id (d_checks d))"
  shows "fst ` set (sc_active s2) = enabled_ids (d_checks d)
    \<and> map_of (sc_active s2) k =
        (if k \<in> enabled_ids (d_checks d)
         then (case map_of (sc_active s) k of Some c \<Rightarrow> Some c | None \<Rightarrow> lookup_row mc_id k (d_checks d))
         else None)"
proof -
  let ?cs = "order_asc mc_created_at (d_checks d)"
  have s2: "s2 = s\<lparr>sc_active := filter (\<lambda>(i, _). i \<in> enabled_ids ?cs) (start_loops ?cs (sc_active s))\<rparr>"
    using assms(1)
    by (auto simp: sync_checks_def check_list_def db_query_def db_op_def split: list.splits if_splits)
  have ids: "enabled_ids ?cs = enabled_ids (d_checks d)" by (auto simp: enabled_ids_def)
  have dist: "distinct (map mc_id ?cs)"
    using assms(2) by (metis mset_map mset_order_asc mset_eq_imp_distinct_iff)
  have look: "lookup_row mc_id k ?cs = lookup_row mc_id k (d_checks d)"
  proof (cases "lookup_row mc_id k (d_checks d)")
    case None
    then have "lookup_row mc_id k ?cs = None" unfolding lookup_row_None by simp
    with None show ?thesis by simp
  next
    case (Some c)
    then have "c \<in> set ?cs" "mc_id c = k" using lookup_row_Some [OF Some] by auto
    then show ?thesis using lookup_row_distinct [OF dist] Some by auto
  qed
  have enabled: "\<exists>c. lookup_row mc_id k (d_checks d) = Some c \<and> mc_enabled c"
    if "k \<in> enabled_ids (d_checks d)"
    using that lookup_row_distinct [OF assms(2)] by (auto simp: enabled_ids_def)
  have "fst ` set (sc_active s2) = enabled_ids (d_checks d)"
    using start_loops_keys [of ?cs "sc_active s"] ids
    by (force simp: s2 image_iff)
  moreover have "map_of (sc_active s2) k =
        (if k \<in> enabled_ids (d_checks d)
         then (case map_of (sc_active s) k of Some c \<Rightarrow> Some c | None \<Rightarrow> lookup_row mc_id k (d_checks d))
         else None)"
  proof (cases "map_of (sc_active s) k")
    case None
    then show ?thesis
      using enabled start_loops_new [OF None dist] by (auto simp: s2 map_of_filter_fst ids look)
  next
    case (Some c)
    then show ?thesis
      using start_loops_running [OF Some, of ?cs] by (auto simp: s2 map_of_filter_fst ids)
  qed
  ultimately show ?thesis by blast
qed

definition with_checks :: "monitor_check list \<Rightarrow> db" where
  "with_checks cs = empty_db\<lparr>d_checks := cs\<rparr>"

theorem sync_runs_enabled_checks_witness:
  "fst ` set (sc_active (fst (snd (sync_checks new_scheduler (with_checks [sample_check ''ping'' []]))))) = {''c1''}"
proof -
  let ?d = "with_checks [sample_check ''ping'' []]"
  obtain s2 d2 where r: "sync_checks new_scheduler ?d = (Inr (), s2, d2)"
    by (simp add: sync_checks_def check_list_def with_checks_def empty_db_def)
  have "fst ` set (sc_active s2) = enabled_ids (d_checks ?d)"
    using sync_runs_enabled_checks [OF r, of undefined] by (simp add: with_checks_def)
  moreover have "enabled_ids (d_checks ?d) = {''c1''}"
    by (simp add: enabled_ids_def with_checks_def sample_check_def)
  ultimately show ?thesis by (simp only: r fst_conv snd_conv)
qed

lemma loop_tick_ok: "loop_tick env ps cid s d = (s2, d2) \<Longrightarrow> active_ok s \<Longrightarrow> active_ok s2"
proof -
  assume tick: "loop_tick env ps cid s d = (s2, d2)" and ok: "active_ok s"
  show "active_ok s2"
  proof (cases "map_of (sc_active s) cid")
    case None
    then show ?thesis using tick ok by (simp add: loop_tick_def)
  next
    case (Some c)
    obtain c2 d3 where run: "dispatch_check env ps c d = (c2, d3)" by fastforce
    have "mc_id c = cid" using ok map_of_SomeD [OF Some] by (auto simp: active_ok_def list_all_iff)
    moreover have "mc_id c2 = mc_id c"
      using run by (auto simp: dispatch_check_def dns_check_run_def dns_capture_baseline_def Let_def
          split: if_splits option.splits list.splits prod.splits sum.splits)
    moreover have "s2 = s\<lparr>sc_active := map (\<lambda>(i, x). if i = cid then (i, c2) else (i, x)) (sc_active s)\<rparr>"
      using tick Some run by (simp add: loop_tick_def)
    moreover have "map fst (map (\<lambda>(i, x). if i = cid then (i, c2) else (i, x)) xs) = map fst xs"
      for xs :: "(string \<times> monitor_check) list"
      by (induction xs) auto
    moreover have "list_all (\<lambda>(i, c). mc_id c = i) (map (\<lambda>(i, x). if i = cid then (i, c2) else (i, x)) (sc_active s))"
      using ok calculation(1,2) by (auto simp: active_ok_def list_all_iff split: if_splits)
    ultimately show ?thesis using ok by (simp add: active_ok_def del: map_map)
  qed
qed

lemma sched_step_ok: "sched_step st st2 \<Longrightarrow> active_ok (fst st) \<Longrightarrow> active_ok (fst st2)"
proof (induction rule: sched_step.induct)
  case (triggered_sync s d r s2 d2)
  then show ?case using sync_active_ok [OF triggered_sync.hyps(2)] by (simp add: active_ok_def)
next
  case (reload s d r s2 d2)
  then show ?case using sync_active_ok by simp
next
  case (tick env ps cid s d s2 d2)
  then show ?case using loop_tick_ok by simp
qed (simp_all add: active_ok_def trigger_sync_def cancel_all_def)

text \<open>However syncs, ticks, triggers, shutdowns and changes of the database interleave, no check
  ever has two goroutines.\<close>

theorem one_loop_per_check:
  assumes "sched_reachable (s, d)"
  shows "distinct (map fst (sc_active s)) \<and> list_all (\<lambda>(i, c). mc_id c = i) (sc_active s)"
proof -
  have "active_ok (fst st)" if "sched_reachable st" for st
    using that
  proof (induction rule: sched_reachable.induct)
    case (start d r s d2)
    then show ?case using sync_active_ok by (simp add: active_ok_def new_scheduler_def)
  next
    case (step st st2)
    then show ?case using sched_step_ok by blast
  qed
  from this [OF assms] show ?thesis by (simp add: active_ok_def)
qed

theorem one_loop_per_check_witness:
  "length (sc_active (fst (snd (sync_checks new_scheduler (with_checks [sample_check ''ping'' []]))))) = 1"
proof -
  let ?d = "with_checks [sample_check ''ping'' []]"
  obtain s2 d2 where r: "sync_checks new_scheduler ?d = (Inr (), s2, d2)" and len: "length (sc_active s2) = 1"
    by (simp add: sync_checks_def check_list_def with_checks_def empty_db_def new_scheduler_def
        order_asc_def enabled_ids_def sample_check_def)
  have "sched_reachable (s2, d2)" using r by (rule sched_reachable.start)
  from one_loop_per_check [OF this] show ?thesis using len by (simp only: r fst_conv snd_conv)
qed

section \<open>What a running loop reports\<close>

fun run_loop :: "(check_env \<times> probes) list \<Rightarrow> monitor_check \<Rightarrow> db \<Rightarrow> string list \<times> monitor_check \<times> db" where
  "run_loop [] c d = ([], c, d)"
| "run_loop ((env, ps) # ticks) c d =
     (case dispatch_check env ps c d of
        (c2, d2) \<Rightarrow> (case run_loop ticks c2 d2 of (vs, r) \<Rightarrow> (verdict ps c # vs, r)))"

lemma dns_capture_object [simp]:
  "mc_last_status (fst (dns_capture_baseline env c r d)) = mc_last_status c"
  "mc_id (fst (dns_capture_baseline env c r d)) = mc_id c"
  "mc_type (fst (dns_capture_baseline env c r d)) = mc_type c"
  by (simp_all add: dns_capture_baseline_def split: option.split list.split prod.split sum.split)

lemma dns_check_object:
  "fst (snd (dns_check_run env resolve c d)) = fst (dns_capture_baseline env c
     (resolve (mc_target c) (mc_dns_record_type c) (mc_dns_expected_value c) (mc_dns_resolver c)) d)"
  by (simp add: dns_check_run_def Let_def split: prod.split)

lemma dispatch_check_object [simp]:
  "mc_last_status (fst (dispatch_check env ps c d)) = mc_last_status c"
  "mc_id (fst (dispatch_check env ps c d)) = mc_id c"
  "mc_type (fst (dispatch_check env ps c d)) = mc_type c"
  by (simp_all add: dispatch_check_def dns_check_object)

text \<open>C2: A running check compares every verdict with the status it was loaded with, never with the
  previous one. If that status was known, a loop writes one event per cycle whose verdict differs
  from it; if the check had never run, the loop writes no event at all. (A check loaded as up that
  goes down thus writes an error event in every cycle.)\<close>

theorem loop_event_count:
  assumes "d_faults d = []" and "mc_type c \<in> set check_types" and "mc_id c \<in> mc_id ` set (d_checks d)"
    and "distinct (map (cv_uuid \<circ> fst) ticks)" and "(cv_uuid \<circ> fst) ` set ticks \<inter> ev_id ` set (d_events d) = {}"
    and "run_loop ticks c d = (vs, c2, d2)"
  shows "length (d_events d2) = length (d_events d) +
    (if mc_last_status c = [] then 0 else length (filter (\<lambda>v. v \<noteq> mc_last_status c) vs))"
  using assms
proof (induction ticks arbitrary: c d vs c2 d2)
  case Nil
  then show ?case by simp
next
  case (Cons t ticks)
  obtain env ps where t: "t = (env, ps)" by fastforce
  obtain c1 d1 where run1: "dispatch_check env ps c d = (c1, d1)" by fastforce
  obtain vs1 where run: "run_loop ticks c1 d1 = (vs1, c2, d2)" and vs: "vs = verdict ps c # vs1"
    using Cons.prems(6) by (auto simp: t run1 split: prod.splits)
  have c1: "mc_last_status c1 = mc_last_status c" "mc_id c1 = mc_id c" "mc_type c1 = mc_type c"
    using dispatch_check_object [of env ps c d] run1 by simp_all
  have "cv_uuid env \<notin> ev_id ` set (d_events d)" using Cons.prems(5) t by auto
  from dispatch_effect [OF Cons.prems(1-3) this, of d1 ps] run1 obtain e where
    e: "check_event_ok c (verdict ps c) env e"
    "d_events d1 = d_events d @ (if status_changed c (verdict ps c) then [e] else [])"
    "mc_id ` set (d_checks d1) = mc_id ` set (d_checks d)" "d_faults d1 = []" by auto
  have "ev_id e = cv_uuid env" using e(1) by (simp add: check_event_ok_def)
  then have fresh: "(cv_uuid \<circ> fst) ` set ticks \<inter> ev_id ` set (d_events d1) = {}"
    using Cons.prems(4,5) t e(2) by (auto simp: image_iff)
  have "length (d_events d2) = length (d_events d1) +
    (if mc_last_status c1 = [] then 0 else length (filter (\<lambda>v. v \<noteq> mc_last_status c1) vs1))"
    using Cons.prems c1 e(3,4) fresh run by (intro Cons.IH) auto
  then show ?case
    using e(2) c1 vs by (auto simp: status_changed_def)
qed

theorem loop_event_count_witness:
  "length (d_events (snd (snd (run_loop [(sample_check_env, sample_probes ''down''),
       (sample_check_env\<lparr>cv_uuid := ''e2''\<rparr>, sample_probes ''down'')] (sample_check ''ping'' ''up'')
     (with_checks [sample_check ''ping'' ''up'']))))) = 2"
proof -
  let ?ticks = "[(sample_check_env, sample_probes ''down''), (sample_check_env\<lparr>cv_uuid := ''e2''\<rparr>, sample_probes ''down'')]"
  let ?d = "with_checks [sample_check ''ping'' ''up'']"
  obtain vs c2 d2 where r: "run_loop ?ticks (sample_check ''ping'' ''up'') ?d = (vs, c2, d2)"
    by (metis prod_cases3)
  then have vs: "vs = [''down'', ''down'']"
    by (auto simp: dispatch_check_def sample_check_def verdict_def sample_probes_def split: prod.splits)
  have "length (d_events d2) = 0 + length (filter (\<lambda>v. v \<noteq> ''up'') vs)"
    using loop_event_count [OF _ _ _ _ _ r]
    by (simp add: with_checks_def empty_db_def sample_check_def check_types_def sample_check_env_def)
  then show ?thesis using r vs by simp
qed

end
