(* ===== verification/ChecksApi.thy ===== *)
theory ChecksApi
  imports MonitorSched
begin

text \<open>
  The handlers of internal/api/checks.go. The request body arrives decoded (\<open>None\<close> where the decoder
  failed); a JSON field that is absent is the empty value of its Go type, or \<open>None\<close> for a pointer.
\<close>

record check_request =
  cq_name :: string
  cq_type :: string
  cq_target :: string
  cq_interval_secs :: int
  cq_app_id :: "string option"
  cq_expected_status :: int
  cq_ssl_warn_days :: int
  cq_ssl_crit_days :: int
  cq_enabled :: "bool option"
  cq_skip_tls_verify :: "bool option"
  cq_dns_record_type :: string
  cq_dns_expected_value :: string
  cq_dns_resolver :: string

definition valid_record_types :: "string list" where
  "valid_record_types = [''A'', ''AAAA'', ''MX'', ''CNAME'', ''TXT'', '''']"

text \<open>The error message, empty for a valid request.\<close>

definition validate_check :: "check_request \<Rightarrow> string" where
  "validate_check req =
     (if cq_name req = [] then ''name is required''
      else if cq_type req \<notin> set check_types then ''type must be one of: ping, url, ssl, dns''
      else if cq_target req = [] then ''target is required''
      else if cq_interval_secs req < 30 then ''interval_secs must be at least 30''
      else if cq_type req = ''url'' \<and> \<not> has_http_scheme (cq_target req) then
        ''target must begin with http:// or https:// for url checks''
      else if cq_type req = ''dns'' \<and> to_upper (cq_dns_record_type req) \<notin> set valid_record_types then
        ''dns_record_type must be one of: A, AAAA, MX, CNAME, TXT''
      else if cq_type req = ''ssl'' \<and> \<not> has_http_scheme (cq_target req) then
        ''target must begin with http:// or https:// for ssl checks''
      else [])"

definition default_int :: "int \<Rightarrow> int \<Rightarrow> int" where
  "default_int x dflt = (if x = 0 then dflt else x)"

definition request_check :: "string \<Rightarrow> go_time \<Rightarrow> check_request \<Rightarrow> monitor_check" where
  "request_check cid now req =
     \<lparr>mc_id = cid, mc_app_id = (case cq_app_id req of None \<Rightarrow> [] | Some a \<Rightarrow> a), mc_name = cq_name req,
      mc_type = cq_type req, mc_target = cq_target req, mc_interval_secs = cq_interval_secs req,
      mc_expected_status = cq_expected_status req,
      mc_ssl_warn_days = default_int (cq_ssl_warn_days req) 30,
      mc_ssl_crit_days = default_int (cq_ssl_crit_days req) 7, mc_source_component_id = None,
      mc_skip_tls_verify = (cq_skip_tls_verify req = Some True),
      mc_dns_record_type = to_upper (cq_dns_record_type req),
      mc_dns_expected_value = cq_dns_expected_value req, mc_dns_resolver = cq_dns_resolver req,
      mc_enabled = True, mc_last_checked_at = None, mc_last_status = [], mc_last_result = [],
      mc_created_at = now\<rparr>"

text \<open>The capture of a first DNS baseline by \<open>Create\<close>, whatever the request asked for.\<close>

definition create_dns_baseline ::
  "check_env \<Rightarrow> network \<Rightarrow> monitor_check \<Rightarrow> db \<Rightarrow> monitor_check \<times> db" where
  "create_dns_baseline env nw c d0 =
     (let result = run_dns (nw_dns nw) (nw_now nw) (nw_latency nw) (mc_target c) (mc_dns_record_type c) []
                     (mc_dns_resolver c) in
      case cv_records env (pr_details result) of
        Some (r # _) \<Rightarrow>
          (let c1 = c\<lparr>mc_dns_expected_value := r\<rparr>;
               d1 = db_ignore (check_set_dns_baseline (mc_id c) r d0);
               d2 = db_ignore (check_update_status (mc_id c) (pr_status result) (pr_details result) (cv_now env) d1) in
           case check_get (mc_id c) d2 of
             (Inr updated, d3) \<Rightarrow> (updated, d3)
           | (Inl _, d3) \<Rightarrow> (c1, d3))
      | _ \<Rightarrow> (c, d0))"

definition checks_handler_create ::
  "check_env \<Rightarrow> network \<Rightarrow> string \<Rightarrow> go_time \<Rightarrow> check_request option \<Rightarrow> db \<Rightarrow> monitor_check response \<times> db" where
  "checks_handler_create env nw cid dbnow body d0 =
     (case body of
        None \<Rightarrow> (Failed 400 ''invalid request body'', d0)
      | Some req \<Rightarrow>
          (if validate_check req \<noteq> [] then (Failed 400 (validate_check req), d0)
           else (let c = request_check cid (cv_now env) req in
             case check_create dbnow c d0 of
               (Inl _, d1) \<Rightarrow> (Failed 500 ''database'', d1)
             | (Inr _, d1) \<Rightarrow>
                 (if mc_type c = ''dns''
                  then (case create_dns_baseline env nw c d1 of (c2, d2) \<Rightarrow> (Answer 201 c2, d2))
                  else (Answer 201 c, d1)))))"

text \<open>The opening of every handler with an id: 404 for an unknown check, 500 for a failing query.\<close>

definition with_check :: "string \<Rightarrow> (nat \<Rightarrow> string \<Rightarrow> db \<Rightarrow> 'r) \<Rightarrow> (monitor_check \<Rightarrow> db \<Rightarrow> 'r) \<Rightarrow> db \<Rightarrow> 'r" where
  "with_check cid fail found d0 = (case check_get cid d0 of
       (Inl NotFound, d1) \<Rightarrow> fail 404 ''check not found'' d1
     | (Inl _, d1) \<Rightarrow> fail 500 ''database'' d1
     | (Inr c, d1) \<Rightarrow> found c d1)"

definition checks_handler_get :: "string \<Rightarrow> db \<Rightarrow> monitor_check response \<times> db" where
  "checks_handler_get cid = with_check cid (\<lambda>m t d. (Failed m t, d)) (\<lambda>c d. (Answer 200 c, d))"

definition checks_handler_list :: "db \<Rightarrow> (monitor_check list \<times> nat) response \<times> db" where
  "checks_handler_list d0 = (case check_list d0 of
       (Inl _, d1) \<Rightarrow> (Failed 500 ''database'', d1)
     | (Inr cs, d1) \<Rightarrow> (Answer 200 (cs, length cs), d1))"

definition merge_request :: "check_request \<Rightarrow> monitor_check \<Rightarrow> monitor_check" where
  "merge_request req c = c\<lparr>
     mc_name := (if cq_name req \<noteq> [] then cq_name req else mc_name c),
     mc_type := (if cq_type req \<noteq> [] then cq_type req else mc_type c),
     mc_target := (if cq_target req \<noteq> [] then cq_target req else mc_target c),
     mc_interval_secs := (if cq_interval_secs req \<noteq> 0 then cq_interval_secs req else mc_interval_secs c),
     mc_app_id := (case cq_app_id req of None \<Rightarrow> mc_app_id c | Some a \<Rightarrow> a),
     mc_expected_status := (if cq_expected_status req \<noteq> 0 then cq_expected_status req else mc_expected_status c),
     mc_ssl_warn_days := (if cq_ssl_warn_days req \<noteq> 0 then cq_ssl_warn_days req else mc_ssl_warn_days c),
     mc_ssl_crit_days := (if cq_ssl_crit_days req \<noteq> 0 then cq_ssl_crit_days req else mc_ssl_crit_days c),
     mc_enabled := (case cq_enabled req of None \<Rightarrow> mc_enabled c | Some b \<Rightarrow> b),
     mc_skip_tls_verify := (case cq_skip_tls_verify req of None \<Rightarrow> mc_skip_tls_verify c | Some b \<Rightarrow> b),
     mc_dns_record_type := (if cq_dns_record_type req \<noteq> [] then to_upper (cq_dns_record_type req)
                            else mc_dns_record_type c),
     mc_dns_expected_value := (if cq_dns_expected_value req \<noteq> [] then cq_dns_expected_value req
                               else mc_dns_expected_value c),
     mc_dns_resolver := (if cq_dns_resolver req \<noteq> [] then cq_dns_resolver req else mc_dns_resolver c)\<rparr>"

definition core_fields_changed :: "check_request \<Rightarrow> bool" where
  "core_fields_changed req =
     (cq_name req \<noteq> [] \<or> cq_type req \<noteq> [] \<or> cq_target req \<noteq> [] \<or> cq_interval_secs req \<noteq> 0)"

text \<open>What is validated again: only the four core fields of the merged check.\<close>

definition merged_request :: "monitor_check \<Rightarrow> check_request" where
  "merged_request c = \<lparr>cq_name = mc_name c, cq_type = mc_type c, cq_target = mc_target c,
     cq_interval_secs = mc_interval_secs c, cq_app_id = None, cq_expected_status = 0, cq_ssl_warn_days = 0,
     cq_ssl_crit_days = 0, cq_enabled = None, cq_skip_tls_verify = None, cq_dns_record_type = [],
     cq_dns_expected_value = [], cq_dns_resolver = []\<rparr>"

definition update_found ::
  "check_request option \<Rightarrow> scheduler option \<Rightarrow> monitor_check \<Rightarrow> db
     \<Rightarrow> monitor_check response \<times> scheduler option \<times> db" where
  "update_found body sch existing d1 =
     (case body of
        None \<Rightarrow> (Failed 400 ''invalid request body'', sch, d1)
      | Some req \<Rightarrow>
          (let c = merge_request req existing; msg = validate_check (merged_request c) in
           if core_fields_changed req \<and> msg \<noteq> [] then (Failed 400 msg, sch, d1)
           else (case check_update c d1 of
                   (Inl _, d2) \<Rightarrow> (Failed 500 ''database'', sch, d2)
                 | (Inr _, d2) \<Rightarrow>
                     (Answer 200 c, if cq_enabled req \<noteq> None then map_option trigger_sync sch else sch, d2))))"

definition checks_handler_update ::
  "string \<Rightarrow> check_request option \<Rightarrow> scheduler option \<Rightarrow> db \<Rightarrow> monitor_check response \<times> scheduler option \<times> db" where
  "checks_handler_update cid body sch = with_check cid (\<lambda>m t d. (Failed m t, sch, d)) (update_found body sch)"

definition delete_found :: "string \<Rightarrow> monitor_check \<Rightarrow> db \<Rightarrow> unit response \<times> db" where
  "delete_found cid c d1 =
     (if mc_source_component_id c \<noteq> None \<and> mc_source_component_id c \<noteq> Some [] then
        (Failed 409 ''check is managed by a Traefik component and cannot be deleted directly'', d1)
      else (case check_delete cid d1 of
              (Inl _, d2) \<Rightarrow> (Failed 500 ''database'', d2)
            | (Inr _, d2) \<Rightarrow> (Answer 204 (), d2)))"

definition checks_handler_delete :: "string \<Rightarrow> db \<Rightarrow> unit response \<times> db" where
  "checks_handler_delete cid = with_check cid (\<lambda>m t d. (Failed m t, d)) (delete_found cid)"

definition api_status_event :: "check_env \<Rightarrow> monitor_check \<Rightarrow> probe_result \<Rightarrow> event" where
  "api_status_event env c r = status_event env c (pr_checked_at r)
     (if pr_status r = ''down'' \<or> pr_status r = ''critical'' then ''error''
      else if pr_status r = ''warn'' then ''warn'' else ''info'')
     (mc_name c @ '' '' @ em_dash @ '' '' @ pr_status r) (pr_details r)"

definition run_found ::
  "check_env \<Rightarrow> network \<Rightarrow> string \<Rightarrow> monitor_check \<Rightarrow> db \<Rightarrow> probe_result response \<times> db" where
  "run_found env nw cid c d1 =
     (case run_check nw c of
        Inl msg \<Rightarrow> (Failed 500 msg, d1)
      | Inr result \<Rightarrow>
          (case check_update_status cid (pr_status result) (pr_details result) (pr_checked_at result) d1 of
             (Inl _, d2) \<Rightarrow> (Failed 500 ''database'', d2)
           | (Inr _, d2) \<Rightarrow>
               (Answer 200 result,
                if pr_status result \<noteq> mc_last_status c
                then db_ignore (event_create (api_status_event env c result) d2) else d2)))"

definition checks_handler_run ::
  "check_env \<Rightarrow> network \<Rightarrow> string \<Rightarrow> db \<Rightarrow> probe_result response \<times> db" where
  "checks_handler_run env nw cid = with_check cid (\<lambda>m t d. (Failed m t, d)) (run_found env nw cid)"

definition check_events_filter :: "string \<Rightarrow> list_filter" where
  "check_events_filter cid = \<lparr>lf_source_id = cid, lf_source_type = ''monitor_check'', lf_source_types = [],
     lf_source_name = [], lf_search = [], lf_level = [], lf_since = None, lf_until = None,
     lf_limit = 50, lf_offset = 0, lf_sort = []\<rparr>"

definition checks_handler_list_events :: "string \<Rightarrow> db \<Rightarrow> event list response \<times> db" where
  "checks_handler_list_events cid = with_check cid (\<lambda>m t d. (Failed m t, d))
     (\<lambda>c d1. case event_list (check_events_filter cid) d1 of
         (Inl _, d2) \<Rightarrow> (Failed 500 ''database'', d2)
       | (Inr (es, _), d2) \<Rightarrow> (Answer 200 es, d2))"

definition reset_to_baseline ::
  "check_env \<Rightarrow> monitor_check \<Rightarrow> probe_result \<Rightarrow> string \<Rightarrow> db \<Rightarrow> monitor_check response \<times> db" where
  "reset_to_baseline env c result baseline d1 =
     (case check_set_dns_baseline (mc_id c) baseline d1 of
        (Inl _, d2) \<Rightarrow> (Failed 500 ''database'', d2)
      | (Inr _, d2) \<Rightarrow>
          (let d3 = db_ignore (check_update_status (mc_id c) (pr_status result) (pr_details result) (cv_now env) d2) in
           case check_get (mc_id c) d3 of
             (Inl _, d4) \<Rightarrow> (Failed 500 ''database'', d4)
           | (Inr updated, d4) \<Rightarrow> (Answer 200 updated, d4)))"

definition reset_found ::
  "check_env \<Rightarrow> network \<Rightarrow> monitor_check \<Rightarrow> db \<Rightarrow> monitor_check response \<times> db" where
  "reset_found env nw c d1 =
     (if mc_type c \<noteq> ''dns'' then (Failed 400 ''reset-baseline is only valid for DNS checks'', d1)
      else (let result = run_dns (nw_dns nw) (nw_now nw) (nw_latency nw) (mc_target c)
                  (mc_dns_record_type c) [] (mc_dns_resolver c) in
        case cv_records env (pr_details result) of
          Some (baseline # _) \<Rightarrow> reset_to_baseline env c result baseline d1
        | _ \<Rightarrow> (Failed 502 (''DNS resolution failed '' @ em_dash @ '' could not capture a baseline''), d1)))"

definition checks_handler_reset_baseline ::
  "check_env \<Rightarrow> network \<Rightarrow> string \<Rightarrow> db \<Rightarrow> monitor_check response \<times> db" where
  "checks_handler_reset_baseline env nw cid = with_check cid (\<lambda>m t d. (Failed m t, d)) (reset_found env nw)"

section \<open>Lemmas and properties\<close>

lemma validate_check_ok:
  "validate_check req = [] \<longleftrightarrow>
     cq_name req \<noteq> [] \<and> cq_type req \<in> set check_types \<and> cq_target req \<noteq> [] \<and> 30 \<le> cq_interval_secs req
     \<and> (cq_type req \<in> {''url'', ''ssl''} \<longrightarrow> has_http_scheme (cq_target req))
     \<and> (cq_type req = ''dns'' \<longrightarrow> to_upper (cq_dns_record_type req) \<in> set valid_record_types)"
  by (auto simp: validate_check_def)

definition check_wf :: "monitor_check \<Rightarrow> bool" where
  "check_wf c = (mc_name c \<noteq> [] \<and> mc_type c \<in> set check_types \<and> mc_target c \<noteq> [] \<and> 30 \<le> mc_interval_secs c
     \<and> (mc_type c \<in> {''url'', ''ssl''} \<longrightarrow> has_http_scheme (mc_target c)))"

definition table_wf :: "monitor_check list \<Rightarrow> bool" where
  "table_wf cs = (distinct (map mc_id cs) \<and> list_all check_wf cs)"

lemma check_wf_core [simp]:
  "check_wf (set_check_status v r t c) = check_wf c"
  "check_wf (c\<lparr>mc_dns_expected_value := b\<rparr>) = check_wf c"
  "check_wf (new_check_row t c) = check_wf c"
  "check_wf (update_check_row c old) = check_wf c"
  by (simp_all add: check_wf_def set_check_status_def new_check_row_def update_check_row_def)

lemma table_wf_update:
  assumes "table_wf cs" and "\<And>x. P x \<Longrightarrow> mc_id (f x) = mc_id x" and "\<And>x. check_wf x \<Longrightarrow> check_wf (f x)"
  shows "table_wf (update_where P f cs)"
  using assms map_update_where [of P mc_id f cs] by (auto simp: table_wf_def list_all_iff set_update_where)

lemma table_wf_op:
  assumes "table_wf (d_checks d)" and "\<And>d. table_wf (d_checks d) \<Longrightarrow> table_wf (d_checks (snd (f d)))"
  shows "table_wf (d_checks (snd (db_op f d)))"
  by (rule db_op_invariant [of "\<lambda>d. table_wf (d_checks d)"]) (use assms in \<open>auto simp: fault_blind_def\<close>)

lemma check_get_state [simp]: "d_checks (snd (check_get cid d)) = d_checks d"
  by (auto simp: check_get_def db_op_def split: list.split option.split)

lemma check_get_found: "fst (check_get cid d) = Inr c \<Longrightarrow> c \<in> set (d_checks d) \<and> mc_id c = cid"
  by (auto simp: check_get_def db_op_def dest: lookup_row_Some split: list.splits option.splits if_splits)

lemma links_only [simp]:
  "d_checks (db_ignore (link_insert_ignore a b c e d)) = d_checks d"
  "d_checks (db_ignore (link_delete_parent a b d)) = d_checks d"
  by (auto simp: db_ignore_def link_insert_ignore_def link_delete_parent_def db_op_def split: list.split)

lemma event_only [simp]: "d_checks (db_ignore (event_create e d)) = d_checks d"
  by (simp add: db_ignore_def)

lemma status_wf: "table_wf (d_checks d) \<Longrightarrow> table_wf (d_checks (snd (check_update_status cid s r t d)))"
  unfolding check_update_status_def by (rule table_wf_op) (auto intro: table_wf_update)

lemma baseline_wf: "table_wf (d_checks d) \<Longrightarrow> table_wf (d_checks (snd (check_set_dns_baseline cid b d)))"
  unfolding check_set_dns_baseline_def by (rule table_wf_op) (auto intro: table_wf_update)

lemma delete_wf: "table_wf (d_checks d) \<Longrightarrow> table_wf (d_checks (snd (check_delete cid d)))"
  unfolding check_delete_def
  by (rule table_wf_op) (auto simp: table_wf_def distinct_map_filter_keep list_all_filter_keep)

lemma create_wf:
  assumes "table_wf (d_checks d)" and "check_wf c"
  shows "table_wf (d_checks (snd (check_create t c d)))"
proof -
  let ?op = "\<lambda>d. if check_insertable d c
      then (Inr (), d\<lparr>d_checks := d_checks d @ [new_check_row t c]\<rparr>) else (Inl DbFail, d)"
  have "mc_id (new_check_row t c) = mc_id c" by (simp add: new_check_row_def)
  then have "table_wf (d_checks (snd (db_op ?op d)))"
    using assms(2) by (intro table_wf_op [OF assms(1)]) (auto simp: table_wf_def check_insertable_def)
  moreover have "d_checks (snd (check_create t c d)) = d_checks (snd (db_op ?op d))"
    unfolding check_create_def by (cases "db_op ?op d"; cases "fst (db_op ?op d)") simp_all
  ultimately show ?thesis by simp
qed

lemma update_wf:
  assumes "table_wf (d_checks d)" and "check_wf c"
  shows "table_wf (d_checks (snd (check_update c d)))"
proof -
  let ?op = "\<lambda>d. if mc_id c \<notin> mc_id ` set (d_checks d) then (Inl NotFound, d)
          else if mc_type c \<notin> set check_types
                  \<or> (mc_app_id c \<noteq> [] \<and> mc_app_id c \<notin> ap_id ` set (d_apps d)) then (Inl DbFail, d)
          else (Inr (), d\<lparr>d_checks := update_where (\<lambda>x. mc_id x = mc_id c) (update_check_row c) (d_checks d)\<rparr>)"
  have "mc_id (update_check_row c x) = mc_id c" for x by (simp add: update_check_row_def)
  then have "table_wf (d_checks (snd (db_op ?op d)))"
    using assms(2) by (intro table_wf_op [OF assms(1)]) (auto intro!: table_wf_update)
  moreover have "d_checks (snd (check_update c d)) = d_checks (snd (db_op ?op d))"
    unfolding check_update_def Let_def by (cases "db_op ?op d"; cases "fst (db_op ?op d)") simp_all
  ultimately show ?thesis by simp
qed

lemma validated_wf: "validate_check (merged_request c) = [] \<Longrightarrow> check_wf c"
  by (auto simp: validate_check_ok merged_request_def check_wf_def)

lemma unchanged_core_wf: "\<not> core_fields_changed req \<Longrightarrow> check_wf c \<Longrightarrow> check_wf (merge_request req c)"
  by (simp add: core_fields_changed_def check_wf_def merge_request_def)

lemma request_check_wf: "validate_check req = [] \<Longrightarrow> check_wf (request_check cid now req)"
  by (auto simp: validate_check_ok request_check_def check_wf_def)

text \<open>A handler that looks the check up first: only the branch where it is found matters.\<close>

lemma with_check_wf:
  assumes "table_wf (d_checks d)" and "\<And>m t d. d_checks (proj (fail m t d)) = d_checks d"
    and "\<And>c d1. check_wf c \<Longrightarrow> table_wf (d_checks d1) \<Longrightarrow> table_wf (d_checks (proj (found c d1)))"
  shows "table_wf (d_checks (proj (with_check cid fail found d)))"
proof -
  obtain r d1 where get: "check_get cid d = (r, d1)" by fastforce
  then have d1: "d_checks d1 = d_checks d" using check_get_state [of cid d] by simp
  show ?thesis
  proof (cases r)
    case (Inl e)
    then show ?thesis using get d1 assms(1,2) by (cases e) (auto simp: with_check_def)
  next
    case (Inr c)
    then have "check_wf c" using get check_get_found [of cid d c] assms(1) by (auto simp: table_wf_def list_all_iff)
    then show ?thesis using assms(1,3) get Inr d1 by (simp add: with_check_def)
  qed
qed

lemma dns_baseline_wf:
  assumes "table_wf (d_checks d)"
  shows "table_wf (d_checks (snd (create_dns_baseline env nw c d)))"
proof -
  let ?res = "run_dns (nw_dns nw) (nw_now nw) (nw_latency nw) (mc_target c) (mc_dns_record_type c) [] (mc_dns_resolver c)"
  show ?thesis
  proof (cases "\<exists>r rs. cv_records env (pr_details ?res) = Some (r # rs)")
    case False
    then show ?thesis using assms by (auto simp: create_dns_baseline_def Let_def split: option.split list.split)
  next
    case True
    then obtain r rs where rec: "cv_records env (pr_details ?res) = Some (r # rs)" by blast
    let ?d2 = "db_ignore (check_update_status (mc_id c) (pr_status ?res) (pr_details ?res) (cv_now env)
        (db_ignore (check_set_dns_baseline (mc_id c) r d)))"
    have d2: "table_wf (d_checks ?d2)"
      using status_wf [OF baseline_wf [OF assms]] by (simp add: db_ignore_def)
    obtain q d3 where get: "check_get (mc_id c) ?d2 = (q, d3)" by fastforce
    then have "d_checks d3 = d_checks ?d2" using check_get_state [of "mc_id c" ?d2] by simp
    moreover have "snd (create_dns_baseline env nw c d) = d3"
      unfolding create_dns_baseline_def Let_def rec option.case list.case get by (cases q) simp_all
    ultimately show ?thesis using d2 by simp
  qed
qed

lemma handler_create_wf:
  assumes "table_wf (d_checks d)"
  shows "table_wf (d_checks (snd (checks_handler_create env nw cid dbnow body d)))"
proof (cases "\<exists>req. body = Some req \<and> validate_check req = []")
  case True
  then obtain req where req: "body = Some req" "validate_check req = []" by blast
  let ?c = "request_check cid (cv_now env) req"
  obtain r d1 where cr: "check_create dbnow ?c d = (r, d1)" by fastforce
  have d1: "table_wf (d_checks d1)"
    using create_wf [OF assms request_check_wf [OF req(2)], of dbnow cid "cv_now env"] cr by simp
  then show ?thesis
    using req dns_baseline_wf [OF d1, of env nw ?c] cr
    by (cases r) (auto simp: checks_handler_create_def Let_def split: prod.split)
next
  case False
  then show ?thesis using assms by (auto simp: checks_handler_create_def split: option.split)
qed

lemma update_found_wf:
  assumes "check_wf c" and d1: "table_wf (d_checks d1)"
  shows "table_wf (d_checks (snd (snd (update_found body sch c d1))))"
proof (cases body)
  case None
  then show ?thesis using d1 by (simp add: update_found_def)
next
  case (Some req)
  let ?c = "merge_request req c"
  show ?thesis
  proof (cases "core_fields_changed req \<and> validate_check (merged_request ?c) \<noteq> []")
    case True
    then show ?thesis using Some d1 by (simp add: update_found_def Let_def)
  next
    case False
    then have "check_wf ?c" using assms(1) unchanged_core_wf validated_wf by blast
    then have "table_wf (d_checks (snd (check_update ?c d1)))" using update_wf d1 by blast
    then show ?thesis using Some False
      by (cases "check_update ?c d1"; cases "fst (check_update ?c d1)") (auto simp: update_found_def Let_def)
  qed
qed

lemma delete_found_wf: "table_wf (d_checks d1) \<Longrightarrow> table_wf (d_checks (snd (delete_found cid c d1)))"
  using delete_wf [of d1 cid]
  by (cases "check_delete cid d1"; cases "fst (check_delete cid d1)") (auto simp: delete_found_def)

lemma run_found_wf:
  assumes "table_wf (d_checks d1)"
  shows "table_wf (d_checks (snd (run_found env nw cid c d1)))"
proof (cases "run_check nw c")
  case (Inr r)
  obtain q d2 where u: "check_update_status cid (pr_status r) (pr_details r) (pr_checked_at r) d1 = (q, d2)"
    by fastforce
  then have "table_wf (d_checks d2)" using status_wf [OF assms] by (metis snd_conv)
  then show ?thesis using u Inr by (cases q) (simp_all add: run_found_def)
qed (simp add: run_found_def assms)

lemma reset_to_baseline_wf:
  assumes d1: "table_wf (d_checks d1)"
  shows "table_wf (d_checks (snd (reset_to_baseline env c res b d1)))"
proof -
  obtain r d2 where set: "check_set_dns_baseline (mc_id c) b d1 = (r, d2)" by fastforce
  then have d2: "table_wf (d_checks d2)" using baseline_wf [OF d1, of "mc_id c" b] by simp
  let ?d3 = "db_ignore (check_update_status (mc_id c) (pr_status res) (pr_details res) (cv_now env) d2)"
  obtain q d4 where get: "check_get (mc_id c) ?d3 = (q, d4)" by fastforce
  then have "table_wf (d_checks d4)"
    using check_get_state [of "mc_id c" ?d3] status_wf [OF d2] by (simp add: db_ignore_def)
  then show ?thesis using set get d2 by (cases r; cases q) (simp_all add: reset_to_baseline_def Let_def)
qed

lemma reset_found_wf: "table_wf (d_checks d1) \<Longrightarrow> table_wf (d_checks (snd (reset_found env nw c d1)))"
  by (auto simp: reset_found_def Let_def reset_to_baseline_wf split: option.split list.split)

text \<open>C33: Whatever the requests and whatever statements fail, no handler of the checks API breaks the
  table: ids stay unique, and every check keeps a name, a known type, a target (an http or https
  URL for url and ssl checks) and an interval of at least 30 seconds.\<close>

theorem checks_api_keeps_wf:
  assumes "table_wf (d_checks d)"
  shows "table_wf (d_checks (snd (checks_handler_create env nw cid dbnow body d)))
    \<and> table_wf (d_checks (snd (snd (checks_handler_update cid body sch d))))
    \<and> table_wf (d_checks (snd (checks_handler_delete cid d)))
    \<and> table_wf (d_checks (snd (checks_handler_run env nw cid d)))
    \<and> table_wf (d_checks (snd (checks_handler_reset_baseline env nw cid d)))"
  unfolding checks_handler_update_def checks_handler_delete_def checks_handler_run_def
    checks_handler_reset_baseline_def
  by (intro conjI handler_create_wf with_check_wf [where proj = snd]
      with_check_wf [where proj = "\<lambda>x. snd (snd x)"] assms)
    (simp_all add: update_found_wf delete_found_wf run_found_wf reset_found_wf)

definition sample_dns_request :: check_request where
  "sample_dns_request = \<lparr>cq_name = ''dns'', cq_type = ''dns'', cq_target = ''h'', cq_interval_secs = 60,
     cq_app_id = None, cq_expected_status = 0, cq_ssl_warn_days = 0, cq_ssl_crit_days = 0, cq_enabled = None,
     cq_skip_tls_verify = None, cq_dns_record_type = ''a'', cq_dns_expected_value = ''5.6.7.8'',
     cq_dns_resolver = []\<rparr>"

definition sample_network :: network where
  "sample_network = \<lparr>nw_now = 0, nw_now2 = 0, nw_latency = 5, nw_ping = (\<lambda>_. True),
     nw_http = (\<lambda>_ _. ProbeStatus 200), nw_tls = (\<lambda>_. TlsNotTls), nw_dns = sample_net,
     nw_tf = \<lparr>tf_rfc3339 = (\<lambda>_. []), tf_json = (\<lambda>_. [])\<rparr>\<rparr>"

theorem checks_api_keeps_wf_witness:
  "table_wf (d_checks (snd (checks_handler_create sample_check_env sample_network ''c1'' 0
     (Some sample_dns_request) empty_db)))"
  by (rule checks_api_keeps_wf [THEN conjunct1]) (simp add: empty_db_def table_wf_def)

text \<open>The value a request expects of a DNS check is replaced by whatever the name resolves to at
  creation time, and the check is reported up.\<close>

theorem create_overwrites_dns_expectation:
  "case checks_handler_create sample_check_env sample_network ''c1'' 0 (Some sample_dns_request) empty_db of
     (Answer code c, d) \<Rightarrow> code = 201 \<and> mc_dns_expected_value c = ''1.2.3.4'' \<and> mc_last_status c = ''up''
   | (Failed _ _, d) \<Rightarrow> False"
proof -
  have up: "to_upper ''a'' = ''A''" by code_simp
  have valid: "validate_check sample_dns_request = []"
    by (simp add: validate_check_def sample_dns_request_def check_types_def valid_record_types_def up)
  let ?c = "request_check ''c1'' 0 sample_dns_request"
  have ty: "mc_type ?c = ''dns''" "mc_id ?c = ''c1''" "mc_dns_record_type ?c = ''A''"
    by (simp_all add: request_check_def sample_dns_request_def up)
  have cr: "check_create 0 ?c empty_db = (Inr (), empty_db\<lparr>d_checks := [new_check_row 0 ?c]\<rparr>)"
    by (simp add: check_create_def check_insertable_def empty_db_def request_check_def
        sample_dns_request_def check_types_def)
  have upA: "to_upper ''A'' = ''A''" by (simp add: to_upper_def upper_char_def)
  have st: "pr_status (run_dns sample_net now l t ''A'' [] r) = ''up''" for now l t r
    by (simp add: run_dns_def sample_net_def dns_lookup_def upA)
  have id: "mc_id (new_check_row 0 ?c) = ''c1''" by (simp add: new_check_row_def ty)
  have fld: "mc_dns_expected_value (set_check_status a b t x) = mc_dns_expected_value x"
    "mc_last_status (set_check_status a b t x) = a" for a b t x
    by (simp_all add: set_check_status_def)
  have env: "cv_now sample_check_env = 0" "cv_records sample_check_env x = Some [''1.2.3.4'']" for x
    by (simp_all add: sample_check_env_def)
  have nw: "nw_dns sample_network = sample_net" by (simp add: sample_network_def)
  have nf: "d_faults empty_db = []" by (simp add: empty_db_def)
  show ?thesis
    by (simp add: checks_handler_create_def valid env cr ty create_dns_baseline_def nw st nf Let_def
        check_set_dns_baseline_def check_update_status_def check_get_def update_where_def id fld)
qed

text \<open>An update may set any record type: only the four core fields are validated again.\<close>

theorem update_accepts_bad_record_type:
  "validate_check (sample_dns_request\<lparr>cq_dns_record_type := ''SRV''\<rparr>) \<noteq> []
   \<and> validate_check (merged_request (merge_request (sample_dns_request\<lparr>cq_dns_record_type := ''SRV''\<rparr>)
        (request_check ''c1'' 0 sample_dns_request))) = []"
  by (simp add: validate_check_def merged_request_def merge_request_def sample_dns_request_def
      request_check_def check_types_def valid_record_types_def to_upper_def upper_char_def)

end
