(* ===== verification/Thresholds.thy ===== *)
theory Thresholds
  imports Complex_Main Events
begin

text \<open>
  Metric thresholds and container health: internal/scanner/metrics/events.go and docker_health.go.

  Both remember the last state per key and write an event on a transition only. What they have in
  common is the locale \<open>transition_detector\<close>: whatever readings of other keys come in between, the
  events of a key are those of its own consecutive readings.
\<close>

section \<open>Transition detectors\<close>

fun emits_along :: "('v option \<Rightarrow> 'v \<Rightarrow> 'e list) \<Rightarrow> 'v option \<Rightarrow> 'v list \<Rightarrow> 'e list" where
  "emits_along emit prev [] = []"
| "emits_along emit prev (v # vs) = emit prev v @ emits_along emit (Some v) vs"

fun run_detector ::
  "('k \<Rightarrow> 'v \<Rightarrow> ('k \<rightharpoonup> 'v) \<Rightarrow> 'e list \<times> ('k \<rightharpoonup> 'v)) \<Rightarrow> ('k \<times> 'v) list \<Rightarrow> ('k \<rightharpoonup> 'v) \<Rightarrow> ('k \<times> 'e) list"
where
  "run_detector step [] m = []"
| "run_detector step ((k, v) # rs) m =
     map (Pair k) (fst (step k v m)) @ run_detector step rs (snd (step k v m))"

locale transition_detector =
  fixes step :: "'k \<Rightarrow> 'v \<Rightarrow> ('k \<rightharpoonup> 'v) \<Rightarrow> 'e list \<times> ('k \<rightharpoonup> 'v)"
    and emit :: "'v option \<Rightarrow> 'v \<Rightarrow> 'e list"
  assumes step_emits: "fst (step k v m) = emit (m k) v"
    and step_stores: "snd (step k v m) = m(k \<mapsto> v)"
begin

lemma events_of_key:
  "map snd (filter (\<lambda>(j, e). j = k) (run_detector step rs m))
     = emits_along emit (m k) (map snd (filter (\<lambda>(j, v). j = k) rs))"
proof (induction rs arbitrary: m)
  case Nil
  then show ?case by simp
next
  case (Cons r rs)
  obtain j v where r: "r = (j, v)" by fastforce
  have own: "map snd (filter (\<lambda>(i, e). i = k) (map (Pair j) es)) = (if j = k then es else [])"
    for es :: "'e list"
    by (induction es) auto
  have tail: "map snd (filter (\<lambda>(j, e). j = k) (run_detector step rs (m(j \<mapsto> v))))
      = emits_along emit ((m(j \<mapsto> v)) k) (map snd (filter (\<lambda>(j, v). j = k) rs))"
    by (rule Cons.IH)
  show ?case
    using tail own [of "emit (m j) v"] by (cases "j = k") (simp_all add: r step_emits step_stores)
qed

end

section \<open>events.go: threshold levels\<close>

datatype threshold_level = LevelNormal | LevelWarn | LevelError

text \<open>The levels are ordered as the \<open>iota\<close> constants are.\<close>

fun level_index :: "threshold_level \<Rightarrow> nat" where
  "level_index LevelNormal = 0"
| "level_index LevelWarn = 1"
| "level_index LevelError = 2"

instantiation threshold_level :: linorder
begin

definition less_eq_threshold_level :: "threshold_level \<Rightarrow> threshold_level \<Rightarrow> bool" where
  "less_eq_threshold_level a b = (level_index a \<le> level_index b)"

definition less_threshold_level :: "threshold_level \<Rightarrow> threshold_level \<Rightarrow> bool" where
  "less_threshold_level a b = (level_index a < level_index b)"

instance
proof
  fix a b c :: threshold_level
  show "a < b \<longleftrightarrow> a \<le> b \<and> \<not> b \<le> a"
    by (auto simp: less_eq_threshold_level_def less_threshold_level_def)
  show "a \<le> a" by (simp add: less_eq_threshold_level_def)
  show "a \<le> b \<Longrightarrow> b \<le> c \<Longrightarrow> a \<le> c" by (simp add: less_eq_threshold_level_def)
  show "a \<le> b \<Longrightarrow> b \<le> a \<Longrightarrow> a = b"
    by (cases a; cases b) (auto simp: less_eq_threshold_level_def)
  show "a \<le> b \<or> b \<le> a" by (auto simp: less_eq_threshold_level_def)
qed

end

text \<open>Readings are float64 values; finite ones are rationals.\<close>

definition cpu_threshold :: "rat \<Rightarrow> threshold_level" where
  "cpu_threshold pct = (if pct > 90 then LevelWarn else LevelNormal)"

definition mem_threshold :: "rat \<Rightarrow> threshold_level" where
  "mem_threshold pct = (if pct > 90 then LevelWarn else LevelNormal)"

definition temp_threshold :: "rat \<Rightarrow> threshold_level" where
  "temp_threshold t = (if t > 90 then LevelError else if t > 80 then LevelWarn else LevelNormal)"

section \<open>events.go: the tracker\<close>

type_synonym tracker = "string \<rightharpoonup> threshold_level"


definition tracker_key :: "string \<Rightarrow> string \<Rightarrow> string" where
  "tracker_key entity_id metric = entity_id @ ''/'' @ metric"

definition tracker_load :: "tracker \<Rightarrow> string \<Rightarrow> threshold_level" where
  "tracker_load t k = (case t k of Some l \<Rightarrow> l | None \<Rightarrow> LevelNormal)"

definition tracker_step :: "string \<Rightarrow> threshold_level \<Rightarrow> tracker \<Rightarrow> threshold_level list \<times> tracker" where
  "tracker_step k current t =
     (if current = tracker_load t k then [] else [current], t(k \<mapsto> current))"

record metric_source =
  ms_entity_id :: string
  ms_entity_name :: string
  ms_source_type :: string
  ms_metric :: string

definition threshold_event_level :: "threshold_level \<Rightarrow> string" where
  "threshold_event_level l = (case l of LevelError \<Rightarrow> ''error'' | LevelWarn \<Rightarrow> ''warn'' | LevelNormal \<Rightarrow> ''info'')"

definition metrics_event ::
  "string \<Rightarrow> go_time \<Rightarrow> metric_source \<Rightarrow> string \<Rightarrow> string \<Rightarrow> event" where
  "metrics_event uuid now s level title =
     \<lparr>ev_id = uuid, ev_level = level, ev_source_name = ms_entity_name s, ev_source_type = ms_source_type s,
      ev_source_id = ms_entity_id s, ev_title = title,
      ev_payload = ''{'' @ json_quote ''bucket'' @ '':'' @ json_quote ''metrics'' @ '','' @ json_quote ''source_id''
        @ '':'' @ go_quote (ms_entity_id s) @ '','' @ json_quote ''source_name'' @ '':''
        @ go_quote (ms_entity_name s) @ ''}'',
      ev_created_at = now\<rparr>"

definition check_and_fire ::
  "string \<Rightarrow> go_time \<Rightarrow> metric_source \<Rightarrow> threshold_level \<Rightarrow> (threshold_level \<Rightarrow> string) \<Rightarrow> tracker \<Rightarrow> db
     \<Rightarrow> threshold_level \<times> tracker \<times> db"
where
  "check_and_fire uuid now s current event_title t d =
     (case tracker_step (tracker_key (ms_entity_id s) (ms_metric s)) current t of
        (changes, t2) \<Rightarrow>
          (current, t2,
           post_all event_create
             (map (\<lambda>l. metrics_event uuid now s (threshold_event_level l) (event_title l)) changes) d))"




text \<open>Two metrics share a key only when an entity id contains a slash.\<close>

lemma tracker_key_inj:
  assumes "CHR ''/'' \<notin> set e1" and "CHR ''/'' \<notin> set e2" and "tracker_key e1 m1 = tracker_key e2 m2"
  shows "e1 = e2 \<and> m1 = m2"
  using assms unfolding tracker_key_def
  by (metis append_Cons append_Nil option.inject prod.inject split_first_append)

text \<open>What reaches the database is one event per reading at most, and only on a change.\<close>

lemma check_and_fire_rows:
  "check_and_fire uuid now s current title t d = (l, t2, d2) \<Longrightarrow>
     l = current \<and> t2 = t(tracker_key (ms_entity_id s) (ms_metric s) \<mapsto> current)
     \<and> (\<exists>es. d_events d2 = d_events d @ es \<and> length es \<le> 1
          \<and> (current = tracker_load t (tracker_key (ms_entity_id s) (ms_metric s)) \<longrightarrow> es = []))"
  using stored_events.post_all_rows [of "map (\<lambda>l. metrics_event uuid now s (threshold_event_level l) (title l))
      (fst (tracker_step (tracker_key (ms_entity_id s) (ms_metric s)) current t))" d]
  by (auto simp: check_and_fire_def tracker_step_def split: if_splits dest: list_emb_length)

text \<open>A hotter reading never has a lower level: for CPU, memory and temperature the thresholds are
  monotone in the reading.\<close>

theorem thresholds_monotone:
  assumes "a \<le> b"
  shows "cpu_threshold a \<le> cpu_threshold b \<and> mem_threshold a \<le> mem_threshold b
    \<and> temp_threshold a \<le> temp_threshold b"
  using assms
  by (auto simp: cpu_threshold_def mem_threshold_def temp_threshold_def less_eq_threshold_level_def)

theorem thresholds_monotone_witness:
  "temp_threshold 85 \<le> temp_threshold 91 \<and> temp_threshold 85 = LevelWarn"
  using thresholds_monotone [of 85 91] by (simp add: temp_threshold_def)

text \<open>Readings taken one after the other, and what they add to the database.\<close>

type_synonym reading = "string \<times> go_time \<times> metric_source \<times> threshold_level \<times> (threshold_level \<Rightarrow> string)"


definition reading_step :: "reading \<Rightarrow> string \<times> threshold_level" where
  "reading_step r = (case r of (uuid, now, s, current, title) \<Rightarrow> (tracker_key (ms_entity_id s) (ms_metric s), current))"


lemma reading_step_simp [simp]:
  "reading_step (uuid, now, s, current, title) = (tracker_key (ms_entity_id s) (ms_metric s), current)"
  by (simp add: reading_step_def)

lemma metrics_event_fields [simp]:
  "ev_level (metrics_event uuid now s level title) = level"
  "ev_id (metrics_event uuid now s level title) = uuid"
  by (simp_all add: metrics_event_def)








section \<open>docker_health.go\<close>

text \<open>What the Docker daemon says of a container: the list's first name, and the inspection (\<open>None\<close>
  when it fails): its own name, its health status when it has a health check, and the output of the
  last probe.\<close>

record inspected =
  in_name :: string
  in_health :: "(string \<times> string list) option"

record docker_summary =
  ds_id :: string
  ds_names :: "string list"
  ds_inspect :: "inspected option"

type_synonym health_states = "string \<rightharpoonup> string"

definition health_emit :: "string option \<Rightarrow> string \<Rightarrow> string list" where
  "health_emit prev status =
     (case prev of
        None \<Rightarrow> []
      | Some p \<Rightarrow>
          (if p = status \<or> p = [] then []
           else if status = ''unhealthy'' then [''error'']
           else if status = ''healthy'' \<and> p = ''unhealthy'' then [''info'']
           else []))"

definition health_step :: "string \<Rightarrow> string \<Rightarrow> health_states \<Rightarrow> string list \<times> health_states" where
  "health_step cid status m = (health_emit (m cid) status, m(cid \<mapsto> status))"

definition health_json_str :: "string \<Rightarrow> string" where
  "health_json_str s = [CHR 0x22]
     @ replace_all [CHR 0x22] [CHR 0x5C, CHR 0x22] (replace_all [CHR 0x5C] [CHR 0x5C, CHR 0x5C] s)
     @ [CHR 0x22]"

text \<open>\<open>findAppID\<close>: an app of the container's name, letters regardless of case.\<close>

definition app_list :: "db \<Rightarrow> app_row list db_result" where
  "app_list = db_query (\<lambda>d. order_asc ap_created_at (d_apps d))"

definition find_app_id :: "string \<Rightarrow> db \<Rightarrow> string \<times> db" where
  "find_app_id container d0 = (case app_list d0 of
       (Inl _, d1) \<Rightarrow> ([], d1)
     | (Inr apps, d1) \<Rightarrow>
         (case List.find (\<lambda>a. equal_fold (ap_name a) container) apps of
            Some a \<Rightarrow> (ap_id a, d1) | None \<Rightarrow> ([], d1)))"

definition health_event ::
  "string \<Rightarrow> go_time \<Rightarrow> string \<Rightarrow> string \<Rightarrow> string \<Rightarrow> string list \<Rightarrow> string \<Rightarrow> event" where
  "health_event uuid now app_id name severity log_outputs title =
     \<lparr>ev_id = uuid, ev_level = severity, ev_source_name = name,
      ev_source_type = (if app_id \<noteq> [] then ''app'' else ''docker_engine''), ev_source_id = app_id,
      ev_title = title,
      ev_payload = ''{'' @ json_quote ''source_type'' @ '':'' @ json_quote ''docker_health'' @ '',''
        @ json_quote ''container_name'' @ '':'' @ health_json_str name
        @ (if log_outputs = [] then []
           else '','' @ json_quote ''health_output'' @ '':'' @ health_json_str (last log_outputs))
        @ ''}'',
      ev_created_at = now\<rparr>"

definition emit_health_event ::
  "string \<Rightarrow> go_time \<Rightarrow> string \<Rightarrow> string list \<Rightarrow> string \<Rightarrow> db \<Rightarrow> db" where
  "emit_health_event uuid now name log_outputs severity d0 =
     (case find_app_id name d0 of (app_id, d1) \<Rightarrow>
        db_ignore (event_create
          (if severity = ''error''
           then health_event uuid now app_id name severity log_outputs (''Container unhealthy '' @ em_dash @ '' '' @ name)
           else health_event uuid now app_id name severity [] (''Container healthy '' @ em_dash @ '' '' @ name)) d1))"

definition process_inspect ::
  "string \<Rightarrow> go_time \<Rightarrow> string \<Rightarrow> string \<Rightarrow> inspected \<Rightarrow> health_states \<Rightarrow> db \<Rightarrow> health_states \<times> db" where
  "process_inspect uuid now cid name info m d =
     (case in_health info of
        None \<Rightarrow> (m, d)
      | Some (status, outputs) \<Rightarrow>
          (if status = [] then (m, d)
           else (case health_step cid status m of (levels, m2) \<Rightarrow>
                   (m2, foldl (\<lambda>d severity. emit_health_event uuid now name outputs severity d) d levels))))"

definition summary_name :: "docker_summary \<Rightarrow> inspected \<Rightarrow> string" where
  "summary_name c info =
     (let name = (case ds_names c of [] \<Rightarrow> [] | n # _ \<Rightarrow> trim_prefix n ''/'') in
      if name = [] then trim_prefix (in_name info) ''/'' else name)"

fun health_poll ::
  "(string \<Rightarrow> string) \<Rightarrow> go_time \<Rightarrow> docker_summary list \<Rightarrow> health_states \<Rightarrow> db \<Rightarrow> health_states \<times> db"
where
  "health_poll uuid now [] m d = (m, d)"
| "health_poll uuid now (c # cs) m d =
     (case ds_inspect c of
        None \<Rightarrow> health_poll uuid now cs m d
      | Some info \<Rightarrow>
          (case process_inspect (uuid (ds_id c)) now (ds_id c) (summary_name c info) info m d of
             (m2, d2) \<Rightarrow> health_poll uuid now cs m2 d2))"

definition health_run ::
  "(string \<Rightarrow> string) \<Rightarrow> go_time \<Rightarrow> docker_summary list option \<Rightarrow> health_states \<Rightarrow> db \<Rightarrow> health_states \<times> db" where
  "health_run uuid now listing m d =
     (case listing of None \<Rightarrow> (m, d) | Some cs \<Rightarrow> health_poll uuid now cs m d)"

definition check_container ::
  "string \<Rightarrow> go_time \<Rightarrow> string \<Rightarrow> inspected option \<Rightarrow> health_states \<Rightarrow> db \<Rightarrow> health_states \<times> db" where
  "check_container uuid now cid inspection m d =
     (case inspection of
        None \<Rightarrow> (m, d)
      | Some info \<Rightarrow> process_inspect uuid now cid (trim_prefix (in_name info) ''/'') info m d)"

interpretation health_detector: transition_detector health_step health_emit
  by unfold_locales (auto simp: health_step_def)

text \<open>A container that restarts its health check on the way back never reports its recovery.\<close>

theorem recovery_through_starting_is_silent:
  "emits_along health_emit None [''healthy'', ''unhealthy'', ''starting'', ''healthy''] = [''error'']"
  by (simp add: health_emit_def)

text \<open>Inspections one after the other, from the poll and from the container events alike.\<close>

type_synonym inspection = "string \<times> go_time \<times> string \<times> string \<times> inspected"

fun run_inspections :: "inspection list \<Rightarrow> health_states \<Rightarrow> db \<Rightarrow> health_states \<times> db" where
  "run_inspections [] m d = (m, d)"
| "run_inspections ((uuid, now, cid, name, info) # rs) m d =
     (case process_inspect uuid now cid name info m d of (m2, d2) \<Rightarrow> run_inspections rs m2 d2)"

text \<open>The health states they show; containers without a health check show none.\<close>

definition health_reading :: "inspection \<Rightarrow> (string \<times> string) list" where
  "health_reading r = (case r of (uuid, now, cid, name, info) \<Rightarrow>
     (case in_health info of None \<Rightarrow> [] | Some (status, outputs) \<Rightarrow> if status = [] then [] else [(cid, status)]))"

lemma health_event_fields [simp]:
  "ev_id (health_event uuid now a name severity outputs title) = uuid"
  "ev_level (health_event uuid now a name severity outputs title) = severity"
  by (simp_all add: health_event_def)

lemma health_event_row_ok:
  "severity \<in> {''error'', ''info''} \<Longrightarrow> event_row_ok (health_event uuid now a name severity outputs title)"
  by (auto simp: event_row_ok_def health_event_def event_levels_def event_source_types_def)

lemma find_app_id_no_fault: "d_faults d = [] \<Longrightarrow> \<exists>a. find_app_id name d = (a, d)"
  by (auto simp: find_app_id_def app_list_def split: option.split)

lemma emit_health_event_no_fault:
  assumes "d_faults d = []" and "uuid \<notin> ev_id ` set (d_events d)" and "severity \<in> {''error'', ''info''}"
  shows "\<exists>e. emit_health_event uuid now name outputs severity d = d\<lparr>d_events := d_events d @ [e]\<rparr>
    \<and> ev_id e = uuid \<and> ev_level e = severity"
proof -
  obtain a where a: "find_app_id name d = (a, d)"
    using find_app_id_no_fault [OF assms(1)] by blast
  show ?thesis
    using assms health_event_row_ok [OF assms(3), of uuid now a name]
    by (auto simp: emit_health_event_def a event_create_no_fault event_insertable_def)
qed

lemma health_emit_cases: "health_emit p s = [] \<or> health_emit p s = [''error''] \<or> health_emit p s = [''info'']"
  by (simp add: health_emit_def split: option.split)

lemma process_inspect_no_fault:
  assumes "d_faults d = []" and "uuid \<notin> ev_id ` set (d_events d)"
  shows "\<exists>es m2. process_inspect uuid now cid name info m d = (m2, d\<lparr>d_events := d_events d @ es\<rparr>)
    \<and> ev_id ` set es \<subseteq> {uuid}
    \<and> (\<forall>rs. run_detector health_step (health_reading (uuid, now, cid, name, info) @ rs) m
          = map (\<lambda>e. (cid, ev_level e)) es @ run_detector health_step rs m2)"
proof (cases "health_reading (uuid, now, cid, name, info)")
  case Nil
  then have "process_inspect uuid now cid name info m d = (m, d)"
    by (auto simp: process_inspect_def health_reading_def split: option.splits if_splits)
  with Nil show ?thesis by (intro exI [of _ "[]"] exI [of _ m]) simp
next
  case (Cons r rs)
  then obtain status outputs where info: "in_health info = Some (status, outputs)" "status \<noteq> []"
    and r: "health_reading (uuid, now, cid, name, info) = [(cid, status)]"
    by (auto simp: health_reading_def split: option.splits if_splits)
  let ?m = "m(cid \<mapsto> status)"
  have run: "process_inspect uuid now cid name info m d
      = (?m, foldl (\<lambda>d severity. emit_health_event uuid now name outputs severity d) d (health_emit (m cid) status))"
    by (simp add: process_inspect_def info health_step_def)
  from health_emit_cases [of "m cid" status]
  consider "health_emit (m cid) status = []"
    | sev where "health_emit (m cid) status = [sev]" "sev \<in> {''error'', ''info''}"
    by blast
  then show ?thesis
  proof cases
    case 1
    then show ?thesis
      by (intro exI [of _ "[]"] exI [of _ ?m]) (simp add: run r health_step_def)
  next
    case (2 sev)
    obtain e where e: "emit_health_event uuid now name outputs sev d = d\<lparr>d_events := d_events d @ [e]\<rparr>"
      "ev_id e = uuid" "ev_level e = sev"
      using emit_health_event_no_fault [OF assms 2(2), of now name outputs] by blast
    show ?thesis
      by (intro exI [of _ "[e]"] exI [of _ ?m]) (simp add: run r 2(1) e health_step_def)
  qed
qed

lemma run_inspections_events:
  assumes "d_faults d = []" and "distinct (map fst rs)" and "fst ` set rs \<inter> ev_id ` set (d_events d) = {}"
  shows "\<exists>es. d_events (snd (run_inspections rs m d)) = d_events d @ es
    \<and> map ev_level es = map snd (run_detector health_step (concat (map health_reading rs)) m)"
  using assms
proof (induction rs arbitrary: m d)
  case Nil
  then show ?case by simp
next
  case (Cons r rs)
  obtain uuid now cid name info where r: "r = (uuid, now, cid, name, info)" by (cases r)
  obtain es m2 where step: "process_inspect uuid now cid name info m d = (m2, d\<lparr>d_events := d_events d @ es\<rparr>)"
    and ids: "ev_id ` set es \<subseteq> {uuid}"
    and det: "\<forall>rs. run_detector health_step (health_reading (uuid, now, cid, name, info) @ rs) m
          = map (\<lambda>e. (cid, ev_level e)) es @ run_detector health_step rs m2"
    using process_inspect_no_fault [of d uuid now cid name info m] Cons.prems by (auto simp: r)
  have "\<exists>es2. d_events (snd (run_inspections rs m2 (d\<lparr>d_events := d_events d @ es\<rparr>)))
        = d_events (d\<lparr>d_events := d_events d @ es\<rparr>) @ es2
      \<and> map ev_level es2 = map snd (run_detector health_step (concat (map health_reading rs)) m2)"
    by (rule Cons.IH) (use Cons.prems ids in \<open>auto simp: r\<close>)
  then obtain es2 where "d_events (snd (run_inspections rs m2 (d\<lparr>d_events := d_events d @ es\<rparr>))) = (d_events d @ es) @ es2"
      "map ev_level es2 = map snd (run_detector health_step (concat (map health_reading rs)) m2)"
    by auto
  then show ?case
    by (intro exI [of _ "es @ es2"]) (simp add: r step det comp_def)
qed

text \<open>Inspections one after the other write one event per transition the poller reports, and for
  every container these come from its own consecutive health states: an error each time it becomes
  unhealthy after another known state, an information when it goes directly from unhealthy to
  healthy, nothing on the first sight of it and nothing while it stays.\<close>

theorem health_events_of_container:
  assumes "d_faults d = []" and "distinct (map fst rs)" and "fst ` set rs \<inter> ev_id ` set (d_events d) = {}"
  shows "\<exists>es transitions. d_events (snd (run_inspections rs Map.empty d)) = d_events d @ es
    \<and> map ev_level es = map snd transitions
    \<and> (\<forall>cid. map snd (filter (\<lambda>(j, l). j = cid) transitions)
          = emits_along health_emit None (map snd (filter (\<lambda>(j, s). j = cid) (concat (map health_reading rs)))))"
proof -
  have "map snd (filter (\<lambda>(j, l). j = cid) (run_detector health_step (concat (map health_reading rs)) Map.empty))
      = emits_along health_emit None (map snd (filter (\<lambda>(j, s). j = cid) (concat (map health_reading rs))))" for cid
    using health_detector.events_of_key [of cid "concat (map health_reading rs)" Map.empty] by simp
  with run_inspections_events [OF assms, of Map.empty] show ?thesis by blast
qed

definition sample_inspections :: "inspection list" where
  "sample_inspections =
     [(''u1'', 0, ''c1'', ''sonarr'', \<lparr>in_name = ''/sonarr'', in_health = Some (''healthy'', [])\<rparr>),
      (''u2'', 60, ''c1'', ''sonarr'', \<lparr>in_name = ''/sonarr'', in_health = Some (''unhealthy'', [''timeout''])\<rparr>)]"

theorem health_events_of_container_witness:
  "\<exists>es. d_events (snd (run_inspections sample_inspections Map.empty empty_db)) = es
     \<and> map ev_level es = [''error'']"
proof -
  have "d_faults empty_db = []" "distinct (map fst sample_inspections)"
    "fst ` set sample_inspections \<inter> ev_id ` set (d_events empty_db) = {}"
    by (simp_all add: empty_db_def sample_inspections_def)
  from health_events_of_container [OF this] obtain es transitions
    where es: "d_events (snd (run_inspections sample_inspections Map.empty empty_db)) = d_events empty_db @ es"
      "map ev_level es = map snd transitions"
      and own: "\<forall>cid. map snd (filter (\<lambda>(j, l). j = cid) transitions) = emits_along health_emit None
            (map snd (filter (\<lambda>(j, s). j = cid) (concat (map health_reading sample_inspections))))"
    by blast
  have one: "emits_along health_emit None
      (map snd (filter (\<lambda>(j, s). j = ''c1'') (concat (map health_reading sample_inspections)))) = [''error'']"
    by (simp add: sample_inspections_def health_reading_def health_emit_def)
  have none: "cid \<noteq> ''c1'' \<Longrightarrow> emits_along health_emit None
      (map snd (filter (\<lambda>(j, s). j = cid) (concat (map health_reading sample_inspections)))) = []" for cid
    by (auto simp: sample_inspections_def health_reading_def)
  have "\<forall>x \<in> set transitions. fst x = ''c1''"
  proof
    fix x assume x: "x \<in> set transitions"
    show "fst x = ''c1''"
    proof (rule ccontr)
      assume "fst x \<noteq> ''c1''"
      with own none [of "fst x"] have "map snd (filter (\<lambda>(j, l). j = fst x) transitions) = []" by simp
      with x show False by (auto simp: filter_empty_conv)
    qed
  qed
  then have "filter (\<lambda>(j, l). j = ''c1'') transitions = transitions"
    by (induction transitions) auto
  with own one have "map snd transitions = [''error'']" by metis
  moreover have "d_events empty_db = []" by (simp add: empty_db_def)
  ultimately show ?thesis using es by (metis append_Nil)
qed

end
