(* ===== verification/Snapshots.thy ===== *)
theory Snapshots
  imports Thresholds Checks
begin

text \<open>
  Condition snapshots: internal/repo/snapshots.go, internal/scanner/snapshot/events.go and ssl.go.

  A snapshot row records the value of one metric of one entity. \<open>captureSnapshot\<close> compares with the
  latest row, adds a new one and keeps the newest 48. Seen from outside the table is a map from
  (entity, metric) to the last value (\<open>last_value\<close>): the lemma \<open>capture_refines\<close> says so, and the
  scanners reason over that map. Identifiers are drawn from the function \<open>sv_uuid\<close> of the entity and
  the purpose. A float64 percentage is a rational here, and \<open>%.1f\<close> and \<open>%.2f\<close> round it to the nearest
  decimal, ties to even, as strconv does.
\<close>

section \<open>Repository\<close>

definition of_key :: "string \<Rightarrow> string \<Rightarrow> snapshot \<Rightarrow> bool" where
  "of_key eid mk s = (sn_entity_id s = eid \<and> sn_metric_key s = mk)"

definition newest_first :: "string \<Rightarrow> string \<Rightarrow> snapshot list \<Rightarrow> snapshot list" where
  "newest_first eid mk ss = order_desc sn_captured_at (filter (of_key eid mk) ss)"

definition snapshot_get_latest :: "string \<Rightarrow> string \<Rightarrow> db \<Rightarrow> snapshot db_result" where
  "snapshot_get_latest eid mk = db_op (\<lambda>d. case newest_first eid mk (d_snapshots d) of
       [] \<Rightarrow> (Inl NotFound, d) | s # _ \<Rightarrow> (Inr s, d))"

definition snapshot_insert :: "snapshot \<Rightarrow> db \<Rightarrow> unit db_result" where
  "snapshot_insert s = db_op (\<lambda>d. if sn_id s \<in> sn_id ` set (d_snapshots d) then (Inl DbFail, d)
     else (Inr (), d\<lparr>d_snapshots := d_snapshots d @ [s]\<rparr>))"

definition prune_rows :: "string \<Rightarrow> string \<Rightarrow> nat \<Rightarrow> snapshot list \<Rightarrow> snapshot list" where
  "prune_rows eid mk limit ss =
     filter (\<lambda>s. \<not> (of_key eid mk s \<and> sn_id s \<notin> sn_id ` set (take limit (newest_first eid mk ss)))) ss"

definition snapshot_prune :: "string \<Rightarrow> string \<Rightarrow> nat \<Rightarrow> db \<Rightarrow> unit db_result" where
  "snapshot_prune eid mk limit = db_op (\<lambda>d.
     (Inr (), d\<lparr>d_snapshots := prune_rows eid mk limit (d_snapshots d)\<rparr>))"

section \<open>events.go\<close>

definition storage_condition :: "rat \<Rightarrow> string" where
  "storage_condition pct = (if 90 \<le> pct then ''error'' else if 80 \<le> pct then ''warn'' else ''ok'')"

definition ssl_condition :: "int \<Rightarrow> string" where
  "ssl_condition days =
     (if days \<le> 0 then ''critical'' else if days \<le> 7 then ''error'' else if days \<le> 30 then ''warn'' else ''ok'')"

definition disk_health_condition :: "string \<Rightarrow> string" where
  "disk_health_condition status =
     (if status = ''warning'' then ''warn''
      else if status = ''critical'' \<or> status = ''failing'' then ''error'' else ''ok'')"

record snap_env =
  sv_uuid :: "string \<Rightarrow> string \<Rightarrow> string"
  sv_now :: go_time

definition snapshot_retain :: nat where
  "snapshot_retain = 48"

definition capture_snapshot ::
  "snap_env \<Rightarrow> string \<Rightarrow> string \<Rightarrow> string \<Rightarrow> string \<Rightarrow> db \<Rightarrow> (string \<times> bool) \<times> db" where
  "capture_snapshot env entity_type eid mk v d0 =
     (case snapshot_get_latest eid mk d0 of (r, d1) \<Rightarrow>
        let prev = (case r of Inr s \<Rightarrow> Some (sn_metric_value s) | Inl _ \<Rightarrow> None);
            changed = (case prev of Some p \<Rightarrow> p \<noteq> v | None \<Rightarrow> False);
            s = \<lparr>sn_id = sv_uuid env eid mk, sn_entity_type = entity_type, sn_entity_id = eid,
                 sn_metric_key = mk, sn_metric_value = v, sn_previous_value = prev,
                 sn_captured_at = sv_now env\<rparr>;
            d2 = db_ignore (snapshot_insert s d1);
            d3 = db_ignore (snapshot_prune eid mk snapshot_retain d2) in
        ((case prev of Some p \<Rightarrow> p | None \<Rightarrow> [], changed), d3))"

definition snapshot_event ::
  "snap_env \<Rightarrow> string \<Rightarrow> string \<Rightarrow> string \<Rightarrow> string \<Rightarrow> string \<Rightarrow> string \<Rightarrow> event" where
  "snapshot_event env tag source_id source_name source_type level title =
     \<lparr>ev_id = sv_uuid env source_id tag, ev_level = level, ev_source_name = source_name,
      ev_source_type = source_type, ev_source_id = source_id, ev_title = title,
      ev_payload = ''{'' @ json_quote ''bucket'' @ '':'' @ json_quote ''snapshot'' @ '','' @ json_quote ''source_id''
        @ '':'' @ go_quote source_id @ '','' @ json_quote ''source_name'' @ '':''
        @ go_quote source_name @ ''}'',
      ev_created_at = sv_now env\<rparr>"

definition write_snapshot_event ::
  "snap_env \<Rightarrow> string \<Rightarrow> string \<Rightarrow> string \<Rightarrow> string \<Rightarrow> string \<Rightarrow> string \<Rightarrow> db \<Rightarrow> db" where
  "write_snapshot_event env tag source_id source_name source_type level title d =
     db_ignore (event_create (snapshot_event env tag source_id source_name source_type level title) d)"

definition write_debug_event :: "snap_env \<Rightarrow> string \<Rightarrow> string \<Rightarrow> string \<Rightarrow> db \<Rightarrow> db" where
  "write_debug_event env source_id source_name source_type =
     write_snapshot_event env ''debug'' source_id source_name source_type ''debug''
       (''[snapshot] '' @ source_name @ '' snapshot completed'')"

text \<open>\<open>%.1f\<close> and \<open>%.2f\<close>: with \<open>k\<close> decimals, sign first.\<close>

definition round_half_even :: "rat \<Rightarrow> int" where
  "round_half_even r = (let q = floor r; rest = r - of_int q in
     if rest < 1 / 2 then q else if 1 / 2 < rest then q + 1 else if even q then q else q + 1)"

definition format_fixed :: "nat \<Rightarrow> rat \<Rightarrow> string" where
  "format_fixed k r = (let n = nat (round_half_even (abs r * 10 ^ k)) in
     (if r < 0 then ''-'' else []) @ show_nat (n div 10 ^ k) @ ''.'' @ pad_zeros k (show_nat (n mod 10 ^ k)))"

definition storage_event_title :: "string \<Rightarrow> string \<Rightarrow> string \<Rightarrow> rat \<Rightarrow> string \<times> string" where
  "storage_event_title component pool cond pct =
     (let rest = '' '' @ em_dash @ '' '' @ component @ '' '' @ pool @ '': '' @ format_fixed 1 pct @ ''%'' in
      if cond = ''error'' then (''error'', ''[snapshot] Storage critical'' @ rest)
      else if cond = ''warn'' then (''warn'', ''[snapshot] Storage high'' @ rest)
      else (''info'', ''[snapshot] Storage recovered'' @ rest))"

section \<open>ssl.go\<close>

definition cond_level :: "string \<Rightarrow> nat" where
  "cond_level c = (if c = ''critical'' then 4 else if c = ''error'' then 3 else if c = ''warn'' then 2
     else if c = ''ok'' then 1 else 0)"

definition ssl_event_title :: "string \<Rightarrow> string \<Rightarrow> string \<Rightarrow> int \<Rightarrow> string \<times> string" where
  "ssl_event_title name new_cond prev_cond days =
     (let dash = '' '' @ em_dash @ '' '' @ name; rest = '': '' @ show_int days @ '' days remaining'' in
      if cond_level new_cond < cond_level prev_cond then (''info'', ''[snapshot] SSL renewed'' @ dash @ rest)
      else if new_cond = ''critical'' then (''critical'', ''[snapshot] SSL expired'' @ dash)
      else if new_cond = ''error'' then (''error'', ''[snapshot] SSL expiry critical'' @ dash @ rest)
      else if new_cond = ''warn'' then (''warn'', ''[snapshot] SSL expiring soon'' @ dash @ rest)
      else (''info'', ''[snapshot] SSL renewed'' @ dash @ rest))"

definition dial_ssl :: "(string \<Rightarrow> tls_probe) \<Rightarrow> go_time \<Rightarrow> string \<Rightarrow> (int \<times> string \<times> string) option" where
  "dial_ssl dial now target =
     (case dial (ssl_dial_address target) of
        TlsDialError _ \<Rightarrow> None
      | TlsNotTls \<Rightarrow> None
      | TlsCerts [] \<Rightarrow> None
      | TlsCerts (cert # _) \<Rightarrow> Some (days_until now (ce_not_after cert), ce_issuer cert, ce_subject cert))"

definition snapshot_check ::
  "snap_env \<Rightarrow> (string \<Rightarrow> tls_probe) \<Rightarrow> string \<Rightarrow> string \<Rightarrow> string \<Rightarrow> db \<Rightarrow> db" where
  "snapshot_check env dial cid name target d0 =
     (case dial_ssl dial (sv_now env) target of
        None \<Rightarrow> d0
      | Some (days, issuer, subject) \<Rightarrow>
          (case capture_snapshot env ''monitor_check'' cid ''ssl_days_remaining'' (show_int days) d0 of (_, d1) \<Rightarrow>
          (case capture_snapshot env ''monitor_check'' cid ''ssl_condition'' (ssl_condition days) d1 of
             ((prev, changed), d2) \<Rightarrow>
          (case capture_snapshot env ''monitor_check'' cid ''ssl_issuer'' issuer d2 of (_, d3) \<Rightarrow>
          (case capture_snapshot env ''monitor_check'' cid ''ssl_subject'' subject d3 of (_, d4) \<Rightarrow>
             let d5 = (if changed
                       then (case ssl_event_title name (ssl_condition days) prev days of (level, title) \<Rightarrow>
                               write_snapshot_event env ''ssl_condition'' cid name ''monitor_check'' level title d4)
                       else d4) in
             write_debug_event env cid name ''monitor_check'' d5)))))"

definition ssl_snapshot_run :: "snap_env \<Rightarrow> (string \<Rightarrow> tls_probe) \<Rightarrow> db \<Rightarrow> db" where
  "ssl_snapshot_run env dial d0 =
     (case check_list d0 of
        (Inl _, d1) \<Rightarrow> d1
      | (Inr checks, d1) \<Rightarrow>
          foldl (\<lambda>d c. snapshot_check env dial (mc_id c) (mc_name c) (mc_target c) d) d1
            (filter (\<lambda>c. mc_enabled c \<and> mc_type c = ''ssl'') checks))"

section \<open>What a capture does\<close>

lemma sort_key_snoc_least:
  "(\<And>x. x \<in> set xs \<Longrightarrow> (k new :: 'k::linorder) < k x) \<Longrightarrow> sort_key k (xs @ [new]) = new # sort_key k xs"
proof (induction xs)
  case Nil
  then show ?case by simp
next
  case (Cons x xs)
  then have "sort_key k (xs @ [new]) = new # sort_key k xs" and "k new < k x" by auto
  then show ?case by (auto dest: leD)
qed

lemma newest_first_insert:
  assumes "\<And>s. s \<in> set ss \<Longrightarrow> of_key eid mk s \<Longrightarrow> sn_captured_at s < sn_captured_at new" and "of_key eid mk new"
  shows "newest_first eid mk (ss @ [new]) = new # newest_first eid mk ss"
  unfolding newest_first_def order_desc_def
  using assms by (simp, intro sort_key_snoc_least) auto

lemma newest_first_other: "\<not> of_key eid mk new \<Longrightarrow> newest_first eid mk (ss @ [new]) = newest_first eid mk ss"
  by (simp add: newest_first_def)

lemma set_newest_first: "set (newest_first eid mk ss) = {s \<in> set ss. of_key eid mk s}"
  by (simp add: newest_first_def)

lemma filter_take_distinct:
  "distinct (map f xs) \<Longrightarrow> filter (\<lambda>x. f x \<in> f ` set (take n xs)) xs = take n xs"
proof (induction xs arbitrary: n)
  case Nil
  then show ?case by simp
next
  case (Cons x xs)
  show ?case
  proof (cases n)
    case 0
    then show ?thesis by simp
  next
    case (Suc m)
    have "filter (\<lambda>y. f y = f x \<or> f y \<in> f ` set (take m xs)) xs = filter (\<lambda>y. f y \<in> f ` set (take m xs)) xs"
      using Cons.prems by (intro filter_cong refl) (metis distinct.simps(2) imageI list.set_map list.simps(9))
    then show ?thesis using Suc Cons by simp
  qed
qed

lemma distinct_map_order_desc: "distinct (map f (order_desc k xs)) = distinct (map f xs)"
  by (rule mset_eq_imp_distinct_iff) simp

lemma distinct_newest_first:
  assumes "distinct (map sn_id ss)"
  shows "distinct (map sn_id (newest_first eid mk ss))"
  using distinct_map_filter_keep [OF assms] by (simp add: newest_first_def distinct_map_order_desc)

lemma newest_first_prune:
  assumes "distinct (map sn_id ss)"
  shows "newest_first eid mk (prune_rows eid mk n ss) = take n (newest_first eid mk ss)"
proof -
  let ?kept = "\<lambda>s. sn_id s \<in> sn_id ` set (take n (newest_first eid mk ss))"
  have "filter (of_key eid mk) (prune_rows eid mk n ss) = filter ?kept (filter (of_key eid mk) ss)"
    by (auto simp: prune_rows_def intro: filter_cong)
  then have "newest_first eid mk (prune_rows eid mk n ss) = filter ?kept (newest_first eid mk ss)"
    unfolding newest_first_def order_desc_def by (simp add: filter_sort)
  also have "\<dots> = take n (newest_first eid mk ss)"
    by (rule filter_take_distinct) (rule distinct_newest_first [OF assms])
  finally show ?thesis .
qed

lemma prune_rows_other: "filter (\<lambda>s. \<not> of_key eid mk s) (prune_rows eid mk n ss) = filter (\<lambda>s. \<not> of_key eid mk s) ss"
  by (auto simp: prune_rows_def intro: filter_cong)

lemma of_key_other: "of_key eid mk s \<Longrightarrow> (eid2, mk2) \<noteq> (eid, mk) \<Longrightarrow> \<not> of_key eid2 mk2 s"
  by (auto simp: of_key_def)

lemma newest_first_prune_other:
  assumes "(eid2, mk2) \<noteq> (eid, mk)"
  shows "newest_first eid2 mk2 (prune_rows eid mk n ss) = newest_first eid2 mk2 ss"
proof -
  have "filter (of_key eid2 mk2) xs = filter (of_key eid2 mk2) (filter (\<lambda>s. \<not> of_key eid mk s) xs)" for xs
    using of_key_other [of eid mk _ eid2 mk2] assms by (auto intro: filter_cong)
  then show ?thesis unfolding newest_first_def by (metis prune_rows_other)
qed

definition snapshots_ok :: "db \<Rightarrow> bool" where
  "snapshots_ok d = distinct (map sn_id (d_snapshots d))"

text \<open>The clock is ahead of the last row of a metric, and the identifier for the new one is fresh.\<close>

definition capture_ready :: "snap_env \<Rightarrow> string \<Rightarrow> string \<Rightarrow> db \<Rightarrow> bool" where
  "capture_ready env eid mk d = (sv_uuid env eid mk \<notin> sn_id ` set (d_snapshots d)
     \<and> list_all (\<lambda>s. of_key eid mk s \<longrightarrow> sn_captured_at s < sv_now env) (d_snapshots d))"

definition last_value :: "db \<Rightarrow> string \<times> string \<rightharpoonup> string" where
  "last_value d = (\<lambda>(eid, mk). case newest_first eid mk (d_snapshots d) of
       [] \<Rightarrow> None | s # _ \<Rightarrow> Some (sn_metric_value s))"

definition captured_row :: "snap_env \<Rightarrow> string \<Rightarrow> string \<Rightarrow> string \<Rightarrow> string \<Rightarrow> db \<Rightarrow> snapshot" where
  "captured_row env entity_type eid mk v d =
     \<lparr>sn_id = sv_uuid env eid mk, sn_entity_type = entity_type, sn_entity_id = eid, sn_metric_key = mk,
      sn_metric_value = v, sn_previous_value = last_value d (eid, mk), sn_captured_at = sv_now env\<rparr>"

lemma captured_row_fields [simp]:
  "sn_id (captured_row env et eid mk v d) = sv_uuid env eid mk"
  "sn_metric_value (captured_row env et eid mk v d) = v"
  "sn_captured_at (captured_row env et eid mk v d) = sv_now env"
  "of_key eid2 mk2 (captured_row env et eid mk v d) \<longleftrightarrow> eid2 = eid \<and> mk2 = mk"
  by (auto simp: captured_row_def of_key_def)

lemma capture_no_fault:
  assumes "d_faults d = []" and "sv_uuid env eid mk \<notin> sn_id ` set (d_snapshots d)"
  shows "capture_snapshot env et eid mk v d =
    ((case last_value d (eid, mk) of Some p \<Rightarrow> p | None \<Rightarrow> [],
      case last_value d (eid, mk) of Some p \<Rightarrow> p \<noteq> v | None \<Rightarrow> False),
     d\<lparr>d_snapshots := prune_rows eid mk snapshot_retain (d_snapshots d @ [captured_row env et eid mk v d])\<rparr>)"
  using assms
  by (cases "newest_first eid mk (d_snapshots d)")
    (simp_all add: capture_snapshot_def snapshot_get_latest_def snapshot_insert_def snapshot_prune_def
      captured_row_def last_value_def)

lemma capture_newest:
  assumes "d_faults d = []" and "snapshots_ok d" and "capture_ready env eid mk d"
    and "capture_snapshot env et eid mk v d = (r, d2)"
  shows "newest_first eid2 mk2 (d_snapshots d2) =
    (if (eid2, mk2) = (eid, mk)
     then take snapshot_retain (captured_row env et eid mk v d # newest_first eid mk (d_snapshots d))
     else newest_first eid2 mk2 (d_snapshots d))"
    and "snapshots_ok d2" and "d_faults d2 = []" and "d_events d2 = d_events d" and "d_checks d2 = d_checks d"
proof -
  let ?ss = "d_snapshots d @ [captured_row env et eid mk v d]"
  have d2: "d2 = d\<lparr>d_snapshots := prune_rows eid mk snapshot_retain ?ss\<rparr>"
    using assms capture_no_fault [of d env eid mk et v] by (simp add: capture_ready_def)
  have ids: "distinct (map sn_id ?ss)"
    using assms by (auto simp: snapshots_ok_def capture_ready_def)
  have new: "newest_first eid mk ?ss = captured_row env et eid mk v d # newest_first eid mk (d_snapshots d)"
    by (rule newest_first_insert) (use assms in \<open>auto simp: capture_ready_def list_all_iff\<close>)
  show "newest_first eid2 mk2 (d_snapshots d2) =
    (if (eid2, mk2) = (eid, mk)
     then take snapshot_retain (captured_row env et eid mk v d # newest_first eid mk (d_snapshots d))
     else newest_first eid2 mk2 (d_snapshots d))"
    using newest_first_prune [OF ids, of eid mk snapshot_retain] new
      newest_first_prune_other [of eid2 mk2 eid mk snapshot_retain ?ss]
      newest_first_other [of eid2 mk2 "captured_row env et eid mk v d" "d_snapshots d"]
    by (auto simp: d2)
  show "snapshots_ok d2"
    unfolding d2 snapshots_ok_def prune_rows_def
    using distinct_map_filter_keep [OF ids] by (simp del: filter_append map_append)
  show "d_faults d2 = []" "d_events d2 = d_events d" "d_checks d2 = d_checks d"
    using assms by (simp_all add: d2)
qed

text \<open>The table refines a map from metrics to their last values.\<close>

lemma capture_refines:
  assumes "d_faults d = []" and "snapshots_ok d" and "capture_ready env eid mk d"
    and "capture_snapshot env et eid mk v d = ((prev, changed), d2)"
  shows "last_value d2 = (last_value d)((eid, mk) \<mapsto> v)"
    and "prev = (case last_value d (eid, mk) of Some p \<Rightarrow> p | None \<Rightarrow> [])"
    and "changed = (case last_value d (eid, mk) of Some p \<Rightarrow> p \<noteq> v | None \<Rightarrow> False)"
proof -
  show "last_value d2 = (last_value d)((eid, mk) \<mapsto> v)"
  proof
    fix k :: "string \<times> string"
    obtain eid2 mk2 where k: "k = (eid2, mk2)" by fastforce
    show "last_value d2 k = ((last_value d)((eid, mk) \<mapsto> v)) k"
      using capture_newest(1) [OF assms, of eid2 mk2]
      by (auto simp: k last_value_def snapshot_retain_def)
  qed
  show "prev = (case last_value d (eid, mk) of Some p \<Rightarrow> p | None \<Rightarrow> [])"
    and "changed = (case last_value d (eid, mk) of Some p \<Rightarrow> p \<noteq> v | None \<Rightarrow> False)"
    using assms capture_no_fault [of d env eid mk et v] by (simp_all add: capture_ready_def)
qed

text \<open>C37: Capturing a value keeps, of the metric, exactly the new row and the newest 47 of the old ones,
  in order, and of every other metric all rows. Seen through the last values it is a map update: the
  table refines the map. The answer is the value the map had (the empty text if it had none) and whether the new
  one differs from it.\<close>

theorem capture_keeps_newest:
  assumes "d_faults d = []" and "snapshots_ok d" and "capture_ready env eid mk d"
  shows "\<exists>prev changed d2 s. capture_snapshot env et eid mk v d = ((prev, changed), d2)
    \<and> sn_metric_value s = v \<and> sn_previous_value s = last_value d (eid, mk) \<and> sn_captured_at s = sv_now env
    \<and> newest_first eid mk (d_snapshots d2) = s # take 47 (newest_first eid mk (d_snapshots d))
    \<and> (\<forall>eid2 mk2. (eid2, mk2) = (eid, mk)
          \<or> newest_first eid2 mk2 (d_snapshots d2) = newest_first eid2 mk2 (d_snapshots d))
    \<and> last_value d2 = (last_value d)((eid, mk) \<mapsto> v)
    \<and> prev = (case last_value d (eid, mk) of None \<Rightarrow> [] | Some p \<Rightarrow> p)
    \<and> changed = (\<exists>p. last_value d (eid, mk) = Some p \<and> p \<noteq> v)"
proof -
  obtain prev changed d2 where cap: "capture_snapshot env et eid mk v d = ((prev, changed), d2)"
    by (metis prod.collapse)
  show ?thesis
    using capture_newest(1) [OF assms cap, of eid mk] capture_newest(1) [OF assms cap] capture_refines [OF assms cap] cap
    by (intro exI [of _ prev] exI [of _ changed] exI [of _ d2] exI [of _ "captured_row env et eid mk v d"])
      (auto simp: snapshot_retain_def captured_row_def split: option.split)
qed

definition sample_snap_env :: "go_time \<Rightarrow> snap_env" where
  "sample_snap_env t = \<lparr>sv_uuid = (\<lambda>eid tag. eid @ ''-'' @ tag @ show_int t), sv_now = t\<rparr>"

theorem capture_keeps_newest_witness:
  "\<exists>d2 s. capture_snapshot (sample_snap_env 5) ''monitor_check'' ''c1'' ''ssl_condition'' ''ok'' empty_db
        = (([], False), d2)
    \<and> newest_first ''c1'' ''ssl_condition'' (d_snapshots d2) = [s] \<and> sn_metric_value s = ''ok''"
proof -
  have "d_faults empty_db = []" "snapshots_ok empty_db"
    "capture_ready (sample_snap_env 5) ''c1'' ''ssl_condition'' empty_db"
    "newest_first ''c1'' ''ssl_condition'' (d_snapshots empty_db) = []"
    "last_value empty_db (''c1'', ''ssl_condition'') = None"
    by (simp_all add: empty_db_def snapshots_ok_def capture_ready_def newest_first_def order_desc_def last_value_def)
  with capture_keeps_newest [OF this(1,2,3), of "''monitor_check''" "''ok''"] show ?thesis by force
qed

section \<open>Passes\<close>

text \<open>What a pass over one entity needs to capture the metrics \<open>M\<close> and to write the events \<open>T\<close>.\<close>

definition ready_for :: "snap_env \<Rightarrow> string \<Rightarrow> string set \<Rightarrow> db \<Rightarrow> bool" where
  "ready_for env eid M d = (d_faults d = [] \<and> snapshots_ok d \<and> inj (sv_uuid env eid)
     \<and> (\<forall>mk \<in> M. capture_ready env eid mk d))"

definition events_ready :: "snap_env \<Rightarrow> string \<Rightarrow> string set \<Rightarrow> db \<Rightarrow> bool" where
  "events_ready env eid T d = (\<forall>tag \<in> T. sv_uuid env eid tag \<notin> ev_id ` set (d_events d))"

lemma capture_rows:
  assumes "d_faults d = []" and "capture_ready env eid mk d"
    and "capture_snapshot env et eid mk v d = (r, d2)"
  shows "set (d_snapshots d2) \<subseteq> insert (captured_row env et eid mk v d) (set (d_snapshots d))"
proof -
  have "set (prune_rows eid mk n ss) \<subseteq> set ss" for n ss by (auto simp: prune_rows_def)
  then show ?thesis
    using assms capture_no_fault [of d env eid mk et v] by (fastforce simp: capture_ready_def)
qed

lemma ready_capture:
  assumes "ready_for env eid M d" and "mk \<in> M" and "capture_snapshot env et eid mk v d = ((prev, changed), d2)"
  shows "ready_for env eid (M - {mk}) d2" and "d_events d2 = d_events d" and "d_checks d2 = d_checks d"
    and "last_value d2 = (last_value d)((eid, mk) \<mapsto> v)"
    and "prev = (case last_value d (eid, mk) of Some p \<Rightarrow> p | None \<Rightarrow> [])"
    and "changed = (case last_value d (eid, mk) of Some p \<Rightarrow> p \<noteq> v | None \<Rightarrow> False)"
proof -
  have d: "d_faults d = []" "snapshots_ok d" "capture_ready env eid mk d" and inj: "inj (sv_uuid env eid)"
    using assms(1,2) by (auto simp: ready_for_def)
  note rows = capture_rows [OF d(1,3) assms(3)]
  show "ready_for env eid (M - {mk}) d2"
    using capture_newest(2,3) [OF d assms(3)] inj assms(1)
      subsetD [OF rows]
    by (fastforce simp: ready_for_def capture_ready_def list_all_iff dest: injD)
  show "d_events d2 = d_events d" "d_checks d2 = d_checks d"
    by (rule capture_newest(4) [OF d assms(3)], rule capture_newest(5) [OF d assms(3)])
  show "last_value d2 = (last_value d)((eid, mk) \<mapsto> v)"
    and "prev = (case last_value d (eid, mk) of Some p \<Rightarrow> p | None \<Rightarrow> [])"
    and "changed = (case last_value d (eid, mk) of Some p \<Rightarrow> p \<noteq> v | None \<Rightarrow> False)"
    by (rule capture_refines [OF d assms(3)])+
qed

text \<open>One step: the answer and the new state of a capture whose pass is ready.\<close>

lemma ready_capture_ex:
  assumes "ready_for env eid M d" and "mk \<in> M"
  obtains d2 where
    "capture_snapshot env et eid mk v d =
      ((case last_value d (eid, mk) of Some p \<Rightarrow> p | None \<Rightarrow> [],
        case last_value d (eid, mk) of Some p \<Rightarrow> p \<noteq> v | None \<Rightarrow> False), d2)"
    "ready_for env eid (M - {mk}) d2" "d_events d2 = d_events d"
    "last_value d2 = (last_value d)((eid, mk) \<mapsto> v)"
proof -
  obtain prev changed d2 where cap: "capture_snapshot env et eid mk v d = ((prev, changed), d2)"
    by (metis prod.collapse)
  show thesis
    using that [of d2] ready_capture [OF assms cap] cap by simp
qed

lemma snapshot_event_fields [simp]:
  "ev_id (snapshot_event env tag sid name st level title) = sv_uuid env sid tag"
  "ev_level (snapshot_event env tag sid name st level title) = level"
  "ev_source_type (snapshot_event env tag sid name st level title) = st"
  by (simp_all add: snapshot_event_def)

lemma write_event_ready:
  assumes "ready_for env eid M d" and "events_ready env eid T d" and "tag \<in> T"
    and "level \<in> set event_levels" and "st \<in> set event_source_types"
  shows "write_snapshot_event env tag eid name st level title d
      = d\<lparr>d_events := d_events d @ [snapshot_event env tag eid name st level title]\<rparr>"
  using assms
  by (simp add: write_snapshot_event_def ready_for_def events_ready_def event_create_no_fault
      event_insertable_def event_row_ok_def)

lemma ready_for_events [simp]: "ready_for env eid M (d\<lparr>d_events := es\<rparr>) = ready_for env eid M d"
  by (simp add: ready_for_def snapshots_ok_def capture_ready_def)

lemma last_value_events [simp]: "last_value (d\<lparr>d_events := es\<rparr>) = last_value d"
  by (simp add: last_value_def)

lemma events_ready_written:
  assumes "inj (sv_uuid env eid)" and "events_ready env eid T d"
  shows "events_ready env eid (T - {tag})
    (d\<lparr>d_events := d_events d @ [snapshot_event env tag eid name st level title]\<rparr>)"
  using assms by (auto simp: events_ready_def dest: injD)

lemma events_ready_same: "d_events d2 = d_events d \<Longrightarrow> events_ready env eid T d2 = events_ready env eid T d"
  by (simp add: events_ready_def)

section \<open>The SSL job\<close>

definition ssl_emit :: "string option \<Rightarrow> string \<Rightarrow> string list" where
  "ssl_emit prev new = (case prev of
       None \<Rightarrow> []
     | Some p \<Rightarrow> if p = new then []
         else [if cond_level new < cond_level p \<or> new = ''ok'' then ''info'' else new])"

definition ssl_metrics :: "string set" where
  "ssl_metrics = {''ssl_days_remaining'', ''ssl_condition'', ''ssl_issuer'', ''ssl_subject''}"

lemma ssl_event_level:
  assumes "ssl_event_title name (ssl_condition days) prev n = (level, title)"
  shows "level = (if cond_level (ssl_condition days) < cond_level prev \<or> ssl_condition days = ''ok''
      then ''info'' else ssl_condition days) \<and> level \<in> set event_levels"
  using assms by (auto simp: ssl_event_title_def Let_def ssl_condition_def event_levels_def split: if_splits)

lemma snapshot_check_effect:
  assumes ready: "ready_for env cid ssl_metrics d" and fresh: "events_ready env cid {''ssl_condition'', ''debug''} d"
    and dial: "dial_ssl dial (sv_now env) target = Some (days, issuer, subject)"
  shows "\<exists>es. d_events (snapshot_check env dial cid name target d) = d_events d @ es
    \<and> map ev_level es = ssl_emit (last_value d (cid, ''ssl_condition'')) (ssl_condition days) @ [''debug'']
    \<and> last_value (snapshot_check env dial cid name target d) (cid, ''ssl_condition'') = Some (ssl_condition days)
    \<and> d_faults (snapshot_check env dial cid name target d) = []"
proof -
  have inj: "inj (sv_uuid env cid)" using ready by (simp add: ready_for_def)
  obtain d1 where d1: "snd (capture_snapshot env ''monitor_check'' cid ''ssl_days_remaining'' (show_int days) d) = d1"
    "ready_for env cid (ssl_metrics - {''ssl_days_remaining''}) d1" "d_events d1 = d_events d"
    "last_value d1 = (last_value d)((cid, ''ssl_days_remaining'') \<mapsto> show_int days)"
    by (rule ready_capture_ex [OF ready, of "''ssl_days_remaining''" "''monitor_check''" "show_int days"])
      (auto simp: ssl_metrics_def)
  obtain d2 where d2: "capture_snapshot env ''monitor_check'' cid ''ssl_condition'' (ssl_condition days) d1 =
      ((case last_value d1 (cid, ''ssl_condition'') of Some p \<Rightarrow> p | None \<Rightarrow> [],
        case last_value d1 (cid, ''ssl_condition'') of Some p \<Rightarrow> p \<noteq> ssl_condition days | None \<Rightarrow> False), d2)"
    "ready_for env cid (ssl_metrics - {''ssl_days_remaining''} - {''ssl_condition''}) d2" "d_events d2 = d_events d1"
    "last_value d2 = (last_value d1)((cid, ''ssl_condition'') \<mapsto> ssl_condition days)"
    by (rule ready_capture_ex [OF d1(2), of "''ssl_condition''" "''monitor_check''" "ssl_condition days"])
      (auto simp: ssl_metrics_def)
  obtain d3 where d3: "snd (capture_snapshot env ''monitor_check'' cid ''ssl_issuer'' issuer d2) = d3"
    "ready_for env cid (ssl_metrics - {''ssl_days_remaining''} - {''ssl_condition''} - {''ssl_issuer''}) d3"
    "d_events d3 = d_events d2" "last_value d3 = (last_value d2)((cid, ''ssl_issuer'') \<mapsto> issuer)"
    by (rule ready_capture_ex [OF d2(2), of "''ssl_issuer''" "''monitor_check''" issuer])
      (auto simp: ssl_metrics_def)
  obtain d4 where d4: "snd (capture_snapshot env ''monitor_check'' cid ''ssl_subject'' subject d3) = d4"
    "ready_for env cid (ssl_metrics - {''ssl_days_remaining''} - {''ssl_condition''} - {''ssl_issuer''} - {''ssl_subject''}) d4"
    "d_events d4 = d_events d3" "last_value d4 = (last_value d3)((cid, ''ssl_subject'') \<mapsto> subject)"
    by (rule ready_capture_ex [OF d3(2), of "''ssl_subject''" "''monitor_check''" subject])
      (auto simp: ssl_metrics_def)
  let ?prev = "last_value d (cid, ''ssl_condition'')"
  have p: "last_value d1 (cid, ''ssl_condition'') = ?prev" by (simp add: d1)
  have ev: "d_events d4 = d_events d" using d1 d2 d3 d4 by simp
  have fresh4: "events_ready env cid {''ssl_condition'', ''debug''} d4"
    using fresh events_ready_same [OF ev] by simp
  have lv: "last_value d4 (cid, ''ssl_condition'') = Some (ssl_condition days)"
    by (simp add: d4 d3 d2)
  obtain level title where title: "ssl_event_title name (ssl_condition days)
      (case ?prev of Some p \<Rightarrow> p | None \<Rightarrow> []) days = (level, title)" by fastforce
  note level = ssl_event_level [OF title]
  let ?changed = "case ?prev of Some p \<Rightarrow> p \<noteq> ssl_condition days | None \<Rightarrow> False"
  let ?e = "snapshot_event env ''ssl_condition'' cid name ''monitor_check'' level title"
  let ?d5 = "if ?changed then d4\<lparr>d_events := d_events d4 @ [?e]\<rparr> else d4"
  let ?dbg = "snapshot_event env ''debug'' cid name ''monitor_check'' ''debug'' (''[snapshot] '' @ name @ '' snapshot completed'')"
  have check: "''monitor_check'' \<in> set event_source_types" "''debug'' \<in> set event_levels"
    by (simp_all add: event_source_types_def event_levels_def)
  have d5: "(if ?changed then write_snapshot_event env ''ssl_condition'' cid name ''monitor_check'' level title d4 else d4) = ?d5"
    using write_event_ready [OF d4(2) fresh4 _ conjunct2 [OF level] check(1), of "''ssl_condition''"] by simp
  have ready5: "ready_for env cid {} ?d5" using d4(2) by (auto simp: ready_for_def snapshots_ok_def)
  have fresh5: "events_ready env cid {''debug''} ?d5"
    using events_ready_written [OF inj fresh4, of "''ssl_condition''"] fresh4
    by (auto simp: events_ready_def)
  have run0: "snapshot_check env dial cid name target d
      = write_snapshot_event env ''debug'' cid name ''monitor_check'' ''debug'' (''[snapshot] '' @ name @ '' snapshot completed'')
          (if ?changed then write_snapshot_event env ''ssl_condition'' cid name ''monitor_check'' level title d4 else d4)"
    unfolding snapshot_check_def dial write_debug_event_def option.case prod.case split_beta d1(1) d2(1) fst_conv snd_conv
      d3(1) d4(1) p title Let_def
    by (rule refl)
  have run: "snapshot_check env dial cid name target d = ?d5\<lparr>d_events := d_events ?d5 @ [?dbg]\<rparr>"
    unfolding run0 d5 by (rule write_event_ready [OF ready5 fresh5 _ check(2,1)]) simp
  have lv5: "last_value ?d5 (cid, ''ssl_condition'') = Some (ssl_condition days)" using lv by simp
  show ?thesis
    using level ready5 lv5 ev
    by (intro exI [of _ "(if ?changed then [?e] else []) @ [?dbg]"])
      (auto simp: run ssl_emit_def ready_for_def split: option.splits)
qed

text \<open>Passes of the job over one check, each with its own clock, identifiers and network.\<close>

type_synonym ssl_pass = "snap_env \<times> (string \<Rightarrow> tls_probe)"

definition run_ssl_pass :: "monitor_check \<Rightarrow> db \<Rightarrow> ssl_pass \<Rightarrow> db" where
  "run_ssl_pass c d p = snapshot_check (fst p) (snd p) (mc_id c) (mc_name c) (mc_target c) d"

fun ssl_passes_ready :: "monitor_check \<Rightarrow> ssl_pass list \<Rightarrow> db \<Rightarrow> bool" where
  "ssl_passes_ready c [] d = True"
| "ssl_passes_ready c (p # ps) d =
     (ready_for (fst p) (mc_id c) ssl_metrics d \<and> events_ready (fst p) (mc_id c) {''ssl_condition'', ''debug''} d
      \<and> ssl_passes_ready c ps (run_ssl_pass c d p))"

definition pass_conditions :: "monitor_check \<Rightarrow> ssl_pass list \<Rightarrow> string list" where
  "pass_conditions c ps = List.map_filter
     (\<lambda>p. map_option (\<lambda>(days, _). ssl_condition days) (dial_ssl (snd p) (sv_now (fst p)) (mc_target c))) ps"

lemma ssl_emit_not_debug: "filter (\<lambda>l. l \<noteq> ''debug'') (ssl_emit prev (ssl_condition days)) = ssl_emit prev (ssl_condition days)"
  by (auto simp: ssl_emit_def ssl_condition_def split: option.split)

text \<open>The SSL job reports the transitions of a certificate's condition and nothing else: over any
  number of passes, the events of a check other than the debug events (one per successful dial) are
  those of consecutive conditions, the last one stored before the first pass included; an improvement
  is an information, a deterioration an event of the new condition's level.\<close>

theorem ssl_job_reports_transitions:
  assumes "ssl_passes_ready c ps d"
  shows "\<exists>es. d_events (foldl (run_ssl_pass c) d ps) = d_events d @ es
    \<and> filter (\<lambda>l. l \<noteq> ''debug'') (map ev_level es)
        = emits_along ssl_emit (last_value d (mc_id c, ''ssl_condition'')) (pass_conditions c ps)
    \<and> length (filter (\<lambda>l. l = ''debug'') (map ev_level es)) = length (pass_conditions c ps)"
  using assms
proof (induction ps arbitrary: d)
  case Nil
  then show ?case by (simp add: pass_conditions_def List.map_filter_def)
next
  case (Cons p ps)
  let ?d = "run_ssl_pass c d p"
  obtain es where es: "d_events (foldl (run_ssl_pass c) ?d ps) = d_events ?d @ es"
    and lv: "filter (\<lambda>l. l \<noteq> ''debug'') (map ev_level es)
        = emits_along ssl_emit (last_value ?d (mc_id c, ''ssl_condition'')) (pass_conditions c ps)"
    and n: "length (filter (\<lambda>l. l = ''debug'') (map ev_level es)) = length (pass_conditions c ps)"
    using Cons by auto
  show ?case
  proof (cases "dial_ssl (snd p) (sv_now (fst p)) (mc_target c)")
    case None
    then have "?d = d" by (simp add: run_ssl_pass_def snapshot_check_def)
    moreover have "pass_conditions c (p # ps) = pass_conditions c ps"
      by (simp add: pass_conditions_def List.map_filter_def None)
    ultimately show ?thesis using es lv n by auto
  next
    case (Some r)
    obtain days issuer subject where r: "r = (days, issuer, subject)" by (cases r)
    have conds: "pass_conditions c (p # ps) = ssl_condition days # pass_conditions c ps"
      by (simp add: pass_conditions_def List.map_filter_def Some r)
    obtain es1 where es1: "d_events ?d = d_events d @ es1"
      and lv1: "map ev_level es1 = ssl_emit (last_value d (mc_id c, ''ssl_condition'')) (ssl_condition days) @ [''debug'']"
      and now: "last_value ?d (mc_id c, ''ssl_condition'') = Some (ssl_condition days)"
      using snapshot_check_effect [of "fst p" "mc_id c" d "snd p" "mc_target c" days issuer subject "mc_name c"]
        Cons.prems Some r by (auto simp: run_ssl_pass_def)
    have dbg: "filter (\<lambda>l. l = ''debug'') (ssl_emit q (ssl_condition days)) = []" for q
      by (auto simp: ssl_emit_def ssl_condition_def split: option.split)
    show ?thesis
      using lv n
      by (intro exI [of _ "es1 @ es"])
        (simp add: es es1 conds lv1 now ssl_emit_not_debug dbg)
  qed
qed

definition sample_ssl_check :: monitor_check where
  "sample_ssl_check = \<lparr>mc_id = ''c1'', mc_app_id = [], mc_name = ''home'', mc_type = ''ssl'',
     mc_target = ''https://home.example'', mc_interval_secs = 300, mc_expected_status = 0, mc_ssl_warn_days = 30,
     mc_ssl_crit_days = 7, mc_source_component_id = None, mc_skip_tls_verify = False, mc_dns_record_type = [],
     mc_dns_expected_value = [], mc_dns_resolver = [], mc_enabled = True, mc_last_checked_at = None,
     mc_last_status = [], mc_last_result = [], mc_created_at = 0\<rparr>"

definition sample_ok_snapshot :: snapshot where
  "sample_ok_snapshot = \<lparr>sn_id = ''s0'', sn_entity_type = ''monitor_check'', sn_entity_id = ''c1'',
     sn_metric_key = ''ssl_condition'', sn_metric_value = ''ok'', sn_previous_value = None, sn_captured_at = 0\<rparr>"

definition expiring_cert :: "string \<Rightarrow> tls_probe" where
  "expiring_cert = (\<lambda>_. TlsCerts [\<lparr>ce_not_after = 5 * day_ns + 5, ce_issuer = ''CA'', ce_subject = ''home''\<rparr>])"

theorem ssl_job_reports_transitions_witness:
  "\<exists>es. d_events (foldl (run_ssl_pass sample_ssl_check) (empty_db\<lparr>d_snapshots := [sample_ok_snapshot]\<rparr>)
           [(sample_snap_env 5, expiring_cert)]) = es
     \<and> filter (\<lambda>l. l \<noteq> ''debug'') (map ev_level es) = [''error'']"
proof -
  let ?d = "empty_db\<lparr>d_snapshots := [sample_ok_snapshot]\<rparr>"
  have "inj (sv_uuid (sample_snap_env 5) ''c1'')"
    by (rule injI) (simp add: sample_snap_env_def)
  then have ready: "ssl_passes_ready sample_ssl_check [(sample_snap_env 5, expiring_cert)] ?d"
    by (auto simp: ready_for_def events_ready_def snapshots_ok_def capture_ready_def empty_db_def
        sample_ok_snapshot_def sample_ssl_check_def sample_snap_env_def)
  have conds: "pass_conditions sample_ssl_check [(sample_snap_env 5, expiring_cert)] = [''error'']"
    by (simp add: pass_conditions_def List.map_filter_def dial_ssl_def expiring_cert_def sample_snap_env_def
        days_until_def ssl_condition_def)
  have last: "last_value ?d (mc_id sample_ssl_check, ''ssl_condition'') = Some ''ok''"
    by (simp add: last_value_def newest_first_def order_desc_def of_key_def sample_ok_snapshot_def
        sample_ssl_check_def empty_db_def)
  have "d_events ?d = []" by (simp add: empty_db_def)
  moreover have "emits_along ssl_emit (Some ''ok'') [''error''] = [''error'']" by code_simp
  ultimately show ?thesis
    using ssl_job_reports_transitions [OF ready] unfolding conds last by auto
qed

end
