(* ===== verification/Components.thy ===== *)
theory Components
  imports Links Snapshots EventsApi
begin

text \<open>
  Infrastructure components: internal/repo/infrastructure.go, with the constraints migrations/036 puts
  on the table, and the scan scheduler, internal/scanner/scheduler.go.

  A scanner of the scheduler is a function from the database to an optional error and the new
  database; the goroutines of a pass are run one after the other, in any order the environment
  chooses. Time-outs are errors of the scanner. The error texts of the database are \<open>database\<close>.
\<close>

section \<open>Repository\<close>

definition component_types :: "string list" where
  "component_types = [''proxmox_node'', ''vm_linux'', ''vm_windows'', ''vm_other'', ''linux_host'',
     ''windows_host'', ''generic_host'', ''synology'', ''docker_engine'', ''traefik'', ''portainer'']"

definition collection_methods :: "string list" where
  "collection_methods = [''proxmox_api'', ''synology_api'', ''snmp'', ''docker_socket'', ''traefik_api'',
     ''portainer_api'', ''none'']"

definition component_statuses :: "string list" where
  "component_statuses = [''online'', ''degraded'', ''offline'', ''unknown'']"

definition component_row_ok :: "infra_component \<Rightarrow> bool" where
  "component_row_ok c = (ic_type c \<in> set component_types \<and> ic_collection_method c \<in> set collection_methods
     \<and> ic_last_status c \<in> set component_statuses)"

definition components_ok :: "db \<Rightarrow> bool" where
  "components_ok d = (distinct (map ic_id (d_components d)) \<and> list_all component_row_ok (d_components d))"

definition component_list :: "db \<Rightarrow> infra_component list db_result" where
  "component_list = db_query (\<lambda>d. order_asc ic_created_at (d_components d))"

definition component_list_by_parent :: "string \<Rightarrow> db \<Rightarrow> infra_component list db_result" where
  "component_list_by_parent pid = db_query (\<lambda>d. order_asc ic_type (order_asc ic_name
     (concat (map (\<lambda>c. map (\<lambda>_. c) (filter (\<lambda>l. cl_child_id l = ic_id c \<and> cl_parent_id l = pid) (d_links d)))
        (d_components d)))))"

definition component_get :: "string \<Rightarrow> db \<Rightarrow> infra_component db_result" where
  "component_get cid = db_op (\<lambda>d. case lookup_row ic_id cid (d_components d) of
       Some c \<Rightarrow> (Inr c, d) | None \<Rightarrow> (Inl NotFound, d))"

definition component_create :: "infra_component \<Rightarrow> db \<Rightarrow> unit db_result" where
  "component_create c = db_op (\<lambda>d.
     if ic_id c \<in> ic_id ` set (d_components d) \<or> \<not> component_row_ok c then (Inl DbFail, d)
     else (Inr (), d\<lparr>d_components := d_components d @ [c\<lparr>ic_meta := None, ic_last_polled_at := None\<rparr>]\<rparr>))"

text \<open>An UPDATE by id: a violated CHECK fails, no row at all is \<open>ErrNotFound\<close>.\<close>

definition component_change :: "string \<Rightarrow> (infra_component \<Rightarrow> infra_component) \<Rightarrow> db \<Rightarrow> unit db_result" where
  "component_change cid f = db_op (\<lambda>d.
     if cid \<notin> ic_id ` set (d_components d) then (Inl NotFound, d)
     else if \<not> list_all (\<lambda>c. ic_id c = cid \<longrightarrow> component_row_ok (f c)) (d_components d) then (Inl DbFail, d)
     else (Inr (), d\<lparr>d_components := update_where (\<lambda>c. ic_id c = cid) f (d_components d)\<rparr>))"

definition component_update :: "infra_component \<Rightarrow> db \<Rightarrow> unit db_result" where
  "component_update n = component_change (ic_id n) (\<lambda>c. c\<lparr>ic_name := ic_name n, ic_ip := ic_ip n, ic_type := ic_type n,
     ic_collection_method := ic_collection_method n, ic_credentials := ic_credentials n,
     ic_snmp_config := ic_snmp_config n, ic_notes := ic_notes n, ic_enabled := ic_enabled n,
     ic_last_status := ic_last_status n\<rparr>)"

text \<open>Deleting rows of \<open>discovered_containers\<close> clears the routes' references to them (ON DELETE SET
  NULL); deleting a component deletes the containers found on it (ON DELETE CASCADE).\<close>

definition delete_containers :: "(container \<Rightarrow> bool) \<Rightarrow> db \<Rightarrow> db" where
  "delete_containers P d = (let gone = map dc_id (filter P (d_containers d)) in
     d\<lparr>d_containers := filter (\<lambda>c. \<not> P c) (d_containers d),
       d_routes := update_where (\<lambda>r. \<exists>k \<in> set gone. rt_container_id r = Some k) (\<lambda>r. r\<lparr>rt_container_id := None\<rparr>) (d_routes d)\<rparr>)"

definition component_delete :: "string \<Rightarrow> db \<Rightarrow> unit db_result" where
  "component_delete cid = db_op (\<lambda>d.
     if cid \<notin> ic_id ` set (d_components d) then (Inl NotFound, d)
     else (Inr (), delete_containers (\<lambda>k. dc_infra_component_id k = cid)
                     (d\<lparr>d_components := filter (\<lambda>c. ic_id c \<noteq> cid) (d_components d)\<rparr>)))"

definition component_update_status :: "string \<Rightarrow> string \<Rightarrow> string \<Rightarrow> db \<Rightarrow> unit db_result" where
  "component_update_status cid status polled =
     component_change cid (\<lambda>c. c\<lparr>ic_last_status := status, ic_last_polled_at := Some polled\<rparr>)"

definition component_update_ip :: "string \<Rightarrow> string \<Rightarrow> db \<Rightarrow> unit db_result" where
  "component_update_ip cid ip = component_change cid (\<lambda>c. c\<lparr>ic_ip := ip\<rparr>)"

definition component_update_meta :: "string \<Rightarrow> string \<Rightarrow> db \<Rightarrow> unit db_result" where
  "component_update_meta cid meta = component_change cid (\<lambda>c. c\<lparr>ic_meta := Some meta\<rparr>)"

section \<open>The scan scheduler\<close>

datatype bucket = Discovery | Metrics | Snapshots

fun bucket_name :: "bucket \<Rightarrow> string" where
  "bucket_name Discovery = ''discovery''"
| "bucket_name Metrics = ''metrics''"
| "bucket_name Snapshots = ''snapshot''"

text \<open>What a scanner is called with: the component's id and type. It answers with an error or not.\<close>

type_synonym scanner = "string \<Rightarrow> string \<Rightarrow> db \<Rightarrow> string option \<times> db"
type_synonym global_job = "db \<Rightarrow> db"

text \<open>The three buckets have the same registries; daily jobs have only global ones.\<close>

record scan_registry =
  sr_by_type :: "string \<rightharpoonup> scanner"
  sr_by_method :: "string \<rightharpoonup> scanner"
  sr_globals :: "global_job list"

record scan_scheduler =
  ss_buckets :: "bucket \<Rightarrow> scan_registry"
  ss_daily :: "global_job list"

definition new_scan_scheduler :: scan_scheduler where
  "new_scan_scheduler =
     \<lparr>ss_buckets = (\<lambda>_. \<lparr>sr_by_type = Map.empty, sr_by_method = Map.empty, sr_globals = []\<rparr>), ss_daily = []\<rparr>"

definition in_bucket :: "bucket \<Rightarrow> (scan_registry \<Rightarrow> scan_registry) \<Rightarrow> scan_scheduler \<Rightarrow> scan_scheduler" where
  "in_bucket b f s = s\<lparr>ss_buckets := (ss_buckets s)(b := f (ss_buckets s b))\<rparr>"

definition register_scanner :: "bucket \<Rightarrow> string \<Rightarrow> scanner \<Rightarrow> scan_scheduler \<Rightarrow> scan_scheduler" where
  "register_scanner b ty sc = in_bucket b (\<lambda>r. r\<lparr>sr_by_type := (sr_by_type r)(ty \<mapsto> sc)\<rparr>)"

definition register_by_method :: "bucket \<Rightarrow> string \<Rightarrow> scanner \<Rightarrow> scan_scheduler \<Rightarrow> scan_scheduler" where
  "register_by_method b m sc = in_bucket b (\<lambda>r. r\<lparr>sr_by_method := (sr_by_method r)(m \<mapsto> sc)\<rparr>)"

definition register_global :: "bucket \<Rightarrow> global_job \<Rightarrow> scan_scheduler \<Rightarrow> scan_scheduler" where
  "register_global b j = in_bucket b (\<lambda>r. r\<lparr>sr_globals := sr_globals r @ [j]\<rparr>)"

definition register_global_daily :: "global_job \<Rightarrow> scan_scheduler \<Rightarrow> scan_scheduler" where
  "register_global_daily j s = s\<lparr>ss_daily := ss_daily s @ [j]\<rparr>"

definition list_enabled :: "db \<Rightarrow> infra_component list db_result" where
  "list_enabled d = (case component_list d of
       (Inl e, d1) \<Rightarrow> (Inl e, d1) | (Inr cs, d1) \<Rightarrow> (Inr (filter ic_enabled cs), d1))"

definition scanner_for :: "scan_registry \<Rightarrow> infra_component \<Rightarrow> scanner option" where
  "scanner_for r c = (case sr_by_type r (ic_type c) of
       Some sc \<Rightarrow> Some sc | None \<Rightarrow> sr_by_method r (ic_collection_method c))"

definition scan_error_event ::
  "string \<Rightarrow> go_time \<Rightarrow> infra_component \<Rightarrow> bucket \<Rightarrow> string \<Rightarrow> event" where
  "scan_error_event uuid now c b err =
     \<lparr>ev_id = uuid, ev_level = ''error'', ev_source_name = ic_name c, ev_source_type = ''physical_host'',
      ev_source_id = ic_id c,
      ev_title = bucket_name b @ '' scan failed '' @ em_dash @ '' '' @ ic_name c @ '': '' @ err,
      ev_payload = ''{'' @ json_quote ''bucket'' @ '':'' @ go_quote (bucket_name b) @ '',''
        @ json_quote ''entity_id'' @ '':'' @ go_quote (ic_id c) @ '',''
        @ json_quote ''entity_type'' @ '':'' @ go_quote (ic_type c) @ '',''
        @ json_quote ''error'' @ '':'' @ go_quote err @ ''}'',
      ev_created_at = now\<rparr>"

definition scan_component ::
  "(string \<Rightarrow> string) \<Rightarrow> go_time \<Rightarrow> bucket \<Rightarrow> scan_registry \<Rightarrow> infra_component \<Rightarrow> db \<Rightarrow> db" where
  "scan_component uuid now b r c d =
     (case scanner_for r c of
        None \<Rightarrow> d
      | Some sc \<Rightarrow>
          (case sc (ic_id c) (ic_type c) d of
             (None, d2) \<Rightarrow> d2
           | (Some err, d2) \<Rightarrow> db_ignore (event_create (scan_error_event (uuid (ic_id c)) now c b err) d2)))"

text \<open>\<open>perm\<close> is the order the goroutines happen to run in.\<close>

definition run_pass ::
  "(string \<Rightarrow> string) \<Rightarrow> go_time \<Rightarrow> (infra_component list \<Rightarrow> infra_component list) \<Rightarrow> bucket \<Rightarrow> scan_scheduler
     \<Rightarrow> db \<Rightarrow> db" where
  "run_pass uuid now perm b s d0 =
     (case list_enabled d0 of
        (Inl _, d1) \<Rightarrow> d1
      | (Inr cs, d1) \<Rightarrow>
          foldl (\<lambda>d j. j d)
            (foldl (\<lambda>d c. scan_component uuid now b (ss_buckets s b) c d) d1 (perm cs))
            (sr_globals (ss_buckets s b)))"

definition run_daily_pass :: "scan_scheduler \<Rightarrow> db \<Rightarrow> db" where
  "run_daily_pass s d = foldl (\<lambda>d j. j d) d (ss_daily s)"

section \<open>The table keeps its constraints\<close>

lemma components_ok_fault_blind: "fault_blind components_ok"
  by (simp add: fault_blind_def components_ok_def)

lemma component_create_ok: "components_ok d \<Longrightarrow> components_ok (snd (component_create c d))"
  unfolding component_create_def
  by (rule db_op_invariant [OF components_ok_fault_blind]) (auto simp: components_ok_def component_row_ok_def)

lemma component_change_ok:
  assumes "components_ok d" and "\<And>c. ic_id (f c) = ic_id c"
  shows "components_ok (snd (component_change cid f d))"
  unfolding component_change_def
proof (rule db_op_invariant [OF components_ok_fault_blind _ assms(1)])
  fix d assume ok: "components_ok d"
  have "map ic_id (update_where (\<lambda>c. ic_id c = cid) f (d_components d)) = map ic_id (d_components d)"
    by (rule map_update_where) (rule assms(2))
  with ok show "components_ok (snd (if cid \<notin> ic_id ` set (d_components d) then (Inl NotFound, d)
     else if \<not> list_all (\<lambda>c. ic_id c = cid \<longrightarrow> component_row_ok (f c)) (d_components d) then (Inl DbFail, d)
     else (Inr (), d\<lparr>d_components := update_where (\<lambda>c. ic_id c = cid) f (d_components d)\<rparr>)))"
    by (auto simp: components_ok_def list_all_iff set_update_where)
qed

lemma component_delete_ok: "components_ok d \<Longrightarrow> components_ok (snd (component_delete cid d))"
  unfolding component_delete_def
  by (rule db_op_invariant [OF components_ok_fault_blind])
    (auto simp: components_ok_def list_all_iff distinct_map_filter_keep delete_containers_def Let_def)

text \<open>The scanners for OPNsense are registered under a component type the table rejects.\<close>

lemma opnsense_never_stored:
  assumes "components_ok d"
  shows "\<forall>c \<in> set (d_components d). ic_type c \<noteq> ''opnsense''"
proof -
  have "''opnsense'' \<notin> set component_types" by code_simp
  then show ?thesis using assms by (auto simp: components_ok_def component_row_ok_def list_all_iff)
qed

section \<open>The registries\<close>

lemma scanner_for_registered:
  "scanner_for (ss_buckets (register_scanner b ty sc s) b) c =
     (if ic_type c = ty then Some sc else scanner_for (ss_buckets s b) c)"
  "scanner_for (ss_buckets (register_by_method b m sc s) b) c =
     (if sr_by_type (ss_buckets s b) (ic_type c) = None \<and> ic_collection_method c = m then Some sc
      else scanner_for (ss_buckets s b) c)"
  by (auto simp: register_scanner_def register_by_method_def in_bucket_def scanner_for_def split: option.split)

definition sample_component :: infra_component where
  "sample_component = \<lparr>ic_id = ''n1'', ic_name = ''nas'', ic_ip = ''10.0.0.5'', ic_type = ''synology'',
     ic_collection_method = ''synology_api'', ic_credentials = None, ic_snmp_config = None, ic_meta = None,
     ic_notes = [], ic_enabled = True, ic_last_polled_at = None, ic_last_status = ''unknown'', ic_created_at = ''2025''\<rparr>"

end
