(* ===== verification/SnapshotScanners.thy ===== *)
theory SnapshotScanners
  imports Components
begin

text \<open>
  The snapshot scanners of internal/scanner/snapshot: snmp.go, synology.go, proxmox.go, opnsense.go and
  traefik.go.

  What a device answers (internal/infra's pollers and clients) is an argument of the scan; the
  records below are the parts of those answers the scanners look at. The scanners keep one poller per
  component in a cache: building one (\<open>build\<close>) and asking it (\<open>collect\<close>) are arguments too. Every
  capture draws its identifiers under the name of its metric, so a pass does not capture one metric
  twice (no two volumes, pools or disks of a component share a label).
\<close>

section \<open>Captures with a reaction\<close>

text \<open>The pattern all scanners share: capture a value; when it differs from the last one, note that the
  pass changed something and react to the previous value.\<close>

type_synonym pass_state = "bool \<times> db"

definition capture_then ::
  "snap_env \<Rightarrow> string \<Rightarrow> string \<Rightarrow> string \<Rightarrow> string \<Rightarrow> (string \<Rightarrow> db \<Rightarrow> db) \<Rightarrow> pass_state \<Rightarrow> pass_state" where
  "capture_then env etype eid mk v react st =
     (case capture_snapshot env etype eid mk v (snd st) of
        ((prev, changed), d2) \<Rightarrow> if changed then (True, react prev d2) else (fst st, d2))"

text \<open>A capture whose answer is dropped.\<close>

definition capture_only :: "snap_env \<Rightarrow> string \<Rightarrow> string \<Rightarrow> string \<Rightarrow> string \<Rightarrow> pass_state \<Rightarrow> pass_state" where
  "capture_only env etype eid mk v st = (fst st, snd (capture_snapshot env etype eid mk v (snd st)))"

definition host_event :: "snap_env \<Rightarrow> infra_component \<Rightarrow> string \<Rightarrow> string \<Rightarrow> string \<Rightarrow> db \<Rightarrow> db" where
  "host_event env c tag level title =
     write_snapshot_event env tag (ic_id c) (ic_name c) ''physical_host'' level title"

definition host_debug :: "snap_env \<Rightarrow> infra_component \<Rightarrow> pass_state \<Rightarrow> pass_state" where
  "host_debug env c st = (fst st, write_debug_event env (ic_id c) (ic_name c) ''physical_host'' (snd st))"

text \<open>Pollers are created once per component and kept.\<close>

definition get_or_create_poller ::
  "('cfg \<Rightarrow> string + 'p) \<Rightarrow> string \<Rightarrow> 'cfg \<Rightarrow> (string \<rightharpoonup> 'p) \<Rightarrow> (string + 'p) \<times> (string \<rightharpoonup> 'p)" where
  "get_or_create_poller build cid cfg cache =
     (case cache cid of
        Some p \<Rightarrow> (Inr p, cache)
      | None \<Rightarrow> (case build cfg of Inl e \<Rightarrow> (Inl e, cache) | Inr p \<Rightarrow> (Inr p, cache(cid \<mapsto> p))))"

definition non_empty_config :: "string option \<Rightarrow> bool" where
  "non_empty_config c = (case c of None \<Rightarrow> False | Some s \<Rightarrow> s \<noteq> [])"

section \<open>snmp.go\<close>

record disk_reading =
  dk_label :: string
  dk_percent :: rat

definition trim_char :: "char \<Rightarrow> string \<Rightarrow> string" where
  "trim_char c s = trim_right c (dropWhile (\<lambda>x. x = c) s)"

definition sanitize_disk_label :: "string \<Rightarrow> string" where
  "sanitize_disk_label s0 = (let s = trim_space s0 in
     if s = ''/'' then ''root''
     else (let t = to_lower (trim_char (CHR ''_'')
                (replace_all '' '' ''_'' (replace_all ''/'' ''_''
                  (replace_all [CHR 0x5C] ''_'' (replace_all '':'' [] s))))) in
           if t = [] then ''disk'' else t))"

text \<open>\<open>fmt.Sscanf(s, "%f", &x)\<close> for the decimals the scanner has written; anything else leaves zero.\<close>

definition parse_fixed :: "string \<Rightarrow> rat" where
  "parse_fixed s =
     (let neg = (case s of c # _ \<Rightarrow> c = CHR ''-'' | [] \<Rightarrow> False);
          body = (if neg then tl s else s) in
      case split_first (CHR ''.'') body of
        None \<Rightarrow> (if body \<noteq> [] \<and> list_all is_digit body
                 then (if neg then - 1 else 1) * of_nat (nat_of_digits body) else 0)
      | Some (a, b) \<Rightarrow>
          (if a \<noteq> [] \<and> b \<noteq> [] \<and> list_all is_digit a \<and> list_all is_digit b
           then (if neg then - 1 else 1) * (of_nat (nat_of_digits a) + of_nat (nat_of_digits b) / 10 ^ length b)
           else 0))"

definition snmp_disk :: "snap_env \<Rightarrow> infra_component \<Rightarrow> disk_reading \<Rightarrow> pass_state \<Rightarrow> pass_state" where
  "snmp_disk env c disk =
     (let mk = ''disk_pct_'' @ sanitize_disk_label (dk_label disk) in
      capture_then env ''snmp_host'' (ic_id c) mk (format_fixed 2 (dk_percent disk))
        (\<lambda>prev d. let new_cond = storage_condition (dk_percent disk) in
           if new_cond \<noteq> storage_condition (parse_fixed prev)
           then (case storage_event_title (ic_name c) (dk_label disk) new_cond (dk_percent disk) of
                   (level, title) \<Rightarrow> host_event env c mk level title d)
           else d))"

definition snmp_snapshot ::
  "(string \<times> string \<Rightarrow> string + 'p) \<Rightarrow> ('p \<Rightarrow> string + disk_reading list) \<Rightarrow> snap_env \<Rightarrow> string
     \<Rightarrow> (string \<rightharpoonup> 'p) \<Rightarrow> db \<Rightarrow> (string + bool) \<times> (string \<rightharpoonup> 'p) \<times> db" where
  "snmp_snapshot build collect env eid cache d0 =
     (case component_get eid d0 of
        (Inl _, d1) \<Rightarrow> (Inl (''get component '' @ eid), cache, d1)
      | (Inr c, d1) \<Rightarrow>
          if \<not> non_empty_config (ic_snmp_config c) then (Inl (''no SNMP config for '' @ ic_name c), cache, d1)
          else (case get_or_create_poller build eid (ic_ip c, the (ic_snmp_config c)) cache of
             (Inl err, cache2) \<Rightarrow> (Inl (''create SNMP poller: '' @ err), cache2, d1)
           | (Inr p, cache2) \<Rightarrow>
               (case collect p of
                  Inl err \<Rightarrow> (Inl (''collect SNMP metrics: '' @ err), cache2, d1)
                | Inr disks \<Rightarrow>
                    (case host_debug env c (foldl (\<lambda>st disk. snmp_disk env c disk st) (False, d1) disks) of
                       (changed, d2) \<Rightarrow> (Inr changed, cache2, d2)))))"

section \<open>synology.go and proxmox.go: storage\<close>

text \<open>Volumes and pools: an event on every change of the value while the new condition is not ok.\<close>

definition storage_pool :: "snap_env \<Rightarrow> infra_component \<Rightarrow> string \<Rightarrow> string \<Rightarrow> rat \<Rightarrow> pass_state \<Rightarrow> pass_state" where
  "storage_pool env c mk pool pct =
     capture_then env ''physical_host'' (ic_id c) mk (format_fixed 2 pct)
       (\<lambda>prev d. let new_cond = storage_condition pct in
          if new_cond \<noteq> ''ok''
          then (case storage_event_title (ic_name c) pool new_cond pct of (level, title) \<Rightarrow> host_event env c mk level title d)
          else d)"

record syno_volume =
  vo_path :: string
  vo_used_bytes :: int
  vo_total_bytes :: int
  vo_percent :: rat

record syno_disk =
  sd_slot :: int
  sd_model :: string
  sd_status :: string

record syno_meta =
  sm_dsm_version :: string
  sm_volumes :: "syno_volume list"
  sm_disks :: "syno_disk list"
  sm_update_available :: bool
  sm_update_version :: string

definition sanitise_vol_path :: "string \<Rightarrow> string" where
  "sanitise_vol_path path = (case path of [] \<Rightarrow> ''unknown'' | c # rest \<Rightarrow> if c = CHR ''/'' then rest else path)"

definition syno_volume_step :: "snap_env \<Rightarrow> infra_component \<Rightarrow> syno_volume \<Rightarrow> pass_state \<Rightarrow> pass_state" where
  "syno_volume_step env c vol st =
     (let key = sanitise_vol_path (vo_path vol) in
      capture_only env ''physical_host'' (ic_id c) (''volume_total_bytes_'' @ key) (show_int (vo_total_bytes vol))
       (capture_only env ''physical_host'' (ic_id c) (''volume_used_bytes_'' @ key) (show_int (vo_used_bytes vol))
         (storage_pool env c (''volume_pct_'' @ key) (vo_path vol) (vo_percent vol) st)))"

definition syno_disk_step :: "snap_env \<Rightarrow> infra_component \<Rightarrow> syno_disk \<Rightarrow> pass_state \<Rightarrow> pass_state" where
  "syno_disk_step env c disk =
     (let mk = ''disk_health_disk'' @ show_int (sd_slot disk) in
      capture_then env ''physical_host'' (ic_id c) mk (sd_status disk)
        (\<lambda>prev d. let new_cond = disk_health_condition (sd_status disk) in
           if new_cond \<noteq> ''ok''
           then host_event env c mk (if new_cond = ''error'' then ''error'' else ''warn'')
                  (''[snapshot] Disk health '' @ sd_status disk @ '' '' @ em_dash @ '' '' @ ic_name c @ '' slot ''
                     @ show_int (sd_slot disk) @ '' ('' @ sd_model disk @ ''): '' @ sd_status disk) d
           else d))"

definition syno_version_step :: "snap_env \<Rightarrow> infra_component \<Rightarrow> string \<Rightarrow> pass_state \<Rightarrow> pass_state" where
  "syno_version_step env c version st =
     (if version = [] then st
      else capture_then env ''physical_host'' (ic_id c) ''dsm_version'' version
        (\<lambda>prev. host_event env c ''dsm_version'' ''info''
           (''[snapshot] DSM updated '' @ em_dash @ '' '' @ ic_name c @ '': '' @ version)) st)"

text \<open>\<open>update_available\<close> holds \<open>false\<close> or the version on offer.\<close>

definition syno_update_step :: "snap_env \<Rightarrow> infra_component \<Rightarrow> bool \<Rightarrow> string \<Rightarrow> pass_state \<Rightarrow> pass_state" where
  "syno_update_step env c available version =
     capture_then env ''physical_host'' (ic_id c) ''update_available''
       (if available \<and> version \<noteq> [] then version else ''false'')
       (\<lambda>prev d. if available \<and> prev = ''false''
          then host_event env c ''update_available'' ''info''
                 (''[snapshot] DSM update available '' @ em_dash @ '' '' @ ic_name c @ '': '' @ version) d
          else if \<not> available \<and> prev \<noteq> ''false''
          then host_event env c ''update_available'' ''info''
                 (''[snapshot] DSM update applied '' @ em_dash @ '' '' @ ic_name c) d
          else d)"

definition syno_snapshot_from_meta :: "snap_env \<Rightarrow> infra_component \<Rightarrow> syno_meta \<Rightarrow> db \<Rightarrow> bool \<times> db" where
  "syno_snapshot_from_meta env c meta d =
     host_debug env c
       (syno_update_step env c (sm_update_available meta) (sm_update_version meta)
         (syno_version_step env c (sm_dsm_version meta)
           (foldl (\<lambda>st k. syno_disk_step env c k st)
             (foldl (\<lambda>st v. syno_volume_step env c v st) (False, d) (sm_volumes meta)) (sm_disks meta))))"

definition synology_snapshot ::
  "(string \<Rightarrow> syno_meta option) \<Rightarrow> (string \<Rightarrow> string + 'p) \<Rightarrow> ('p \<Rightarrow> string + (string \<times> rat) list) \<Rightarrow> snap_env
     \<Rightarrow> string \<Rightarrow> (string \<rightharpoonup> 'p) \<Rightarrow> db \<Rightarrow> (string + bool) \<times> (string \<rightharpoonup> 'p) \<times> db" where
  "synology_snapshot decode build collect env eid cache d0 =
     (case component_get eid d0 of
        (Inl _, d1) \<Rightarrow> (Inl (''get component '' @ eid), cache, d1)
      | (Inr c, d1) \<Rightarrow>
          if \<not> non_empty_config (ic_credentials c)
          then (Inl (''no credentials configured for '' @ ic_name c), cache, d1)
          else if non_empty_config (ic_meta c)
          then (case decode (the (ic_meta c)) of
                  None \<Rightarrow> (Inl ''parse synology_meta'', cache, d1)
                | Some meta \<Rightarrow> (case syno_snapshot_from_meta env c meta d1 of (changed, d2) \<Rightarrow> (Inr changed, cache, d2)))
          else (case get_or_create_poller build eid (the (ic_credentials c)) cache of
             (Inl err, cache2) \<Rightarrow> (Inl (''create synology poller: '' @ err), cache2, d1)
           | (Inr p, cache2) \<Rightarrow>
               (case collect p of
                  Inl err \<Rightarrow> (Inl (''collect synology metrics: '' @ err), cache2, d1)
                | Inr vols \<Rightarrow>
                    (case host_debug env c (foldl (\<lambda>st (key, pct). storage_pool env c (''volume_pct_'' @ key) key pct st)
                            (False, d1) vols) of
                       (changed, d2) \<Rightarrow> (Inr changed, cache2, d2)))))"

section \<open>proxmox.go\<close>

record pve_pool =
  pp_name :: string
  pp_node :: string
  pp_used_bytes :: int
  pp_total_bytes :: int
  pp_used_percent :: rat
  pp_active :: bool

record pve_node =
  pn_node :: string
  pn_version :: string
  pn_updates :: int

definition pve_pool_step :: "snap_env \<Rightarrow> infra_component \<Rightarrow> pve_pool \<Rightarrow> pass_state \<Rightarrow> pass_state" where
  "pve_pool_step env c pool st =
     (if \<not> pp_active pool then st
      else let key = pp_node pool @ ''/'' @ pp_name pool in
        capture_only env ''physical_host'' (ic_id c) (''storage_total_bytes_'' @ key) (show_int (pp_total_bytes pool))
          (capture_only env ''physical_host'' (ic_id c) (''storage_used_bytes_'' @ key) (show_int (pp_used_bytes pool))
            (storage_pool env c (''storage_pct_'' @ key) key (pp_used_percent pool) st)))"

definition pve_version_step :: "snap_env \<Rightarrow> infra_component \<Rightarrow> pve_node \<Rightarrow> pass_state \<Rightarrow> pass_state" where
  "pve_version_step env c n st =
     (if pn_version n = [] then st
      else let mk = ''pve_version_'' @ pn_node n in
        capture_then env ''physical_host'' (ic_id c) mk (pn_version n)
          (\<lambda>prev. host_event env c mk ''info''
             (''[snapshot] PVE updated '' @ em_dash @ '' '' @ ic_name c @ ''/'' @ pn_node n @ '': '' @ pn_version n)) st)"

text \<open>\<open>fmt.Sscanf(prev, "%d", &n)\<close> of a number the scanner has written.\<close>

definition scan_int :: "string \<Rightarrow> int" where
  "scan_int s = (case go_atoi s of Some n \<Rightarrow> n | None \<Rightarrow> 0)"

definition pve_updates_step :: "snap_env \<Rightarrow> infra_component \<Rightarrow> pve_node \<Rightarrow> pass_state \<Rightarrow> pass_state" where
  "pve_updates_step env c n =
     (let mk = ''updates_available_'' @ pn_node n in
      capture_then env ''physical_host'' (ic_id c) mk (show_int (pn_updates n))
        (\<lambda>prev d. if 0 < pn_updates n \<and> scan_int prev = 0
           then host_event env c mk ''info'' (''[snapshot] '' @ show_int (pn_updates n) @ '' update(s) available ''
                  @ em_dash @ '' '' @ ic_name c @ ''/'' @ pn_node n) d
           else if pn_updates n = 0 \<and> 0 < scan_int prev
           then host_event env c mk ''info'' (''[snapshot] Updates applied '' @ em_dash @ '' '' @ ic_name c @ ''/'' @ pn_node n) d
           else d))"

text \<open>The latest creation time per VM, in Unix seconds; VM 0 is no VM, and the map starts from zero.\<close>

fun latest_by_vmid :: "(int \<times> int) list \<Rightarrow> (int \<rightharpoonup> int) \<Rightarrow> (int \<rightharpoonup> int)" where
  "latest_by_vmid [] m = m"
| "latest_by_vmid ((vmid, ctime) # fs) m =
     latest_by_vmid fs (if vmid \<noteq> 0 \<and> (case m vmid of Some t \<Rightarrow> t | None \<Rightarrow> 0) < ctime
                        then m(vmid \<mapsto> ctime) else m)"

definition stale_after :: int where
  "stale_after = 48 * 60 * 60"

definition pve_backup_step :: "snap_env \<Rightarrow> infra_component \<Rightarrow> int \<times> int \<Rightarrow> pass_state \<Rightarrow> pass_state" where
  "pve_backup_step env c vm st =
     (case vm of (vmid, ctime) \<Rightarrow>
        let key = show_int vmid; ck = ''backup_ctime_vm_'' @ key; sk = ''backup_stale_vm_'' @ key;
            stale = (if stale_after < unix_secs (sv_now env) - ctime then ''1'' else ''0'') in
        capture_then env ''physical_host'' (ic_id c) sk stale
          (\<lambda>prev d. if stale = ''1'' \<and> prev = ''0''
             then host_event env c sk ''warn'' (''[backup] VM '' @ key @ '' has no recent backup on '' @ ic_name c @ '' (>48h)'') d
             else if stale = ''0'' \<and> prev = ''1''
             then host_event env c sk ''info'' (''[backup] VM '' @ key @ '' backup recovered on '' @ ic_name c) d
             else d)
          (capture_then env ''physical_host'' (ic_id c) ck (show_int ctime)
             (\<lambda>prev. host_event env c ck ''info'' (''[backup] VM '' @ key @ '' backed up successfully on '' @ ic_name c)) st))"

record pve_answers =
  pa_pools :: "pve_pool list option"
  pa_nodes :: "pve_node list option"
  pa_backups :: "(int \<times> int) list option"

text \<open>Go's map iteration order over the VMs is the argument \<open>vm_order\<close>.\<close>

definition proxmox_snapshot ::
  "(string \<Rightarrow> string + 'p) \<Rightarrow> ('p \<Rightarrow> pve_answers) \<Rightarrow> ((int \<rightharpoonup> int) \<Rightarrow> (int \<times> int) list) \<Rightarrow> snap_env
     \<Rightarrow> string \<Rightarrow> (string \<rightharpoonup> 'p) \<Rightarrow> db \<Rightarrow> (string + bool) \<times> (string \<rightharpoonup> 'p) \<times> db" where
  "proxmox_snapshot build ask vm_order env eid cache d0 =
     (case component_get eid d0 of
        (Inl _, d1) \<Rightarrow> (Inl (''get component '' @ eid), cache, d1)
      | (Inr c, d1) \<Rightarrow>
          if \<not> non_empty_config (ic_credentials c)
          then (Inl (''no credentials configured for '' @ ic_name c), cache, d1)
          else (case get_or_create_poller build eid (the (ic_credentials c)) cache of
             (Inl err, cache2) \<Rightarrow> (Inl (''create proxmox poller: '' @ err), cache2, d1)
           | (Inr p, cache2) \<Rightarrow>
               (let st1 = (case pa_pools (ask p) of None \<Rightarrow> (False, d1)
                           | Some pools \<Rightarrow> foldl (\<lambda>st pool. pve_pool_step env c pool st) (False, d1) pools);
                    st2 = (case pa_nodes (ask p) of None \<Rightarrow> st1
                           | Some nodes \<Rightarrow> foldl (\<lambda>st n. pve_updates_step env c n (pve_version_step env c n st)) st1 nodes);
                    st3 = (case pa_backups (ask p) of None \<Rightarrow> st2
                           | Some files \<Rightarrow> foldl (\<lambda>st vm. pve_backup_step env c vm st) st2
                               (vm_order (latest_by_vmid files Map.empty))) in
                case host_debug env c st3 of (changed, d2) \<Rightarrow> (Inr changed, cache2, d2))))"

section \<open>opnsense.go\<close>

text \<open>\<open>fetch\<close> decodes the credentials, asks the firewall and gives the installed and the latest version.\<close>

definition opnsense_snapshot ::
  "(string \<Rightarrow> string + (string \<times> string)) \<Rightarrow> snap_env \<Rightarrow> string \<Rightarrow> db \<Rightarrow> (string + bool) \<times> db" where
  "opnsense_snapshot fetch env eid d0 =
     (case component_get eid d0 of
        (Inl _, d1) \<Rightarrow> (Inl (''get component '' @ eid), d1)
      | (Inr c, d1) \<Rightarrow>
          if \<not> non_empty_config (ic_credentials c) then (Inl (''no credentials configured for '' @ ic_name c), d1)
          else (case fetch (the (ic_credentials c)) of
             Inl err \<Rightarrow> (Inl err, d1)
           | Inr (version, latest) \<Rightarrow>
               (let st1 = (if version = [] then (False, d1)
                           else capture_then env ''physical_host'' eid ''opnsense_version'' version
                             (\<lambda>prev. host_event env c ''opnsense_version'' ''info''
                                (''[snapshot] OPNsense updated '' @ em_dash @ '' '' @ ic_name c @ '': '' @ version)) (False, d1));
                    avail = (if latest \<noteq> [] \<and> latest \<noteq> version then latest else ''false'');
                    st2 = capture_then env ''physical_host'' eid ''update_available'' avail
                      (\<lambda>prev d. if avail \<noteq> ''false'' \<and> prev = ''false''
                         then host_event env c ''update_available'' ''info''
                                (''[snapshot] OPNsense update available '' @ em_dash @ '' '' @ ic_name c @ '': '' @ avail) d
                         else if avail = ''false'' \<and> prev \<noteq> ''false''
                         then host_event env c ''update_available'' ''info''
                                (''[snapshot] OPNsense update applied '' @ em_dash @ '' '' @ ic_name c) d
                         else d) st1 in
                case host_debug env c st2 of (changed, d2) \<Rightarrow> (Inr changed, d2))))"

section \<open>traefik.go\<close>

definition host_quoted :: "char \<Rightarrow> string \<Rightarrow> string option" where
  "host_quoted q s = (let h = takeWhile (\<lambda>c. c \<noteq> q) s in
     if h \<noteq> [] \<and> has_prefix (drop (length h) s) [q, CHR '')''] then Some h else None)"

definition host_at :: "string \<Rightarrow> string option" where
  "host_at s =
     (if has_prefix s (''Host('' @ [CHR 0x60]) then host_quoted (CHR 0x60) (drop 6 s)
      else if has_prefix s (''Host('' @ [CHR 0x22]) then host_quoted (CHR 0x22) (drop 6 s)
      else None)"

text \<open>The leftmost match of the regular expression.\<close>

fun parse_host_from_rule :: "string \<Rightarrow> string option" where
  "parse_host_from_rule [] = None"
| "parse_host_from_rule (c # s) =
     (case host_at (c # s) of Some h \<Rightarrow> Some h | None \<Rightarrow> parse_host_from_rule s)"

record traefik_router =
  tr_name :: string
  tr_rule :: string
  tr_service :: string
  tr_status :: string

record traefik_service =
  ts_name :: string
  ts_servers :: "(string \<times> string) list"  \<comment> \<open>server URL and state, in Go's iteration order\<close>

record traefik_memory =
  tm_routers :: "string \<rightharpoonup> string"
  tm_servers :: "string \<rightharpoonup> string"

definition right_arrow :: string where
  "right_arrow = [CHR 0xE2, CHR 0x86, CHR 0x92]"

definition traefik_router_step ::
  "snap_env \<Rightarrow> infra_component \<Rightarrow> traefik_router \<Rightarrow> traefik_memory \<times> pass_state \<Rightarrow> traefik_memory \<times> pass_state" where
  "traefik_router_step env c rr ms =
     (case ms of (m, changed, d) \<Rightarrow>
        if tr_service rr = ''api@internal'' \<or> tr_service rr = ''dashboard@internal'' then ms
        else let status = (if tr_status rr = [] then ''enabled'' else tr_status rr);
                 key = ic_id c @ '':'' @ tr_name rr;
                 m2 = m\<lparr>tm_routers := (tm_routers m)(key \<mapsto> status)\<rparr> in
             (case tm_routers m key of
                None \<Rightarrow> (m2, changed, d)
              | Some prev \<Rightarrow>
                  if prev = status then (m2, changed, d)
                  else let label = (case parse_host_from_rule (tr_rule rr) of Some h \<Rightarrow> h | None \<Rightarrow> tr_name rr) in
                       (m2, True,
                        if status = ''disabled''
                        then host_event env c (''router:'' @ key) ''error''
                               (''[snapshot] Traefik router disabled: '' @ label @ '' on '' @ ic_name c) d
                        else host_event env c (''router:'' @ key) ''info''
                               (''[snapshot] Traefik router restored: '' @ label @ '' on '' @ ic_name c) d)))"

definition traefik_server_step ::
  "snap_env \<Rightarrow> infra_component \<Rightarrow> string \<Rightarrow> string \<times> string \<Rightarrow> traefik_memory \<times> pass_state
     \<Rightarrow> traefik_memory \<times> pass_state" where
  "traefik_server_step env c svc server ms =
     (case (server, ms) of ((url, state), m, changed, d) \<Rightarrow>
        let key = ic_id c @ '':'' @ svc @ '':'' @ url;
            m2 = m\<lparr>tm_servers := (tm_servers m)(key \<mapsto> state)\<rparr> in
        (case tm_servers m key of
           None \<Rightarrow> (m2, changed, d)
         | Some prev \<Rightarrow>
             if equal_fold prev state then (m2, changed, d)
             else (m2, True,
               let rest = svc @ '' '' @ right_arrow @ '' '' @ url @ '' on '' @ ic_name c in
               if equal_fold state ''DOWN''
               then host_event env c (''server:'' @ key) ''error'' (''[snapshot] Traefik backend down: '' @ rest) d
               else if equal_fold state ''UP''
               then host_event env c (''server:'' @ key) ''info'' (''[snapshot] Traefik backend recovered: '' @ rest) d
               else d)))"

definition traefik_service_step ::
  "snap_env \<Rightarrow> infra_component \<Rightarrow> traefik_service \<Rightarrow> traefik_memory \<times> pass_state \<Rightarrow> traefik_memory \<times> pass_state" where
  "traefik_service_step env c svc ms =
     (if has_suffix (ts_name svc) ''@internal'' then ms
      else foldl (\<lambda>ms server. traefik_server_step env c (ts_name svc) server ms) ms (ts_servers svc))"

record traefik_answers =
  ta_ping :: "string option"
  ta_routers :: "traefik_router list option"
  ta_services :: "traefik_service list option"

definition traefik_snapshot ::
  "(infra_component \<Rightarrow> traefik_answers) \<Rightarrow> snap_env \<Rightarrow> string \<Rightarrow> traefik_memory \<Rightarrow> db
     \<Rightarrow> (string + bool) \<times> traefik_memory \<times> db" where
  "traefik_snapshot ask env eid m d0 =
     (case component_get eid d0 of
        (Inl _, d1) \<Rightarrow> (Inl (''get component '' @ eid), m, d1)
      | (Inr c, d1) \<Rightarrow>
          (case ta_ping (ask c) of
             Some err \<Rightarrow> (Inl (''ping: '' @ err), m, d1)
           | None \<Rightarrow>
               (let ms1 = (case ta_routers (ask c) of None \<Rightarrow> (m, False, d1)
                           | Some rs \<Rightarrow> foldl (\<lambda>ms rr. traefik_router_step env c rr ms) (m, False, d1) rs);
                    ms2 = (case ta_services (ask c) of None \<Rightarrow> ms1
                           | Some ss \<Rightarrow> foldl (\<lambda>ms svc. traefik_service_step env c svc ms) ms1 ss) in
                (case ms2 of (m2, st) \<Rightarrow> (case host_debug env c st of (changed, d2) \<Rightarrow> (Inr changed, m2, d2))))))"

section \<open>The history of one metric\<close>

text \<open>Passes that watch one metric: \<open>rendered\<close> gives the text that is stored for a reading, \<open>react\<close> what is
  reported about it when the stored text was another one.\<close>

definition watch ::
  "string \<Rightarrow> infra_component \<Rightarrow> string \<Rightarrow> ('r \<Rightarrow> string) \<Rightarrow> ('r \<Rightarrow> string \<Rightarrow> (string \<times> string) option)
     \<Rightarrow> snap_env \<times> 'r \<Rightarrow> pass_state \<Rightarrow> pass_state" where
  "watch etype c mk rendered react p =
     capture_then (fst p) etype (ic_id c) mk (rendered (snd p))
       (\<lambda>prev d. case react (snd p) prev of None \<Rightarrow> d | Some (level, title) \<Rightarrow> host_event (fst p) c mk level title d)"

fun watch_ready ::
  "string \<Rightarrow> infra_component \<Rightarrow> string \<Rightarrow> ('r \<Rightarrow> string) \<Rightarrow> ('r \<Rightarrow> string \<Rightarrow> (string \<times> string) option)
     \<Rightarrow> (snap_env \<times> 'r) list \<Rightarrow> pass_state \<Rightarrow> bool" where
  "watch_ready etype c mk rendered react [] st = True"
| "watch_ready etype c mk rendered react (p # ps) st =
     (ready_for (fst p) (ic_id c) {mk} (snd st) \<and> events_ready (fst p) (ic_id c) {mk} (snd st)
      \<and> watch_ready etype c mk rendered react ps (watch etype c mk rendered react p st))"

fun reported ::
  "('r \<Rightarrow> string) \<Rightarrow> ('r \<Rightarrow> string \<Rightarrow> (string \<times> string) option) \<Rightarrow> string option \<Rightarrow> 'r list \<Rightarrow> string list" where
  "reported rendered react prev [] = []"
| "reported rendered react prev (r # rs) =
     (case prev of None \<Rightarrow> []
      | Some p \<Rightarrow> if p = rendered r then []
                  else (case react r p of None \<Rightarrow> [] | Some (level, _) \<Rightarrow> [level]))
     @ reported rendered react (Some (rendered r)) rs"

lemma capture_then_ready:
  assumes "ready_for env eid M d" and "mk \<in> M"
  obtains d2 where "capture_then env etype eid mk v react (ch, d) =
      (case last_value d (eid, mk) of
         None \<Rightarrow> (ch, d2) | Some p \<Rightarrow> if p = v then (ch, d2) else (True, react p d2))"
    and "ready_for env eid (M - {mk}) d2" and "d_events d2 = d_events d"
    and "last_value d2 = (last_value d)((eid, mk) \<mapsto> v)"
proof -
  obtain d2 where "capture_snapshot env etype eid mk v d =
      ((case last_value d (eid, mk) of Some p \<Rightarrow> p | None \<Rightarrow> [],
        case last_value d (eid, mk) of Some p \<Rightarrow> p \<noteq> v | None \<Rightarrow> False), d2)"
    "ready_for env eid (M - {mk}) d2" "d_events d2 = d_events d"
    "last_value d2 = (last_value d)((eid, mk) \<mapsto> v)"
    by (rule ready_capture_ex [OF assms])
  then show thesis
    by (intro that [of d2]) (auto simp: capture_then_def split: option.split)
qed

lemma host_event_ready:
  assumes "ready_for env (ic_id c) M d" and "events_ready env (ic_id c) {mk} d" and "level \<in> set event_levels"
  shows "host_event env c mk level title d =
    d\<lparr>d_events := d_events d @ [snapshot_event env mk (ic_id c) (ic_name c) ''physical_host'' level title]\<rparr>"
  unfolding host_event_def
  by (rule write_event_ready [OF assms(1,2) _ assms(3)]) (simp_all add: event_source_types_def)

lemma watch_events:
  assumes "watch_ready etype c mk rendered react ps st"
    and levels: "\<And>r prev level title. react r prev = Some (level, title) \<Longrightarrow> level \<in> set event_levels"
  shows "\<exists>es. d_events (snd (foldl (\<lambda>st p. watch etype c mk rendered react p st) st ps)) = d_events (snd st) @ es
    \<and> map ev_level es = reported rendered react (last_value (snd st) (ic_id c, mk)) (map snd ps)"
  using assms(1)
proof (induction ps arbitrary: st)
  case Nil
  then show ?case by simp
next
  case (Cons p ps)
  let ?last = "last_value (snd st) (ic_id c, mk)" and ?v = "rendered (snd p)"
  let ?react = "\<lambda>prev d. case react (snd p) prev of None \<Rightarrow> d | Some (level, title) \<Rightarrow> host_event (fst p) c mk level title d"
  have ready: "ready_for (fst p) (ic_id c) {mk} (snd st)" and fresh: "events_ready (fst p) (ic_id c) {mk} (snd st)"
    using Cons.prems by simp_all
  obtain d2 where run: "capture_then (fst p) etype (ic_id c) mk ?v ?react (fst st, snd st) =
      (case ?last of None \<Rightarrow> (fst st, d2) | Some q \<Rightarrow> if q = ?v then (fst st, d2) else (True, ?react q d2))"
    and d2: "ready_for (fst p) (ic_id c) ({mk} - {mk}) d2" "d_events d2 = d_events (snd st)"
      "last_value d2 = (last_value (snd st))((ic_id c, mk) \<mapsto> ?v)"
    by (rule capture_then_ready [OF ready, where mk = mk and etype = etype and v = ?v and react = ?react and ch = "fst st"])
      auto
  have fresh2: "events_ready (fst p) (ic_id c) {mk} d2"
    using fresh events_ready_same [OF d2(2)] by simp
  obtain es1 where es1: "d_events (snd (watch etype c mk rendered react p st)) = d_events (snd st) @ es1"
    and lv1: "map ev_level es1 = (case ?last of None \<Rightarrow> []
        | Some q \<Rightarrow> if q = ?v then [] else (case react (snd p) q of None \<Rightarrow> [] | Some (level, _) \<Rightarrow> [level]))"
    and now: "last_value (snd (watch etype c mk rendered react p st)) (ic_id c, mk) = Some ?v"
  proof (cases "\<exists>q level title. ?last = Some q \<and> q \<noteq> ?v \<and> react (snd p) q = Some (level, title)")
    case True
    then obtain q level title where q: "?last = Some q" "q \<noteq> ?v" "react (snd p) q = Some (level, title)" by blast
    have "watch etype c mk rendered react p st = (True, d2\<lparr>d_events := d_events d2
        @ [snapshot_event (fst p) mk (ic_id c) (ic_name c) ''physical_host'' level title]\<rparr>)"
      using run q host_event_ready [OF d2(1) fresh2 levels [OF q(3)]] by (simp add: watch_def)
    with q d2 show thesis
      by (intro that [of "[snapshot_event (fst p) mk (ic_id c) (ic_name c) ''physical_host'' level title]"]) simp_all
  next
    case False
    then have "snd (watch etype c mk rendered react p st) = d2"
      using run by (auto simp: watch_def split: option.splits)
    with False d2 show thesis
      by (intro that [of "[]"]) (auto split: option.split)
  qed
  obtain es where "d_events (snd (foldl (\<lambda>st p. watch etype c mk rendered react p st)
        (watch etype c mk rendered react p st) ps)) = d_events (snd (watch etype c mk rendered react p st)) @ es"
    "map ev_level es = reported rendered react (Some ?v) (map snd ps)"
    using Cons.IH [of "watch etype c mk rendered react p st"] Cons.prems now by auto
  with es1 lv1 show ?case
    by (intro exI [of _ "es1 @ es"]) simp
qed

section \<open>Percentages as text\<close>

definition hundredths :: "rat \<Rightarrow> rat" where
  "hundredths r = of_int (round_half_even (r * 100)) / 100"

lemma round_half_even_nonneg: "0 \<le> r \<Longrightarrow> 0 \<le> round_half_even r"
  by (auto simp: round_half_even_def Let_def intro: add_nonneg_nonneg)

lemma round_half_even_int: "round_half_even (of_int n) = n"
  by (simp add: round_half_even_def)

text \<open>Writing a non-negative percentage with \<open>%.2f\<close> and reading it back with \<open>%f\<close> gives the percentage
  rounded to hundredths; a percentage with two decimals survives unchanged.\<close>

theorem percent_roundtrip:
  assumes "0 \<le> r"
  shows "parse_fixed (format_fixed 2 r) = hundredths r
    \<and> parse_fixed (format_fixed 2 (hundredths r)) = hundredths r"
proof -
  have one: "parse_fixed (format_fixed 2 r) = hundredths r" if nonneg: "0 \<le> r" for r
  proof -
    obtain n where n: "round_half_even (r * 100) = int n"
      using round_half_even_nonneg [of "r * 100"] nonneg by (auto dest: zero_le_imp_eq_int)
    let ?a = "show_nat (n div 100)" and ?b = "pad_zeros 2 (show_nat (n mod 100))"
    have fmt: "format_fixed 2 r = ?a @ ''.'' @ ?b"
      using nonneg by (simp add: format_fixed_def n)
    have a: "list_all is_digit ?a" "?a \<noteq> []" using show_nat_digits by auto
    have len: "length ?b = 2" by (rule length_pad) simp_all
    then have b: "?b \<noteq> []" by auto
    have no_dot: "CHR ''.'' \<notin> set ?a" using a(1) by (auto simp: list_all_iff is_digit_def)
    have no_minus: "hd (?a @ ''.'' @ ?b) \<noteq> CHR ''-''" using a by (cases ?a) (auto simp: is_digit_def)
    obtain x xs where x: "?a = x # xs" using a(2) by (cases ?a) auto
    have val: "nat_of_digits (x # xs) = n div 100" by (metis x nat_of_digits_show_nat)
    have "parse_fixed (format_fixed 2 r) = of_nat (n div 100) + of_nat (n mod 100) / 100"
      using no_minus a b len digits_pad [of 2 "n mod 100"] split_first_append [OF no_dot, of ?b] val
      by (auto simp: parse_fixed_def fmt x Let_def)
    also have "\<dots> = of_nat n / 100"
    proof -
      have "(of_nat n :: rat) = 100 * of_nat (n div 100) + of_nat (n mod 100)"
        by (metis mult_div_mod_eq of_nat_add of_nat_mult of_nat_numeral)
      then show ?thesis by (simp add: field_simps)
    qed
    also have "\<dots> = hundredths r" by (simp add: hundredths_def n)
    finally show ?thesis .
  qed
  have "0 \<le> hundredths r" using assms by (simp add: hundredths_def round_half_even_nonneg)
  moreover have "hundredths (hundredths r) = hundredths r"
    by (simp add: hundredths_def round_half_even_int)
  ultimately show ?thesis using one [of r] one [of "hundredths r"] assms by simp
qed

theorem percent_roundtrip_witness:
  "parse_fixed (format_fixed 2 (80.125)) = hundredths (80.125)"
  using percent_roundtrip [of "80.125"] by simp

section \<open>What the scanners report\<close>

definition snmp_react :: "infra_component \<Rightarrow> string \<Rightarrow> rat \<Rightarrow> string \<Rightarrow> (string \<times> string) option" where
  "snmp_react c label pct prev =
     (if storage_condition pct \<noteq> storage_condition (parse_fixed prev)
      then Some (storage_event_title (ic_name c) label (storage_condition pct) pct) else None)"

definition pool_react :: "infra_component \<Rightarrow> string \<Rightarrow> rat \<Rightarrow> string \<Rightarrow> (string \<times> string) option" where
  "pool_react c pool pct prev =
     (if storage_condition pct \<noteq> ''ok''
      then Some (storage_event_title (ic_name c) pool (storage_condition pct) pct) else None)"

lemma snmp_disk_watch:
  "snmp_disk env c \<lparr>dk_label = l, dk_percent = pct\<rparr>
     = watch ''snmp_host'' c (''disk_pct_'' @ sanitize_disk_label l) (format_fixed 2) (snmp_react c l) (env, pct)"
  by (rule ext) (auto simp: snmp_disk_def watch_def snmp_react_def Let_def
      intro!: arg_cong [where f = "\<lambda>f. capture_then env ''snmp_host'' (ic_id c) _ _ f _"] ext)

lemma storage_pool_watch:
  "storage_pool env c mk pool pct = watch ''physical_host'' c mk (format_fixed 2) (pool_react c pool) (env, pct)"
  by (rule ext) (auto simp: storage_pool_def watch_def pool_react_def Let_def
      intro!: arg_cong [where f = "\<lambda>f. capture_then env ''physical_host'' (ic_id c) _ _ f _"] ext)

definition storage_level :: "string \<Rightarrow> string" where
  "storage_level cond = (if cond = ''ok'' then ''info'' else cond)"

lemma storage_title_level:
  "fst (storage_event_title name pool (storage_condition pct) pct) = storage_level (storage_condition pct)
   \<and> storage_level (storage_condition pct) \<in> set event_levels"
proof -
  consider "storage_condition pct = ''error''" | "storage_condition pct = ''warn''" | "storage_condition pct = ''ok''"
  proof -
    have "storage_condition pct = ''error'' \<or> storage_condition pct = ''warn'' \<or> storage_condition pct = ''ok''"
      by (simp add: storage_condition_def)
    then show thesis using that by blast
  qed
  then show ?thesis
    by cases (simp_all add: storage_event_title_def storage_level_def event_levels_def)
qed

lemma react_levels:
  "snmp_react c l pct prev = Some lt \<Longrightarrow> fst lt = storage_level (storage_condition pct)"
  "pool_react c l pct prev = Some lt \<Longrightarrow> fst lt = storage_level (storage_condition pct)"
  using storage_title_level
  by (metis snmp_react_def option.distinct(1) option.inject, metis pool_react_def option.distinct(1) option.inject)

lemma storage_level_event: "storage_level (storage_condition pct) \<in> set event_levels"
  using storage_title_level by blast

text \<open>A condition is reported when it differs from the one before.\<close>

definition storage_emit :: "string option \<Rightarrow> string \<Rightarrow> string list" where
  "storage_emit prev cond = (case prev of None \<Rightarrow> [] | Some p \<Rightarrow> if p = cond then [] else [storage_level cond])"

lemma storage_emit_simps [simp]:
  "storage_emit None cond = []"
  "storage_emit (Some p) cond = (if p = cond then [] else [storage_level cond])"
  by (simp_all add: storage_emit_def)

text \<open>A reading that rounding to hundredths does not carry over a threshold.\<close>

definition clear_of_thresholds :: "rat \<Rightarrow> bool" where
  "clear_of_thresholds r = (0 \<le> r \<and> storage_condition (hundredths r) = storage_condition r)"

lemma reported_snmp:
  assumes "list_all clear_of_thresholds rs" and "pred_option clear_of_thresholds q"
  shows "reported (format_fixed 2) (snmp_react c l) (map_option (format_fixed 2) q) rs
    = emits_along storage_emit (map_option storage_condition q) (map storage_condition rs)"
  using assms
proof (induction rs arbitrary: q)
  case Nil
  then show ?case by simp
next
  case (Cons r rs)
  have IH: "reported (format_fixed 2) (snmp_react c l) (Some (format_fixed 2 r)) rs
      = emits_along storage_emit (Some (storage_condition r)) (map storage_condition rs)"
    using Cons.IH [of "Some r"] Cons.prems by simp
  have reread: "clear_of_thresholds x \<Longrightarrow> storage_condition (parse_fixed (format_fixed 2 x)) = storage_condition x" for x
    using percent_roundtrip [of x] by (simp add: clear_of_thresholds_def)
  show ?case
  proof (cases q)
    case None
    then show ?thesis using IH by simp
  next
    case (Some p)
    have p: "storage_condition (parse_fixed (format_fixed 2 p)) = storage_condition p"
      and r: "storage_condition (parse_fixed (format_fixed 2 r)) = storage_condition r"
      using Cons.prems Some reread by simp_all
    have same: "format_fixed 2 p = format_fixed 2 r \<Longrightarrow> storage_condition p = storage_condition r"
      using p r by simp
    obtain level title where title: "storage_event_title (ic_name c) l (storage_condition r) r = (level, title)" by fastforce
    have "level = storage_level (storage_condition r)"
      using storage_title_level [of "ic_name c" l r] title by simp
    moreover have "snmp_react c l r (format_fixed 2 p)
        = (if storage_condition r \<noteq> storage_condition p then Some (level, title) else None)"
      by (simp add: snmp_react_def p title)
    ultimately show ?thesis
      using IH same Some by auto
  qed
qed

text \<open>The disks of an SNMP host are reported when their condition changes and only then: over any
  number of passes the events of a disk are the transitions between ok, warn and error, a return to
  ok as an information; readings within half a hundredth of a threshold are excepted, since the
  scanner compares with the rounded text it has stored.\<close>

theorem snmp_reports_condition_changes:
  assumes "watch_ready ''snmp_host'' c (''disk_pct_'' @ sanitize_disk_label l) (format_fixed 2) (snmp_react c l) ps (ch, d)"
    and "list_all clear_of_thresholds (map snd ps)" and "pred_option clear_of_thresholds q"
    and "last_value d (ic_id c, ''disk_pct_'' @ sanitize_disk_label l) = map_option (format_fixed 2) q"
  shows "\<exists>es. d_events (snd (foldl (\<lambda>st (env, pct). snmp_disk env c \<lparr>dk_label = l, dk_percent = pct\<rparr> st) (ch, d) ps))
        = d_events d @ es
    \<and> map ev_level es = emits_along storage_emit (map_option storage_condition q) (map (storage_condition \<circ> snd) ps)"
proof -
  have run: "(\<lambda>st (env, pct). snmp_disk env c \<lparr>dk_label = l, dk_percent = pct\<rparr> st)
      = (\<lambda>st p. watch ''snmp_host'' c (''disk_pct_'' @ sanitize_disk_label l) (format_fixed 2) (snmp_react c l) p st)"
    by (intro ext) (auto simp: snmp_disk_watch)
  have lv: "snmp_react c l r prev = Some (level, title) \<Longrightarrow> level \<in> set event_levels" for r prev level title
    by (drule react_levels(1)) (metis fst_conv storage_level_event)
  show ?thesis
    unfolding run
    using watch_events [OF assms(1) lv] reported_snmp [OF assms(2,3), of c l] assms(4) by auto
qed

definition sample_host :: infra_component where
  "sample_host = sample_component\<lparr>ic_type := ''linux_host'', ic_collection_method := ''snmp'', ic_snmp_config := Some ''{}''\<rparr>"

theorem snmp_reports_condition_changes_witness:
  "\<exists>es. d_events (snd (foldl (\<lambda>st (env, pct). snmp_disk env sample_host \<lparr>dk_label = ''/'', dk_percent = pct\<rparr> st)
         (False, empty_db\<lparr>d_snapshots := [\<lparr>sn_id = ''s0'', sn_entity_type = ''snmp_host'', sn_entity_id = ''n1'',
            sn_metric_key = ''disk_pct_root'', sn_metric_value = format_fixed 2 70, sn_previous_value = None,
            sn_captured_at = 0\<rparr>]\<rparr>) [(sample_snap_env 5, 91)])) = es
     \<and> map ev_level es = [''error'']"
proof -
  let ?d = "empty_db\<lparr>d_snapshots := [\<lparr>sn_id = ''s0'', sn_entity_type = ''snmp_host'', sn_entity_id = ''n1'',
            sn_metric_key = ''disk_pct_root'', sn_metric_value = format_fixed 2 70, sn_previous_value = None,
            sn_captured_at = 0\<rparr>]\<rparr>"
  have key: "''disk_pct_'' @ sanitize_disk_label ''/'' = ''disk_pct_root''" by code_simp
  have host: "ic_id sample_host = ''n1''" by (simp add: sample_host_def sample_component_def)
  have "inj (sv_uuid (sample_snap_env 5) ''n1'')" by (rule injI) (simp add: sample_snap_env_def)
  then have ready: "watch_ready ''snmp_host'' sample_host (''disk_pct_'' @ sanitize_disk_label ''/'') (format_fixed 2)
      (snmp_react sample_host ''/'') [(sample_snap_env 5, 91)] (False, ?d)"
    unfolding key
    by (simp add: host ready_for_def events_ready_def snapshots_ok_def capture_ready_def empty_db_def sample_snap_env_def)
  have clear: "clear_of_thresholds 70" "clear_of_thresholds 91"
    by (simp_all add: clear_of_thresholds_def hundredths_def round_half_even_def storage_condition_def)
  have last: "last_value ?d (ic_id sample_host, ''disk_pct_'' @ sanitize_disk_label ''/'') = map_option (format_fixed 2) (Some 70)"
    unfolding key by (simp add: host last_value_def newest_first_def order_desc_def of_key_def)
  have levels: "emits_along storage_emit (map_option storage_condition (Some 70)) (map (storage_condition \<circ> snd) [(sample_snap_env 5, 91)])
      = [''error'']"
    by (simp add: storage_condition_def storage_level_def)
  have "d_events ?d = []" by (simp add: empty_db_def)
  then show ?thesis
    using snmp_reports_condition_changes [OF ready _ _ last] clear unfolding levels by simp
qed

text \<open>Volumes and pools of Synology and Proxmox are treated differently: every change of the value is
  reported while the condition is not ok, and the return to ok is not.\<close>

fun pool_levels :: "string option \<Rightarrow> rat list \<Rightarrow> string list" where
  "pool_levels prev [] = []"
| "pool_levels prev (r # rs) =
     (if prev = None \<or> prev = Some (format_fixed 2 r) \<or> storage_condition r = ''ok'' then [] else [storage_condition r])
     @ pool_levels (Some (format_fixed 2 r)) rs"

lemma reported_pool: "reported (format_fixed 2) (pool_react c pool) prev rs = pool_levels prev rs"
proof (induction rs arbitrary: prev)
  case (Cons r rs)
  obtain level title where title: "storage_event_title (ic_name c) pool (storage_condition r) r = (level, title)" by fastforce
  then have "level = storage_level (storage_condition r)"
    using storage_title_level [of "ic_name c" pool r] by simp
  then have "pool_react c pool r p = (if storage_condition r \<noteq> ''ok'' then Some (storage_condition r, title) else None)" for p
    by (simp add: pool_react_def title storage_level_def)
  with Cons show ?case by (cases prev) auto
qed simp

text \<open>What a storage volume or pool of Synology or Proxmox adds to the event log over any number of
  passes: an event of the condition's level for every pass whose utilisation, to two decimals, differs
  from the last one while it is at 80 percent or more, and nothing otherwise, not even on recovery.\<close>

theorem pool_reports_value_changes:
  assumes "watch_ready ''physical_host'' c mk (format_fixed 2) (pool_react c pool) ps (ch, d)"
  shows "\<exists>es. d_events (snd (foldl (\<lambda>st (env, pct). storage_pool env c mk pool pct st) (ch, d) ps)) = d_events d @ es
    \<and> map ev_level es = pool_levels (last_value d (ic_id c, mk)) (map snd ps)"
proof -
  have run: "(\<lambda>st (env, pct). storage_pool env c mk pool pct st)
      = (\<lambda>st p. watch ''physical_host'' c mk (format_fixed 2) (pool_react c pool) p st)"
    by (intro ext) (auto simp: storage_pool_watch)
  have lv: "pool_react c pool r prev = Some (level, title) \<Longrightarrow> level \<in> set event_levels" for r prev level title
    by (drule react_levels(2)) (metis fst_conv storage_level_event)
  show ?thesis
    unfolding run using watch_events [OF assms lv] by (simp add: reported_pool)
qed

lemma storage_alarm_repeats:
  "pool_levels (Some (format_fixed 2 91)) [91 + 1/100, 91 + 2/100, 50] = [''error'', ''error'']"
  by (simp add: format_fixed_def round_half_even_def storage_condition_def show_nat.simps pad_zeros_def)

theorem pool_reports_value_changes_witness:
  "\<exists>es. d_events (snd (foldl (\<lambda>st (env, pct). storage_pool env sample_component ''volume_pct_volume1'' ''/volume1'' pct st)
         (False, empty_db) [(sample_snap_env 5, 91)])) = es \<and> es = []"
proof -
  have host: "ic_id sample_component = ''n1''" by (simp add: sample_component_def)
  have "inj (sv_uuid (sample_snap_env 5) ''n1'')" by (rule injI) (simp add: sample_snap_env_def)
  then have ready: "watch_ready ''physical_host'' sample_component ''volume_pct_volume1'' (format_fixed 2)
      (pool_react sample_component ''/volume1'') [(sample_snap_env 5, 91)] (False, empty_db)"
    by (simp add: host ready_for_def events_ready_def snapshots_ok_def capture_ready_def empty_db_def)
  have "last_value empty_db (ic_id sample_component, ''volume_pct_volume1'') = None"
    by (simp add: last_value_def newest_first_def order_desc_def empty_db_def)
  moreover have "d_events empty_db = []" by (simp add: empty_db_def)
  ultimately show ?thesis using pool_reports_value_changes [OF ready] by auto
qed

text \<open>A poller is built once: changed credentials reach a component only after a restart.\<close>

lemma poller_keeps_old_config:
  "cache cid = Some p \<Longrightarrow> get_or_create_poller build cid cfg cache = (Inr p, cache)"
  by (simp add: get_or_create_poller_def)

text \<open>A negated rule still yields its host.\<close>

lemma parse_host_negated: "parse_host_from_rule (''!Host('' @ [CHR 0x60] @ ''a'' @ [CHR 0x60] @ '')'') = Some ''a''"
  by code_simp

end
