(* ===== verification/Discovery.thy ===== *)
theory Discovery
  imports Components
begin

text \<open>
  Discovered containers and routes: internal/repo/discovery.go, with the keys and references
  migrations/012, 017, 039 and 042 put on the two tables.

  A container is identified by its component and its name; the Docker id changes when the container is
  rebuilt. An upsert takes the UUID a new row would get and answers the id of the row it has written.
\<close>

section \<open>Containers\<close>

definition coalesce :: "'a option \<Rightarrow> 'a option \<Rightarrow> 'a option" where
  "coalesce a b = (case a of None \<Rightarrow> b | Some x \<Rightarrow> Some x)"

definition container_key :: "container \<Rightarrow> string \<times> string" where
  "container_key c = (dc_infra_component_id c, dc_container_name c)"

text \<open>The DO UPDATE SET clause: app, restart policy and image check stay as they are.\<close>

definition container_merge :: "container \<Rightarrow> container \<Rightarrow> container" where
  "container_merge old new = old\<lparr>dc_source_type := dc_source_type new, dc_container_id := dc_container_id new,
     dc_image := dc_image new, dc_status := dc_status new, dc_profile_suggestion := dc_profile_suggestion new,
     dc_suggestion_confidence := dc_suggestion_confidence new, dc_last_seen_at := dc_last_seen_at new,
     dc_ports := coalesce (dc_ports new) (dc_ports old), dc_labels := coalesce (dc_labels new) (dc_labels old),
     dc_volumes := coalesce (dc_volumes new) (dc_volumes old),
     dc_networks := coalesce (dc_networks new) (dc_networks old),
     dc_docker_created_at := coalesce (dc_docker_created_at new) (dc_docker_created_at old)\<rparr>"

text \<open>The row an INSERT writes: the columns it does not name get their defaults.\<close>

definition fresh_container :: "string \<Rightarrow> container \<Rightarrow> container" where
  "fresh_container uuid c = c\<lparr>dc_id := (if dc_id c = [] then uuid else dc_id c), dc_image_digest := None,
     dc_registry_digest := None, dc_image_update_available := False, dc_image_last_checked_at := None,
     dc_env_vars := None\<rparr>"

definition app_ref_ok :: "db \<Rightarrow> string option \<Rightarrow> bool" where
  "app_ref_ok d a = (case a of None \<Rightarrow> True | Some x \<Rightarrow> x \<in> ap_id ` set (d_apps d))"

definition container_upsert_row :: "string \<Rightarrow> container \<Rightarrow> db \<Rightarrow> string db_result" where
  "container_upsert_row uuid c = db_op (\<lambda>d.
     let n = fresh_container uuid c in
     case lookup_row container_key (container_key c) (d_containers d) of
       None \<Rightarrow> (if dc_infra_component_id c \<in> ic_id ` set (d_components d) \<and> app_ref_ok d (dc_app_id c)
                   \<and> dc_id n \<notin> dc_id ` set (d_containers d)
                 then (Inr (dc_id n), d\<lparr>d_containers := upsert_row container_key container_merge n (d_containers d)\<rparr>)
                 else (Inl DbFail, d))
     | Some old \<Rightarrow> (Inr (dc_id old),
         d\<lparr>d_containers := upsert_row container_key container_merge n (d_containers d)\<rparr>))"

definition container_upsert :: "string \<Rightarrow> container \<Rightarrow> db \<Rightarrow> string db_result" where
  "container_upsert uuid c d0 = (case container_upsert_row uuid c d0 of
       (Inl e, d1) \<Rightarrow> (Inl e, d1)
     | (Inr kid, d1) \<Rightarrow>
         (case component_get (dc_infra_component_id c) d1 of
            (Inl _, d2) \<Rightarrow> (Inr kid, d2)
          | (Inr p, d2) \<Rightarrow>
              (Inr kid, db_ignore (set_parent (ic_type p) (dc_infra_component_id c) ''container'' kid d2))))"

definition container_list :: "string \<Rightarrow> db \<Rightarrow> container list db_result" where
  "container_list comp_id = db_query (\<lambda>d. order_asc dc_container_name
     (filter (\<lambda>c. dc_infra_component_id c = comp_id) (d_containers d)))"

definition container_list_all :: "db \<Rightarrow> container list db_result" where
  "container_list_all = db_query (\<lambda>d. order_asc dc_infra_component_id (order_asc dc_container_name (d_containers d)))"

definition container_get :: "string \<Rightarrow> db \<Rightarrow> container db_result" where
  "container_get kid = db_op (\<lambda>d. case lookup_row dc_id kid (d_containers d) of
       Some c \<Rightarrow> (Inr c, d) | None \<Rightarrow> (Inl NotFound, d))"

definition container_find_by_name :: "string \<Rightarrow> string \<Rightarrow> db \<Rightarrow> container db_result" where
  "container_find_by_name comp_id name = db_op (\<lambda>d. case lookup_row container_key (comp_id, name) (d_containers d) of
       Some c \<Rightarrow> (Inr c, d) | None \<Rightarrow> (Inl NotFound, d))"

text \<open>\<open>UPDATE ... WHERE id = ?\<close>: with and without a look at the number of rows.\<close>

definition container_set :: "string \<Rightarrow> (container \<Rightarrow> container) \<Rightarrow> db \<Rightarrow> db" where
  "container_set kid f d = d\<lparr>d_containers := update_where (\<lambda>c. dc_id c = kid) f (d_containers d)\<rparr>"

definition container_change :: "string \<Rightarrow> (container \<Rightarrow> container) \<Rightarrow> db \<Rightarrow> unit db_result" where
  "container_change kid f = db_op (\<lambda>d.
     if kid \<notin> dc_id ` set (d_containers d) then (Inl NotFound, d) else (Inr (), container_set kid f d))"

definition container_set_app :: "string \<Rightarrow> string \<Rightarrow> db \<Rightarrow> unit db_result" where
  "container_set_app kid aid d0 = (case db_op (\<lambda>d.
       if kid \<notin> dc_id ` set (d_containers d) then (Inl NotFound, d)
       else if aid \<notin> ap_id ` set (d_apps d) then (Inl DbFail, d)
       else (Inr (), container_set kid (\<lambda>c. c\<lparr>dc_app_id := Some aid\<rparr>) d)) d0 of
     (Inl e, d1) \<Rightarrow> (Inl e, d1)
   | (Inr _, d1) \<Rightarrow> (Inr (), db_ignore (set_parent ''container'' kid ''app'' aid d1)))"

definition container_clear_app :: "string \<Rightarrow> db \<Rightarrow> unit db_result" where
  "container_clear_app kid d0 = (case container_get kid d0 of (r, d1) \<Rightarrow>
     let aid = (case r of Inr c \<Rightarrow> (case dc_app_id c of Some a \<Rightarrow> a | None \<Rightarrow> []) | Inl _ \<Rightarrow> []) in
     case container_change kid (\<lambda>c. c\<lparr>dc_app_id := None\<rparr>) d1 of
       (Inl e, d2) \<Rightarrow> (Inl e, d2)
     | (Inr _, d2) \<Rightarrow> (Inr (), if aid \<noteq> [] then db_ignore (remove_parent ''app'' aid d2) else d2))"

definition container_update_status :: "string \<Rightarrow> string \<Rightarrow> go_time \<Rightarrow> db \<Rightarrow> unit db_result" where
  "container_update_status kid status seen =
     container_change kid (\<lambda>c. c\<lparr>dc_status := status, dc_last_seen_at := seen\<rparr>)"

definition mark_stopped_if_not_running :: "go_time \<Rightarrow> string \<Rightarrow> string list \<Rightarrow> db \<Rightarrow> unit db_result" where
  "mark_stopped_if_not_running now comp_id running = db_op (\<lambda>d. (Inr (), d\<lparr>d_containers := update_where
     (\<lambda>c. dc_infra_component_id c = comp_id \<and> dc_status c = ''running'' \<and> dc_container_id c \<notin> set running)
     (\<lambda>c. c\<lparr>dc_status := ''stopped'', dc_last_seen_at := now\<rparr>) (d_containers d)\<rparr>))"

definition container_update_local_digest :: "string \<Rightarrow> string \<Rightarrow> db \<Rightarrow> unit db_result" where
  "container_update_local_digest kid digest = container_change kid (\<lambda>c. c\<lparr>dc_image_digest := Some digest\<rparr>)"

definition container_update_image_check ::
  "go_time \<Rightarrow> string \<Rightarrow> string \<Rightarrow> string \<Rightarrow> bool \<Rightarrow> db \<Rightarrow> unit db_result" where
  "container_update_image_check now kid image_digest registry_digest upd =
     container_change kid (\<lambda>c. c\<lparr>dc_image_digest := Some image_digest, dc_registry_digest := Some registry_digest,
       dc_image_update_available := upd, dc_image_last_checked_at := Some now\<rparr>)"

definition container_update_restart_policy :: "string \<Rightarrow> string \<Rightarrow> db \<Rightarrow> unit db_result" where
  "container_update_restart_policy kid policy = db_op (\<lambda>d.
     (Inr (), container_set kid (\<lambda>c. c\<lparr>dc_restart_policy := Some policy\<rparr>) d))"

definition container_update_env_vars :: "string \<Rightarrow> string \<Rightarrow> db \<Rightarrow> unit db_result" where
  "container_update_env_vars kid env = db_op (\<lambda>d.
     (Inr (), container_set kid (\<lambda>c. c\<lparr>dc_env_vars := Some env\<rparr>) d))"

definition container_delete :: "string \<Rightarrow> db \<Rightarrow> unit db_result" where
  "container_delete kid = db_op (\<lambda>d.
     if kid \<notin> dc_id ` set (d_containers d) then (Inl NotFound, d)
     else (Inr (), delete_containers (\<lambda>c. dc_id c = kid) d))"

definition container_list_stopped :: "db \<Rightarrow> container list db_result" where
  "container_list_stopped = db_query (\<lambda>d. order_desc dc_last_seen_at
     (filter (\<lambda>c. dc_status c \<noteq> ''running'') (d_containers d)))"

definition container_delete_all_stopped :: "db \<Rightarrow> nat db_result" where
  "container_delete_all_stopped = db_op (\<lambda>d.
     (Inr (length (filter (\<lambda>c. dc_status c \<noteq> ''running'') (d_containers d))),
      delete_containers (\<lambda>c. dc_status c \<noteq> ''running'') d))"

section \<open>Routes\<close>

definition route_key :: "route \<Rightarrow> string \<times> string" where
  "route_key r = (rt_infrastructure_id r, rt_router_name r)"

text \<open>The conflict clause keeps id, app and creation time.\<close>

definition route_merge :: "route \<Rightarrow> route \<Rightarrow> route" where
  "route_merge old new = new\<lparr>rt_id := rt_id old, rt_infrastructure_id := rt_infrastructure_id old,
     rt_router_name := rt_router_name old, rt_app_id := rt_app_id old, rt_created_at := rt_created_at old\<rparr>"

definition container_ref_ok :: "db \<Rightarrow> string option \<Rightarrow> bool" where
  "container_ref_ok d k = (case k of None \<Rightarrow> True | Some x \<Rightarrow> x \<in> dc_id ` set (d_containers d))"

text \<open>The link of a route hangs below its row, whose id may be an older one than the argument's.\<close>

definition link_route :: "string \<Rightarrow> string \<Rightarrow> (string \<Rightarrow> component_link) \<Rightarrow> db \<Rightarrow> unit db_result" where
  "link_route infra name mk = db_op (\<lambda>d. (Inr (), case lookup_row route_key (infra, name) (d_routes d) of
       None \<Rightarrow> d
     | Some r \<Rightarrow> d\<lparr>d_links := insert_ignore link_key (mk (rt_id r)) (d_links d)\<rparr>))"

definition route_upsert_row :: "route \<Rightarrow> db \<Rightarrow> unit db_result" where
  "route_upsert_row n = db_op (\<lambda>d.
     if \<not> container_ref_ok d (rt_container_id n) then (Inl DbFail, d)
     else if route_key n \<notin> route_key ` set (d_routes d)
       \<and> \<not> (app_ref_ok d (rt_app_id n) \<and> rt_id n \<notin> rt_id ` set (d_routes d)) then (Inl DbFail, d)
     else (Inr (), d\<lparr>d_routes := upsert_row route_key route_merge n (d_routes d)\<rparr>))"

definition route_upsert :: "string \<Rightarrow> route \<Rightarrow> db \<Rightarrow> unit db_result" where
  "route_upsert uuid ro d0 = (let n = ro\<lparr>rt_id := (if rt_id ro = [] then uuid else rt_id ro)\<rparr> in
     case route_upsert_row n d0 of
       (Inl e, d1) \<Rightarrow> (Inl e, d1)
     | (Inr _, d1) \<Rightarrow> (Inr (), db_ignore (link_route (rt_infrastructure_id n) (rt_router_name n)
          (\<lambda>rid. mk_link ''traefik'' (rt_infrastructure_id n) ''traefik_route'' rid) d1)))"

definition sync_route_app_link :: "string \<Rightarrow> string \<Rightarrow> string \<Rightarrow> db \<Rightarrow> db" where
  "sync_route_app_link infra name aid d =
     db_ignore (link_route infra name (\<lambda>rid. mk_link ''traefik_route'' rid ''app'' aid) d)"

definition route_list_by_status :: "string \<Rightarrow> string \<Rightarrow> db \<Rightarrow> route list db_result" where
  "route_list_by_status infra status = db_query (\<lambda>d. order_asc rt_router_name
     (filter (\<lambda>r. rt_infrastructure_id r = infra \<and> (status \<noteq> [] \<longrightarrow> rt_router_status r = status)) (d_routes d)))"

definition route_list :: "string \<Rightarrow> db \<Rightarrow> route list db_result" where
  "route_list infra = db_query (\<lambda>d. order_asc rt_router_name (filter (\<lambda>r. rt_infrastructure_id r = infra) (d_routes d)))"

definition route_list_all :: "db \<Rightarrow> route list db_result" where
  "route_list_all = db_query (\<lambda>d. order_asc rt_infrastructure_id (order_asc rt_router_name (d_routes d)))"

definition route_get :: "string \<Rightarrow> db \<Rightarrow> route db_result" where
  "route_get rid = db_op (\<lambda>d. case lookup_row rt_id rid (d_routes d) of
       Some r \<Rightarrow> (Inr r, d) | None \<Rightarrow> (Inl NotFound, d))"

definition route_list_by_app :: "string \<Rightarrow> db \<Rightarrow> route list db_result" where
  "route_list_by_app aid = db_query (\<lambda>d. order_asc rt_router_name (filter
     (\<lambda>r. rt_app_id r = Some aid
        \<or> (\<exists>c \<in> set (d_containers d). rt_container_id r = Some (dc_id c) \<and> dc_app_id c = Some aid)) (d_routes d)))"

definition route_set :: "string \<Rightarrow> (route \<Rightarrow> route) \<Rightarrow> db \<Rightarrow> db" where
  "route_set rid f d = d\<lparr>d_routes := update_where (\<lambda>r. rt_id r = rid) f (d_routes d)\<rparr>"

definition route_set_app :: "string \<Rightarrow> string \<Rightarrow> db \<Rightarrow> unit db_result" where
  "route_set_app rid aid d0 = (case db_op (\<lambda>d.
       if rid \<notin> rt_id ` set (d_routes d) then (Inl NotFound, d)
       else if aid \<notin> ap_id ` set (d_apps d) then (Inl DbFail, d)
       else (Inr (), route_set rid (\<lambda>r. r\<lparr>rt_app_id := Some aid\<rparr>) d)) d0 of
     (Inl e, d1) \<Rightarrow> (Inl e, d1)
   | (Inr _, d1) \<Rightarrow> (Inr (), db_ignore (link_insert_ignore ''traefik_route'' rid ''app'' aid d1)))"

definition route_clear_app :: "string \<Rightarrow> db \<Rightarrow> unit db_result" where
  "route_clear_app rid d0 = (case route_get rid d0 of (q, d1) \<Rightarrow>
     let aid = (case q of Inr r \<Rightarrow> (case rt_app_id r of Some a \<Rightarrow> a | None \<Rightarrow> []) | Inl _ \<Rightarrow> []) in
     case db_op (\<lambda>d. if rid \<notin> rt_id ` set (d_routes d) then (Inl NotFound, d)
                     else (Inr (), route_set rid (\<lambda>r. r\<lparr>rt_app_id := None\<rparr>) d)) d1 of
       (Inl e, d2) \<Rightarrow> (Inl e, d2)
     | (Inr _, d2) \<Rightarrow> (Inr (), if aid \<noteq> [] then db_ignore (db_op (\<lambda>d. (Inr (), d\<lparr>d_links :=
           filter (\<lambda>l. l \<noteq> mk_link ''traefik_route'' rid ''app'' aid) (d_links d)\<rparr>)) d2) else d2))"

text \<open>Services are the routes of a component grouped by service name.\<close>

record service_summary =
  sy_id :: string
  sy_component_id :: string
  sy_service_name :: string
  sy_service_type :: string
  sy_status :: string
  sy_server_count :: int
  sy_servers_up :: int
  sy_servers_down :: int
  sy_last_seen :: go_time

text \<open>\<open>COALESCE(MAX(column), dflt)\<close> over a non-empty group.\<close>

definition max_or :: "'a::linorder \<Rightarrow> 'a option list \<Rightarrow> 'a" where
  "max_or dflt xs = (case List.map_filter (\<lambda>x. x) xs of [] \<Rightarrow> dflt | y # ys \<Rightarrow> foldl max y ys)"

definition service_of_group :: "string \<Rightarrow> string \<Rightarrow> route list \<Rightarrow> service_summary" where
  "service_of_group infra name rs =
     \<lparr>sy_id = infra @ '':'' @ name, sy_component_id = infra, sy_service_name = name,
      sy_service_type = max_or ''loadbalancer'' (map rt_service_type rs),
      sy_status = max_or ''enabled'' (map rt_service_status rs),
      sy_server_count = max_or 0 (map (Some \<circ> rt_servers_total) rs),
      sy_servers_up = max_or 0 (map (Some \<circ> rt_servers_up) rs),
      sy_servers_down = max_or 0 (map (Some \<circ> rt_servers_down) rs),
      sy_last_seen = max_or 0 (map (Some \<circ> rt_last_seen_at) rs)\<rparr>"

definition list_services :: "string \<Rightarrow> string \<Rightarrow> db \<Rightarrow> service_summary list db_result" where
  "list_services infra status = db_query (\<lambda>d.
     let rs = filter (\<lambda>r. rt_infrastructure_id r = infra) (d_routes d);
         names = sort (remdups (List.map_filter rt_service_name rs));
         groups = map (\<lambda>n. service_of_group infra n (filter (\<lambda>r. rt_service_name r = Some n) rs)) names in
     if status = ''down'' then filter (\<lambda>s. sy_servers_down s > 0) groups else groups)"

section \<open>Keys and references\<close>

interpretation container_table: overwriting_table container_key container_merge
  by unfold_locales (auto simp: container_key_def container_merge_def coalesce_def split: option.split)

interpretation route_table: overwriting_table route_key route_merge
  by unfold_locales (auto simp: route_key_def route_merge_def intro: route.equality)

text \<open>Ids and keys are unique, references point to rows.\<close>

definition discovery_ok :: "db \<Rightarrow> bool" where
  "discovery_ok d = (distinct (map container_key (d_containers d)) \<and> distinct (map dc_id (d_containers d))
     \<and> distinct (map route_key (d_routes d)) \<and> distinct (map rt_id (d_routes d))
     \<and> (\<forall>c \<in> set (d_containers d). dc_infra_component_id c \<in> ic_id ` set (d_components d) \<and> app_ref_ok d (dc_app_id c))
     \<and> (\<forall>r \<in> set (d_routes d). container_ref_ok d (rt_container_id r) \<and> app_ref_ok d (rt_app_id r)))"

lemma refs_cong [simp]:
  "app_ref_ok (d\<lparr>d_faults := fs\<rparr>) = app_ref_ok d" "app_ref_ok (d\<lparr>d_containers := cs\<rparr>) = app_ref_ok d"
  "app_ref_ok (d\<lparr>d_routes := rs\<rparr>) = app_ref_ok d" "app_ref_ok (d\<lparr>d_links := ls\<rparr>) = app_ref_ok d"
  "app_ref_ok (d\<lparr>d_components := ks\<rparr>) = app_ref_ok d"
  "container_ref_ok (d\<lparr>d_faults := fs\<rparr>) = container_ref_ok d" "container_ref_ok (d\<lparr>d_routes := rs\<rparr>) = container_ref_ok d"
  "container_ref_ok (d\<lparr>d_links := ls\<rparr>) = container_ref_ok d" "container_ref_ok (d\<lparr>d_components := ks\<rparr>) = container_ref_ok d"
  by (simp_all add: fun_eq_iff app_ref_ok_def container_ref_ok_def split: option.split)

lemma discovery_ok_fault_blind: "fault_blind discovery_ok"
  by (simp add: fault_blind_def discovery_ok_def)

lemma discovery_ok_links [simp]: "discovery_ok (d\<lparr>d_links := ls\<rparr>) = discovery_ok d"
  by (simp add: discovery_ok_def)

lemma discovery_ok_set_parent: "discovery_ok d \<Longrightarrow> discovery_ok (snd (set_parent pt pid ct cid d))"
  unfolding set_parent_def by (rule db_op_invariant [OF discovery_ok_fault_blind]) auto

lemma discovery_ok_remove_parent: "discovery_ok d \<Longrightarrow> discovery_ok (snd (remove_parent ct cid d))"
  unfolding remove_parent_def by (rule db_op_invariant [OF discovery_ok_fault_blind]) auto

text \<open>A change of containers that keeps id, key and parent and any app reference valid.\<close>

lemma discovery_ok_update_containers:
  assumes "discovery_ok d"
    and "\<And>c. container_key (f c) = container_key c" "\<And>c. dc_id (f c) = dc_id c"
    and "\<And>c. dc_app_id (f c) = dc_app_id c \<or> app_ref_ok d (dc_app_id (f c))"
  shows "discovery_ok (d\<lparr>d_containers := update_where P f (d_containers d)\<rparr>)"
proof -
  let ?cs = "update_where P f (d_containers d)"
  have ids: "map dc_id ?cs = map dc_id (d_containers d)" using assms(3) by (intro map_update_where)
  have keys: "map container_key ?cs = map container_key (d_containers d)" using assms(2) by (intro map_update_where)
  have idset: "dc_id ` set ?cs = dc_id ` set (d_containers d)" using ids by (metis set_map)
  then have refs: "container_ref_ok (d\<lparr>d_containers := ?cs\<rparr>) k = container_ref_ok d k" for k
    by (simp add: container_ref_ok_def split: option.split)
  have comp: "dc_infra_component_id (f c) = dc_infra_component_id c" for c
    using assms(2) [of c] by (simp add: container_key_def)
  have "dc_infra_component_id c \<in> ic_id ` set (d_components d) \<and> app_ref_ok d (dc_app_id c)" if "c \<in> set ?cs" for c
    using that assms(1) assms(4) comp by (auto simp: set_update_where discovery_ok_def) metis+
  then show ?thesis
    using assms(1) by (simp add: discovery_ok_def ids keys refs)
qed

lemma container_change_ok:
  assumes "discovery_ok d"
    and "\<And>c. container_key (f c) = container_key c" "\<And>c. dc_id (f c) = dc_id c"
    and "\<And>c. dc_app_id (f c) = dc_app_id c \<or> dc_app_id (f c) = None"
  shows "discovery_ok (snd (container_change kid f d))"
  unfolding container_change_def
proof (rule db_op_invariant [OF discovery_ok_fault_blind _ assms(1)])
  fix d assume "discovery_ok d"
  moreover have "dc_app_id (f c) = dc_app_id c \<or> app_ref_ok d (dc_app_id (f c))" for c
    using assms(4) [of c] by (auto simp: app_ref_ok_def)
  ultimately have "discovery_ok (d\<lparr>d_containers := update_where (\<lambda>c. dc_id c = kid) f (d_containers d)\<rparr>)"
    using assms(2,3) by (intro discovery_ok_update_containers)
  with \<open>discovery_ok d\<close> show "discovery_ok (snd (if kid \<notin> dc_id ` set (d_containers d) then (Inl NotFound, d)
      else (Inr (), container_set kid f d)))"
    by (simp add: container_set_def)
qed

lemma container_updates_ok:
  assumes "discovery_ok d"
  shows "discovery_ok (snd (container_update_status kid st t d))"
    and "discovery_ok (snd (container_update_local_digest kid dg d))"
    and "discovery_ok (snd (container_update_image_check t kid dg rd u d))"
    and "discovery_ok (snd (container_update_restart_policy kid pol d))"
    and "discovery_ok (snd (container_update_env_vars kid env d))"
    and "discovery_ok (snd (mark_stopped_if_not_running t comp_id running d))"
proof -
  show "discovery_ok (snd (container_update_status kid st t d))"
    and "discovery_ok (snd (container_update_local_digest kid dg d))"
    and "discovery_ok (snd (container_update_image_check t kid dg rd u d))"
    unfolding container_update_status_def container_update_local_digest_def container_update_image_check_def
    by (rule container_change_ok [OF assms]; simp add: container_key_def)+
  show "discovery_ok (snd (container_update_restart_policy kid pol d))"
    and "discovery_ok (snd (container_update_env_vars kid env d))"
    and "discovery_ok (snd (mark_stopped_if_not_running t comp_id running d))"
    unfolding container_update_restart_policy_def container_update_env_vars_def mark_stopped_if_not_running_def
      container_set_def
    by (rule db_op_invariant [OF discovery_ok_fault_blind _ assms],
        simp, rule discovery_ok_update_containers; simp add: container_key_def)+
qed

lemma lookup_row_mem: "lookup_row key k xs = Some x \<Longrightarrow> k \<in> key ` set xs"
  using lookup_row_Some by fastforce

lemma upsert_row_present:
  "key r \<in> key ` set xs \<Longrightarrow> upsert_row key merge r xs = update_where (\<lambda>x. key x = key r) (\<lambda>x. merge x r) xs"
  by (simp add: upsert_row_def update_where_def)

lemma fresh_container_key [simp]: "container_key (fresh_container uuid c) = container_key c"
  by (simp add: fresh_container_def container_key_def)

text \<open>\<open>container_merge\<close> on the rows that have the key (it would change the name of no other).\<close>

lemma container_merge_fields [simp]:
  "dc_id (container_merge old new) = dc_id old" "dc_app_id (container_merge old new) = dc_app_id old"
  "container_key (container_merge old new) = container_key old"
  by (simp_all add: container_merge_def container_key_def)

lemma container_upsert_row_ok: "discovery_ok d \<Longrightarrow> discovery_ok (snd (container_upsert_row uuid c d))"
  unfolding container_upsert_row_def
proof (erule db_op_invariant [OF discovery_ok_fault_blind, rotated])
  fix d :: db
  let ?n = "fresh_container uuid c"
  assume ok: "discovery_ok d"
  show "discovery_ok (snd (let n = ?n in case lookup_row container_key (container_key c) (d_containers d) of
       None \<Rightarrow> (if dc_infra_component_id c \<in> ic_id ` set (d_components d) \<and> app_ref_ok d (dc_app_id c)
                   \<and> dc_id n \<notin> dc_id ` set (d_containers d)
                 then (Inr (dc_id n), d\<lparr>d_containers := upsert_row container_key container_merge n (d_containers d)\<rparr>)
                 else (Inl DbFail, d))
     | Some old \<Rightarrow> (Inr (dc_id old),
         d\<lparr>d_containers := upsert_row container_key container_merge n (d_containers d)\<rparr>)))"
  proof (cases "lookup_row container_key (container_key c) (d_containers d)")
    case (Some old)
    then have "container_key ?n \<in> container_key ` set (d_containers d)" by (auto dest: lookup_row_mem)
    then show ?thesis
      using ok discovery_ok_update_containers [OF ok, of "\<lambda>x. container_merge x ?n"]
      by (simp add: Some upsert_row_present)
  next
    case None
    then have new: "container_key c \<notin> container_key ` set (d_containers d)" by (simp add: lookup_row_None)
    let ?d = "d\<lparr>d_containers := d_containers d @ [?n]\<rparr>"
    have more: "container_ref_ok d k \<Longrightarrow> container_ref_ok ?d k" for k
      by (simp add: container_ref_ok_def split: option.splits)
    have ins: "upsert_row container_key container_merge ?n (d_containers d) = d_containers d @ [?n]"
      using new by (simp add: upsert_row_def)
    have ref: "dc_infra_component_id ?n = dc_infra_component_id c" "dc_app_id ?n = dc_app_id c"
      by (simp_all add: fresh_container_def)
    have "discovery_ok ?d" if "dc_infra_component_id c \<in> ic_id ` set (d_components d)" "app_ref_ok d (dc_app_id c)"
      "dc_id ?n \<notin> dc_id ` set (d_containers d)"
      using that ok new more by (simp add: discovery_ok_def ref)
    then show ?thesis using ok by (simp add: None Let_def ins)
  qed
qed

lemma query_ok: "discovery_ok d \<Longrightarrow> discovery_ok (snd (component_get cid d))"
  "discovery_ok d \<Longrightarrow> discovery_ok (snd (container_get kid d))" "discovery_ok d \<Longrightarrow> discovery_ok (snd (route_get rid d))"
  unfolding component_get_def container_get_def route_get_def
  by (rule db_op_invariant [OF discovery_ok_fault_blind], auto split: option.splits)+

lemma container_upsert_ok:
  assumes "discovery_ok d"
  shows "discovery_ok (snd (container_upsert uuid c d))"
proof -
  obtain r d1 where 1: "container_upsert_row uuid c d = (r, d1)" by fastforce
  obtain q d2 where 2: "component_get (dc_infra_component_id c) d1 = (q, d2)" by fastforce
  have ok1: "discovery_ok d1" using container_upsert_row_ok [OF assms, of uuid c] 1 by simp
  then have "discovery_ok d2" using query_ok(1) [OF ok1, of "dc_infra_component_id c"] 2 by simp
  then show ?thesis
    using ok1 discovery_ok_set_parent by (simp add: container_upsert_def 1 2 db_ignore_def split: sum.split)
qed

lemma container_set_app_ok: "discovery_ok d \<Longrightarrow> discovery_ok (snd (container_set_app kid aid d))"
proof -
  assume ok: "discovery_ok d"
  let ?f = "\<lambda>c. c\<lparr>dc_app_id := Some aid\<rparr>"
  let ?u = "db_op (\<lambda>d. if kid \<notin> dc_id ` set (d_containers d) then (Inl NotFound, d)
       else if aid \<notin> ap_id ` set (d_apps d) then (Inl DbFail, d)
       else (Inr (), container_set kid ?f d))"
  have "discovery_ok (snd (?u d))"
  proof (rule db_op_invariant [OF discovery_ok_fault_blind _ ok])
    fix d :: db assume ok: "discovery_ok d"
    have "discovery_ok (container_set kid ?f d)" if "aid \<in> ap_id ` set (d_apps d)"
      unfolding container_set_def
      by (rule discovery_ok_update_containers [OF ok]) (use that in \<open>simp_all add: container_key_def app_ref_ok_def\<close>)
    then show "discovery_ok (snd (if kid \<notin> dc_id ` set (d_containers d) then (Inl NotFound, d)
       else if aid \<notin> ap_id ` set (d_apps d) then (Inl DbFail, d) else (Inr (), container_set kid ?f d)))"
      using ok by simp
  qed
  then show ?thesis
    using discovery_ok_set_parent
    by (cases "?u d") (simp add: container_set_app_def db_ignore_def split: sum.split)
qed

lemma container_clear_app_ok:
  assumes "discovery_ok d"
  shows "discovery_ok (snd (container_clear_app kid d))"
proof -
  obtain q d1 where 1: "container_get kid d = (q, d1)" by fastforce
  have ok1: "discovery_ok d1" using query_ok(2) [OF assms, of kid] 1 by simp
  obtain r d2 where 2: "container_change kid (\<lambda>c. c\<lparr>dc_app_id := None\<rparr>) d1 = (r, d2)" by fastforce
  have "discovery_ok (snd (container_change kid (\<lambda>c. c\<lparr>dc_app_id := None\<rparr>) d1))"
    by (rule container_change_ok [OF ok1]) (simp_all add: container_key_def)
  then show ?thesis
    using 2 discovery_ok_remove_parent
    by (simp add: container_clear_app_def 1 2 Let_def db_ignore_def split: sum.split)
qed

lemma delete_containers_ok:
  assumes "discovery_ok d"
  shows "discovery_ok (delete_containers P d)"
proof -
  let ?D = "delete_containers P d"
  let ?gone = "dc_id ` set (filter P (d_containers d))"
  have routes: "map route_key (d_routes ?D) = map route_key (d_routes d)" "map rt_id (d_routes ?D) = map rt_id (d_routes d)"
    unfolding delete_containers_def Let_def by (auto intro!: map_update_where simp: route_key_def)
  have upd: "d_routes ?D = update_where (\<lambda>r. \<exists>k \<in> ?gone. rt_container_id r = Some k)
      (\<lambda>r. r\<lparr>rt_container_id := None\<rparr>) (d_routes d)"
    by (simp add: delete_containers_def Let_def)
  have cs: "d_containers ?D = filter (\<lambda>c. \<not> P c) (d_containers d)" "d_components ?D = d_components d"
    "app_ref_ok ?D = app_ref_ok d"
    by (simp_all add: delete_containers_def Let_def app_ref_ok_def fun_eq_iff split: option.split)
  have "container_ref_ok ?D (rt_container_id r) \<and> app_ref_ok d (rt_app_id r)" if mem: "r \<in> set (d_routes ?D)" for r
  proof -
    obtain r0 where r0: "r0 \<in> set (d_routes d)" and r: "r = (if \<exists>k \<in> ?gone. rt_container_id r0 = Some k
        then r0\<lparr>rt_container_id := None\<rparr> else r0)"
      using mem unfolding upd set_update_where by blast
    have ok0: "container_ref_ok d (rt_container_id r0)" "app_ref_ok d (rt_app_id r0)"
      using assms r0 by (simp_all add: discovery_ok_def)
    show ?thesis
    proof (cases "rt_container_id r0")
      case None
      then show ?thesis using r ok0 by (simp add: container_ref_ok_def)
    next
      case (Some k)
      then show ?thesis
      proof (cases "k \<in> ?gone")
        case True
        then show ?thesis using r ok0 Some by (simp add: container_ref_ok_def)
      next
        case False
        with Some have "r = r0" using r by auto
        moreover have "k \<in> dc_id ` set (d_containers ?D)"
          using ok0(1) Some False cs(1) by (auto simp: container_ref_ok_def)
        ultimately show ?thesis using ok0 Some by (simp add: container_ref_ok_def)
      qed
    qed
  qed
  then show ?thesis
    using assms routes by (simp add: discovery_ok_def cs distinct_map_filter)
qed

lemma container_deletes_ok:
  assumes "discovery_ok d"
  shows "discovery_ok (snd (container_delete kid d))" and "discovery_ok (snd (container_delete_all_stopped d))"
  unfolding container_delete_def container_delete_all_stopped_def
  by (rule db_op_invariant [OF discovery_ok_fault_blind _ assms], simp add: delete_containers_ok)+

lemma link_route_ok: "discovery_ok d \<Longrightarrow> discovery_ok (snd (link_route infra name mk d))"
  unfolding link_route_def
  by (rule db_op_invariant [OF discovery_ok_fault_blind]) (auto split: option.split)

text \<open>A change of routes that keeps id, key and container and any app reference valid.\<close>

lemma discovery_ok_update_routes:
  assumes "discovery_ok d"
    and "\<And>r. route_key (f r) = route_key r" "\<And>r. rt_id (f r) = rt_id r"
    and "\<And>r. rt_container_id (f r) = rt_container_id r \<or> container_ref_ok d (rt_container_id (f r))"
    and "\<And>r. rt_app_id (f r) = rt_app_id r \<or> app_ref_ok d (rt_app_id (f r))"
  shows "discovery_ok (d\<lparr>d_routes := update_where P f (d_routes d)\<rparr>)"
proof -
  let ?rs = "update_where P f (d_routes d)"
  have keys: "map route_key ?rs = map route_key (d_routes d)" using assms(2) by (intro map_update_where)
  have ids: "map rt_id ?rs = map rt_id (d_routes d)" using assms(3) by (intro map_update_where)
  have "container_ref_ok d (rt_container_id r) \<and> app_ref_ok d (rt_app_id r)" if "r \<in> set ?rs" for r
  proof -
    from that have "\<exists>q \<in> set (d_routes d). r = (if P q then f q else q)" by (simp only: set_update_where)
    then obtain q where "q \<in> set (d_routes d)" and r: "r = (if P q then f q else q)" by (elim bexE)
    then have "container_ref_ok d (rt_container_id q)" "app_ref_ok d (rt_app_id q)"
      using assms(1) by (simp_all add: discovery_ok_def)
    then show ?thesis using r assms(4) [of q] assms(5) [of q] by (cases "P q") auto
  qed
  then show ?thesis using assms(1) by (simp add: discovery_ok_def keys ids)
qed

lemma route_set_app_ok: "discovery_ok d \<Longrightarrow> discovery_ok (snd (route_set_app rid aid d))"
proof -
  assume ok: "discovery_ok d"
  let ?f = "\<lambda>r. r\<lparr>rt_app_id := Some aid\<rparr>"
  let ?u = "db_op (\<lambda>d. if rid \<notin> rt_id ` set (d_routes d) then (Inl NotFound, d)
       else if aid \<notin> ap_id ` set (d_apps d) then (Inl DbFail, d)
       else (Inr (), route_set rid ?f d))"
  have "discovery_ok (snd (?u d))"
  proof (rule db_op_invariant [OF discovery_ok_fault_blind _ ok])
    fix d :: db assume ok: "discovery_ok d"
    have "discovery_ok (route_set rid ?f d)" if "aid \<in> ap_id ` set (d_apps d)"
      unfolding route_set_def
      by (rule discovery_ok_update_routes [OF ok]) (use that in \<open>simp_all add: route_key_def app_ref_ok_def\<close>)
    then show "discovery_ok (snd (if rid \<notin> rt_id ` set (d_routes d) then (Inl NotFound, d)
       else if aid \<notin> ap_id ` set (d_apps d) then (Inl DbFail, d) else (Inr (), route_set rid ?f d)))"
      using ok by simp
  qed
  moreover have "discovery_ok (snd (link_insert_ignore pt pid ct cid d))" if "discovery_ok d" for pt pid ct cid d
    unfolding link_insert_ignore_def by (rule db_op_invariant [OF discovery_ok_fault_blind _ that]) simp
  ultimately show ?thesis
    by (cases "?u d") (simp add: route_set_app_def db_ignore_def split: sum.split)
qed

lemma route_clear_app_ok:
  assumes "discovery_ok d"
  shows "discovery_ok (snd (route_clear_app rid d))"
proof -
  obtain q d1 where 1: "route_get rid d = (q, d1)" by fastforce
  have ok1: "discovery_ok d1" using query_ok(3) [OF assms, of rid] 1 by simp
  let ?f = "\<lambda>r. r\<lparr>rt_app_id := None\<rparr>"
  let ?u = "db_op (\<lambda>d. if rid \<notin> rt_id ` set (d_routes d) then (Inl NotFound, d) else (Inr (), route_set rid ?f d))"
  obtain r d2 where 2: "?u d1 = (r, d2)" by fastforce
  have "discovery_ok (snd (?u d1))"
  proof (rule db_op_invariant [OF discovery_ok_fault_blind _ ok1])
    fix d :: db assume ok: "discovery_ok d"
    have "discovery_ok (route_set rid ?f d)"
      unfolding route_set_def
      by (rule discovery_ok_update_routes [OF ok]) (simp_all add: route_key_def app_ref_ok_def)
    then show "discovery_ok (snd (if rid \<notin> rt_id ` set (d_routes d) then (Inl NotFound, d)
       else (Inr (), route_set rid ?f d)))"
      using ok by simp
  qed
  then have ok2: "discovery_ok d2" by (simp add: 2)
  have "discovery_ok (snd (db_op (\<lambda>d. (Inr (), d\<lparr>d_links := filter P (d_links d)\<rparr>)) d2))" for P
    by (rule db_op_invariant [OF discovery_ok_fault_blind _ ok2]) simp
  then show ?thesis
    using ok2 by (simp add: route_clear_app_def 1 2 Let_def db_ignore_def split: sum.split)
qed

lemma route_upsert_row_ok: "discovery_ok d \<Longrightarrow> discovery_ok (snd (route_upsert_row n d))"
  unfolding route_upsert_row_def
proof (erule db_op_invariant [OF discovery_ok_fault_blind, rotated])
  fix d :: db assume ok: "discovery_ok d"
  show "discovery_ok (snd (if \<not> container_ref_ok d (rt_container_id n) then (Inl DbFail, d)
     else if route_key n \<notin> route_key ` set (d_routes d)
       \<and> \<not> (app_ref_ok d (rt_app_id n) \<and> rt_id n \<notin> rt_id ` set (d_routes d)) then (Inl DbFail, d)
     else (Inr (), d\<lparr>d_routes := upsert_row route_key route_merge n (d_routes d)\<rparr>)))"
  proof (cases "route_key n \<in> route_key ` set (d_routes d)")
    case True
    have "discovery_ok (d\<lparr>d_routes := update_where (\<lambda>r. route_key r = route_key n) (\<lambda>r. route_merge r n) (d_routes d)\<rparr>)"
      if "container_ref_ok d (rt_container_id n)"
      by (rule discovery_ok_update_routes [OF ok]) (use that in \<open>simp_all add: route_merge_def route_key_def\<close>)
    with True ok show ?thesis by (simp add: upsert_row_present)
  next
    case False
    then show ?thesis using ok by (simp add: upsert_row_def discovery_ok_def)
  qed
qed

lemma route_upsert_ok:
  assumes "discovery_ok d"
  shows "discovery_ok (snd (route_upsert uuid ro d))"
proof -
  let ?n = "ro\<lparr>rt_id := (if rt_id ro = [] then uuid else rt_id ro)\<rparr>"
  obtain r d1 where 1: "route_upsert_row ?n d = (r, d1)" by fastforce
  then have "discovery_ok d1" using route_upsert_row_ok [OF assms, of ?n] by simp
  then show ?thesis
    using link_route_ok by (simp add: route_upsert_def Let_def 1 [simplified] db_ignore_def split: sum.split)
qed

text \<open>Deleting a component takes its containers along and clears the routes to them.\<close>

lemma component_delete_discovery_ok: "discovery_ok d \<Longrightarrow> discovery_ok (snd (component_delete cid d))"
  unfolding component_delete_def
proof (erule db_op_invariant [OF discovery_ok_fault_blind, rotated])
  fix d :: db assume ok: "discovery_ok d"
  let ?P = "\<lambda>k. dc_infra_component_id k = cid"
  have "delete_containers ?P (d\<lparr>d_components := ks\<rparr>) = (delete_containers ?P d)\<lparr>d_components := ks\<rparr>" for ks
    by (simp add: delete_containers_def Let_def)
  moreover have "discovery_ok ((delete_containers ?P d)\<lparr>d_components := filter (\<lambda>c. ic_id c \<noteq> cid) (d_components d)\<rparr>)"
    using delete_containers_ok [OF ok, of ?P] by (auto simp: discovery_ok_def delete_containers_def Let_def)
  ultimately show "discovery_ok (snd (if cid \<notin> ic_id ` set (d_components d) then (Inl NotFound, d)
     else (Inr (), delete_containers ?P (d\<lparr>d_components := filter (\<lambda>c. ic_id c \<noteq> cid) (d_components d)\<rparr>))))"
    using ok by simp
qed

end
