(* ===== verification/Docker.thy ===== *)
theory Docker
  imports Discovery AppTemplate
begin

text \<open>
  The local Docker engine: profile matching (internal/infra/docker_matcher.go), the container scan
  (internal/infra/docker_discovery.go) and the event watcher (internal/infra/docker_watcher.go).

  The Docker client is a parameter: a scan is given the list it answered or its failure, the watcher
  the messages of the stream. The watcher starts its hooks as goroutines; they are values here, and the
  environment runs them when it likes. The order in which Go ranges over a map is an argument.
\<close>

section \<open>docker_matcher.go\<close>

definition image_base_name :: "string \<Rightarrow> string" where
  "image_base_name img =
     (let bare = (case split_last (CHR '':'') img of
                   Some (a, b) \<Rightarrow> if contains_str b ''/'' then img else a
                 | None \<Rightarrow> img) in
      case split_last (CHR ''/'') bare of Some (_, b) \<Rightarrow> b | None \<Rightarrow> bare)"

definition match_confidence :: "string \<Rightarrow> string \<Rightarrow> string \<Rightarrow> int" where
  "match_confidence lname lbase lid =
     (if lname = lid then 95 else if lbase = lid then 85
      else if contains_str lname lid then 80 else if contains_str lbase lid then 70 else 0)"

definition better_candidate :: "string \<Rightarrow> string \<Rightarrow> (string \<times> int) option \<Rightarrow> string \<Rightarrow> (string \<times> int) option" where
  "better_candidate lname lbase best pid =
     (let conf = match_confidence lname lbase (to_lower pid) in
      if conf \<ge> 70 \<and> (case best of None \<Rightarrow> True | Some (_, c) \<Rightarrow> conf > c) then Some (pid, conf) else best)"

text \<open>\<open>profiles\<close> are the keys of the registry in the order the range visits them; \<open>None\<close> is a nil
  registry.\<close>

definition match_container_to_profile :: "string \<Rightarrow> string \<Rightarrow> string list option \<Rightarrow> (string \<times> int) option" where
  "match_container_to_profile name img profiles =
     (case profiles of
        None \<Rightarrow> None
      | Some ps \<Rightarrow> foldl (better_candidate (to_lower name) (to_lower (image_base_name img))) None ps)"

section \<open>docker_discovery.go\<close>

text \<open>A container of the list Docker answers; ports, labels and mounts are the texts \<open>json.Marshal\<close>
  makes of them, or its failure.\<close>

record listed_container =
  lc_id :: string
  lc_names :: "string list"
  lc_image :: string
  lc_created :: int
  lc_ports :: "string option"
  lc_labels :: "string option"
  lc_mounts :: "string option"
  lc_networks :: "(string \<times> string) list"

record enrichment =
  en_ports :: "string option"
  en_labels :: "string option"
  en_volumes :: "string option"
  en_networks :: "string option"
  en_docker_created_at :: "go_time option"

definition enc_field :: "string option \<Rightarrow> string option" where
  "enc_field t = (case t of Some s \<Rightarrow> if s = ''null'' then None else Some s | None \<Rightarrow> None)"

definition networks_json :: "(string \<times> string) list \<Rightarrow> string option" where
  "networks_json ns = (if ns = [] then None
     else Some (''['' @ join '','' (map (\<lambda>(name, ip). ''{'' @ json_quote ''name'' @ '':'' @ json_quote name
                  @ (if ip = [] then [] else '','' @ json_quote ''ip'' @ '':'' @ json_quote ip) @ ''}'') ns) @ '']''))"

definition extract_enrichment :: "listed_container \<Rightarrow> enrichment" where
  "extract_enrichment c =
     \<lparr>en_ports = enc_field (lc_ports c), en_labels = enc_field (lc_labels c), en_volumes = enc_field (lc_mounts c),
      en_networks = networks_json (lc_networks c),
      en_docker_created_at = (if lc_created c > 0 then Some (lc_created c * second_ns) else None)\<rparr>"

definition container_name_from :: "string list \<Rightarrow> string" where
  "container_name_from names = (case names of [] \<Rightarrow> [] | n # _ \<Rightarrow> trim_prefix n ''/'')"

record discoverer =
  do_engine_id :: string
  do_profiles :: "string list option"
  do_now :: go_time
  do_uuid :: "string \<Rightarrow> string"   \<comment> \<open>the UUID a container of that name would get\<close>

definition discovered_row :: "discoverer \<Rightarrow> string \<Rightarrow> string \<Rightarrow> string \<Rightarrow> string \<Rightarrow> enrichment option \<Rightarrow> container" where
  "discovered_row e docker_id name img status meta =
     (let m = match_container_to_profile name img (do_profiles e) in
      \<lparr>dc_id = [], dc_infra_component_id = do_engine_id e, dc_source_type = ''docker_engine'',
       dc_container_id = docker_id, dc_container_name = name, dc_image = img, dc_status = status,
       dc_app_id = None, dc_profile_suggestion = map_option fst m, dc_suggestion_confidence = map_option snd m,
       dc_last_seen_at = do_now e, dc_created_at = do_now e, dc_image_digest = None, dc_registry_digest = None,
       dc_image_update_available = False, dc_image_last_checked_at = None,
       dc_ports = Option.bind meta en_ports, dc_labels = Option.bind meta en_labels,
       dc_volumes = Option.bind meta en_volumes, dc_networks = Option.bind meta en_networks,
       dc_restart_policy = None, dc_docker_created_at = Option.bind meta en_docker_created_at, dc_env_vars = None\<rparr>)"

definition discoverer_upsert ::
  "discoverer \<Rightarrow> string \<Rightarrow> string \<Rightarrow> string \<Rightarrow> string \<Rightarrow> enrichment option \<Rightarrow> db \<Rightarrow> unit db_result" where
  "discoverer_upsert e docker_id name img status meta d0 =
     (case container_upsert (do_uuid e name) (discovered_row e docker_id name img status meta) d0 of
        (Inl err, d1) \<Rightarrow> (Inl err, d1)
      | (Inr kid, d1) \<Rightarrow> (Inr (), db_ignore (set_parent ''docker_engine'' (do_engine_id e) ''container'' kid d1)))"

definition scan_one :: "discoverer \<Rightarrow> listed_container \<Rightarrow> db \<Rightarrow> db" where
  "scan_one e c d = db_ignore (discoverer_upsert e (lc_id c) (container_name_from (lc_names c)) (lc_image c)
     ''running'' (Some (extract_enrichment c)) d)"

definition scan_all :: "discoverer \<Rightarrow> string \<Rightarrow> listed_container list option \<Rightarrow> db \<Rightarrow> db" where
  "scan_all e polled_at listed d0 = (case listed of
       None \<Rightarrow> db_ignore (component_update_status (do_engine_id e) ''offline'' polled_at d0)
     | Some cs \<Rightarrow>
         (let d1 = fold (scan_one e) cs d0;
              d2 = db_ignore (mark_stopped_if_not_running (do_now e) (do_engine_id e) (map lc_id cs) d1) in
          db_ignore (component_update_status (do_engine_id e) ''online'' polled_at d2)))"

definition discover_event :: "discoverer \<Rightarrow> string \<Rightarrow> string \<Rightarrow> string \<Rightarrow> string \<Rightarrow> db \<Rightarrow> db" where
  "discover_event e docker_id name img status d =
     db_ignore (discoverer_upsert e docker_id name img status None d)"

definition local_engine_component :: "string \<Rightarrow> string \<Rightarrow> infra_component" where
  "local_engine_component uuid now = \<lparr>ic_id = uuid, ic_name = ''Local Docker'', ic_ip = [],
     ic_type = ''docker_engine'', ic_collection_method = ''docker_socket'', ic_credentials = None,
     ic_snmp_config = None, ic_meta = None, ic_notes = [], ic_enabled = True, ic_last_polled_at = None,
     ic_last_status = ''unknown'', ic_created_at = now\<rparr>"

definition ensure_local_component :: "string \<Rightarrow> string \<Rightarrow> db \<Rightarrow> string db_result" where
  "ensure_local_component uuid now d0 = (case component_list d0 of
       (Inl err, d1) \<Rightarrow> (Inl err, d1)
     | (Inr cs, d1) \<Rightarrow>
         (case List.find (\<lambda>c. ic_type c = ''docker_engine'' \<and> ic_collection_method c = ''docker_socket'') cs of
            Some c \<Rightarrow> (Inr (ic_id c), d1)
          | None \<Rightarrow> (case component_create (local_engine_component uuid now) d1 of
                (Inl err, d2) \<Rightarrow> (Inl err, d2)
              | (Inr _, d2) \<Rightarrow> (Inr uuid, d2))))"

section \<open>docker_watcher.go\<close>

record docker_message =
  dm_type :: string
  dm_action :: string
  dm_actor_id :: string
  dm_attributes :: "string \<rightharpoonup> string"

definition attribute :: "docker_message \<Rightarrow> string \<Rightarrow> string" where
  "attribute m k = (case dm_attributes m k of Some v \<Rightarrow> v | None \<Rightarrow> [])"

definition lifecycle_actions :: "string list" where
  "lifecycle_actions = [''start'', ''stop'', ''die'', ''restart'', ''kill'']"

definition parse_exit_code :: "string \<Rightarrow> int" where
  "parse_exit_code s = (if s = [] then 0 else case go_atoi s of Some n \<Rightarrow> n | None \<Rightarrow> 0)"

definition severity_and_text :: "string \<Rightarrow> string \<Rightarrow> string \<Rightarrow> string \<times> string" where
  "severity_and_text action name exit_code =
     (let dash = '' '' @ em_dash @ '' '' @ name in
      if action = ''start'' then (''info'', ''Container started'' @ dash)
      else if action = ''stop'' then (''warn'', ''Container stopped'' @ dash)
      else if action = ''die'' then
        (let code = parse_exit_code exit_code in
         if code = 0 then (''info'', ''Container exited cleanly'' @ dash)
         else (''error'', ''Container crashed'' @ dash @ '' (exit '' @ show_int code @ '')''))
      else if action = ''restart'' then (''warn'', ''Container restarted'' @ dash)
      else if action = ''kill'' then (''warn'', ''Container killed'' @ dash)
      else (''info'', ''Container event '' @ action @ dash))"

definition container_status_from_action :: "string \<Rightarrow> string" where
  "container_status_from_action action =
     (if action = ''start'' \<or> action = ''restart'' then ''running'' else if action = ''die'' then ''exited'' else ''stopped'')"

definition json_str :: "string \<Rightarrow> string" where
  "json_str s = [CHR 0x22] @ replace_all [CHR 0x22] [CHR 0x5C, CHR 0x22] (replace_all [CHR 0x5C] [CHR 0x5C, CHR 0x5C] s)
     @ [CHR 0x22]"

definition quoted :: "string \<Rightarrow> string" where
  "quoted s = [CHR 0x22] @ s @ [CHR 0x22]"

definition docker_payload :: "docker_message \<Rightarrow> string" where
  "docker_payload m = (let exit_code = attribute m ''exitCode'' in
     ''{'' @ quoted ''source_type'' @ '':'' @ quoted ''docker_container'' @ '',''
       @ quoted ''container_name'' @ '':'' @ json_str (attribute m ''name'') @ '',''
       @ quoted ''image'' @ '':'' @ json_str (attribute m ''image'') @ '',''
       @ quoted ''action'' @ '':'' @ json_str (dm_action m)
       @ (if exit_code \<noteq> [] then '','' @ quoted ''exit_code'' @ '':'' @ json_str exit_code else []) @ ''}'')"

definition docker_event :: "string \<Rightarrow> go_time \<Rightarrow> app_row list \<Rightarrow> docker_message \<Rightarrow> event" where
  "docker_event uuid now apps m =
     (let name = attribute m ''name'';
          aid = (case List.find (\<lambda>a. equal_fold (ap_name a) name) apps of Some a \<Rightarrow> ap_id a | None \<Rightarrow> []) in
      case severity_and_text (dm_action m) name (attribute m ''exitCode'') of (severity, title) \<Rightarrow>
      \<lparr>ev_id = uuid, ev_level = severity, ev_source_name = name,
       ev_source_type = (if aid \<noteq> [] then ''app'' else ''docker_engine''),
       ev_source_id = aid, ev_title = title, ev_payload = docker_payload m, ev_created_at = now\<rparr>)"

datatype hook = HealthCheck string | Discover string string string string

record watcher =
  wt_health_hook :: bool
  wt_discovery_hook :: bool

definition hooks_of :: "watcher \<Rightarrow> docker_message \<Rightarrow> hook list" where
  "hooks_of w m =
     (if dm_action m = ''start'' \<and> wt_health_hook w then [HealthCheck (dm_actor_id m)] else [])
     @ (if wt_discovery_hook w then [Discover (dm_actor_id m) (attribute m ''name'') (attribute m ''image'')
           (container_status_from_action (dm_action m))] else [])"

definition watcher_handle_event ::
  "watcher \<Rightarrow> string \<Rightarrow> go_time \<Rightarrow> docker_message \<Rightarrow> db \<Rightarrow> hook list \<times> unit db_result" where
  "watcher_handle_event w uuid now m d0 =
     (if dm_action m \<notin> set lifecycle_actions then ([], Inr (), d0)
      else case app_list d0 of (r, d1) \<Rightarrow>
        (hooks_of w m,
         event_create (docker_event uuid now (case r of Inr apps \<Rightarrow> apps | Inl _ \<Rightarrow> []) m) d1))"

text \<open>The stream until the connection breaks: every message comes with the UUID and the time its event
  gets; errors of a message are logged.\<close>

fun watcher_stream :: "watcher \<Rightarrow> (string \<times> go_time \<times> docker_message) list \<Rightarrow> db \<Rightarrow> hook list \<times> db" where
  "watcher_stream w [] d = ([], d)"
| "watcher_stream w ((uuid, now, m) # ms) d =
     (if dm_type m \<noteq> ''container'' then watcher_stream w ms d
      else case watcher_handle_event w uuid now m d of (hs, _, d1) \<Rightarrow>
        (case watcher_stream w ms d1 of (hs2, d2) \<Rightarrow> (hs @ hs2, d2)))"

text \<open>What the discovery worker does with a hook; the health check is the health poller's.\<close>

definition run_hook :: "discoverer \<Rightarrow> hook \<Rightarrow> db \<Rightarrow> db" where
  "run_hook e h d = (case h of
       HealthCheck _ \<Rightarrow> d
     | Discover docker_id name img status \<Rightarrow> discover_event e docker_id name img status d)"

section \<open>What a scan leaves in the table\<close>

definition container_named :: "db \<Rightarrow> string \<times> string \<Rightarrow> container option" where
  "container_named d k = lookup_row container_key k (d_containers d)"

text \<open>The UUIDs a scan would give out are not in use; the engine is a known component.\<close>

definition scan_ready :: "discoverer \<Rightarrow> db \<Rightarrow> bool" where
  "scan_ready e d = (d_faults d = [] \<and> inj (do_uuid e) \<and> do_engine_id e \<in> ic_id ` set (d_components d)
     \<and> (\<forall>n. container_named d (do_engine_id e, n) = None \<longrightarrow> do_uuid e n \<notin> dc_id ` set (d_containers d)))"

lemma discovered_row_key [simp]:
  "container_key (discovered_row e docker_id name img status meta) = (do_engine_id e, name)"
  by (simp add: discovered_row_def container_key_def Let_def)

lemma discovered_row_fields [simp]:
  "dc_id (discovered_row e docker_id name img status meta) = []"
  "dc_app_id (discovered_row e docker_id name img status meta) = None"
  "dc_infra_component_id (discovered_row e docker_id name img status meta) = do_engine_id e"
  "dc_status (discovered_row e docker_id name img status meta) = status"
  "dc_container_id (discovered_row e docker_id name img status meta) = docker_id"
  by (simp_all add: discovered_row_def Let_def)

lemma set_parent_no_fault:
  "d_faults d = [] \<Longrightarrow> set_parent pt pid ct cid d
     = (Inr (), d\<lparr>d_links := upsert_row link_key link_merge (mk_link pt pid ct cid) (d_links d)\<rparr>)"
  by (simp add: set_parent_def)

lemma discoverer_upsert_eq:
  assumes "scan_ready e d"
  shows "\<exists>ls. discoverer_upsert e docker_id name img status meta d
    = (Inr (), d\<lparr>d_containers := upsert_row container_key container_merge
          (fresh_container (do_uuid e name) (discovered_row e docker_id name img status meta)) (d_containers d),
        d_links := ls\<rparr>)"
proof -
  let ?r = "discovered_row e docker_id name img status meta"
  let ?d = "d\<lparr>d_containers := upsert_row container_key container_merge (fresh_container (do_uuid e name) ?r) (d_containers d)\<rparr>"
  have "\<exists>kid. container_upsert_row (do_uuid e name) ?r d = (Inr kid, ?d)"
    using assms
    by (auto simp: container_upsert_row_def scan_ready_def container_named_def Let_def fresh_container_def app_ref_ok_def
        split: option.split)
  then obtain kid where row: "container_upsert_row (do_uuid e name) ?r d = (Inr kid, ?d)" by blast
  have faults: "d_faults ?d = []" using assms by (simp add: scan_ready_def)
  have "\<exists>ls. container_upsert (do_uuid e name) ?r d = (Inr kid, ?d\<lparr>d_links := ls\<rparr>)"
    using faults
    by (cases "lookup_row ic_id (do_engine_id e) (d_components d)")
      (auto simp: container_upsert_def row component_get_def set_parent_no_fault intro: exI [of _ "d_links d"])
  then obtain ls where "container_upsert (do_uuid e name) ?r d = (Inr kid, ?d\<lparr>d_links := ls\<rparr>)" by blast
  then show ?thesis
    using faults by (auto simp: discoverer_upsert_def set_parent_no_fault)
qed

definition scan_row :: "discoverer \<Rightarrow> listed_container \<Rightarrow> container" where
  "scan_row e c = discovered_row e (lc_id c) (container_name_from (lc_names c)) (lc_image c) ''running''
     (Some (extract_enrichment c))"

definition scan_key :: "discoverer \<Rightarrow> listed_container \<Rightarrow> string \<times> string" where
  "scan_key e c = (do_engine_id e, container_name_from (lc_names c))"

definition merged_row :: "discoverer \<Rightarrow> listed_container \<Rightarrow> container option \<Rightarrow> container" where
  "merged_row e c old = (let n = fresh_container (do_uuid e (container_name_from (lc_names c))) (scan_row e c) in
     case old of None \<Rightarrow> n | Some x \<Rightarrow> container_merge x n)"

lemma scan_row_key [simp]: "container_key (scan_row e c) = scan_key e c"
  by (simp add: scan_row_def scan_key_def)

lemma scan_one_named:
  assumes "scan_ready e d"
  shows "scan_ready e (scan_one e c d)"
    and "container_named (scan_one e c d) k =
      (if k = scan_key e c then Some (merged_row e c (container_named d k)) else container_named d k)"
    and "d_components (scan_one e c d) = d_components d"
proof -
  let ?n = "fresh_container (do_uuid e (container_name_from (lc_names c))) (scan_row e c)"
  obtain ls where eq: "scan_one e c d
      = d\<lparr>d_containers := upsert_row container_key container_merge ?n (d_containers d), d_links := ls\<rparr>"
    using discoverer_upsert_eq [OF assms] unfolding scan_one_def scan_row_def by (metis db_ignore_simp)
  show named: "container_named (scan_one e c d) k =
      (if k = scan_key e c then Some (merged_row e c (container_named d k)) else container_named d k)" for k
    unfolding container_named_def eq
    by (simp add: container_table.lookup_upsert merged_row_def Let_def split: option.split)
  show "d_components (scan_one e c d) = d_components d" by (simp add: eq)
  have ids: "dc_id ` set (d_containers (scan_one e c d)) \<subseteq> dc_id ` set (d_containers d)
      \<union> (if container_named d (scan_key e c) = None then {do_uuid e (container_name_from (lc_names c))} else {})"
  proof (cases "container_key ?n \<in> container_key ` set (d_containers d)")
    case True
    then have "map dc_id (d_containers (scan_one e c d)) = map dc_id (d_containers d)"
      by (simp add: eq upsert_row_present map_update_where)
    then have "dc_id ` set (d_containers (scan_one e c d)) = dc_id ` set (d_containers d)" by (metis set_map)
    then show ?thesis by simp
  next
    case False
    moreover have "dc_id ?n = do_uuid e (container_name_from (lc_names c))"
      by (simp add: fresh_container_def scan_row_def)
    ultimately show ?thesis
      unfolding eq by (simp add: upsert_row_def container_named_def lookup_row_None)
  qed
  show "scan_ready e (scan_one e c d)"
    unfolding scan_ready_def
  proof (intro conjI allI impI)
    fix n assume none: "container_named (scan_one e c d) (do_engine_id e, n) = None"
    then have n: "container_named d (do_engine_id e, n) = None" "n \<noteq> container_name_from (lc_names c)"
      by (auto simp: named scan_key_def split: if_splits)
    then have "do_uuid e n \<notin> dc_id ` set (d_containers d)"
      and "do_uuid e n \<noteq> do_uuid e (container_name_from (lc_names c))"
      using assms by (auto simp: scan_ready_def dest: injD)
    then show "do_uuid e n \<notin> dc_id ` set (d_containers (scan_one e c d))"
      using ids by (auto split: if_splits)
  qed (use assms eq in \<open>simp_all add: scan_ready_def\<close>)
qed

text \<open>What a fold over the listed containers leaves, and what the sweep does to the rest.\<close>

lemma scan_fold_ready:
  "scan_ready e d \<Longrightarrow> scan_ready e (fold (scan_one e) cs d) \<and> d_components (fold (scan_one e) cs d) = d_components d"
  by (induction cs arbitrary: d) (simp_all add: scan_one_named)

definition identity :: "container \<Rightarrow> string \<times> string option \<times> string option \<times> string option \<times> bool \<times> string option \<times> go_time" where
  "identity c = (dc_id c, dc_app_id c, dc_image_digest c, dc_registry_digest c, dc_image_update_available c,
     dc_restart_policy c, dc_created_at c)"

lemma merged_identity: "identity (merged_row e c (Some old)) = identity old"
  by (simp add: identity_def merged_row_def container_merge_def Let_def)

lemma merged_running [simp]:
  "dc_status (merged_row e c old) = ''running''" "dc_container_id (merged_row e c old) = lc_id c"
  by (simp_all add: merged_row_def container_merge_def fresh_container_def scan_row_def Let_def split: option.split)

lemma scan_fold_unlisted:
  assumes "scan_ready e d" and "k \<notin> scan_key e ` set cs"
  shows "container_named (fold (scan_one e) cs d) k = container_named d k"
  using assms by (induction cs arbitrary: d) (simp_all add: scan_one_named)

lemma scan_fold_listed:
  assumes "scan_ready e d" and "k \<in> scan_key e ` set cs"
  shows "\<exists>c \<in> set cs. \<exists>x. container_named (fold (scan_one e) cs d) k = Some x
           \<and> dc_status x = ''running'' \<and> dc_container_id x = lc_id c"
  using assms
proof (induction cs arbitrary: d)
  case (Cons c cs)
  note one = scan_one_named [OF Cons.prems(1), of c]
  show ?case
  proof (cases "k \<in> scan_key e ` set cs")
    case True
    then show ?thesis using Cons.IH [OF one(1)] by auto
  next
    case False
    then show ?thesis
      using scan_fold_unlisted [OF one(1) False] one(2) [of k] Cons.prems(2) by auto
  qed
qed simp

lemma scan_fold_identity:
  assumes "scan_ready e d" and "container_named d k = Some old"
  shows "\<exists>x. container_named (fold (scan_one e) cs d) k = Some x \<and> identity x = identity old"
  using assms
proof (induction cs arbitrary: d old)
  case (Cons c cs)
  note one = scan_one_named [OF Cons.prems(1), of c]
  have "\<exists>x. container_named (scan_one e c d) k = Some x \<and> identity x = identity old"
    using one(2) [of k] Cons.prems(2) merged_identity by (cases "k = scan_key e c") auto
  then obtain x where "container_named (scan_one e c d) k = Some x" "identity x = identity old" by blast
  then show ?case using Cons.IH [OF one(1), of x] by simp
qed simp

text \<open>The sweep and the status of the engine.\<close>

definition stop_row :: "go_time \<Rightarrow> container \<Rightarrow> container" where
  "stop_row now c = c\<lparr>dc_status := ''stopped'', dc_last_seen_at := now\<rparr>"

lemma mark_stopped_named:
  assumes "d_faults d = []"
  shows "container_named (db_ignore (mark_stopped_if_not_running now eng running d)) k
    = map_option (\<lambda>c. if dc_infra_component_id c = eng \<and> dc_status c = ''running'' \<and> dc_container_id c \<notin> set running
        then stop_row now c else c) (container_named d k)"
proof -
  have key: "container_key (stop_row now c) = container_key c" for c by (simp add: stop_row_def container_key_def)
  show ?thesis
    using assms unfolding mark_stopped_if_not_running_def stop_row_def [symmetric]
    by (simp add: container_named_def lookup_row_update_where key)
qed

lemma component_update_containers:
  "d_containers (snd (component_update_status cid st t d)) = d_containers d"
  by (auto simp: component_update_status_def component_change_def db_op_def split: list.split)

lemma scan_all_named:
  assumes "scan_ready e d"
  shows "container_named (scan_all e t (Some cs) d) k
    = map_option (\<lambda>c. if dc_infra_component_id c = do_engine_id e \<and> dc_status c = ''running''
          \<and> dc_container_id c \<notin> set (map lc_id cs) then stop_row (do_now e) c else c)
        (container_named (fold (scan_one e) cs d) k)"
proof -
  let ?d = "fold (scan_one e) cs d"
  have faults: "d_faults ?d = []" using scan_fold_ready [OF assms, of cs] by (simp add: scan_ready_def)
  have "d_containers (scan_all e t (Some cs) d)
      = d_containers (db_ignore (mark_stopped_if_not_running (do_now e) (do_engine_id e) (map lc_id cs) ?d))"
    by (simp add: scan_all_def Let_def component_update_containers db_ignore_def)
  then show ?thesis
    using mark_stopped_named [OF faults, of "do_now e" "do_engine_id e" "map lc_id cs" k]
    unfolding container_named_def by (simp only:)
qed

lemma named_engine: "container_named d k = Some c \<Longrightarrow> dc_infra_component_id c = fst k"
proof -
  assume "container_named d k = Some c"
  then have "container_key c = k"
    unfolding container_named_def by (metis lookup_row_Some)
  then show "dc_infra_component_id c = fst k" by (metis container_key_def fst_conv)
qed

lemma scan_running:
  assumes "scan_ready e d"
  shows "(\<exists>c. container_named (scan_all e t (Some cs) d) (do_engine_id e, n) = Some c \<and> dc_status c = ''running'')
      \<longleftrightarrow> (do_engine_id e, n) \<in> scan_key e ` set cs
        \<or> (\<exists>old. container_named d (do_engine_id e, n) = Some old \<and> dc_status old = ''running''
              \<and> dc_container_id old \<in> lc_id ` set cs)"
proof -
  let ?k = "(do_engine_id e, n)"
  show ?thesis
  proof (cases "?k \<in> scan_key e ` set cs")
    case True
    then obtain c x where "c \<in> set cs" and "container_named (fold (scan_one e) cs d) ?k = Some x"
      and "dc_status x = ''running''" and "dc_container_id x = lc_id c"
      using scan_fold_listed [OF assms True] by blast
    then show ?thesis using True by (simp add: scan_all_named [OF assms])
  next
    case False
    then show ?thesis
      using scan_fold_unlisted [OF assms False] named_engine [of d ?k]
      by (cases "container_named d ?k") (auto simp: scan_all_named [OF assms] stop_row_def)
  qed
qed

lemma scan_keeps:
  assumes "scan_ready e d" and old: "container_named d k = Some old"
  shows "\<exists>c. container_named (scan_all e t (Some cs) d) k = Some c
      \<and> identity c = identity old \<and> (fst k \<noteq> do_engine_id e \<longrightarrow> c = old)"
proof -
  obtain x where x: "container_named (fold (scan_one e) cs d) k = Some x" "identity x = identity old"
    using scan_fold_identity [OF assms(1) old, of cs] by blast
  have other: "x = old" if foreign: "fst k \<noteq> do_engine_id e"
  proof -
    have "k \<notin> scan_key e ` set cs"
      using foreign unfolding scan_key_def by (metis (no_types, lifting) fst_conv imageE)
    then have "container_named (fold (scan_one e) cs d) k = container_named d k"
      by (rule scan_fold_unlisted [OF assms(1)])
    with x(1) old show ?thesis by simp
  qed
  have eng: "dc_infra_component_id x = fst k" using named_engine [OF x(1)] .
  let ?c = "if dc_infra_component_id x = do_engine_id e \<and> dc_status x = ''running''
      \<and> dc_container_id x \<notin> set (map lc_id cs) then stop_row (do_now e) x else x"
  have "container_named (scan_all e t (Some cs) d) k = Some ?c"
    unfolding scan_all_named [OF assms(1)] x(1) by simp
  moreover have "identity ?c = identity old"
    using x(2) by (simp add: identity_def stop_row_def)
  moreover have "?c = old" if "fst k \<noteq> do_engine_id e"
  proof -
    have "\<not> (dc_infra_component_id x = do_engine_id e \<and> dc_status x = ''running''
      \<and> dc_container_id x \<notin> set (map lc_id cs))" using that eng by metis
    then have "?c = x" by (rule if_not_P)
    then show ?thesis using other [OF that] by (rule trans)
  qed
  ultimately show ?thesis by blast
qed

text \<open>C8: A scan of the Docker engine reconciles the table with what Docker lists: afterwards a container
  of the engine is running exactly if its name is listed or, after a rename, its Docker id is still
  listed under another name; every container known before keeps its row's id, its app, its image
  check and its restart policy, though its Docker id changes; other engines' rows are untouched.\<close>

theorem scan_reconciles:
  assumes "scan_ready e d"
  shows "((\<exists>c. container_named (scan_all e t (Some cs) d) (do_engine_id e, n) = Some c \<and> dc_status c = ''running'')
      \<longleftrightarrow> (do_engine_id e, n) \<in> scan_key e ` set cs
        \<or> (\<exists>old. container_named d (do_engine_id e, n) = Some old \<and> dc_status old = ''running''
              \<and> dc_container_id old \<in> lc_id ` set cs))
    \<and> pred_option (\<lambda>old. \<exists>c. container_named (scan_all e t (Some cs) d) k = Some c
        \<and> identity c = identity old \<and> (fst k \<noteq> do_engine_id e \<longrightarrow> c = old)) (container_named d k)"
  using scan_running [OF assms] scan_keeps [OF assms, of k]
  by (cases "container_named d k") simp_all

definition sample_engine :: discoverer where
  "sample_engine = \<lparr>do_engine_id = ''e1'', do_profiles = Some [''sonarr''], do_now = 9, do_uuid = (\<lambda>n. ''u-'' @ n)\<rparr>"

definition listed :: "string \<Rightarrow> string \<Rightarrow> listed_container" where
  "listed docker_id name = \<lparr>lc_id = docker_id, lc_names = [''/'' @ name], lc_image = ''linuxserver/'' @ name, lc_created = 0,
     lc_ports = None, lc_labels = Some ''null'', lc_mounts = None, lc_networks = []\<rparr>"

definition sample_engine_db :: db where
  "sample_engine_db = empty_db\<lparr>d_components := [local_engine_component ''e1'' ''2025'']\<rparr>"

lemma sample_engine_ready: "scan_ready sample_engine sample_engine_db"
  by (simp add: scan_ready_def sample_engine_def sample_engine_db_def empty_db_def local_engine_component_def
      container_named_def inj_def)

theorem scan_reconciles_witness:
  "\<exists>c. container_named (scan_all sample_engine ''t'' (Some [listed ''abc'' ''sonarr'']) sample_engine_db) (''e1'', ''sonarr'') = Some c
    \<and> dc_status c = ''running''"
  using scan_reconciles [OF sample_engine_ready, of "''t''" "[listed ''abc'' ''sonarr'']" "''sonarr''"]
  by (simp add: scan_key_def sample_engine_def listed_def container_name_from_def trim_prefix_def)

text \<open>A renamed container stays behind under its old name, running.\<close>

lemma rename_leaves_ghost:
  "map (\<lambda>c. (dc_container_name c, dc_status c))
     (d_containers (scan_all sample_engine ''t'' (Some [listed ''abc'' ''new''])
        (scan_all sample_engine ''t'' (Some [listed ''abc'' ''old'']) sample_engine_db)))
   = [(''old'', ''running''), (''new'', ''running'')]"
  by code_simp

section \<open>Matching\<close>

definition confidence_of :: "string \<Rightarrow> string \<Rightarrow> string \<Rightarrow> int" where
  "confidence_of name img pid = match_confidence (to_lower name) (to_lower (image_base_name img)) (to_lower pid)"

definition best_match :: "string \<Rightarrow> string \<Rightarrow> string list \<Rightarrow> (string \<times> int) option \<Rightarrow> bool" where
  "best_match name img ps m = (case m of
       None \<Rightarrow> \<forall>p \<in> set ps. confidence_of name img p < 70
     | Some (p, c) \<Rightarrow> p \<in> set ps \<and> c = confidence_of name img p \<and> c \<ge> 70
         \<and> (\<forall>q \<in> set ps. confidence_of name img q \<le> c))"

lemma best_match_fold:
  assumes "best_match name img qs m"
  shows "best_match name img (qs @ ps)
    (foldl (better_candidate (to_lower name) (to_lower (image_base_name img))) m ps)"
  using assms
proof (induction ps arbitrary: qs m)
  case (Cons p ps)
  have "best_match name img (qs @ [p]) (better_candidate (to_lower name) (to_lower (image_base_name img)) m p)"
    using Cons.prems
    by (fastforce simp: best_match_def better_candidate_def confidence_of_def Let_def split: option.splits)
  then show ?case using Cons.IH [of "qs @ [p]"] by simp
qed simp

text \<open>A container is given the profile that matches it best, whatever order Go's map is ranged in: a
  profile is suggested exactly if one scores at least 70, and then no profile scores more; two orders
  can differ only between profiles of equal confidence.\<close>

theorem match_is_best:
  assumes "mset ps2 = mset ps"
  shows "best_match name img ps (match_container_to_profile name img (Some ps))
    \<and> map_option snd (match_container_to_profile name img (Some ps2))
        = map_option snd (match_container_to_profile name img (Some ps))"
proof -
  have best: "best_match name img ps (match_container_to_profile name img (Some ps))" for ps
    using best_match_fold [of name img "[]" None ps]
    by (simp add: match_container_to_profile_def best_match_def)
  moreover have "best_match name img ps (match_container_to_profile name img (Some ps2))"
    using best [of ps2] mset_eq_setD [OF assms] by (simp add: best_match_def split: option.splits prod.splits)
  moreover have "map_option snd m = map_option snd m2"
    if "best_match name img ps m" "best_match name img ps m2" for m m2
    using that by (cases m; cases m2) (force simp: best_match_def)+
  ultimately show ?thesis by blast
qed

theorem match_is_best_witness:
  "best_match ''my-sonarr'' ''linuxserver/sonarr:latest'' [''radarr'', ''sonarr'']
     (match_container_to_profile ''my-sonarr'' ''linuxserver/sonarr:latest'' (Some [''radarr'', ''sonarr'']))
   \<and> match_container_to_profile ''my-sonarr'' ''linuxserver/sonarr:latest'' (Some [''radarr'', ''sonarr''])
     = Some (''sonarr'', 85)"
  using match_is_best [of "[''sonarr'', ''radarr'']" "[''radarr'', ''sonarr'']" "''my-sonarr''" "''linuxserver/sonarr:latest''"]
  by (rule conjI [OF conjunct1]) (simp, code_simp)

lemma match_ties_depend_on_order:
  "match_container_to_profile ''arr-stack'' ''x'' (Some [''arr'', ''stack'']) = Some (''arr'', 80)"
  "match_container_to_profile ''arr-stack'' ''x'' (Some [''stack'', ''arr'']) = Some (''stack'', 80)"
  by code_simp+

text \<open>A reference pinned by digest is not stripped of it.\<close>

lemma digest_stays_in_base_name: "image_base_name ''ghcr.io/x/app@sha256:abc'' = ''app@sha256''"
  by code_simp

section \<open>What the watcher writes\<close>

definition lifecycle_message :: "string \<times> go_time \<times> docker_message \<Rightarrow> bool" where
  "lifecycle_message = (\<lambda>(_, _, m). dm_type m = ''container'' \<and> dm_action m \<in> set lifecycle_actions)"

lemma severity_levels: "fst (severity_and_text action name code) \<in> {''info'', ''warn'', ''error''}"
  by (simp add: severity_and_text_def Let_def)

lemma docker_event_ok [simp]: "event_row_ok (docker_event uuid now apps m)" "ev_id (docker_event uuid now apps m) = uuid"
  using severity_levels [of "dm_action m" "attribute m ''name''" "attribute m ''exitCode''"]
  by (auto simp: docker_event_def event_row_ok_def event_levels_def event_source_types_def Let_def split: prod.splits)

text \<open>Nothing of the Docker event stream is lost or doubled: when no statement faults, a stream adds
  one event for each container message about a start, stop, exit, restart or kill, in the order of the
  stream, none for any other message, and asks the discovery worker to look at exactly those containers.\<close>

theorem watcher_records_lifecycle:
  assumes "d_faults d = []" and "distinct (map fst ms)" and "fst ` set ms \<inter> ev_id ` set (d_events d) = {}"
  shows "watcher_stream w ms d =
    (concat (map (\<lambda>(_, _, m). hooks_of w m) (filter lifecycle_message ms)),
     d\<lparr>d_events := d_events d @ map (\<lambda>(uuid, now, m). docker_event uuid now (order_asc ap_created_at (d_apps d)) m)
         (filter lifecycle_message ms)\<rparr>)"
  using assms
proof (induction w ms d rule: watcher_stream.induct)
  case (2 w uuid now m ms d)
  let ?e = "docker_event uuid now (order_asc ap_created_at (d_apps d)) m"
  show ?case
  proof (cases "lifecycle_message (uuid, now, m)")
    case True
    then have m: "dm_type m = ''container''" "dm_action m \<in> set lifecycle_actions" by (simp_all add: lifecycle_message_def)
    let ?d = "d\<lparr>d_events := d_events d @ [?e]\<rparr>"
    have h: "watcher_handle_event w uuid now m d = (hooks_of w m, Inr (), ?d)"
      using 2(3-5) m by (auto simp: watcher_handle_event_def app_list_def event_create_def event_insertable_def)
    have "watcher_stream w ms ?d =
      (concat (map (\<lambda>(_, _, m). hooks_of w m) (filter lifecycle_message ms)),
       ?d\<lparr>d_events := d_events ?d @ map (\<lambda>(uuid, now, m). docker_event uuid now (order_asc ap_created_at (d_apps ?d)) m)
         (filter lifecycle_message ms)\<rparr>)"
      using 2(3-5) m by (intro 2(2) [OF _ h [symmetric]]) auto
    then show ?thesis using True m h by simp
  next
    case False
    then have "watcher_stream w ((uuid, now, m) # ms) d = watcher_stream w ms d"
      by (auto simp: lifecycle_message_def watcher_handle_event_def split: prod.split)
    moreover have "watcher_stream w ms d =
      (concat (map (\<lambda>(_, _, m). hooks_of w m) (filter lifecycle_message ms)),
       d\<lparr>d_events := d_events d @ map (\<lambda>(uuid, now, m). docker_event uuid now (order_asc ap_created_at (d_apps d)) m)
         (filter lifecycle_message ms)\<rparr>)"
    proof (cases "dm_type m = ''container''")
      case True
      with False have "watcher_handle_event w uuid now m d = ([], Inr (), d)"
        by (simp add: lifecycle_message_def watcher_handle_event_def)
      then show ?thesis using True 2(2-5) by auto
    next
      case other: False
      then show ?thesis using 2(1,3-5) by auto
    qed
    ultimately show ?thesis using False by simp
  qed
qed simp

definition crash_message :: docker_message where
  "crash_message = \<lparr>dm_type = ''container'', dm_action = ''die'', dm_actor_id = ''abc'',
     dm_attributes = [''name'' \<mapsto> ''sonarr'', ''exitCode'' \<mapsto> ''137'']\<rparr>"

theorem watcher_records_lifecycle_witness:
  "map ev_level (d_events (snd (watcher_stream \<lparr>wt_health_hook = True, wt_discovery_hook = True\<rparr>
     [(''u1'', 5, crash_message)] empty_db))) = [''error'']"
proof -
  have "severity_and_text ''die'' ''sonarr'' ''137'' = (''error'', ''Container crashed '' @ em_dash @ '' sonarr (exit 137)'')"
    by code_simp
  then show ?thesis
    using watcher_records_lifecycle [of empty_db "[(''u1'', 5, crash_message)]"
        "\<lparr>wt_health_hook = True, wt_discovery_hook = True\<rparr>"]
    by (simp add: empty_db_def lifecycle_message_def crash_message_def lifecycle_actions_def docker_event_def attribute_def
        Let_def order_asc_def)
qed

section \<open>The component of the local engine\<close>

text \<open>Starting again finds the component made before.\<close>

lemma find_only:
  assumes "c \<in> set ys" and "P c" and "\<And>y. y \<in> set ys \<Longrightarrow> P y \<Longrightarrow> y = c"
  shows "List.find P ys = Some c"
proof (cases "List.find P ys")
  case None
  then show ?thesis using assms(1,2) by (auto simp: find_None_iff)
next
  case (Some y)
  then have "y \<in> set ys" "P y" by (auto simp: find_Some_iff)
  then show ?thesis using Some assms(3) by simp
qed

lemma ensure_local_component_idem:
  assumes "d_faults d = []" and "ensure_local_component uuid now d = (Inr cid, d1)"
  shows "ensure_local_component uuid2 now2 d1 = (Inr cid, d1)"
proof -
  let ?P = "\<lambda>c. ic_type c = ''docker_engine'' \<and> ic_collection_method c = ''docker_socket''"
  let ?cs = "order_asc ic_created_at (d_components d)"
  show ?thesis
  proof (cases "List.find ?P ?cs")
    case (Some c)
    then show ?thesis using assms by (auto simp: ensure_local_component_def component_list_def)
  next
    case None
    let ?n = "local_engine_component uuid now"
    have new: "d1 = d\<lparr>d_components := d_components d @ [?n]\<rparr>" "cid = uuid"
      using assms None
      by (auto simp: ensure_local_component_def component_list_def component_create_def local_engine_component_def
          split: if_splits)
    have "List.find ?P (order_asc ic_created_at (d_components d @ [?n])) = Some ?n"
    proof (rule find_only)
      fix y assume "y \<in> set (order_asc ic_created_at (d_components d @ [?n]))" and "?P y"
      then show "y = ?n" using None by (auto simp: find_None_iff)
    qed (simp_all add: local_engine_component_def)
    then show ?thesis
      using assms(1) by (simp add: ensure_local_component_def component_list_def new local_engine_component_def)
  qed
qed

end
