(* ===== verification/Images.thy ===== *)
theory Images
  imports Discovery
begin

text \<open>
  The daily image update check: the registry client internal/infra/docker_registry.go and the poller
  internal/scanner/daily/image_update.go.

  The network is a function from requests to answers (\<open>None\<close>: the request failed), the Docker daemon
  two functions answering inspections; the decoding of a token reply is a parameter.
\<close>

section \<open>docker_registry.go: references\<close>

definition parse_image_ref :: "string \<Rightarrow> string \<times> string \<times> string" where
  "parse_image_ref ref =
     (let (bare, tag) = (case split_last (CHR '':'') ref of
            Some (a, b) \<Rightarrow> (if contains_str b ''/'' then (ref, ''latest'') else (a, b))
          | None \<Rightarrow> (ref, ''latest'')) in
      case split_first (CHR ''/'') bare of
        Some (host, rest) \<Rightarrow>
          (if CHR ''.'' \<in> set host \<or> CHR '':'' \<in> set host \<or> host = ''localhost'' then (host, rest, tag)
           else (''docker.io'', bare, tag))
      | None \<Rightarrow> (''docker.io'', ''library/'' @ bare, tag))"

section \<open>docker_registry.go: requests\<close>

record http_request =
  hq_url :: string
  hq_bearer :: string

record http_answer =
  ha_status :: int
  ha_header :: "string \<Rightarrow> string"
  ha_body :: string

type_synonym http = "http_request \<Rightarrow> http_answer option"

text \<open>\<open>json.Unmarshal\<close> of a token reply: the two fields it may have.\<close>

type_synonym token_decoder = "string \<Rightarrow> (string \<times> string) option"

datatype registry_error = RequestFailed | BadStatus int | NoDigestHeader | BadTokenReply | NoToken | NoChallenge
  | UnsupportedScheme | NoRealm

definition fetch_manifest_digest :: "http \<Rightarrow> string \<Rightarrow> string \<Rightarrow> registry_error + string" where
  "fetch_manifest_digest http url bearer =
     (case http \<lparr>hq_url = url, hq_bearer = bearer\<rparr> of
        None \<Rightarrow> Inl RequestFailed
      | Some a \<Rightarrow>
          (if ha_status a = 200
           then (let digest = ha_header a ''Docker-Content-Digest'' in
                 if digest = [] then Inl NoDigestHeader else Inr digest)
           else Inl (BadStatus (ha_status a))))"

definition read_token :: "token_decoder \<Rightarrow> http_answer option \<Rightarrow> registry_error + string" where
  "read_token dec r =
     (case r of
        None \<Rightarrow> Inl RequestFailed
      | Some a \<Rightarrow>
          (if ha_status a \<noteq> 200 then Inl (BadStatus (ha_status a))
           else case dec (ha_body a) of
                  None \<Rightarrow> Inl BadTokenReply
                | Some (tok, access) \<Rightarrow>
                    (if tok \<noteq> [] then Inr tok else if access \<noteq> [] then Inr access else Inl NoToken)))"

definition fetch_docker_hub_token :: "token_decoder \<Rightarrow> http \<Rightarrow> string \<Rightarrow> registry_error + string" where
  "fetch_docker_hub_token dec http repo = read_token dec (http
     \<lparr>hq_url = ''https://auth.docker.io/token?service=registry.docker.io&scope=repository:'' @ repo @ '':pull'',
      hq_bearer = []\<rparr>)"

definition get_docker_hub_digest :: "token_decoder \<Rightarrow> http \<Rightarrow> string \<Rightarrow> string \<Rightarrow> registry_error + string" where
  "get_docker_hub_digest dec http repo tag =
     (case fetch_docker_hub_token dec http repo of
        Inl e \<Rightarrow> Inl e
      | Inr tok \<Rightarrow> fetch_manifest_digest http
          (''https://registry-1.docker.io/v2/'' @ repo @ ''/manifests/'' @ tag) tok)"

text \<open>\<open>strings.Trim\<close> with a one-byte cutset.\<close>

definition trim_char :: "char \<Rightarrow> string \<Rightarrow> string" where
  "trim_char c s = trim_right c (dropWhile (\<lambda>x. x = c) s)"

definition challenge_params :: "string \<Rightarrow> string \<rightharpoonup> string" where
  "challenge_params header = foldl (\<lambda>m part.
     (case split_first (CHR ''='') (trim_space part) of
        None \<Rightarrow> m
      | Some (k, v) \<Rightarrow> m(trim_space k \<mapsto> trim_char (CHR 0x22) (trim_space v))))
     Map.empty (split_on (CHR '','') header)"

definition build_token_url :: "string \<Rightarrow> string \<Rightarrow> registry_error + string" where
  "build_token_url www_auth repo =
     (let header = trim_prefix www_auth ''Bearer '' in
      if header = www_auth then Inl UnsupportedScheme
      else case challenge_params header ''realm'' of
             None \<Rightarrow> Inl NoRealm
           | Some realm \<Rightarrow>
               (let scope = ''scope=repository:'' @ repo @ '':pull'' in
                case challenge_params header ''service'' of
                  Some svc \<Rightarrow> Inr (realm @ ''?service='' @ svc @ ''&'' @ scope)
                | None \<Rightarrow> Inr (realm @ ''?'' @ scope)))"

definition fetch_oci_anonymous_token ::
  "token_decoder \<Rightarrow> http \<Rightarrow> string \<Rightarrow> string \<Rightarrow> registry_error + string" where
  "fetch_oci_anonymous_token dec http reg repo =
     (case http \<lparr>hq_url = ''https://'' @ reg @ ''/v2/'', hq_bearer = []\<rparr> of
        None \<Rightarrow> Inl RequestFailed
      | Some a \<Rightarrow>
          (let www_auth = ha_header a ''Www-Authenticate'' in
           if www_auth = [] then Inl NoChallenge
           else case build_token_url www_auth repo of
                  Inl e \<Rightarrow> Inl e
                | Inr url \<Rightarrow> read_token dec (http \<lparr>hq_url = url, hq_bearer = []\<rparr>)))"

definition get_oci_digest :: "token_decoder \<Rightarrow> http \<Rightarrow> string \<Rightarrow> string \<Rightarrow> string \<Rightarrow> registry_error + string" where
  "get_oci_digest dec http reg repo tag =
     (let url = ''https://'' @ reg @ ''/v2/'' @ repo @ ''/manifests/'' @ tag in
      case fetch_manifest_digest http url [] of
        Inr digest \<Rightarrow> Inr digest
      | Inl _ \<Rightarrow>
          (case fetch_oci_anonymous_token dec http reg repo of
             Inl e \<Rightarrow> Inl e
           | Inr tok \<Rightarrow> fetch_manifest_digest http url tok))"

definition get_latest_digest :: "token_decoder \<Rightarrow> http \<Rightarrow> string \<Rightarrow> registry_error + string" where
  "get_latest_digest dec http ref =
     (case parse_image_ref ref of (reg, repo, tag) \<Rightarrow>
        if reg = ''docker.io'' then get_docker_hub_digest dec http repo tag
        else get_oci_digest dec http reg repo tag)"

section \<open>image_update.go\<close>

text \<open>An inspection: nil structures of the Docker API are empty fields.\<close>

record docker_inspect =
  di_image :: string
  di_manifest :: "string option"
  di_config_image :: string
  di_restart_policy :: string

record image_poller =
  ip_inspect :: "string \<Rightarrow> docker_inspect option"
  ip_image_inspect :: "string \<Rightarrow> string list option"   \<comment> \<open>the RepoDigests of an image\<close>
  ip_latest :: "string \<Rightarrow> registry_error + string"
  ip_now :: go_time

definition repo_of_ref :: "string \<Rightarrow> string" where
  "repo_of_ref name = (case split_last (CHR '':'') name of
       Some (a, b) \<Rightarrow> (if contains_str b ''/'' then name else a) | None \<Rightarrow> name)"

definition extract_repo_digest :: "string list \<Rightarrow> string \<Rightarrow> string" where
  "extract_repo_digest repo_digests name =
     (let repo = trim_prefix (repo_of_ref name) ''docker.io/'';
          matches = List.map_filter (\<lambda>d. case split_last (CHR ''@'') d of
            None \<Rightarrow> None
          | Some (a, digest) \<Rightarrow>
              (let img = trim_prefix a ''docker.io/'' in
               if img = repo \<or> has_suffix img (''/'' @ repo) then Some digest else None)) repo_digests in
      case matches of
        digest # _ \<Rightarrow> digest
      | [] \<Rightarrow> (case repo_digests of
          [] \<Rightarrow> []
        | d # _ \<Rightarrow> (case split_last (CHR ''@'') d of Some (_, digest) \<Rightarrow> digest | None \<Rightarrow> [])))"

text \<open>Step 1: the digest of the running image and the reference to ask the registry for; \<open>None\<close> skips
  the container.\<close>

definition local_image :: "image_poller \<Rightarrow> container \<Rightarrow> (string \<times> string) option" where
  "local_image p c =
     (case ip_inspect p (dc_container_id c) of
        None \<Rightarrow> (case dc_image_digest c of
            Some digest \<Rightarrow> (if digest \<noteq> [] then Some (digest, dc_image c) else None)
          | None \<Rightarrow> None)
      | Some i \<Rightarrow>
          (let name = (if di_config_image i \<noteq> [] then di_config_image i else dc_image c);
               digest = (case di_manifest i of
                   Some m \<Rightarrow> m
                 | None \<Rightarrow> (case ip_image_inspect p (di_image i) of
                     None \<Rightarrow> di_image i
                   | Some repo_digests \<Rightarrow>
                       (let r = extract_repo_digest repo_digests name in if r \<noteq> [] then r else di_image i))) in
           Some (digest, name)))"

definition update_available :: "string \<Rightarrow> string \<Rightarrow> bool" where
  "update_available image_digest registry_digest =
     (image_digest \<noteq> [] \<and> registry_digest \<noteq> [] \<and> image_digest \<noteq> registry_digest)"

definition restart_policy_of :: "image_poller \<Rightarrow> container \<Rightarrow> string" where
  "restart_policy_of p c = (case ip_inspect p (dc_container_id c) of Some i \<Rightarrow> di_restart_policy i | None \<Rightarrow> [])"

definition check_container_image :: "image_poller \<Rightarrow> container \<Rightarrow> db \<Rightarrow> db" where
  "check_container_image p c d0 =
     (if dc_status c \<noteq> ''running'' then d0
      else case local_image p c of
        None \<Rightarrow> d0
      | Some (image_digest, name) \<Rightarrow>
          (case ip_latest p name of
             Inl _ \<Rightarrow> d0
           | Inr registry_digest \<Rightarrow>
               (case container_update_image_check (ip_now p) (dc_id c) image_digest registry_digest
                    (update_available image_digest registry_digest) d0 of
                  (Inl _, d1) \<Rightarrow> d1
                | (Inr _, d1) \<Rightarrow>
                    (if restart_policy_of p c \<noteq> []
                     then db_ignore (container_update_restart_policy (dc_id c) (restart_policy_of p c) d1)
                     else d1))))"

definition image_update_run :: "image_poller \<Rightarrow> db \<Rightarrow> unit db_result" where
  "image_update_run p d0 = (case container_list_all d0 of
       (Inl e, d1) \<Rightarrow> (Inl e, d1)
     | (Inr cs, d1) \<Rightarrow> (Inr (), fold (check_container_image p) cs d1))"

section \<open>References\<close>

definition format_image_ref :: "string \<times> string \<times> string \<Rightarrow> string" where
  "format_image_ref = (\<lambda>(reg, repo, tag). reg @ ''/'' @ repo @ '':'' @ tag)"

definition canonical_ref :: "string \<times> string \<times> string \<Rightarrow> bool" where
  "canonical_ref = (\<lambda>(reg, repo, tag). (CHR ''.'' \<in> set reg \<or> CHR '':'' \<in> set reg \<or> reg = ''localhost'')
     \<and> CHR ''/'' \<notin> set reg \<and> CHR '':'' \<notin> set tag \<and> CHR ''/'' \<notin> set tag)"

lemma split_last_append: "c \<notin> set b \<Longrightarrow> split_last c (a @ c # b) = Some (a, b)"
  by (simp add: split_last_def)

lemma parse_canonical:
  assumes "canonical_ref x"
  shows "parse_image_ref (format_image_ref x) = x"
proof (cases x)
  case (fields reg repo tag)
  have "split_last (CHR '':'') (format_image_ref x) = Some (reg @ ''/'' @ repo, tag)"
    using assms split_last_append [of "CHR '':''" tag "reg @ ''/'' @ repo"]
    by (simp add: fields format_image_ref_def canonical_ref_def)
  moreover have "\<not> contains_str tag ''/''" using assms by (simp add: fields canonical_ref_def contains_char_iff)
  moreover have "split_first (CHR ''/'') (reg @ ''/'' @ repo) = Some (reg, repo)"
    using assms by (simp add: fields canonical_ref_def)
  ultimately show ?thesis
    using assms by (auto simp: parse_image_ref_def fields canonical_ref_def)
qed

lemma parsed_canonical: "canonical_ref (parse_image_ref ref)"
proof -
  obtain bare tag where bt: "(case split_last (CHR '':'') ref of
            Some (a, b) \<Rightarrow> (if contains_str b ''/'' then (ref, ''latest'') else (a, b))
          | None \<Rightarrow> (ref, ''latest'')) = (bare, tag)" by fastforce
  have tag: "CHR '':'' \<notin> set tag" "CHR ''/'' \<notin> set tag"
    using bt by (cases "split_last (CHR '':'') ref"; auto simp: contains_char_iff split_last_Some split: if_splits)+
  show ?thesis
    using tag split_first_Some [of "CHR ''/''" bare]
    by (auto simp: parse_image_ref_def bt canonical_ref_def split: option.split)
qed

text \<open>C36: Image references are parsed faithfully: a reference written out with registry, repository and tag is
  parsed into exactly these, and parsing any reference yields one that, written out, parses to itself.\<close>

theorem image_ref_roundtrip:
  assumes "canonical_ref x"
  shows "parse_image_ref (format_image_ref x) = x \<and> canonical_ref (parse_image_ref ref)
    \<and> parse_image_ref (format_image_ref (parse_image_ref ref)) = parse_image_ref ref"
  using parse_canonical [OF assms] parse_canonical [OF parsed_canonical] parsed_canonical by blast

theorem image_ref_roundtrip_witness:
  "parse_image_ref ''ghcr.io/meeb/tubesync:2.1'' = (''ghcr.io'', ''meeb/tubesync'', ''2.1'')"
  using image_ref_roundtrip [of "(''ghcr.io'', ''meeb/tubesync'', ''2.1'')" "[]"]
  by (simp add: format_image_ref_def canonical_ref_def)

text \<open>A reference pinned by digest is taken apart at the digest's colon, so the registry is asked for a
  repository that does not exist.\<close>

lemma pinned_ref_parsed_as_tag: "parse_image_ref ''ghcr.io/x/app@sha256:abc'' = (''ghcr.io'', ''x/app@sha256'', ''abc'')"
  by code_simp

section \<open>The registry client\<close>

lemma fetch_manifest_digest_source:
  "fetch_manifest_digest http url bearer = Inr digest \<Longrightarrow>
     \<exists>a. http \<lparr>hq_url = url, hq_bearer = bearer\<rparr> = Some a \<and> ha_status a = 200
       \<and> ha_header a ''Docker-Content-Digest'' = digest \<and> digest \<noteq> []"
  by (auto simp: fetch_manifest_digest_def Let_def split: option.splits if_splits)

text \<open>Whatever the registry does, a digest the client answers is the content digest of a 200 answer to a
  request for the manifest of the reference's repository and tag.\<close>

lemma latest_digest_source:
  assumes "get_latest_digest dec http ref = Inr digest" and "parse_image_ref ref = (reg, repo, tag)"
  shows "digest \<noteq> [] \<and> (\<exists>bearer a. http \<lparr>hq_url = ''https://''
      @ (if reg = ''docker.io'' then ''registry-1.docker.io'' else reg) @ ''/v2/'' @ repo @ ''/manifests/'' @ tag,
      hq_bearer = bearer\<rparr> = Some a \<and> ha_status a = 200 \<and> ha_header a ''Docker-Content-Digest'' = digest)"
proof (cases "reg = ''docker.io''")
  case True
  then show ?thesis
    using assms by (auto simp: get_latest_digest_def get_docker_hub_digest_def dest!: fetch_manifest_digest_source
      split: sum.splits)
next
  case False
  then show ?thesis
    using assms by (auto simp: get_latest_digest_def get_oci_digest_def Let_def dest!: fetch_manifest_digest_source
      split: sum.splits)
qed

section \<open>What a run leaves\<close>

text \<open>The verdict on a container: its own digest and the registry's, when both steps succeed.\<close>

definition image_verdict :: "image_poller \<Rightarrow> container \<Rightarrow> (string \<times> string) option" where
  "image_verdict p c = (if dc_status c \<noteq> ''running'' then None
     else Option.bind (local_image p c) (\<lambda>(digest, name). case ip_latest p name of Inl _ \<Rightarrow> None | Inr r \<Rightarrow> Some (digest, r)))"

definition checked_row :: "image_poller \<Rightarrow> container \<Rightarrow> container" where
  "checked_row p c = (case image_verdict p c of
       None \<Rightarrow> c
     | Some (mine, latest) \<Rightarrow> c\<lparr>dc_image_digest := Some mine, dc_registry_digest := Some latest,
         dc_image_update_available := (mine \<noteq> [] \<and> latest \<noteq> [] \<and> mine \<noteq> latest),
         dc_image_last_checked_at := Some (ip_now p),
         dc_restart_policy := (if restart_policy_of p c = [] then dc_restart_policy c else Some (restart_policy_of p c))\<rparr>)"

lemma update_where_cong:
  "(\<And>x. x \<in> set xs \<Longrightarrow> P x \<Longrightarrow> f x = g x) \<Longrightarrow> update_where P f xs = update_where P g xs"
  by (auto simp: update_where_def)

lemma update_where_twice:
  "(\<And>x. P (f x) = P x) \<Longrightarrow> update_where P g (update_where P f xs) = update_where P (g \<circ> f) xs"
  by (auto simp: update_where_def)

lemma update_where_none: "(\<And>x. x \<in> set xs \<Longrightarrow> P x \<Longrightarrow> f x = x) \<Longrightarrow> update_where P f xs = xs"
  by (auto simp: update_where_def intro: map_idI)

lemma same_id: "distinct (map dc_id xs) \<Longrightarrow> x \<in> set xs \<Longrightarrow> c \<in> set xs \<Longrightarrow> dc_id x = dc_id c \<Longrightarrow> x = c"
  by (metis eq_key_imp_eq_value map_eq_conv distinct_map inj_onD)

lemma image_verdict_Some:
  "image_verdict p c = Some (mine, latest) \<Longrightarrow> dc_status c = ''running''
     \<and> (\<exists>name. local_image p c = Some (mine, name) \<and> ip_latest p name = Inr latest)"
  by (cases "local_image p c") (auto simp: image_verdict_def split: if_splits sum.splits)

lemma check_container_image_eq:
  assumes "d_faults d = []" and "distinct (map dc_id (d_containers d))" and "c \<in> set (d_containers d)"
  shows "check_container_image p c d = d\<lparr>d_containers := update_where (\<lambda>x. dc_id x = dc_id c) (checked_row p) (d_containers d)\<rparr>"
proof -
  have same: "x = c" if "x \<in> set (d_containers d)" "dc_id x = dc_id c" for x
    using same_id [OF assms(2) that(1) assms(3) that(2)] .
  show ?thesis
  proof (cases "image_verdict p c")
    case None
    then have "check_container_image p c d = d"
      by (auto simp: image_verdict_def check_container_image_def split: option.splits sum.splits if_splits bind_splits)
    moreover have "checked_row p x = x" if "x \<in> set (d_containers d)" "dc_id x = dc_id c" for x
      using same [OF that] None by (simp add: checked_row_def)
    ultimately show ?thesis by (simp add: update_where_none)
  next
    case (Some v)
    then obtain name latest where run: "dc_status c = ''running''" and l: "local_image p c = Some (fst v, name)"
      and r: "ip_latest p name = Inr (snd v)"
      using image_verdict_Some [of p c "fst v" "snd v"] by auto
    let ?f = "\<lambda>x. x\<lparr>dc_image_digest := Some (fst v), dc_registry_digest := Some (snd v),
       dc_image_update_available := update_available (fst v) (snd v), dc_image_last_checked_at := Some (ip_now p)\<rparr>"
    let ?g = "\<lambda>x. x\<lparr>dc_restart_policy := Some (restart_policy_of p c)\<rparr>"
    let ?P = "\<lambda>x. dc_id x = dc_id c"
    have upd: "container_update_image_check (ip_now p) (dc_id c) (fst v) (snd v) (update_available (fst v) (snd v)) d
        = (Inr (), container_set (dc_id c) ?f d)"
      using assms(1,3) by (simp add: container_update_image_check_def container_change_def)
    have "check_container_image p c d = d\<lparr>d_containers := update_where ?P
        (if restart_policy_of p c = [] then ?f else ?g \<circ> ?f) (d_containers d)\<rparr>"
      using assms(1)
      by (simp add: check_container_image_def run l r upd container_update_restart_policy_def container_set_def update_where_twice)
    also have "update_where ?P (if restart_policy_of p c = [] then ?f else ?g \<circ> ?f) (d_containers d)
        = update_where ?P (checked_row p) (d_containers d)"
    proof (rule update_where_cong)
      fix x assume "x \<in> set (d_containers d)" and "?P x"
      then have "x = c" by (rule same)
      then show "(if restart_policy_of p c = [] then ?f else ?g \<circ> ?f) x = checked_row p x"
        by (simp add: checked_row_def Some update_available_def split: prod.split)
    qed
    finally show ?thesis .
  qed
qed

lemma checked_row_id [simp]: "dc_id (checked_row p c) = dc_id c"
  by (simp add: checked_row_def split: option.split)

lemma check_containers_eq:
  assumes "d_faults d = []" and "distinct (map dc_id (d_containers d))" and "set cs \<subseteq> set (d_containers d)"
    and "distinct (map dc_id cs)"
  shows "fold (check_container_image p) cs d
    = d\<lparr>d_containers := map (\<lambda>x. if dc_id x \<in> dc_id ` set cs then checked_row p x else x) (d_containers d)\<rparr>"
  using assms
proof (induction cs arbitrary: d)
  case (Cons c cs)
  let ?xs = "update_where (\<lambda>x. dc_id x = dc_id c) (checked_row p) (d_containers d)"
  have step: "check_container_image p c d = d\<lparr>d_containers := ?xs\<rparr>" using check_container_image_eq Cons.prems by simp
  have ids: "map dc_id ?xs = map dc_id (d_containers d)" by (rule map_update_where) simp
  have "set cs \<subseteq> set ?xs"
  proof
    fix x assume x: "x \<in> set cs"
    then have "dc_id x \<noteq> dc_id c" using Cons.prems(4) by (metis distinct.simps(2) image_eqI list.simps(9) set_map)
    with x show "x \<in> set ?xs" using Cons.prems(3) by (auto simp: set_update_where intro!: bexI [of _ x])
  qed
  then have "fold (check_container_image p) cs (d\<lparr>d_containers := ?xs\<rparr>)
      = d\<lparr>d_containers := map (\<lambda>x. if dc_id x \<in> dc_id ` set cs then checked_row p x else x) ?xs\<rparr>"
    using Cons.IH [of "d\<lparr>d_containers := ?xs\<rparr>"] Cons.prems(1,2,4) ids by simp
  moreover have "map (\<lambda>x. if dc_id x \<in> dc_id ` set cs then checked_row p x else x) ?xs
      = map (\<lambda>x. if dc_id x \<in> dc_id ` set (c # cs) then checked_row p x else x) (d_containers d)"
    using Cons.prems(4) by (auto simp: update_where_def)
  ultimately show ?case by (simp add: step)
qed simp

text \<open>A run of the image check decides for each container alone and never on incomplete information: a
  running container whose digest is known and whose registry answers gets both digests and is flagged
  exactly if they differ; every failure (Docker, network, registry, an unknown digest) and every
  stopped container leaves the row, its flag included, as it was.\<close>

theorem image_run_checks_each:
  assumes "d_faults d = []" and "distinct (map dc_id (d_containers d))"
  shows "image_update_run p d = (Inr (), d\<lparr>d_containers := map (checked_row p) (d_containers d)\<rparr>)"
proof -
  let ?cs = "order_asc dc_infra_component_id (order_asc dc_container_name (d_containers d))"
  have "mset (map dc_id ?cs) = mset (map dc_id (d_containers d))" by simp
  then have "distinct (map dc_id ?cs)" using assms(2) by (metis mset_eq_imp_distinct_iff)
  then have "fold (check_container_image p) ?cs d
      = d\<lparr>d_containers := map (\<lambda>x. if dc_id x \<in> dc_id ` set ?cs then checked_row p x else x) (d_containers d)\<rparr>"
    by (intro check_containers_eq [OF assms]) simp_all
  moreover have "map (\<lambda>x. if dc_id x \<in> dc_id ` set ?cs then checked_row p x else x) (d_containers d)
      = map (checked_row p) (d_containers d)" by simp
  ultimately show ?thesis using assms(1) by (simp add: image_update_run_def container_list_all_def)
qed

definition sample_container :: container where
  "sample_container = \<lparr>dc_id = ''k1'', dc_infra_component_id = ''e1'', dc_source_type = ''portainer'', dc_container_id = ''abc'',
     dc_container_name = ''sonarr'', dc_image = ''linuxserver/sonarr'', dc_status = ''running'', dc_app_id = None,
     dc_profile_suggestion = None, dc_suggestion_confidence = None, dc_last_seen_at = 0, dc_created_at = 0,
     dc_image_digest = Some ''sha256:1'', dc_registry_digest = None, dc_image_update_available = False,
     dc_image_last_checked_at = None, dc_ports = None, dc_labels = None, dc_volumes = None, dc_networks = None,
     dc_restart_policy = None, dc_docker_created_at = None, dc_env_vars = None\<rparr>"

definition sample_poller :: image_poller where
  "sample_poller = \<lparr>ip_inspect = (\<lambda>_. None), ip_image_inspect = (\<lambda>_. None), ip_latest = (\<lambda>_. Inr ''sha256:2''), ip_now = 7\<rparr>"

theorem image_run_checks_each_witness:
  "map dc_image_update_available (d_containers (snd (image_update_run sample_poller
     (empty_db\<lparr>d_containers := [sample_container]\<rparr>)))) = [True]"
  using image_run_checks_each [of "empty_db\<lparr>d_containers := [sample_container]\<rparr>" sample_poller]
  by (simp add: empty_db_def checked_row_def image_verdict_def local_image_def sample_poller_def sample_container_def)

end
