(* ===== verification/Totp.thy ===== *)
theory Totp
  imports Prelude "HOL-Library.Word"
begin

text \<open>
  One-time codes: internal/auth/totp.go with the parts of encoding/base32 and encoding/binary it uses,
  on bytes as \<open>8 word\<close>.

  HMAC-SHA1 is a parameter from key and message to the digest, of which the code relies on the length
  of 20 bytes only.
\<close>

unbundle bit_operations_syntax

section \<open>base32, no padding\<close>

definition b32_char :: "8 word \<Rightarrow> char" where
  "b32_char d = (if d < 26 then char_of (65 + unat d) else char_of (24 + unat d))"

definition b32_digit :: "char \<Rightarrow> 8 word option" where
  "b32_digit c = (let n = of_char c :: nat in
     if 65 \<le> n \<and> n \<le> 90 then Some (of_nat (n - 65))
     else if 50 \<le> n \<and> n \<le> 55 then Some (of_nat (n - 24)) else None)"

text \<open>Five bytes are eight digits of five bits.\<close>

definition b32_group :: "8 word \<Rightarrow> 8 word \<Rightarrow> 8 word \<Rightarrow> 8 word \<Rightarrow> 8 word \<Rightarrow> 8 word list" where
  "b32_group a b c d e =
     [drop_bit 3 a, (push_bit 2 a OR drop_bit 6 b) AND 31, drop_bit 1 b AND 31, (push_bit 4 b OR drop_bit 4 c) AND 31,
      (push_bit 1 c OR drop_bit 7 d) AND 31, drop_bit 2 d AND 31, (push_bit 3 d OR drop_bit 5 e) AND 31, e AND 31]"

fun b32_ungroup :: "8 word list \<Rightarrow> 8 word list" where
  "b32_ungroup [d0, d1, d2, d3, d4, d5, d6, d7] =
     [push_bit 3 d0 OR drop_bit 2 d1, push_bit 6 d1 OR push_bit 1 d2 OR drop_bit 4 d3, push_bit 4 d3 OR drop_bit 1 d4,
      push_bit 7 d4 OR push_bit 2 d5 OR drop_bit 3 d6, push_bit 5 d6 OR d7]"
| "b32_ungroup _ = []"

fun b32_encode :: "8 word list \<Rightarrow> string" where
  "b32_encode [] = []"
| "b32_encode [a] = map b32_char (take 2 (b32_group a 0 0 0 0))"
| "b32_encode [a, b] = map b32_char (take 4 (b32_group a b 0 0 0))"
| "b32_encode [a, b, c] = map b32_char (take 5 (b32_group a b c 0 0))"
| "b32_encode [a, b, c, d] = map b32_char (take 7 (b32_group a b c d 0))"
| "b32_encode (a # b # c # d # e # rest) = map b32_char (b32_group a b c d e) @ b32_encode rest"

text \<open>How many bytes a last group of so many digits stands for.\<close>

definition b32_bytes :: "nat \<Rightarrow> nat" where
  "b32_bytes n = (if n = 7 then 4 else if n = 5 then 3 else if n = 4 then 2 else if n = 2 then 1 else 0)"

fun b32_decode_digits :: "8 word list \<Rightarrow> 8 word list" where
  "b32_decode_digits (d0 # d1 # d2 # d3 # d4 # d5 # d6 # d7 # rest) =
     b32_ungroup [d0, d1, d2, d3, d4, d5, d6, d7] @ b32_decode_digits rest"
| "b32_decode_digits ds = take (b32_bytes (length ds)) (b32_ungroup (take 8 (ds @ replicate 8 0)))"

text \<open>Line breaks are skipped; any other character that is no digit is an error.\<close>

definition b32_decode :: "string \<Rightarrow> 8 word list option" where
  "b32_decode s = map_option b32_decode_digits
     (those (map b32_digit (filter (\<lambda>c. c \<noteq> CHR 0x0A \<and> c \<noteq> CHR 0x0D) s)))"

section \<open>totp.go\<close>

definition generate_totp_secret :: "8 word list option \<Rightarrow> string option" where
  "generate_totp_secret raw = map_option b32_encode raw"

type_synonym hmac_sha1 = "8 word list \<Rightarrow> 8 word list \<Rightarrow> 8 word list"

definition big_endian_64 :: "64 word \<Rightarrow> 8 word list" where
  "big_endian_64 n = map (\<lambda>i. ucast (drop_bit (8 * i) n)) [7, 6, 5, 4, 3, 2, 1, 0]"

definition big_endian_32 :: "8 word list \<Rightarrow> 32 word" where
  "big_endian_32 bs = foldl (\<lambda>acc b. push_bit 8 acc OR ucast b) 0 bs"

definition totp_code :: "hmac_sha1 \<Rightarrow> 8 word list \<Rightarrow> 64 word \<Rightarrow> string" where
  "totp_code hmac key counter =
     (let digest = hmac key (big_endian_64 counter);
          offset = unat (last digest AND 0x0F);
          code = big_endian_32 (take 4 (drop offset digest)) AND 0x7FFFFFFF in
      pad_zeros 6 (show_nat (unat code mod 10 ^ 6)))"

definition normalize_secret :: "string \<Rightarrow> string" where
  "normalize_secret secret = to_upper (replace_all '' '' [] secret)"

definition validate_totp :: "hmac_sha1 \<Rightarrow> go_time \<Rightarrow> string \<Rightarrow> string \<Rightarrow> bool" where
  "validate_totp hmac now secret code =
     (if length code \<noteq> 6 then False
      else case b32_decode (normalize_secret secret) of
        None \<Rightarrow> False
      | Some key \<Rightarrow> list_ex (\<lambda>delta. totp_code hmac key (word_of_int (unix_secs now div 30 + delta)) = code) [- 1, 0, 1])"

section \<open>Encoding and decoding\<close>

lemma byte_eqI: "(bit v 0 = bit w 0) \<Longrightarrow> (bit v 1 = bit w 1) \<Longrightarrow> (bit v 2 = bit w 2) \<Longrightarrow> (bit v 3 = bit w 3)
  \<Longrightarrow> (bit v 4 = bit w 4) \<Longrightarrow> (bit v 5 = bit w 5) \<Longrightarrow> (bit v 6 = bit w 6) \<Longrightarrow> (bit v 7 = bit w 7) \<Longrightarrow> v = (w :: 8 word)"
  by (rule bit_word_eqI) (auto simp: less_Suc_eq numeral_eq_Suc)

lemma bit_31: "bit (31 :: 8 word) n \<longleftrightarrow> n < 5"
proof -
  have "(31 :: 8 word) = mask 5" by (simp add: mask_eq_exp_minus_1)
  moreover have "bit (mask 5 :: 8 word) n \<longleftrightarrow> n < 5" by (auto simp add: bit_mask_iff simp del: mask_numeral)
  ultimately show ?thesis by metis
qed

lemma b32_ungroup_group: "b32_ungroup (b32_group a b c d e) = [a, b, c, d, e]"
  unfolding b32_group_def b32_ungroup.simps list.inject
  by (intro conjI refl byte_eqI; simp add: bit_simps bit_31 del: push_bit_Suc; simp add: eval_nat_numeral)

lemma b32_digit_char:
  assumes "d < 32"
  shows "b32_digit (b32_char d) = Some d"
proof -
  have n: "unat d < 32" using assms by (simp add: word_less_nat_alt)
  have lt: "d < 26 \<longleftrightarrow> unat d < 26" by (simp add: word_less_nat_alt)
  show ?thesis
    using n by (auto simp: b32_char_def b32_digit_def lt Let_def)
qed

lemma b32_char_alphabet:
  assumes "d < 32"
  shows "b32_char d \<notin> {CHR 0x0A, CHR 0x0D, CHR '' ''}" and "upper_char (b32_char d) = b32_char d"
proof -
  have n: "unat d < 32" using assms by (simp add: word_less_nat_alt)
  have lt: "d < 26 \<longleftrightarrow> unat d < 26" by (simp add: word_less_nat_alt)
  have code: "of_char (b32_char d) = (if unat d < 26 then 65 + unat d else 24 + unat d)"
    using n by (simp add: b32_char_def lt)
  show "b32_char d \<notin> {CHR 0x0A, CHR 0x0D, CHR '' ''}"
  proof
    assume "b32_char d \<in> {CHR 0x0A, CHR 0x0D, CHR '' ''}"
    then have "(of_char (b32_char d) :: nat) \<in> {10, 13, 32}" by auto
    then show False using code n by (auto split: if_splits)
  qed
  show "upper_char (b32_char d) = b32_char d"
    using code n by (auto simp: upper_char_def Let_def split: if_splits)
qed

lemma b32_group_small: "list_all (\<lambda>d. d < 32) (b32_group a b c d e)"
proof -
  have m: "x AND 31 < 32" for x :: "8 word"
    using word_and_le1 [of x 31] by (rule le_less_trans) simp
  have "unat (drop_bit 3 a) < 32"
    using unsigned_less [of a, where ?'a = nat] by (simp add: unat_div drop_bit_eq_div less_mult_imp_div_less)
  then have "drop_bit 3 a < 32" by (simp add: word_less_nat_alt)
  then show ?thesis by (simp add: b32_group_def m)
qed

lemma those_digits: "list_all (\<lambda>d. d < 32) ds \<Longrightarrow> those (map b32_digit (map b32_char ds)) = Some ds"
  by (induction ds) (simp_all add: b32_digit_char)

lemma list_all_take: "list_all P xs \<Longrightarrow> list_all P (take n xs)"
  by (metis append_take_drop_id list_all_append)

text \<open>Every encoding is the image of small digits that decode to the bytes.\<close>

lemma b32_encode_digits:
  "\<exists>ds. b32_encode bs = map b32_char ds \<and> list_all (\<lambda>d. d < 32) ds \<and> b32_decode_digits ds = bs"
proof (induction bs rule: b32_encode.induct)
  case 1
  show ?case by (intro exI [of _ "[]"]) (simp add: b32_bytes_def)
next
  case (2 a)
  show ?case
    using b32_ungroup_group [of a 0 0 0 0] list_all_take [OF b32_group_small [of a 0 0 0 0], of 2]
    by (intro exI [of _ "take 2 (b32_group a 0 0 0 0)"]) (simp add: b32_group_def b32_bytes_def numeral_eq_Suc)
next
  case (3 a b)
  show ?case
    using b32_ungroup_group [of a b 0 0 0] list_all_take [OF b32_group_small [of a b 0 0 0], of 4]
    by (intro exI [of _ "take 4 (b32_group a b 0 0 0)"]) (simp add: b32_group_def b32_bytes_def numeral_eq_Suc)
next
  case (4 a b c)
  show ?case
    using b32_ungroup_group [of a b c 0 0] list_all_take [OF b32_group_small [of a b c 0 0], of 5]
    by (intro exI [of _ "take 5 (b32_group a b c 0 0)"]) (simp add: b32_group_def b32_bytes_def numeral_eq_Suc)
next
  case (5 a b c d)
  show ?case
    using b32_ungroup_group [of a b c d 0] list_all_take [OF b32_group_small [of a b c d 0], of 7]
    by (intro exI [of _ "take 7 (b32_group a b c d 0)"]) (simp add: b32_group_def b32_bytes_def numeral_eq_Suc)
next
  case (6 a b c d e rest)
  then obtain ds where ds: "b32_encode rest = map b32_char ds" "list_all (\<lambda>d. d < 32) ds" "b32_decode_digits ds = rest" by blast
  have "b32_decode_digits (b32_group a b c d e @ ds) = [a, b, c, d, e] @ b32_decode_digits ds"
    using b32_ungroup_group [of a b c d e] by (simp add: b32_group_def)
  with ds b32_group_small [of a b c d e] show ?case
    by (intro exI [of _ "b32_group a b c d e @ ds"]) simp
qed

lemma b32_decode_encode: "b32_decode (b32_encode bs) = Some bs"
proof -
  obtain ds where ds: "b32_encode bs = map b32_char ds" "list_all (\<lambda>d. d < 32) ds" "b32_decode_digits ds = bs"
    using b32_encode_digits by blast
  have "filter (\<lambda>c. c \<noteq> CHR 0x0A \<and> c \<noteq> CHR 0x0D) (map b32_char ds) = map b32_char ds"
    using ds(2) b32_char_alphabet(1) by (intro filter_True) (fastforce simp: list_all_iff)
  then show ?thesis using ds those_digits [OF ds(2)] by (simp add: b32_decode_def)
qed

lemma normalize_encoded: "normalize_secret (b32_encode bs) = b32_encode bs"
proof -
  obtain ds where ds: "b32_encode bs = map b32_char ds" "list_all (\<lambda>d. d < 32) ds"
    using b32_encode_digits by blast
  have "replace_all '' '' [] (map b32_char ds) = map b32_char ds"
    using ds(2) b32_char_alphabet(1) by (intro replace_all_absent) (fastforce simp: list_all_iff)
  then show ?thesis
    using ds b32_char_alphabet(2) by (auto simp: normalize_secret_def to_upper_def list_all_iff)
qed

lemma totp_code_length: "length (totp_code hmac key counter) = 6"
  by (simp add: totp_code_def Let_def length_pad)

text \<open>The four bytes of the code lie inside the digest.\<close>

lemma totp_offset_in_bounds:
  assumes "length digest = 20"
  shows "unat (last digest AND (0x0F :: 8 word)) + 4 \<le> length digest"
proof -
  have "last digest AND 0x0F \<le> (0x0F :: 8 word)" by (rule word_and_le1)
  then have "unat (last digest AND (0x0F :: 8 word)) \<le> 15" by (simp add: word_le_nat_alt)
  then show ?thesis using assms by simp
qed

text \<open>C35: A secret survives its base32 text, so an authenticator that reads it computes with the key the
  server does: the server accepts exactly the six-digit codes of that key for the 30-second window of
  the clock, the one before and the one after.\<close>

theorem totp_accepts_three_windows:
  "b32_decode (normalize_secret (b32_encode key)) = Some key
   \<and> (validate_totp hmac now (b32_encode key) code
      \<longleftrightarrow> code \<in> (\<lambda>delta. totp_code hmac key (word_of_int (unix_secs now div 30 + delta))) ` {- 1, 0, 1})
   \<and> length (totp_code hmac key counter) = 6"
  using b32_decode_encode [of key]
  by (auto simp: validate_totp_def normalize_encoded totp_code_length)

end
