(* ===== verification/Users.thy ===== *)
theory Users
  imports Links Totp
begin

text \<open>
  Users and their settings: internal/repo/users.go, the password policy and the settings of
  internal/api/settings.go, and the user management of internal/api/users.go.

  Unicode's character classes, bcrypt and the JSON decoding of the stored settings are parameters of
  the handlers (\<open>user_env\<close>). A decoded request body is \<open>None\<close> when it is no valid JSON.
\<close>

section \<open>Repository\<close>

definition user_list :: "db \<Rightarrow> user_row list db_result" where
  "user_list = db_query (\<lambda>d. order_asc us_created_at (d_users d))"

definition user_count :: "db \<Rightarrow> nat db_result" where
  "user_count = db_query (\<lambda>d. length (d_users d))"

text \<open>The columns the INSERT does not name get the defaults of migrations/028.\<close>

definition user_create :: "go_time \<Rightarrow> string \<Rightarrow> string \<Rightarrow> string \<Rightarrow> string \<Rightarrow> db \<Rightarrow> unit db_result" where
  "user_create now uid email role hash = db_op (\<lambda>d.
     if uid \<in> us_id ` set (d_users d) \<or> email \<in> us_email ` set (d_users d) then (Inl DbFail, d)
     else (Inr (), d\<lparr>d_users := d_users d @ [\<lparr>us_id = uid, us_email = email, us_password_hash = hash, us_role = role,
        us_totp_secret = [], us_totp_enabled = False, us_totp_grace = True, us_totp_exempt = False,
        us_created_at = now\<rparr>]\<rparr>))"

text \<open>Deleting a user deletes the push subscriptions (ON DELETE CASCADE).\<close>

definition user_delete :: "string \<Rightarrow> db \<Rightarrow> unit db_result" where
  "user_delete uid = db_op (\<lambda>d. if uid \<notin> us_id ` set (d_users d) then (Inl NotFound, d)
     else (Inr (), d\<lparr>d_users := filter (\<lambda>u. us_id u \<noteq> uid) (d_users d),
                    d_subs := filter (\<lambda>p. ps_user_id p \<noteq> uid) (d_subs d)\<rparr>))"

definition user_get_by_id :: "string \<Rightarrow> db \<Rightarrow> user_row db_result" where
  "user_get_by_id uid = db_op (\<lambda>d. case lookup_row us_id uid (d_users d) of
       Some u \<Rightarrow> (Inr u, d) | None \<Rightarrow> (Inl NotFound, d))"

definition user_get_by_email :: "string \<Rightarrow> db \<Rightarrow> (user_row \<times> string) db_result" where
  "user_get_by_email email = db_op (\<lambda>d. case lookup_row us_email email (d_users d) of
       Some u \<Rightarrow> (Inr (u, us_password_hash u), d) | None \<Rightarrow> (Inl NotFound, d))"

definition user_set :: "string \<Rightarrow> (user_row \<Rightarrow> user_row) \<Rightarrow> db \<Rightarrow> db" where
  "user_set uid f d = d\<lparr>d_users := update_where (\<lambda>u. us_id u = uid) f (d_users d)\<rparr>"

definition user_update_password :: "string \<Rightarrow> string \<Rightarrow> db \<Rightarrow> unit db_result" where
  "user_update_password uid hash = db_op (\<lambda>d. if uid \<notin> us_id ` set (d_users d) then (Inl NotFound, d)
     else (Inr (), user_set uid (\<lambda>u. u\<lparr>us_password_hash := hash\<rparr>) d))"

definition user_update :: "string \<Rightarrow> string \<Rightarrow> string \<Rightarrow> db \<Rightarrow> unit db_result" where
  "user_update uid email role = db_op (\<lambda>d. if uid \<notin> us_id ` set (d_users d) then (Inl NotFound, d)
     else if \<exists>u \<in> set (d_users d). us_email u = email \<and> us_id u \<noteq> uid then (Inl DbFail, d)
     else (Inr (), user_set uid (\<lambda>u. u\<lparr>us_email := email, us_role := role\<rparr>) d))"

text \<open>Secret, enabled, grace, exempt.\<close>

definition user_totp_data :: "string \<Rightarrow> db \<Rightarrow> (string \<times> bool \<times> bool \<times> bool) db_result" where
  "user_totp_data uid = db_op (\<lambda>d. case lookup_row us_id uid (d_users d) of
       Some u \<Rightarrow> (Inr (us_totp_secret u, us_totp_enabled u, us_totp_grace u, us_totp_exempt u), d)
     | None \<Rightarrow> (Inl NotFound, d))"

definition user_set_totp_secret :: "string \<Rightarrow> string \<Rightarrow> db \<Rightarrow> unit db_result" where
  "user_set_totp_secret uid secret = db_op (\<lambda>d. (Inr (), user_set uid (\<lambda>u. u\<lparr>us_totp_secret := secret\<rparr>) d))"

definition user_enable_totp :: "string \<Rightarrow> db \<Rightarrow> unit db_result" where
  "user_enable_totp uid = db_op (\<lambda>d.
     (Inr (), user_set uid (\<lambda>u. u\<lparr>us_totp_enabled := True, us_totp_grace := False\<rparr>) d))"

definition user_disable_totp :: "string \<Rightarrow> db \<Rightarrow> unit db_result" where
  "user_disable_totp uid = db_op (\<lambda>d. (Inr (), user_set uid (\<lambda>u. u\<lparr>us_totp_enabled := False\<rparr>) d))"

definition user_clear_grace :: "string \<Rightarrow> db \<Rightarrow> unit db_result" where
  "user_clear_grace uid = db_op (\<lambda>d. (Inr (), user_set uid (\<lambda>u. u\<lparr>us_totp_grace := False\<rparr>) d))"

definition user_reset_grace :: "string \<Rightarrow> db \<Rightarrow> unit db_result" where
  "user_reset_grace uid = db_op (\<lambda>d. (Inr (), user_set uid (\<lambda>u. u\<lparr>us_totp_grace := True\<rparr>) d))"

definition user_set_totp_exempt :: "string \<Rightarrow> bool \<Rightarrow> db \<Rightarrow> unit db_result" where
  "user_set_totp_exempt uid exempt = db_op (\<lambda>d. (Inr (), user_set uid (\<lambda>u. u\<lparr>us_totp_exempt := exempt\<rparr>) d))"

section \<open>settings.go: password policy and MFA\<close>

record password_policy =
  pp_min_length :: int
  pp_require_uppercase :: bool
  pp_require_number :: bool
  pp_require_special :: bool

record unicode =
  uc_runes :: "string \<Rightarrow> nat list"
  uc_upper :: "nat \<Rightarrow> bool"
  uc_digit :: "nat \<Rightarrow> bool"
  uc_letter :: "nat \<Rightarrow> bool"

record user_env =
  ue_unicode :: unicode
  ue_policy_decode :: "string \<Rightarrow> password_policy option"
  ue_policy_encode :: "password_policy \<Rightarrow> string"
  ue_mfa_decode :: "string \<Rightarrow> bool option"
  ue_mfa_encode :: "bool \<Rightarrow> string"
  ue_hash :: "string \<Rightarrow> string option"           \<comment> \<open>\<open>bcrypt.GenerateFromPassword\<close>\<close>
  ue_compare :: "string \<Rightarrow> string \<Rightarrow> bool"      \<comment> \<open>\<open>bcrypt.CompareHashAndPassword\<close> succeeds\<close>
  ue_now :: go_time
  ue_uuid :: string

definition default_password_policy :: password_policy where
  "default_password_policy = \<lparr>pp_min_length = 8, pp_require_uppercase = False, pp_require_number = False,
     pp_require_special = False\<rparr>"

definition load_mfa_required :: "user_env \<Rightarrow> db \<Rightarrow> bool \<times> db" where
  "load_mfa_required env d0 = (case settings_get ''mfa_required'' d0 of
       (Inl _, d1) \<Rightarrow> (False, d1)
     | (Inr raw, d1) \<Rightarrow> (case ue_mfa_decode env raw of None \<Rightarrow> False | Some v \<Rightarrow> v, d1))"

definition load_password_policy :: "user_env \<Rightarrow> db \<Rightarrow> password_policy \<times> db" where
  "load_password_policy env d0 = (case settings_get ''password_policy'' d0 of
       (Inl _, d1) \<Rightarrow> (default_password_policy, d1)
     | (Inr raw, d1) \<Rightarrow> (case ue_policy_decode env raw of
           None \<Rightarrow> default_password_policy
         | Some p \<Rightarrow> (if pp_min_length p < 1 then p\<lparr>pp_min_length := 8\<rparr> else p), d1))"

definition validate_password :: "unicode \<Rightarrow> string \<Rightarrow> password_policy \<Rightarrow> string option" where
  "validate_password uc pw p =
     (if int (length pw) < pp_min_length p
      then Some (''password must be at least '' @ show_int (pp_min_length p) @ '' characters'')
      else if pp_require_uppercase p \<and> \<not> list_ex (uc_upper uc) (uc_runes uc pw)
      then Some ''password must contain at least one uppercase letter''
      else if pp_require_number p \<and> \<not> list_ex (uc_digit uc) (uc_runes uc pw)
      then Some ''password must contain at least one number''
      else if pp_require_special p \<and> \<not> list_ex (\<lambda>c. \<not> uc_letter uc c \<and> \<not> uc_digit uc c) (uc_runes uc pw)
      then Some ''password must contain at least one special character''
      else None)"

definition settings_handler_get_policy :: "user_env \<Rightarrow> db \<Rightarrow> password_policy response \<times> db" where
  "settings_handler_get_policy env d = (case load_password_policy env d of (p, d1) \<Rightarrow> (Answer 200 p, d1))"

definition settings_handler_put_policy ::
  "user_env \<Rightarrow> password_policy option \<Rightarrow> db \<Rightarrow> password_policy response \<times> db" where
  "settings_handler_put_policy env body d = (case body of
       None \<Rightarrow> (Failed 400 ''invalid request body'', d)
     | Some q \<Rightarrow> (let p = (if pp_min_length q < 1 then q\<lparr>pp_min_length := 8\<rparr> else q) in
         case settings_set ''password_policy'' (ue_policy_encode env p) d of
           (Inl _, d1) \<Rightarrow> (Failed 500 ''database'', d1)
         | (Inr _, d1) \<Rightarrow> (Answer 200 p, d1)))"

definition settings_handler_get_mfa :: "user_env \<Rightarrow> db \<Rightarrow> bool response \<times> db" where
  "settings_handler_get_mfa env d = (case load_mfa_required env d of (v, d1) \<Rightarrow> (Answer 200 v, d1))"

definition settings_handler_put_mfa :: "user_env \<Rightarrow> bool option \<Rightarrow> db \<Rightarrow> bool response \<times> db" where
  "settings_handler_put_mfa env body d = (case body of
       None \<Rightarrow> (Failed 400 ''invalid request body'', d)
     | Some v \<Rightarrow> (case settings_set ''mfa_required'' (ue_mfa_encode env v) d of
           (Inl _, d1) \<Rightarrow> (Failed 500 ''database'', d1)
         | (Inr _, d1) \<Rightarrow> (Answer 200 v, d1)))"

section \<open>users.go (api)\<close>

definition db_failure :: "db_error \<Rightarrow> 'a response" where
  "db_failure e = (if e = NotFound then Failed 404 ''user not found'' else Failed 500 ''database'')"

definition users_handler_list :: "db \<Rightarrow> user_row list response \<times> db" where
  "users_handler_list d = (case user_list d of
       (Inl _, d1) \<Rightarrow> (Failed 500 ''database'', d1) | (Inr us, d1) \<Rightarrow> (Answer 200 us, d1))"

text \<open>The row just created, or what was sent when it cannot be read back.\<close>

definition created_answer :: "string \<Rightarrow> string \<Rightarrow> string \<Rightarrow> db \<Rightarrow> (string \<times> string \<times> string) response \<times> db" where
  "created_answer uid email role d = (case user_get_by_id uid d of
       (Inl _, d1) \<Rightarrow> (Answer 201 (uid, email, role), d1)
     | (Inr u, d1) \<Rightarrow> (Answer 201 (us_id u, us_email u, us_role u), d1))"

text \<open>Creation of a user with given role from a request of email, password and role, as Create and Register
  do it after their guards; \<open>pick\<close> is the choice of the role.\<close>

definition new_user ::
  "user_env \<Rightarrow> (string \<Rightarrow> string) \<Rightarrow> (string \<times> string \<times> string) option \<Rightarrow> db \<Rightarrow> (string \<times> string \<times> string) response \<times> db"
where
  "new_user env pick body d0 = (case body of
       None \<Rightarrow> (Failed 400 ''invalid request body'', d0)
     | Some (email, pw, asked) \<Rightarrow>
         (if email = [] then (Failed 400 ''email is required'', d0)
          else if pw = [] then (Failed 400 ''password is required'', d0)
          else case load_password_policy env d0 of (policy, d1) \<Rightarrow>
            (case validate_password (ue_unicode env) pw policy of
               Some msg \<Rightarrow> (Failed 400 msg, d1)
             | None \<Rightarrow>
                 (let role = pick asked in
                  if role \<noteq> ''admin'' \<and> role \<noteq> ''member'' then (Failed 400 ''role must be admin or member'', d1)
                  else case ue_hash env pw of
                    None \<Rightarrow> (Failed 500 ''failed to hash password'', d1)
                  | Some hash \<Rightarrow>
                      (case user_create (ue_now env) (ue_uuid env) email role hash d1 of
                         (Inl _, d2) \<Rightarrow> (Failed 500 ''database'', d2)
                       | (Inr _, d2) \<Rightarrow> created_answer (ue_uuid env) email role d2)))))"

definition member_by_default :: "string \<Rightarrow> string" where
  "member_by_default role = (if role = [] then ''member'' else role)"

definition users_handler_create ::
  "user_env \<Rightarrow> (string \<times> string \<times> string) option \<Rightarrow> db \<Rightarrow> (string \<times> string \<times> string) response \<times> db" where
  "users_handler_create env = new_user env member_by_default"

definition users_handler_delete :: "string \<Rightarrow> db \<Rightarrow> unit response \<times> db" where
  "users_handler_delete uid d = (case user_delete uid d of
       (Inl e, d1) \<Rightarrow> (db_failure e, d1) | (Inr _, d1) \<Rightarrow> (Answer 204 (), d1))"

definition users_handler_set_password :: "user_env \<Rightarrow> string \<Rightarrow> string option \<Rightarrow> db \<Rightarrow> unit response \<times> db" where
  "users_handler_set_password env uid body d0 = (case body of
       None \<Rightarrow> (Failed 400 ''invalid request body'', d0)
     | Some pw \<Rightarrow>
         (if pw = [] then (Failed 400 ''password is required'', d0)
          else case load_password_policy env d0 of (policy, d1) \<Rightarrow>
            (case validate_password (ue_unicode env) pw policy of
               Some msg \<Rightarrow> (Failed 400 msg, d1)
             | None \<Rightarrow> (case ue_hash env pw of
                 None \<Rightarrow> (Failed 500 ''failed to hash password'', d1)
               | Some hash \<Rightarrow> (case user_update_password uid hash d1 of
                   (Inl e, d2) \<Rightarrow> (db_failure e, d2) | (Inr _, d2) \<Rightarrow> (Answer 204 (), d2))))))"

text \<open>\<open>uid\<close> is the authenticated user.\<close>

definition users_handler_change_password ::
  "user_env \<Rightarrow> string \<Rightarrow> (string \<times> string) option \<Rightarrow> db \<Rightarrow> unit response \<times> db" where
  "users_handler_change_password env uid body d0 = (case body of
       None \<Rightarrow> (Failed 400 ''invalid request body'', d0)
     | Some (cur, new) \<Rightarrow>
         (if cur = [] \<or> new = [] then (Failed 400 ''current_password and new_password are required'', d0)
          else case load_password_policy env d0 of (policy, d1) \<Rightarrow>
            (case validate_password (ue_unicode env) new policy of
               Some msg \<Rightarrow> (Failed 400 msg, d1)
             | None \<Rightarrow> (case user_get_by_id uid d1 of
                 (Inl _, d2) \<Rightarrow> (Failed 500 ''database'', d2)
               | (Inr u, d2) \<Rightarrow> (case user_get_by_email (us_email u) d2 of
                   (Inl _, d3) \<Rightarrow> (Failed 500 ''database'', d3)
                 | (Inr (_, hash), d3) \<Rightarrow>
                     (if \<not> ue_compare env hash cur then (Failed 401 ''current password is incorrect'', d3)
                      else case ue_hash env new of
                        None \<Rightarrow> (Failed 500 ''failed to hash password'', d3)
                      | Some h \<Rightarrow> (case user_update_password uid h d3 of
                          (Inl _, d4) \<Rightarrow> (Failed 500 ''database'', d4) | (Inr _, d4) \<Rightarrow> (Answer 204 (), d4))))))))"

definition users_handler_update ::
  "string \<Rightarrow> (string \<times> string) option \<Rightarrow> db \<Rightarrow> user_row option response \<times> db" where
  "users_handler_update uid body d0 = (case body of
       None \<Rightarrow> (Failed 400 ''invalid request body'', d0)
     | Some (email, role) \<Rightarrow>
         (if email = [] then (Failed 400 ''email is required'', d0)
          else if role \<noteq> ''admin'' \<and> role \<noteq> ''member'' then (Failed 400 ''role must be admin or member'', d0)
          else case user_update uid email role d0 of
            (Inl e, d1) \<Rightarrow> (db_failure e, d1)
          | (Inr _, d1) \<Rightarrow> (case user_get_by_id uid d1 of
              (Inl _, d2) \<Rightarrow> (Answer 204 None, d2) | (Inr u, d2) \<Rightarrow> (Answer 200 (Some u), d2))))"

definition users_handler_set_exempt :: "string \<Rightarrow> bool option \<Rightarrow> db \<Rightarrow> unit response \<times> db" where
  "users_handler_set_exempt uid body d0 = (case body of
       None \<Rightarrow> (Failed 400 ''invalid request body'', d0)
     | Some exempt \<Rightarrow> (case user_set_totp_exempt uid exempt d0 of
         (Inl e, d1) \<Rightarrow> (db_failure e, d1) | (Inr _, d1) \<Rightarrow> (Answer 204 (), d1)))"

end
