(* ===== verification/Auth.thy ===== *)
theory Auth
  imports Users
begin

text \<open>
  Sessions: the tokens and the middleware of internal/auth, the handlers of internal/api/auth.go and
  internal/api/totp.go, and the routes of cmd/nora/main.go that lead to them.

  The JWT library is a parameter: \<open>ae_sign\<close> signs claims with the server's secret, \<open>ae_parse\<close> answers the
  claims of a token that verifies and has not expired at the given time. What the code relies on is
  \<open>jwt_ok\<close>.
\<close>

section \<open>auth.go\<close>

text \<open>The claims in a token; a claim that is absent decodes to Go's zero value.\<close>

record jwt_claims =
  jc_user_id :: string
  jc_role :: "string option"
  jc_mfa_pending :: "bool option"
  jc_expires :: int
  jc_issued :: int

record auth_env = user_env +
  ae_sign :: "jwt_claims \<Rightarrow> string option"
  ae_parse :: "go_time \<Rightarrow> string \<Rightarrow> jwt_claims option"
  ae_hmac :: hmac_sha1
  ae_rand :: "8 word list option"

definition jwt_ok :: "auth_env \<Rightarrow> bool" where
  "jwt_ok env = (\<forall>c tok. ae_sign env c = Some tok \<longrightarrow> tok \<noteq> [] \<and>
     (\<forall>now. ae_parse env now tok = (if unix_secs now < jc_expires c then Some c else None)))"

definition generate_token :: "auth_env \<Rightarrow> string \<Rightarrow> string \<Rightarrow> string option" where
  "generate_token env uid role = ae_sign env
     \<lparr>jc_user_id = uid, jc_role = Some role, jc_mfa_pending = None,
      jc_expires = unix_secs (ue_now env + 24 * hour_ns), jc_issued = unix_secs (ue_now env)\<rparr>"

definition generate_mfa_token :: "auth_env \<Rightarrow> string \<Rightarrow> string option" where
  "generate_mfa_token env uid = ae_sign env
     \<lparr>jc_user_id = uid, jc_role = None, jc_mfa_pending = Some True,
      jc_expires = unix_secs (ue_now env + 15 * minute_ns), jc_issued = unix_secs (ue_now env)\<rparr>"

definition validate_mfa_token :: "auth_env \<Rightarrow> string \<Rightarrow> string option" where
  "validate_mfa_token env tok = (case ae_parse env (ue_now env) tok of
       None \<Rightarrow> None
     | Some c \<Rightarrow> (if jc_mfa_pending c = Some True then Some (jc_user_id c) else None))"

definition validate_token :: "auth_env \<Rightarrow> string \<Rightarrow> (string \<times> string) option" where
  "validate_token env tok = (case ae_parse env (ue_now env) tok of
       None \<Rightarrow> None
     | Some c \<Rightarrow> Some (jc_user_id c, case jc_role c of Some r \<Rightarrow> r | None \<Rightarrow> []))"

section \<open>middleware.go\<close>

record http_call =
  hc_authorization :: string
  hc_cookie :: "string option"

definition extract_token :: "http_call \<Rightarrow> string" where
  "extract_token r =
     (if has_prefix (hc_authorization r) ''Bearer '' then trim_prefix (hc_authorization r) ''Bearer ''
      else case hc_cookie r of Some v \<Rightarrow> v | None \<Rightarrow> [])"

text \<open>The identity the request's context carries on, or the status of the refusal.\<close>

definition require_auth :: "auth_env \<Rightarrow> http_call \<Rightarrow> nat + (string \<times> string)" where
  "require_auth env r = (let tok = extract_token r in
     if tok = [] then Inl 401
     else case validate_token env tok of None \<Rightarrow> Inl 401 | Some ident \<Rightarrow> Inr ident)"

definition require_admin :: "auth_env \<Rightarrow> http_call \<Rightarrow> nat + (string \<times> string)" where
  "require_admin env r = (let tok = extract_token r in
     if tok = [] then Inl 401
     else case validate_token env tok of
         None \<Rightarrow> Inl 401
       | Some (uid, role) \<Rightarrow> (if role \<noteq> ''admin'' then Inl 403 else Inr (uid, role)))"

section \<open>auth.go (api)\<close>

definition extract_bearer_or_cookie :: "http_call \<Rightarrow> string" where
  "extract_bearer_or_cookie r =
     (if length (hc_authorization r) > 7 \<and> take 7 (hc_authorization r) = ''Bearer '' then drop 7 (hc_authorization r)
      else case hc_cookie r of Some v \<Rightarrow> v | None \<Rightarrow> [])"

definition auth_handler_setup_required :: "db \<Rightarrow> bool response \<times> db" where
  "auth_handler_setup_required d = (case user_count d of
       (Inl _, d1) \<Rightarrow> (Failed 500 ''database'', d1) | (Inr n, d1) \<Rightarrow> (Answer 200 (n = 0), d1))"

definition register_guard :: "auth_env \<Rightarrow> http_call \<Rightarrow> nat \<Rightarrow> (nat \<times> string) option" where
  "register_guard env r n =
     (if n = 0 then None
      else let tok = extract_bearer_or_cookie r in
        if tok = [] then Some (401, ''unauthorized'')
        else case validate_token env tok of
            None \<Rightarrow> Some (401, ''unauthorized'')
          | Some (_, role) \<Rightarrow> (if role \<noteq> ''admin'' then Some (403, ''admin role required'') else None))"

definition auth_handler_register ::
  "auth_env \<Rightarrow> http_call \<Rightarrow> (string \<times> string \<times> string) option \<Rightarrow> db \<Rightarrow> (string \<times> string \<times> string) response \<times> db" where
  "auth_handler_register env r body d0 = (case user_count d0 of
       (Inl _, d1) \<Rightarrow> (Failed 500 ''database'', d1)
     | (Inr n, d1) \<Rightarrow> (case register_guard env r n of
         Some (st, msg) \<Rightarrow> (Failed st msg, d1)
       | None \<Rightarrow> new_user (user_env.truncate env) (\<lambda>role. if n = 0 then ''admin'' else member_by_default role) body d1))"

text \<open>What a login answers: the second step, or a session (token, user, and the two flags of the
  body).\<close>

datatype login_answer = SecondStep string | Session string user_row bool bool

definition totp_or_nothing :: "string \<Rightarrow> db \<Rightarrow> (bool \<times> bool \<times> bool) \<times> db" where
  "totp_or_nothing uid d = (case user_totp_data uid d of
       (Inl _, d1) \<Rightarrow> ((False, False, False), d1) | (Inr (_, t), d1) \<Rightarrow> (t, d1))"

definition open_session ::
  "auth_env \<Rightarrow> user_row \<Rightarrow> string \<Rightarrow> bool \<Rightarrow> db \<Rightarrow> login_answer response \<times> db" where
  "open_session env u pw enroll d = (case generate_token env (us_id u) (us_role u) of
       None \<Rightarrow> (Failed 500 ''failed to generate token'', d)
     | Some tok \<Rightarrow> (case load_password_policy (user_env.truncate env) d of (policy, d1) \<Rightarrow>
         (Answer 200 (Session tok u enroll (validate_password (ue_unicode env) pw policy \<noteq> None)), d1)))"

definition login_gate :: "auth_env \<Rightarrow> user_row \<Rightarrow> string \<Rightarrow> db \<Rightarrow> login_answer response \<times> db" where
  "login_gate env u pw d0 =
     (case totp_or_nothing (us_id u) d0 of ((enabled, grace, exempt), d1) \<Rightarrow>
      case load_mfa_required (user_env.truncate env) d1 of (required, d2) \<Rightarrow>
        (if enabled then (case generate_mfa_token env (us_id u) of
             None \<Rightarrow> (Failed 500 ''failed to generate MFA token'', d2)
           | Some tok \<Rightarrow> (Answer 202 (SecondStep tok), d2))
         else if required \<and> \<not> exempt \<and> \<not> grace
         then (Failed 403 ''MFA enrollment required. Ask an admin to reset your grace login.'', d2)
         else open_session env u pw (required \<and> \<not> exempt)
           (if required \<and> \<not> exempt then db_ignore (user_clear_grace (us_id u) d2) else d2)))"

definition auth_handler_login ::
  "auth_env \<Rightarrow> (string \<times> string) option \<Rightarrow> db \<Rightarrow> login_answer response \<times> db" where
  "auth_handler_login env body d0 = (case body of
       None \<Rightarrow> (Failed 400 ''invalid request body'', d0)
     | Some (email, pw) \<Rightarrow>
         (if email = [] \<or> pw = [] then (Failed 400 ''email and password are required'', d0)
          else case user_get_by_email email d0 of
            (Inl NotFound, d1) \<Rightarrow> (Failed 401 ''invalid credentials'', d1)
          | (Inl _, d1) \<Rightarrow> (Failed 500 ''database'', d1)
          | (Inr (u, hash), d1) \<Rightarrow>
              (if \<not> ue_compare env hash pw then (Failed 401 ''invalid credentials'', d1)
               else login_gate env u pw d1)))"

definition auth_handler_me :: "string \<Rightarrow> db \<Rightarrow> user_row response \<times> db" where
  "auth_handler_me uid d = (case user_get_by_id uid d of
       (Inl e, d1) \<Rightarrow> (db_failure e, d1) | (Inr u, d1) \<Rightarrow> (Answer 200 u, d1))"

section \<open>totp.go (api)\<close>

definition totp_handler_setup :: "auth_env \<Rightarrow> string \<Rightarrow> db \<Rightarrow> (string \<times> string) response \<times> db" where
  "totp_handler_setup env uid d0 = (case generate_totp_secret (ae_rand env) of
       None \<Rightarrow> (Failed 500 ''failed to generate TOTP secret'', d0)
     | Some secret \<Rightarrow> (case user_set_totp_secret uid secret d0 of
         (Inl _, d1) \<Rightarrow> (Failed 500 ''failed to store TOTP secret'', d1)
       | (Inr _, d1) \<Rightarrow> (case user_get_by_id uid d1 of
           (Inl _, d2) \<Rightarrow> (Failed 500 ''failed to get user'', d2)
         | (Inr u, d2) \<Rightarrow> (Answer 200 (us_email u, secret), d2))))"

text \<open>The guard Confirm, DisableOwn and Verify share: a code for a secret that is there.\<close>

definition code_guard :: "auth_env \<Rightarrow> bool \<Rightarrow> (nat \<times> string) \<Rightarrow> string \<Rightarrow> string \<Rightarrow> db \<Rightarrow> (nat \<times> string) option \<times> db" where
  "code_guard env need_enabled refusal uid code d0 = (case user_totp_data uid d0 of
       (Inl _, d1) \<Rightarrow> (Some refusal, d1)
     | (Inr (secret, enabled, _), d1) \<Rightarrow>
         (if secret = [] \<or> need_enabled \<and> \<not> enabled then Some refusal
          else if \<not> validate_totp (ae_hmac env) (ue_now env) secret code then Some (401, ''invalid code'')
          else None, d1))"

definition totp_handler_confirm ::
  "auth_env \<Rightarrow> string \<Rightarrow> string option \<Rightarrow> db \<Rightarrow> user_row option response \<times> db" where
  "totp_handler_confirm env uid body d0 = (case body of
       None \<Rightarrow> (Failed 400 ''code is required'', d0)
     | Some code \<Rightarrow>
         (if code = [] then (Failed 400 ''code is required'', d0)
          else case code_guard env False (400, ''no pending TOTP setup found'') uid code d0 of
            (Some (st, msg), d1) \<Rightarrow> (Failed st msg, d1)
          | (None, d1) \<Rightarrow> (case user_enable_totp uid d1 of
              (Inl _, d2) \<Rightarrow> (Failed 500 ''failed to enable TOTP'', d2)
            | (Inr _, d2) \<Rightarrow> (case user_get_by_id uid d2 of
                (Inl _, d3) \<Rightarrow> (Answer 204 None, d3) | (Inr u, d3) \<Rightarrow> (Answer 200 (Some u), d3)))))"

definition totp_handler_verify ::
  "auth_env \<Rightarrow> (string \<times> string) option \<Rightarrow> db \<Rightarrow> (string \<times> user_row) response \<times> db" where
  "totp_handler_verify env body d0 = (case body of
       None \<Rightarrow> (Failed 400 ''invalid request body'', d0)
     | Some (mfa, code) \<Rightarrow>
         (if mfa = [] \<or> code = [] then (Failed 400 ''mfa_token and code are required'', d0)
          else case validate_mfa_token env mfa of
            None \<Rightarrow> (Failed 401 ''invalid or expired MFA token'', d0)
          | Some uid \<Rightarrow> (case code_guard env True (401, ''TOTP not configured for this account'') uid code d0 of
              (Some (st, msg), d1) \<Rightarrow> (Failed st msg, d1)
            | (None, d1) \<Rightarrow> (case user_get_by_id uid d1 of
                (Inl _, d2) \<Rightarrow> (Failed 500 ''user not found'', d2)
              | (Inr u, d2) \<Rightarrow> (case generate_token env (us_id u) (us_role u) of
                  None \<Rightarrow> (Failed 500 ''failed to generate token'', d2)
                | Some tok \<Rightarrow> (Answer 200 (tok, u), d2))))))"

definition totp_handler_disable_own :: "auth_env \<Rightarrow> string \<Rightarrow> string option \<Rightarrow> db \<Rightarrow> unit response \<times> db" where
  "totp_handler_disable_own env uid body d0 = (case body of
       None \<Rightarrow> (Failed 400 ''code is required'', d0)
     | Some code \<Rightarrow>
         (if code = [] then (Failed 400 ''code is required'', d0)
          else case code_guard env True (400, ''TOTP is not enabled on this account'') uid code d0 of
            (Some (st, msg), d1) \<Rightarrow> (Failed st msg, d1)
          | (None, d1) \<Rightarrow> (case user_disable_totp uid d1 of
              (Inl _, d2) \<Rightarrow> (Failed 500 ''failed to disable TOTP'', d2) | (Inr _, d2) \<Rightarrow> (Answer 204 (), d2))))"

definition totp_handler_admin_disable :: "string \<Rightarrow> db \<Rightarrow> unit response \<times> db" where
  "totp_handler_admin_disable uid d = (case user_disable_totp uid d of
       (Inl _, d1) \<Rightarrow> (Failed 500 ''failed to disable TOTP'', d1) | (Inr _, d1) \<Rightarrow> (Answer 204 (), d1))"

definition totp_handler_enable_own :: "string \<Rightarrow> db \<Rightarrow> unit response \<times> db" where
  "totp_handler_enable_own uid d0 = (case user_totp_data uid d0 of
       (Inl _, d1) \<Rightarrow> (Failed 400 ''no TOTP secret enrolled'', d1)
     | (Inr (secret, enabled, _), d1) \<Rightarrow>
         (if secret = [] then (Failed 400 ''no TOTP secret enrolled'', d1)
          else if enabled then (Answer 204 (), d1)
          else case user_enable_totp uid d1 of
            (Inl _, d2) \<Rightarrow> (Failed 500 ''failed to enable TOTP'', d2) | (Inr _, d2) \<Rightarrow> (Answer 204 (), d2)))"

definition totp_handler_admin_reset_grace :: "string \<Rightarrow> db \<Rightarrow> unit response \<times> db" where
  "totp_handler_admin_reset_grace uid d = (case user_reset_grace uid d of
       (Inl _, d1) \<Rightarrow> (Failed 500 ''failed to reset grace'', d1) | (Inr _, d1) \<Rightarrow> (Answer 204 (), d1))"

section \<open>The routes\<close>

text \<open>The requests that reach these handlers; all but the first three go through \<open>require_auth\<close>.\<close>

datatype api_call =
    Login "(string \<times> string) option"
  | Register "(string \<times> string \<times> string) option"
  | Verify "(string \<times> string) option"
  | TotpSetup
  | TotpConfirm "string option"
  | TotpDisableOwn "string option"
  | TotpEnableOwn
  | TotpAdminDisable string
  | TotpResetGrace string
  | UserCreate "(string \<times> string \<times> string) option"
  | UserDelete string
  | UserUpdate string "(string \<times> string) option"
  | UserSetPassword string "string option"
  | UserChangePassword "(string \<times> string) option"
  | UserSetExempt string "bool option"
  | PutMfaRequired "bool option"
  | PutPolicy "password_policy option"

fun is_public :: "api_call \<Rightarrow> bool" where
  "is_public (Login _) = True"
| "is_public (Register _) = True"
| "is_public (Verify _) = True"
| "is_public _ = False"

text \<open>The status of an answer, for calls whose body does not matter here.\<close>

definition status_of :: "'a response \<Rightarrow> nat" where
  "status_of r = (case r of Failed st _ \<Rightarrow> st | Answer st _ \<Rightarrow> st)"

fun run_call :: "auth_env \<Rightarrow> http_call \<Rightarrow> string \<Rightarrow> api_call \<Rightarrow> db \<Rightarrow> nat \<times> db" where
  "run_call env r uid (Login body) d = apfst status_of (auth_handler_login env body d)"
| "run_call env r uid (Register body) d = apfst status_of (auth_handler_register env r body d)"
| "run_call env r uid (Verify body) d = apfst status_of (totp_handler_verify env body d)"
| "run_call env r uid TotpSetup d = apfst status_of (totp_handler_setup env uid d)"
| "run_call env r uid (TotpConfirm body) d = apfst status_of (totp_handler_confirm env uid body d)"
| "run_call env r uid (TotpDisableOwn body) d = apfst status_of (totp_handler_disable_own env uid body d)"
| "run_call env r uid TotpEnableOwn d = apfst status_of (totp_handler_enable_own uid d)"
| "run_call env r uid (TotpAdminDisable x) d = apfst status_of (totp_handler_admin_disable x d)"
| "run_call env r uid (TotpResetGrace x) d = apfst status_of (totp_handler_admin_reset_grace x d)"
| "run_call env r uid (UserCreate body) d = apfst status_of (users_handler_create (user_env.truncate env) body d)"
| "run_call env r uid (UserDelete x) d = apfst status_of (users_handler_delete x d)"
| "run_call env r uid (UserUpdate x body) d = apfst status_of (users_handler_update x body d)"
| "run_call env r uid (UserSetPassword x body) d = apfst status_of (users_handler_set_password (user_env.truncate env) x body d)"
| "run_call env r uid (UserChangePassword body) d = apfst status_of (users_handler_change_password (user_env.truncate env) uid body d)"
| "run_call env r uid (UserSetExempt x body) d = apfst status_of (users_handler_set_exempt x body d)"
| "run_call env r uid (PutMfaRequired body) d = apfst status_of (settings_handler_put_mfa (user_env.truncate env) body d)"
| "run_call env r uid (PutPolicy body) d = apfst status_of (settings_handler_put_policy (user_env.truncate env) body d)"

definition serve :: "auth_env \<Rightarrow> http_call \<Rightarrow> api_call \<Rightarrow> db \<Rightarrow> nat \<times> db" where
  "serve env r call d =
     (if is_public call then run_call env r [] call d
      else case require_auth env r of
        Inl st \<Rightarrow> (st, d)
      | Inr (uid, _) \<Rightarrow> run_call env r uid call d)"

section \<open>Reads\<close>

named_theorems read_only \<open>what a statement that only reads leaves\<close>

lemma db_op_read:
  assumes "db_op f d = (r, d1)" and "\<And>d. snd (f d) = d"
  shows "d_users d1 = d_users d \<and> d_settings d1 = d_settings d"
proof -
  have "d_users (snd (db_op f d)) = d_users d \<and> d_settings (snd (db_op f d)) = d_settings d"
    by (rule db_op_invariant) (simp_all add: fault_blind_def assms(2))
  then show ?thesis by (simp add: assms(1))
qed

lemma reads [read_only]:
  "user_get_by_id uid d = (r1, d1) \<Longrightarrow> d_users d1 = d_users d \<and> d_settings d1 = d_settings d"
  "user_get_by_email email d = (r2, d1) \<Longrightarrow> d_users d1 = d_users d \<and> d_settings d1 = d_settings d"
  "user_totp_data uid d = (r3, d1) \<Longrightarrow> d_users d1 = d_users d \<and> d_settings d1 = d_settings d"
  "user_count d = (r4, d1) \<Longrightarrow> d_users d1 = d_users d \<and> d_settings d1 = d_settings d"
  "settings_get k d = (r5, d1) \<Longrightarrow> d_users d1 = d_users d \<and> d_settings d1 = d_settings d"
  unfolding user_get_by_id_def user_get_by_email_def user_totp_data_def user_count_def settings_get_def db_query_def
  by (erule db_op_read; simp split: option.split)+

lemma loads [read_only]:
  "load_mfa_required ue d = (b, d1) \<Longrightarrow> d_users d1 = d_users d \<and> d_settings d1 = d_settings d"
  "load_password_policy ue d = (p, d1) \<Longrightarrow> d_users d1 = d_users d \<and> d_settings d1 = d_settings d"
  "totp_or_nothing uid d = (t, d1) \<Longrightarrow> d_users d1 = d_users d \<and> d_settings d1 = d_settings d"
  "code_guard env b2 ref uid code d = (g, d1) \<Longrightarrow> d_users d1 = d_users d \<and> d_settings d1 = d_settings d"
  unfolding load_mfa_required_def load_password_policy_def totp_or_nothing_def code_guard_def
  by (auto split: prod.splits sum.splits dest: reads)

section \<open>The users table stays well-formed\<close>

definition users_ok :: "db \<Rightarrow> bool" where
  "users_ok d = (distinct (map us_id (d_users d)) \<and> distinct (map us_email (d_users d))
     \<and> us_role ` set (d_users d) \<subseteq> {''admin'', ''member''})"

lemma users_ok_fault_blind: "fault_blind users_ok"
  by (simp add: fault_blind_def users_ok_def)

lemma users_ok_read: "d_users d1 = d_users d \<and> d_settings d1 = d_settings d \<Longrightarrow> users_ok d1 = users_ok d"
  by (simp add: users_ok_def)

lemma users_ok_set:
  assumes "users_ok d" and "\<And>u. us_id (f u) = us_id u" "\<And>u. us_email (f u) = us_email u" "\<And>u. us_role (f u) = us_role u"
  shows "users_ok (user_set uid f d)"
proof -
  have "map us_id (update_where (\<lambda>u. us_id u = uid) f (d_users d)) = map us_id (d_users d)"
    and "map us_email (update_where (\<lambda>u. us_id u = uid) f (d_users d)) = map us_email (d_users d)"
    and "map us_role (update_where (\<lambda>u. us_id u = uid) f (d_users d)) = map us_role (d_users d)"
    using assms(2-4) by (auto intro!: map_update_where)
  moreover from this(3) have "us_role ` set (update_where (\<lambda>u. us_id u = uid) f (d_users d)) = us_role ` set (d_users d)"
    by (metis set_map)
  ultimately show ?thesis
    using assms(1) by (simp add: users_ok_def user_set_def)
qed

lemma users_ok_op: "users_ok d \<Longrightarrow> (\<And>d. users_ok d \<Longrightarrow> users_ok (snd (f d))) \<Longrightarrow> users_ok (snd (db_op f d))"
  by (rule db_op_invariant [OF users_ok_fault_blind])

lemma users_ok_statements:
  assumes "users_ok d"
  shows "role \<in> {''admin'', ''member''} \<Longrightarrow> users_ok (snd (user_create now uid email role hash d))"
    and "users_ok (snd (user_delete uid d))"
    and "users_ok (snd (user_update_password uid hash d))"
    and "role \<in> {''admin'', ''member''} \<Longrightarrow> users_ok (snd (user_update uid email role d))"
    and "users_ok (snd (user_set_totp_secret uid secret d))"
    and "users_ok (snd (user_enable_totp uid d))" and "users_ok (snd (user_disable_totp uid d))"
    and "users_ok (snd (user_clear_grace uid d))" and "users_ok (snd (user_reset_grace uid d))"
    and "users_ok (snd (user_set_totp_exempt uid exempt d))" and "users_ok (snd (settings_set k v d))"
proof -
  show "users_ok (snd (user_create now uid email role hash d))" if "role \<in> {''admin'', ''member''}"
    unfolding user_create_def by (rule users_ok_op [OF assms]) (use that in \<open>auto simp: users_ok_def\<close>)
  show "users_ok (snd (user_delete uid d))"
    unfolding user_delete_def by (rule users_ok_op [OF assms]) (auto simp: users_ok_def distinct_map_filter)
  show "users_ok (snd (user_update uid email role d))" if role: "role \<in> {''admin'', ''member''}"
    unfolding user_update_def
  proof (rule users_ok_op [OF assms])
    fix d assume ok: "users_ok d"
    let ?f = "\<lambda>u. u\<lparr>us_email := email, us_role := role\<rparr>"
    have "users_ok (user_set uid ?f d)"
      if free: "\<not> (\<exists>u \<in> set (d_users d). us_email u = email \<and> us_id u \<noteq> uid)"
    proof -
      have "distinct (map us_email (update_where (\<lambda>u. us_id u = uid) ?f us))"
        if "distinct (map us_id us)" "distinct (map us_email us)" "set us \<subseteq> set (d_users d)" for us
        using that free
      proof (induction us)
        case (Cons u us)
        have "us_email (if us_id u = uid then ?f u else u) \<notin> us_email ` set (update_where (\<lambda>u. us_id u = uid) ?f us)"
        proof
          assume "us_email (if us_id u = uid then ?f u else u) \<in> us_email ` set (update_where (\<lambda>u. us_id u = uid) ?f us)"
          then obtain v where "v \<in> set us"
            and eq: "us_email (if us_id u = uid then ?f u else u) = us_email (if us_id v = uid then ?f v else v)"
            by (auto simp: update_where_def)
          then have "us_id v \<noteq> us_id u" "us_email v \<noteq> us_email u" "v \<in> set (d_users d)" "u \<in> set (d_users d)"
            using Cons.prems(1-3) by (auto simp: image_iff)
          then show False using eq Cons.prems(4) by (auto split: if_splits)
        qed
        then show ?case using Cons by (auto simp: update_where_def)
      qed (simp add: update_where_def)
      moreover have "map us_id (update_where (\<lambda>u. us_id u = uid) ?f (d_users d)) = map us_id (d_users d)"
        by (rule map_update_where) simp
      moreover have "us_role ` set (update_where (\<lambda>u. us_id u = uid) ?f (d_users d)) \<subseteq> {''admin'', ''member''}"
        using ok role by (auto simp: users_ok_def update_where_def)
      ultimately show ?thesis using ok by (simp add: users_ok_def user_set_def)
    qed
    then show "users_ok (snd (if uid \<notin> us_id ` set (d_users d) then (Inl NotFound, d)
       else if \<exists>u \<in> set (d_users d). us_email u = email \<and> us_id u \<noteq> uid then (Inl DbFail, d)
       else (Inr (), user_set uid ?f d)))"
      using ok by simp
  qed
  show "users_ok (snd (user_update_password uid hash d))"
    unfolding user_update_password_def by (rule users_ok_op [OF assms]) (simp add: users_ok_set)
  show "users_ok (snd (user_set_totp_secret uid secret d))"
    and "users_ok (snd (user_enable_totp uid d))" and "users_ok (snd (user_disable_totp uid d))"
    and "users_ok (snd (user_clear_grace uid d))" and "users_ok (snd (user_reset_grace uid d))"
    and "users_ok (snd (user_set_totp_exempt uid exempt d))"
    unfolding user_set_totp_secret_def user_enable_totp_def user_disable_totp_def user_clear_grace_def
      user_reset_grace_def user_set_totp_exempt_def
    by (rule users_ok_op [OF assms]; simp add: users_ok_set)+
  show "users_ok (snd (settings_set k v d))"
    unfolding settings_set_def by (rule users_ok_op [OF assms]) (simp add: users_ok_def)
qed

text \<open>A handler is a chain of statements: what each keeps the chain keeps.\<close>

lemma chain_keeps:
  "P (snd x) \<Longrightarrow> (\<And>r d1. P d1 \<Longrightarrow> P (snd (g r d1))) \<Longrightarrow> P (snd (case x of (r, d1) \<Rightarrow> g r d1))"
  by (cases x) simp

lemma users_ok_query:
  "(\<And>r d1. f d = (r, d1) \<Longrightarrow> d_users d1 = d_users d \<and> d_settings d1 = d_settings d) \<Longrightarrow> users_ok d
     \<Longrightarrow> users_ok (snd (f d))"
  by (cases "f d") (simp add: users_ok_def)

lemma users_ok_reads:
  assumes "users_ok d"
  shows "users_ok (snd (user_get_by_id uid d))" and "users_ok (snd (user_get_by_email email d))"
    and "users_ok (snd (user_totp_data uid d))" and "users_ok (snd (user_count d))"
    and "users_ok (snd (load_mfa_required ue d))" and "users_ok (snd (load_password_policy ue d))"
    and "users_ok (snd (totp_or_nothing uid d))" and "users_ok (snd (code_guard env b2 ref uid code d))"
  by (rule users_ok_query [OF _ assms], erule read_only)+

lemmas users_keep = users_ok_reads users_ok_statements

lemma new_user_ok:
  assumes "users_ok d"
  shows "users_ok (snd (new_user ue pick body d))"
  using assms unfolding new_user_def created_answer_def Let_def
  by (auto intro!: chain_keeps [of users_ok] users_keep split: option.split sum.split)

lemma users_handlers_ok:
  assumes "users_ok d"
  shows "users_ok (snd (users_handler_delete uid d))" and "users_ok (snd (users_handler_set_password ue uid pw d))"
    and "users_ok (snd (users_handler_change_password ue uid pws d))" and "users_ok (snd (users_handler_update uid upd d))"
    and "users_ok (snd (users_handler_set_exempt uid ex d))" and "users_ok (snd (settings_handler_put_mfa ue mfa d))"
    and "users_ok (snd (settings_handler_put_policy ue pol d))"
  using assms
  unfolding users_handler_delete_def users_handler_set_password_def users_handler_change_password_def
    users_handler_update_def users_handler_set_exempt_def settings_handler_put_mfa_def settings_handler_put_policy_def
    Let_def
  by (auto intro!: chain_keeps [of users_ok] users_keep split: option.split sum.split)

lemma db_ignore_ok: "users_ok (snd r) \<Longrightarrow> users_ok (db_ignore r)"
  by (simp add: db_ignore_def)

lemma login_gate_ok:
  assumes "users_ok d"
  shows "users_ok (snd (login_gate env u pw d))"
  using assms unfolding login_gate_def open_session_def
  by (auto intro!: chain_keeps [of users_ok] users_keep db_ignore_ok split: option.split)

lemma auth_handlers_ok:
  assumes "users_ok d"
  shows "users_ok (snd (auth_handler_register env r reg d))" and "users_ok (snd (auth_handler_login env cred d))"
    and "users_ok (snd (totp_handler_setup env uid d))" and "users_ok (snd (totp_handler_confirm env uid c d))"
    and "users_ok (snd (totp_handler_verify env v d))" and "users_ok (snd (totp_handler_disable_own env uid c d))"
    and "users_ok (snd (totp_handler_admin_disable uid d))" and "users_ok (snd (totp_handler_enable_own uid d))"
    and "users_ok (snd (totp_handler_admin_reset_grace uid d))"
  using assms
  unfolding auth_handler_register_def auth_handler_login_def totp_handler_setup_def totp_handler_confirm_def
    totp_handler_verify_def totp_handler_disable_own_def totp_handler_admin_disable_def totp_handler_enable_own_def
    totp_handler_admin_reset_grace_def
  by (auto intro!: chain_keeps [of users_ok] users_keep new_user_ok login_gate_ok
      split: option.split sum.split db_error.split)

text \<open>C34: Whatever request comes in, from whomever, with whatever token and body, and whichever statements
  fail on the way, the users table stays well-typed: ids and addresses are unique and every role is admin or
  member.\<close>

theorem serve_keeps_users_ok:
  assumes "users_ok d"
  shows "users_ok (snd (serve env r call d))"
proof -
  have "users_ok (snd (run_call env r uid call d))" for uid
    using assms
    by (cases call) (simp_all add: users_handlers_ok auth_handlers_ok new_user_ok users_handler_create_def)
  then show ?thesis using assms by (auto simp: serve_def split: sum.split)
qed

section \<open>A concrete server\<close>

definition sample_user :: user_row where
  "sample_user = \<lparr>us_id = ''u1'', us_email = ''a@b'', us_password_hash = ''h:pw'', us_role = ''member'', us_totp_secret = [],
     us_totp_enabled = False, us_totp_grace = True, us_totp_exempt = False, us_created_at = 0\<rparr>"

definition session_claims :: jwt_claims where
  "session_claims = \<lparr>jc_user_id = ''u1'', jc_role = Some ''member'', jc_mfa_pending = None, jc_expires = 86400, jc_issued = 0\<rparr>"

definition mfa_claims :: jwt_claims where
  "mfa_claims = \<lparr>jc_user_id = ''u1'', jc_role = None, jc_mfa_pending = Some True, jc_expires = 900, jc_issued = 0\<rparr>"

text \<open>A signer that knows two tokens; a hash that is the password behind a mark.\<close>

definition sample_auth :: auth_env where
  "sample_auth = \<lparr>ue_unicode = \<lparr>uc_runes = map of_char, uc_upper = (\<lambda>c. 65 \<le> c \<and> c \<le> 90),
        uc_digit = (\<lambda>c. 48 \<le> c \<and> c \<le> 57), uc_letter = (\<lambda>c. 65 \<le> c \<and> c \<le> 90 \<or> 97 \<le> c \<and> c \<le> 122)\<rparr>,
     ue_policy_decode = (\<lambda>_. None), ue_policy_encode = (\<lambda>_. []), ue_mfa_decode = (\<lambda>raw. Some (raw = ''on'')),
     ue_mfa_encode = (\<lambda>b. if b then ''on'' else ''off''), ue_hash = (\<lambda>pw. Some (''h:'' @ pw)),
     ue_compare = (\<lambda>h pw. h = ''h:'' @ pw), ue_now = 0, ue_uuid = ''n1'',
     ae_sign = (\<lambda>c. if c = session_claims then Some ''S'' else if c = mfa_claims then Some ''M'' else None),
     ae_parse = (\<lambda>now tok. if tok = ''S'' \<and> unix_secs now < 86400 then Some session_claims
                          else if tok = ''M'' \<and> unix_secs now < 900 then Some mfa_claims else None),
     ae_hmac = (\<lambda>_ _. replicate 20 0), ae_rand = None\<rparr>"

definition bearer :: "string \<Rightarrow> http_call" where
  "bearer tok = \<lparr>hc_authorization = ''Bearer '' @ tok, hc_cookie = None\<rparr>"

lemma sample_auth_jwt_ok: "jwt_ok sample_auth"
  by (auto simp: jwt_ok_def sample_auth_def session_claims_def mfa_claims_def)

lemma sample_users_ok: "users_ok (empty_db\<lparr>d_users := [sample_user]\<rparr>)"
  by (simp add: users_ok_def sample_user_def)

theorem serve_keeps_users_ok_witness:
  "users_ok (snd (serve sample_auth (bearer ''S'') (UserUpdate ''u1'' (Some (''c@d'', ''owner'')))
     (empty_db\<lparr>d_users := [sample_user]\<rparr>)))"
  by (rule serve_keeps_users_ok [OF sample_users_ok])

section \<open>What it takes to get a session\<close>

lemma row_by_id: "users_ok d \<Longrightarrow> u \<in> set (d_users d) \<Longrightarrow> lookup_row us_id (us_id u) (d_users d) = Some u"
  by (simp add: users_ok_def lookup_row_distinct)

lemma row_by_email: "users_ok d \<Longrightarrow> u \<in> set (d_users d) \<Longrightarrow> lookup_row us_email (us_email u) (d_users d) = Some u"
  by (simp add: users_ok_def lookup_row_distinct)

text \<open>MFA is demanded of a user.\<close>

definition mfa_in_force :: "auth_env \<Rightarrow> db \<Rightarrow> bool" where
  "mfa_in_force env d = (case map_of (d_settings d) ''mfa_required'' of
       None \<Rightarrow> False
     | Some raw \<Rightarrow> (case ue_mfa_decode env raw of None \<Rightarrow> False | Some v \<Rightarrow> v))"

lemma load_mfa_no_fault:
  "d_faults d = [] \<Longrightarrow> load_mfa_required (user_env.truncate env) d = (mfa_in_force env d, d)"
  by (simp add: load_mfa_required_def settings_get_def mfa_in_force_def user_env.truncate_def split: option.split)

lemma load_policy_no_fault:
  "d_faults d = [] \<Longrightarrow> \<exists>p. load_password_policy ue d = (p, d)"
  by (simp add: load_password_policy_def settings_get_def split: option.split)

lemma login_row:
  assumes "d_faults d = []" and "users_ok d" and "u \<in> set (d_users d)"
  shows "user_get_by_email (us_email u) d = (Inr (u, us_password_hash u), d)"
    and "user_totp_data (us_id u) d = (Inr (us_totp_secret u, us_totp_enabled u, us_totp_grace u, us_totp_exempt u), d)"
    and "user_get_by_id (us_id u) d = (Inr u, d)"
  using assms
  by (simp_all add: user_get_by_email_def user_totp_data_def user_get_by_id_def row_by_id row_by_email)

definition clear_grace_of :: "string \<Rightarrow> db \<Rightarrow> db" where
  "clear_grace_of uid d = user_set uid (\<lambda>u. u\<lparr>us_totp_grace := False\<rparr>) d"

definition must_enroll :: "auth_env \<Rightarrow> db \<Rightarrow> user_row \<Rightarrow> bool" where
  "must_enroll env d u = (mfa_in_force env d \<and> \<not> us_totp_exempt u \<and> \<not> us_totp_enabled u)"

text \<open>The outcome of a login with the right password.\<close>

lemma login_gate_eq:
  assumes "d_faults d = []" and "users_ok d" and "u \<in> set (d_users d)"
  shows "\<exists>n. login_gate env u pw d =
    (if us_totp_enabled u then (case generate_mfa_token env (us_id u) of
         None \<Rightarrow> (Failed 500 ''failed to generate MFA token'', d) | Some tok \<Rightarrow> (Answer 202 (SecondStep tok), d))
     else if must_enroll env d u \<and> \<not> us_totp_grace u
     then (Failed 403 ''MFA enrollment required. Ask an admin to reset your grace login.'', d)
     else (let d1 = (if must_enroll env d u then clear_grace_of (us_id u) d else d) in
       case generate_token env (us_id u) (us_role u) of
         None \<Rightarrow> (Failed 500 ''failed to generate token'', d1)
       | Some tok \<Rightarrow> (Answer 200 (Session tok u (must_enroll env d u) n), d1)))"
proof -
  let ?d = "if must_enroll env d u then clear_grace_of (us_id u) d else d"
  have f: "d_faults ?d = []" using assms(1) by (simp add: clear_grace_of_def user_set_def)
  obtain p where "load_password_policy (user_env.truncate env) ?d = (p, ?d)" using load_policy_no_fault [OF f] by blast
  then show ?thesis
    using assms(1)
    by (intro exI [of _ "validate_password (ue_unicode env) pw p \<noteq> None"])
      (auto simp: login_gate_def totp_or_nothing_def login_row [OF assms] load_mfa_no_fault open_session_def
        must_enroll_def user_clear_grace_def clear_grace_of_def split: option.split)
qed

lemma login_eq:
  assumes "d_faults d = []" and "users_ok d"
  shows "auth_handler_login env (Some (email, pw)) d =
    (if email = [] \<or> pw = [] then (Failed 400 ''email and password are required'', d)
     else case lookup_row us_email email (d_users d) of
       None \<Rightarrow> (Failed 401 ''invalid credentials'', d)
     | Some u \<Rightarrow> (if ue_compare env (us_password_hash u) pw then login_gate env u pw d
         else (Failed 401 ''invalid credentials'', d)))"
  using assms
  by (auto simp: auth_handler_login_def user_get_by_email_def split: option.split)

lemma lookup_user: "lookup_row key k xs = Some u \<Longrightarrow> u \<in> set xs \<and> key u = k"
  by (rule lookup_row_Some)

lemma code_guard_passes:
  assumes "code_guard env b2 refusal uid code d = (None, d1)" and "d_faults d = []"
  shows "\<exists>u. lookup_row us_id uid (d_users d) = Some u \<and> d1 = d \<and> us_totp_secret u \<noteq> [] \<and> (b2 \<longrightarrow> us_totp_enabled u)
    \<and> validate_totp (ae_hmac env) (ue_now env) (us_totp_secret u) code"
  using assms
  by (auto simp: code_guard_def user_totp_data_def split: option.splits sum.splits prod.splits if_splits)

lemma login_session_iff:
  assumes "d_faults d = []" and "users_ok d"
  shows "(\<exists>st n p. fst (auth_handler_login env (Some (email, pw)) d) = Answer st (Session tok u n p))
    \<longleftrightarrow> email \<noteq> [] \<and> pw \<noteq> [] \<and> u \<in> set (d_users d) \<and> us_email u = email \<and> ue_compare env (us_password_hash u) pw
      \<and> \<not> us_totp_enabled u \<and> (mfa_in_force env d \<longrightarrow> us_totp_exempt u \<or> us_totp_grace u)
      \<and> generate_token env (us_id u) (us_role u) = Some tok"
    and "(\<exists>st. fst (auth_handler_login env (Some (email, pw)) d) = Answer st (SecondStep tok))
    \<longleftrightarrow> email \<noteq> [] \<and> pw \<noteq> [] \<and> (\<exists>v \<in> set (d_users d). us_email v = email \<and> ue_compare env (us_password_hash v) pw
      \<and> us_totp_enabled v \<and> generate_mfa_token env (us_id v) = Some tok)"
proof -
  have emails: "distinct (map us_email (d_users d))" using assms(2) by (simp add: users_ok_def)
  have "((\<exists>st n p. fst (auth_handler_login env (Some (email, pw)) d) = Answer st (Session tok u n p))
      \<longleftrightarrow> email \<noteq> [] \<and> pw \<noteq> [] \<and> u \<in> set (d_users d) \<and> us_email u = email \<and> ue_compare env (us_password_hash u) pw
        \<and> \<not> us_totp_enabled u \<and> (mfa_in_force env d \<longrightarrow> us_totp_exempt u \<or> us_totp_grace u)
        \<and> generate_token env (us_id u) (us_role u) = Some tok)
    \<and> ((\<exists>st. fst (auth_handler_login env (Some (email, pw)) d) = Answer st (SecondStep tok))
      \<longleftrightarrow> email \<noteq> [] \<and> pw \<noteq> [] \<and> (\<exists>v \<in> set (d_users d). us_email v = email \<and> ue_compare env (us_password_hash v) pw
        \<and> us_totp_enabled v \<and> generate_mfa_token env (us_id v) = Some tok))"
  proof (cases "email = [] \<or> pw = []")
    case True
    then show ?thesis by (auto simp: login_eq [OF assms])
  next
    case False
    show ?thesis
    proof (cases "lookup_row us_email email (d_users d)")
      case None
      then have "us_email v \<noteq> email" if "v \<in> set (d_users d)" for v using that by (auto simp: lookup_row_None)
      then show ?thesis using False None by (auto simp: login_eq [OF assms])
    next
      case (Some w)
      then have w: "w \<in> set (d_users d)" "us_email w = email" using lookup_user by metis+
      have only: "v = w" if "v \<in> set (d_users d)" "us_email v = email" for v
        using lookup_row_distinct [OF emails that(1)] that(2) Some by simp
      have only_u: "u \<in> set (d_users d) \<and> us_email u = email \<longleftrightarrow> u = w" using only w by blast
      show ?thesis
      proof (cases "ue_compare env (us_password_hash w) pw")
        case bad: False
        then show ?thesis using False Some only by (auto simp: login_eq [OF assms])
      next
        case True
        obtain n where gate: "login_gate env w pw d =
          (if us_totp_enabled w then (case generate_mfa_token env (us_id w) of
               None \<Rightarrow> (Failed 500 ''failed to generate MFA token'', d) | Some tok \<Rightarrow> (Answer 202 (SecondStep tok), d))
           else if must_enroll env d w \<and> \<not> us_totp_grace w
           then (Failed 403 ''MFA enrollment required. Ask an admin to reset your grace login.'', d)
           else (let d1 = (if must_enroll env d w then clear_grace_of (us_id w) d else d) in
             case generate_token env (us_id w) (us_role w) of
               None \<Rightarrow> (Failed 500 ''failed to generate token'', d1)
             | Some tok \<Rightarrow> (Answer 200 (Session tok w (must_enroll env d w) n), d1)))"
          using login_gate_eq [OF assms w(1)] by blast
        have eq: "auth_handler_login env (Some (email, pw)) d = login_gate env w pw d"
          using False Some True by (simp add: login_eq [OF assms])
        have session: "(email \<noteq> [] \<and> pw \<noteq> [] \<and> u \<in> set (d_users d) \<and> us_email u = email \<and> ue_compare env (us_password_hash u) pw
              \<and> \<not> us_totp_enabled u \<and> (mfa_in_force env d \<longrightarrow> us_totp_exempt u \<or> us_totp_grace u)
              \<and> generate_token env (us_id u) (us_role u) = Some tok)
            \<longleftrightarrow> u = w \<and> \<not> us_totp_enabled w \<and> (mfa_in_force env d \<longrightarrow> us_totp_exempt w \<or> us_totp_grace w)
              \<and> generate_token env (us_id w) (us_role w) = Some tok"
          using only_u False True by blast
        have pending: "(email \<noteq> [] \<and> pw \<noteq> [] \<and> (\<exists>v \<in> set (d_users d). us_email v = email \<and> ue_compare env (us_password_hash v) pw
              \<and> us_totp_enabled v \<and> generate_mfa_token env (us_id v) = Some tok))
            \<longleftrightarrow> us_totp_enabled w \<and> generate_mfa_token env (us_id w) = Some tok"
          using only w False True by metis
        show ?thesis
        proof (cases "us_totp_enabled w")
          case on: True
          then show ?thesis unfolding eq gate session pending by (auto split: option.split)
        next
          case off: False
          then show ?thesis unfolding eq gate session pending by (auto simp: must_enroll_def Let_def split: option.split)
        qed
      qed
    qed
  qed
  then show "(\<exists>st n p. fst (auth_handler_login env (Some (email, pw)) d) = Answer st (Session tok u n p))
      \<longleftrightarrow> email \<noteq> [] \<and> pw \<noteq> [] \<and> u \<in> set (d_users d) \<and> us_email u = email \<and> ue_compare env (us_password_hash u) pw
        \<and> \<not> us_totp_enabled u \<and> (mfa_in_force env d \<longrightarrow> us_totp_exempt u \<or> us_totp_grace u)
        \<and> generate_token env (us_id u) (us_role u) = Some tok"
    and "(\<exists>st. fst (auth_handler_login env (Some (email, pw)) d) = Answer st (SecondStep tok))
      \<longleftrightarrow> email \<noteq> [] \<and> pw \<noteq> [] \<and> (\<exists>v \<in> set (d_users d). us_email v = email \<and> ue_compare env (us_password_hash v) pw
        \<and> us_totp_enabled v \<and> generate_mfa_token env (us_id v) = Some tok)"
    by blast+
qed

lemma verify_session_iff:
  assumes "d_faults d = []" and "users_ok d"
  shows "(\<exists>st. fst (totp_handler_verify env (Some (mfa, code)) d) = Answer st (tok, u))
    \<longleftrightarrow> mfa \<noteq> [] \<and> code \<noteq> [] \<and> u \<in> set (d_users d) \<and> validate_mfa_token env mfa = Some (us_id u)
      \<and> us_totp_secret u \<noteq> [] \<and> us_totp_enabled u
      \<and> validate_totp (ae_hmac env) (ue_now env) (us_totp_secret u) code
      \<and> generate_token env (us_id u) (us_role u) = Some tok"
proof (cases "validate_mfa_token env mfa")
  case None
  then show ?thesis by (auto simp: totp_handler_verify_def)
next
  case (Some uid)
  have ids: "distinct (map us_id (d_users d))" using assms(2) by (simp add: users_ok_def)
  show ?thesis
  proof (cases "lookup_row us_id uid (d_users d)")
    case None
    then have "us_id v \<noteq> uid" if "v \<in> set (d_users d)" for v using that by (auto simp: lookup_row_None)
    moreover have "fst (code_guard env True (401, ''TOTP not configured for this account'') uid code d) \<noteq> None"
      using assms(1) None by (simp add: code_guard_def user_totp_data_def)
    ultimately show ?thesis using Some
      by (auto simp: totp_handler_verify_def split: option.splits prod.splits if_splits)
  next
    case (Some v)
    then have v: "v \<in> set (d_users d)" "us_id v = uid" using lookup_user by metis+
    have only: "w = v" if "w \<in> set (d_users d)" "us_id w = uid" for w
      using lookup_row_distinct [OF ids that(1)] that(2) Some by simp
    have get: "user_get_by_id uid d = (Inr v, d)" using Some assms(1) by (simp add: user_get_by_id_def)
    have same: "u \<in> set (d_users d) \<and> uid = us_id u \<longleftrightarrow> u = v" using only v by blast
    have session: "(mfa \<noteq> [] \<and> code \<noteq> [] \<and> u \<in> set (d_users d) \<and> Some uid = Some (us_id u)
        \<and> us_totp_secret u \<noteq> [] \<and> us_totp_enabled u
        \<and> validate_totp (ae_hmac env) (ue_now env) (us_totp_secret u) code
        \<and> generate_token env (us_id u) (us_role u) = Some tok)
      \<longleftrightarrow> mfa \<noteq> [] \<and> code \<noteq> [] \<and> u = v \<and> us_totp_secret v \<noteq> [] \<and> us_totp_enabled v
        \<and> validate_totp (ae_hmac env) (ue_now env) (us_totp_secret v) code
        \<and> generate_token env (us_id v) (us_role v) = Some tok"
      using same by blast
    let ?ok = "us_totp_secret v \<noteq> [] \<and> us_totp_enabled v \<and> validate_totp (ae_hmac env) (ue_now env) (us_totp_secret v) code"
    have guard: "code_guard env True (401, ''TOTP not configured for this account'') uid code d
        = (if ?ok then None else Some (401, if us_totp_secret v = [] \<or> \<not> us_totp_enabled v
             then ''TOTP not configured for this account'' else ''invalid code''), d)"
      using assms(1) Some by (simp add: code_guard_def user_totp_data_def)
    have "(\<exists>st. fst (totp_handler_verify env (Some (mfa, code)) d) = Answer st (tok, u))
        \<longleftrightarrow> mfa \<noteq> [] \<and> code \<noteq> [] \<and> ?ok \<and> generate_token env (us_id v) (us_role v) = Some tok \<and> u = v"
      unfolding totp_handler_verify_def option.case prod.case \<open>validate_mfa_token env mfa = Some uid\<close> guard
      by (cases "?ok"; cases "generate_token env (us_id v) (us_role v)") (auto simp: get)
    then show ?thesis unfolding \<open>validate_mfa_token env mfa = Some uid\<close> session by blast
  qed
qed

text \<open>C6: What the two handlers hand out, in a database that works. Login answers a session exactly to the right
  password of a user who has no second factor enabled and, where MFA is demanded, is exempt or has a grace login
  left; it answers a pending token, and no session, exactly to the right password of a user with the second factor
  enabled; and Verify answers a session exactly to a pending, unexpired token with a valid code of its user, who has
  the factor enabled.\<close>

theorem login_and_verify_grant:
  assumes "d_faults d = []" and "users_ok d"
  shows "((\<exists>st n p. fst (auth_handler_login env (Some (email, pw)) d) = Answer st (Session tok u n p))
      \<longleftrightarrow> email \<noteq> [] \<and> pw \<noteq> [] \<and> u \<in> set (d_users d) \<and> us_email u = email \<and> ue_compare env (us_password_hash u) pw
        \<and> \<not> us_totp_enabled u \<and> (mfa_in_force env d \<longrightarrow> us_totp_exempt u \<or> us_totp_grace u)
        \<and> generate_token env (us_id u) (us_role u) = Some tok)
    \<and> ((\<exists>st. fst (auth_handler_login env (Some (email, pw)) d) = Answer st (SecondStep tok))
      \<longleftrightarrow> email \<noteq> [] \<and> pw \<noteq> [] \<and> (\<exists>v \<in> set (d_users d). us_email v = email \<and> ue_compare env (us_password_hash v) pw
        \<and> us_totp_enabled v \<and> generate_mfa_token env (us_id v) = Some tok))
    \<and> ((\<exists>st. fst (totp_handler_verify env (Some (mfa, code)) d) = Answer st (tok, u))
      \<longleftrightarrow> mfa \<noteq> [] \<and> code \<noteq> [] \<and> u \<in> set (d_users d) \<and> validate_mfa_token env mfa = Some (us_id u)
        \<and> us_totp_secret u \<noteq> [] \<and> us_totp_enabled u
        \<and> validate_totp (ae_hmac env) (ue_now env) (us_totp_secret u) code
        \<and> generate_token env (us_id u) (us_role u) = Some tok)"
  by (intro conjI login_session_iff [OF assms] verify_session_iff [OF assms])

theorem login_and_verify_grant_witness:
  "(\<exists>st n p. fst (auth_handler_login sample_auth (Some (''a@b'', ''pw'')) (empty_db\<lparr>d_users := [sample_user]\<rparr>))
      = Answer st (Session ''S'' sample_user n p))
   \<and> \<not> (\<exists>st. fst (totp_handler_verify sample_auth (Some (''M'', ''123456'')) (empty_db\<lparr>d_users := [sample_user]\<rparr>))
      = Answer st (''S'', sample_user))"
proof -
  let ?d = "empty_db\<lparr>d_users := [sample_user]\<rparr>"
  have "d_faults ?d = []" by (simp add: empty_db_def)
  note grant = login_and_verify_grant [OF this sample_users_ok, of sample_auth "''a@b''" "''pw''" "''S''" sample_user "''M''" "''123456''"]
  have "ue_compare sample_auth (us_password_hash sample_user) ''pw''" "\<not> us_totp_enabled sample_user"
    "us_email sample_user = ''a@b''" "us_totp_grace sample_user"
    "generate_token sample_auth (us_id sample_user) (us_role sample_user) = Some ''S''"
    by code_simp+
  then show ?thesis using grant by simp
qed

section \<open>The grace login\<close>

text \<open>A user who has to enroll has no grace login left.\<close>

definition grace_used :: "auth_env \<Rightarrow> string \<Rightarrow> db \<Rightarrow> bool" where
  "grace_used env email d = (d_faults d = [] \<and> users_ok d
     \<and> (\<exists>u \<in> set (d_users d). us_email u = email \<and> must_enroll env d u \<and> \<not> us_totp_grace u))"

lemma clear_grace_keeps:
  assumes "users_ok d" and "d_faults d = []"
  shows "users_ok (clear_grace_of uid d)" and "d_faults (clear_grace_of uid d) = []"
    and "mfa_in_force env (clear_grace_of uid d) = mfa_in_force env d"
    and "u \<in> set (d_users d) \<Longrightarrow> (if us_id u = uid then u\<lparr>us_totp_grace := False\<rparr> else u) \<in> set (d_users (clear_grace_of uid d))"
proof -
  show "users_ok (clear_grace_of uid d)" unfolding clear_grace_of_def by (rule users_ok_set [OF assms(1)]) simp_all
  show "d_faults (clear_grace_of uid d) = []" using assms(2) by (simp add: clear_grace_of_def user_set_def)
  show "mfa_in_force env (clear_grace_of uid d) = mfa_in_force env d"
    by (simp add: clear_grace_of_def user_set_def mfa_in_force_def)
  show "u \<in> set (d_users d) \<Longrightarrow> (if us_id u = uid then u\<lparr>us_totp_grace := False\<rparr> else u) \<in> set (d_users (clear_grace_of uid d))"
    by (auto simp: clear_grace_of_def user_set_def set_update_where)
qed

lemma login_effect:
  assumes "d_faults d = []" and "users_ok d"
  shows "snd (auth_handler_login env body d) = d
    \<or> (\<exists>u \<in> set (d_users d). must_enroll env d u \<and> snd (auth_handler_login env body d) = clear_grace_of (us_id u) d)"
proof (cases body)
  case None
  then show ?thesis by (simp add: auth_handler_login_def)
next
  case (Some b)
  obtain email pw where b: "b = (email, pw)" by fastforce
  show ?thesis
  proof (cases "lookup_row us_email email (d_users d)")
    case None
    then show ?thesis by (simp add: \<open>body = Some b\<close> b login_eq [OF assms])
  next
    case (Some u)
    then have u: "u \<in> set (d_users d)" using lookup_user by metis
    have "snd (auth_handler_login env body d) = d
      \<or> must_enroll env d u \<and> snd (auth_handler_login env body d) = clear_grace_of (us_id u) d"
      using login_gate_eq [OF assms u, of env pw] Some
      by (auto simp: \<open>body = Some b\<close> b login_eq [OF assms] Let_def split: option.splits if_splits)
    with u show ?thesis by blast
  qed
qed

lemma grace_used_login: "grace_used env email d \<Longrightarrow> grace_used env email (snd (auth_handler_login env body d))"
proof -
  assume used: "grace_used env email d"
  then have d: "d_faults d = []" "users_ok d" by (simp_all add: grace_used_def)
  obtain u where u: "u \<in> set (d_users d)" "us_email u = email" "must_enroll env d u" "\<not> us_totp_grace u"
    using used by (auto simp: grace_used_def)
  show ?thesis
  proof (cases "snd (auth_handler_login env body d) = d")
    case True
    then show ?thesis using used by simp
  next
    case False
    then obtain v :: user_row where v: "snd (auth_handler_login env body d) = clear_grace_of (us_id v) d"
      using login_effect [OF d, where env = env and body = body] by blast
    let ?d2 = "clear_grace_of (us_id v) d"
    let ?u = "if us_id u = us_id v then u\<lparr>us_totp_grace := False\<rparr> else u"
    note keep = clear_grace_keeps [OF d(2,1), where uid = "us_id v"]
    have "?u \<in> set (d_users ?d2)" by (rule keep(4) [OF u(1)])
    moreover have "us_email ?u = email \<and> must_enroll env ?d2 ?u \<and> \<not> us_totp_grace ?u"
      using u keep(3) by (auto simp: must_enroll_def)
    ultimately show ?thesis unfolding v grace_used_def using keep(1,2) by blast
  qed
qed

lemma grace_used_logins:
  "grace_used env email d \<Longrightarrow> grace_used env email (fold (\<lambda>body d. snd (auth_handler_login env body d)) bodies d)"
  by (induction bodies arbitrary: d) (simp_all add: grace_used_login)

lemma grace_used_refused:
  assumes "grace_used env email d"
  shows "\<exists>st msg. fst (auth_handler_login env (Some (email, pw)) d) = Failed st msg"
proof -
  have d: "d_faults d = []" "users_ok d" using assms by (simp_all add: grace_used_def)
  obtain u where u: "u \<in> set (d_users d)" "us_email u = email" "must_enroll env d u" "\<not> us_totp_grace u"
    using assms by (auto simp: grace_used_def)
  have "lookup_row us_email email (d_users d) = Some u" using row_by_email [OF d(2) u(1)] u(2) by simp
  then show ?thesis
    using u login_gate_eq [OF d u(1), of env pw]
    by (auto simp: login_eq [OF d] must_enroll_def)
qed

text \<open>Where MFA is demanded, a user who has not enrolled gets in once: after a login that opened a session
  with the flag to enroll, no sequence of further logins, by anyone and with any passwords, opens another for
  that address.\<close>

theorem grace_login_once:
  assumes "d_faults d = []" and "users_ok d"
    and "auth_handler_login env (Some (email, pw)) d = (Answer st (Session tok u True n), d1)"
  shows "\<exists>st2 msg. fst (auth_handler_login env (Some (email, pw2))
      (fold (\<lambda>body d. snd (auth_handler_login env body d)) bodies d1)) = Failed st2 msg"
proof -
  have ne: "\<not> (email = [] \<or> pw = [])" using assms(3) by (auto simp: auth_handler_login_def split: if_splits)
  then obtain v where v: "lookup_row us_email email (d_users d) = Some v" and gate: "login_gate env v pw d
      = (Answer st (Session tok u True n), d1)"
    using assms(3) by (auto simp: login_eq [OF assms(1,2)] split: option.splits if_splits)
  have "v \<in> set (d_users d)" "us_email v = email" using v lookup_user by metis+
  then have enroll: "must_enroll env d v" and d1: "d1 = clear_grace_of (us_id v) d"
    using login_gate_eq [OF assms(1,2), of v env pw] gate
    by (auto simp: Let_def split: if_splits option.splits)
  note keep = clear_grace_keeps [OF assms(2,1), where uid = "us_id v"]
  have "v\<lparr>us_totp_grace := False\<rparr> \<in> set (d_users d1)" using keep(4) [OF \<open>v \<in> set (d_users d)\<close>] by (simp add: d1)
  then have "grace_used env email d1"
    using enroll keep \<open>us_email v = email\<close> unfolding d1 grace_used_def
    by (intro conjI bexI [of _ "v\<lparr>us_totp_grace := False\<rparr>"]) (auto simp: must_enroll_def)
  then show ?thesis by (intro grace_used_refused grace_used_logins)
qed

theorem grace_login_once_witness:
  "\<exists>st msg. fst (auth_handler_login sample_auth (Some (''a@b'', ''pw''))
     (fold (\<lambda>body d. snd (auth_handler_login sample_auth body d)) [Some (''a@b'', ''wrong'')]
       (empty_db\<lparr>d_users := [sample_user\<lparr>us_totp_grace := False\<rparr>], d_settings := [(''mfa_required'', ''on'')]\<rparr>))) = Failed st msg"
proof (rule grace_login_once)
  let ?d = "empty_db\<lparr>d_users := [sample_user], d_settings := [(''mfa_required'', ''on'')]\<rparr>"
  show "d_faults ?d = []" by (simp add: empty_db_def)
  show "users_ok ?d" by (simp add: users_ok_def sample_user_def)
  show "auth_handler_login sample_auth (Some (''a@b'', ''pw'')) ?d = (Answer 200 (Session ''S'' sample_user True True),
    empty_db\<lparr>d_users := [sample_user\<lparr>us_totp_grace := False\<rparr>], d_settings := [(''mfa_required'', ''on'')]\<rparr>)"
    by code_simp
qed

section \<open>Without a token\<close>













section \<open>What a token is good for\<close>

text \<open>The token of the second step is a session already, and with it the second factor can be switched
  off: the password alone opens everything.\<close>

lemma mfa_token_is_a_session:
  assumes "jwt_ok env" and "generate_mfa_token env uid = Some tok" and "0 \<le> ue_now env"
  shows "require_auth env (bearer tok) = Inr (uid, [])"
proof -
  have "unix_secs (ue_now env) < unix_secs (ue_now env + 15 * minute_ns)"
    using assms(3) by (simp add: unix_secs_def)
  then show ?thesis
    using assms(1,2) unfolding jwt_ok_def generate_mfa_token_def
    by (auto simp: require_auth_def extract_token_def bearer_def trim_prefix_def validate_token_def Let_def)
qed

definition protected_user :: user_row where
  "protected_user = sample_user\<lparr>us_totp_secret := ''JBSWY3DP'', us_totp_enabled := True\<rparr>"

lemma second_factor_bypassed:
  "let d = empty_db\<lparr>d_users := [protected_user]\<rparr>;
       d2 = snd (serve sample_auth (bearer ''M'') (TotpAdminDisable ''u1'') d) in
     fst (auth_handler_login sample_auth (Some (''a@b'', ''pw'')) d) = Answer 202 (SecondStep ''M'')
     \<and> fst (auth_handler_login sample_auth (Some (''a@b'', ''pw'')) d2)
         = Answer 200 (Session ''S'' (protected_user\<lparr>us_totp_enabled := False\<rparr>) False True)"
  by code_simp

text \<open>Every route behind the middleware is open to every role.\<close>

lemma member_promotes_itself:
  "map us_role (d_users (snd (serve sample_auth (bearer ''S'') (UserUpdate ''u1'' (Some (''a@b'', ''admin'')))
     (empty_db\<lparr>d_users := [sample_user]\<rparr>)))) = [''admin'']"
  by code_simp

text \<open>A setup that is never confirmed replaces the secret of a factor that is enabled.\<close>

lemma setup_replaces_secret:
  "map (\<lambda>u. (us_totp_secret u, us_totp_enabled u)) (d_users (snd (totp_handler_setup
     (sample_auth\<lparr>ae_rand := Some [0, 0, 0, 0, 0]\<rparr>) ''u1'' (empty_db\<lparr>d_users := [protected_user]\<rparr>))))
   = [(''AAAAAAAA'', True)]"
  by code_simp

text \<open>A failing read of the second factor's state counts as none.\<close>

lemma factor_read_failure_opens:
  "fst (auth_handler_login sample_auth (Some (''a@b'', ''pw''))
     (empty_db\<lparr>d_users := [protected_user], d_faults := [False, True]\<rparr>)) = Answer 200 (Session ''S'' protected_user False True)"
  by code_simp

end
