(* ===== verification/DigestRegistry.thy ===== *)
theory DigestRegistry
  imports Links AppTemplate
begin

text \<open>
  The digest registry: its table (internal/repo/digest_registry.go), the handlers of the settings page
  (internal/api/digest_registry.go) and the reconciliation with the app templates that runs at start
  (internal/profile/registry_reconciler.go).

  The templates are given as the list of pairs in the order in which Go ranges over the map.
\<close>

section \<open>digest_registry.go (repo)\<close>

definition entry_key :: "registry_entry \<Rightarrow> string \<times> string" where
  "entry_key e = (dr_profile_id e, dr_name e)"

text \<open>The conflict clause keeps id, source, entry type and creation time.\<close>

definition entry_merge :: "registry_entry \<Rightarrow> registry_entry \<Rightarrow> registry_entry" where
  "entry_merge old new = old\<lparr>dr_label := dr_label new, dr_config := dr_config new,
     dr_profile_source := dr_profile_source new, dr_active := dr_active new, dr_updated_at := dr_updated_at new\<rparr>"

definition entry_row_ok :: "registry_entry \<Rightarrow> bool" where
  "entry_row_ok e = (dr_source e \<in> {''webhook'', ''api''} \<and> dr_entry_type e \<in> {''category'', ''widget''})"

definition registry_upsert :: "registry_entry \<Rightarrow> db \<Rightarrow> unit db_result" where
  "registry_upsert e = db_op (\<lambda>d.
     if \<not> entry_row_ok e
        \<or> (entry_key e \<notin> entry_key ` set (d_registry d) \<and> dr_id e \<in> dr_id ` set (d_registry d))
     then (Inl DbFail, d)
     else (Inr (), d\<lparr>d_registry := upsert_row entry_key entry_merge e (d_registry d)\<rparr>))"

definition with_active :: "go_time \<Rightarrow> bool \<Rightarrow> registry_entry \<Rightarrow> registry_entry" where
  "with_active now active e = e\<lparr>dr_active := active, dr_updated_at := trunc_sec now\<rparr>"

definition registry_set_active :: "go_time \<Rightarrow> string \<Rightarrow> string \<Rightarrow> bool \<Rightarrow> db \<Rightarrow> unit db_result" where
  "registry_set_active now pid name active = db_op (\<lambda>d. (Inr (), d\<lparr>d_registry :=
     update_where (\<lambda>e. entry_key e = (pid, name)) (with_active now active) (d_registry d)\<rparr>))"

definition registry_order :: "registry_entry list \<Rightarrow> registry_entry list" where
  "registry_order es = order_asc dr_profile_id (order_asc dr_entry_type (order_asc dr_name es))"

definition registry_list_all :: "db \<Rightarrow> registry_entry list db_result" where
  "registry_list_all = db_query (\<lambda>d. registry_order (d_registry d))"

definition registry_list_by_profile :: "string \<Rightarrow> db \<Rightarrow> registry_entry list db_result" where
  "registry_list_by_profile pid = db_query (\<lambda>d. order_asc dr_entry_type (order_asc dr_name
     (filter (\<lambda>e. dr_profile_id e = pid) (d_registry d))))"

definition registry_list_inactive :: "db \<Rightarrow> registry_entry list db_result" where
  "registry_list_inactive = db_query (\<lambda>d. registry_order (filter (\<lambda>e. \<not> dr_active e) (d_registry d)))"

definition registry_delete_all_inactive :: "db \<Rightarrow> nat db_result" where
  "registry_delete_all_inactive = db_op (\<lambda>d.
     (Inr (length (filter (\<lambda>e. \<not> dr_active e) (d_registry d))),
      d\<lparr>d_registry := filter dr_active (d_registry d)\<rparr>))"

text \<open>An unknown id is an error of the first query, not \<open>ErrNotFound\<close>.\<close>

definition registry_delete :: "string \<Rightarrow> db \<Rightarrow> unit db_result" where
  "registry_delete eid d0 =
     (case db_op (\<lambda>d. case lookup_row dr_id eid (d_registry d) of
             None \<Rightarrow> (Inl DbFail, d) | Some e \<Rightarrow> (Inr (dr_active e), d)) d0 of
        (Inl e, d1) \<Rightarrow> (Inl e, d1)
      | (Inr active, d1) \<Rightarrow>
          (if active then (Inl Conflict, d1)
           else db_op (\<lambda>d. (if eid \<in> dr_id ` set (d_registry d) then Inr () else Inl NotFound,
                            d\<lparr>d_registry := filter (\<lambda>e. dr_id e \<noteq> eid) (d_registry d)\<rparr>)) d1))"

definition registry_set_active_by_id :: "go_time \<Rightarrow> string \<Rightarrow> bool \<Rightarrow> db \<Rightarrow> unit db_result" where
  "registry_set_active_by_id now eid active = db_op (\<lambda>d.
     (if eid \<in> dr_id ` set (d_registry d) then Inr () else Inl NotFound,
      d\<lparr>d_registry := update_where (\<lambda>e. dr_id e = eid) (with_active now active) (d_registry d)\<rparr>))"

section \<open>digest_registry.go (api)\<close>

text \<open>\<open>role\<close> is the role the middleware put into the request context.\<close>

definition registry_handler_list :: "string \<Rightarrow> db \<Rightarrow> registry_entry list response \<times> db" where
  "registry_handler_list role d = (if role \<noteq> ''admin'' then (Failed 403 ''admin role required'', d)
     else case registry_list_all d of
       (Inl _, d1) \<Rightarrow> (Failed 500 ''database'', d1) | (Inr es, d1) \<Rightarrow> (Answer 200 es, d1))"

definition registry_handler_set_active ::
  "go_time \<Rightarrow> string \<Rightarrow> string \<Rightarrow> bool option \<Rightarrow> db \<Rightarrow> unit response \<times> db" where
  "registry_handler_set_active now role eid body d = (if role \<noteq> ''admin'' then (Failed 403 ''admin role required'', d)
     else case body of
       None \<Rightarrow> (Failed 400 ''invalid request body'', d)
     | Some active \<Rightarrow> (case registry_set_active_by_id now eid active d of
           (Inl e, d1) \<Rightarrow> (if e = NotFound then Failed 404 ''entry not found'' else Failed 500 ''database'', d1)
         | (Inr _, d1) \<Rightarrow> (Answer 204 (), d1)))"

definition registry_handler_delete :: "string \<Rightarrow> string \<Rightarrow> db \<Rightarrow> unit response \<times> db" where
  "registry_handler_delete role eid d = (if role \<noteq> ''admin'' then (Failed 403 ''admin role required'', d)
     else case registry_delete eid d of
       (Inl e, d1) \<Rightarrow> (if e = Conflict then Failed 409 (''entry is still active '' @ em_dash @ '' deactivate before deleting'')
                       else if e = NotFound then Failed 404 ''entry not found'' else Failed 500 ''database'', d1)
     | (Inr _, d1) \<Rightarrow> (Answer 204 (), d1))"

section \<open>registry_reconciler.go\<close>

definition slug_char :: "char \<Rightarrow> bool" where
  "slug_char c = (let n = of_char c :: nat in (97 \<le> n \<and> n \<le> 122) \<or> (48 \<le> n \<and> n \<le> 57) \<or> n = 95)"

definition slugify :: "string \<Rightarrow> string" where
  "slugify label = filter slug_char (replace_all '' '' ''_'' (to_lower label))"

text \<open>\<open>json.Marshal\<close> of a map from strings to strings.\<close>

definition json_string_map :: "(string \<times> string) list \<Rightarrow> string" where
  "json_string_map kvs = json_marshal (\<lambda>_ :: unit. []) (JObj (map (\<lambda>(k, v). (k, JStr v)) kvs))"

definition when_set :: "string \<Rightarrow> string \<Rightarrow> (string \<times> string) list" where
  "when_set k v = (if v = [] then [] else [(k, v)])"

definition category_config :: "digest_category \<Rightarrow> string" where
  "category_config c = json_string_map ([(''match_field'', dg_match_field c), (''match_value'', dg_match_value c)]
     @ when_set ''match_severity'' (dg_match_severity c) @ when_set ''and_field'' (dg_and_field c)
     @ when_set ''and_value'' (dg_and_value c))"

definition widget_config :: "digest_widget \<Rightarrow> string" where
  "widget_config w = json_string_map (when_set ''metric'' (dw_metric w) @ when_set ''match_field'' (dw_match_field w)
     @ when_set ''match_value'' (dw_match_value w) @ when_set ''and_field'' (dw_and_field w)
     @ when_set ''and_value'' (dw_and_value w))"

record reconciler =
  rc_now :: go_time
  rc_sql_now :: go_time                        \<comment> \<open>\<open>datetime('now')\<close> in the deactivations\<close>
  rc_uuid :: "string \<times> string \<Rightarrow> string"    \<comment> \<open>the UUID drawn for an entry of that key\<close>

definition mk_entry :: "reconciler \<Rightarrow> string \<Rightarrow> string \<Rightarrow> string \<Rightarrow> string \<Rightarrow> string \<Rightarrow> string \<Rightarrow> string \<Rightarrow> registry_entry" where
  "mk_entry rc pid src source entry_type name label config =
     \<lparr>dr_id = rc_uuid rc (pid, name), dr_profile_id = pid, dr_source = source, dr_entry_type = entry_type,
      dr_name = name, dr_label = label, dr_config = config, dr_profile_source = src, dr_active = True,
      dr_created_at = rc_now rc, dr_updated_at = rc_now rc\<rparr>"

definition category_entries :: "reconciler \<Rightarrow> string \<Rightarrow> app_template \<Rightarrow> registry_entry list" where
  "category_entries rc pid t =
     map (\<lambda>c. mk_entry rc pid (at_source_path t) (if dg_source c = [] then ''webhook'' else dg_source c)
            ''category'' (slugify (dg_label c)) (dg_label c) (category_config c))
       (filter (\<lambda>c. slugify (dg_label c) \<noteq> []) (at_categories t))"

definition widget_entries :: "reconciler \<Rightarrow> string \<Rightarrow> app_template \<Rightarrow> registry_entry list" where
  "widget_entries rc pid t =
     map (\<lambda>w. mk_entry rc pid (at_source_path t) (dw_source w) ''widget'' (''widget_'' @ slugify (dw_label w))
            (dw_label w) (widget_config w))
       (filter (\<lambda>w. slugify (dw_label w) \<noteq> []) (at_widgets t))"

definition declared_entries :: "reconciler \<Rightarrow> string \<Rightarrow> app_template \<Rightarrow> registry_entry list" where
  "declared_entries rc pid t = category_entries rc pid t @ widget_entries rc pid t"

definition has_entries :: "app_template \<Rightarrow> bool" where
  "has_entries t = (at_categories t \<noteq> [] \<or> at_widgets t \<noteq> [])"

definition deactivate :: "reconciler \<Rightarrow> registry_entry \<Rightarrow> db \<Rightarrow> unit db_result" where
  "deactivate rc e = registry_set_active (rc_sql_now rc) (dr_profile_id e) (dr_name e) False"

definition reconcile_profile :: "reconciler \<Rightarrow> string \<times> app_template \<Rightarrow> db \<Rightarrow> unit db_result" where
  "reconcile_profile rc pt d0 = (case pt of (pid, t) \<Rightarrow>
     if \<not> has_entries t then (Inr (), d0)
     else case each_ok registry_upsert (declared_entries rc pid t) d0 of
       (Inl e, d1) \<Rightarrow> (Inl e, d1)
     | (Inr _, d1) \<Rightarrow> (case registry_list_by_profile pid d1 of
           (Inl e, d2) \<Rightarrow> (Inl e, d2)
         | (Inr existing, d2) \<Rightarrow>
             each_ok (deactivate rc)
               (filter (\<lambda>e. dr_name e \<notin> dr_name ` set (declared_entries rc pid t) \<and> dr_active e) existing) d2))"

definition reconcile :: "reconciler \<Rightarrow> (string \<times> app_template) list \<Rightarrow> db \<Rightarrow> unit db_result" where
  "reconcile rc templates d0 = (case each_ok (reconcile_profile rc) templates d0 of
       (Inl e, d1) \<Rightarrow> (Inl e, d1)
     | (Inr _, d1) \<Rightarrow> (case registry_list_all d1 of
           (Inl e, d2) \<Rightarrow> (Inl e, d2)
         | (Inr rows, d2) \<Rightarrow>
             each_ok (deactivate rc) (filter (\<lambda>e. dr_profile_id e \<notin> fst ` set templates \<and> dr_active e) rows) d2))"

section \<open>Lemmas\<close>

interpretation registry_table: keyed_table entry_key entry_merge
  by unfold_locales (auto simp: entry_key_def entry_merge_def)

declare registry_table.key_merge [simp del]

text \<open>Keys and ids are unique, and every row satisfies the CHECK constraints.\<close>

definition registry_ok :: "db \<Rightarrow> bool" where
  "registry_ok d = (distinct (map entry_key (d_registry d)) \<and> distinct (map dr_id (d_registry d))
     \<and> list_all entry_row_ok (d_registry d))"

lemma registry_ok_blind: "fault_blind registry_ok"
  by (simp add: fault_blind_def registry_ok_def)

lemma entry_merge_keeps [simp]:
  "dr_id (entry_merge old new) = dr_id old" "dr_source (entry_merge old new) = dr_source old"
  "dr_entry_type (entry_merge old new) = dr_entry_type old" "entry_row_ok (entry_merge old new) = entry_row_ok old"
  "entry_key (entry_merge old new) = entry_key old"
  by (simp_all add: entry_merge_def entry_row_ok_def entry_key_def)

lemma with_active_keeps [simp]:
  "dr_id (with_active now a e) = dr_id e" "entry_key (with_active now a e) = entry_key e"
  "entry_row_ok (with_active now a e) = entry_row_ok e" "dr_active (with_active now a e) = a"
  "dr_profile_id (with_active now a e) = dr_profile_id e" "dr_name (with_active now a e) = dr_name e"
  by (simp_all add: with_active_def entry_key_def entry_row_ok_def)

lemma registry_upsert_ok: "registry_ok d \<Longrightarrow> registry_ok (snd (registry_upsert e d))"
  unfolding registry_upsert_def
proof (rule db_op_invariant [OF registry_ok_blind])
  fix d assume ok: "registry_ok d"
  let ?bad = "\<not> entry_row_ok e \<or> (entry_key e \<notin> entry_key ` set (d_registry d) \<and> dr_id e \<in> dr_id ` set (d_registry d))"
  let ?xs = "upsert_row entry_key entry_merge e (d_registry d)"
  have "registry_ok (d\<lparr>d_registry := ?xs\<rparr>)" if "\<not> ?bad"
  proof -
    have "distinct (map dr_id ?xs)"
    proof (cases "entry_key e \<in> entry_key ` set (d_registry d)")
      case True
      have "map dr_id (map (\<lambda>x. if entry_key x = entry_key e then entry_merge x e else x) xs) = map dr_id xs" for xs
        by (induction xs) auto
      then show ?thesis using True ok by (simp add: upsert_row_def registry_ok_def del: map_map)
    next
      case False
      then show ?thesis using that ok by (simp add: upsert_row_def registry_ok_def)
    qed
    moreover have "list_all entry_row_ok ?xs"
      using that ok registry_table.in_upsert [of _ e "d_registry d"] by (fastforce simp: registry_ok_def list_all_iff)
    ultimately show ?thesis using ok registry_table.distinct_upsert by (simp add: registry_ok_def)
  qed
  then show "registry_ok (snd (if ?bad then (Inl DbFail, d) else (Inr (), d\<lparr>d_registry := ?xs\<rparr>)))" using ok by simp
qed

lemma update_active_ok:
  "registry_ok d \<Longrightarrow> registry_ok (d\<lparr>d_registry := update_where P (with_active now a) (d_registry d)\<rparr>)"
  by (auto simp: registry_ok_def map_update_where list_all_iff set_update_where)

lemma filter_registry_ok: "registry_ok d \<Longrightarrow> registry_ok (d\<lparr>d_registry := filter P (d_registry d)\<rparr>)"
  by (simp add: registry_ok_def distinct_map_filter list_all_iff)

lemma registry_set_active_ok: "registry_ok d \<Longrightarrow> registry_ok (snd (registry_set_active now pid name a d))"
  unfolding registry_set_active_def
  by (rule db_op_invariant [OF registry_ok_blind]) (simp_all add: update_active_ok)

lemma registry_query_ok: "registry_ok d \<Longrightarrow> registry_ok (snd (db_query q d))"
  by (rule db_query_invariant [OF registry_ok_blind])

lemma each_registry_ok:
  "registry_ok d \<Longrightarrow> registry_ok (snd (each_ok registry_upsert es d))"
  "registry_ok d \<Longrightarrow> registry_ok (snd (each_ok (deactivate rc) es d))"
  by (rule each_ok_invariant; simp add: registry_upsert_ok deactivate_def registry_set_active_ok)+

lemma registry_lists_ok:
  "registry_ok d \<Longrightarrow> registry_ok (snd (registry_list_by_profile pid d))"
  "registry_ok d \<Longrightarrow> registry_ok (snd (registry_list_all d))"
  by (simp_all add: registry_list_by_profile_def registry_list_all_def registry_query_ok)

lemma reconcile_profile_ok: "registry_ok d \<Longrightarrow> registry_ok (snd (reconcile_profile rc pt d))"
proof -
  assume ok: "registry_ok d"
  obtain pid t where pt: "pt = (pid, t)" by fastforce
  obtain r d1 where u: "each_ok registry_upsert (declared_entries rc pid t) d = (r, d1)" by fastforce
  have ok1: "registry_ok d1" using each_registry_ok(1) [OF ok, of "declared_entries rc pid t"] by (simp add: u)
  obtain q d2 where l: "registry_list_by_profile pid d1 = (q, d2)" by fastforce
  have ok2: "registry_ok d2" using registry_lists_ok(1) [OF ok1, of pid] by (simp add: l)
  show ?thesis using ok ok1 ok2 by (cases r; cases q) (simp_all add: pt reconcile_profile_def u l each_registry_ok)
qed

lemma reconcile_ok: "registry_ok d \<Longrightarrow> registry_ok (snd (reconcile rc ts d))"
proof -
  assume ok: "registry_ok d"
  obtain r d1 where u: "each_ok (reconcile_profile rc) ts d = (r, d1)" by fastforce
  have "registry_ok (snd (each_ok (reconcile_profile rc) ts d))"
    by (rule each_ok_invariant) (simp_all add: reconcile_profile_ok ok)
  then have ok1: "registry_ok d1" by (simp add: u)
  obtain q d2 where l: "registry_list_all d1 = (q, d2)" by fastforce
  have ok2: "registry_ok d2" using registry_lists_ok(2) [OF ok1] by (simp add: l)
  show ?thesis using ok ok1 ok2 by (cases r; cases q) (simp_all add: reconcile_def u l each_registry_ok)
qed

section \<open>What a run without faults does\<close>

definition put_entry :: "registry_entry \<Rightarrow> registry_entry option \<Rightarrow> registry_entry option" where
  "put_entry e old = Some (case old of None \<Rightarrow> e | Some r \<Rightarrow> entry_merge r e)"

definition deactivated :: "reconciler \<Rightarrow> registry_entry \<Rightarrow> registry_entry" where
  "deactivated rc e = (if dr_active e then with_active (rc_sql_now rc) False e else e)"

lemma lookup_upserts:
  "lookup_row entry_key k (fold (upsert_row entry_key entry_merge) es xs)
     = fold put_entry (filter (\<lambda>e. entry_key e = k) es) (lookup_row entry_key k xs)"
  by (induction es arbitrary: xs) (simp_all add: registry_table.lookup_upsert put_entry_def)

text \<open>The UUIDs drawn are new: different keys get different ones, and none is in the table.\<close>

definition fresh_uuids :: "reconciler \<Rightarrow> (string \<times> string) set \<Rightarrow> registry_entry list \<Rightarrow> bool" where
  "fresh_uuids rc ks rows = (inj_on (rc_uuid rc) ks \<and>
     (\<forall>r \<in> set rows. dr_id r \<in> rc_uuid rc ` ks \<longrightarrow> entry_key r \<in> ks \<and> dr_id r = rc_uuid rc (entry_key r)))"

lemma fresh_upsert:
  assumes "fresh_uuids rc ks rows" and "dr_id e = rc_uuid rc (entry_key e)" and "entry_key e \<in> ks"
  shows "fresh_uuids rc ks (upsert_row entry_key entry_merge e rows)"
    and "entry_key e \<notin> entry_key ` set rows \<Longrightarrow> dr_id e \<notin> dr_id ` set rows"
proof -
  show "fresh_uuids rc ks (upsert_row entry_key entry_merge e rows)"
    unfolding fresh_uuids_def
  proof (intro conjI ballI impI)
    show "inj_on (rc_uuid rc) ks" using assms(1) by (simp add: fresh_uuids_def)
    fix r assume "r \<in> set (upsert_row entry_key entry_merge e rows)" and u: "dr_id r \<in> rc_uuid rc ` ks"
    then consider "r \<in> set rows" | "r = e" | old where "old \<in> set rows" "r = entry_merge old e"
      using registry_table.in_upsert by blast
    then show "entry_key r \<in> ks" "dr_id r = rc_uuid rc (entry_key r)"
      using assms u by (cases; auto simp: fresh_uuids_def)+
  qed
  show "entry_key e \<notin> entry_key ` set rows \<Longrightarrow> dr_id e \<notin> dr_id ` set rows"
  proof
    assume new: "entry_key e \<notin> entry_key ` set rows" and "dr_id e \<in> dr_id ` set rows"
    then obtain r where r: "r \<in> set rows" "dr_id r = dr_id e" by auto
    then have "entry_key r \<in> ks" "rc_uuid rc (entry_key r) = rc_uuid rc (entry_key e)"
      using assms by (auto simp: fresh_uuids_def)
    then have "entry_key r = entry_key e" using assms by (auto simp: fresh_uuids_def inj_on_def)
    with r new show False by (metis imageI)
  qed
qed

lemma each_upsert_eq:
  assumes "d_faults d = []" and "list_all entry_row_ok es" and "fresh_uuids rc ks (d_registry d)"
    and "\<And>e. e \<in> set es \<Longrightarrow> entry_key e \<in> ks \<and> dr_id e = rc_uuid rc (entry_key e)"
  shows "each_ok registry_upsert es d
      = (Inr (), d\<lparr>d_registry := fold (upsert_row entry_key entry_merge) es (d_registry d)\<rparr>)
    \<and> fresh_uuids rc ks (fold (upsert_row entry_key entry_merge) es (d_registry d))"
  using assms
proof (induction es arbitrary: d)
  case (Cons e es)
  let ?d = "d\<lparr>d_registry := upsert_row entry_key entry_merge e (d_registry d)\<rparr>"
  have e: "entry_key e \<in> ks" "dr_id e = rc_uuid rc (entry_key e)" using Cons.prems(4) by auto
  have step: "registry_upsert e d = (Inr (), ?d)"
    using Cons.prems(1,2) fresh_upsert(2) [OF Cons.prems(3) e(2,1)] by (auto simp: registry_upsert_def)
  show ?case using Cons.IH [of ?d] Cons.prems fresh_upsert(1) [OF Cons.prems(3) e(2,1)] by (simp add: step)
qed simp

lemma each_deactivate_eq:
  assumes "d_faults d = []"
  shows "each_ok (deactivate rc) es d = (Inr (), d\<lparr>d_registry :=
     update_where (\<lambda>x. entry_key x \<in> entry_key ` set es) (with_active (rc_sql_now rc) False) (d_registry d)\<rparr>)"
  using assms
proof (induction es arbitrary: d)
  case Nil
  have "update_where (\<lambda>x. False) f xs = xs" for f and xs :: "registry_entry list" by (simp add: update_where_def)
  then show ?case by simp
next
  case (Cons e es)
  let ?f = "with_active (rc_sql_now rc) False"
  have twice: "update_where P ?f (update_where (\<lambda>x. entry_key x = k) ?f xs)
      = update_where (\<lambda>x. entry_key x = k \<or> P x) ?f xs" if "\<And>x. P (?f x) = P x" for P k xs
    using that by (auto simp: update_where_def with_active_def)
  have k: "(dr_profile_id e, dr_name e) = entry_key e" by (simp add: entry_key_def)
  show ?case
    using Cons.IH [of "d\<lparr>d_registry := update_where (\<lambda>x. entry_key x = entry_key e) ?f (d_registry d)\<rparr>"] Cons.prems
    by (simp add: deactivate_def registry_set_active_def k twice)
qed


lemma lookup_deactivated:
  assumes "distinct (map entry_key xs)"
  shows "lookup_row entry_key k (update_where (\<lambda>x. entry_key x \<in> entry_key ` {e \<in> set xs. Q e}) (with_active now a) xs)
    = map_option (\<lambda>x. if Q x then with_active now a x else x) (lookup_row entry_key k xs)"
proof (cases "lookup_row entry_key k xs")
  case (Some x)
  then have x: "x \<in> set xs" using lookup_row_Some [OF Some] by simp
  have "entry_key x \<in> entry_key ` {e \<in> set xs. Q e} \<longleftrightarrow> Q x"
    using assms x by (auto simp: distinct_map inj_on_def)
  then show ?thesis by (simp add: lookup_row_update_where Some)
qed (simp add: lookup_row_update_where)

lemma declared_key:
  "e \<in> set (declared_entries rc pid t) \<Longrightarrow> dr_profile_id e = pid \<and> dr_id e = rc_uuid rc (entry_key e)"
  by (auto simp: declared_entries_def category_entries_def widget_entries_def mk_entry_def entry_key_def)

text \<open>The row a key has afterwards, from the row it had.\<close>

definition profile_row :: "reconciler \<Rightarrow> string \<Rightarrow> app_template \<Rightarrow> string \<Rightarrow> registry_entry option \<Rightarrow> registry_entry option" where
  "profile_row rc pid t name old = (if \<not> has_entries t then old
     else let es = filter (\<lambda>e. dr_name e = name) (declared_entries rc pid t) in
       if es = [] then map_option (deactivated rc) old else fold put_entry es old)"

definition reconciled_row :: "reconciler \<Rightarrow> (string \<rightharpoonup> app_template) \<Rightarrow> string \<times> string \<Rightarrow> registry_entry option \<Rightarrow> registry_entry option" where
  "reconciled_row rc templates k old = (case templates (fst k) of
       None \<Rightarrow> map_option (deactivated rc) old
     | Some t \<Rightarrow> profile_row rc (fst k) t (snd k) old)"

definition declared_keys :: "reconciler \<Rightarrow> (string \<times> app_template) list \<Rightarrow> (string \<times> string) set" where
  "declared_keys rc ts = set (concat (map (\<lambda>(pid, t). map entry_key (declared_entries rc pid t)) ts))"

definition valid_declarations :: "reconciler \<Rightarrow> string \<times> app_template \<Rightarrow> bool" where
  "valid_declarations rc pt = (case pt of (pid, t) \<Rightarrow> list_all entry_row_ok (declared_entries rc pid t))"

lemma fresh_update:
  assumes "fresh_uuids rc ks rows"
  shows "fresh_uuids rc ks (update_where P (with_active now a) rows)"
  unfolding fresh_uuids_def
proof (intro conjI ballI impI)
  show "inj_on (rc_uuid rc) ks" using assms by (simp add: fresh_uuids_def)
  fix r assume "r \<in> set (update_where P (with_active now a) rows)" and u: "dr_id r \<in> rc_uuid rc ` ks"
  then obtain x where "x \<in> set rows" and r: "r = (if P x then with_active now a x else x)"
    unfolding set_update_where by blast
  moreover have "dr_id r = dr_id x" "entry_key r = entry_key x" by (simp_all add: r)
  ultimately have "x \<in> set rows" "dr_id r = dr_id x" "entry_key r = entry_key x" by blast+
  then show "entry_key r \<in> ks" "dr_id r = rc_uuid rc (entry_key r)"
    using assms u unfolding fresh_uuids_def by metis+
qed

lemma reconcile_profile_eq:
  assumes "d_faults d = []" and "registry_ok d" and "valid_declarations rc (pid, t)"
    and fresh: "fresh_uuids rc ks (d_registry d)" and "entry_key ` set (declared_entries rc pid t) \<subseteq> ks"
  shows "\<exists>rows. reconcile_profile rc (pid, t) d = (Inr (), d\<lparr>d_registry := rows\<rparr>) \<and> fresh_uuids rc ks rows
    \<and> (\<forall>k. lookup_row entry_key k rows = (if fst k = pid then profile_row rc pid t (snd k) (lookup_row entry_key k (d_registry d))
             else lookup_row entry_key k (d_registry d)))"
proof (cases "has_entries t")
  case False
  then have "reconcile_profile rc (pid, t) d = (Inr (), d\<lparr>d_registry := d_registry d\<rparr>)"
    by (simp add: reconcile_profile_def)
  then show ?thesis using fresh False by (intro exI [of _ "d_registry d"]) (simp add: profile_row_def)
next
  case True
  let ?es = "declared_entries rc pid t"
  let ?xs = "fold (upsert_row entry_key entry_merge) ?es (d_registry d)"
  let ?d = "d\<lparr>d_registry := ?xs\<rparr>"
  let ?Q = "\<lambda>e. dr_profile_id e = pid \<and> dr_name e \<notin> dr_name ` set ?es \<and> dr_active e"
  let ?f = "with_active (rc_sql_now rc) False"
  let ?rows = "update_where (\<lambda>x. entry_key x \<in> entry_key ` {e \<in> set ?xs. ?Q e}) ?f ?xs"
  have up: "each_ok registry_upsert ?es d = (Inr (), ?d)" and fr: "fresh_uuids rc ks ?xs"
    using each_upsert_eq [of d ?es rc ks] assms declared_key by (auto simp: valid_declarations_def)
  have ok: "registry_ok ?d" using each_registry_ok(1) [OF assms(2), of ?es] up by simp
  have run: "reconcile_profile rc (pid, t) d = (Inr (), d\<lparr>d_registry := ?rows\<rparr>)"
  proof -
    have "set (filter (\<lambda>e. dr_name e \<notin> dr_name ` set ?es \<and> dr_active e) (order_asc dr_entry_type (order_asc dr_name
        (filter (\<lambda>e. dr_profile_id e = pid) ?xs)))) = {e \<in> set ?xs. ?Q e}" by auto
    then show ?thesis using True assms(1)
      by (simp add: reconcile_profile_def up registry_list_by_profile_def each_deactivate_eq)
  qed
  have "lookup_row entry_key k ?rows = (if fst k = pid then profile_row rc pid t (snd k) (lookup_row entry_key k (d_registry d))
      else lookup_row entry_key k (d_registry d))" for k
  proof -
    obtain p name where k: "k = (p, name)" by fastforce
    have look: "lookup_row entry_key k ?rows = map_option (\<lambda>x. if ?Q x then ?f x else x)
        (fold put_entry (filter (\<lambda>e. entry_key e = k) ?es) (lookup_row entry_key k (d_registry d)))"
      using lookup_deactivated [of ?xs k ?Q "rc_sql_now rc" False] ok by (simp add: registry_ok_def lookup_upserts)
    have es: "filter (\<lambda>e. entry_key e = k) ?es = (if p = pid then filter (\<lambda>e. dr_name e = name) ?es else [])"
      using declared_key [of _ rc pid t] by (auto simp: k entry_key_def intro!: filter_cong filter_False)
    have key: "entry_key x = k" if "lookup_row entry_key k ?xs = Some x" for x using lookup_row_Some [OF that] by simp
    have id: "map_option (\<lambda>x. if ?Q x then ?f x else x) r = map_option (\<lambda>x. if c \<and> dr_active x then ?f x else x) r"
      if "\<And>x. r = Some x \<Longrightarrow> (dr_profile_id x = pid \<and> dr_name x \<notin> dr_name ` set ?es) = c" for r c
      using that by (cases r) auto
    show ?thesis
    proof (cases "p = pid \<and> name \<notin> dr_name ` set ?es")
      case True
      then have "filter (\<lambda>e. dr_name e = name) ?es = []" by (auto simp: filter_empty_conv)
      then have "lookup_row entry_key k ?rows = map_option (\<lambda>x. if ?Q x then ?f x else x) (lookup_row entry_key k (d_registry d))"
        and "profile_row rc pid t name old = map_option (deactivated rc) old" for old
        using look True \<open>has_entries t\<close> by (simp_all add: es profile_row_def)
      moreover have "map_option (\<lambda>x. if ?Q x then ?f x else x) (lookup_row entry_key k (d_registry d))
          = map_option (deactivated rc) (lookup_row entry_key k (d_registry d))"
        using True lookup_row_Some [of entry_key k "d_registry d"]
        by (cases "lookup_row entry_key k (d_registry d)") (auto simp: k deactivated_def entry_key_def)
      ultimately show ?thesis using True by (simp add: k)
    next
      case False
      then have "(dr_profile_id x = pid \<and> dr_name x \<notin> dr_name ` set ?es) = False" if "lookup_row entry_key k ?xs = Some x" for x
        using key [OF that] by (auto simp: k entry_key_def)
      then have same: "lookup_row entry_key k ?rows = lookup_row entry_key k ?xs"
        using look id [of "lookup_row entry_key k ?xs" False] by (simp add: lookup_upserts option.map_ident)
      have "filter (\<lambda>e. dr_name e = name) ?es \<noteq> []" if "p = pid"
        using False that by (auto simp: filter_empty_conv)
      then show ?thesis using same \<open>has_entries t\<close> by (simp add: lookup_upserts es) (simp add: k profile_row_def)
    qed
  qed
  moreover have "fresh_uuids rc ks ?rows" using fr by (rule fresh_update)
  ultimately show ?thesis using run by blast
qed


text \<open>The run may go on: what the reconciliation of several profiles needs and keeps.\<close>

lemma each_reconcile_eq:
  assumes "d_faults d = []" and "registry_ok d" and "list_all (valid_declarations rc) ts" and "distinct (map fst ts)"
    and "fresh_uuids rc ks (d_registry d)" and "declared_keys rc ts \<subseteq> ks"
  shows "\<exists>rows. each_ok (reconcile_profile rc) ts d = (Inr (), d\<lparr>d_registry := rows\<rparr>)
    \<and> (\<forall>k. lookup_row entry_key k rows = (case map_of ts (fst k) of
             None \<Rightarrow> lookup_row entry_key k (d_registry d)
           | Some t \<Rightarrow> profile_row rc (fst k) t (snd k) (lookup_row entry_key k (d_registry d))))"
  using assms
proof (induction ts arbitrary: d)
  case Nil
  then show ?case by (intro exI [of _ "d_registry d"]) simp
next
  case (Cons pt ts)
  obtain pid t where pt: "pt = (pid, t)" by fastforce
  have "entry_key ` set (declared_entries rc pid t) \<subseteq> ks" using Cons.prems(6) by (simp add: declared_keys_def pt)
  then obtain rows where run: "reconcile_profile rc (pid, t) d = (Inr (), d\<lparr>d_registry := rows\<rparr>)"
    and fr: "fresh_uuids rc ks rows"
    and look: "\<forall>k. lookup_row entry_key k rows = (if fst k = pid then profile_row rc pid t (snd k) (lookup_row entry_key k (d_registry d))
             else lookup_row entry_key k (d_registry d))"
    using reconcile_profile_eq [of d rc pid t ks] Cons.prems by (auto simp: pt)
  let ?d = "d\<lparr>d_registry := rows\<rparr>"
  have ok: "registry_ok ?d" using reconcile_profile_ok [OF Cons.prems(2), of rc "(pid, t)"] by (simp add: run)
  have "declared_keys rc ts \<subseteq> ks" using Cons.prems(6) by (auto simp: declared_keys_def)
  then have "\<exists>rows2. each_ok (reconcile_profile rc) ts ?d = (Inr (), ?d\<lparr>d_registry := rows2\<rparr>)
    \<and> (\<forall>k. lookup_row entry_key k rows2 = (case map_of ts (fst k) of
             None \<Rightarrow> lookup_row entry_key k (d_registry ?d)
           | Some t \<Rightarrow> profile_row rc (fst k) t (snd k) (lookup_row entry_key k (d_registry ?d))))"
    using Cons.IH [of ?d] ok Cons.prems fr by (simp del: split_paired_All)
  then obtain rows2 where run2: "each_ok (reconcile_profile rc) ts ?d = (Inr (), ?d\<lparr>d_registry := rows2\<rparr>)"
    and look2: "\<forall>k. lookup_row entry_key k rows2 = (case map_of ts (fst k) of
             None \<Rightarrow> lookup_row entry_key k (d_registry ?d)
           | Some t \<Rightarrow> profile_row rc (fst k) t (snd k) (lookup_row entry_key k (d_registry ?d)))"
    by blast
  have notin: "map_of ts pid = None" using Cons.prems(4) by (simp add: pt map_of_eq_None_iff)
  have "lookup_row entry_key k rows2 = (case map_of (pt # ts) (fst k) of
             None \<Rightarrow> lookup_row entry_key k (d_registry d)
           | Some t \<Rightarrow> profile_row rc (fst k) t (snd k) (lookup_row entry_key k (d_registry d)))" for k
    using look [rule_format, of k] look2 [rule_format, of k] notin by (cases "fst k = pid") (simp_all add: pt split: option.split)
  then show ?case using run run2 by (intro exI [of _ rows2]) (simp add: pt)
qed

lemma wf_declares: "template_wf t \<Longrightarrow> valid_declarations rc (pid, t)"
  by (auto simp: valid_declarations_def declared_entries_def category_entries_def widget_entries_def mk_entry_def
      entry_row_ok_def template_wf_def widget_wf_def list_all_iff Let_def)

lemma reconcile_rows:
  assumes "d_faults d = []" and "registry_ok d" and "distinct (map fst ts)" and "list_all (\<lambda>(pid, t). template_wf t) ts"
    and "fresh_uuids rc (declared_keys rc ts) (d_registry d)"
  shows "fst (reconcile rc ts d) = Inr () \<and> registry_ok (snd (reconcile rc ts d))
    \<and> lookup_row entry_key k (d_registry (snd (reconcile rc ts d)))
        = reconciled_row rc (map_of ts) k (lookup_row entry_key k (d_registry d))"
proof -
  have valid: "list_all (valid_declarations rc) ts" using assms(4) wf_declares by (auto simp: list_all_iff)
  obtain rows where run: "each_ok (reconcile_profile rc) ts d = (Inr (), d\<lparr>d_registry := rows\<rparr>)"
    and look: "\<forall>k. lookup_row entry_key k rows = (case map_of ts (fst k) of
             None \<Rightarrow> lookup_row entry_key k (d_registry d)
           | Some t \<Rightarrow> profile_row rc (fst k) t (snd k) (lookup_row entry_key k (d_registry d)))"
    using each_reconcile_eq [OF assms(1,2) valid assms(3,5) order.refl] by blast
  let ?Q = "\<lambda>e. dr_profile_id e \<notin> fst ` set ts \<and> dr_active e"
  let ?rows = "update_where (\<lambda>x. entry_key x \<in> entry_key ` {e \<in> set rows. ?Q e}) (with_active (rc_sql_now rc) False) rows"
  have all: "reconcile rc ts d = (Inr (), d\<lparr>d_registry := ?rows\<rparr>)"
  proof -
    have "set (filter ?Q (registry_order rows)) = {e \<in> set rows. ?Q e}" by (auto simp: registry_order_def)
    then show ?thesis using assms(1) by (simp add: reconcile_def run registry_list_all_def each_deactivate_eq)
  qed
  have "registry_ok (d\<lparr>d_registry := rows\<rparr>)"
    using each_ok_invariant [of registry_ok "reconcile_profile rc" d ts] reconcile_profile_ok assms(2) run by simp
  then have "lookup_row entry_key k ?rows = map_option (\<lambda>x. if ?Q x then with_active (rc_sql_now rc) False x else x) (lookup_row entry_key k rows)"
    by (simp add: lookup_deactivated registry_ok_def)
  also have "\<dots> = reconciled_row rc (map_of ts) k (lookup_row entry_key k (d_registry d))"
  proof (cases "map_of ts (fst k)")
    case None
    then have "fst k \<notin> fst ` set ts" by (simp add: map_of_eq_None_iff)
    moreover have "fst k = dr_profile_id x" if "lookup_row entry_key k (d_registry d) = Some x" for x
      using lookup_row_Some [OF that] by (auto simp: entry_key_def)
    ultimately show ?thesis using None look [rule_format, of k]
      by (cases "lookup_row entry_key k (d_registry d)") (simp_all add: reconciled_row_def deactivated_def)
  next
    case (Some t)
    then have "fst k \<in> fst ` set ts" by (metis map_of_eq_None_iff option.distinct(1))
    moreover have "fst k = dr_profile_id x" if "lookup_row entry_key k rows = Some x" for x
      using lookup_row_Some [OF that] by (auto simp: entry_key_def)
    ultimately have "map_option (\<lambda>x. if ?Q x then with_active (rc_sql_now rc) False x else x) (lookup_row entry_key k rows)
        = lookup_row entry_key k rows"
      by (cases "lookup_row entry_key k rows") simp_all
    then show ?thesis using Some look [rule_format, of k] by (simp add: reconciled_row_def)
  qed
  finally show ?thesis using all reconcile_ok [OF assms(2), of rc ts] by simp
qed


definition sample_category :: "string \<Rightarrow> string \<Rightarrow> digest_category" where
  "sample_category source label = \<lparr>dg_source = source, dg_label = label, dg_match_field = ''event_type'',
     dg_match_value = ''Grab'', dg_match_severity = [], dg_and_field = [], dg_and_value = []\<rparr>"

definition sample_widget :: "string \<Rightarrow> digest_widget" where
  "sample_widget label = \<lparr>dw_source = ''webhook'', dw_label = label, dw_metric = [], dw_match_field = ''event_type'',
     dw_match_value = ''Health'', dw_and_field = [], dw_and_value = []\<rparr>"

definition digest_template :: "digest_category list \<Rightarrow> digest_widget list \<Rightarrow> app_template" where
  "digest_template cs ws = \<lparr>at_name = ''Sonarr'', at_webhook = \<lparr>wh_recommended_events = [], wh_field_mappings = [],
      wh_event_type_keys = [], wh_display_template = [], wh_display_templates = [], wh_severity_field = [],
      wh_severity_compound_field = [], wh_severity_mapping = []\<rparr>,
     at_categories = cs, at_widgets = ws,
     at_api_polling = \<lparr>pb_auth_type = [], pb_auth_header = [], pb_endpoints = []\<rparr>, at_source_path = ''sonarr.yaml''\<rparr>"

definition sample_reconciler :: reconciler where
  "sample_reconciler = \<lparr>rc_now = second_ns, rc_sql_now = second_ns, rc_uuid = (\<lambda>(p, n). p @ CHR ''/'' # n)\<rparr>"

definition old_entry :: "string \<Rightarrow> string \<Rightarrow> registry_entry" where
  "old_entry pid name = \<lparr>dr_id = name, dr_profile_id = pid, dr_source = ''webhook'', dr_entry_type = ''category'',
     dr_name = name, dr_label = name, dr_config = ''{}'', dr_profile_source = [], dr_active = True,
     dr_created_at = 0, dr_updated_at = 0\<rparr>"

definition registry_db :: "registry_entry list \<Rightarrow> db" where
  "registry_db es = empty_db\<lparr>d_registry := es\<rparr>"

text \<open>Of the entries of a template with one key the last one counts.\<close>

lemma fold_put_entry:
  "es \<noteq> [] \<Longrightarrow> \<forall>e \<in> set es. dr_active e \<and> entry_key e = k \<Longrightarrow> (case old of None \<Rightarrow> True | Some x \<Rightarrow> entry_key x = k)
     \<Longrightarrow> \<exists>x. fold put_entry es old = Some x \<and> entry_key x = k \<and> dr_active x
       \<and> dr_label x = dr_label (last es) \<and> dr_config x = dr_config (last es) \<and> dr_profile_source x = dr_profile_source (last es)
       \<and> (case old of None \<Rightarrow> dr_source x = dr_source (hd es) \<and> dr_entry_type x = dr_entry_type (hd es) \<and> dr_id x = dr_id (hd es)
          | Some y \<Rightarrow> dr_source x = dr_source y \<and> dr_entry_type x = dr_entry_type y \<and> dr_id x = dr_id y)"
proof (induction es arbitrary: old)
  case (Cons e es)
  let ?x = "case old of None \<Rightarrow> e | Some y \<Rightarrow> entry_merge y e"
  have put: "put_entry e old = Some ?x" by (cases old) (simp_all add: put_entry_def)
  have x: "entry_key ?x = k" "dr_active ?x" "dr_label ?x = dr_label e" "dr_config ?x = dr_config e"
      "dr_profile_source ?x = dr_profile_source e"
    using Cons.prems by (auto simp: entry_merge_def entry_key_def split: option.splits)
  show ?case
  proof (cases "es = []")
    case True
    then show ?thesis using put x by (cases old) simp_all
  next
    case False
    then show ?thesis
      using Cons.IH [of "Some ?x"] Cons.prems x put by (cases old) auto
  qed
qed simp

text \<open>C9: What the reconciliation leaves of every key. A key that a loaded template declares has an active row with
  the label, configuration and source path declared last for it; identifier, source and type are those of the row
  that was there, if there was one. The row of a key that is not declared is deactivated and otherwise kept if its
  template is not loaded any more, or declares categories or widgets but not this one; it is left as it was, active
  or not, if its template is loaded but declares nothing at all. No other row appears. None of this depends on the order
  in which the templates are visited.\<close>

theorem reconcile_leaves:
  assumes "d_faults d = []" and "registry_ok d" and "distinct (map fst ts)" and "list_all (\<lambda>(pid, t). template_wf t) ts"
    and "fresh_uuids rc (declared_keys rc ts) (d_registry d)"
    and "d2 = snd (reconcile rc ts d)" and "old = lookup_row entry_key (pid, name) (d_registry d)"
  shows "fst (reconcile rc ts d) = Inr () \<and> registry_ok d2 \<and>
    (case map_of ts pid of
       None \<Rightarrow> lookup_row entry_key (pid, name) (d_registry d2) = map_option (deactivated rc) old
     | Some t \<Rightarrow>
         (if at_categories t = [] \<and> at_widgets t = [] then lookup_row entry_key (pid, name) (d_registry d2) = old
          else let es = filter (\<lambda>e. dr_name e = name) (declared_entries rc pid t) in
            (if es = [] then lookup_row entry_key (pid, name) (d_registry d2) = map_option (deactivated rc) old
             else \<exists>x. lookup_row entry_key (pid, name) (d_registry d2) = Some x \<and> dr_active x
               \<and> dr_label x = dr_label (last es) \<and> dr_config x = dr_config (last es) \<and> dr_profile_source x = dr_profile_source (last es)
               \<and> (case old of None \<Rightarrow> dr_source x = dr_source (hd es) \<and> dr_entry_type x = dr_entry_type (hd es)
                  | Some y \<Rightarrow> dr_source x = dr_source y \<and> dr_entry_type x = dr_entry_type y \<and> dr_id x = dr_id y))))"
proof -
  note rows = reconcile_rows [OF assms(1-5), of "(pid, name)", folded assms(6,7)]
  have look: "lookup_row entry_key (pid, name) (d_registry d2) = reconciled_row rc (map_of ts) (pid, name) old"
    using rows by blast
  show ?thesis
  proof (cases "map_of ts pid")
    case None
    then show ?thesis using rows look by (simp add: reconciled_row_def)
  next
    case (Some t)
    let ?es = "filter (\<lambda>e. dr_name e = name) (declared_entries rc pid t)"
    show ?thesis
    proof (cases "has_entries t \<and> ?es \<noteq> []")
      case False
      then show ?thesis using rows look Some by (auto simp: reconciled_row_def profile_row_def has_entries_def Let_def)
    next
      case True
      have es: "\<forall>e \<in> set ?es. dr_active e \<and> entry_key e = (pid, name)"
        by (auto simp: declared_entries_def category_entries_def widget_entries_def mk_entry_def entry_key_def)
      have key: "case old of None \<Rightarrow> True | Some x \<Rightarrow> entry_key x = (pid, name)"
        using lookup_row_Some [of entry_key "(pid, name)" "d_registry d"] by (auto simp: assms(7) split: option.split)
      have "reconciled_row rc (map_of ts) (pid, name) old = fold put_entry ?es old"
        using Some True by (simp add: reconciled_row_def profile_row_def Let_def)
      then obtain x where "reconciled_row rc (map_of ts) (pid, name) old = Some x" "dr_active x"
          "dr_label x = dr_label (last ?es)" "dr_config x = dr_config (last ?es)" "dr_profile_source x = dr_profile_source (last ?es)"
          "case old of None \<Rightarrow> dr_source x = dr_source (hd ?es) \<and> dr_entry_type x = dr_entry_type (hd ?es) \<and> dr_id x = dr_id (hd ?es)
           | Some y \<Rightarrow> dr_source x = dr_source y \<and> dr_entry_type x = dr_entry_type y \<and> dr_id x = dr_id y"
        using fold_put_entry [OF conjunct2 [OF True] es key] by auto
      then show ?thesis using rows look Some True by (auto simp: has_entries_def Let_def split: option.split)
    qed
  qed
qed

theorem reconcile_leaves_witness:
  "let ts = [(''sonarr'', digest_template [sample_category [] ''Grabs''] [sample_widget ''Health''])];
       d = snd (reconcile sample_reconciler ts (registry_db [old_entry ''sonarr'' ''grabs'', old_entry ''sonarr'' ''gone'',
             old_entry ''watchtower'' ''updates'']))
   in map_option dr_active (lookup_row entry_key (''sonarr'', ''grabs'') (d_registry d)) = Some True
    \<and> map_option dr_active (lookup_row entry_key (''sonarr'', ''gone'') (d_registry d)) = Some False
    \<and> map_option dr_active (lookup_row entry_key (''watchtower'', ''updates'') (d_registry d)) = Some False"
proof -
  let ?t = "digest_template [sample_category [] ''Grabs''] [sample_widget ''Health'']"
  let ?ts = "[(''sonarr'', ?t)]"
  let ?d = "registry_db [old_entry ''sonarr'' ''grabs'', old_entry ''sonarr'' ''gone'', old_entry ''watchtower'' ''updates'']"
  have keys: "declared_keys sample_reconciler ?ts = {(''sonarr'', ''grabs''), (''sonarr'', ''widget_health'')}"
    by code_simp
  have pre: "d_faults ?d = []" "registry_ok ?d" "distinct (map fst ?ts)" "list_all (\<lambda>(pid, t). template_wf t) ?ts"
    by code_simp+
  have "fresh_uuids sample_reconciler (declared_keys sample_reconciler ?ts) (d_registry ?d)"
    unfolding keys by (simp add: fresh_uuids_def sample_reconciler_def registry_db_def old_entry_def inj_on_def)
  note effect = reconcile_leaves [OF pre this refl refl]
  have grabs: "filter (\<lambda>e. dr_name e = ''grabs'') (declared_entries sample_reconciler ''sonarr'' ?t) \<noteq> []"
    and gone: "filter (\<lambda>e. dr_name e = ''gone'') (declared_entries sample_reconciler ''sonarr'' ?t) = []"
    and digest: "at_categories ?t \<noteq> []"
    and loaded: "map_of ?ts ''sonarr'' = Some ?t" "map_of ?ts ''watchtower'' = None"
    and olds: "map_option dr_active (map_option (deactivated sample_reconciler) (lookup_row entry_key (''sonarr'', ''gone'') (d_registry ?d))) = Some False"
      "map_option dr_active (map_option (deactivated sample_reconciler) (lookup_row entry_key (''watchtower'', ''updates'') (d_registry ?d))) = Some False"
    by code_simp+
  let ?d2 = "snd (reconcile sample_reconciler ?ts ?d)"
  have "map_option dr_active (lookup_row entry_key (''sonarr'', ''grabs'') (d_registry ?d2)) = Some True"
    using effect [of "''sonarr''" "''grabs''"] grabs digest unfolding loaded option.case Let_def by fastforce
  moreover have "map_option dr_active (lookup_row entry_key (''sonarr'', ''gone'') (d_registry ?d2)) = Some False"
    using effect [of "''sonarr''" "''gone''"] gone digest olds(1) unfolding loaded option.case Let_def by presburger
  moreover have "map_option dr_active (lookup_row entry_key (''watchtower'', ''updates'') (d_registry ?d2)) = Some False"
    using effect [of "''watchtower''" "''updates''"] olds(2) unfolding loaded option.case by presburger
  ultimately show ?thesis by (simp only: Let_def)
qed

section \<open>What the conflict clause and the names leave open\<close>

text \<open>The conflict clause does not write the source: an entry that a template now takes from the API stays
  a webhook entry.\<close>

lemma changed_source_is_kept:
  "let d = snd (reconcile sample_reconciler [(''sonarr'', digest_template [sample_category ''api'' ''Grabs''] [])]
             (registry_db [old_entry ''sonarr'' ''grabs'']))
   in map_option dr_source (lookup_row entry_key (''sonarr'', ''grabs'') (d_registry d)) = Some ''webhook''"
  by code_simp

text \<open>A template whose last digest entry was removed is skipped, and its old entries stay active.\<close>

lemma emptied_template_keeps_entries:
  "let d = snd (reconcile sample_reconciler [(''sonarr'', digest_template [] [])] (registry_db [old_entry ''sonarr'' ''grabs'']))
   in map_option dr_active (lookup_row entry_key (''sonarr'', ''grabs'') (d_registry d)) = Some True"
  by code_simp

text \<open>The prefix of widget names does not keep them apart from all categories.\<close>

lemma widget_replaces_category:
  "let d = snd (reconcile sample_reconciler
             [(''sonarr'', digest_template [sample_category [] ''Widget Health''] [sample_widget ''Health''])] (registry_db []))
   in map (\<lambda>e. (dr_entry_type e, dr_label e)) (d_registry d) = [(''category'', ''Health'')]"
  by code_simp

text \<open>Deleting an unknown entry is answered with a server error.\<close>

lemma delete_unknown_entry: "registry_handler_delete ''admin'' ''x'' empty_db = (Failed 500 ''database'', empty_db)"
  by code_simp

section \<open>The handlers\<close>

lemma registry_delete_ok: "registry_ok d \<Longrightarrow> registry_ok (snd (registry_delete eid d))"
proof -
  assume ok: "registry_ok d"
  obtain r d1 where q: "db_op (\<lambda>d. case lookup_row dr_id eid (d_registry d) of
      None \<Rightarrow> (Inl DbFail, d) | Some e \<Rightarrow> (Inr (dr_active e), d)) d = (r, d1)" by fastforce
  have "registry_ok (snd (db_op (\<lambda>d. case lookup_row dr_id eid (d_registry d) of
      None \<Rightarrow> (Inl DbFail, d) | Some e \<Rightarrow> (Inr (dr_active e), d)) d))"
    by (rule db_op_invariant [OF registry_ok_blind _ ok]) (simp split: option.split)
  then have ok1: "registry_ok d1" by (simp add: q)
  have "registry_ok (snd (db_op (\<lambda>d. (if eid \<in> dr_id ` set (d_registry d) then Inr () else Inl NotFound,
      d\<lparr>d_registry := filter (\<lambda>e. dr_id e \<noteq> eid) (d_registry d)\<rparr>)) d1))"
    by (rule db_op_invariant [OF registry_ok_blind _ ok1]) (simp add: filter_registry_ok)
  then show ?thesis using ok1 by (cases r) (simp_all add: registry_delete_def q)
qed

lemma registry_set_active_by_id_ok: "registry_ok d \<Longrightarrow> registry_ok (snd (registry_set_active_by_id now eid a d))"
  unfolding registry_set_active_by_id_def
  by (rule db_op_invariant [OF registry_ok_blind]) (simp_all add: update_active_ok)

lemma registry_delete_all_inactive_ok: "registry_ok d \<Longrightarrow> registry_ok (snd (registry_delete_all_inactive d))"
  unfolding registry_delete_all_inactive_def
  by (rule db_op_invariant [OF registry_ok_blind]) (simp_all add: filter_registry_ok)

text \<open>An active entry is never deleted, by the handler or by the job, and nobody but an administrator changes
  the registry.\<close>

lemma active_entries_survive:
  assumes "d_faults d = []" and "registry_ok d" and "e \<in> set (d_registry d)" and "dr_active e"
  shows "e \<in> set (d_registry (snd (registry_handler_delete role eid d)))
    \<and> e \<in> set (d_registry (snd (registry_delete_all_inactive d)))"
proof -
  have "e \<in> set (d_registry (snd (registry_delete eid d)))"
  proof (cases "lookup_row dr_id eid (d_registry d)")
    case (Some x)
    show ?thesis
    proof (cases "dr_active x")
      case False
      have "dr_id e \<noteq> eid"
        using lookup_row_distinct [of dr_id "d_registry d" e] assms Some False by (auto simp: registry_ok_def)
      then show ?thesis using assms Some False by (simp add: registry_delete_def)
    qed (use assms Some in \<open>simp add: registry_delete_def\<close>)
  qed (use assms in \<open>simp add: registry_delete_def\<close>)
  then have "e \<in> set (d_registry (snd (registry_handler_delete role eid d)))"
    using assms(3) by (cases "registry_delete eid d") (auto simp: registry_handler_delete_def split: sum.split)
  moreover have "e \<in> set (d_registry (snd (registry_delete_all_inactive d)))"
    using assms by (simp add: registry_delete_all_inactive_def)
  ultimately show ?thesis ..
qed

lemma members_change_nothing:
  "role \<noteq> ''admin'' \<Longrightarrow> snd (registry_handler_set_active now role eid body d) = d \<and> snd (registry_handler_delete role eid d) = d
    \<and> snd (registry_handler_list role d) = d"
  by (simp add: registry_handler_set_active_def registry_handler_delete_def registry_handler_list_def)

end
