(* ===== verification/Calendar.thy ===== *)
theory Calendar
  imports Prelude
begin

text \<open>
  What the scheduled jobs use of Go's package time: the UTC calendar. A day is numbered from the Unix
  epoch, a month by \<open>12 * year + month - 1\<close>, so that \<open>AddDate(0, -1, 0)\<close> from the first of a month is the
  first of the month before.
\<close>

section \<open>Days, months, years\<close>

definition is_leap :: "int \<Rightarrow> bool" where
  "is_leap y = (y mod 4 = 0 \<and> (y mod 100 \<noteq> 0 \<or> y mod 400 = 0))"

text \<open>The day number of January 1st.\<close>

definition year_start :: "int \<Rightarrow> int" where
  "year_start y = 365 * (y - 1) + (y - 1) div 4 - (y - 1) div 100 + (y - 1) div 400 - 719162"

definition days_before :: "bool \<Rightarrow> nat \<Rightarrow> int" where
  "days_before leap m = [0, 31, 59, 90, 120, 151, 181, 212, 243, 273, 304, 334, 365] ! m + (if leap \<and> 2 \<le> m then 1 else 0)"

definition month_start :: "int \<Rightarrow> int" where
  "month_start mi = year_start (mi div 12) + days_before (is_leap (mi div 12)) (nat (mi mod 12))"

text \<open>The date of a day, by the cycles of 400, 100, 4 and 1 years as \<open>absDate\<close> does it.\<close>

definition year_of_day :: "int \<Rightarrow> int" where
  "year_of_day n = (let d = n + 719162;
       n400 = d div 146097; d1 = d mod 146097;
       n100 = min 3 (d1 div 36524); d2 = d1 - 36524 * n100;
       n4 = d2 div 1461; d3 = d2 mod 1461;
       n1 = min 3 (d3 div 365) in
     400 * n400 + 100 * n100 + 4 * n4 + n1 + 1)"

definition month_in_year :: "bool \<Rightarrow> int \<Rightarrow> nat" where
  "month_in_year leap yday = length (filter (\<lambda>m. days_before leap m \<le> yday) [1..<12])"

definition month_of_day :: "int \<Rightarrow> int" where
  "month_of_day n = (let y = year_of_day n in 12 * y + int (month_in_year (is_leap y) (n - year_start y)))"

definition day_of_month :: "int \<Rightarrow> int" where
  "day_of_month n = n - month_start (month_of_day n) + 1"

definition day_of :: "go_time \<Rightarrow> int" where
  "day_of t = t div day_ns"

section \<open>Lemmas\<close>

lemma leap_arith:
  "(P \<Longrightarrow> Q) \<Longrightarrow> (Q \<Longrightarrow> R) \<Longrightarrow>
   (365 :: int) + (if R then 1 else 0) - (if Q then 1 else 0) + (if P then 1 else 0)
     = (if (if P then True else if Q then False else R) then 366 else 365)"
  by (cases P; cases Q; cases R) simp_all

lemma year_length: "year_start (y + 1) = year_start y + (if is_leap y then 366 else 365)"
proof -
  have q: "y div k - (y - 1) div k = (if y mod k = 0 then 1 else 0)" if "0 < k" for k :: int
  proof -
    have "(y - 1) div k = (k * (y div k) + (y mod k - 1)) div k" by (simp add: algebra_simps)
    also have "\<dots> = y div k + (y mod k - 1) div k" using that by simp
    also have "(y mod k - 1) div k = (if y mod k = 0 then -1 else 0)"
    proof (cases "y mod k = 0")
      case False
      then have "0 \<le> y mod k - 1" "y mod k - 1 < k"
        using that pos_mod_sign [of k y] pos_mod_bound [of k y] by linarith+
      then show ?thesis using False by (simp add: div_pos_pos_trivial)
    qed (use that in \<open>simp add: div_eq_minus1\<close>)
    finally show ?thesis by simp
  qed
  have "y mod 100 = 0" if "y mod 400 = 0"
  proof -
    have "(100 :: int) dvd 400" by simp
    then show ?thesis using that by (meson dvd_eq_mod_eq_0 dvd_trans)
  qed
  moreover have "y mod 4 = 0" if "y mod 100 = 0"
  proof -
    have "(4 :: int) dvd 100" by simp
    then show ?thesis using that by (meson dvd_eq_mod_eq_0 dvd_trans)
  qed
  ultimately have leap: "is_leap y \<longleftrightarrow> (if y mod 400 = 0 then True else if y mod 100 = 0 then False else y mod 4 = 0)"
    by (auto simp: is_leap_def)
  have "year_start (y + 1) - year_start y = 365 + (y div 4 - (y - 1) div 4) - (y div 100 - (y - 1) div 100)
      + (y div 400 - (y - 1) div 400)"
    by (simp add: year_start_def)
  also have "\<dots> = 365 + (if y mod 4 = 0 then 1 else 0) - (if y mod 100 = 0 then 1 else 0) + (if y mod 400 = 0 then 1 else 0)"
    by (simp only: q zero_less_numeral)
  also have "\<dots> = (if is_leap y then 366 else 365)"
    unfolding leap by (rule leap_arith) fact+
  finally show ?thesis by simp
qed

lemma cycle_year:
  fixes a b c e :: int
  assumes "0 \<le> b" "b \<le> 3" "0 \<le> c" "c \<le> 24" "0 \<le> e" "e \<le> 3"
  shows "year_start (400 * a + 100 * b + 4 * c + e + 1) = 146097 * a + 36524 * b + 1461 * c + 365 * e - 719162"
proof -
  let ?y = "400 * a + 100 * b + 4 * c + e"
  have "?y div 4 = 100 * a + 25 * b + c" by (rule int_div_pos_eq [where r = e]) (use assms in auto)
  moreover have "?y div 100 = 4 * a + b" by (rule int_div_pos_eq [where r = "4 * c + e"]) (use assms in auto)
  moreover have "?y div 400 = a" by (rule int_div_pos_eq [where r = "100 * b + 4 * c + e"]) (use assms in auto)
  ultimately show ?thesis by (simp add: year_start_def)
qed



lemma cycle_leap:
  fixes a b c e :: int
  assumes "0 \<le> b" "b \<le> 3" "0 \<le> c" "c \<le> 24" "0 \<le> e" "e \<le> 3"
  shows "is_leap (400 * a + 100 * b + 4 * c + e + 1) = (e = 3 \<and> (c \<noteq> 24 \<or> b = 3))"
proof -
  let ?y = "400 * a + 100 * b + 4 * c + e + 1"
  have "?y = (e + 1) + 4 * (100 * a + 25 * b + c)" "?y = (4 * c + e + 1) + 100 * (4 * a + b)"
    "?y = (100 * b + 4 * c + e + 1) + 400 * a" by simp_all
  then have m: "?y mod 4 = (e + 1) mod 4" "?y mod 100 = (4 * c + e + 1) mod 100"
    "?y mod 400 = (100 * b + 4 * c + e + 1) mod 400"
    by (metis mod_mult_self2)+
  have "(e + 1) mod 4 = 0 \<longleftrightarrow> e = 3" using assms by presburger
  moreover have "(4 * c + e + 1) mod 100 = 0 \<longleftrightarrow> c = 24 \<and> e = 3"
  proof (cases "4 * c + e + 1 = 100")
    case True
    then have "c = 24 \<and> e = 3" using assms by linarith
    then show ?thesis by simp
  next
    case False
    then have "0 < 4 * c + e + 1" "4 * c + e + 1 < 100" using assms by linarith+
    then show ?thesis using False by auto
  qed
  moreover have "(100 * b + 4 * c + e + 1) mod 400 = 0 \<longleftrightarrow> b = 3 \<and> c = 24 \<and> e = 3"
  proof (cases "100 * b + 4 * c + e + 1 = 400")
    case True
    then have "b = 3 \<and> c = 24 \<and> e = 3" using assms by linarith
    then show ?thesis by simp
  next
    case False
    then have "0 < 100 * b + 4 * c + e + 1" "100 * b + 4 * c + e + 1 < 400" using assms by linarith+
    then show ?thesis using False by auto
  qed
  ultimately show ?thesis by (auto simp: is_leap_def m)
qed

lemma capped_div:
  fixes x k :: int
  assumes "0 \<le> x" and "0 < k"
  shows "0 \<le> x - k * min 3 (x div k)" and "0 \<le> min 3 (x div k)"
    and "x < 4 * k \<Longrightarrow> x - k * min 3 (x div k) < k"
    and "x - k * min 3 (x div k) < (if min 3 (x div k) = 3 then x - 3 * k + 1 else k)"
proof -
  have m: "x - k * (x div k) = x mod k" by (simp add: minus_mult_div_eq_mod)
  have r: "0 \<le> x mod k" "x mod k < k" using assms by simp_all
  have q: "0 \<le> x div k" using assms by (simp add: pos_imp_zdiv_nonneg_iff)
  show "0 \<le> min 3 (x div k)" using q by simp
  consider "x div k \<le> 3" | "4 \<le> x div k" by linarith
  then show "0 \<le> x - k * min 3 (x div k)"
  proof cases
    case 2
    then have "k * 3 \<le> k * (x div k)" using assms by (intro mult_left_mono) auto
    moreover have "k * (x div k) \<le> x" using m r by linarith
    ultimately have "k * 3 \<le> x" by linarith
    then show ?thesis using 2 by (simp add: min_def)
  qed (use m r in \<open>simp add: min_def\<close>)
  show "x - k * min 3 (x div k) < k" if "x < 4 * k"
  proof -
    have "\<not> 4 \<le> x div k"
    proof
      assume "4 \<le> x div k"
      then have "k * 4 \<le> k * (x div k)" using assms by (intro mult_left_mono) auto
      then show False using that m r by linarith
    qed
    then have "min 3 (x div k) = x div k" by linarith
    then show ?thesis using m r by simp
  qed
  show "x - k * min 3 (x div k) < (if min 3 (x div k) = 3 then x - 3 * k + 1 else k)"
    using m r q by (auto simp: min_def)
qed

lemma year_of_day_bounds: "year_start (year_of_day n) \<le> n \<and> n < year_start (year_of_day n + 1)"
proof -
  obtain a d1 where a: "a = (n + 719162) div 146097" and d1: "d1 = (n + 719162) mod 146097" by simp
  obtain b where b: "b = min 3 (d1 div 36524)" by simp
  obtain d2 where d2: "d2 = d1 - 36524 * b" by simp
  obtain c d3 where c: "c = d2 div 1461" and d3: "d3 = d2 mod 1461" by simp
  obtain e where e: "e = min 3 (d3 div 365)" by simp
  have d1b: "0 \<le> d1" "d1 < 146097" using d1 by simp_all
  have bb: "0 \<le> b" "b \<le> 3" using capped_div(2) [OF d1b(1), of 36524] b by simp_all
  have d2b: "0 \<le> d2" "d2 < (if b = 3 then d1 - 3 * 36524 + 1 else 36524)"
    using capped_div(1,4) [OF d1b(1), of 36524] unfolding d2 b by simp_all
  have split3: "d2 = 1461 * c + d3" unfolding c d3 by simp
  have d3b: "0 \<le> d3" "d3 < 1461" using d3 by simp_all
  have d2c: "d2 < 36525" "b \<noteq> 3 \<Longrightarrow> d2 < 36524" using d2b d1b by (auto split: if_splits)
  have cb: "0 \<le> c" "c \<le> 24" using split3 d3b d2b(1) d2c by linarith+
  have eb: "0 \<le> e" "e \<le> 3" using capped_div(2) [OF d3b(1), of 365] e by simp_all
  have y: "year_of_day n = 400 * a + 100 * b + 4 * c + e + 1"
    by (simp only: year_of_day_def Let_def a b c d2 d3 e d1)
  have st: "year_start (year_of_day n) = 146097 * a + 36524 * b + 1461 * c + 365 * e - 719162"
    unfolding y by (rule cycle_year [OF bb cb eb])
  have len: "year_start (year_of_day n + 1) = year_start (year_of_day n) + (if e = 3 \<and> (c \<noteq> 24 \<or> b = 3) then 366 else 365)"
    using year_length [of "year_of_day n"] cycle_leap [OF bb cb eb, of a] by (simp add: y)
  have "n + 719162 = 146097 * a + d1" unfolding a d1 by simp
  then have n: "n = year_start (year_of_day n) + (d3 - 365 * e)" using split3 st d2 by linarith
  have low: "0 \<le> d3 - 365 * e" using capped_div(1) [OF d3b(1), of 365] e by simp
  have high: "d3 - 365 * e < (if e = 3 then d3 - 3 * 365 + 1 else 365)"
    using capped_div(4) [OF d3b(1), of 365] unfolding e by simp
  have "d3 - 365 * e < (if e = 3 \<and> (c \<noteq> 24 \<or> b = 3) then 366 else 365)"
  proof (cases "e = 3 \<and> c = 24 \<and> b \<noteq> 3")
    case True
    then have "d3 - 365 * e < 365" using d2c split3 by linarith
    then show ?thesis using True by simp
  next
    case False
    then show ?thesis using high d3b(2) by (auto split: if_splits)
  qed
  then show ?thesis using n low len by linarith
qed


lemma days_before_step:
  assumes "m < 12"
  shows "days_before leap m + 28 \<le> days_before leap (Suc m)"
proof -
  have "m = 0 \<or> m = 1 \<or> m = 2 \<or> m = 3 \<or> m = 4 \<or> m = 5 \<or> m = 6 \<or> m = 7 \<or> m = 8 \<or> m = 9 \<or> m = 10 \<or> m = 11"
    using assms by presburger
  then show ?thesis by (auto simp: days_before_def numeral_nat)
qed

lemma days_before_mono: "i \<le> j \<Longrightarrow> j \<le> 12 \<Longrightarrow> days_before leap i \<le> days_before leap j"
proof (induction j)
  case (Suc j)
  then show ?case using days_before_step [of j leap] by (cases "i = Suc j") auto
qed simp

lemma step_between: "f 0 \<le> (x :: int) \<Longrightarrow> x < f k \<Longrightarrow> \<exists>m < k. f m \<le> x \<and> x < f (Suc m)"
proof (induction k)
  case (Suc k)
  then show ?case by (cases "x < f k") (auto intro: less_SucI)
qed simp

lemma filter_upt_le: "m \<le> k \<Longrightarrow> (\<And>i. 1 \<le> i \<Longrightarrow> i < Suc k \<Longrightarrow> P i \<longleftrightarrow> i \<le> m) \<Longrightarrow> filter P [1..<Suc k] = [1..<Suc m]"
proof (induction k arbitrary: m)
  case (Suc k)
  show ?case
  proof (cases "m = Suc k")
    case True
    then have "filter P [1..<Suc (Suc k)] = [1..<Suc (Suc k)]" using Suc.prems by (simp del: upt_Suc)
    then show ?thesis using True by simp
  next
    case False
    then have "filter P [1..<Suc k] = [1..<Suc m]" using Suc by auto
    then show ?thesis using False Suc.prems by simp
  qed
qed simp

lemma month_in_year_bounds:
  assumes "0 \<le> yday" and "yday < (if leap then 366 else 365)"
  shows "month_in_year leap yday \<le> 11 \<and> days_before leap (month_in_year leap yday) \<le> yday
    \<and> yday < days_before leap (Suc (month_in_year leap yday))"
proof -
  have "days_before leap 0 \<le> yday" "yday < days_before leap 12" using assms by (auto simp: days_before_def)
  then obtain m where m: "m < 12" "days_before leap m \<le> yday" "yday < days_before leap (Suc m)"
    using step_between [of "days_before leap" yday 12] by blast
  have "days_before leap i \<le> yday \<longleftrightarrow> i \<le> m" if "i < 12" for i
    using m that days_before_mono [of i m leap] days_before_mono [of "Suc m" i leap] by linarith
  then have "filter (\<lambda>i. days_before leap i \<le> yday) [1..<Suc 11] = [1..<Suc m]"
    using m(1) by (intro filter_upt_le) auto
  then have "month_in_year leap yday = m" by (simp add: month_in_year_def)
  then show ?thesis using m by simp
qed

lemma month_start_year:
  assumes "m < 12"
  shows "month_start (12 * y + int m) = year_start y + days_before (is_leap y) m"
proof -
  have "(12 * y + int m) div 12 = y" "(12 * y + int m) mod 12 = int m" using assms by auto
  then show ?thesis by (simp add: month_start_def)
qed

lemma month_start_next:
  assumes "m < 12"
  shows "month_start (12 * y + int m + 1) = year_start y + days_before (is_leap y) (Suc m)"
proof (cases "m = 11")
  case True
  have "month_start (12 * (y + 1) + int 0) = year_start (y + 1) + days_before (is_leap (y + 1)) 0"
    by (rule month_start_year) simp
  then show ?thesis using True year_length [of y] by (simp add: days_before_def add.commute)
next
  case False
  then have "Suc m < 12" using assms by simp
  from month_start_year [OF this, of y] show ?thesis by (simp add: ac_simps)
qed

lemma month_start_step: "month_start mi + 28 \<le> month_start (mi + 1)"
proof -
  obtain m y where m: "m < 12" and mi: "mi = 12 * y + int m"
  proof
    show "nat (mi mod 12) < 12" by (simp add: nat_less_iff)
    show "mi = 12 * (mi div 12) + int (nat (mi mod 12))" by simp
  qed
  show ?thesis using days_before_step [OF m, of "is_leap y"] by (simp add: mi month_start_year [OF m] month_start_next [OF m])
qed

lemma month_start_mono: "mi < mj \<Longrightarrow> month_start mi < month_start mj"
proof -
  have "month_start mi < month_start (mi + 1 + int k)" for k
  proof (induction k)
    case 0
    then show ?case using month_start_step [of mi] by simp
  next
    case (Suc k)
    then show ?case using month_start_step [of "mi + 1 + int k"] by (simp add: algebra_simps)
  qed
  moreover assume "mi < mj"
  then have "mj = mi + 1 + int (nat (mj - mi - 1))" by simp
  ultimately show ?thesis by metis
qed

lemma month_of_day_bounds: "month_start (month_of_day n) \<le> n" "n < month_start (month_of_day n + 1)"
proof -
  let ?y = "year_of_day n"
  have y: "0 \<le> n - year_start ?y" "n - year_start ?y < (if is_leap ?y then 366 else 365)"
    using year_of_day_bounds [of n] year_length [of ?y] by (auto split: if_splits)
  note m = month_in_year_bounds [OF y]
  then have "month_in_year (is_leap ?y) (n - year_start ?y) < 12" by simp
  then show "month_start (month_of_day n) \<le> n" "n < month_start (month_of_day n + 1)"
    using m by (simp_all add: month_of_day_def Let_def month_start_year month_start_next)
qed

text \<open>The month of a day is the only one the day lies in.\<close>

lemma month_of_day_unique: "month_start mi \<le> n \<Longrightarrow> n < month_start (mi + 1) \<Longrightarrow> month_of_day n = mi"
proof (rule ccontr)
  assume in_mi: "month_start mi \<le> n" "n < month_start (mi + 1)" and "month_of_day n \<noteq> mi"
  then consider "month_of_day n + 1 \<le> mi" | "mi + 1 \<le> month_of_day n" by linarith
  then show False
  proof cases
    case 1
    then have "month_start (month_of_day n + 1) \<le> month_start mi"
      using month_start_mono [of "month_of_day n + 1" mi] by (cases "month_of_day n + 1 = mi") auto
    then show ?thesis using in_mi month_of_day_bounds(2) [of n] by simp
  next
    case 2
    then have "month_start (mi + 1) \<le> month_start (month_of_day n)"
      using month_start_mono [of "mi + 1" "month_of_day n"] by (cases "mi + 1 = month_of_day n") auto
    then show ?thesis using in_mi month_of_day_bounds(1) [of n] by simp
  qed
qed

lemma month_of_first: "month_of_day (month_start mi) = mi"
  by (rule month_of_day_unique) (use month_start_step [of mi] in auto)

lemma first_of_month_iff: "day_of_month n = 1 \<longleftrightarrow> (\<exists>mi. n = month_start mi)"
  by (auto simp: day_of_month_def month_of_first)

lemma day_of_month_bounds: "1 \<le> day_of_month n"
  using month_of_day_bounds(1) [of n] by (simp add: day_of_month_def)

lemma calendar_examples:
  "month_start (12 * 1970) = 0" "month_start (12 * 2024 + 2) = 19783" "month_of_day 19782 = 12 * 2024 + 1"
  "day_of_month 19782 = 29"
  by code_simp+

end
