(* ===== verification/Jobs.thy ===== *)
theory Jobs
  imports Calendar Rules Discovery DigestRegistry Thresholds
begin

text \<open>
  The maintenance jobs of internal/jobs: event retention (retention.go), the monthly event rollup (rollup.go
  with repo/rollups.go), the cleanup jobs (cleanup.go), the registry of jobs (registry.go) with its handlers
  (api/jobs.go), and the diagnostic events (infra_events.go, startup.go).

  A job reads the clock once; its reading is an argument. Cancellation of the context shows in the code as a
  failing statement, which \<open>d_faults\<close> covers.
\<close>

section \<open>retention.go\<close>

definition retention_windows :: "(string \<times> go_time) list" where
  "retention_windows = [(''debug'', day_ns), (''info'', 7 * day_ns), (''warn'', 30 * day_ns), (''error'', 90 * day_ns),
     (''critical'', 90 * day_ns)]"

definition rule_execution_retention :: go_time where
  "rule_execution_retention = 30 * day_ns"

definition purge_level :: "go_time \<Rightarrow> string \<times> go_time \<Rightarrow> db \<Rightarrow> unit db_result" where
  "purge_level now lw d = (case lw of (level, window) \<Rightarrow>
     case event_delete_by_level_before level (now - window) d of
       (Inl e, d1) \<Rightarrow> (Inl e, d1) | (Inr _, d1) \<Rightarrow> (Inr (), d1))"

text \<open>\<open>windows\<close> are the entries of the map in the order the range visits them.\<close>

definition run_event_retention :: "(string \<times> go_time) list \<Rightarrow> go_time \<Rightarrow> db \<Rightarrow> unit db_result" where
  "run_event_retention windows now d0 = (case each_ok (purge_level now) windows d0 of
       (Inl e, d1) \<Rightarrow> (Inl e, d1)
     | (Inr _, d1) \<Rightarrow> (Inr (), db_ignore (rule_delete_executions_before (now - rule_execution_retention) d1)))"

definition duration_until_next_2am :: "go_time \<Rightarrow> go_time" where
  "duration_until_next_2am now = (let next = day_of now * day_ns + 2 * hour_ns in
     (if next > now then next else next + day_ns) - now)"

definition duration_until_next_midnight :: "go_time \<Rightarrow> go_time" where
  "duration_until_next_midnight now = day_of now * day_ns + day_ns - now"

text \<open>The clock readings of the runs of a daily job: the first run after the delay, then one for each tick; a
  timer never fires early.\<close>

definition daily_readings :: "go_time \<Rightarrow> (nat \<Rightarrow> go_time) \<Rightarrow> bool" where
  "daily_readings first reading = (\<forall>k. first + int k * day_ns \<le> reading k \<and> reading k < first + int k * day_ns + day_ns)"

definition start_event_retention :: "(string \<times> go_time) list \<Rightarrow> go_time list \<Rightarrow> db \<Rightarrow> db" where
  "start_event_retention windows readings d = fold (\<lambda>now d. db_ignore (run_event_retention windows now d)) readings d"

section \<open>rollup.go\<close>

definition rollup_key :: "rollup \<Rightarrow> string \<times> int \<times> int \<times> string \<times> string" where
  "rollup_key r = (ro_app_id r, ro_year r, ro_month r, ro_event_type r, ro_severity r)"

definition rollup_upsert :: "rollup \<Rightarrow> db \<Rightarrow> unit db_result" where
  "rollup_upsert r = db_op (\<lambda>d. if ro_app_id r \<in> ap_id ` set (d_apps d)
     then (Inr (), d\<lparr>d_rollups := replace_row rollup_key r (d_rollups d)\<rparr>) else (Inl DbFail, d))"

definition rollup_list_by_period :: "int \<Rightarrow> int \<Rightarrow> db \<Rightarrow> rollup list db_result" where
  "rollup_list_by_period year month = db_query (\<lambda>d. order_asc ro_app_id (order_asc ro_event_type (order_asc ro_severity
     (filter (\<lambda>r. ro_year r = year \<and> ro_month r = month) (d_rollups d)))))"

text \<open>The month before the current one, and its bounds.\<close>

definition previous_month :: "go_time \<Rightarrow> int" where
  "previous_month now = month_of_day (day_of now) - 1"

definition month_begin :: "int \<Rightarrow> go_time" where
  "month_begin mi = month_start mi * day_ns"

definition rollup_row :: "int \<Rightarrow> string \<Rightarrow> event_type_count \<Rightarrow> rollup" where
  "rollup_row mi app_id c = \<lparr>ro_app_id = app_id, ro_year = mi div 12, ro_month = mi mod 12 + 1,
     ro_event_type = tc_event_type c, ro_severity = tc_level c, ro_count = tc_count c\<rparr>"

definition rollup_app :: "(string \<Rightarrow> string \<Rightarrow> string option option) \<Rightarrow> int \<Rightarrow> app_row \<Rightarrow> db \<Rightarrow> unit db_result" where
  "rollup_app jx mi a d0 =
     (case event_group_by_type_and_level jx (ap_id a) (month_begin mi) (month_begin (mi + 1)) d0 of
        (Inl e, d1) \<Rightarrow> (Inl e, d1)
      | (Inr rows, d1) \<Rightarrow> each_ok (\<lambda>c. rollup_upsert (rollup_row mi (ap_id a) c)) rows d1)"

definition run_monthly_rollup :: "(string \<Rightarrow> string \<Rightarrow> string option option) \<Rightarrow> go_time \<Rightarrow> db \<Rightarrow> unit db_result" where
  "run_monthly_rollup jx now d0 = (case app_list d0 of
       (Inl e, d1) \<Rightarrow> (Inl e, d1)
     | (Inr apps, d1) \<Rightarrow> each_ok (rollup_app jx (previous_month now)) apps d1)"

text \<open>The goroutine: one step for each time it wakes up, with the reading of the clock and what the rest of the
  program has done to the database since the step before.\<close>

definition start_monthly_rollup ::
  "(string \<Rightarrow> string \<Rightarrow> string option option) \<Rightarrow> (go_time \<times> (db \<Rightarrow> db)) list \<Rightarrow> db \<Rightarrow> db" where
  "start_monthly_rollup jx steps d = fold (\<lambda>(now, others) d. let d1 = others d in
     if day_of_month (day_of now) = 1 then db_ignore (run_monthly_rollup jx now d1) else d1) steps d"

section \<open>infra_events.go and startup.go\<close>

record poll_report =
  pr_component_id :: string
  pr_component_name :: string
  pr_source :: string
  pr_trigger :: string
  pr_status :: string
  pr_detail :: string

definition json_q :: "string \<Rightarrow> string \<Rightarrow> string" where
  "json_q k v = json_quote k @ '':'' @ go_quote v"

definition infra_event :: "string \<Rightarrow> go_time \<Rightarrow> poll_report \<Rightarrow> event" where
  "infra_event uuid now r =
     \<lparr>ev_id = uuid, ev_level = (if pr_status r = ''ok'' then ''debug'' else ''error''),
      ev_source_name = pr_component_name r, ev_source_type = ''physical_host'', ev_source_id = pr_component_id r,
      ev_title = (if pr_status r = ''ok'' then pr_source r @ '' poll completed '' @ em_dash @ '' '' @ pr_component_name r
         else if pr_detail r \<noteq> [] then pr_source r @ '' poll failed '' @ em_dash @ '' '' @ pr_component_name r @ '': '' @ pr_detail r
         else pr_source r @ '' poll failed '' @ em_dash @ '' '' @ pr_component_name r),
      ev_payload = ''{'' @ join '','' [json_q ''source'' (pr_source r), json_q ''component_id'' (pr_component_id r),
         json_q ''component_name'' (pr_component_name r), json_q ''trigger'' (pr_trigger r),
         json_q ''poll_status'' (pr_status r), json_q ''error'' (pr_detail r)] @ ''}'',
      ev_created_at = now\<rparr>"

definition emit_infra_event :: "string \<Rightarrow> go_time \<Rightarrow> poll_report \<Rightarrow> db \<Rightarrow> db" where
  "emit_infra_event uuid now r d = db_ignore (event_create (infra_event uuid now r) d)"

definition startup_event :: "string \<Rightarrow> go_time \<Rightarrow> event" where
  "startup_event uuid now = \<lparr>ev_id = uuid, ev_level = ''info'', ev_source_name = ''NORA System'',
     ev_source_type = ''system'', ev_source_id = [], ev_title = ''NORA started'',
     ev_payload = ''{'' @ json_quote ''event'' @ '':'' @ json_quote ''startup'' @ ''}'', ev_created_at = now\<rparr>"

definition emit_startup_event :: "string \<Rightarrow> go_time \<Rightarrow> db \<Rightarrow> db" where
  "emit_startup_event uuid now d = db_ignore (event_create (startup_event uuid now) d)"

section \<open>cleanup.go\<close>

record preview_item =
  pi_id :: string
  pi_label :: string
  pi_sub :: string

record cleanup_preview =
  cp_count :: nat
  cp_items :: "preview_item list"

definition cleanup_item_cap :: nat where
  "cleanup_item_cap = 200"

text \<open>The separator is a middle dot in UTF-8.\<close>

definition middle_dot :: string where
  "middle_dot = [CHR '' '', CHR 0xC2, CHR 0xB7, CHR '' '']"

definition preview_inactive_registry :: "db \<Rightarrow> cleanup_preview db_result" where
  "preview_inactive_registry d0 = (case registry_list_inactive d0 of
       (Inl e, d1) \<Rightarrow> (Inl e, d1)
     | (Inr es, d1) \<Rightarrow> (Inr \<lparr>cp_count = length es,
         cp_items = map (\<lambda>e. \<lparr>pi_id = dr_id e, pi_label = (if dr_label e = [] then dr_name e else dr_label e),
             pi_sub = dr_profile_id e @ middle_dot @ dr_entry_type e\<rparr>) (take cleanup_item_cap es)\<rparr>, d1))"

definition run_cleanup_inactive_registry :: "db \<Rightarrow> unit db_result" where
  "run_cleanup_inactive_registry d0 = (case registry_delete_all_inactive d0 of
       (Inl e, d1) \<Rightarrow> (Inl e, d1) | (Inr _, d1) \<Rightarrow> (Inr (), d1))"

text \<open>\<open>fmt\<close> renders a time; the zero time is not shown.\<close>

definition preview_stopped_containers :: "(go_time \<Rightarrow> string option) \<Rightarrow> db \<Rightarrow> cleanup_preview db_result" where
  "preview_stopped_containers fmt d0 = (case container_list_stopped d0 of
       (Inl e, d1) \<Rightarrow> (Inl e, d1)
     | (Inr cs, d1) \<Rightarrow> (Inr \<lparr>cp_count = length cs,
         cp_items = map (\<lambda>c. \<lparr>pi_id = dc_id c, pi_label = dc_container_name c,
             pi_sub = (case fmt (dc_last_seen_at c) of None \<Rightarrow> dc_image c
                       | Some t \<Rightarrow> dc_image c @ middle_dot @ ''last seen '' @ t)\<rparr>) (take cleanup_item_cap cs)\<rparr>, d1))"

definition run_cleanup_stopped_containers :: "db \<Rightarrow> unit db_result" where
  "run_cleanup_stopped_containers d0 = (case container_delete_all_stopped d0 of
       (Inl e, d1) \<Rightarrow> (Inl e, d1) | (Inr _, d1) \<Rightarrow> (Inr (), d1))"

section \<open>registry.go and api/jobs.go\<close>

record job_entry =
  jb_id :: string
  jb_name :: string
  jb_description :: string
  jb_category :: string
  jb_destructive :: bool
  jb_run :: "db \<Rightarrow> unit db_result"
  jb_preview :: "(db \<Rightarrow> cleanup_preview db_result) option"
  jb_last_run_at :: "go_time option"
  jb_last_run_status :: "string option"

text \<open>The registry is the list of its entries in insertion order; \<open>None\<close> is the panic on a duplicate.\<close>

definition job_register :: "job_entry \<Rightarrow> job_entry list \<Rightarrow> job_entry list option" where
  "job_register e js = (if jb_id e \<in> jb_id ` set js then None else Some (js @ [e]))"

definition job_get :: "string \<Rightarrow> job_entry list \<Rightarrow> job_entry option" where
  "job_get jid js = lookup_row jb_id jid js"

datatype job_error = UnknownJob string | JobFailed db_error

definition job_run :: "go_time \<Rightarrow> string \<Rightarrow> job_entry list \<Rightarrow> db \<Rightarrow> (job_error + unit) \<times> job_entry list \<times> db" where
  "job_run now jid js d0 = (case job_get jid js of
       None \<Rightarrow> (Inl (UnknownJob jid), js, d0)
     | Some e \<Rightarrow> (case jb_run e d0 of (r, d1) \<Rightarrow>
         ((case r of Inl err \<Rightarrow> Inl (JobFailed err) | Inr _ \<Rightarrow> Inr ()),
          update_where (\<lambda>x. jb_id x = jid) (\<lambda>x. x\<lparr>jb_last_run_at := Some now,
             jb_last_run_status := Some (case r of Inl _ \<Rightarrow> ''error'' | Inr _ \<Rightarrow> ''ok'')\<rparr>) js, d1)))"

definition jobs_handler_list :: "job_entry list \<Rightarrow> (string \<times> bool \<times> go_time option \<times> string option) list response" where
  "jobs_handler_list js = Answer 200 (map (\<lambda>e. (jb_id e, jb_destructive e, jb_last_run_at e, jb_last_run_status e)) js)"

definition jobs_handler_preview :: "string \<Rightarrow> job_entry list \<Rightarrow> db \<Rightarrow> cleanup_preview response \<times> db" where
  "jobs_handler_preview jid js d0 = (case job_get jid js of
       None \<Rightarrow> (Failed 404 (''job not found: '' @ jid), d0)
     | Some e \<Rightarrow> (if \<not> jb_destructive e \<or> jb_preview e = None
         then (Failed 400 ''job is not a destructive cleanup job'', d0)
         else case the (jb_preview e) d0 of
           (Inl _, d1) \<Rightarrow> (Failed 500 ''database'', d1) | (Inr p, d1) \<Rightarrow> (Answer 200 p, d1)))"

definition jobs_handler_run :: "go_time \<Rightarrow> string \<Rightarrow> job_entry list \<Rightarrow> db \<Rightarrow> string response \<times> job_entry list \<times> db" where
  "jobs_handler_run now jid js d0 = (case job_get jid js of
       None \<Rightarrow> (Failed 404 (''job not found: '' @ jid), js, d0)
     | Some _ \<Rightarrow> (case job_run now jid js d0 of
           (Inl _, js1, d1) \<Rightarrow> (Answer 200 ''error'', js1, d1) | (Inr _, js1, d1) \<Rightarrow> (Answer 200 ''ok'', js1, d1)))"

section \<open>Retention\<close>

text \<open>An event is within the retention window of its level; a level without a window is kept for ever.\<close>

definition within_retention :: "go_time \<Rightarrow> event \<Rightarrow> bool" where
  "within_retention now e = (case map_of retention_windows (ev_level e) of
       None \<Rightarrow> True | Some w \<Rightarrow> unix_secs (now - w) \<le> unix_secs (ev_created_at e))"

definition expired_by :: "go_time \<Rightarrow> (string \<times> go_time) list \<Rightarrow> event \<Rightarrow> bool" where
  "expired_by now ws e = list_ex (\<lambda>(l, w). expired_event l (now - w) e) ws"

lemma expired_within: "mset ws = mset retention_windows \<Longrightarrow> expired_by now ws e = (\<not> within_retention now e)"
proof -
  assume "mset ws = mset retention_windows"
  then have "set ws = set retention_windows" by (rule mset_eq_setD)
  then have "expired_by now ws e = expired_by now retention_windows e"
    by (simp add: expired_by_def list_ex_iff)
  also have "\<dots> = (\<not> within_retention now e)"
    by (auto simp: expired_by_def within_retention_def retention_windows_def expired_event_def)
  finally show ?thesis .
qed

lemma purge_level_events:
  "\<exists>gone. d_events (snd (purge_level now lw d)) = filter (\<lambda>e. \<not> (gone \<and> expired_by now [lw] e)) (d_events d)
    \<and> (fst (purge_level now lw d) = Inr () \<longrightarrow> gone) \<and> (d_faults d = [] \<longrightarrow> fst (purge_level now lw d) = Inr ()
        \<and> d_faults (snd (purge_level now lw d)) = [])"
proof -
  obtain l w where lw: "lw = (l, w)" by fastforce
  have "d_faults d = [] \<or> (\<exists>b bs. d_faults d = b # bs)" by (cases "d_faults d") auto
  then show ?thesis
    by (elim disjE exE; (intro exI [of _ "fst (purge_level now lw d) = Inr ()"])?)
      (auto simp: lw purge_level_def event_delete_by_level_before_def db_op_def expired_by_def)
qed

lemma purge_levels_events:
  "\<exists>keep. d_events (snd (each_ok (purge_level now) ws d)) = filter keep (d_events d)
    \<and> (\<forall>e. \<not> expired_by now ws e \<longrightarrow> keep e)
    \<and> (fst (each_ok (purge_level now) ws d) = Inr () \<longrightarrow> keep = (\<lambda>e. \<not> expired_by now ws e))
    \<and> (d_faults d = [] \<longrightarrow> fst (each_ok (purge_level now) ws d) = Inr () \<and> d_faults (snd (each_ok (purge_level now) ws d)) = [])"
proof (induction ws arbitrary: d)
  case Nil
  then show ?case by (intro exI [of _ "\<lambda>_. True"]) (simp add: expired_by_def)
next
  case (Cons lw ws)
  obtain gone where g: "d_events (snd (purge_level now lw d)) = filter (\<lambda>e. \<not> (gone \<and> expired_by now [lw] e)) (d_events d)"
    "fst (purge_level now lw d) = Inr () \<longrightarrow> gone"
    "d_faults d = [] \<longrightarrow> fst (purge_level now lw d) = Inr () \<and> d_faults (snd (purge_level now lw d)) = []"
    using purge_level_events by metis
  obtain r d1 where p: "purge_level now lw d = (r, d1)" by fastforce
  have split: "expired_by now (lw # ws) e \<longleftrightarrow> expired_by now [lw] e \<or> expired_by now ws e" for e
    by (simp add: expired_by_def)
  show ?case
  proof (cases r)
    case (Inl err)
    then show ?thesis using g p
      by (intro exI [of _ "\<lambda>e. \<not> (gone \<and> expired_by now [lw] e)"]) (auto simp: split)
  next
    case (Inr u)
    obtain keep where k: "d_events (snd (each_ok (purge_level now) ws d1)) = filter keep (d_events d1)"
      "\<forall>e. \<not> expired_by now ws e \<longrightarrow> keep e"
      "fst (each_ok (purge_level now) ws d1) = Inr () \<longrightarrow> keep = (\<lambda>e. \<not> expired_by now ws e)"
      "d_faults d1 = [] \<longrightarrow> fst (each_ok (purge_level now) ws d1) = Inr () \<and> d_faults (snd (each_ok (purge_level now) ws d1)) = []"
      using Cons.IH by metis
    have "gone" using g(2) p Inr by simp
    then show ?thesis using g k p Inr
      by (intro exI [of _ "\<lambda>e. \<not> expired_by now [lw] e \<and> keep e"]) (auto simp: split)
  qed
qed

lemma delete_executions_events:
  "d_events (snd (rule_delete_executions_before t d)) = d_events d"
  by (simp add: rule_delete_executions_before_def db_op_def Let_def split: list.split)

text \<open>C31: The daily retention deletes no event that is within the window of its level, whatever statements
  fail and in whatever order the map of windows is visited; when it succeeds, exactly the events within their
  windows are left; and it succeeds when no statement fails.\<close>

theorem retention_keeps_windows:
  assumes "mset ws = mset retention_windows"
  shows "(\<forall>e \<in> set (d_events d). within_retention now e \<longrightarrow> e \<in> set (d_events (snd (run_event_retention ws now d))))
    \<and> (fst (run_event_retention ws now d) = Inr () \<longrightarrow>
         d_events (snd (run_event_retention ws now d)) = filter (within_retention now) (d_events d))
    \<and> (d_faults d = [] \<longrightarrow> fst (run_event_retention ws now d) = Inr ())"
proof -
  note ex = expired_within [OF assms]
  obtain keep where k: "d_events (snd (each_ok (purge_level now) ws d)) = filter keep (d_events d)"
    "\<forall>e. within_retention now e \<longrightarrow> keep e"
    "fst (each_ok (purge_level now) ws d) = Inr () \<longrightarrow> keep = within_retention now"
    "d_faults d = [] \<longrightarrow> fst (each_ok (purge_level now) ws d) = Inr ()"
    using purge_levels_events [of now ws d] by (auto simp: ex)
  obtain r d1 where p: "each_ok (purge_level now) ws d = (r, d1)" by fastforce
  show ?thesis
    using k p by (cases r) (auto simp: run_event_retention_def db_ignore_def delete_executions_events)
qed

definition sample_log :: "string \<Rightarrow> string \<Rightarrow> go_time \<Rightarrow> event" where
  "sample_log eid level t = \<lparr>ev_id = eid, ev_level = level, ev_source_name = ''Sonarr'', ev_source_type = ''app'',
     ev_source_id = ''a1'', ev_title = [], ev_payload = [], ev_created_at = t\<rparr>"

theorem retention_keeps_windows_witness:
  "let d = empty_db\<lparr>d_events := [sample_log ''e1'' ''info'' 0, sample_log ''e2'' ''error'' 0]\<rparr> in
     map ev_id (d_events (snd (run_event_retention retention_windows (10 * day_ns) d))) = [''e2'']"
proof -
  let ?d = "empty_db\<lparr>d_events := [sample_log ''e1'' ''info'' 0, sample_log ''e2'' ''error'' 0]\<rparr>"
  have "d_faults ?d = []" by (simp add: empty_db_def)
  then have "d_events (snd (run_event_retention retention_windows (10 * day_ns) ?d))
      = filter (within_retention (10 * day_ns)) (d_events ?d)"
    using retention_keeps_windows [OF refl, of ?d "10 * day_ns"] by blast
  moreover have "map ev_id (filter (within_retention (10 * day_ns)) (d_events ?d)) = [''e2'']" by code_simp
  ultimately show ?thesis by (simp add: Let_def)
qed

section \<open>The clock\<close>

lemma midnight_delay:
  "0 < duration_until_next_midnight now" "duration_until_next_midnight now \<le> day_ns"
  "now + duration_until_next_midnight now = (day_of now + 1) * day_ns"
proof -
  have "day_of now * day_ns \<le> now" "now < day_of now * day_ns + day_ns"
    using pos_mod_sign [of day_ns now] pos_mod_bound [of day_ns now] div_mult_mod_eq [of now day_ns]
    unfolding day_of_def by linarith+
  then show "0 < duration_until_next_midnight now" "duration_until_next_midnight now \<le> day_ns"
    by (simp_all add: duration_until_next_midnight_def)
  show "now + duration_until_next_midnight now = (day_of now + 1) * day_ns"
    by (simp add: duration_until_next_midnight_def algebra_simps)
qed


lemma day_of_between: "n * day_ns \<le> t \<Longrightarrow> t < (n + 1) * day_ns \<Longrightarrow> day_of t = n"
  unfolding day_of_def by (rule int_div_pos_eq [where r = "t - n * day_ns"]) (auto simp: algebra_simps)

lemma two_am_delay:
  "0 < duration_until_next_2am now" "duration_until_next_2am now \<le> day_ns"
  "\<exists>n. now + duration_until_next_2am now = n * day_ns + 2 * hour_ns"
proof -
  have d: "day_of now * day_ns \<le> now" "now < day_of now * day_ns + day_ns"
    using pos_mod_sign [of day_ns now] pos_mod_bound [of day_ns now] div_mult_mod_eq [of now day_ns]
    unfolding day_of_def by linarith+
  then show "0 < duration_until_next_2am now" "duration_until_next_2am now \<le> day_ns"
    by (auto simp: duration_until_next_2am_def Let_def)
  have "now + duration_until_next_2am now = day_of now * day_ns + 2 * hour_ns
      \<or> now + duration_until_next_2am now = (day_of now + 1) * day_ns + 2 * hour_ns"
    by (auto simp: duration_until_next_2am_def Let_def algebra_simps)
  then show "\<exists>n. now + duration_until_next_2am now = n * day_ns + 2 * hour_ns" by blast
qed

lemma midnight_run_day:
  assumes "daily_readings (now + duration_until_next_midnight now) reading"
  shows "day_of (reading k) = day_of now + 1 + int k"
proof (rule day_of_between)
  have "(day_of now + 1 + int k) * day_ns = now + duration_until_next_midnight now + int k * day_ns"
    unfolding midnight_delay(3) by (simp add: algebra_simps)
  moreover have "(day_of now + 1 + int k + 1) * day_ns = (day_of now + 1 + int k) * day_ns + day_ns"
    by (simp add: algebra_simps)
  moreover have "now + duration_until_next_midnight now + int k * day_ns \<le> reading k"
    "reading k < now + duration_until_next_midnight now + int k * day_ns + day_ns"
    using assms unfolding daily_readings_def by blast+
  ultimately show "(day_of now + 1 + int k) * day_ns \<le> reading k" "reading k < (day_of now + 1 + int k + 1) * day_ns"
    by linarith+
qed

text \<open>The run on the first of a month is the only one that rolls up the month before.\<close>

lemma month_run:
  assumes "daily_readings (now + duration_until_next_midnight now) reading" and "day_of now < month_start (mi + 1)"
  shows "day_of_month (day_of (reading k)) = 1 \<and> previous_month (reading k) = mi
    \<longleftrightarrow> k = nat (month_start (mi + 1) - day_of now - 1)"
proof
  assume "day_of_month (day_of (reading k)) = 1 \<and> previous_month (reading k) = mi"
  then have "day_of_month (day_of (reading k)) = 1" "month_of_day (day_of (reading k)) = mi + 1"
    by (auto simp: previous_month_def)
  then have "day_of (reading k) = month_start (mi + 1)" by (simp add: day_of_month_def)
  then show "k = nat (month_start (mi + 1) - day_of now - 1)" using midnight_run_day [OF assms(1), of k] by simp
next
  assume "k = nat (month_start (mi + 1) - day_of now - 1)"
  then have "day_of (reading k) = month_start (mi + 1)" using midnight_run_day [OF assms(1), of k] assms(2) by simp
  then show "day_of_month (day_of (reading k)) = 1 \<and> previous_month (reading k) = mi"
    by (simp add: previous_month_def month_of_first day_of_month_def)
qed

section \<open>The monthly rollup\<close>

definition event_type_of :: "(string \<Rightarrow> string \<Rightarrow> string option option) \<Rightarrow> event \<Rightarrow> string" where
  "event_type_of jx e = (case jx (ev_payload e) ''$.event_type'' of Some (Some t) \<Rightarrow> t | _ \<Rightarrow> [])"

definition month_count :: "(string \<Rightarrow> string \<Rightarrow> string option option) \<Rightarrow> int \<Rightarrow> event list \<Rightarrow> string \<Rightarrow> string \<Rightarrow> string \<Rightarrow> nat" where
  "month_count jx mi es a t l = length (filter (\<lambda>e. app_window a (month_begin mi) (month_begin (mi + 1)) e
     \<and> event_type_of jx e = t \<and> ev_level e = l) es)"

lemma rollup_upserts_eq:
  assumes "d_faults d = []" and "a \<in> ap_id ` set (d_apps d)"
  shows "each_ok (\<lambda>c. rollup_upsert (rollup_row mi a c)) cs d
    = (Inr (), d\<lparr>d_rollups := fold (replace_row rollup_key) (map (rollup_row mi a) cs) (d_rollups d)\<rparr>)"
  using assms
proof (induction cs arbitrary: d)
  case (Cons c cs)
  let ?d = "d\<lparr>d_rollups := replace_row rollup_key (rollup_row mi a c) (d_rollups d)\<rparr>"
  have "rollup_upsert (rollup_row mi a c) d = (Inr (), ?d)"
    using Cons.prems by (simp add: rollup_upsert_def rollup_row_def)
  then show ?case using Cons.IH [of ?d] Cons.prems by simp
qed simp

text \<open>The groups of one app as rows, from the keys of its events.\<close>

definition month_rows :: "(string \<Rightarrow> string \<Rightarrow> string option option) \<Rightarrow> int \<Rightarrow> event list \<Rightarrow> string \<Rightarrow> rollup list" where
  "month_rows jx mi es a =
     (let ks = map (\<lambda>e. (event_type_of jx e, ev_level e)) (filter (app_window a (month_begin mi) (month_begin (mi + 1))) es) in
      map (\<lambda>(t, l). rollup_row mi a \<lparr>tc_event_type = t, tc_level = l, tc_count = count_list ks (t, l)\<rparr>) (remdups ks))"

definition payloads_ok :: "(string \<Rightarrow> string \<Rightarrow> string option option) \<Rightarrow> event list \<Rightarrow> bool" where
  "payloads_ok jx es = list_all (\<lambda>e. jx (ev_payload e) ''$.event_type'' \<noteq> None) es"

lemma rollup_app_eq:
  assumes "d_faults d = []" and "ap_id a \<in> ap_id ` set (d_apps d)" and "payloads_ok jx (d_events d)"
  shows "rollup_app jx mi a d
    = (Inr (), d\<lparr>d_rollups := fold (replace_row rollup_key) (month_rows jx mi (d_events d) (ap_id a)) (d_rollups d)\<rparr>)"
proof -
  have none: "\<not> (\<exists>e \<in> set (filter (app_window (ap_id a) (month_begin mi) (month_begin (mi + 1))) (d_events d)).
      jx (ev_payload e) ''$.event_type'' = None)"
    using assms(3) by (auto simp: payloads_ok_def list_all_iff)
  show ?thesis
    using assms(1,2) none
    by (simp add: rollup_app_def event_group_by_type_and_level_def rollup_upserts_eq month_rows_def Let_def
        event_type_of_def [symmetric] case_prod_unfold comp_def)
qed

lemma count_list_filter: "count_list (map f xs) y = length (filter (\<lambda>x. f x = y) xs)"
  by (induction xs) auto

lemma lookup_month_rows:
  "lookup_row rollup_key k (rev (month_rows jx mi es a)) = (case k of (b, y, m, t, l) \<Rightarrow>
     if b = a \<and> y = mi div 12 \<and> m = mi mod 12 + 1 \<and> month_count jx mi es a t l \<noteq> 0
     then Some (rollup_row mi a \<lparr>tc_event_type = t, tc_level = l, tc_count = month_count jx mi es a t l\<rparr>) else None)"
proof -
  obtain b y m t l where k: "k = (b, y, m, t, l)" by (metis prod_cases5)
  let ?ks = "map (\<lambda>e. (event_type_of jx e, ev_level e)) (filter (app_window a (month_begin mi) (month_begin (mi + 1))) es)"
  let ?row = "\<lambda>(t, l). rollup_row mi a \<lparr>tc_event_type = t, tc_level = l, tc_count = count_list ?ks (t, l)\<rparr>"
  have rows: "month_rows jx mi es a = map ?row (remdups ?ks)" by (simp add: month_rows_def Let_def)
  have key: "rollup_key (?row p) = (a, mi div 12, mi mod 12 + 1, fst p, snd p)" for p
    by (cases p) (simp add: rollup_key_def rollup_row_def)
  have dist: "distinct (map rollup_key (rev (month_rows jx mi es a)))"
    unfolding rows by (auto simp: distinct_map inj_on_def rollup_key_def rollup_row_def split: prod.splits)
  have count: "month_count jx mi es a t l = count_list ?ks (t, l)"
    by (simp add: month_count_def count_list_filter filter_comp)
  show ?thesis
  proof (cases "b = a \<and> y = mi div 12 \<and> m = mi mod 12 + 1 \<and> month_count jx mi es a t l \<noteq> 0")
    case True
    then have "count_list ?ks (t, l) \<noteq> 0" using count by simp
    then have "(t, l) \<in> set ?ks" by (metis count_notin)
    then have "?row (t, l) \<in> set (rev (month_rows jx mi es a))" unfolding rows by force
    from lookup_row_distinct [OF dist this] show ?thesis using True key [of "(t, l)"] by (simp add: k count)
  next
    case False
    have "k \<notin> rollup_key ` set (rev (month_rows jx mi es a))"
    proof
      assume "k \<in> rollup_key ` set (rev (month_rows jx mi es a))"
      then obtain p where "p \<in> set ?ks" "k = rollup_key (?row p)" unfolding rows by auto
      then have "b = a \<and> y = mi div 12 \<and> m = mi mod 12 + 1" "(t, l) \<in> set ?ks" using key [of p] by (auto simp: k)
      then show False using False count by (simp add: count_list_0_iff)
    qed
    then have "lookup_row rollup_key k (rev (month_rows jx mi es a)) = None" by (simp only: lookup_row_None not_False_eq_True)
    then show ?thesis using False by (simp only: k prod.case if_False)
  qed
qed


lemma rollup_apps_eq:
  assumes "d_faults d = []" and "ap_id ` set as \<subseteq> ap_id ` set (d_apps d)" and "payloads_ok jx (d_events d)"
  shows "each_ok (rollup_app jx mi) as d
    = (Inr (), d\<lparr>d_rollups := fold (\<lambda>a. fold (replace_row rollup_key) (month_rows jx mi (d_events d) (ap_id a))) as (d_rollups d)\<rparr>)"
  using assms
proof (induction as arbitrary: d)
  case (Cons a as)
  let ?d = "d\<lparr>d_rollups := fold (replace_row rollup_key) (month_rows jx mi (d_events d) (ap_id a)) (d_rollups d)\<rparr>"
  have "rollup_app jx mi a d = (Inr (), ?d)" using rollup_app_eq [of d a jx mi] Cons.prems by auto
  then show ?case using Cons.IH [of ?d] Cons.prems by simp
qed simp

text \<open>The row a key has after the rollup of a month.\<close>

definition rolled_row :: "(string \<Rightarrow> string \<Rightarrow> string option option) \<Rightarrow> int \<Rightarrow> db \<Rightarrow> string \<times> int \<times> int \<times> string \<times> string \<Rightarrow> rollup option" where
  "rolled_row jx mi d k = (case k of (a, y, m, t, l) \<Rightarrow>
     if a \<in> ap_id ` set (d_apps d) \<and> y = mi div 12 \<and> m = mi mod 12 + 1 \<and> month_count jx mi (d_events d) a t l \<noteq> 0
     then Some (rollup_row mi a \<lparr>tc_event_type = t, tc_level = l, tc_count = month_count jx mi (d_events d) a t l\<rparr>)
     else lookup_row rollup_key k (d_rollups d))"

lemma lookup_rolled_apps:
  "lookup_row rollup_key (a, y, m, t, l) (fold (\<lambda>a. fold (replace_row rollup_key) (month_rows jx mi es (ap_id a))) as rs)
    = (if a \<in> ap_id ` set as \<and> y = mi div 12 \<and> m = mi mod 12 + 1 \<and> month_count jx mi es a t l \<noteq> 0
       then Some (rollup_row mi a \<lparr>tc_event_type = t, tc_level = l, tc_count = month_count jx mi es a t l\<rparr>)
       else lookup_row rollup_key (a, y, m, t, l) rs)"
  by (induction as arbitrary: rs) (auto simp: lookup_replaces lookup_month_rows split: option.split)

lemma monthly_run:
  assumes "d_faults d = []" and "payloads_ok jx (d_events d)"
  shows "run_monthly_rollup jx now d = (Inr (), d\<lparr>d_rollups := fold (\<lambda>a. fold (replace_row rollup_key)
      (month_rows jx (previous_month now) (d_events d) (ap_id a))) (order_asc ap_created_at (d_apps d)) (d_rollups d)\<rparr>)"
  using assms rollup_apps_eq [of d "order_asc ap_created_at (d_apps d)" jx] by (simp add: run_monthly_rollup_def app_list_def)

text \<open>The monthly rollup writes, for every app, event type and severity that occurred in the previous calendar month,
  one row with the number of the app's events of that kind that are still stored; every other row stays as it was.
  Running it again changes nothing.\<close>

lemma monthly_rollup_counts:
  assumes "d_faults d = []" and "payloads_ok jx (d_events d)"
  shows "fst (run_monthly_rollup jx now d) = Inr ()
    \<and> lookup_row rollup_key k (d_rollups (snd (run_monthly_rollup jx now d))) = rolled_row jx (previous_month now) d k
    \<and> d_events (snd (run_monthly_rollup jx now d)) = d_events d
    \<and> lookup_row rollup_key k (d_rollups (snd (run_monthly_rollup jx now (snd (run_monthly_rollup jx now d)))))
        = lookup_row rollup_key k (d_rollups (snd (run_monthly_rollup jx now d)))"
proof -
  obtain a y m t l where k: "k = (a, y, m, t, l)" by (metis prod_cases5)
  let ?d = "snd (run_monthly_rollup jx now d)"
  have pre: "d_faults ?d = []" "payloads_ok jx (d_events ?d)" using assms by (simp_all add: monthly_run)
  show ?thesis
    using assms monthly_run [OF pre] by (simp add: monthly_run k rolled_row_def lookup_rolled_apps)
qed

text \<open>A database that answers, with payloads the JSON functions of SQLite accept.\<close>

definition rollup_ready :: "(string \<Rightarrow> string \<Rightarrow> string option option) \<Rightarrow> db \<Rightarrow> bool" where
  "rollup_ready jx d = (d_faults d = [] \<and> payloads_ok jx (d_events d))"

definition rollup_step :: "(string \<Rightarrow> string \<Rightarrow> string option option) \<Rightarrow> go_time \<Rightarrow> db \<Rightarrow> db" where
  "rollup_step jx now d = (if day_of_month (day_of now) = 1 then db_ignore (run_monthly_rollup jx now d) else d)"

lemma rollup_step_ready: "rollup_ready jx d \<Longrightarrow> rollup_ready jx (rollup_step jx now d)"
  by (simp add: rollup_step_def rollup_ready_def db_ignore_def monthly_run)

lemma rollup_step_row:
  assumes "rollup_ready jx d"
  shows "lookup_row rollup_key (a, mi div 12, mi mod 12 + 1, t, l) (d_rollups (rollup_step jx now d)) =
    (if day_of_month (day_of now) = 1 \<and> previous_month now = mi then rolled_row jx mi d (a, mi div 12, mi mod 12 + 1, t, l)
     else lookup_row rollup_key (a, mi div 12, mi mod 12 + 1, t, l) (d_rollups d))"
proof -
  have "previous_month now = mi" if "mi div 12 = previous_month now div 12" "mi mod 12 = previous_month now mod 12"
    using that by (metis div_mult_mod_eq)
  then show ?thesis
    using assms by (auto simp: rollup_step_def rollup_ready_def db_ignore_def monthly_rollup_counts rolled_row_def)
qed

lemma start_monthly_rollup_steps:
  "start_monthly_rollup jx (map (\<lambda>j. (reading j, others j)) js) d = fold (\<lambda>j d. rollup_step jx (reading j) (others j d)) js d"
  by (induction js arbitrary: d) (simp_all add: start_monthly_rollup_def rollup_step_def Let_def)

lemma fold_rollups_ready:
  "rollup_ready jx d \<Longrightarrow> (\<And>j x. rollup_ready jx x \<Longrightarrow> rollup_ready jx (others j x))
    \<Longrightarrow> rollup_ready jx (fold (\<lambda>j d. rollup_step jx (reading j) (others j d)) js d)"
  by (induction js arbitrary: d) (simp_all add: rollup_step_ready)

text \<open>C30: Every month that ends after the process has started is rolled up. When the goroutine has woken up often enough
  to pass the end of the month, a row of the table holds, for every app there was at the first midnight of the next month
  and every event type and severity, the number of the app's events of that kind in the month that were stored then; keys
  without such an event keep the row they had. It makes no difference how late in its day each timer fires, and no
  later run changes these rows. The rest of the program may do anything between the runs that keeps the payloads readable
  and, after the month's run, leaves the row alone.\<close>

theorem every_month_is_rolled_up:
  assumes "daily_readings (now + duration_until_next_midnight now) reading"
    and "day_of now < month_start (mi + 1)" and "k = nat (month_start (mi + 1) - day_of now - 1)" and "k < days"
    and "rollup_ready jx d" and "\<And>j x. rollup_ready jx x \<Longrightarrow> rollup_ready jx (others j x)"
    and "key = (a, mi div 12, mi mod 12 + 1, t, l)"
    and "\<And>j x. k < j \<Longrightarrow> lookup_row rollup_key key (d_rollups (others j x)) = lookup_row rollup_key key (d_rollups x)"
    and "run = (\<lambda>n. start_monthly_rollup jx (map (\<lambda>j. (reading j, others j)) [0..<n]) d)"
    and "dk = others k (run k)"
  shows "lookup_row rollup_key key (d_rollups (run days)) =
    (if a \<in> ap_id ` set (d_apps dk) \<and> month_count jx mi (d_events dk) a t l \<noteq> 0
     then Some \<lparr>ro_app_id = a, ro_year = mi div 12, ro_month = mi mod 12 + 1, ro_event_type = t, ro_severity = l,
       ro_count = month_count jx mi (d_events dk) a t l\<rparr>
     else lookup_row rollup_key key (d_rollups dk))"
proof -
  let ?step = "\<lambda>j d. rollup_step jx (reading j) (others j d)"
  have run: "run n = fold ?step [0..<n] d" for n unfolding assms(9) by (rule start_monthly_rollup_steps)
  have ready: "rollup_ready jx (fold ?step js d)" for js by (rule fold_rollups_ready [OF assms(5,6)])
  note once = month_run [OF assms(1,2)]
  have "rollup_ready jx dk" unfolding assms(10) run by (rule assms(6) [OF ready])
  then have at_k: "lookup_row rollup_key key (d_rollups (run (Suc k))) = rolled_row jx mi dk key"
    using once [of k] assms(3) unfolding assms(7) by (simp add: run assms(10) rollup_step_row)
  have later: "lookup_row rollup_key key (d_rollups (run n)) = lookup_row rollup_key key (d_rollups (run (Suc k)))" if "Suc k \<le> n" for n
    using that
  proof (induction n rule: nat_induct_at_least)
    case (Suc n)
    have r: "rollup_ready jx (others n (run n))" unfolding run by (rule assms(6) [OF ready])
    have "\<not> (day_of_month (day_of (reading n)) = 1 \<and> previous_month (reading n) = mi)"
      using once [of n] assms(3) Suc.hyps by auto
    then have "lookup_row rollup_key key (d_rollups (rollup_step jx (reading n) (others n (run n))))
        = lookup_row rollup_key key (d_rollups (others n (run n)))"
      unfolding assms(7) rollup_step_row [OF r] by (rule if_not_P)
    then show ?case using Suc assms(8) [of n "run n"] by (simp add: run)
  qed simp
  show ?thesis
    using later [of days] assms(4) unfolding at_k by (simp add: rolled_row_def assms(7) rollup_row_def)
qed

definition sample_type :: "string \<Rightarrow> string \<Rightarrow> string option option" where
  "sample_type payload path = Some (Some payload)"

definition rollup_db :: "event list \<Rightarrow> db" where
  "rollup_db es = empty_db\<lparr>d_events := es, d_apps := [\<lparr>ap_id = ''a1'', ap_name = ''Sonarr'', ap_token = ''tok'',
     ap_profile_id = [], ap_config = ''{}'', ap_rate_limit = 5, ap_created_at = 0\<rparr>]\<rparr>"

theorem every_month_is_rolled_up_witness:
  "map_option ro_count (lookup_row rollup_key (''a1'', 2024, 1, [], ''info'') (d_rollups
     (start_monthly_rollup sample_type (map (\<lambda>j. ((19754 + int j) * day_ns + 5, \<lambda>x. x)) [0..<40])
       (rollup_db [sample_log ''e1'' ''info'' (19740 * day_ns), sample_log ''e2'' ''info'' (19741 * day_ns)])))) = Some 2"
proof -
  let ?now = "19753 * day_ns + 7" let ?reading = "\<lambda>j::nat. (19754 + int j) * day_ns + 5"
  let ?d = "rollup_db [sample_log ''e1'' ''info'' (19740 * day_ns), sample_log ''e2'' ''info'' (19741 * day_ns)]"
  have d: "day_of ?now = 19753" by (simp add: day_of_def)
  then have delay: "?now + duration_until_next_midnight ?now = 19754 * day_ns" by (simp add: midnight_delay(3))
  have r: "daily_readings (?now + duration_until_next_midnight ?now) ?reading"
    unfolding delay by (auto simp: daily_readings_def algebra_simps)
  have m: "month_start (12 * 2024 + 1) = 19754" by code_simp
  have b: "day_of ?now < month_start (12 * 2024 + 1)" "0 = nat (month_start (12 * 2024 + 1) - day_of ?now - 1)"
    unfolding m d by simp_all
  have ready: "rollup_ready sample_type ?d"
    by (simp add: rollup_ready_def rollup_db_def empty_db_def payloads_ok_def sample_type_def)
  have key: "(''a1'', 2024 :: int, 1 :: int, [] :: char list, ''info'')
      = (''a1'', (12 * 2024) div 12, (12 * 2024) mod 12 + 1, [], ''info'')"
    by simp
  have start: "start_monthly_rollup sample_type (map (\<lambda>j. (?reading j, \<lambda>x. x)) [0..<0]) ?d = ?d"
    by (simp add: start_monthly_rollup_def)
  have c: "''a1'' \<in> ap_id ` set (d_apps ?d)" "month_count sample_type (12 * 2024) (d_events ?d) ''a1'' [] ''info'' = 2"
    by code_simp+
  have "0 < (40::nat)" by simp
  moreover have "\<And>(j::nat) x. rollup_ready sample_type x \<Longrightarrow> rollup_ready sample_type ((\<lambda>_ x. x) j x)"
    "\<And>(j::nat) x. 0 < j \<Longrightarrow> lookup_row rollup_key (''a1'', 2024, 1, [], ''info'') (d_rollups ((\<lambda>_ x. x) j x))
       = lookup_row rollup_key (''a1'', 2024, 1, [], ''info'') (d_rollups x)" by simp_all
  ultimately have rolled: "lookup_row rollup_key (''a1'', 2024, 1, [], ''info'') (d_rollups
      (start_monthly_rollup sample_type (map (\<lambda>j. (?reading j, \<lambda>x. x)) [0..<40]) ?d))
    = Some \<lparr>ro_app_id = ''a1'', ro_year = (12 * 2024) div 12, ro_month = (12 * 2024) mod 12 + 1, ro_event_type = [],
        ro_severity = ''info'', ro_count = month_count sample_type (12 * 2024) (d_events ?d) ''a1'' [] ''info''\<rparr>"
    using every_month_is_rolled_up [where others = "\<lambda>_ x. x" and days = 40, OF r b _ ready _ key _ refl refl, unfolded start]
      c(1) by (simp only: c(2) if_P) simp
  have "map_option ro_count (lookup_row rollup_key (''a1'', 2024, 1, [], ''info'') (d_rollups
     (start_monthly_rollup sample_type (map (\<lambda>j. (?reading j, \<lambda>x. x)) [0..<40]) ?d))) = Some 2"
    unfolding rolled c(2) by simp
  then show ?thesis .
qed

text \<open>Retention comes first for most of the month: an info event of the 5th is gone on the 20th, so the
  rollup of the month does not count it.\<close>

lemma rollup_misses_purged_events:
  "let d = rollup_db [sample_log ''e1'' ''info'' (5 * day_ns)];
       d1 = snd (run_event_retention retention_windows (20 * day_ns) d);
       d2 = snd (run_monthly_rollup sample_type (31 * day_ns) d1)
   in d_rollups d2 = []"
  by code_simp

section \<open>The cleanup jobs\<close>

definition preview_shows :: "('a \<Rightarrow> string) \<Rightarrow> cleanup_preview \<Rightarrow> 'a list \<Rightarrow> 'a list \<Rightarrow> bool" where
  "preview_shows ident p before after = (cp_count p = length before - length after
     \<and> length (cp_items p) = min cleanup_item_cap (cp_count p)
     \<and> list_all (\<lambda>i. pi_id i \<in> ident ` set before \<and> pi_id i \<notin> ident ` set after) (cp_items p))"

lemma length_filter_split: "length (filter P xs) = length xs - length (filter (\<lambda>x. \<not> P x) xs)"
  by (induction xs) (auto simp: Suc_diff_le)

lemma preview_of_filter:
  assumes "distinct (map ident xs)" and "mset ys = mset (filter P xs)"
  shows "preview_shows ident \<lparr>cp_count = length ys, cp_items = map (\<lambda>y. \<lparr>pi_id = ident y, pi_label = lab y, pi_sub = sb y\<rparr>)
    (take cleanup_item_cap ys)\<rparr> xs (filter (\<lambda>x. \<not> P x) xs)"
proof -
  have len: "length ys = length (filter P xs)" using assms(2) by (metis size_mset)
  have elems: "y \<in> set xs \<and> P y" if "y \<in> set (take cleanup_item_cap ys)" for y
    using in_set_takeD [OF that] mset_eq_setD [OF assms(2)] by simp
  have gone: "ident y \<notin> ident ` set (filter (\<lambda>x. \<not> P x) xs)" if "y \<in> set (take cleanup_item_cap ys)" for y
  proof
    assume "ident y \<in> ident ` set (filter (\<lambda>x. \<not> P x) xs)"
    then obtain x where "x \<in> set xs" "\<not> P x" "ident x = ident y" by auto
    then show False using elems [OF that] assms(1) by (auto simp: distinct_map inj_on_def)
  qed
  show ?thesis
    unfolding preview_shows_def list_all_iff
  proof (intro conjI ballI)
    show "cp_count \<lparr>cp_count = length ys, cp_items = map (\<lambda>y. \<lparr>pi_id = ident y, pi_label = lab y, pi_sub = sb y\<rparr>)
        (take cleanup_item_cap ys)\<rparr> = length xs - length (filter (\<lambda>x. \<not> P x) xs)"
      unfolding length_filter_split [of P xs, symmetric] using len by simp
    fix i assume "i \<in> set (cp_items \<lparr>cp_count = length ys, cp_items = map (\<lambda>y. \<lparr>pi_id = ident y, pi_label = lab y,
        pi_sub = sb y\<rparr>) (take cleanup_item_cap ys)\<rparr>)"
    then obtain y where y: "y \<in> set (take cleanup_item_cap ys)" "pi_id i = ident y" by auto
    show "pi_id i \<in> ident ` set xs" using elems [OF y(1)] y(2) by auto
    show "pi_id i \<notin> ident ` set (filter (\<lambda>x. \<not> P x) xs)" unfolding y(2) by (rule gone [OF y(1)])
  qed (simp add: min.commute)
qed

text \<open>What a destructive job announces is what it does: the preview counts exactly the rows the job then
  deletes, lists at most 200 of them, and every row it lists is gone afterwards; active registry entries and
  running containers stay.\<close>

theorem cleanup_does_what_it_previews:
  assumes "d_faults d = []" and "registry_ok d" and "discovery_ok d"
  shows "(\<exists>p. preview_inactive_registry d = (Inr p, d)
      \<and> preview_shows dr_id p (d_registry d) (d_registry (snd (run_cleanup_inactive_registry d))))
    \<and> d_registry (snd (run_cleanup_inactive_registry d)) = filter dr_active (d_registry d)
    \<and> (\<exists>p. preview_stopped_containers fmt d = (Inr p, d)
      \<and> preview_shows dc_id p (d_containers d) (d_containers (snd (run_cleanup_stopped_containers d))))
    \<and> d_containers (snd (run_cleanup_stopped_containers d)) = filter (\<lambda>c. dc_status c = ''running'') (d_containers d)"
proof (intro conjI)
  have reg: "d_registry (snd (run_cleanup_inactive_registry d)) = filter (\<lambda>e. \<not> \<not> dr_active e) (d_registry d)"
    using assms(1) by (simp add: run_cleanup_inactive_registry_def registry_delete_all_inactive_def)
  then show "d_registry (snd (run_cleanup_inactive_registry d)) = filter dr_active (d_registry d)" by simp
  have con: "d_containers (snd (run_cleanup_stopped_containers d)) = filter (\<lambda>c. \<not> dc_status c \<noteq> ''running'') (d_containers d)"
    using assms(1) by (simp add: run_cleanup_stopped_containers_def container_delete_all_stopped_def delete_containers_def)
  then show "d_containers (snd (run_cleanup_stopped_containers d)) = filter (\<lambda>c. dc_status c = ''running'') (d_containers d)"
    by simp
  have dist: "distinct (map dr_id (d_registry d))" using assms(2) by (simp add: registry_ok_def)
  show "\<exists>p. preview_inactive_registry d = (Inr p, d)
      \<and> preview_shows dr_id p (d_registry d) (d_registry (snd (run_cleanup_inactive_registry d)))"
    unfolding reg
    using assms(1) preview_of_filter [OF dist, of "registry_order (filter (\<lambda>e. \<not> dr_active e) (d_registry d))" "\<lambda>e. \<not> dr_active e"]
    by (auto simp: preview_inactive_registry_def registry_list_inactive_def registry_order_def)
  have cdist: "distinct (map dc_id (d_containers d))" using assms(3) by (simp add: discovery_ok_def)
  show "\<exists>p. preview_stopped_containers fmt d = (Inr p, d)
      \<and> preview_shows dc_id p (d_containers d) (d_containers (snd (run_cleanup_stopped_containers d)))"
    unfolding con
    using assms(1) preview_of_filter [OF cdist, of "order_desc dc_last_seen_at (filter (\<lambda>c. dc_status c \<noteq> ''running'') (d_containers d))"
        "\<lambda>c. dc_status c \<noteq> ''running''"]
    by (auto simp: preview_stopped_containers_def container_list_stopped_def)
qed

theorem cleanup_does_what_it_previews_witness:
  "d_registry (snd (run_cleanup_inactive_registry (registry_db [old_entry ''sonarr'' ''grabs''])))
     = [old_entry ''sonarr'' ''grabs'']"
proof -
  let ?d = "registry_db [old_entry ''sonarr'' ''grabs'']"
  have "d_faults ?d = []" "registry_ok ?d" "discovery_ok ?d" by code_simp+
  from cleanup_does_what_it_previews [OF this]
  have "d_registry (snd (run_cleanup_inactive_registry ?d)) = filter dr_active (d_registry ?d)" by blast
  then show ?thesis by (simp add: registry_db_def old_entry_def)
qed

section \<open>The job registry\<close>

fun register_all :: "job_entry list \<Rightarrow> job_entry list \<Rightarrow> job_entry list option" where
  "register_all [] js = Some js"
| "register_all (e # es) js = Option.bind (job_register e js) (register_all es)"

text \<open>Registration panics exactly on a duplicate id; otherwise the jobs are listed in insertion order and each
  is found under its id.\<close>

lemma register_all_iff:
  assumes "distinct (map jb_id js)"
  shows "register_all es js = (if distinct (map jb_id (js @ es)) then Some (js @ es) else None)"
  using assms
proof (induction es arbitrary: js)
  case (Cons e es)
  show ?case
  proof (cases "jb_id e \<in> jb_id ` set js")
    case True
    then show ?thesis by (auto simp: job_register_def)
  next
    case False
    then have "distinct (map jb_id (js @ [e]))" using Cons.prems by auto
    then show ?thesis using Cons.IH [of "js @ [e]"] False by (simp add: job_register_def)
  qed
qed simp

text \<open>A run records its outcome on the job that was run and on no other, and its only effect on the database
  is the job's own; an unknown id does nothing.\<close>

lemma job_run_records:
  assumes "distinct (map jb_id js)"
  shows "job_get jid (fst (snd (job_run now jid js d))) = map_option (\<lambda>e. e\<lparr>jb_last_run_at := Some now,
      jb_last_run_status := Some (case fst (jb_run e d) of Inl _ \<Rightarrow> ''error'' | Inr _ \<Rightarrow> ''ok'')\<rparr>) (job_get jid js)
    \<and> snd (snd (job_run now jid js d)) = (case job_get jid js of None \<Rightarrow> d | Some e \<Rightarrow> snd (jb_run e d))
    \<and> (k \<noteq> jid \<longrightarrow> job_get k (fst (snd (job_run now jid js d))) = job_get k js)"
proof (cases "job_get jid js")
  case None
  then show ?thesis by (simp add: job_run_def)
next
  case (Some e)
  then have l: "lookup_row jb_id jid js = Some e" by (simp add: job_get_def)
  have own: "jb_id e = jid" using lookup_row_Some [OF l] by simp
  have other: "lookup_row jb_id k js = Some x \<Longrightarrow> jb_id x = k" for k x using lookup_row_Some by fastforce
  show ?thesis
    by (cases "lookup_row jb_id k js") (auto simp: job_run_def job_get_def l own lookup_row_update_where split: prod.split dest: other)
qed

end
