(* ===== verification/Rollups.thy ===== *)
theory Rollups
  imports Thresholds Links
begin

text \<open>
  Aggregation of metrics: resource readings and their hourly and daily rollups (internal/repo/resources.go,
  resource_rollups.go, internal/scanner/discovery/resource_rollup.go, internal/jobs/resource_rollup.go) and the
  hourly event metrics of apps (internal/repo/metrics.go, internal/scanner/discovery/event_rollup.go).

  \<open>LatestForSourcePrefix\<close> is not modelled: it selects columns that are not determined by its GROUP BY.
\<close>

section \<open>resources.go\<close>

definition resource_source_types :: "string list" where
  "resource_source_types = [''docker_container'', ''host'', ''vm_linux'', ''vm_windows'', ''vm_other'',
     ''proxmox_node'', ''synology'', ''snmp_host'', ''traefik'']"

definition reading_create :: "resource_reading \<Rightarrow> db \<Rightarrow> unit db_result" where
  "reading_create r = db_op (\<lambda>d.
     if rd_source_type r \<in> set resource_source_types \<and> rd_id r \<notin> rd_id ` set (d_readings d)
     then (Inr (), d\<lparr>d_readings := d_readings d @ [r\<lparr>rd_app_id := None\<rparr>]\<rparr>) else (Inl DbFail, d))"

text \<open>The latest value of a source and metric.\<close>

definition latest_metrics :: "string \<Rightarrow> string list \<Rightarrow> db \<Rightarrow> (string \<Rightarrow> string \<rightharpoonup> rat) db_result" where
  "latest_metrics source_type ids d0 = (if ids = [] then (Inr (\<lambda>_ _. None), d0)
     else db_query (\<lambda>d s m. if m \<in> {''cpu_percent'', ''mem_percent''} \<and> s \<in> set ids
       then map_option rd_value (List.find (\<lambda>r. rd_source_type r = source_type \<and> rd_source_id r = s \<and> rd_metric r = m)
              (order_desc rd_recorded_at (d_readings d)))
       else None) d0)"

definition reading_backfill_app_id :: "string \<Rightarrow> string \<Rightarrow> db \<Rightarrow> nat db_result" where
  "reading_backfill_app_id container_id app_id = db_op (\<lambda>d.
     let P = (\<lambda>r. rd_source_type r = ''docker_container'' \<and> rd_source_id r = container_id \<and> rd_app_id r = None) in
     if app_id \<in> ap_id ` set (d_apps d) \<or> filter P (d_readings d) = []
     then (Inr (length (filter P (d_readings d))), d\<lparr>d_readings := update_where P (\<lambda>r. r\<lparr>rd_app_id := Some app_id\<rparr>) (d_readings d)\<rparr>)
     else (Inl DbFail, d))"

section \<open>resource_rollups.go\<close>

record resource_aggregate =
  ag_source_id :: string
  ag_source_type :: string
  ag_metric :: string
  ag_avg :: rat
  ag_min :: rat
  ag_max :: rat

definition list_min :: "rat list \<Rightarrow> rat" where
  "list_min xs = fold min (tl xs) (hd xs)"

definition list_max :: "rat list \<Rightarrow> rat" where
  "list_max xs = fold max (tl xs) (hd xs)"

definition list_avg :: "rat list \<Rightarrow> rat" where
  "list_avg xs = sum_list xs / of_nat (length xs)"

text \<open>\<open>GROUP BY source_id, source_type, metric\<close>, from three columns to aggregate.\<close>

definition aggregate_by ::
  "('a \<Rightarrow> string \<times> string \<times> string) \<Rightarrow> ('a \<Rightarrow> rat) \<Rightarrow> ('a \<Rightarrow> rat) \<Rightarrow> ('a \<Rightarrow> rat) \<Rightarrow> 'a list \<Rightarrow> resource_aggregate list" where
  "aggregate_by grp av mn mx rows = map (\<lambda>k. let g = filter (\<lambda>r. grp r = k) rows in
     \<lparr>ag_source_id = fst k, ag_source_type = fst (snd k), ag_metric = snd (snd k),
      ag_avg = list_avg (map av g), ag_min = list_min (map mn g), ag_max = list_max (map mx g)\<rparr>) (remdups (map grp rows))"

definition reading_group :: "resource_reading \<Rightarrow> string \<times> string \<times> string" where
  "reading_group r = (rd_source_id r, rd_source_type r, rd_metric r)"

definition rollup_group :: "resource_rollup \<Rightarrow> string \<times> string \<times> string" where
  "rollup_group r = (rr_source_id r, rr_source_type r, rr_metric r)"

definition readings_between :: "go_time \<Rightarrow> go_time \<Rightarrow> resource_reading list \<Rightarrow> resource_reading list" where
  "readings_between from until rs = filter (\<lambda>r. from \<le> rd_recorded_at r \<and> rd_recorded_at r < until) rs"

definition hours_between :: "go_time \<Rightarrow> go_time \<Rightarrow> resource_rollup list \<Rightarrow> resource_rollup list" where
  "hours_between from until rs =
     filter (\<lambda>r. rr_period_type r = ''hour'' \<and> from \<le> rr_period_start r \<and> rr_period_start r < until) rs"

definition aggregate_readings :: "go_time \<Rightarrow> go_time \<Rightarrow> db \<Rightarrow> resource_aggregate list db_result" where
  "aggregate_readings from until = db_query (\<lambda>d.
     aggregate_by reading_group rd_value rd_value rd_value (readings_between from until (d_readings d)))"

definition aggregate_hourly_rollups :: "go_time \<Rightarrow> go_time \<Rightarrow> db \<Rightarrow> resource_aggregate list db_result" where
  "aggregate_hourly_rollups from until = db_query (\<lambda>d.
     aggregate_by rollup_group rr_avg rr_min rr_max (hours_between from until (d_resource_rollups d)))"

definition rr_key :: "resource_rollup \<Rightarrow> string \<times> string \<times> string \<times> go_time" where
  "rr_key r = (rr_source_id r, rr_metric r, rr_period_type r, rr_period_start r)"

definition rr_merge :: "resource_rollup \<Rightarrow> resource_rollup \<Rightarrow> resource_rollup" where
  "rr_merge old new = old\<lparr>rr_source_type := rr_source_type new, rr_avg := rr_avg new, rr_min := rr_min new, rr_max := rr_max new\<rparr>"

definition rr_row_ok :: "resource_rollup \<Rightarrow> bool" where
  "rr_row_ok r = (rr_source_type r \<in> set resource_source_types \<and> rr_period_type r \<in> {''hour'', ''day''})"

definition resource_rollup_upsert :: "resource_rollup \<Rightarrow> db \<Rightarrow> unit db_result" where
  "resource_rollup_upsert r = db_op (\<lambda>d. if rr_row_ok r
     then (Inr (), d\<lparr>d_resource_rollups := upsert_row rr_key rr_merge r (d_resource_rollups d)\<rparr>) else (Inl DbFail, d))"

definition purge_readings :: "go_time \<Rightarrow> db \<Rightarrow> nat db_result" where
  "purge_readings cutoff = db_op (\<lambda>d. (Inr (length (filter (\<lambda>r. rd_recorded_at r < cutoff) (d_readings d))),
     d\<lparr>d_readings := filter (\<lambda>r. \<not> rd_recorded_at r < cutoff) (d_readings d)\<rparr>))"

definition purge_hourly_rollups :: "go_time \<Rightarrow> db \<Rightarrow> nat db_result" where
  "purge_hourly_rollups cutoff = db_op (\<lambda>d. let P = (\<lambda>r. rr_period_type r = ''hour'' \<and> rr_period_start r < cutoff) in
     (Inr (length (filter P (d_resource_rollups d))), d\<lparr>d_resource_rollups := filter (\<lambda>r. \<not> P r) (d_resource_rollups d)\<rparr>))"

definition latest_for_source :: "string \<Rightarrow> string \<Rightarrow> string \<Rightarrow> db \<Rightarrow> resource_rollup list db_result" where
  "latest_for_source source_id source_type period_type = db_query (\<lambda>d.
     filter (\<lambda>r. rr_source_id r = source_id \<and> rr_source_type r = source_type \<and> rr_period_type r = period_type
       \<and> list_all (\<lambda>q. rr_source_id q = source_id \<and> rr_metric q = rr_metric r \<and> rr_period_type q = period_type
            \<longrightarrow> rr_period_start q \<le> rr_period_start r) (d_resource_rollups d)) (d_resource_rollups d))"

section \<open>The rollup jobs\<close>

definition truncate_to :: "int \<Rightarrow> go_time \<Rightarrow> go_time" where
  "truncate_to unit t = t div unit * unit"

definition rollup_of :: "string \<Rightarrow> go_time \<Rightarrow> resource_aggregate \<Rightarrow> resource_rollup" where
  "rollup_of period start a = \<lparr>rr_source_id = ag_source_id a, rr_source_type = ag_source_type a, rr_metric = ag_metric a,
     rr_period_type = period, rr_period_start = start, rr_avg = ag_avg a, rr_min = ag_min a, rr_max = ag_max a\<rparr>"

definition run_hourly_rollup :: "go_time \<Rightarrow> db \<Rightarrow> unit db_result" where
  "run_hourly_rollup now d0 = (let until = truncate_to hour_ns now; from = until - hour_ns in
     case aggregate_readings from until d0 of
       (Inl e, d1) \<Rightarrow> (Inl e, d1)
     | (Inr aggs, d1) \<Rightarrow> each_ok (\<lambda>a. resource_rollup_upsert (rollup_of ''hour'' from a)) aggs d1)"

definition run_daily_rollup :: "go_time \<Rightarrow> db \<Rightarrow> unit db_result" where
  "run_daily_rollup now d0 = (let until = truncate_to day_ns now; from = until - day_ns in
     case aggregate_hourly_rollups from until d0 of
       (Inl e, d1) \<Rightarrow> (Inl e, d1)
     | (Inr aggs, d1) \<Rightarrow> each_ok (\<lambda>a. resource_rollup_upsert (rollup_of ''day'' from a)) aggs d1)"

definition run_retention_purge :: "go_time \<Rightarrow> db \<Rightarrow> unit db_result" where
  "run_retention_purge now d0 = (case purge_readings (now - 7 * day_ns) d0 of
       (Inl e, d1) \<Rightarrow> (Inl e, d1)
     | (Inr _, d1) \<Rightarrow> (case purge_hourly_rollups (now - 90 * day_ns) d1 of
           (Inl e, d2) \<Rightarrow> (Inl e, d2) | (Inr _, d2) \<Rightarrow> (Inr (), d2)))"

text \<open>One run of the midnight goroutine; the second job runs whatever the first did.\<close>

definition run_daily_jobs :: "go_time \<Rightarrow> db \<Rightarrow> db" where
  "run_daily_jobs now d = db_ignore (run_retention_purge now (db_ignore (run_daily_rollup now d)))"

section \<open>metrics.go and event_rollup.go\<close>

definition metric_key :: "app_metric \<Rightarrow> string \<times> go_time" where
  "metric_key m = (am_app_id m, am_period m)"

definition metric_upsert :: "app_metric \<Rightarrow> db \<Rightarrow> unit db_result" where
  "metric_upsert m = db_op (\<lambda>d. if am_app_id m \<in> ap_id ` set (d_apps d)
     then (Inr (), d\<lparr>d_metrics := replace_row metric_key (m\<lparr>am_period := trunc_sec (am_period m)\<rparr>) (d_metrics d)\<rparr>)
     else (Inl DbFail, d))"

definition metric_list_by_app :: "string \<Rightarrow> int \<Rightarrow> db \<Rightarrow> app_metric list db_result" where
  "metric_list_by_app app_id limit = db_query (\<lambda>d. take (nat (if limit \<le> 0 then 24 else limit))
     (order_desc am_period (filter (\<lambda>m. am_app_id m = app_id) (d_metrics d))))"

text \<open>\<open>JOIN apps\<close> drops the rows of apps that no longer exist.\<close>

definition metric_top_apps :: "int \<Rightarrow> db \<Rightarrow> (string \<times> string \<times> nat) list db_result" where
  "metric_top_apps limit = db_query (\<lambda>d. take (nat (if limit \<le> 0 then 10 else limit))
     (order_desc (\<lambda>(_, _, n). int n)
       (List.map_filter (\<lambda>m. case lookup_row ap_id (am_app_id m) (d_apps d) of
            None \<Rightarrow> None
          | Some a \<Rightarrow> (if list_all (\<lambda>q. am_app_id q = am_app_id m \<longrightarrow> am_period q \<le> am_period m) (d_metrics d)
                       then Some (am_app_id m, ap_name a, am_events_per_hour m) else None)) (d_metrics d))))"

definition collect_app :: "go_time \<Rightarrow> app_row \<Rightarrow> db \<Rightarrow> unit db_result" where
  "collect_app from a d0 = (case event_metrics_for_app (ap_id a) from (from + hour_ns) d0 of
       (Inl e, d1) \<Rightarrow> (Inl e, d1)
     | (Inr m, d1) \<Rightarrow> metric_upsert \<lparr>am_app_id = ap_id a, am_period = from, am_events_per_hour = em_events_per_hour m,
           am_avg_payload_bytes = em_avg_payload_bytes m, am_peak_per_minute = em_peak_per_minute m\<rparr> d1)"

definition run_metrics_collection :: "go_time \<Rightarrow> db \<Rightarrow> unit db_result" where
  "run_metrics_collection now d0 = (case app_list d0 of
       (Inl e, d1) \<Rightarrow> (Inl e, d1)
     | (Inr apps, d1) \<Rightarrow> each_ok (collect_app (truncate_to hour_ns now - hour_ns)) apps d1)"

section \<open>Aggregates\<close>

lemma list_min_Min: "xs \<noteq> [] \<Longrightarrow> list_min xs = Min (set xs)"
  by (cases xs) (simp_all add: list_min_def Min.set_eq_fold [symmetric])

lemma list_max_Max: "xs \<noteq> [] \<Longrightarrow> list_max xs = Max (set xs)"
  by (cases xs) (simp_all add: list_max_def Max.set_eq_fold [symmetric])

lemma list_min_least: "x \<in> set xs \<Longrightarrow> list_min xs \<le> x"
  by (subst list_min_Min) (auto simp: Min_le_iff)

lemma list_max_greatest: "x \<in> set xs \<Longrightarrow> x \<le> list_max xs"
  by (subst list_max_Max) (auto simp: Max_ge_iff)

lemma avg_between:
  assumes "xs \<noteq> []" and "\<And>x. x \<in> set xs \<Longrightarrow> lo \<le> x" and "\<And>x. x \<in> set xs \<Longrightarrow> x \<le> hi"
  shows "lo \<le> list_avg xs" and "list_avg xs \<le> hi"
proof -
  have "of_nat (length xs) * lo \<le> sum_list xs \<and> sum_list xs \<le> of_nat (length xs) * hi"
    using assms(2,3) by (induction xs) (fastforce simp: algebra_simps)+
  moreover have "0 < (of_nat (length xs) :: rat)" using assms(1) by simp
  ultimately show "lo \<le> list_avg xs" "list_avg xs \<le> hi"
    by (simp_all add: list_avg_def field_simps)
qed

text \<open>An aggregate lies between its minimum and its maximum if its rows do.\<close>

definition aggregate_ok :: "resource_aggregate \<Rightarrow> bool" where
  "aggregate_ok a = (ag_min a \<le> ag_avg a \<and> ag_avg a \<le> ag_max a)"

lemma aggregate_between:
  assumes "\<And>r. r \<in> set rows \<Longrightarrow> mn r \<le> av r \<and> av r \<le> mx r" and "a \<in> set (aggregate_by grp av mn mx rows)"
  shows "aggregate_ok a"
proof -
  obtain k where k: "k \<in> set (map grp rows)" and ak: "a = (let g = filter (\<lambda>r. grp r = k) rows in
     \<lparr>ag_source_id = fst k, ag_source_type = fst (snd k), ag_metric = snd (snd k),
      ag_avg = list_avg (map av g), ag_min = list_min (map mn g), ag_max = list_max (map mx g)\<rparr>)"
    using assms(2) unfolding aggregate_by_def set_map set_remdups by blast
  have a: "ag_avg a = list_avg (map av (filter (\<lambda>r. grp r = k) rows))"
    "ag_min a = list_min (map mn (filter (\<lambda>r. grp r = k) rows))" "ag_max a = list_max (map mx (filter (\<lambda>r. grp r = k) rows))"
    by (simp_all add: ak Let_def)
  let ?g = "filter (\<lambda>r. grp r = k) rows"
  have ne: "map av ?g \<noteq> []" using k by (auto simp: filter_empty_conv)
  have "list_min (map mn ?g) \<le> x \<and> x \<le> list_max (map mx ?g)" if x: "x \<in> set (map av ?g)" for x
  proof -
    obtain r where r: "r \<in> set ?g" "x = av r" using x by auto
    have "list_min (map mn ?g) \<le> mn r" by (rule list_min_least) (use r in auto)
    moreover have "mx r \<le> list_max (map mx ?g)" by (rule list_max_greatest) (use r in auto)
    moreover have "mn r \<le> av r \<and> av r \<le> mx r" using assms(1) r by simp
    ultimately show ?thesis using r by linarith
  qed
  note within = this
  have "list_min (map mn ?g) \<le> list_avg (map av ?g)"
    by (rule avg_between(1) [OF ne, where hi = "list_max (map mx ?g)"]) (use within in blast)+
  moreover have "list_avg (map av ?g) \<le> list_max (map mx ?g)"
    by (rule avg_between(2) [OF ne, where lo = "list_min (map mn ?g)"]) (use within in blast)+
  ultimately show ?thesis by (simp add: aggregate_ok_def a)
qed

section \<open>The tables stay well-formed\<close>

definition rr_ok :: "resource_rollup \<Rightarrow> bool" where
  "rr_ok r = (rr_row_ok r \<and> rr_min r \<le> rr_avg r \<and> rr_avg r \<le> rr_max r
     \<and> (rr_period_type r = ''hour'' \<longrightarrow> rr_period_start r mod hour_ns = 0)
     \<and> (rr_period_type r = ''day'' \<longrightarrow> rr_period_start r mod day_ns = 0))"

definition rollups_ok :: "db \<Rightarrow> bool" where
  "rollups_ok d = (distinct (map rr_key (d_resource_rollups d)) \<and> list_all rr_ok (d_resource_rollups d)
     \<and> list_all (\<lambda>r. rd_source_type r \<in> set resource_source_types) (d_readings d))"

lemma rollups_ok_blind: "fault_blind rollups_ok"
  by (simp add: fault_blind_def rollups_ok_def)

interpretation rr_table: overwriting_table rr_key rr_merge
  by unfold_locales (auto simp: rr_key_def rr_merge_def)

declare rr_table.key_merge [simp del]

lemma rr_upsert_ok:
  assumes "rollups_ok d" and "rr_row_ok r \<Longrightarrow> rr_ok r"
  shows "rollups_ok (snd (resource_rollup_upsert r d))"
  unfolding resource_rollup_upsert_def
proof (rule db_op_invariant [OF rollups_ok_blind _ assms(1)])
  fix d assume ok: "rollups_ok d"
  have "rr_ok (rr_merge old r)" if "rr_ok old" "rr_ok r" "rr_key old = rr_key r" for old
    using that by (auto simp: rr_ok_def rr_merge_def rr_row_ok_def rr_key_def)
  note merged = this
  have "list_all rr_ok (upsert_row rr_key rr_merge r (d_resource_rollups d))" if "rr_row_ok r"
    unfolding list_all_iff
  proof
    fix x assume "x \<in> set (upsert_row rr_key rr_merge r (d_resource_rollups d))"
    then consider "x \<in> set (d_resource_rollups d)" | "x = r"
      | old where "old \<in> set (d_resource_rollups d)" "rr_key old = rr_key r" "x = rr_merge old r"
      using rr_table.in_upsert by blast
    then show "rr_ok x"
      using ok assms(2) [OF that] merged by cases (auto simp: rollups_ok_def list_all_iff)
  qed
  then show "rollups_ok (snd (if rr_row_ok r then (Inr (), d\<lparr>d_resource_rollups := upsert_row rr_key rr_merge r (d_resource_rollups d)\<rparr>)
      else (Inl DbFail, d)))"
    using ok rr_table.distinct_upsert by (simp add: rollups_ok_def)
qed

lemma each_rr_upsert_ok:
  assumes "rollups_ok d" and "\<And>a. a \<in> set aggs \<Longrightarrow> aggregate_ok a" and "p \<in> {''hour'', ''day''}"
    and "p = ''hour'' \<longrightarrow> start mod hour_ns = 0" and "p = ''day'' \<longrightarrow> start mod day_ns = 0"
  shows "rollups_ok (snd (each_ok (\<lambda>a. resource_rollup_upsert (rollup_of p start a)) aggs d))"
  using assms(1,2)
proof (induction aggs arbitrary: d)
  case (Cons a aggs)
  have "rr_ok (rollup_of p start a)" if "rr_row_ok (rollup_of p start a)"
    using that Cons.prems(2) [of a] assms(3-5) by (auto simp: rr_ok_def rollup_of_def aggregate_ok_def)
  then have ok: "rollups_ok (snd (resource_rollup_upsert (rollup_of p start a) d))"
    using rr_upsert_ok [OF Cons.prems(1)] by blast
  show ?case using Cons.IH [OF ok] Cons.prems(2) ok
    by (cases "resource_rollup_upsert (rollup_of p start a) d") (auto split: sum.split)
qed simp

lemma truncate_mod: "truncate_to u t mod u = 0" "(truncate_to u t - u) mod u = 0"
  by (simp_all add: truncate_to_def mod_diff_left_eq [symmetric])


lemma rollups_query_ok: "rollups_ok d \<Longrightarrow> rollups_ok (snd (db_query q d))"
  by (rule db_query_invariant [OF rollups_ok_blind])

lemma db_query_result:
  assumes "db_query q d = (Inr v, d1)" and "\<And>fs. q (d\<lparr>d_faults := fs\<rparr>) = q d"
  shows "v = q d"
  using assms(1) by (cases "d_faults d") (auto simp: db_query_def db_op_def assms(2) split: if_splits)

lemma run_hourly_ok: "rollups_ok d \<Longrightarrow> rollups_ok (snd (run_hourly_rollup now d))"
proof -
  assume ok: "rollups_ok d"
  let ?until = "truncate_to hour_ns now"
  obtain r d1 where q: "aggregate_readings (?until - hour_ns) ?until d = (r, d1)" by fastforce
  have ok1: "rollups_ok d1"
    using rollups_query_ok [OF ok, of "\<lambda>d. aggregate_by reading_group rd_value rd_value rd_value
      (readings_between (?until - hour_ns) ?until (d_readings d))"] q by (simp add: aggregate_readings_def)
  show ?thesis
  proof (cases r)
    case (Inr aggs)
    have aggs: "aggs = aggregate_by reading_group rd_value rd_value rd_value (readings_between (?until - hour_ns) ?until (d_readings d))"
      using db_query_result [OF q [unfolded aggregate_readings_def Inr]] by simp
    have "aggregate_ok a" if "a \<in> set aggs" for a
      using aggregate_between [OF _ that [unfolded aggs]] by simp
    then show ?thesis using each_rr_upsert_ok [OF ok1, of aggs "''hour''" "?until - hour_ns"]
      by (simp add: run_hourly_rollup_def q Inr Let_def truncate_mod)
  qed (use ok1 in \<open>simp add: run_hourly_rollup_def q Let_def\<close>)
qed

lemma run_daily_ok: "rollups_ok d \<Longrightarrow> rollups_ok (snd (run_daily_rollup now d))"
proof -
  assume ok: "rollups_ok d"
  let ?until = "truncate_to day_ns now"
  let ?rows = "hours_between (?until - day_ns) ?until (d_resource_rollups d)"
  obtain r d1 where q: "aggregate_hourly_rollups (?until - day_ns) ?until d = (r, d1)" by fastforce
  have ok1: "rollups_ok d1"
    using rollups_query_ok [OF ok, of "\<lambda>d. aggregate_by rollup_group rr_avg rr_min rr_max
      (hours_between (?until - day_ns) ?until (d_resource_rollups d))"] q by (simp add: aggregate_hourly_rollups_def)
  show ?thesis
  proof (cases r)
    case (Inr aggs)
    have aggs: "aggs = aggregate_by rollup_group rr_avg rr_min rr_max ?rows"
      using db_query_result [OF q [unfolded aggregate_hourly_rollups_def Inr]] by simp
    have rows: "rr_min x \<le> rr_avg x \<and> rr_avg x \<le> rr_max x" if "x \<in> set ?rows" for x
      using that ok by (auto simp: hours_between_def rollups_ok_def list_all_iff rr_ok_def)
    have "aggregate_ok a" if "a \<in> set aggs" for a
      by (rule aggregate_between [OF rows that [unfolded aggs]])
    then show ?thesis using each_rr_upsert_ok [OF ok1, of aggs "''day''" "?until - day_ns"]
      by (simp add: run_daily_rollup_def q Inr Let_def truncate_mod)
  qed (use ok1 in \<open>simp add: run_daily_rollup_def q Let_def\<close>)
qed

lemma rollups_ok_filter:
  assumes "rollups_ok d"
  shows "rollups_ok (d\<lparr>d_readings := filter P (d_readings d)\<rparr>)"
    and "rollups_ok (d\<lparr>d_resource_rollups := filter Q (d_resource_rollups d)\<rparr>)"
  using assms by (auto simp: rollups_ok_def list_all_iff intro: distinct_map_filter)

lemma run_retention_ok: "rollups_ok d \<Longrightarrow> rollups_ok (snd (run_retention_purge now d))"
proof -
  assume ok: "rollups_ok d"
  have r: "rollups_ok (snd (purge_readings c d))" for c
    unfolding purge_readings_def by (rule db_op_invariant [OF rollups_ok_blind _ ok]) (simp add: rollups_ok_filter)
  have h: "rollups_ok (snd (purge_hourly_rollups c d))" if "rollups_ok d" for c d
    unfolding purge_hourly_rollups_def
    by (rule db_op_invariant [OF rollups_ok_blind _ that]) (simp add: Let_def rollups_ok_filter)
  obtain x d1 where q: "purge_readings (now - 7 * day_ns) d = (x, d1)" by fastforce
  have "rollups_ok d1" using r [of "now - 7 * day_ns"] q by simp
  then have "rollups_ok (snd (purge_hourly_rollups (now - 90 * day_ns) d1))" by (rule h)
  with \<open>rollups_ok d1\<close> show ?thesis
    unfolding run_retention_purge_def q by (auto split: sum.split prod.split)
qed

lemma reading_create_ok: "rollups_ok d \<Longrightarrow> rollups_ok (snd (reading_create r d))"
  unfolding reading_create_def
  by (rule db_op_invariant [OF rollups_ok_blind]) (auto simp: rollups_ok_def)

text \<open>Whatever statements fail, the hourly job, the daily job and the purge keep the rollup table well-formed:
  one row per source, metric, period type and period start, each period start aligned to its unit, and each average
  between its minimum and maximum.\<close>

theorem rollups_stay_ok:
  assumes "rollups_ok d"
  shows "rollups_ok (snd (reading_create r d)) \<and> rollups_ok (snd (run_hourly_rollup now d)) \<and> rollups_ok (run_daily_jobs now d)"
  using assms reading_create_ok run_hourly_ok run_daily_ok run_retention_ok by (simp add: run_daily_jobs_def db_ignore_def)

section \<open>What a rollup holds\<close>

lemma rr_merge_new: "rr_key old = rr_key r \<Longrightarrow> rr_merge old r = r"
  by (cases old, cases r) (simp add: rr_key_def rr_merge_def)

lemma lookup_rr_upserts:
  assumes "distinct (map rr_key rs)"
  shows "lookup_row rr_key k (fold (upsert_row rr_key rr_merge) rs xs)
    = (case lookup_row rr_key k rs of Some r \<Rightarrow> Some r | None \<Rightarrow> lookup_row rr_key k xs)"
  using assms
proof (induction rs arbitrary: xs)
  case (Cons r rs)
  have none: "lookup_row rr_key (rr_key r) rs = None" using Cons.prems by (simp add: lookup_row_None)
  have new: "(case lookup_row rr_key (rr_key r) xs of None \<Rightarrow> r | Some old \<Rightarrow> rr_merge old r) = r"
    using lookup_row_Some [of rr_key "rr_key r" xs] by (auto simp: rr_merge_new split: option.split)
  show ?case using Cons none new by (auto simp: rr_table.lookup_upsert split: option.split)
qed simp

lemma each_rr_upsert:
  assumes "d_faults d = []" and "\<And>a. a \<in> set aggs \<Longrightarrow> rr_row_ok (f a)"
  shows "each_ok (\<lambda>a. resource_rollup_upsert (f a)) aggs d
    = (Inr (), d\<lparr>d_resource_rollups := fold (upsert_row rr_key rr_merge) (map f aggs) (d_resource_rollups d)\<rparr>)"
  using assms by (induction aggs arbitrary: d) (simp_all add: resource_rollup_upsert_def)

text \<open>One source type per source and metric.\<close>

definition one_type :: "('a \<Rightarrow> string \<times> string \<times> string) \<Rightarrow> 'a list \<Rightarrow> bool" where
  "one_type grp rows = (\<forall>r \<in> set rows. \<forall>q \<in> set rows.
     fst (grp r) = fst (grp q) \<and> snd (snd (grp r)) = snd (snd (grp q)) \<longrightarrow> grp r = grp q)"

definition of_metric :: "('a \<Rightarrow> string \<times> string \<times> string) \<Rightarrow> string \<Rightarrow> string \<Rightarrow> 'a list \<Rightarrow> 'a list" where
  "of_metric grp s m rows = filter (\<lambda>r. fst (grp r) = s \<and> snd (snd (grp r)) = m) rows"

lemma aggregate_keys:
  assumes "one_type grp rows"
  shows "distinct (map rr_key (map (rollup_of p start) (aggregate_by grp av mn mx rows)))"
proof -
  have "inj_on (\<lambda>k. (fst k, snd (snd k), p, start)) (set (map grp rows))"
    using assms by (fastforce simp: inj_on_def one_type_def)
  then show ?thesis
    by (simp add: aggregate_by_def rollup_of_def rr_key_def Let_def comp_def distinct_map)
qed

lemma lookup_aggregate:
  assumes "one_type grp rows"
  shows "lookup_row rr_key (s, m, p, start) (map (rollup_of p start) (aggregate_by grp av mn mx rows)) =
    (let g = of_metric grp s m rows in if g = [] then None
     else Some \<lparr>rr_source_id = s, rr_source_type = fst (snd (grp (hd g))), rr_metric = m, rr_period_type = p, rr_period_start = start,
       rr_avg = list_avg (map av g), rr_min = list_min (map mn g), rr_max = list_max (map mx g)\<rparr>)"
proof (cases "of_metric grp s m rows = []")
  case True
  then have "(s, m, p, start) \<notin> rr_key ` set (map (rollup_of p start) (aggregate_by grp av mn mx rows))"
    by (auto simp: of_metric_def filter_empty_conv aggregate_by_def rollup_of_def rr_key_def Let_def)
  then have "lookup_row rr_key (s, m, p, start) (map (rollup_of p start) (aggregate_by grp av mn mx rows)) = None"
    unfolding lookup_row_None .
  with True show ?thesis by simp
next
  case False
  let ?h = "hd (of_metric grp s m rows)"
  have h: "?h \<in> set rows" "fst (grp ?h) = s" "snd (snd (grp ?h)) = m"
    using hd_in_set [OF False] by (simp_all add: of_metric_def)
  have g: "filter (\<lambda>r. grp r = grp ?h) rows = of_metric grp s m rows"
    unfolding of_metric_def
    by (rule filter_cong [OF refl]) (use assms h in \<open>auto simp: one_type_def of_metric_def\<close>)
  let ?row = "rollup_of p start \<lparr>ag_source_id = s, ag_source_type = fst (snd (grp ?h)), ag_metric = m,
      ag_avg = list_avg (map av (of_metric grp s m rows)), ag_min = list_min (map mn (of_metric grp s m rows)),
      ag_max = list_max (map mx (of_metric grp s m rows))\<rparr>"
  have row: "?row \<in> set (map (rollup_of p start) (aggregate_by grp av mn mx rows))"
    using h by (auto simp: aggregate_by_def Let_def g intro!: image_eqI [where x = "grp ?h"])
  have "rr_key ?row = (s, m, p, start)" by (simp add: rr_key_def rollup_of_def)
  with lookup_row_distinct [OF aggregate_keys [OF assms, of p start av mn mx] row] False show ?thesis
    by (simp add: rollup_of_def Let_def)
qed

lemma aggregate_type:
  "a \<in> set (aggregate_by grp av mn mx rows) \<Longrightarrow> \<exists>r \<in> set rows. ag_source_type a = fst (snd (grp r))"
  by (auto simp: aggregate_by_def Let_def)

text \<open>The rows a rollup of \<open>rows\<close> stores, all statements succeeding.\<close>

lemma rollup_exact:
  assumes "d_faults d = []" and "one_type grp rows" and "p \<in> {''hour'', ''day''}"
    and "\<And>r. r \<in> set rows \<Longrightarrow> fst (snd (grp r)) \<in> set resource_source_types"
  shows "lookup_row rr_key (s, m, p, start) (d_resource_rollups
      (snd (each_ok (\<lambda>a. resource_rollup_upsert (rollup_of p start a)) (aggregate_by grp av mn mx rows) d))) =
    (let g = of_metric grp s m rows in if g = [] then lookup_row rr_key (s, m, p, start) (d_resource_rollups d)
     else Some \<lparr>rr_source_id = s, rr_source_type = fst (snd (grp (hd g))), rr_metric = m, rr_period_type = p, rr_period_start = start,
       rr_avg = list_avg (map av g), rr_min = list_min (map mn g), rr_max = list_max (map mx g)\<rparr>)"
proof -
  have "rr_row_ok (rollup_of p start a)" if "a \<in> set (aggregate_by grp av mn mx rows)" for a
    using aggregate_type [OF that] assms(3,4) by (auto simp: rr_row_ok_def rollup_of_def)
  from each_rr_upsert [OF assms(1), of "aggregate_by grp av mn mx rows" "rollup_of p start", OF this]
  show ?thesis
    by (simp add: lookup_rr_upserts [OF aggregate_keys [OF assms(2)]] lookup_aggregate [OF assms(2)] Let_def
        del: list.map_comp map_map split del: if_split) simp
qed

lemma one_type_subset: "one_type grp rows \<Longrightarrow> set rows' \<subseteq> set rows \<Longrightarrow> one_type grp rows'"
  by (simp add: one_type_def) blast

definition hour_summary :: "go_time \<Rightarrow> resource_reading list \<Rightarrow> string \<Rightarrow> string \<Rightarrow> resource_rollup option" where
  "hour_summary start rs s m = (let g = of_metric reading_group s m (readings_between start (start + hour_ns) rs) in
     if g = [] then None
     else Some \<lparr>rr_source_id = s, rr_source_type = rd_source_type (hd g), rr_metric = m, rr_period_type = ''hour'',
       rr_period_start = start, rr_avg = list_avg (map rd_value g), rr_min = list_min (map rd_value g),
       rr_max = list_max (map rd_value g)\<rparr>)"

lemma lookup_rr_upserts_last:
  "lookup_row rr_key k (fold (upsert_row rr_key rr_merge) rs xs)
    = (case lookup_row rr_key k (rev rs) of Some r \<Rightarrow> Some r | None \<Rightarrow> lookup_row rr_key k xs)"
proof (induction rs rule: rev_induct)
  case (snoc r rs)
  have new: "(case lookup_row rr_key (rr_key r) ys of None \<Rightarrow> r | Some old \<Rightarrow> rr_merge old r) = r" for ys
    using lookup_row_Some [of rr_key "rr_key r" ys] by (auto simp: rr_merge_new split: option.split)
  then show ?case using snoc by (simp add: rr_table.lookup_upsert)
qed simp

lemma of_metric_type:
  "filter (\<lambda>r. reading_group r = (s, ty, m)) rows = filter (\<lambda>r. rd_source_type r = ty) (of_metric reading_group s m rows)"
  by (induction rows) (auto simp: of_metric_def reading_group_def)

text \<open>C32: A run of the hourly job, all statements succeeding, leaves for every source and metric with a reading in
  the last complete hour a row for that hour with mean, minimum and maximum of those readings, whatever row was there:
  of all of them if they have one source type, and otherwise of the ones of one of their types, since the readings are
  grouped by type and the rows are not. Every other row stays as it was.\<close>

theorem hourly_rollup_exact:
  assumes "d_faults d = []" and "rollups_ok d" and "start = truncate_to hour_ns now - hour_ns"
    and "g = filter (\<lambda>r. rd_source_id r = s \<and> rd_metric r = m \<and> start \<le> rd_recorded_at r \<and> rd_recorded_at r < start + hour_ns)
           (d_readings d)"
    and "row = lookup_row rr_key (s, m, p, t) (d_resource_rollups (snd (run_hourly_rollup now d)))"
  shows "if (p, t) = (''hour'', start) \<and> g \<noteq> []
    then \<exists>ty \<in> rd_source_type ` set g. let vs = map rd_value (filter (\<lambda>r. rd_source_type r = ty) g) in
      row = Some \<lparr>rr_source_id = s, rr_source_type = ty, rr_metric = m, rr_period_type = ''hour'', rr_period_start = start,
        rr_avg = list_avg vs, rr_min = list_min vs, rr_max = list_max vs\<rparr>
    else row = lookup_row rr_key (s, m, p, t) (d_resource_rollups d)"
proof -
  let ?rows = "readings_between start (start + hour_ns) (d_readings d)"
  let ?aggs = "aggregate_by reading_group rd_value rd_value rd_value ?rows"
  let ?rs = "map (rollup_of ''hour'' start) ?aggs"
  have g: "g = of_metric reading_group s m ?rows"
    unfolding assms(4) of_metric_def readings_between_def reading_group_def filter_filter
    by (rule filter_cong) auto
  have types: "fst (snd (reading_group r)) \<in> set resource_source_types" if "r \<in> set ?rows" for r
    using that assms(2) by (auto simp: rollups_ok_def readings_between_def list_all_iff reading_group_def)
  have "rr_row_ok (rollup_of ''hour'' start a)" if "a \<in> set ?aggs" for a
    using aggregate_type [OF that] types by (auto simp: rr_row_ok_def rollup_of_def)
  from each_rr_upsert [OF assms(1), of ?aggs "rollup_of ''hour'' start", OF this]
  have row: "row = (case lookup_row rr_key (s, m, p, t) (rev ?rs) of Some r \<Rightarrow> Some r
      | None \<Rightarrow> lookup_row rr_key (s, m, p, t) (d_resource_rollups d))"
    using assms(1) unfolding assms(5)
    by (simp add: run_hourly_rollup_def aggregate_readings_def Let_def assms(3) lookup_rr_upserts_last)
  show ?thesis
  proof (cases "lookup_row rr_key (s, m, p, t) (rev ?rs)")
    case None
    have "(p, t) \<noteq> (''hour'', start) \<or> g = []"
    proof (rule ccontr)
      assume "\<not> ((p, t) \<noteq> (''hour'', start) \<or> g = [])"
      then have at: "p = ''hour''" "t = start" and "g \<noteq> []" by auto
      then obtain r where "r \<in> set g" by (cases g) auto
      then have r: "r \<in> set ?rows" "rd_source_id r = s" "rd_metric r = m"
        unfolding g by (auto simp: of_metric_def reading_group_def)
      then have "(s, m, p, t) \<in> rr_key ` set (rev ?rs)"
        by (auto simp: aggregate_by_def rollup_of_def rr_key_def Let_def at reading_group_def image_iff)
      then show False using None lookup_row_None [of rr_key "(s, m, p, t)" "rev ?rs"] by simp
    qed
    then show ?thesis using row None by auto
  next
    case (Some r)
    then obtain a where a: "a \<in> set ?aggs" "r = rollup_of ''hour'' start a" and k: "rr_key r = (s, m, p, t)"
      using lookup_row_Some [OF Some] by auto
    then obtain q where q: "q \<in> set ?rows" and agg: "a = (let x = filter (\<lambda>r. reading_group r = reading_group q) ?rows in
        \<lparr>ag_source_id = rd_source_id q, ag_source_type = rd_source_type q, ag_metric = rd_metric q,
         ag_avg = list_avg (map rd_value x), ag_min = list_min (map rd_value x), ag_max = list_max (map rd_value x)\<rparr>)"
      by (auto simp: aggregate_by_def reading_group_def [of q] reading_group_def Let_def)
    have key: "rd_source_id q = s" "rd_metric q = m" "p = ''hour''" "t = start"
      using k by (auto simp: a(2) agg rollup_of_def rr_key_def Let_def)
    have "q \<in> set g" using q key unfolding g by (simp add: of_metric_def reading_group_def)
    moreover have "filter (\<lambda>r. reading_group r = reading_group q) ?rows = filter (\<lambda>r. rd_source_type r = rd_source_type q) g"
      unfolding g of_metric_type [symmetric] by (simp add: reading_group_def [of q] key)
    ultimately show ?thesis using row Some key
      by (auto simp: a(2) agg rollup_of_def Let_def intro!: bexI [of _ q])
  qed
qed


lemma list_min_in: "xs \<noteq> [] \<Longrightarrow> list_min xs \<in> set xs"
  by (simp add: list_min_Min)

lemma list_max_in: "xs \<noteq> [] \<Longrightarrow> list_max xs \<in> set xs"
  by (simp add: list_max_Max)

lemma list_min_of_parts:
  assumes "ys \<noteq> []" and "\<And>y. y \<in> set ys \<Longrightarrow> y \<in> set xs" and "\<And>x. x \<in> set xs \<Longrightarrow> \<exists>y \<in> set ys. y \<le> x"
  shows "list_min ys = list_min xs"
proof (rule antisym)
  have ne: "xs \<noteq> []" using assms(1,2) by (metis list.set_intros(1) neq_Nil_conv empty_iff list.set(1))
  obtain y where "y \<in> set ys" "y \<le> list_min xs" using assms(3) [OF list_min_in [OF ne]] by blast
  then show "list_min ys \<le> list_min xs" using list_min_least by force
  show "list_min xs \<le> list_min ys" by (rule list_min_least [OF assms(2) [OF list_min_in [OF assms(1)]]])
qed

lemma list_max_of_parts:
  assumes "ys \<noteq> []" and "\<And>y. y \<in> set ys \<Longrightarrow> y \<in> set xs" and "\<And>x. x \<in> set xs \<Longrightarrow> \<exists>y \<in> set ys. x \<le> y"
  shows "list_max ys = list_max xs"
proof (rule antisym)
  have ne: "xs \<noteq> []" using assms(1,2) by (metis list.set_intros(1) neq_Nil_conv empty_iff list.set(1))
  show "list_max ys \<le> list_max xs" by (rule list_max_greatest [OF assms(2) [OF list_max_in [OF assms(1)]]])
  obtain y where "y \<in> set ys" "list_max xs \<le> y" using assms(3) [OF list_max_in [OF ne]] by blast
  then show "list_max xs \<le> list_max ys" using list_max_greatest by force
qed

text \<open>The hours of a day whose hourly rows are all there.\<close>

definition day_is_rolled :: "go_time \<Rightarrow> string \<Rightarrow> string \<Rightarrow> db \<Rightarrow> bool" where
  "day_is_rolled day s m d = (\<forall>h \<in> {0..<24}. lookup_row rr_key (s, m, ''hour'', day + h * hour_ns) (d_resource_rollups d)
     = hour_summary (day + h * hour_ns) (d_readings d) s m)"

lemma rolled_hours:
  assumes "rollups_ok d" and "day_is_rolled day s m d" and "day mod hour_ns = 0"
  shows "r \<in> set (of_metric rollup_group s m (hours_between day (day + day_ns) (d_resource_rollups d)))
    \<longleftrightarrow> (\<exists>h \<in> {0..<24}. hour_summary (day + h * hour_ns) (d_readings d) s m = Some r)" (is "?in \<longleftrightarrow> ?sum")
proof
  assume ?in
  then have r: "r \<in> set (d_resource_rollups d)" "rr_period_type r = ''hour''" "day \<le> rr_period_start r"
      "rr_period_start r < day + day_ns" "rr_source_id r = s" "rr_metric r = m"
    by (auto simp: of_metric_def hours_between_def rollup_group_def)
  then have "rr_period_start r mod hour_ns = 0" using assms(1) by (auto simp: rollups_ok_def list_all_iff rr_ok_def)
  then have "(rr_period_start r - day) mod hour_ns = 0" using assms(3) mod_diff_cong [of "rr_period_start r" hour_ns 0 day 0] by simp
  then obtain h where h: "rr_period_start r - day = hour_ns * h" by (auto elim: dvdE simp: mod_eq_0_iff_dvd)
  then have "h \<in> {0..<24}" using r(3,4) by auto
  moreover have "lookup_row rr_key (rr_key r) (d_resource_rollups d) = Some r"
    using lookup_row_distinct [of rr_key, OF _ r(1)] assms(1) by (simp add: rollups_ok_def)
  moreover have "rr_key r = (s, m, ''hour'', day + h * hour_ns)" using r h by (simp add: rr_key_def)
  ultimately show ?sum using assms(2) by (metis day_is_rolled_def)
next
  assume ?sum
  then obtain h where h: "h \<in> {0..<24}" "lookup_row rr_key (s, m, ''hour'', day + h * hour_ns) (d_resource_rollups d) = Some r"
    using assms(2) by (metis day_is_rolled_def)
  have "r \<in> set (d_resource_rollups d)" "rr_key r = (s, m, ''hour'', day + h * hour_ns)"
    using lookup_row_Some [OF h(2)] by simp_all
  then show ?in using h(1) by (auto simp: of_metric_def hours_between_def rollup_group_def rr_key_def)
qed


lemma hour_in_day:
  assumes "day \<le> t" and "t < day + day_ns"
  shows "\<exists>h \<in> {0..<24}. day + h * hour_ns \<le> t \<and> t < day + h * hour_ns + hour_ns"
proof (intro bexI conjI)
  let ?h = "(t - day) div hour_ns"
  have q: "?h * hour_ns + (t - day) mod hour_ns = t - day" by (rule div_mult_mod_eq)
  have m: "0 \<le> (t - day) mod hour_ns" "(t - day) mod hour_ns < hour_ns" by simp_all
  show "day + ?h * hour_ns \<le> t" "t < day + ?h * hour_ns + hour_ns" using q m by linarith+
  have "0 \<le> ?h" using assms(1) by (simp add: pos_imp_zdiv_nonneg_iff)
  moreover have "?h * hour_ns < 24 * hour_ns" using q m assms(2) by simp
  ultimately show "?h \<in> {0..<24}" by simp
qed

lemma rolled_part:
  assumes "hour_summary (day + h * hour_ns) rs s m = Some r" and "h \<in> {0..<24}"
  shows "rr_min r \<in> set (map rd_value (of_metric reading_group s m (readings_between day (day + day_ns) rs)))"
    and "rr_max r \<in> set (map rd_value (of_metric reading_group s m (readings_between day (day + day_ns) rs)))"
proof -
  let ?g = "of_metric reading_group s m (readings_between (day + h * hour_ns) (day + h * hour_ns + hour_ns) rs)"
  have g: "?g \<noteq> []" "rr_min r = list_min (map rd_value ?g)" "rr_max r = list_max (map rd_value ?g)"
    using assms(1) by (auto simp: hour_summary_def Let_def split: if_splits)
  have "set ?g \<subseteq> set (of_metric reading_group s m (readings_between day (day + day_ns) rs))"
    using assms(2) by (auto simp: of_metric_def readings_between_def)
  then have sub: "set (map rd_value ?g) \<subseteq> set (map rd_value (of_metric reading_group s m (readings_between day (day + day_ns) rs)))"
    unfolding set_map by (rule image_mono)
  have "map rd_value ?g \<noteq> []" using g(1) by simp
  then show "rr_min r \<in> set (map rd_value (of_metric reading_group s m (readings_between day (day + day_ns) rs)))"
    "rr_max r \<in> set (map rd_value (of_metric reading_group s m (readings_between day (day + day_ns) rs)))"
    unfolding g(2,3) using list_min_in list_max_in sub by blast+
qed

lemma rolled_reading:
  assumes "x \<in> set (of_metric reading_group s m (readings_between day (day + day_ns) rs))"
  shows "\<exists>h \<in> {0..<24}. \<exists>r. hour_summary (day + h * hour_ns) rs s m = Some r \<and> rr_min r \<le> rd_value x \<and> rd_value x \<le> rr_max r"
proof -
  have x: "x \<in> set rs" "day \<le> rd_recorded_at x" "rd_recorded_at x < day + day_ns" "rd_source_id x = s" "rd_metric x = m"
    using assms by (auto simp: of_metric_def readings_between_def reading_group_def)
  obtain h where h: "h \<in> {0..<24}" "day + h * hour_ns \<le> rd_recorded_at x" "rd_recorded_at x < day + h * hour_ns + hour_ns"
    using hour_in_day [OF x(2,3)] by blast
  let ?g = "of_metric reading_group s m (readings_between (day + h * hour_ns) (day + h * hour_ns + hour_ns) rs)"
  have g: "x \<in> set ?g" using x h by (simp add: of_metric_def readings_between_def reading_group_def)
  then have "?g \<noteq> []" by auto
  then obtain r where r: "hour_summary (day + h * hour_ns) rs s m = Some r"
      "rr_min r = list_min (map rd_value ?g)" "rr_max r = list_max (map rd_value ?g)"
    by (auto simp: hour_summary_def Let_def)
  have "rd_value x \<in> set (map rd_value ?g)" using g by simp
  with r h(1) show ?thesis using list_min_least list_max_greatest by metis
qed

text \<open>If the 24 hourly rows of a source and metric hold the summaries of their hours, the row the daily job
  stores for that day has the least and the greatest reading of the whole day; its average is the mean of the
  hourly means.\<close>

theorem daily_rollup_of_complete_day:
  fixes now :: go_time
  assumes "d_faults d = []" and "rollups_ok d" and "one_type rollup_group (d_resource_rollups d)"
    and "day = truncate_to day_ns now - day_ns" and "day_is_rolled day s m d"
    and "day_readings = of_metric reading_group s m (readings_between day (day + day_ns) (d_readings d))"
    and "day_readings \<noteq> []"
  shows "\<exists>r. lookup_row rr_key (s, m, ''day'', day) (d_resource_rollups (snd (run_daily_rollup now d))) = Some r
    \<and> rr_min r = list_min (map rd_value day_readings) \<and> rr_max r = list_max (map rd_value day_readings)
    \<and> rr_avg r = list_avg (map rr_avg (of_metric rollup_group s m (hours_between day (day + day_ns) (d_resource_rollups d))))"
proof -
  let ?rows = "hours_between day (day + day_ns) (d_resource_rollups d)"
  let ?g = "of_metric rollup_group s m ?rows"
  have "day mod day_ns = 0" by (simp add: assms(4) truncate_mod)
  then have al: "day mod hour_ns = 0" by (auto elim!: dvd_trans [rotated] simp: mod_eq_0_iff_dvd)
  note in_g = rolled_hours [OF assms(2,5) al]
  have one: "one_type rollup_group ?rows" by (rule one_type_subset [OF assms(3)]) (auto simp: hours_between_def)
  have types: "fst (snd (rollup_group r)) \<in> set resource_source_types" if "r \<in> set ?rows" for r
    using that assms(2) by (auto simp: rollups_ok_def hours_between_def list_all_iff rollup_group_def rr_ok_def rr_row_ok_def)
  have run: "run_daily_rollup now d = each_ok (\<lambda>a. resource_rollup_upsert (rollup_of ''day'' day a))
      (aggregate_by rollup_group rr_avg rr_min rr_max ?rows) d"
    using assms(1) by (simp add: run_daily_rollup_def aggregate_hourly_rollups_def Let_def assms(4))
  obtain x where "x \<in> set day_readings" using assms(7) by (cases day_readings) auto
  then have ne: "?g \<noteq> []" using rolled_reading assms(6) in_g by (metis empty_iff empty_set)
  have parts: "rr_min r \<in> set (map rd_value day_readings)" "rr_max r \<in> set (map rd_value day_readings)" if r: "r \<in> set ?g" for r
  proof -
    obtain h where h: "h \<in> {0..<24}" "hour_summary (day + h * hour_ns) (d_readings d) s m = Some r" using r in_g by blast
    show "rr_min r \<in> set (map rd_value day_readings)" "rr_max r \<in> set (map rd_value day_readings)"
      unfolding assms(6) using rolled_part [OF h(2,1)] by blast+
  qed
  have covered: "\<exists>r \<in> set ?g. rr_min r \<le> rd_value x \<and> rd_value x \<le> rr_max r" if "x \<in> set day_readings" for x
    using rolled_reading [OF that [unfolded assms(6)]] in_g by blast
  have "list_min (map rr_min ?g) = list_min (map rd_value day_readings)"
    by (rule list_min_of_parts) (use ne parts(1) covered in \<open>simp, auto\<close>)
  moreover have "list_max (map rr_max ?g) = list_max (map rd_value day_readings)"
    by (rule list_max_of_parts) (use ne parts(2) covered in \<open>simp, auto\<close>)
  ultimately show ?thesis
    unfolding run using rollup_exact [OF assms(1) one _ types, of "''day''" s m day rr_avg rr_min rr_max] ne
    by (simp add: Let_def)
qed

section \<open>Purging, and what the daily job misses\<close>

text \<open>The purge deletes readings older than seven days and hourly rows older than ninety days, and nothing else.\<close>

lemma retention_purge_keeps:
  assumes "d_faults d = []"
  shows "run_retention_purge now d = (Inr (), d\<lparr>
      d_readings := filter (\<lambda>r. now - 7 * day_ns \<le> rd_recorded_at r) (d_readings d),
      d_resource_rollups := filter (\<lambda>r. rr_period_type r \<noteq> ''hour'' \<or> now - 90 * day_ns \<le> rr_period_start r) (d_resource_rollups d)\<rparr>)"
  using assms by (simp add: run_retention_purge_def purge_readings_def purge_hourly_rollups_def Let_def not_less)

definition late_reading :: resource_reading where
  "late_reading = \<lparr>rd_id = ''r'', rd_source_id = ''pve1'', rd_source_type = ''proxmox_node'', rd_metric = ''cpu_percent'',
     rd_value = 50, rd_recorded_at = 23 * hour_ns + 1, rd_app_id = None\<rparr>"

text \<open>A reading of the last hour of a day: the daily job runs at midnight, before the hourly job can have stored that
  hour, and the next daily run is about the next day. Its row of that day never counts the hour.\<close>

lemma daily_rollup_misses_last_hour:
  "(let d1 = run_daily_jobs day_ns (empty_db\<lparr>d_readings := [late_reading]\<rparr>);
        d2 = snd (run_hourly_rollup (day_ns + hour_ns div 60) d1);
        d3 = run_daily_jobs (2 * day_ns) d2
    in lookup_row rr_key (''pve1'', ''cpu_percent'', ''hour'', 23 * hour_ns) (d_resource_rollups d3) \<noteq> None
     \<and> lookup_row rr_key (''pve1'', ''cpu_percent'', ''day'', 0) (d_resource_rollups d3) = None)"
  by code_simp

definition early_readings :: db where
  "early_readings = empty_db\<lparr>d_readings := [late_reading\<lparr>rd_recorded_at := 5\<rparr>,
     late_reading\<lparr>rd_id := ''r2'', rd_value := 30, rd_recorded_at := 7\<rparr>]\<rparr>"

theorem rollups_stay_ok_witness:
  "rollups_ok (snd (reading_create late_reading early_readings)) \<and> rollups_ok (snd (run_hourly_rollup hour_ns early_readings))
    \<and> rollups_ok (run_daily_jobs hour_ns early_readings)"
proof -
  have "rollups_ok early_readings" by code_simp
  then show ?thesis by (rule rollups_stay_ok)
qed

theorem hourly_rollup_exact_witness:
  "lookup_row rr_key (''pve1'', ''cpu_percent'', ''hour'', 0) (d_resource_rollups (snd (run_hourly_rollup hour_ns early_readings)))
    = Some \<lparr>rr_source_id = ''pve1'', rr_source_type = ''proxmox_node'', rr_metric = ''cpu_percent'', rr_period_type = ''hour'',
        rr_period_start = 0, rr_avg = 40, rr_min = 30, rr_max = 50\<rparr>"
proof -
  have h: "d_faults early_readings = []" by code_simp
  have ok: "rollups_ok early_readings" by code_simp
  have start: "0 = truncate_to hour_ns hour_ns - hour_ns" by (simp add: truncate_to_def)
  let ?g = "filter (\<lambda>r. rd_source_id r = ''pve1'' \<and> rd_metric r = ''cpu_percent'' \<and> 0 \<le> rd_recorded_at r \<and> rd_recorded_at r < 0 + hour_ns)
    (d_readings early_readings)"
  have all: "?g = d_readings early_readings" by (simp add: early_readings_def late_reading_def)
  have ty: "rd_source_type r = ''proxmox_node''" if "r \<in> set (d_readings early_readings)" for r
    using that by (auto simp: early_readings_def late_reading_def)
  have vs: "map rd_value (filter (\<lambda>r. rd_source_type r = ''proxmox_node'') ?g) = [50, 30]" unfolding all by code_simp
  have "?g \<noteq> []" unfolding all by (simp add: early_readings_def)
  then have hour: "((''hour'', 0 :: int) = (''hour'', 0) \<and> ?g \<noteq> []) = True" by simp
  have "\<exists>ty \<in> rd_source_type ` set ?g.
      lookup_row rr_key (''pve1'', ''cpu_percent'', ''hour'', 0) (d_resource_rollups (snd (run_hourly_rollup hour_ns early_readings)))
        = Some \<lparr>rr_source_id = ''pve1'', rr_source_type = ty, rr_metric = ''cpu_percent'', rr_period_type = ''hour'', rr_period_start = 0,
          rr_avg = list_avg (map rd_value (filter (\<lambda>r. rd_source_type r = ty) ?g)),
          rr_min = list_min (map rd_value (filter (\<lambda>r. rd_source_type r = ty) ?g)),
          rr_max = list_max (map rd_value (filter (\<lambda>r. rd_source_type r = ty) ?g))\<rparr>"
    using hourly_rollup_exact [OF h ok start refl refl, where s = "''pve1''" and m = "''cpu_percent''" and p = "''hour''" and t = 0]
    unfolding hour Let_def if_True .
  then obtain ty where "ty \<in> rd_source_type ` set ?g" and row:
      "lookup_row rr_key (''pve1'', ''cpu_percent'', ''hour'', 0) (d_resource_rollups (snd (run_hourly_rollup hour_ns early_readings)))
        = Some \<lparr>rr_source_id = ''pve1'', rr_source_type = ty, rr_metric = ''cpu_percent'', rr_period_type = ''hour'', rr_period_start = 0,
          rr_avg = list_avg (map rd_value (filter (\<lambda>r. rd_source_type r = ty) ?g)),
          rr_min = list_min (map rd_value (filter (\<lambda>r. rd_source_type r = ty) ?g)),
          rr_max = list_max (map rd_value (filter (\<lambda>r. rd_source_type r = ty) ?g))\<rparr>" by (elim bexE)
  then have "ty = ''proxmox_node''" unfolding all using ty by auto
  then show ?thesis using row unfolding vs [folded \<open>ty = ''proxmox_node''\<close>]
    by (simp add: list_avg_def list_min_def list_max_def)
qed

text \<open>A source whose type changes within the hour: the readings are grouped by type, the key of the table has no type,
  and the row of one group replaces that of the other. The mean of the hour would be 40.\<close>

lemma type_change_halves_hour:
  "let d = empty_db\<lparr>d_readings := [late_reading\<lparr>rd_source_type := ''vm_other'', rd_recorded_at := 5\<rparr>,
       late_reading\<lparr>rd_id := ''r2'', rd_source_type := ''vm_linux'', rd_value := 30, rd_recorded_at := 7\<rparr>]\<rparr>
   in map (\<lambda>r. (rr_source_type r, rr_avg r)) (d_resource_rollups (snd (run_hourly_rollup hour_ns d))) = [(''vm_linux'', 30)]"
  by code_simp

definition rolled_day :: db where
  "rolled_day = snd (run_hourly_rollup hour_ns early_readings)"

theorem daily_rollup_of_complete_day_witness:
  "\<exists>r. lookup_row rr_key (''pve1'', ''cpu_percent'', ''day'', 0) (d_resource_rollups (snd (run_daily_rollup day_ns rolled_day))) = Some r
    \<and> rr_min r = 30 \<and> rr_max r = 50"
proof -
  have f: "d_faults rolled_day = []" by code_simp
  have ok: "rollups_ok rolled_day" by code_simp
  have one: "one_type rollup_group (d_resource_rollups rolled_day)" by code_simp
  have day: "0 = truncate_to day_ns day_ns - day_ns" by (simp add: truncate_to_def)
  have rows: "d_resource_rollups rolled_day = [\<lparr>rr_source_id = ''pve1'', rr_source_type = ''proxmox_node'', rr_metric = ''cpu_percent'',
      rr_period_type = ''hour'', rr_period_start = 0, rr_avg = 40, rr_min = 30, rr_max = 50\<rparr>]" by code_simp
  have rds: "map rd_recorded_at (d_readings rolled_day) = [5, 7]" by code_simp
  have none: "hour_summary (h * hour_ns) (d_readings rolled_day) ''pve1'' ''cpu_percent'' = None" if "1 \<le> h" for h
  proof -
    have "\<not> h * hour_ns \<le> t" if "t \<in> {5, 7}" for t using that \<open>1 \<le> h\<close> by auto
    moreover have "rd_recorded_at r \<in> {5, 7}" if "r \<in> set (d_readings rolled_day)" for r
      using arg_cong [OF rds, of set] that by auto
    ultimately show ?thesis by (auto simp: hour_summary_def of_metric_def readings_between_def filter_empty_conv)
  qed
  have zero: "hour_summary 0 (d_readings rolled_day) ''pve1'' ''cpu_percent'' = Some (hd (d_resource_rollups rolled_day))" by code_simp
  have rolled: "day_is_rolled 0 ''pve1'' ''cpu_percent'' rolled_day"
    unfolding day_is_rolled_def
  proof
    fix h :: int assume "h \<in> {0..<24}"
    then consider "h = 0" | "1 \<le> h" by fastforce
    then show "lookup_row rr_key (''pve1'', ''cpu_percent'', ''hour'', 0 + h * hour_ns) (d_resource_rollups rolled_day)
        = hour_summary (0 + h * hour_ns) (d_readings rolled_day) ''pve1'' ''cpu_percent''"
      by cases (simp_all add: none zero rows rr_key_def)
  qed
  let ?rs = "of_metric reading_group ''pve1'' ''cpu_percent'' (readings_between 0 (0 + day_ns) (d_readings rolled_day))"
  have rs: "map rd_value ?rs = [50, 30]" by code_simp
  then have ne: "?rs \<noteq> []" by auto
  have "list_min (map rd_value ?rs) = 30" unfolding rs by (simp add: list_min_def)
  moreover have "list_max (map rd_value ?rs) = 50" unfolding rs by (simp add: list_max_def)
  ultimately show ?thesis
    using daily_rollup_of_complete_day [OF f ok one day rolled refl ne] by auto
qed

end
