(* ===== verification/Apps.thy ===== *)
theory Apps
  imports Ingest Discovery Thresholds Jobs Rollups
begin

text \<open>
  Applications: internal/repo/apps.go and the handlers of internal/api/apps.go. The icon cache
  (\<open>EnsureIcon\<close>) is a background download and not part of the state. The creation time of a row is the
  database's clock (a column default), the one of the answer is the server's.
\<close>

section \<open>apps.go (repo)\<close>

definition app_list_by_host :: "string \<Rightarrow> db \<Rightarrow> app_row list db_result" where
  "app_list_by_host hid = db_query (\<lambda>d. order_asc ap_created_at
     (concat (map (\<lambda>a. map (\<lambda>_. a)
        (filter (\<lambda>l. cl_child_id l = ap_id a \<and> cl_child_type l = ''app'' \<and> cl_parent_id l = hid) (d_links d))) (d_apps d))))"

definition app_create :: "go_time \<Rightarrow> app_row \<Rightarrow> db \<Rightarrow> unit db_result" where
  "app_create db_now a = db_op (\<lambda>d.
     if ap_id a \<in> ap_id ` set (d_apps d) \<or> ap_token a \<in> ap_token ` set (d_apps d) then (Inl DbFail, d)
     else (Inr (), d\<lparr>d_apps := d_apps d @ [a\<lparr>ap_created_at := db_now\<rparr>]\<rparr>))"

definition app_get :: "string \<Rightarrow> db \<Rightarrow> app_row db_result" where
  "app_get aid = db_op (\<lambda>d. case lookup_row ap_id aid (d_apps d) of
       Some a \<Rightarrow> (Inr a, d) | None \<Rightarrow> (Inl NotFound, d))"

definition app_update :: "app_row \<Rightarrow> db \<Rightarrow> unit db_result" where
  "app_update n = db_op (\<lambda>d. (if ap_id n \<in> ap_id ` set (d_apps d) then Inr () else Inl NotFound,
     d\<lparr>d_apps := update_where (\<lambda>a. ap_id a = ap_id n) (\<lambda>a. a\<lparr>ap_name := ap_name n, ap_profile_id := ap_profile_id n,
         ap_config := ap_config n, ap_rate_limit := ap_rate_limit n\<rparr>) (d_apps d)\<rparr>))"

text \<open>Rollups and metrics of the app go with it (ON DELETE CASCADE); checks, containers, routes and
  readings lose their reference (ON DELETE SET NULL); links, polled values and events have none.\<close>

definition app_delete :: "string \<Rightarrow> db \<Rightarrow> unit db_result" where
  "app_delete aid = db_op (\<lambda>d. if aid \<notin> ap_id ` set (d_apps d) then (Inl NotFound, d)
     else (Inr (), d\<lparr>d_apps := filter (\<lambda>a. ap_id a \<noteq> aid) (d_apps d),
         d_rollups := filter (\<lambda>r. ro_app_id r \<noteq> aid) (d_rollups d),
         d_metrics := filter (\<lambda>m. am_app_id m \<noteq> aid) (d_metrics d),
         d_checks := update_where (\<lambda>c. mc_app_id c = aid) (\<lambda>c. c\<lparr>mc_app_id := []\<rparr>) (d_checks d),
         d_containers := update_where (\<lambda>c. dc_app_id c = Some aid) (\<lambda>c. c\<lparr>dc_app_id := None\<rparr>) (d_containers d),
         d_routes := update_where (\<lambda>r. rt_app_id r = Some aid) (\<lambda>r. r\<lparr>rt_app_id := None\<rparr>) (d_routes d),
         d_readings := update_where (\<lambda>r. rd_app_id r = Some aid) (\<lambda>r. r\<lparr>rd_app_id := None\<rparr>) (d_readings d)\<rparr>))"

text \<open>The token column is UNIQUE: another app's token is refused.\<close>

definition app_update_token :: "string \<Rightarrow> string \<Rightarrow> db \<Rightarrow> unit db_result" where
  "app_update_token aid tok = db_op (\<lambda>d.
     if aid \<notin> ap_id ` set (d_apps d) then (Inl NotFound, d)
     else if tok \<in> ap_token ` set (filter (\<lambda>a. ap_id a \<noteq> aid) (d_apps d)) then (Inl DbFail, d)
     else (Inr (), d\<lparr>d_apps := update_where (\<lambda>a. ap_id a = aid) (\<lambda>a. a\<lparr>ap_token := tok\<rparr>) (d_apps d)\<rparr>))"

section \<open>apps.go (api)\<close>

text \<open>A request body that could not be decoded is \<open>None\<close>; an absent config is the empty string.\<close>

record app_request =
  aq_name :: string
  aq_profile_id :: "string option"
  aq_config :: string
  aq_rate_limit :: int

definition app_failure :: "db_error \<Rightarrow> 'a response" where
  "app_failure e = (if e = NotFound then Failed 404 ''app not found'' else Failed 500 ''database'')"

definition apps_handler_list :: "db \<Rightarrow> (app_row list \<times> nat) response \<times> db" where
  "apps_handler_list d0 = (case app_list d0 of
       (Inl _, d1) \<Rightarrow> (Failed 500 ''database'', d1) | (Inr as, d1) \<Rightarrow> (Answer 200 (as, length as), d1))"

definition new_app :: "string \<Rightarrow> string \<Rightarrow> go_time \<Rightarrow> app_request \<Rightarrow> app_row" where
  "new_app uuid tok now q = \<lparr>ap_id = uuid, ap_name = aq_name q, ap_token = tok,
     ap_profile_id = (case aq_profile_id q of None \<Rightarrow> [] | Some p \<Rightarrow> p),
     ap_config = (if aq_config q \<noteq> [] then aq_config q else ''{}''),
     ap_rate_limit = (if aq_rate_limit q \<le> 0 then 100 else aq_rate_limit q), ap_created_at = now\<rparr>"

text \<open>\<open>tok\<close> is what \<open>generateToken\<close> made of 32 random bytes, \<open>None\<close> if the random source failed.\<close>

definition apps_handler_create ::
  "string \<Rightarrow> string option \<Rightarrow> go_time \<Rightarrow> go_time \<Rightarrow> app_request option \<Rightarrow> db \<Rightarrow> app_row response \<times> db" where
  "apps_handler_create uuid tok now db_now body d0 = (case body of
       None \<Rightarrow> (Failed 400 ''invalid request body'', d0)
     | Some q \<Rightarrow> (if aq_name q = [] then (Failed 400 ''name is required'', d0)
         else case tok of
           None \<Rightarrow> (Failed 500 ''failed to generate token'', d0)
         | Some t \<Rightarrow> (case app_create db_now (new_app uuid t now q) d0 of
               (Inl _, d1) \<Rightarrow> (Failed 500 ''database'', d1)
             | (Inr _, d1) \<Rightarrow> (Answer 201 (new_app uuid t now q), d1))))"

definition apps_handler_get :: "string \<Rightarrow> db \<Rightarrow> app_row response \<times> db" where
  "apps_handler_get aid d0 = (case app_get aid d0 of
       (Inl e, d1) \<Rightarrow> (app_failure e, d1) | (Inr a, d1) \<Rightarrow> (Answer 200 a, d1))"

definition apply_app_request :: "app_request \<Rightarrow> app_row \<Rightarrow> app_row" where
  "apply_app_request q a = a\<lparr>ap_name := (if aq_name q \<noteq> [] then aq_name q else ap_name a),
     ap_profile_id := (case aq_profile_id q of None \<Rightarrow> ap_profile_id a | Some p \<Rightarrow> p),
     ap_config := (if aq_config q \<noteq> [] then aq_config q else ap_config a),
     ap_rate_limit := (if 0 < aq_rate_limit q then aq_rate_limit q else ap_rate_limit a)\<rparr>"

definition apps_handler_update :: "string \<Rightarrow> app_request option \<Rightarrow> db \<Rightarrow> app_row response \<times> db" where
  "apps_handler_update aid body d0 = (case app_get aid d0 of
       (Inl e, d1) \<Rightarrow> (app_failure e, d1)
     | (Inr a, d1) \<Rightarrow> (case body of
           None \<Rightarrow> (Failed 400 ''invalid request body'', d1)
         | Some q \<Rightarrow> (case app_update (apply_app_request q a) d1 of
               (Inl _, d2) \<Rightarrow> (Failed 500 ''database'', d2)
             | (Inr _, d2) \<Rightarrow> (Answer 200 (apply_app_request q a), d2))))"

definition apps_handler_delete :: "string \<Rightarrow> db \<Rightarrow> unit response \<times> db" where
  "apps_handler_delete aid d0 = (case app_delete aid d0 of
       (Inl e, d1) \<Rightarrow> (app_failure e, d1) | (Inr _, d1) \<Rightarrow> (Answer 204 (), d1))"

definition apps_handler_regenerate_token :: "string \<Rightarrow> string option \<Rightarrow> db \<Rightarrow> string response \<times> db" where
  "apps_handler_regenerate_token aid tok d0 = (case app_get aid d0 of
       (Inl e, d1) \<Rightarrow> (app_failure e, d1)
     | (Inr _, d1) \<Rightarrow> (case tok of
           None \<Rightarrow> (Failed 500 ''failed to generate token'', d1)
         | Some t \<Rightarrow> (case app_update_token aid t d1 of
               (Inl _, d2) \<Rightarrow> (Failed 500 ''database'', d2) | (Inr _, d2) \<Rightarrow> (Answer 200 t, d2))))"

section \<open>The infrastructure chain of an app\<close>

record chain_node =
  cn_type :: string
  cn_id :: string
  cn_name :: string
  cn_status :: string
  cn_detail :: string
  cn_icon_url :: string

record chain_route =
  ct_router :: string
  ct_rule :: string
  ct_service :: string
  ct_status :: string
  ct_service_status :: string
  ct_servers_up :: int
  ct_servers_down :: int
  ct_server_count :: int
  ct_servers_json :: "string option"
  ct_manual_link :: bool

text \<open>The last component of the path without the tag; strings of one byte stay as they are.\<close>

definition short_image :: "string \<Rightarrow> string" where
  "short_image img =
     (let s = (if 1 < length img then (case split_last (CHR ''/'') img of Some (_, b) \<Rightarrow> b | None \<Rightarrow> img) else img)
      in if 1 < length s then (case split_first (CHR '':'') s of Some (a, _) \<Rightarrow> a | None \<Rightarrow> s) else s)"

definition icon_url :: "string \<Rightarrow> string" where
  "icon_url profile = (if profile = [] then [] else ''/api/v1/icons/'' @ profile)"

definition resolve_chain_node :: "string \<Rightarrow> string \<Rightarrow> db \<Rightarrow> chain_node \<times> db" where
  "resolve_chain_node nt nid d0 =
     (let plain = \<lparr>cn_type = nt, cn_id = nid, cn_name = nid, cn_status = [], cn_detail = [], cn_icon_url = []\<rparr> in
      if nt = ''container'' then
        (case container_get nid d0 of
           (Inl _, d1) \<Rightarrow> (plain, d1)
         | (Inr c, d1) \<Rightarrow>
             (let with_icon = (\<lambda>u. plain\<lparr>cn_name := dc_container_name c, cn_status := dc_status c,
                                cn_detail := short_image (dc_image c), cn_icon_url := u\<rparr>) in
              case dc_app_id c of
                None \<Rightarrow> (with_icon [], d1)
              | Some aid \<Rightarrow> (if aid = [] then (with_icon [], d1)
                  else case app_get aid d1 of
                    (Inl _, d2) \<Rightarrow> (with_icon [], d2)
                  | (Inr a, d2) \<Rightarrow> (with_icon (icon_url (ap_profile_id a)), d2))))
      else
        (case component_get nid d0 of
           (Inl _, d1) \<Rightarrow> (plain, d1)
         | (Inr c, d1) \<Rightarrow> (plain\<lparr>cn_name := ic_name c, cn_status := ic_last_status c, cn_detail := ic_ip c\<rparr>, d1)))"

text \<open>The walk along the parents: the nodes and the id of a Traefik component that ended it.\<close>

fun walk_chain :: "nat \<Rightarrow> string \<Rightarrow> string \<Rightarrow> db \<Rightarrow> chain_node list \<times> string \<times> db" where
  "walk_chain 0 ct cid d0 = ([], [], d0)"
| "walk_chain (Suc n) ct cid d0 = (case get_parent ct cid d0 of
       (Inl _, d1) \<Rightarrow> ([], [], d1)
     | (Inr l, d1) \<Rightarrow>
         (if cl_parent_type l = ''traefik'' then ([], cl_parent_id l, d1)
          else if cl_parent_type l = ''traefik_route'' then ([], [], d1)
          else case resolve_chain_node (cl_parent_type l) (cl_parent_id l) d1 of
            (node, d2) \<Rightarrow> (case walk_chain n (cl_parent_type l) (cl_parent_id l) d2 of
              (nodes, tid, d3) \<Rightarrow> (node # nodes, tid, d3))))"

definition chain_hops :: nat where
  "chain_hops = 10"

definition chain_route_of :: "route \<Rightarrow> chain_route" where
  "chain_route_of r = \<lparr>ct_router = rt_router_name r, ct_rule = rt_rule r,
     ct_service = (case rt_service_name r of None \<Rightarrow> [] | Some s \<Rightarrow> s), ct_status = rt_router_status r,
     ct_service_status = (case rt_service_status r of None \<Rightarrow> [] | Some s \<Rightarrow> s),
     ct_servers_up = rt_servers_up r, ct_servers_down = rt_servers_down r, ct_server_count = rt_servers_total r,
     ct_servers_json = rt_servers_json r, ct_manual_link = False\<rparr>"

definition apps_handler_get_chain :: "string \<Rightarrow> db \<Rightarrow> (chain_node list \<times> chain_route list) response \<times> db" where
  "apps_handler_get_chain aid d0 = (case app_get aid d0 of
       (Inl e, d1) \<Rightarrow> (app_failure e, d1)
     | (Inr a, d1) \<Rightarrow> (case walk_chain chain_hops ''app'' aid d1 of
         (nodes, tid, d2) \<Rightarrow> (case route_list_by_app aid d2 of
           (r, d3) \<Rightarrow>
             (let head = \<lparr>cn_type = ''app'', cn_id = ap_id a, cn_name = ap_name a, cn_status = [], cn_detail = [],
                          cn_icon_url = icon_url (ap_profile_id a)\<rparr>;
                  routes = (case r of Inl _ \<Rightarrow> [] | Inr rs \<Rightarrow> map chain_route_of rs)
              in if routes = [] \<and> tid \<noteq> [] then
                   (case component_get tid d3 of
                      (Inl _, d4) \<Rightarrow> (Answer 200 (head # nodes, []), d4)
                    | (Inr c, d4) \<Rightarrow> (Answer 200 (head # nodes, [\<lparr>ct_router = ic_name c, ct_rule = [], ct_service = [],
                        ct_status = ic_last_status c, ct_service_status = [], ct_servers_up = 0, ct_servers_down = 0,
                        ct_server_count = 0, ct_servers_json = None, ct_manual_link = True\<rparr>]), d4))
                 else (Answer 200 (head # nodes, routes), d3)))))"

section \<open>References stay valid\<close>

definition app_refs_ok :: "db \<Rightarrow> bool" where
  "app_refs_ok d = (let ids = ap_id ` set (d_apps d) in
     distinct (map ap_id (d_apps d)) \<and> distinct (map ap_token (d_apps d))
     \<and> (\<forall>r \<in> set (d_rollups d). ro_app_id r \<in> ids) \<and> (\<forall>m \<in> set (d_metrics d). am_app_id m \<in> ids)
     \<and> (\<forall>c \<in> set (d_checks d). mc_app_id c = [] \<or> mc_app_id c \<in> ids)
     \<and> (\<forall>c \<in> set (d_containers d). \<forall>a. dc_app_id c = Some a \<longrightarrow> a \<in> ids)
     \<and> (\<forall>r \<in> set (d_routes d). \<forall>a. rt_app_id r = Some a \<longrightarrow> a \<in> ids)
     \<and> (\<forall>r \<in> set (d_readings d). \<forall>a. rd_app_id r = Some a \<longrightarrow> a \<in> ids))"

lemma app_refs_blind: "fault_blind app_refs_ok"
  by (simp add: fault_blind_def app_refs_ok_def)

lemma app_get_state: "app_refs_ok d \<Longrightarrow> app_refs_ok (snd (app_get aid d))"
  unfolding app_get_def by (rule db_op_invariant [OF app_refs_blind]) (auto split: option.split)

lemma app_create_ok: "app_refs_ok d \<Longrightarrow> app_refs_ok (snd (app_create now a d))"
  unfolding app_create_def
  by (rule db_op_invariant [OF app_refs_blind]) (auto simp: app_refs_ok_def Let_def)

lemma update_app_rows:
  assumes "\<And>a. ap_id (f a) = ap_id a"
  shows "map ap_id (update_where P f as) = map ap_id as" "ap_id ` set (update_where P f as) = ap_id ` set as"
proof -
  show m: "map ap_id (update_where P f as) = map ap_id as" by (simp add: map_update_where assms)
  show "ap_id ` set (update_where P f as) = ap_id ` set as" using arg_cong [OF m, of set] by simp
qed

lemma app_update_ok: "app_refs_ok d \<Longrightarrow> app_refs_ok (snd (app_update n d))"
  unfolding app_update_def
  by (rule db_op_invariant [OF app_refs_blind])
    (simp_all add: app_refs_ok_def Let_def update_app_rows map_update_where)

lemma app_refs_okI:
  assumes "d_apps d = as" "d_rollups d = ros" "d_metrics d = ms" "d_checks d = cs" "d_containers d = ks" "d_routes d = rs"
    "d_readings d = xs"
    and "distinct (map ap_id as)" and "distinct (map ap_token as)" and "ap_id ` set as = ids"
    and "\<forall>r \<in> set ros. ro_app_id r \<in> ids" and "\<forall>m \<in> set ms. am_app_id m \<in> ids"
    and "\<forall>c \<in> set cs. mc_app_id c = [] \<or> mc_app_id c \<in> ids"
    and "\<forall>c \<in> set ks. \<forall>a. dc_app_id c = Some a \<longrightarrow> a \<in> ids"
    and "\<forall>r \<in> set rs. \<forall>a. rt_app_id r = Some a \<longrightarrow> a \<in> ids"
    and "\<forall>r \<in> set xs. \<forall>a. rd_app_id r = Some a \<longrightarrow> a \<in> ids"
  shows "app_refs_ok d"
  using assms by (simp add: app_refs_ok_def Let_def)

lemma cleared_refs:
  assumes "\<And>x a. x \<in> set xs \<Longrightarrow> f x = Some a \<Longrightarrow> a \<in> ids" and "\<And>x. f (g x) = None"
  shows "\<forall>x \<in> set (update_where (\<lambda>x. f x = Some aid) g xs). \<forall>a. f x = Some a \<longrightarrow> a \<in> ids - {aid}"
  using assms by (auto simp: update_where_def)

lemma app_delete_ok: "app_refs_ok d \<Longrightarrow> app_refs_ok (snd (app_delete aid d))"
  unfolding app_delete_def
proof (rule db_op_invariant [OF app_refs_blind])
  fix d assume ok: "app_refs_ok d"
  let ?ids = "ap_id ` set (d_apps d)"
  have ids: "ap_id ` set (filter (\<lambda>a. ap_id a \<noteq> aid) (d_apps d)) = ?ids - {aid}" by auto
  have dist: "distinct (map ap_id (filter P (d_apps d)))" "distinct (map ap_token (filter P (d_apps d)))" for P
    using ok by (auto simp: app_refs_ok_def Let_def intro: distinct_map_filter)
  have checks: "\<forall>c \<in> set (update_where (\<lambda>c. mc_app_id c = aid) (\<lambda>c. c\<lparr>mc_app_id := []\<rparr>) (d_checks d)).
      mc_app_id c = [] \<or> mc_app_id c \<in> ?ids - {aid}"
    using ok by (auto simp: app_refs_ok_def Let_def update_where_def)
  have containers: "\<forall>c \<in> set (update_where (\<lambda>c. dc_app_id c = Some aid) (\<lambda>c. c\<lparr>dc_app_id := None\<rparr>) (d_containers d)).
      \<forall>a. dc_app_id c = Some a \<longrightarrow> a \<in> ?ids - {aid}"
    by (rule cleared_refs) (use ok in \<open>simp_all add: app_refs_ok_def Let_def\<close>)
  have routes: "\<forall>r \<in> set (update_where (\<lambda>r. rt_app_id r = Some aid) (\<lambda>r. r\<lparr>rt_app_id := None\<rparr>) (d_routes d)).
      \<forall>a. rt_app_id r = Some a \<longrightarrow> a \<in> ?ids - {aid}"
    by (rule cleared_refs) (use ok in \<open>simp_all add: app_refs_ok_def Let_def\<close>)
  have readings: "\<forall>r \<in> set (update_where (\<lambda>r. rd_app_id r = Some aid) (\<lambda>r. r\<lparr>rd_app_id := None\<rparr>) (d_readings d)).
      \<forall>a. rd_app_id r = Some a \<longrightarrow> a \<in> ?ids - {aid}"
    by (rule cleared_refs) (use ok in \<open>simp_all add: app_refs_ok_def Let_def\<close>)
  have rollups: "\<forall>r \<in> set (filter (\<lambda>r. ro_app_id r \<noteq> aid) (d_rollups d)). ro_app_id r \<in> ?ids - {aid}"
    and metrics: "\<forall>m \<in> set (filter (\<lambda>m. am_app_id m \<noteq> aid) (d_metrics d)). am_app_id m \<in> ?ids - {aid}"
    using ok by (auto simp: app_refs_ok_def Let_def)
  note refs = app_refs_okI [OF _ _ _ _ _ _ _ dist ids rollups metrics checks containers routes readings]
  show "app_refs_ok (snd (if aid \<notin> ?ids then (Inl NotFound, d)
     else (Inr (), d\<lparr>d_apps := filter (\<lambda>a. ap_id a \<noteq> aid) (d_apps d),
         d_rollups := filter (\<lambda>r. ro_app_id r \<noteq> aid) (d_rollups d),
         d_metrics := filter (\<lambda>m. am_app_id m \<noteq> aid) (d_metrics d),
         d_checks := update_where (\<lambda>c. mc_app_id c = aid) (\<lambda>c. c\<lparr>mc_app_id := []\<rparr>) (d_checks d),
         d_containers := update_where (\<lambda>c. dc_app_id c = Some aid) (\<lambda>c. c\<lparr>dc_app_id := None\<rparr>) (d_containers d),
         d_routes := update_where (\<lambda>r. rt_app_id r = Some aid) (\<lambda>r. r\<lparr>rt_app_id := None\<rparr>) (d_routes d),
         d_readings := update_where (\<lambda>r. rd_app_id r = Some aid) (\<lambda>r. r\<lparr>rd_app_id := None\<rparr>) (d_readings d)\<rparr>)))"
  proof (cases "aid \<in> ?ids")
    case True
    then show ?thesis by (simp only: not_True_eq_False if_False snd_conv) (rule refs; simp)
  qed (use ok in \<open>simp only: not_False_eq_True if_True snd_conv\<close>)
qed

lemma distinct_new_token:
  assumes "distinct (map ap_id as)" and "distinct (map ap_token as)" and "tok \<notin> ap_token ` set (filter (\<lambda>a. ap_id a \<noteq> aid) as)"
  shows "distinct (map ap_token (update_where (\<lambda>a. ap_id a = aid) (\<lambda>a. a\<lparr>ap_token := tok\<rparr>) as))"
  using assms by (induction as) (auto simp: update_where_def image_iff split: if_splits)

lemma app_update_token_ok: "app_refs_ok d \<Longrightarrow> app_refs_ok (snd (app_update_token aid tok d))"
  unfolding app_update_token_def
  by (rule db_op_invariant [OF app_refs_blind])
    (auto simp: app_refs_ok_def Let_def update_app_rows distinct_new_token)

text \<open>The requests that change apps, and the writers of rows that refer to them.\<close>

datatype app_call =
    CreateApp string "string option" go_time go_time "app_request option"
  | UpdateApp string "app_request option"
  | DeleteApp string
  | RegenerateToken string "string option"
  | StoreRollup rollup
  | StoreMetric app_metric
  | StoreReading resource_reading
  | BackfillReadings string string

fun run_app_call :: "app_call \<Rightarrow> db \<Rightarrow> db" where
  "run_app_call (CreateApp uuid tok now dbn body) d = snd (apps_handler_create uuid tok now dbn body d)"
| "run_app_call (UpdateApp aid body) d = snd (apps_handler_update aid body d)"
| "run_app_call (DeleteApp aid) d = snd (apps_handler_delete aid d)"
| "run_app_call (RegenerateToken aid tok) d = snd (apps_handler_regenerate_token aid tok d)"
| "run_app_call (StoreRollup r) d = snd (rollup_upsert r d)"
| "run_app_call (StoreMetric m) d = snd (metric_upsert m d)"
| "run_app_call (StoreReading r) d = snd (reading_create r d)"
| "run_app_call (BackfillReadings kid aid) d = snd (reading_backfill_app_id kid aid d)"

lemma app_refs_readings:
  assumes "app_refs_ok d" and "\<And>x a. x \<in> set xs \<Longrightarrow> rd_app_id x = Some a \<Longrightarrow> a \<in> ap_id ` set (d_apps d)"
  shows "app_refs_ok (d\<lparr>d_readings := xs\<rparr>)"
  using assms by (simp add: app_refs_ok_def Let_def)

lemma app_writers_ok:
  assumes "app_refs_ok d"
  shows "app_refs_ok (snd (rollup_upsert r d))" "app_refs_ok (snd (metric_upsert m d))"
    "app_refs_ok (snd (reading_create x d))" "app_refs_ok (snd (reading_backfill_app_id kid aid d))"
proof -
  show "app_refs_ok (snd (rollup_upsert r d))" unfolding rollup_upsert_def
    by (rule db_op_invariant [OF app_refs_blind _ assms]) (auto simp: app_refs_ok_def Let_def in_replace)
  show "app_refs_ok (snd (metric_upsert m d))" unfolding metric_upsert_def
    by (rule db_op_invariant [OF app_refs_blind _ assms]) (auto simp: app_refs_ok_def Let_def in_replace)
  show "app_refs_ok (snd (reading_create x d))" unfolding reading_create_def
    by (rule db_op_invariant [OF app_refs_blind _ assms]) (auto simp: app_refs_ok_def Let_def)
  show "app_refs_ok (snd (reading_backfill_app_id kid aid d))" unfolding reading_backfill_app_id_def
  proof (rule db_op_invariant [OF app_refs_blind _ assms])
    fix d assume ok: "app_refs_ok d"
    let ?P = "\<lambda>r. rd_source_type r = ''docker_container'' \<and> rd_source_id r = kid \<and> rd_app_id r = None"
    have old: "a \<in> ap_id ` set (d_apps d)" if "x \<in> set (d_readings d)" "rd_app_id x = Some a" for x a
      using ok that by (simp add: app_refs_ok_def Let_def)
    have "app_refs_ok (d\<lparr>d_readings := update_where ?P (\<lambda>r. r\<lparr>rd_app_id := Some aid\<rparr>) (d_readings d)\<rparr>)"
      if "aid \<in> ap_id ` set (d_apps d) \<or> filter ?P (d_readings d) = []"
      by (rule app_refs_readings [OF ok]) (use that old in \<open>auto simp: update_where_def filter_empty_conv split: if_splits\<close>)
    then show "app_refs_ok (snd (let P = ?P in
        if aid \<in> ap_id ` set (d_apps d) \<or> filter P (d_readings d) = []
        then (Inr (length (filter P (d_readings d))), d\<lparr>d_readings := update_where P (\<lambda>r. r\<lparr>rd_app_id := Some aid\<rparr>) (d_readings d)\<rparr>)
        else (Inl DbFail, d)))"
      using ok unfolding Let_def by (simp only: snd_conv split: if_split) blast
  qed
qed

lemma create_handler_ok: "app_refs_ok d \<Longrightarrow> app_refs_ok (snd (apps_handler_create uuid tok now dbn body d))"
proof -
  assume ok: "app_refs_ok d"
  have "app_refs_ok (snd (case app_create dbn a d of (Inl _, d1) \<Rightarrow> (Failed 500 ''database'', d1) | (Inr _, d1) \<Rightarrow> (Answer 201 a, d1)))"
    for a :: app_row
    using app_create_ok [OF ok, of dbn a] by (cases "app_create dbn a d") (simp split: sum.split)
  then show ?thesis using ok by (simp add: apps_handler_create_def split: option.split)
qed

lemma update_handler_ok: "app_refs_ok d \<Longrightarrow> app_refs_ok (snd (apps_handler_update aid body d))"
proof -
  assume ok: "app_refs_ok d"
  obtain r d1 where g: "app_get aid d = (r, d1)" by fastforce
  have ok1: "app_refs_ok d1" using app_get_state [OF ok, of aid] g by simp
  have "app_refs_ok (snd (case app_update a d1 of (Inl _, d2) \<Rightarrow> (Failed 500 ''database'', d2) | (Inr _, d2) \<Rightarrow> (Answer 200 a, d2)))"
    for a :: app_row
    using app_update_ok [OF ok1, of a] by (cases "app_update a d1") (simp split: sum.split)
  then show ?thesis using ok1 by (simp add: apps_handler_update_def g split: option.split sum.split)
qed

lemma regenerate_handler_ok: "app_refs_ok d \<Longrightarrow> app_refs_ok (snd (apps_handler_regenerate_token aid tok d))"
proof -
  assume ok: "app_refs_ok d"
  obtain r d1 where g: "app_get aid d = (r, d1)" by fastforce
  have ok1: "app_refs_ok d1" using app_get_state [OF ok, of aid] g by simp
  have "app_refs_ok (snd (case app_update_token aid t d1 of (Inl _, d2) \<Rightarrow> (Failed 500 ''database'', d2) | (Inr _, d2) \<Rightarrow> (Answer 200 t, d2)))"
    for t
    using app_update_token_ok [OF ok1, of aid t] by (cases "app_update_token aid t d1") (simp split: sum.split)
  then show ?thesis using ok1 by (simp add: apps_handler_regenerate_token_def g split: option.split sum.split)
qed

lemma delete_handler_ok: "app_refs_ok d \<Longrightarrow> app_refs_ok (snd (apps_handler_delete aid d))"
  using app_delete_ok [of d aid] by (cases "app_delete aid d") (simp add: apps_handler_delete_def split: sum.split)

lemma run_app_call_ok: "app_refs_ok d \<Longrightarrow> app_refs_ok (run_app_call c d)"
  by (cases c) (simp_all add: create_handler_ok update_handler_ok delete_handler_ok regenerate_handler_ok app_writers_ok)

text \<open>C15: In every state the app requests and the jobs can reach, whatever statements fail, ids and tokens of apps
  are unique, and in the six tables whose app column is a foreign key (rollups, app metrics, checks, containers, routes
  and resource readings) every row that names an app names an existing one. The component links and the values of the
  API poll (app_metric_snapshots) have no foreign key and are not covered.\<close>

theorem app_references_stay_valid:
  assumes "app_refs_ok d"
  shows "app_refs_ok (fold run_app_call cs d)"
  using assms by (induction cs arbitrary: d) (simp_all add: run_app_call_ok)

definition app_db :: db where
  "app_db = empty_db\<lparr>d_apps := [sample_app]\<rparr>"

theorem app_references_stay_valid_witness:
  "app_refs_ok (fold run_app_call [CreateApp ''a2'' (Some ''t2'') 5 5 (Some \<lparr>aq_name = ''Radarr'', aq_profile_id = None,
     aq_config = [], aq_rate_limit = 0\<rparr>), StoreMetric \<lparr>am_app_id = ''a2'', am_period = 0, am_events_per_hour = 1,
     am_avg_payload_bytes = 2, am_peak_per_minute = 1\<rparr>, DeleteApp ''a2''] app_db)"
proof (rule app_references_stay_valid)
  show "app_refs_ok app_db" by (simp add: app_refs_ok_def app_db_def empty_db_def)
qed

text \<open>In the two tables without a foreign key the rows of a deleted app stay, and name nothing.\<close>

lemma deleted_app_stays_named:
  "let d = run_app_call (DeleteApp ''a1'') (app_db\<lparr>d_links := [mk_link ''docker_engine'' ''e1'' ''app'' ''a1''],
       d_polled := [\<lparr>pv_id = ''v'', pv_app_id = ''a1'', pv_profile_id = ''p'', pv_metric_name = ''m'', pv_label = ''M'',
         pv_value = ''1'', pv_value_type = ''number'', pv_polled_at = 0\<rparr>]\<rparr>)
   in d_apps d = [] \<and> map cl_child_id (d_links d) = [''a1''] \<and> map pv_app_id (d_polled d) = [''a1'']"
  by code_simp

section \<open>Rotating a token\<close>

lemma app_get_by_token_lookup:
  "d_faults d = [] \<Longrightarrow> app_get_by_token tok d = (case lookup_row ap_token tok (d_apps d) of Some a \<Rightarrow> (Inr a, d) | None \<Rightarrow> (Inl NotFound, d))"
  by (simp add: app_get_by_token_def lookup_row_def)

lemma regenerate_effect:
  assumes "d_faults d = []" and "a \<in> set (d_apps d)" and "tok \<notin> ap_token ` set (d_apps d)"
  shows "apps_handler_regenerate_token (ap_id a) (Some tok) d = (Answer 200 tok,
    d\<lparr>d_apps := update_where (\<lambda>x. ap_id x = ap_id a) (\<lambda>x. x\<lparr>ap_token := tok\<rparr>) (d_apps d)\<rparr>)"
proof -
  have "lookup_row ap_id (ap_id a) (d_apps d) \<noteq> None" using assms(2) by (simp add: lookup_row_None)
  then obtain b where "lookup_row ap_id (ap_id a) (d_apps d) = Some b" by blast
  moreover have "tok \<notin> ap_token ` set (filter (\<lambda>x. ap_id x \<noteq> ap_id a) (d_apps d))" using assms(3) by auto
  ultimately show ?thesis
    using assms(1,2) by (simp add: apps_handler_regenerate_token_def app_get_def app_update_token_def)
qed

text \<open>C14: Rotating the token of an app cuts off the holder of the old one and nobody else: webhook calls with the old
  token are rejected without an effect, the new token identifies the app, and every other app keeps its token.\<close>

theorem token_rotation:
  assumes "d_faults d = []" and "app_refs_ok d" and "a \<in> set (d_apps d)" and "tok \<notin> ap_token ` set (d_apps d)"
    and "d2 = snd (apps_handler_regenerate_token (ap_id a) (Some tok) d)"
  shows "process env ws (ap_token a) raw d2 = (Inl InvalidToken, ws, d2)
    \<and> app_get_by_token tok d2 = (Inr (a\<lparr>ap_token := tok\<rparr>), d2)
    \<and> (\<forall>b \<in> set (d_apps d). ap_id b \<noteq> ap_id a \<longrightarrow> app_get_by_token (ap_token b) d2 = (Inr b, d2))"
proof (intro conjI ballI impI)
  let ?as = "update_where (\<lambda>x. ap_id x = ap_id a) (\<lambda>x. x\<lparr>ap_token := tok\<rparr>) (d_apps d)"
  have d2: "d_apps d2 = ?as" "d_faults d2 = []"
    unfolding assms(5) regenerate_effect [OF assms(1,3,4)] using assms(1) by simp_all
  have ids: "distinct (map ap_id (d_apps d))" and toks: "distinct (map ap_token (d_apps d))"
    using assms(2) by (simp_all add: app_refs_ok_def Let_def)
  have dist: "distinct (map ap_token ?as)"
    by (rule distinct_new_token [OF ids toks]) (use assms(4) in auto)
  have same: "x = a" if "x \<in> set (d_apps d)" "ap_id x = ap_id a" for x
    using ids that assms(3) by (auto simp: distinct_map dest: inj_onD)
  have "ap_token a \<notin> ap_token ` set ?as"
  proof
    assume "ap_token a \<in> ap_token ` set ?as"
    then obtain x where x: "x \<in> set (d_apps d)" "ap_token a = ap_token (if ap_id x = ap_id a then x\<lparr>ap_token := tok\<rparr> else x)"
      by (auto simp: update_where_def)
    show False
    proof (cases "ap_id x = ap_id a")
      case True
      then have "ap_token a = tok" using x(2) by simp
      then show False using assms(3,4) by blast
    next
      case False
      then have "x = a" using x assms(3) toks by (simp add: distinct_map) (metis inj_onD)
      with False show False by simp
    qed
  qed
  then have "lookup_row ap_token (ap_token a) ?as = None" by (simp add: lookup_row_None)
  then show "process env ws (ap_token a) raw d2 = (Inl InvalidToken, ws, d2)"
    by (simp add: process_def app_get_by_token_lookup d2)
  have "a\<lparr>ap_token := tok\<rparr> \<in> set ?as" using assms(3) by (force simp: update_where_def)
  from lookup_row_distinct [OF dist this] show "app_get_by_token tok d2 = (Inr (a\<lparr>ap_token := tok\<rparr>), d2)"
    by (simp add: app_get_by_token_lookup d2)
  fix b assume "b \<in> set (d_apps d)" "ap_id b \<noteq> ap_id a"
  then have "b \<in> set ?as" by (force simp: update_where_def)
  from lookup_row_distinct [OF dist this] show "app_get_by_token (ap_token b) d2 = (Inr b, d2)"
    by (simp add: app_get_by_token_lookup d2)
qed

theorem token_rotation_witness:
  "process (sample_env []) new_rate_limiter ''tok'' ''{}'' (snd (apps_handler_regenerate_token ''a1'' (Some ''new'') app_db))
     = (Inl InvalidToken, new_rate_limiter, snd (apps_handler_regenerate_token ''a1'' (Some ''new'') app_db))"
proof -
  have f: "d_faults app_db = []" by (simp add: app_db_def empty_db_def)
  have ok: "app_refs_ok app_db" by (simp add: app_refs_ok_def app_db_def empty_db_def)
  have "sample_app \<in> set (d_apps app_db)" "''new'' \<notin> ap_token ` set (d_apps app_db)"
    by (simp_all add: app_db_def sample_app_def)
  from token_rotation [OF f ok this refl, of "sample_env []" new_rate_limiter "''{}''"] show ?thesis by (simp add: sample_app_def)
qed

section \<open>The chain is the path of parents\<close>

fun ancestors :: "db \<Rightarrow> nat \<Rightarrow> string \<times> string \<Rightarrow> (string \<times> string) list" where
  "ancestors d 0 p = []"
| "ancestors d (Suc n) p = (case parent_of d (fst p) (snd p) of None \<Rightarrow> [] | Some q \<Rightarrow> q # ancestors d n q)"

definition traefik_type :: "string \<times> string \<Rightarrow> bool" where
  "traefik_type p = (fst p = ''traefik'' \<or> fst p = ''traefik_route'')"

lemma resolve_node_state:
  assumes "d_faults d = []"
  shows "\<exists>node. resolve_chain_node nt nid d = (node, d) \<and> cn_type node = nt \<and> cn_id node = nid"
  using assms by (auto simp: resolve_chain_node_def container_get_def component_get_def app_get_def Let_def split: option.split)

lemma walk_chain_path:
  assumes "d_faults d = []"
  shows "\<exists>nodes tid. walk_chain n ct cid d = (nodes, tid, d)
    \<and> map (\<lambda>c. (cn_type c, cn_id c)) nodes = takeWhile (\<lambda>p. \<not> traefik_type p) (ancestors d n (ct, cid))"
proof (induction n arbitrary: ct cid)
  case (Suc n)
  show ?case
  proof (cases "lookup_row link_key (ct, cid) (d_links d)")
    case None
    then show ?thesis using assms by (simp add: get_parent_def parent_of_def)
  next
    case (Some l)
    then have get: "get_parent ct cid d = (Inr l, d)" using assms by (simp add: get_parent_def)
    obtain node where "resolve_chain_node (cl_parent_type l) (cl_parent_id l) d = (node, d)"
        "cn_type node = cl_parent_type l" "cn_id node = cl_parent_id l"
      using resolve_node_state [OF assms] by blast
    then show ?thesis using Suc [of "cl_parent_type l" "cl_parent_id l"]
      by (auto simp: get Some parent_of_def traefik_type_def)
  qed
qed simp

text \<open>C16: The chain of an app is the app followed by its parents up to the first Traefik component, at most ten of
  them; the walk ends even if the links form a cycle, and it changes nothing.\<close>

theorem chain_is_path_of_parents:
  assumes "d_faults d = []" and "a \<in> set (d_apps d)"
  shows "\<exists>nodes routes. apps_handler_get_chain (ap_id a) d = (Answer 200 (nodes, routes), d)
    \<and> map (\<lambda>c. (cn_type c, cn_id c)) nodes
        = (''app'', ap_id a) # takeWhile (\<lambda>p. \<not> traefik_type p) (ancestors d chain_hops (''app'', ap_id a))
    \<and> length nodes \<le> 11"
proof -
  obtain b where b: "lookup_row ap_id (ap_id a) (d_apps d) = Some b"
    using assms(2) lookup_row_None [of ap_id "ap_id a" "d_apps d"] by fastforce
  have len: "length (ancestors d n p) \<le> n" for n p
    by (induction n arbitrary: p) (simp_all split: option.split)
  obtain nodes tid where w: "walk_chain chain_hops ''app'' (ap_id a) d = (nodes, tid, d)"
      "map (\<lambda>c. (cn_type c, cn_id c)) nodes = takeWhile (\<lambda>p. \<not> traefik_type p) (ancestors d chain_hops (''app'', ap_id a))"
    using walk_chain_path [OF assms(1)] by blast
  have "length nodes \<le> 10"
    using arg_cong [OF w(2), of length] length_takeWhile_le [of "\<lambda>p. \<not> traefik_type p" "ancestors d chain_hops (''app'', ap_id a)"]
      len [of chain_hops "(''app'', ap_id a)"] by (simp add: chain_hops_def)
  moreover have "ap_id b = ap_id a" using lookup_row_Some [OF b] by simp
  ultimately show ?thesis using w assms(1) b
    by (auto simp: apps_handler_get_chain_def app_get_def route_list_by_app_def component_get_def Let_def split: option.split)
qed

text \<open>Two links that form a cycle: the walk still ends, after ten hops.\<close>

definition cyclic_db :: db where
  "cyclic_db = app_db\<lparr>d_links := [mk_link ''container'' ''k'' ''app'' ''a1'', mk_link ''container'' ''k'' ''container'' ''k'']\<rparr>"

theorem chain_is_path_of_parents_witness:
  "\<exists>nodes routes. apps_handler_get_chain ''a1'' cyclic_db = (Answer 200 (nodes, routes), cyclic_db) \<and> length nodes = 11"
proof -
  have "d_faults cyclic_db = []" "sample_app \<in> set (d_apps cyclic_db)"
    by (simp_all add: cyclic_db_def app_db_def empty_db_def)
  from chain_is_path_of_parents [OF this] obtain nodes :: "chain_node list" and routes :: "chain_route list" where
    r: "apps_handler_get_chain (ap_id sample_app) cyclic_db = (Answer 200 (nodes, routes), cyclic_db)"
      "map (\<lambda>c. (cn_type c, cn_id c)) nodes
        = (''app'', ap_id sample_app) # takeWhile (\<lambda>p. \<not> traefik_type p) (ancestors cyclic_db chain_hops (''app'', ap_id sample_app))"
    by (elim exE conjE) (rule that)
  have "length ((''app'', ap_id sample_app) # takeWhile (\<lambda>p. \<not> traefik_type p) (ancestors cyclic_db chain_hops (''app'', ap_id sample_app))) = 11"
    by code_simp
  then have "length nodes = 11" using arg_cong [OF r(2), of length] by simp
  with r(1) show ?thesis by (auto simp: sample_app_def)
qed

end
