(* ===== verification/DigestPeriod.thy ===== *)
theory DigestPeriod
  imports Calendar
begin

text \<open>
  The periods of the digest mail: period labels, their parsing and the schedule (internal/jobs/digest.go,
  internal/api/digest.go, internal/models/settings.go), with the parts of packages time and fmt they use.

  A local time is the number of nanoseconds its wall clock shows since 1970-01-01 00:00; the program interprets the
  date it shows as a UTC date again. Years are mathematical integers (the code's are 64 bits wide).
\<close>

section \<open>Weeks\<close>

text \<open>\<open>time.Weekday\<close>: Sunday is 0; day 0 was a Thursday. \<open>ISOWeek\<close> is about the Thursday of the week.\<close>

definition weekday :: "int \<Rightarrow> int" where
  "weekday n = (n + 4) mod 7"

definition monday_of :: "int \<Rightarrow> int" where
  "monday_of n = n - (n + 3) mod 7"

definition iso_year :: "int \<Rightarrow> int" where
  "iso_year n = year_of_day (monday_of n + 3)"

definition iso_week :: "int \<Rightarrow> int" where
  "iso_week n = (monday_of n + 3 - year_start (iso_year n)) div 7 + 1"

section \<open>Formats\<close>

definition two_digits :: "int \<Rightarrow> string" where
  "two_digits n = (if n < 0 then show_int n else pad_zeros 2 (show_nat (nat n)))"

definition year_text :: "int \<Rightarrow> string" where
  "year_text y = (if y < 0 then CHR ''-'' # pad_zeros 4 (show_nat (nat (- y))) else pad_zeros 4 (show_nat (nat y)))"

text \<open>Layouts 2006-01 and 2006-01-02.\<close>

definition month_text :: "int \<Rightarrow> string" where
  "month_text mi = year_text (mi div 12) @ ''-'' @ two_digits (mi mod 12 + 1)"

definition date_text :: "int \<Rightarrow> string" where
  "date_text n = month_text (month_of_day n) @ ''-'' @ two_digits (day_of_month n)"

text \<open>\<open>time.Parse\<close> with these layouts: four digits, two digits, nothing after them, an existing date.\<close>

definition parse_month :: "string \<Rightarrow> int option" where
  "parse_month s = (if length s = 7 \<and> list_all is_digit (take 4 s) \<and> s ! 4 = CHR ''-'' \<and> list_all is_digit (drop 5 s)
     \<and> 1 \<le> nat_of_digits (drop 5 s) \<and> nat_of_digits (drop 5 s) \<le> 12
     then Some (12 * int (nat_of_digits (take 4 s)) + int (nat_of_digits (drop 5 s)) - 1) else None)"

definition parse_date :: "string \<Rightarrow> int option" where
  "parse_date s = (if length s = 10 \<and> s ! 7 = CHR ''-'' \<and> list_all is_digit (drop 8 s) then
     (case parse_month (take 7 s) of
        None \<Rightarrow> None
      | Some mi \<Rightarrow> (let k = int (nat_of_digits (drop 8 s)) in
          if 1 \<le> k \<and> k \<le> month_start (mi + 1) - month_start mi then Some (month_start mi + k - 1) else None))
     else None)"

text \<open>The verb \<open>%d\<close> of \<open>fmt.Sscanf\<close>: blanks, a sign, decimal digits of an int64. Characters after the last
  verb are not looked at.\<close>

definition scan_blank :: "char \<Rightarrow> bool" where
  "scan_blank c = (of_char c \<in> {9 :: nat, 11, 12, 13, 32})"

definition scan_int :: "string \<Rightarrow> (int \<times> string) option" where
  "scan_int s0 = (let s = dropWhile scan_blank s0;
       neg = (s \<noteq> [] \<and> hd s = CHR ''-'');
       s1 = (if s \<noteq> [] \<and> (hd s = CHR ''-'' \<or> hd s = CHR ''+'') then tl s else s);
       ds = takeWhile is_digit s1;
       n = (if neg then - int (nat_of_digits ds) else int (nat_of_digits ds)) in
     if ds = [] \<or> n < - (2 ^ 63) \<or> 2 ^ 63 \<le> n then None else Some (n, dropWhile is_digit s1))"

definition parse_week :: "string \<Rightarrow> (int \<times> int) option" where
  "parse_week s = (case scan_int s of
       None \<Rightarrow> None
     | Some (y, r) \<Rightarrow> (if take 2 r = ''-W'' then map_option (\<lambda>(w, _). (y, w)) (scan_int (drop 2 r)) else None))"

section \<open>Periods\<close>

text \<open>The Monday the code computes for a week of a year.\<close>

definition week_monday :: "int \<Rightarrow> int \<Rightarrow> int" where
  "week_monday y w = (let jan4 = year_start y + 3 in jan4 + (w - iso_week jan4) * 7 - weekday jan4 + 1)"

text \<open>First day and the day after the last one; \<open>today\<close> is the UTC date, for labels nothing parses.\<close>

definition period_days :: "int \<Rightarrow> string \<Rightarrow> int \<times> int" where
  "period_days today period = (case parse_date period of
       Some n \<Rightarrow> (n, n + 1)
     | None \<Rightarrow> (case parse_week period of
         Some (y, w) \<Rightarrow> (week_monday y w, week_monday y w + 7)
       | None \<Rightarrow> (case parse_month period of
           Some mi \<Rightarrow> (month_start mi, month_start (mi + 1))
         | None \<Rightarrow> (month_start (month_of_day today), month_start (month_of_day today + 1)))))"

definition period_time_range :: "go_time \<Rightarrow> string \<Rightarrow> go_time \<times> go_time" where
  "period_time_range now period =
     (fst (period_days (day_of now) period) * day_ns, snd (period_days (day_of now) period) * day_ns)"

definition period_label :: "string \<Rightarrow> go_time \<Rightarrow> string" where
  "period_label frequency local = (let n = day_of local in
     if frequency = ''daily'' then date_text n
     else if frequency = ''weekly'' then show_int (year_of_day n) @ ''-W'' @ two_digits (iso_week n)
     else month_text (month_of_day n))"

definition period_label_from_schedule :: "string \<Rightarrow> go_time \<Rightarrow> string" where
  "period_label_from_schedule frequency local = (let n = day_of local in
     if frequency = ''daily'' then date_text n
     else if frequency = ''weekly'' then year_text (year_of_day n) @ ''-W'' @ two_digits (iso_week n)
     else month_text (month_of_day n))"

definition month_names :: "string list" where
  "month_names = [''January'', ''February'', ''March'', ''April'', ''May'', ''June'', ''July'', ''August'', ''September'',
     ''October'', ''November'', ''December'']"

definition weekday_names :: "string list" where
  "weekday_names = [''Sunday'', ''Monday'', ''Tuesday'', ''Wednesday'', ''Thursday'', ''Friday'', ''Saturday'']"

definition month_name :: "int \<Rightarrow> string" where
  "month_name n = month_names ! nat (month_of_day n mod 12)"

text \<open>An en dash in UTF-8.\<close>

definition en_dash :: string where
  "en_dash = [CHR 0xE2, CHR 0x80, CHR 0x93]"

definition subject_line :: "string \<Rightarrow> string" where
  "subject_line period = (let prefix = ''NORA Digest '' @ em_dash @ '' '' in case parse_date period of
       Some n \<Rightarrow> prefix @ weekday_names ! nat (weekday n) @ '', '' @ month_name n @ '' '' @ show_int (day_of_month n)
     | None \<Rightarrow> (case parse_week period of
         Some (y, w) \<Rightarrow> (let m = week_monday y w in prefix @ ''Week of '' @ month_name m @ '' '' @ show_int (day_of_month m)
             @ en_dash @ show_int (day_of_month (m + 6)))
       | None \<Rightarrow> (case parse_month period of
           Some mi \<Rightarrow> prefix @ month_name (month_start mi) @ '' '' @ year_text (mi div 12)
         | None \<Rightarrow> ''NORA Digest'')))"

definition is_monthly_period :: "string \<Rightarrow> bool" where
  "is_monthly_period period = (parse_month period \<noteq> None)"

text \<open>Year and month (1 to 12) a period belongs to.\<close>

definition period_year_month :: "int \<Rightarrow> string \<Rightarrow> int \<times> int" where
  "period_year_month today period = (let mi = (case parse_date period of
       Some n \<Rightarrow> month_of_day n
     | None \<Rightarrow> (case parse_week period of
         Some (y, w) \<Rightarrow> month_of_day (week_monday y w)
       | None \<Rightarrow> (case parse_month period of Some mi \<Rightarrow> mi | None \<Rightarrow> month_of_day today)))
     in (mi div 12, mi mod 12 + 1))"

section \<open>The schedule\<close>

record digest_schedule =
  ds_frequency :: string
  ds_day_of_week :: int
  ds_day_of_month :: int
  ds_send_hour :: "int option"

definition effective_send_hour :: "digest_schedule \<Rightarrow> int" where
  "effective_send_hour s = (case ds_send_hour s of None \<Rightarrow> 17 | Some h \<Rightarrow> h)"

definition default_schedule :: digest_schedule where
  "default_schedule = \<lparr>ds_frequency = ''weekly'', ds_day_of_week = 5, ds_day_of_month = 1, ds_send_hour = Some 17\<rparr>"

definition should_send_today :: "digest_schedule \<Rightarrow> go_time \<Rightarrow> bool" where
  "should_send_today s local = (let n = day_of local in
     if ds_frequency s = ''daily'' then True
     else if ds_frequency s = ''weekly'' then weekday n = ds_day_of_week s
     else if ds_frequency s = ''monthly'' then day_of_month n = ds_day_of_month s
     else False)"

definition hour_of :: "go_time \<Rightarrow> int" where
  "hour_of local = local mod day_ns div hour_ns"

section \<open>Weeks of a year\<close>

lemma year_of_day_unique: "year_start y \<le> n \<Longrightarrow> n < year_start (y + 1) \<Longrightarrow> year_of_day n = y"
proof -
  assume n: "year_start y \<le> n" "n < year_start (y + 1)"
  have mono: "year_start a \<le> year_start b" if "a \<le> b" for a b
    using that
  proof (induction b rule: int_ge_induct)
    case (step b)
    then show ?case using year_length [of b] by (simp split: if_splits)
  qed simp
  have "\<not> year_of_day n + 1 \<le> y" "\<not> y + 1 \<le> year_of_day n"
    using mono [of "year_of_day n + 1" y] mono [of "y + 1" "year_of_day n"] n year_of_day_bounds [of n] by linarith+
  then show ?thesis by linarith
qed

lemma year_days: "year_start y + 365 \<le> year_start (y + 1)"
  by (simp add: year_length)

lemma monday_bounds: "monday_of n \<le> n" "n < monday_of n + 7" "(monday_of n + 3) mod 7 = 0"
proof -
  show "monday_of n \<le> n" "n < monday_of n + 7" using pos_mod_bound [of 7 "n + 3"] by (simp_all add: monday_of_def)
  have "monday_of n + 3 = (n + 3) - (n + 3) mod 7" by (simp add: monday_of_def)
  also have "\<dots> = (n + 3) div 7 * 7" by (rule minus_mod_eq_div_mult)
  finally show "(monday_of n + 3) mod 7 = 0" by (simp only: mod_mult_self2_is_0)
qed

abbreviation jan4 :: "int \<Rightarrow> int" where "jan4 y \<equiv> year_start y + 3"

lemma iso_of_jan4: "iso_year (jan4 y) = y" "iso_week (jan4 y) = 1"
proof -
  have b: "year_start y \<le> monday_of (jan4 y) + 3" "monday_of (jan4 y) + 3 < year_start y + 7"
    using monday_bounds [of "jan4 y"] by linarith+
  then show y: "iso_year (jan4 y) = y" unfolding iso_year_def using year_days [of y] by (intro year_of_day_unique) linarith+
  have "(monday_of (jan4 y) + 3 - year_start y) div 7 = 0" using b by (intro div_pos_pos_trivial) linarith+
  then show "iso_week (jan4 y) = 1" by (simp add: iso_week_def y)
qed

lemma monday_by_week: "monday_of n = monday_of (jan4 (iso_year n)) + 7 * (iso_week n - 1)"
proof -
  let ?y = "iso_year n" and ?t = "monday_of n + 3" and ?u = "monday_of (jan4 (iso_year n)) + 3"
  have u: "0 \<le> ?u - year_start ?y" "?u - year_start ?y < 7" using monday_bounds [of "jan4 ?y"] by linarith+
  have "(?t - ?u) mod 7 = (?t mod 7 - ?u mod 7) mod 7" by (rule mod_diff_eq [symmetric])
  then have "(?t - ?u) mod 7 = 0" unfolding monday_bounds(3) by simp
  then have "7 dvd ?t - ?u" by (rule mod_0_imp_dvd)
  then obtain k where k: "?t - ?u = 7 * k" by (rule dvdE)
  have "(x + 7 * k) div 7 = k" if "0 \<le> x" "x < 7" for x :: int
  proof -
    have "(x + 7 * k) div 7 = k + x div 7" by (rule div_mult_self2) simp
    also have "x div 7 = 0" by (rule div_pos_pos_trivial [OF that])
    finally show ?thesis by simp
  qed
  note this [OF u]
  moreover have "?t - year_start ?y = (?u - year_start ?y) + 7 * k" using k by linarith
  ultimately have "(?t - year_start ?y) div 7 = k" by (simp only:)
  then show ?thesis using k by (simp add: iso_week_def)
qed

text \<open>The code's Monday is a week late in the years whose January 4th is a Sunday.\<close>

lemma week_monday_by_jan4:
  "week_monday y w = monday_of (jan4 y) + 7 * (w - 1) + (if weekday (jan4 y) = 0 then 7 else 0)"
proof -
  have "(a + 4) mod 7 = (if (a + 4) mod 7 = 0 then (a + 3) mod 7 - 6 else (a + 3) mod 7 + 1)" for a :: int
  proof -
    have "(a + 4) mod 7 = ((a + 3) mod 7 + 1) mod 7" using mod_add_left_eq [of "a + 3" 7 1] by (simp only: add.assoc numeral_plus_numeral add_num_simps numeral_plus_one)
    moreover have "r = 6 \<or> (r + 1) mod 7 = r + 1" if "0 \<le> r" "r < 7" for r :: int
      using that mod_pos_pos_trivial [of "r + 1" 7] by linarith
    ultimately show ?thesis using pos_mod_sign [of 7 "a + 3"] pos_mod_bound [of 7 "a + 3"] by (smt (verit) mod_self)
  qed
  from this [of "jan4 y"] show ?thesis
    by (simp add: week_monday_def Let_def iso_of_jan4 monday_of_def weekday_def split: if_splits)
qed

lemma week_monday_right:
  assumes "iso_year n = y"
  shows "week_monday y (iso_week n) = monday_of n + (if weekday (jan4 y) = 0 then 7 else 0)"
  using monday_by_week [of n] assms by (simp add: week_monday_by_jan4)

text \<open>The days around New Year whose week belongs to the other year.\<close>

lemma week_monday_wrong_year:
  assumes "iso_year n \<noteq> year_of_day n"
  shows "\<not> (week_monday (year_of_day n) (iso_week n) \<le> n \<and> n < week_monday (year_of_day n) (iso_week n) + 7)"
proof -
  let ?y = "year_of_day n" and ?t = "monday_of n + 3"
  note m = monday_bounds [of n]
  have n: "year_start ?y \<le> n" "n < year_start (?y + 1)" using year_of_day_bounds [of n] by simp_all
  have out: "\<not> (year_start ?y \<le> ?t \<and> ?t < year_start (?y + 1))"
    using assms year_of_day_unique [of ?y ?t] by (auto simp: iso_year_def)
  have j: "monday_of (jan4 ?y) \<le> jan4 ?y" "jan4 ?y < monday_of (jan4 ?y) + 7" using monday_bounds [of "jan4 ?y"] by simp_all
  consider "?t < year_start ?y" | "year_start (?y + 1) \<le> ?t" using out by linarith
  then show ?thesis
  proof cases
    case 1
    have before: "year_start (?y - 1) + 365 \<le> year_start ?y" using year_days [of "?y - 1"] by simp
    then have y: "iso_year n = ?y - 1" unfolding iso_year_def
      using year_of_day_unique [of "?y - 1" ?t, unfolded diff_add_cancel] 1 m n by linarith
    have "362 \<le> ?t - year_start (?y - 1)" using before m n 1 by linarith
    then have "51 \<le> (?t - year_start (?y - 1)) div 7" by linarith
    then have "52 \<le> iso_week n" by (simp add: iso_week_def y)
    then have "year_start ?y + 300 \<le> week_monday ?y (iso_week n)" using j unfolding week_monday_by_jan4 by (simp split: if_splits; linarith)
    then show ?thesis using 1 m n by linarith
  next
    case 2
    have y: "iso_year n = ?y + 1" unfolding iso_year_def
      using 2 m n year_days [of "?y + 1"] by (intro year_of_day_unique) linarith+
    have "0 \<le> ?t - year_start (?y + 1)" "?t - year_start (?y + 1) < 7" using 2 m n by linarith+
    then have "(?t - year_start (?y + 1)) div 7 = 0" by (intro div_pos_pos_trivial)
    then have "iso_week n = 1" by (simp add: iso_week_def y)
    then have "week_monday ?y (iso_week n) \<le> year_start ?y + 10" using j unfolding week_monday_by_jan4 by (simp split: if_splits; linarith)
    then show ?thesis using 2 m n year_days [of ?y] by linarith
  qed
qed

section \<open>Labels parse back\<close>

lemma year_text_plain:
  assumes "0 \<le> y" "y \<le> 9999"
  shows "length (year_text y) = 4" "list_all is_digit (year_text y)" "int (nat_of_digits (year_text y)) = y"
proof -
  have y: "year_text y = pad_zeros 4 (show_nat (nat y))" using assms by (simp add: year_text_def)
  show "length (year_text y) = 4" unfolding y by (rule length_pad) (use assms in auto)
  show "list_all is_digit (year_text y)" "int (nat_of_digits (year_text y)) = y"
    unfolding y using assms digits_pad by simp_all
qed

lemma two_digits_plain:
  assumes "0 \<le> k" "k < 100"
  shows "length (two_digits k) = 2" "list_all is_digit (two_digits k)" "int (nat_of_digits (two_digits k)) = k"
proof -
  have k: "two_digits k = pad_zeros 2 (show_nat (nat k))" using assms by (simp add: two_digits_def)
  show "length (two_digits k) = 2" unfolding k by (rule length_pad) (use assms in auto)
  show "list_all is_digit (two_digits k)" "int (nat_of_digits (two_digits k)) = k"
    unfolding k using assms digits_pad by simp_all
qed

definition plain_month :: "int \<Rightarrow> bool" where
  "plain_month mi = (0 \<le> mi div 12 \<and> mi div 12 \<le> 9999)"

lemma month_text_plain:
  assumes "plain_month mi"
  shows "length (month_text mi) = 7" and "parse_month (month_text mi) = Some mi"
proof -
  let ?a = "year_text (mi div 12)" and ?b = "two_digits (mi mod 12 + 1)"
  have a: "length ?a = 4" "list_all is_digit ?a" "int (nat_of_digits ?a) = mi div 12"
    using year_text_plain [of "mi div 12"] assms by (simp_all add: plain_month_def)
  have m: "0 \<le> mi mod 12" "mi mod 12 < 12" by simp_all
  then have b: "length ?b = 2" "list_all is_digit ?b" "int (nat_of_digits ?b) = mi mod 12 + 1"
    using two_digits_plain [of "mi mod 12 + 1"] by simp_all
  have t: "month_text mi = ?a @ CHR ''-'' # ?b" by (simp add: month_text_def)
  show "length (month_text mi) = 7" by (simp add: t a b)
  have "1 \<le> nat_of_digits ?b" "nat_of_digits ?b \<le> 12" using b(3) m by linarith+
  moreover have "12 * int (nat_of_digits ?a) + int (nat_of_digits ?b) - 1 = mi"
    unfolding a(3) b(3) using mult_div_mod_eq [of 12 mi] by linarith
  ultimately show "parse_month (month_text mi) = Some mi"
    by (simp add: parse_month_def t a(1,2) b(1,2) nth_append)
qed

lemma month_of_day_parts:
  "month_of_day n div 12 = year_of_day n" "plain_month (month_of_day n) = (0 \<le> year_of_day n \<and> year_of_day n \<le> 9999)"
proof -
  let ?y = "year_of_day n"
  have y: "0 \<le> n - year_start ?y" "n - year_start ?y < (if is_leap ?y then 366 else 365)"
    using year_of_day_bounds [of n] year_length [of ?y] by (auto split: if_splits)
  have "month_in_year (is_leap ?y) (n - year_start ?y) < 12" using month_in_year_bounds [OF y] by simp
  then show "month_of_day n div 12 = year_of_day n" by (simp add: month_of_day_def Let_def)
  then show "plain_month (month_of_day n) = (0 \<le> year_of_day n \<and> year_of_day n \<le> 9999)" by (simp add: plain_month_def)
qed

lemma month_length: "month_start (mi + 1) \<le> month_start mi + 31"
proof -
  have m: "nat (mi mod 12) < 12" by (simp add: nat_less_iff)
  have "month_start (mi + 1) = year_start (mi div 12) + days_before (is_leap (mi div 12)) (Suc (nat (mi mod 12)))"
    using month_start_next [OF m, of "mi div 12"] by simp
  moreover have "days_before leap (Suc k) \<le> days_before leap k + 31" if "k < 12" for leap k
    using that by (auto simp: days_before_def less_Suc_eq numeral_eq_Suc)
  ultimately show ?thesis using m by (simp add: month_start_def)
qed

lemma date_text_plain:
  assumes "0 \<le> year_of_day n" "year_of_day n \<le> 9999"
  shows "parse_date (date_text n) = Some n"
proof -
  let ?m = "month_of_day n" and ?b = "two_digits (day_of_month n)"
  have pm: "plain_month ?m" using assms by (simp add: month_of_day_parts)
  have k: "1 \<le> day_of_month n" "day_of_month n \<le> month_start (?m + 1) - month_start ?m"
    using month_of_day_bounds [of n] by (simp_all add: day_of_month_def)
  then have b: "length ?b = 2" "list_all is_digit ?b" "int (nat_of_digits ?b) = day_of_month n"
    using two_digits_plain [of "day_of_month n"] month_length [of ?m] by simp_all
  have t: "date_text n = month_text ?m @ CHR ''-'' # ?b" by (simp add: date_text_def)
  have "month_start ?m + day_of_month n - 1 = n" by (simp add: day_of_month_def)
  then show ?thesis
    using month_text_plain [OF pm] k by (simp add: parse_date_def t b nth_append)
qed

lemma digit_plain:
  assumes "is_digit c"
  shows "\<not> scan_blank c" "c \<noteq> CHR ''-''" "c \<noteq> CHR ''+''"
  using assms by (auto simp: is_digit_def scan_blank_def)

lemma scan_digits:
  assumes "ds \<noteq> []" and "list_all is_digit ds" and "r = [] \<or> \<not> is_digit (hd r)" and "nat_of_digits ds < 2 ^ 63"
  shows "scan_int (ds @ r) = Some (int (nat_of_digits ds), r)"
proof -
  have h: "is_digit (hd ds)" using assms(1,2) by (cases ds) auto
  note h = h digit_plain [OF h]
  have "dropWhile scan_blank (ds @ r) = ds @ r" using assms(1) h by (cases ds) auto
  moreover have "takeWhile is_digit (ds @ r) = ds" "dropWhile is_digit (ds @ r) = r"
    using assms(2,3) by (cases r; simp add: list_all_iff takeWhile_append dropWhile_append)+
  ultimately show ?thesis using assms(1,4) h by (simp add: scan_int_def Let_def hd_append)
qed

lemma iso_week_bounds: "1 \<le> iso_week n" "iso_week n \<le> 54"
proof -
  let ?y = "iso_year n" and ?t = "monday_of n + 3"
  have "year_start ?y \<le> ?t" "?t < year_start (?y + 1)" using year_of_day_bounds [of ?t] by (simp_all add: iso_year_def)
  then have "0 \<le> ?t - year_start ?y" "?t - year_start ?y < 366" using year_length [of ?y] by (simp_all split: if_splits)
  then have "0 \<le> (?t - year_start ?y) div 7" "(?t - year_start ?y) div 7 \<le> 52" by linarith+
  then show "1 \<le> iso_week n" "iso_week n \<le> 54" by (simp_all add: iso_week_def)
qed

lemma week_text_plain:
  assumes "0 \<le> y" "y \<le> 9999" "1 \<le> w" "w \<le> 54" and "a \<in> {show_int y, year_text y}"
  shows "parse_week (a @ ''-W'' @ two_digits w) = Some (y, w)" "parse_date (a @ ''-W'' @ two_digits w) = None"
proof -
  have a: "a \<noteq> []" "list_all is_digit a" "int (nat_of_digits a) = y" "length a \<le> 4"
    using assms(1,2,5) year_text_plain [of y] show_nat_digits [of "nat y"] length_show_nat [of "nat y" 4] by (auto simp: show_int_def)
  have b: "length (two_digits w) = 2" "list_all is_digit (two_digits w)" "int (nat_of_digits (two_digits w)) = w"
    using two_digits_plain [of w] assms(3,4) by simp_all
  have "nat_of_digits a \<le> 9999" "nat_of_digits (two_digits w) \<le> 54" using a(3) b(3) assms(2,4) by linarith+
  then have small: "nat_of_digits a < 2 ^ 63" "nat_of_digits (two_digits w) < 2 ^ 63" by simp_all
  have "scan_int (a @ ''-W'' @ two_digits w) = Some (y, ''-W'' @ two_digits w)"
    using scan_digits [OF a(1,2) _ small(1), of "''-W'' @ two_digits w"] a(3) by (simp add: is_digit_def)
  moreover have "two_digits w \<noteq> []" using b(1) by auto
  then have "scan_int (two_digits w) = Some (w, [])"
    using scan_digits [OF _ b(2) _ small(2), of "[]"] b(3) by simp
  ultimately show "parse_week (a @ ''-W'' @ two_digits w) = Some (y, w)" by (simp add: parse_week_def)
  have "length (a @ ''-W'' @ two_digits w) \<noteq> 10" using a(4) b(1) by simp
  then show "parse_date (a @ ''-W'' @ two_digits w) = None" unfolding parse_date_def by argo
qed

lemma month_is_no_week:
  assumes "plain_month mi"
  shows "parse_week (month_text mi) = None" "parse_date (month_text mi) = None"
proof -
  let ?a = "year_text (mi div 12)" and ?b = "two_digits (mi mod 12 + 1)"
  have a: "length ?a = 4" "list_all is_digit ?a" "int (nat_of_digits ?a) = mi div 12"
    using year_text_plain [of "mi div 12"] assms by (simp_all add: plain_month_def)
  have m: "0 \<le> mi mod 12" "mi mod 12 < 12" by simp_all
  then have b: "length ?b = 2" "list_all is_digit ?b" using two_digits_plain [of "mi mod 12 + 1"] by simp_all
  have "nat_of_digits ?a \<le> 9999" using a(3) assms by (simp add: plain_month_def)
  then have "nat_of_digits ?a < 2 ^ 63" by simp
  moreover have "?a \<noteq> []" using a(1) by auto
  ultimately have "scan_int (?a @ CHR ''-'' # ?b) = Some (mi div 12, CHR ''-'' # ?b)"
    using scan_digits [of ?a "CHR ''-'' # ?b"] a(2,3) by (simp add: is_digit_def)
  moreover have "take 2 (CHR ''-'' # ?b) \<noteq> ''-W''" using b by (cases ?b) (auto simp: is_digit_def)
  ultimately show "parse_week (month_text mi) = None" by (simp add: parse_week_def month_text_def)
  show "parse_date (month_text mi) = None" using month_text_plain(1) [OF assms] by (simp add: parse_date_def)
qed

section \<open>Which days a label covers\<close>

lemma period_of_label:
  assumes "0 \<le> year_of_day (day_of local)" "year_of_day (day_of local) \<le> 9999"
    and "label \<in> {period_label f local, period_label_from_schedule f local}"
  shows "period_days today label = (let n = day_of local in
     if f = ''daily'' then (n, n + 1)
     else if f = ''weekly'' then (week_monday (year_of_day n) (iso_week n), week_monday (year_of_day n) (iso_week n) + 7)
     else (month_start (month_of_day n), month_start (month_of_day n + 1)))"
proof -
  let ?n = "day_of local"
  have m: "plain_month (month_of_day ?n)" using assms by (simp add: month_of_day_parts)
  consider "f = ''daily''" | "f = ''weekly''" | "f \<noteq> ''daily''" "f \<noteq> ''weekly''" by blast
  then show ?thesis
  proof cases
    case 1
    then have "label = date_text ?n" using assms(3) by (auto simp: period_label_def period_label_from_schedule_def Let_def)
    then show ?thesis using 1 date_text_plain [OF assms(1,2)] by (simp add: period_days_def Let_def)
  next
    case 2
    then obtain a where a: "a \<in> {show_int (year_of_day ?n), year_text (year_of_day ?n)}"
        "label = a @ ''-W'' @ two_digits (iso_week ?n)"
      using assms(3) by (auto simp: period_label_def period_label_from_schedule_def Let_def)
    show ?thesis using 2 week_text_plain [OF assms(1,2) iso_week_bounds a(1)]
      by (simp add: period_days_def Let_def a(2))
  next
    case 3
    then have "label = month_text (month_of_day ?n)"
      using assms(3) by (auto simp: period_label_def period_label_from_schedule_def Let_def)
    then show ?thesis using 3 month_is_no_week [OF m] month_text_plain [OF m] by (simp add: period_days_def Let_def)
  qed
qed

text \<open>C17: The period computed back from a label contains the day the label was made on, whatever the frequency,
  except for weekly labels in two cases: the day belongs to an ISO week of the neighbouring year (the label combines that
  week number with the calendar year), or January 4th of its year is a Sunday (then the period is the following week).\<close>

theorem label_covers_its_day:
  assumes "0 \<le> year_of_day (day_of local)" "year_of_day (day_of local) \<le> 9999"
    and "label \<in> {period_label f local, period_label_from_schedule f local}"
    and "period_days today label = (first, after)"
  shows "first \<le> day_of local \<and> day_of local < after \<longleftrightarrow>
    (f = ''weekly'' \<longrightarrow> iso_year (day_of local) = year_of_day (day_of local) \<and> weekday (jan4 (year_of_day (day_of local))) \<noteq> 0)"
proof -
  let ?n = "day_of local"
  let ?m = "week_monday (year_of_day ?n) (iso_week ?n)"
  note p = assms(4) [unfolded period_of_label [OF assms(1-3)] Let_def]
  have week: "?m \<le> ?n \<and> ?n < ?m + 7 \<longleftrightarrow> iso_year ?n = year_of_day ?n \<and> weekday (jan4 (year_of_day ?n)) \<noteq> 0"
  proof (cases "iso_year ?n = year_of_day ?n")
    case True
    then show ?thesis using week_monday_right [OF True] monday_bounds [of ?n] by auto
  next
    case False
    then show ?thesis using week_monday_wrong_year [OF False] by blast
  qed
  show ?thesis
  proof (cases "f = ''weekly''")
    case True
    then have "first = ?m" "after = ?m + 7" using p by simp_all
    then show ?thesis using week True by simp
  next
    case False
    then show ?thesis using p month_of_day_bounds [of ?n] by (cases "f = ''daily''") auto
  qed
qed

lemma days_2026: "year_of_day 20518 = 2026" "iso_year 20518 = 2026" "iso_week 20518 = 10" "weekday (jan4 2026) = 0"
    "week_monday 2026 10 = 20521" "year_of_day 20088 = 2024" "iso_year 20088 = 2025" "iso_week 20088 = 1" "week_monday 2024 1 = 19723"
  by code_simp+

lemma day_of_noon: "day_of (n * day_ns + 12 * hour_ns) = n"
  by (simp add: day_of_def)

theorem label_covers_its_day_witness:
  "case period_days 0 (period_label ''monthly'' (20518 * day_ns + 12 * hour_ns)) of (first, after) \<Rightarrow>
     first \<le> 20518 \<and> 20518 < after"
proof -
  note d = day_of_noon [of 20518]
  have y: "0 \<le> year_of_day (day_of (20518 * day_ns + 12 * hour_ns))" "year_of_day (day_of (20518 * day_ns + 12 * hour_ns)) \<le> 9999"
    unfolding d days_2026 by simp_all
  let ?label = "period_label ''monthly'' (20518 * day_ns + 12 * hour_ns)"
  have l: "?label \<in> {?label, period_label_from_schedule ''monthly'' (20518 * day_ns + 12 * hour_ns)}" by blast
  obtain first after where p: "period_days 0 ?label = (first, after)" by fastforce
  show ?thesis using label_covers_its_day [OF y l p] unfolding p d by simp
qed

text \<open>On Friday, March 6th 2026, the weekly digest is about March 9th to 15th; on December 31st 2024, about the
  first week of January 2024.\<close>

lemma weekly_label_misses:
  "period_days today (period_label ''weekly'' (20518 * day_ns + 12 * hour_ns)) = (20521, 20528)"
  "period_days today (period_label ''weekly'' (20088 * day_ns + 12 * hour_ns)) = (19723, 19730)"
  "20518 = month_start (12 * 2026 + 2) + 5" "20088 = month_start (12 * 2024 + 11) + 30" "19723 = month_start (12 * 2024)"
proof -
  have "period_days today (period_label ''weekly'' (n * day_ns + 12 * hour_ns))
      = (week_monday (year_of_day n) (iso_week n), week_monday (year_of_day n) (iso_week n) + 7)"
    if "0 \<le> year_of_day n" "year_of_day n \<le> 9999" for n
    using period_of_label [of "n * day_ns + 12 * hour_ns" "period_label ''weekly'' (n * day_ns + 12 * hour_ns)" "''weekly''"] that
    unfolding day_of_noon Let_def by simp
  note w = this
  show "period_days today (period_label ''weekly'' (20518 * day_ns + 12 * hour_ns)) = (20521, 20528)"
    using w [of 20518] unfolding days_2026 by simp
  show "period_days today (period_label ''weekly'' (20088 * day_ns + 12 * hour_ns)) = (19723, 19730)"
    using w [of 20088] unfolding days_2026 by simp
  show "20518 = month_start (12 * 2026 + 2) + 5" "20088 = month_start (12 * 2024 + 11) + 30" "19723 = month_start (12 * 2024)"
    by code_simp+
qed

end
