(* ===== verification/Digest.thy ===== *)
theory Digest
  imports DigestPeriod Apps EventsApi
begin

text \<open>
  What the digest mail says: \<open>buildDigestData\<close> and \<open>buildNarrative\<close> of internal/jobs/digest.go. The HTML
  templates that lay the data out are not modelled. The order in which the counts of the legacy rows are ranged over is
  \<open>de_range\<close>.
\<close>

section \<open>Data\<close>

record digest_action =
  da_priority :: string
  da_text :: string

record check_group =
  cg_type :: string
  cg_total :: nat
  cg_up :: nat
  cg_not_up :: nat
  cg_avg_uptime :: rat
  cg_status :: string

record category_row =
  cr_label :: string
  cr_count :: nat
  cr_is_error :: bool

record app_check_row =
  ak_name :: string
  ak_type :: string
  ak_status :: string
  ak_target :: string

record app_route_row =
  at_domain :: string
  at_has_tls :: bool
  at_status :: string
  at_ssl_days :: int

record app_container_row =
  an_name :: string
  an_status :: string
  an_has_update :: bool

record app_section =
  as_app_name :: string
  as_profile_name :: string
  as_categories :: "category_row list"
  as_total_events :: nat
  as_has_issues :: bool
  as_checks :: "app_check_row list"
  as_routes :: "app_route_row list"
  as_containers :: "app_container_row list"
  as_checks_total :: nat
  as_checks_down :: nat
  as_checks_warn :: nat
  as_ctr_total :: nat
  as_ctr_running :: nat
  as_ctr_updates :: nat
  as_ssl_min_days :: int

record infra_row =
  ir_name :: string
  ir_type :: string
  ir_status :: string

record resource_warning =
  rw_component :: string
  rw_metric :: string
  rw_avg :: rat
  rw_max :: rat

record legacy_row =
  lr_app_name :: string
  lr_event_type :: string
  lr_count :: nat
  lr_has_errors :: bool

record digest_data =
  dd_title :: string
  dd_period :: string
  dd_headline :: string
  dd_health_status :: string
  dd_summary :: "string list"
  dd_action_items :: "digest_action list"
  dd_event_info :: nat
  dd_event_warn :: nat
  dd_event_error :: nat
  dd_event_critical :: nat
  dd_total_errors :: nat
  dd_check_groups :: "check_group list"
  dd_app_sections :: "app_section list"
  dd_service_sections :: "app_section list"
  dd_app_rows :: "legacy_row list"
  dd_infra_online :: nat
  dd_infra_offline :: nat
  dd_infra_rows :: "infra_row list"
  dd_containers_total :: nat
  dd_containers_running :: nat
  dd_updates_available :: nat
  dd_new_containers :: "string list"
  dd_stopped_containers :: "string list"
  dd_resource_warnings :: "resource_warning list"

record digest_env =
  de_jx :: "string \<Rightarrow> string \<Rightarrow> string option option"
  de_profiler :: "template_loader option"
  de_range :: "(string \<times> string) list \<Rightarrow> (string \<times> string) list"
  de_now :: go_time

section \<open>Event counts and checks\<close>

definition level_filter :: "string \<Rightarrow> go_time \<Rightarrow> go_time \<Rightarrow> category_filter" where
  "level_filter level since until = \<lparr>cf_source_ids = [], cf_match_field = [], cf_match_value = [],
     cf_and_field = [], cf_and_value = [], cf_match_level = level, cf_since = Some since, cf_until = Some until\<rparr>"

text \<open>A count that fails leaves its field at zero.\<close>

definition count_or_zero :: "digest_env \<Rightarrow> category_filter \<Rightarrow> db \<Rightarrow> nat \<times> db" where
  "count_or_zero env f d0 = (case event_count_for_category (de_jx env) f d0 of
       (Inl _, d1) \<Rightarrow> (0, d1) | (Inr n, d1) \<Rightarrow> (n, d1))"

definition status_to_uptime_pct :: "string \<Rightarrow> rat" where
  "status_to_uptime_pct s = (if s = ''up'' then 100 else if s = ''warn'' then 75 else 0)"

definition check_group_of :: "monitor_check list \<Rightarrow> string \<Rightarrow> check_group" where
  "check_group_of checks ct =
     (let cs = filter (\<lambda>c. mc_enabled c \<and> mc_type c = ct) checks;
          up = length (filter (\<lambda>c. mc_last_status c = ''up'') cs);
          avg = sum_list (map (\<lambda>c. status_to_uptime_pct (mc_last_status c)) cs) / of_nat (length cs) in
      if cs = [] then \<lparr>cg_type = ct, cg_total = 0, cg_up = 0, cg_not_up = 0, cg_avg_uptime = 0, cg_status = ''none''\<rparr>
      else \<lparr>cg_type = ct, cg_total = length cs, cg_up = up, cg_not_up = length cs - up, cg_avg_uptime = avg,
            cg_status = (if 95 \<le> avg then ''healthy'' else if 75 \<le> avg then ''warning'' else ''down'')\<rparr>)"

section \<open>Apps\<close>

definition ellipsis :: string where
  "ellipsis = [CHR 0xE2, CHR 0x80, CHR 0xA6]"

definition trim_container_name :: "string \<Rightarrow> string" where
  "trim_container_name name = (let s = trim_prefix name ''/'' in if 32 < length s then take 32 s @ ellipsis else s)"

text \<open>\<open>strings.Index\<close>: what follows the first occurrence.\<close>

fun after_first :: "string \<Rightarrow> string \<Rightarrow> string option" where
  "after_first p [] = (if p = [] then Some [] else None)"
| "after_first p (c # s) = (if has_prefix (c # s) p then Some (drop (length p) (c # s)) else after_first p s)"

definition backtick :: char where
  "backtick = CHR 0x60"

definition route_domain :: "route \<Rightarrow> string" where
  "route_domain r = (case rt_domain r of
       Some (c # s) \<Rightarrow> c # s
     | _ \<Rightarrow> (case after_first (''Host('' @ [backtick]) (rt_rule r) of
           Some rest \<Rightarrow> (case split_first backtick rest of Some (host, _) \<Rightarrow> host | None \<Rightarrow> rt_router_name r)
         | None \<Rightarrow> rt_router_name r))"

text \<open>\<open>int(time.Until(t).Hours() / 24)\<close> rounds towards zero.\<close>

definition days_until :: "go_time \<Rightarrow> go_time \<Rightarrow> int" where
  "days_until now t = (if now \<le> t then (t - now) div day_ns else - ((now - t) div day_ns))"

definition app_route_row_of :: "go_time \<Rightarrow> route \<Rightarrow> app_route_row" where
  "app_route_row_of now r = \<lparr>at_domain = route_domain r, at_has_tls = (rt_has_tls_resolver r = 1), at_status = rt_router_status r,
     at_ssl_days = (case rt_ssl_expiry r of None \<Rightarrow> -1 | Some t \<Rightarrow> days_until now t)\<rparr>"

definition ssl_min_days :: "app_route_row list \<Rightarrow> int" where
  "ssl_min_days rs = foldl (\<lambda>m r. if 0 \<le> at_ssl_days r \<and> (m = -1 \<or> at_ssl_days r < m) then at_ssl_days r else m) (-1) rs"

definition new_section :: "app_row \<Rightarrow> app_template \<Rightarrow> app_section" where
  "new_section a t = \<lparr>as_app_name = ap_name a, as_profile_name = at_name t, as_categories = [], as_total_events = 0,
     as_has_issues = False, as_checks = [], as_routes = [], as_containers = [], as_checks_total = 0, as_checks_down = 0,
     as_checks_warn = 0, as_ctr_total = 0, as_ctr_running = 0, as_ctr_updates = 0, as_ssl_min_days = 0\<rparr>"

definition enrich_app_section ::
  "go_time \<Rightarrow> monitor_check list \<Rightarrow> container list \<Rightarrow> string \<Rightarrow> app_section \<Rightarrow> db \<Rightarrow> app_section \<times> db" where
  "enrich_app_section now checks containers aid sec d0 = (case route_list_by_app aid d0 of (r, d1) \<Rightarrow>
     let cs = map (\<lambda>c. \<lparr>ak_name = mc_name c, ak_type = mc_type c, ak_status = mc_last_status c, ak_target = mc_target c\<rparr>)
                (filter (\<lambda>c. aid \<noteq> [] \<and> mc_app_id c = aid \<and> mc_enabled c) checks);
         rs = (case r of Inl _ \<Rightarrow> [] | Inr routes \<Rightarrow> map (app_route_row_of now) routes);
         ks = map (\<lambda>c. \<lparr>an_name = trim_container_name (dc_container_name c), an_status = dc_status c,
                        an_has_update = dc_image_update_available c\<rparr>)
                (filter (\<lambda>c. aid \<noteq> [] \<and> dc_app_id c = Some aid) containers) in
     (sec\<lparr>as_checks := cs, as_routes := rs, as_containers := ks, as_checks_total := length cs,
         as_checks_down := length (filter (\<lambda>c. ak_status c = ''down'') cs),
         as_checks_warn := length (filter (\<lambda>c. ak_status c = ''warn'') cs),
         as_ctr_total := length ks, as_ssl_min_days := ssl_min_days rs,
         as_ctr_running := length (filter (\<lambda>c. an_status c = ''running'') ks),
         as_ctr_updates := length (filter an_has_update ks)\<rparr>, d1))"

definition category_filter_of :: "string \<Rightarrow> digest_category \<Rightarrow> go_time \<Rightarrow> go_time \<Rightarrow> category_filter" where
  "category_filter_of aid cat since until = \<lparr>cf_source_ids = [aid], cf_match_field = dg_match_field cat,
     cf_match_value = dg_match_value cat, cf_and_field = dg_and_field cat, cf_and_value = dg_and_value cat,
     cf_match_level = dg_match_severity cat, cf_since = Some since, cf_until = Some until\<rparr>"

fun count_categories ::
  "digest_env \<Rightarrow> string \<Rightarrow> go_time \<Rightarrow> go_time \<Rightarrow> digest_category list \<Rightarrow> app_section \<Rightarrow> db \<Rightarrow> app_section \<times> db" where
  "count_categories env aid since until [] sec d0 = (sec, d0)"
| "count_categories env aid since until (cat # cats) sec d0 =
     (case event_count_for_category (de_jx env) (category_filter_of aid cat since until) d0 of
        (Inl _, d1) \<Rightarrow> count_categories env aid since until cats sec d1
      | (Inr n, d1) \<Rightarrow>
          (let is_err = (dg_match_severity cat = ''error'' \<or> dg_match_severity cat = ''critical'') in
           count_categories env aid since until cats
             (sec\<lparr>as_categories := as_categories sec @ [\<lparr>cr_label = dg_label cat, cr_count = n, cr_is_error = is_err\<rparr>],
                  as_total_events := as_total_events sec + n, as_has_issues := as_has_issues sec \<or> (is_err \<and> 0 < n)\<rparr>) d1))"

text \<open>App and service sections in the order of the apps.\<close>

fun app_sections ::
  "digest_env \<Rightarrow> template_loader \<Rightarrow> go_time \<Rightarrow> go_time \<Rightarrow> monitor_check list \<Rightarrow> container list \<Rightarrow> app_row list \<Rightarrow> db
     \<Rightarrow> app_section list \<times> app_section list \<times> db" where
  "app_sections env get since until checks containers [] d0 = ([], [], d0)"
| "app_sections env get since until checks containers (a # as) d0 =
     (let rest = app_sections env get since until checks containers as in
      if ap_profile_id a = [] then rest d0
      else case get (ap_profile_id a) of
        Inr (Some t) \<Rightarrow>
          (if infer_capability t = ''monitor_only'' then
             (case enrich_app_section (de_now env) checks containers (ap_id a) (new_section a t) d0 of
                (sec, d1) \<Rightarrow> (case rest d1 of (secs, svcs, d2) \<Rightarrow> (secs, sec # svcs, d2)))
           else if at_categories t = [] then rest d0
           else (case count_categories env (ap_id a) since until (at_categories t) (new_section a t) d0 of
             (sec, d1) \<Rightarrow> (case enrich_app_section (de_now env) checks containers (ap_id a) sec d1 of
               (sec2, d2) \<Rightarrow> (case rest d2 of (secs, svcs, d3) \<Rightarrow> (sec2 # secs, svcs, d3)))))
      | _ \<Rightarrow> rest d0)"

section \<open>Infrastructure, containers, resources\<close>

definition infra_type_labels :: "(string \<times> string) list" where
  "infra_type_labels = [(''proxmox_node'', ''Proxmox Node''), (''vm_linux'', ''Linux VM''), (''vm_windows'', ''Windows VM''),
     (''vm_other'', ''VM''), (''linux_host'', ''Linux Host''), (''windows_host'', ''Windows Host''),
     (''generic_host'', ''Generic Host''), (''synology'', ''Synology NAS''), (''docker_engine'', ''Docker Engine''),
     (''traefik'', ''Traefik''), (''portainer'', ''Portainer'')]"

definition infra_type_label :: "string \<Rightarrow> string" where
  "infra_type_label t = (case map_of infra_type_labels t of Some l \<Rightarrow> l | None \<Rightarrow> t)"

definition infra_row_of :: "infra_component \<Rightarrow> infra_row" where
  "infra_row_of c = \<lparr>ir_name = ic_name c, ir_type = infra_type_label (ic_type c), ir_status = ic_last_status c\<rparr>"

definition cap_list :: "string list \<Rightarrow> nat \<Rightarrow> string list" where
  "cap_list xs n = (if length xs \<le> n then xs else take n xs @ [ellipsis @ ''and '' @ show_nat (length xs - n) @ '' more''])"

text \<open>The threshold on the average and the label of a metric the digest warns about.\<close>

definition resource_limit :: "string \<Rightarrow> (rat \<times> string) option" where
  "resource_limit m = (if m = ''cpu'' then Some (80, ''CPU'') else if m = ''mem'' then Some (85, ''Memory'')
     else if m = ''disk'' then Some (90, ''Disk'') else None)"

definition resource_warning_of :: "infra_component list \<Rightarrow> resource_aggregate \<Rightarrow> resource_warning option" where
  "resource_warning_of infra a = (case resource_limit (ag_metric a) of
       None \<Rightarrow> None
     | Some (limit, label) \<Rightarrow> (if limit \<le> ag_avg a \<or> 95 \<le> ag_max a
         then Some \<lparr>rw_component = (case lookup_row ic_id (ag_source_id a) (rev infra) of
                       Some c \<Rightarrow> if ic_name c = [] then ag_source_id a else ic_name c | None \<Rightarrow> ag_source_id a),
                    rw_metric = label, rw_avg = ag_avg a, rw_max = ag_max a\<rparr> else None))"

section \<open>The legacy rows\<close>

fun live_rollups ::
  "(string \<Rightarrow> string \<Rightarrow> string option option) \<Rightarrow> go_time \<Rightarrow> go_time \<Rightarrow> app_row list \<Rightarrow> db
     \<Rightarrow> (string \<times> string \<times> nat) list db_result" where
  "live_rollups jx since until [] d0 = (Inr [], d0)"
| "live_rollups jx since until (a # as) d0 = (case event_group_by_type_and_level jx (ap_id a) since until d0 of
       (Inl e, d1) \<Rightarrow> (Inl e, d1)
     | (Inr rows, d1) \<Rightarrow> (case live_rollups jx since until as d1 of
           (Inl e, d2) \<Rightarrow> (Inl e, d2)
         | (Inr rs, d2) \<Rightarrow> (Inr (map (\<lambda>r. (ap_id a, tc_event_type r, tc_count r)) rows @ rs), d2)))"

text \<open>One row per app and event type, sorted by app name and event type; the sort is stable here, in the code rows
  with equal names may come in any order.\<close>

definition legacy_rows :: "digest_env \<Rightarrow> app_row list \<Rightarrow> (string \<times> string \<times> nat) list \<Rightarrow> legacy_row list" where
  "legacy_rows env apps rs =
     order_asc lr_app_name (order_asc lr_event_type (map (\<lambda>(aid, et).
       \<lparr>lr_app_name = (case lookup_row ap_id aid (rev apps) of Some a \<Rightarrow> ap_name a | None \<Rightarrow> []), lr_event_type = et,
        lr_count = sum_list (map (\<lambda>(_, _, n). n) (filter (\<lambda>(a, t, _). a = aid \<and> t = et) rs)),
        lr_has_errors = (et = ''error'' \<or> et = ''critical'')\<rparr>)
       (de_range env (remdups (map (\<lambda>(a, t, _). (a, t)) rs)))))"

section \<open>The narrative\<close>

definition plural :: "nat \<Rightarrow> string" where
  "plural n = (if n = 1 then [] else ''s'')"

definition is_are :: "nat \<Rightarrow> string" where
  "is_are n = (if n = 1 then ''is'' else ''are'')"

definition dash :: string where
  "dash = '' '' @ em_dash @ '' ''"

text \<open>\<open>%.0f\<close>.\<close>

definition format_whole :: "rat \<Rightarrow> string" where
  "format_whole r = show_int (round_half_even r)"

definition urgent :: "string \<Rightarrow> digest_action" where
  "urgent t = \<lparr>da_priority = ''urgent'', da_text = t\<rparr>"

definition review :: "string \<Rightarrow> digest_action" where
  "review t = \<lparr>da_priority = ''review'', da_text = t\<rparr>"

definition info_item :: "string \<Rightarrow> digest_action" where
  "info_item t = \<lparr>da_priority = ''info'', da_text = t\<rparr>"

definition urgent_items :: "digest_data \<Rightarrow> digest_action list" where
  "urgent_items d =
     map (\<lambda>g. urgent (to_upper (cg_type g) @ '' checks are down ('' @ format_fixed 1 (cg_avg_uptime g) @ ''% avg uptime, ''
             @ show_nat (cg_not_up g) @ '' not up)'')) (filter (\<lambda>g. cg_status g = ''down'') (dd_check_groups d))
     @ (if 0 < dd_event_critical d then [urgent (show_nat (dd_event_critical d) @ '' critical event''
             @ plural (dd_event_critical d) @ '' recorded'' @ dash @ ''review the Events log'')] else [])"

definition review_items :: "digest_data \<Rightarrow> digest_action list" where
  "review_items d =
     map (\<lambda>g. review (to_upper (cg_type g) @ '' checks degraded'' @ dash @ show_nat (cg_not_up g) @ '' of '' @ show_nat (cg_total g)
             @ '' not fully up ('' @ format_fixed 1 (cg_avg_uptime g) @ ''% avg)''))
         (filter (\<lambda>g. cg_status g = ''warning'') (dd_check_groups d))
     @ (if 0 < dd_event_error d then [review (show_nat (dd_event_error d) @ '' error event'' @ plural (dd_event_error d)
             @ '' recorded this period'')] else [])
     @ map (\<lambda>s. review (as_app_name s @ '' had error-level activity this period'')) (filter as_has_issues (dd_app_sections d))
     @ map (\<lambda>r. review (''Infrastructure component '' @ go_quote (ir_name r) @ '' is '' @ ir_status r))
         (filter (\<lambda>r. ir_status r \<noteq> ''online'') (dd_infra_rows d))
     @ (if 0 < dd_updates_available d then [review (show_nat (dd_updates_available d) @ '' container image update''
             @ plural (dd_updates_available d) @ '' available'' @ dash @ ''consider pulling latest'')] else [])
     @ map (\<lambda>w. review (rw_metric w @ '' on '' @ rw_component w @ '' averaged '' @ format_fixed 1 (rw_avg w) @ ''% (peak ''
             @ format_fixed 1 (rw_max w) @ ''%)'' @ dash @ ''consider investigating'')) (dd_resource_warnings d)"

definition info_items :: "digest_data \<Rightarrow> digest_action list" where
  "info_items d =
     (let new = dd_new_containers d; stopped = dd_stopped_containers d in
      (if new \<noteq> [] then [info_item (show_nat (length new) @ '' new container'' @ plural (length new)
            @ '' appeared this period: '' @ join '', '' new)] else [])
      @ (if stopped \<noteq> [] then [info_item (show_nat (length stopped) @ '' container'' @ plural (length stopped)
            @ '' currently stopped: '' @ join '', '' stopped)] else []))"

definition health_status :: "digest_data \<Rightarrow> string" where
  "health_status d = (if urgent_items d \<noteq> [] then ''critical'' else if review_items d \<noteq> [] then ''warning'' else ''healthy'')"

definition headline :: "digest_data \<Rightarrow> string" where
  "headline d = (let u = length (urgent_items d); r = length (review_items d) in
     if 0 < u then show_nat (u + r) @ '' item'' @ plural (u + r) @ '' need immediate attention''
     else if 0 < r then show_nat r @ '' item'' @ plural r @ '' worth reviewing''
     else ''All systems look healthy'')"

text \<open>The summary: at most one sentence about events, checks, infrastructure, containers and the busiest app.\<close>

definition events_sentence :: "digest_data \<Rightarrow> string list" where
  "events_sentence d =
     (let severe = dd_event_error d + dd_event_critical d;
          n = dd_event_info d + dd_event_warn d + severe;
          part = (\<lambda>k word. if 0 < k then [show_nat k @ word] else []) in
      if n = 0 then (if health_status d = ''healthy''
                     then [''No events were recorded this period'' @ dash @ ''everything has been quiet.''] else [])
      else if severe = 0 then [''NORA recorded '' @ show_nat n @ '' event'' @ plural n
             @ '' this period with no errors or critical alerts'' @ dash @ ''a clean run.'']
      else [''NORA recorded '' @ show_nat n @ '' event'' @ plural n @ '' this period (''
             @ join '', '' (part (dd_event_info d) '' info'' @ part (dd_event_warn d) '' warning''
                 @ part (dd_event_error d) '' error'' @ part (dd_event_critical d) '' critical'')
             @ '')'' @ dash @ ''the error and critical events are worth reviewing.''])"

definition check_desc :: "check_group \<Rightarrow> string option" where
  "check_desc g = (if cg_total g = 0 then None
     else if cg_status g = ''healthy'' then Some (to_upper (cg_type g) @ '' ('' @ show_nat (cg_total g) @ '' up)'')
     else if cg_status g = ''warning'' then Some (to_upper (cg_type g) @ '' at '' @ format_whole (cg_avg_uptime g)
            @ ''% avg with '' @ show_nat (cg_not_up g) @ '' of '' @ show_nat (cg_total g) @ '' not fully up'')
     else if cg_status g = ''down'' then Some (to_upper (cg_type g) @ '' at '' @ format_whole (cg_avg_uptime g) @ ''% avg'' @ dash
            @ show_nat (cg_not_up g) @ '' of '' @ show_nat (cg_total g) @ '' down'')
     else None)"

definition checks_sentence :: "digest_data \<Rightarrow> string list" where
  "checks_sentence d =
     (let descs = List.map_filter check_desc (dd_check_groups d) in
      if descs = [] then []
      else if list_all (\<lambda>g. cg_status g \<noteq> ''down'' \<and> cg_status g \<noteq> ''warning'') (dd_check_groups d)
      then [''Monitor checks are all healthy'' @ dash @ join '', '' descs @ ''.'']
      else [''Monitor checks need attention: '' @ join ''; '' descs @ ''.''])"

definition infra_sentence :: "digest_data \<Rightarrow> string list" where
  "infra_sentence d =
     (let rows = dd_infra_rows d; n = length rows;
          offline = map ir_name (filter (\<lambda>r. ir_status r \<noteq> ''online'') rows) in
      if n = 0 then []
      else if offline = [] then [''All '' @ show_nat n @ '' infrastructure component'' @ plural n
             @ '' reported online throughout the period.'']
      else [show_nat (dd_infra_online d) @ '' of '' @ show_nat n @ '' infrastructure component'' @ plural n @ '' online'' @ dash
             @ join '', '' offline @ '' '' @ is_are (length offline) @ '' offline and should be investigated.''])"

definition containers_sentence :: "digest_data \<Rightarrow> string list" where
  "containers_sentence d =
     (let n = dd_containers_total d; u = dd_updates_available d;
          start = show_nat (dd_containers_running d) @ '' of '' @ show_nat n @ '' container'' @ plural n @ '' running with '' in
      if n = 0 then []
      else if 0 < u then [start @ show_nat u @ '' image update'' @ plural u @ '' available to pull.'']
      else [start @ ''no image updates pending.''])"

text \<open>The first section with the most events.\<close>

definition top_section :: "app_section list \<Rightarrow> app_section option" where
  "top_section secs = foldl (\<lambda>best s. case best of None \<Rightarrow> Some s
     | Some b \<Rightarrow> if as_total_events b < as_total_events s then Some s else Some b) None secs"

definition apps_sentence :: "digest_data \<Rightarrow> string list" where
  "apps_sentence d = (case top_section (dd_app_sections d) of
       None \<Rightarrow> []
     | Some s \<Rightarrow>
         (let parts = map (\<lambda>c. show_nat (cr_count c) @ '' '' @ to_lower (cr_label c)) (filter (\<lambda>c. 0 < cr_count c) (as_categories s));
              n = length (dd_app_sections d) in
          if as_total_events s = 0 \<or> parts = [] then []
          else if n = 1 then [as_app_name s @ '' logged '' @ join '', '' parts @ '' this period.'']
          else [''App highlights: '' @ as_app_name s @ '' logged '' @ join '', '' parts @ dash
                @ ''see App Activity below for all '' @ show_nat n @ '' app'' @ plural n @ ''.'']))"

definition with_narrative :: "digest_data \<Rightarrow> digest_data" where
  "with_narrative d = d\<lparr>dd_headline := headline d, dd_health_status := health_status d,
     dd_summary := events_sentence d @ checks_sentence d @ infra_sentence d @ containers_sentence d @ apps_sentence d,
     dd_action_items := urgent_items d @ review_items d @ info_items d\<rparr>"

section \<open>buildDigestData\<close>

definition or_empty :: "'a list db_result \<Rightarrow> 'a list \<times> db" where
  "or_empty r = (case r of (Inl _, d) \<Rightarrow> ([], d) | (Inr xs, d) \<Rightarrow> (xs, d))"

definition app_part ::
  "digest_env \<Rightarrow> go_time \<Rightarrow> go_time \<Rightarrow> app_row list \<Rightarrow> monitor_check list \<Rightarrow> container list \<Rightarrow> db
     \<Rightarrow> (app_section list \<times> app_section list \<times> legacy_row list) \<times> db" where
  "app_part env since until apps checks containers d0 = (case de_profiler env of
       Some get \<Rightarrow> (case app_sections env get since until checks containers apps d0 of
           (secs, svcs, d1) \<Rightarrow> ((secs, svcs, []), d1))
     | None \<Rightarrow> (case or_empty (live_rollups (de_jx env) since until apps d0) of
           (rs, d1) \<Rightarrow> (([], [], legacy_rows env apps rs), d1)))"

definition digest_base ::
  "string \<Rightarrow> go_time \<Rightarrow> go_time \<Rightarrow> nat \<times> nat \<times> nat \<times> nat \<Rightarrow> monitor_check list \<Rightarrow> container list
     \<Rightarrow> app_section list \<times> app_section list \<times> legacy_row list \<Rightarrow> infra_component list \<Rightarrow> resource_aggregate list \<Rightarrow> digest_data" where
  "digest_base period since until counts checks containers sections infra aggs =
     (let (info, warn, err, crit) = counts; (secs, svcs, rows) = sections;
          enabled = filter ic_enabled infra;
          named = map (\<lambda>c. trim_container_name (dc_container_name c)) in
      \<lparr>dd_title = subject_line period, dd_period = period, dd_headline = [], dd_health_status = [],
       dd_summary = [], dd_action_items = [],
       dd_event_info = info, dd_event_warn = warn, dd_event_error = err, dd_event_critical = crit,
       dd_total_errors = err + crit,
       dd_check_groups = map (check_group_of checks) [''url'', ''ssl'', ''dns'', ''ping''],
       dd_app_sections = secs, dd_service_sections = svcs, dd_app_rows = rows,
       dd_infra_online = length (filter (\<lambda>c. ic_last_status c = ''online'') enabled),
       dd_infra_offline = length (filter (\<lambda>c. ic_last_status c \<noteq> ''online'') enabled),
       dd_infra_rows = map infra_row_of enabled,
       dd_containers_total = length containers,
       dd_containers_running = length (filter (\<lambda>c. dc_status c = ''running'') containers),
       dd_updates_available = length (filter dc_image_update_available containers),
       dd_new_containers = cap_list (named (filter (\<lambda>c. since < dc_created_at c \<and> dc_created_at c < until) containers)) 8,
       dd_stopped_containers = cap_list (named (filter (\<lambda>c. dc_status c = ''stopped'' \<or> dc_status c = ''exited'') containers)) 8,
       dd_resource_warnings = List.map_filter (resource_warning_of infra) aggs\<rparr>)"

definition build_digest_data :: "digest_env \<Rightarrow> string \<Rightarrow> db \<Rightarrow> digest_data db_result" where
  "build_digest_data env period d0 =
     (let since = fst (period_time_range (de_now env) period); until = snd (period_time_range (de_now env) period) in
      case app_list d0 of
        (Inl e, d1) \<Rightarrow> (Inl e, d1)
      | (Inr apps, d1) \<Rightarrow>
          (case count_or_zero env (level_filter ''info'' since until) d1 of (info, d2) \<Rightarrow>
           case count_or_zero env (level_filter ''warn'' since until) d2 of (warn, d3) \<Rightarrow>
           case count_or_zero env (level_filter ''error'' since until) d3 of (err, d4) \<Rightarrow>
           case count_or_zero env (level_filter ''critical'' since until) d4 of (crit, d5) \<Rightarrow>
           case or_empty (check_list d5) of (checks, d6) \<Rightarrow>
           case or_empty (container_list_all d6) of (containers, d7) \<Rightarrow>
           case app_part env since until apps checks containers d7 of (sections, d8) \<Rightarrow>
           case or_empty (component_list d8) of (infra, d9) \<Rightarrow>
           case or_empty (aggregate_hourly_rollups since until d9) of (aggs, d10) \<Rightarrow>
             (Inr (with_narrative (digest_base period since until (info, warn, err, crit) checks containers sections infra aggs)), d10)))"

section \<open>When the digest says that all is well\<close>

definition in_window :: "go_time \<Rightarrow> go_time \<Rightarrow> event \<Rightarrow> bool" where
  "in_window since until e = (unix_secs since \<le> unix_secs (ev_created_at e) \<and> unix_secs (ev_created_at e) \<le> unix_secs until)"

definition severe_in_window :: "go_time \<Rightarrow> go_time \<Rightarrow> db \<Rightarrow> bool" where
  "severe_in_window since until d = (\<exists>e \<in> set (d_events d). in_window since until e \<and> ev_level e \<in> {''error'', ''critical''})"

definition payloads_readable :: "digest_env \<Rightarrow> db \<Rightarrow> bool" where
  "payloads_readable env d = (\<forall>e \<in> set (d_events d). \<forall>p. de_jx env (ev_payload e) p \<noteq> None)"

lemma category_where_total:
  assumes "\<forall>p. jx (ev_payload e) p \<noteq> None"
  shows "build_category_where jx f e \<noteq> None"
proof -
  have "payload_field_is jx a b e \<noteq> None" for a b using assms by (auto simp: payload_field_is_def)
  then obtain x y where "payload_field_is jx (cf_match_field f) (cf_match_value f) e = Some x"
      "payload_field_is jx (cf_and_field f) (cf_and_value f) e = Some y" by (meson option.exhaust)
  then show ?thesis unfolding build_category_where_def
    by (cases "cf_source_ids f \<noteq> [] \<longrightarrow> ev_source_id e \<in> set (cf_source_ids f)"; cases x; cases y) simp_all
qed

lemma sql_and_true: "sql_and a b = Some True \<longleftrightarrow> a = Some True \<and> b = Some True"
  by (cases "(a, b)" rule: sql_and.cases) auto

lemma category_counts:
  assumes "d_faults d = []" and "payloads_readable env d"
  shows "event_count_for_category (de_jx env) f d = (Inr (length (filter (\<lambda>e. build_category_where (de_jx env) f e = Some True) (d_events d))), d)"
  using assms category_where_total by (auto simp: event_count_for_category_def payloads_readable_def)

lemma category_event_in_window:
  assumes "build_category_where jx (category_filter_of aid cat since until) e = Some True"
  shows "in_window since until e \<and> (dg_match_severity cat \<noteq> [] \<longrightarrow> ev_level e = dg_match_severity cat)"
  using assms by (simp add: build_category_where_def sql_and_true category_filter_of_def in_window_def)

lemma level_count_zero:
  assumes "d_faults d = []" and "payloads_readable env d" and "level \<noteq> []"
  shows "\<exists>n. count_or_zero env (level_filter level since until) d = (n, d)
    \<and> (n = 0 \<longleftrightarrow> \<not> (\<exists>e \<in> set (d_events d). in_window since until e \<and> ev_level e = level))"
  using assms by (auto simp: count_or_zero_def category_counts build_category_where_def sql_and_true level_filter_def
      payload_field_is_def in_window_def filter_empty_conv)

lemma count_categories_issues:
  assumes "d_faults d = []" and "payloads_readable env d"
  shows "\<exists>sec2. count_categories env aid since until cats sec d = (sec2, d)
    \<and> (as_has_issues sec2 \<longrightarrow> as_has_issues sec \<or> severe_in_window since until d)"
proof (induction cats arbitrary: sec)
  case (Cons cat cats)
  let ?es = "filter (\<lambda>e. build_category_where (de_jx env) (category_filter_of aid cat since until) e = Some True) (d_events d)"
  have "severe_in_window since until d"
    if sev: "dg_match_severity cat = ''error'' \<or> dg_match_severity cat = ''critical''" and some: "?es \<noteq> []"
  proof -
    obtain e where "e \<in> set (d_events d)" "build_category_where (de_jx env) (category_filter_of aid cat since until) e = Some True"
      using some by (auto simp: filter_empty_conv)
    then show ?thesis using category_event_in_window sev by (fastforce simp: severe_in_window_def)
  qed
  then show ?case using Cons by (fastforce simp: category_counts [OF assms] Let_def)
qed simp

lemma enrich_state:
  assumes "d_faults d = []"
  shows "\<exists>sec2. enrich_app_section now checks containers aid sec d = (sec2, d) \<and> as_has_issues sec2 = as_has_issues sec"
  using assms by (simp add: enrich_app_section_def route_list_by_app_def Let_def)

lemma app_sections_issues:
  assumes "d_faults d = []" and "payloads_readable env d"
  shows "\<exists>secs svcs. app_sections env get since until checks containers apps d = (secs, svcs, d)
    \<and> (\<forall>s \<in> set secs. as_has_issues s \<longrightarrow> severe_in_window since until d)"
proof (induction apps)
  case (Cons a as)
  obtain secs svcs where rest: "app_sections env get since until checks containers as d = (secs, svcs, d)"
      "\<forall>s \<in> set secs. as_has_issues s \<longrightarrow> severe_in_window since until d"
    using Cons by blast
  show ?case
  proof (cases "ap_profile_id a = []")
    case False
    show ?thesis
    proof (cases "get (ap_profile_id a)")
      case (Inr t)
      show ?thesis
      proof (cases t)
        case (Some tm)
        obtain sv where sv: "enrich_app_section (de_now env) checks containers (ap_id a) (new_section a tm) d = (sv, d)"
          using enrich_state [OF assms(1)] by blast
        obtain sec where sec: "count_categories env (ap_id a) since until (at_categories tm) (new_section a tm) d = (sec, d)"
            "as_has_issues sec \<longrightarrow> as_has_issues (new_section a tm) \<or> severe_in_window since until d"
          using count_categories_issues [OF assms] by blast
        obtain sec2 where sec2: "enrich_app_section (de_now env) checks containers (ap_id a) sec d = (sec2, d)"
            "as_has_issues sec2 = as_has_issues sec"
          using enrich_state [OF assms(1)] by blast
        have "\<not> as_has_issues (new_section a tm)" by (simp add: new_section_def)
        then show ?thesis using False rest sv sec sec2 by (auto simp: Inr Some Let_def)
      qed (use False rest Inr in \<open>simp add: Let_def\<close>)
    qed (use False rest in \<open>simp add: Let_def\<close>)
  qed (use rest in \<open>simp add: Let_def\<close>)
qed simp

definition checks_well :: "monitor_check list \<Rightarrow> string \<Rightarrow> bool" where
  "checks_well checks ct = (let cs = filter (\<lambda>c. mc_enabled c \<and> mc_type c = ct) checks in
     cs = [] \<or> 95 * of_nat (length cs) \<le> sum_list (map (\<lambda>c. status_to_uptime_pct (mc_last_status c)) cs))"

definition checks_down :: "monitor_check list \<Rightarrow> string \<Rightarrow> bool" where
  "checks_down checks ct = (let cs = filter (\<lambda>c. mc_enabled c \<and> mc_type c = ct) checks in
     cs \<noteq> [] \<and> sum_list (map (\<lambda>c. status_to_uptime_pct (mc_last_status c)) cs) < 75 * of_nat (length cs))"

lemma group_status:
  "cg_status (check_group_of checks ct) =
     (if filter (\<lambda>c. mc_enabled c \<and> mc_type c = ct) checks = [] then ''none''
      else if checks_well checks ct then ''healthy'' else if checks_down checks ct then ''down'' else ''warning'')"
  by (auto simp: check_group_of_def checks_well_def checks_down_def Let_def field_simps)

definition digest_check_types :: "string list" where
  "digest_check_types = [''url'', ''ssl'', ''dns'', ''ping'']"

text \<open>Nothing to report.\<close>

definition estate_well :: "go_time \<Rightarrow> go_time \<Rightarrow> db \<Rightarrow> bool" where
  "estate_well since until d = ((\<forall>ct \<in> set digest_check_types. checks_well (d_checks d) ct) \<and> \<not> severe_in_window since until d
     \<and> (\<forall>c \<in> set (d_components d). ic_enabled c \<longrightarrow> ic_last_status c = ''online'')
     \<and> (\<forall>c \<in> set (d_containers d). \<not> dc_image_update_available c)
     \<and> List.map_filter (resource_warning_of (order_asc ic_created_at (d_components d)))
         (aggregate_by rollup_group rr_avg rr_min rr_max (hours_between since until (d_resource_rollups d))) = [])"

lemma live_rollups_state:
  assumes "d_faults d = []" and "\<forall>e \<in> set (d_events d). \<forall>p. jx (ev_payload e) p \<noteq> None"
  shows "\<exists>rs. live_rollups jx since until apps d = (Inr rs, d)"
proof (induction apps)
  case (Cons a as)
  have "\<exists>rows. event_group_by_type_and_level jx (ap_id a) since until d = (Inr rows, d)"
    using assms by (auto simp: event_group_by_type_and_level_def Let_def)
  then show ?case using Cons by auto
qed simp

lemma app_part_issues:
  assumes "d_faults d = []" and "payloads_readable env d"
  shows "\<exists>secs svcs rows. app_part env since until apps checks containers d = ((secs, svcs, rows), d)
    \<and> (\<forall>s \<in> set secs. as_has_issues s \<longrightarrow> severe_in_window since until d)"
proof (cases "de_profiler env")
  case None
  have "\<forall>e \<in> set (d_events d). \<forall>p. de_jx env (ev_payload e) p \<noteq> None" using assms(2) by (simp only: payloads_readable_def)
  then obtain rs where "live_rollups (de_jx env) since until apps d = (Inr rs, d)"
    using live_rollups_state [OF assms(1)] by blast
  then show ?thesis by (simp add: app_part_def None or_empty_def)
next
  case (Some get)
  then show ?thesis using app_sections_issues [OF assms, of get since until checks containers apps] by (auto simp: app_part_def)
qed

definition counted :: "go_time \<Rightarrow> go_time \<Rightarrow> db \<Rightarrow> string \<Rightarrow> nat \<Rightarrow> bool" where
  "counted since until d level n = (n = 0 \<longleftrightarrow> \<not> (\<exists>e \<in> set (d_events d). in_window since until e \<and> ev_level e = level))"

lemma severe_counts:
  "counted since until d ''error'' e \<Longrightarrow> counted since until d ''critical'' c \<Longrightarrow> severe_in_window since until d \<longleftrightarrow> 0 < e \<or> 0 < c"
  by (auto simp: counted_def severe_in_window_def)

text \<open>What the digest reads from a database on which no statement fails.\<close>

lemma build_digest_parts:
  assumes "d_faults d = []" and "payloads_readable env d"
    and "since = fst (period_time_range (de_now env) period)" and "until = snd (period_time_range (de_now env) period)"
  shows "\<exists>ni nw ne nc secs svcs rows. build_digest_data env period d = (Inr (with_narrative (digest_base period since until
        (ni, nw, ne, nc) (order_asc mc_created_at (d_checks d))
        (order_asc dc_infra_component_id (order_asc dc_container_name (d_containers d))) (secs, svcs, rows)
        (order_asc ic_created_at (d_components d))
        (aggregate_by rollup_group rr_avg rr_min rr_max (hours_between since until (d_resource_rollups d))))), d)
    \<and> counted since until d ''error'' ne \<and> counted since until d ''critical'' nc
    \<and> (\<forall>s \<in> set secs. as_has_issues s \<longrightarrow> severe_in_window since until d)"
proof -
  let ?c = "\<lambda>l. count_or_zero env (level_filter l since until) d"
  have c: "\<exists>n. ?c l = (n, d) \<and> counted since until d l n" if "l \<noteq> []" for l
    unfolding counted_def by (rule level_count_zero [OF assms(1,2) that])
  obtain ni nw ne nc where n: "?c ''info'' = (ni, d)" "?c ''warn'' = (nw, d)" "?c ''error'' = (ne, d)" "?c ''critical'' = (nc, d)"
      "counted since until d ''error'' ne" "counted since until d ''critical'' nc"
    using c [of "''info''"] c [of "''warn''"] c [of "''error''"] c [of "''critical''"] by auto
  let ?checks = "order_asc mc_created_at (d_checks d)"
  let ?cs = "order_asc dc_infra_component_id (order_asc dc_container_name (d_containers d))"
  obtain secs svcs rows where a: "app_part env since until (order_asc ap_created_at (d_apps d)) ?checks ?cs d = ((secs, svcs, rows), d)"
      "\<forall>s \<in> set secs. as_has_issues s \<longrightarrow> severe_in_window since until d"
    using app_part_issues [OF assms(1,2)] by blast
  have l: "app_list d = (Inr (order_asc ap_created_at (d_apps d)), d)" "or_empty (check_list d) = (?checks, d)"
    "or_empty (container_list_all d) = (?cs, d)" "or_empty (component_list d) = (order_asc ic_created_at (d_components d), d)"
    "or_empty (aggregate_hourly_rollups since until d)
      = (aggregate_by rollup_group rr_avg rr_min rr_max (hours_between since until (d_resource_rollups d)), d)"
    using assms(1) by (simp_all add: app_list_def check_list_def container_list_all_def component_list_def
        aggregate_hourly_rollups_def or_empty_def)
  have "build_digest_data env period d = (Inr (with_narrative (digest_base period since until (ni, nw, ne, nc) ?checks ?cs
      (secs, svcs, rows) (order_asc ic_created_at (d_components d))
      (aggregate_by rollup_group rr_avg rr_min rr_max (hours_between since until (d_resource_rollups d))))), d)"
    unfolding build_digest_data_def assms(3,4) [symmetric] Let_def l n a(1) prod.case sum.case by (rule refl)
  then show ?thesis using n(5,6) a(2) by blast
qed

lemma check_sums_perm:
  assumes "mset xs = mset ys"
  shows "checks_well xs ct = checks_well ys ct" "checks_down xs ct = checks_down ys ct"
proof -
  let ?P = "\<lambda>c. mc_enabled c \<and> mc_type c = ct" and ?f = "\<lambda>c. status_to_uptime_pct (mc_last_status c)"
  have f: "mset (filter ?P xs) = mset (filter ?P ys)" by (simp add: assms)
  have "sum_mset (image_mset ?f (mset (filter ?P xs))) = sum_mset (image_mset ?f (mset (filter ?P ys)))" by (simp only: f)
  then have "sum_list (map ?f (filter ?P xs)) = sum_list (map ?f (filter ?P ys))"
    by (simp only: mset_map [symmetric] sum_mset_sum_list)
  moreover have "length (filter ?P xs) = length (filter ?P ys)" using f by (rule mset_eq_length)
  moreover have "filter ?P xs = [] \<longleftrightarrow> filter ?P ys = []" using f by (metis mset_zero_iff)
  ultimately show "checks_well xs ct = checks_well ys ct" "checks_down xs ct = checks_down ys ct"
    by (simp_all only: checks_well_def checks_down_def Let_def)
qed

lemma narrative_fields: "dd_health_status (with_narrative b) = health_status b"
  "dd_action_items (with_narrative b) = urgent_items b @ review_items b @ info_items b"
  by (simp_all add: with_narrative_def)

lemma base_fields:
  "dd_event_error (digest_base p since until (i, w, e, c) cs ks (secs, svcs, rows) infra aggs) = e"
  "dd_event_critical (digest_base p since until (i, w, e, c) cs ks (secs, svcs, rows) infra aggs) = c"
  "dd_check_groups (digest_base p since until (i, w, e, c) cs ks (secs, svcs, rows) infra aggs) = map (check_group_of cs) digest_check_types"
  "dd_app_sections (digest_base p since until (i, w, e, c) cs ks (secs, svcs, rows) infra aggs) = secs"
  "dd_infra_rows (digest_base p since until (i, w, e, c) cs ks (secs, svcs, rows) infra aggs) = map infra_row_of (filter ic_enabled infra)"
  "dd_updates_available (digest_base p since until (i, w, e, c) cs ks (secs, svcs, rows) infra aggs)
     = length (filter dc_image_update_available ks)"
  "dd_resource_warnings (digest_base p since until (i, w, e, c) cs ks (secs, svcs, rows) infra aggs)
     = List.map_filter (resource_warning_of infra) aggs"
  by (simp_all add: digest_base_def Let_def digest_check_types_def)

lemma urgent_empty:
  "urgent_items b = [] \<longleftrightarrow> (\<forall>g \<in> set (dd_check_groups b). cg_status g \<noteq> ''down'') \<and> dd_event_critical b = 0"
  by (auto simp: urgent_items_def filter_empty_conv)

lemma review_empty:
  "review_items b = [] \<longleftrightarrow> (\<forall>g \<in> set (dd_check_groups b). cg_status g \<noteq> ''warning'') \<and> dd_event_error b = 0
    \<and> (\<forall>s \<in> set (dd_app_sections b). \<not> as_has_issues s) \<and> (\<forall>r \<in> set (dd_infra_rows b). ir_status r = ''online'')
    \<and> dd_updates_available b = 0 \<and> dd_resource_warnings b = []"
  by (auto simp: review_items_def filter_empty_conv)

lemma well_or_down: "checks_well cs ct \<Longrightarrow> \<not> checks_down cs ct"
proof
  assume w: "checks_well cs ct" and d: "checks_down cs ct"
  let ?cs = "filter (\<lambda>c. mc_enabled c \<and> mc_type c = ct) cs"
  have "(75 :: rat) * of_nat (length ?cs) \<le> 95 * of_nat (length ?cs)" by (rule mult_right_mono) simp_all
  then show False using w d by (auto simp: checks_well_def checks_down_def Let_def)
qed

lemma group_status_cases:
  "cg_status (check_group_of cs ct) = ''down'' \<longleftrightarrow> checks_down cs ct"
  "cg_status (check_group_of cs ct) \<noteq> ''down'' \<and> cg_status (check_group_of cs ct) \<noteq> ''warning'' \<longleftrightarrow> checks_well cs ct"
proof -
  have "checks_down cs ct \<Longrightarrow> filter (\<lambda>c. mc_enabled c \<and> mc_type c = ct) cs \<noteq> []" by (simp add: checks_down_def Let_def)
  moreover have "filter (\<lambda>c. mc_enabled c \<and> mc_type c = ct) cs = [] \<Longrightarrow> checks_well cs ct" by (simp add: checks_well_def)
  ultimately show "cg_status (check_group_of cs ct) = ''down'' \<longleftrightarrow> checks_down cs ct"
    "cg_status (check_group_of cs ct) \<noteq> ''down'' \<and> cg_status (check_group_of cs ct) \<noteq> ''warning'' \<longleftrightarrow> checks_well cs ct"
    using well_or_down [of cs ct] by (auto simp: group_status)
qed

text \<open>C18: On a database that answers, the digest says healthy exactly when there is nothing to report: every type of
  check averages at least 95 percent, no error or critical event lies in the period, every enabled component is online, no
  image update is available and no resource warning applies. It says critical exactly when some type of check averages
  below 75 percent or a critical event lies in the period.\<close>

theorem digest_health_meaning:
  assumes "d_faults d = []" and "payloads_readable env d"
    and "since = fst (period_time_range (de_now env) period)" and "until = snd (period_time_range (de_now env) period)"
  shows "\<exists>data. build_digest_data env period d = (Inr data, d)
    \<and> (dd_health_status data = ''healthy'' \<longleftrightarrow> estate_well since until d)
    \<and> (dd_health_status data = ''critical'' \<longleftrightarrow> (\<exists>ct \<in> set digest_check_types. checks_down (d_checks d) ct)
         \<or> (\<exists>e \<in> set (d_events d). in_window since until e \<and> ev_level e = ''critical''))"
proof -
  obtain ni nw ne nc secs svcs rows where b: "build_digest_data env period d = (Inr (with_narrative (digest_base period since until
        (ni, nw, ne, nc) (order_asc mc_created_at (d_checks d))
        (order_asc dc_infra_component_id (order_asc dc_container_name (d_containers d))) (secs, svcs, rows)
        (order_asc ic_created_at (d_components d))
        (aggregate_by rollup_group rr_avg rr_min rr_max (hours_between since until (d_resource_rollups d))))), d)"
      "counted since until d ''error'' ne" "counted since until d ''critical'' nc"
      "\<forall>s \<in> set secs. as_has_issues s \<longrightarrow> severe_in_window since until d"
    using build_digest_parts [OF assms] by blast
  let ?b = "digest_base period since until (ni, nw, ne, nc) (order_asc mc_created_at (d_checks d))
        (order_asc dc_infra_component_id (order_asc dc_container_name (d_containers d))) (secs, svcs, rows)
        (order_asc ic_created_at (d_components d))
        (aggregate_by rollup_group rr_avg rr_min rr_max (hours_between since until (d_resource_rollups d)))"
  have perm: "checks_well (order_asc mc_created_at (d_checks d)) ct = checks_well (d_checks d) ct"
    "checks_down (order_asc mc_created_at (d_checks d)) ct = checks_down (d_checks d) ct" for ct
    by (rule check_sums_perm, simp)+
  have crit: "0 < nc \<longleftrightarrow> (\<exists>e \<in> set (d_events d). in_window since until e \<and> ev_level e = ''critical'')"
    using b(3) by (auto simp: counted_def)
  have u: "urgent_items ?b = [] \<longleftrightarrow> (\<forall>ct \<in> set digest_check_types. \<not> checks_down (d_checks d) ct) \<and> nc = 0"
    unfolding urgent_empty base_fields by (simp add: group_status_cases(1) perm)
  have severe: "severe_in_window since until d \<longleftrightarrow> 0 < ne \<or> 0 < nc" by (rule severe_counts [OF b(2,3)])
  have well: "cg_status (check_group_of (order_asc mc_created_at (d_checks d)) ct) \<noteq> ''down''
      \<and> cg_status (check_group_of (order_asc mc_created_at (d_checks d)) ct) \<noteq> ''warning'' \<longleftrightarrow> checks_well (d_checks d) ct" for ct
    by (simp only: group_status_cases(2) perm)
  have h: "urgent_items ?b = [] \<and> review_items ?b = [] \<longleftrightarrow> estate_well since until d"
    unfolding urgent_empty review_empty base_fields estate_well_def severe well [symmetric]
    using b(4) severe by (auto simp: infra_row_of_def filter_empty_conv)
  have "health_status ?b = ''healthy'' \<longleftrightarrow> estate_well since until d"
    unfolding h [symmetric] by (simp add: health_status_def)
  moreover have "health_status ?b = ''critical'' \<longleftrightarrow> urgent_items ?b \<noteq> []" by (simp add: health_status_def)
  moreover have "urgent_items ?b \<noteq> [] \<longleftrightarrow> (\<exists>ct \<in> set digest_check_types. checks_down (d_checks d) ct)
      \<or> (\<exists>e \<in> set (d_events d). in_window since until e \<and> ev_level e = ''critical'')"
    unfolding u crit [symmetric] by auto
  ultimately show ?thesis unfolding b(1)
    by (intro exI [of _ "with_narrative ?b"] conjI refl) (simp_all only: narrative_fields)
qed

definition quiet_env :: digest_env where
  "quiet_env = \<lparr>de_jx = (\<lambda>_ _. Some None), de_profiler = None, de_range = id, de_now = 0\<rparr>"

theorem digest_health_meaning_witness:
  "\<exists>data. build_digest_data quiet_env ''1970-01-01'' empty_db = (Inr data, empty_db) \<and> dd_health_status data = ''healthy''"
proof -
  have f: "d_faults empty_db = []" "payloads_readable quiet_env empty_db" by (simp_all add: empty_db_def payloads_readable_def)
  have "estate_well since until empty_db" for since until
    by (simp add: estate_well_def empty_db_def severe_in_window_def checks_well_def aggregate_by_def hours_between_def)
  with digest_health_meaning [OF f refl refl, of "''1970-01-01''"] show ?thesis by blast
qed

section \<open>What the digest does not say\<close>

text \<open>Readings are called cpu_percent, mem_percent and disk_percent (internal/scanner/metrics, internal/infra): no
  resource warning is ever given.\<close>

lemma no_resource_warnings:
  assumes "\<And>r. r \<in> set rollups \<Longrightarrow> rr_metric r \<notin> {''cpu'', ''mem'', ''disk''}"
  shows "List.map_filter (resource_warning_of infra) (aggregate_by rollup_group rr_avg rr_min rr_max (hours_between since until rollups)) = []"
proof -
  have "ag_metric a \<notin> {''cpu'', ''mem'', ''disk''}"
    if "a \<in> set (aggregate_by rollup_group rr_avg rr_min rr_max (hours_between since until rollups))" for a
    using that assms by (auto simp: aggregate_by_def Let_def rollup_group_def hours_between_def)
  then show ?thesis by (auto simp: List.map_filter_def filter_empty_conv resource_warning_of_def resource_limit_def)
qed

text \<open>Of a hundred checks four may be down and the mail says that 100 are up.\<close>

definition url_check :: "string \<Rightarrow> monitor_check" where
  "url_check status = \<lparr>mc_id = ''c'', mc_app_id = [], mc_name = ''web'', mc_type = ''url'', mc_target = ''http://h'',
     mc_interval_secs = 300, mc_expected_status = 200, mc_ssl_warn_days = 30, mc_ssl_crit_days = 7, mc_source_component_id = None,
     mc_skip_tls_verify = False, mc_dns_record_type = [], mc_dns_expected_value = [], mc_dns_resolver = [], mc_enabled = True,
     mc_last_checked_at = None, mc_last_status = status, mc_last_result = [], mc_created_at = 0\<rparr>"

lemma down_checks_reported_up:
  "check_desc (check_group_of (replicate 96 (url_check ''up'') @ replicate 4 (url_check ''down'')) ''url'') = Some ''URL (100 up)''"
proof -
  let ?cs = "replicate 96 (url_check ''up'') @ replicate 4 (url_check ''down'')"
  have f: "filter (\<lambda>c. mc_enabled c \<and> mc_type c = ''url'') ?cs = ?cs" by (simp add: url_check_def filter_replicate)
  have "filter (\<lambda>c. mc_last_status c = ''up'') ?cs = replicate 96 (url_check ''up'')"
    by (simp add: url_check_def filter_replicate)
  then have "check_group_of ?cs ''url'' = \<lparr>cg_type = ''url'', cg_total = 100, cg_up = 96, cg_not_up = 4, cg_avg_uptime = 96, cg_status = ''healthy''\<rparr>"
    unfolding check_group_of_def f Let_def by (simp add: url_check_def status_to_uptime_pct_def sum_list_replicate)
  moreover have "to_upper ''url'' = ''URL''" "show_nat 100 = ''100''" by code_simp (simp add: show_nat.simps)
  ultimately show ?thesis by (simp add: check_desc_def)
qed

text \<open>Lists longer than eight are cut to nine entries before they are counted: the mail speaks of nine new or
  stopped containers however many there are.\<close>

lemma capped_count: "8 < length xs \<Longrightarrow> length (cap_list xs 8) = 9"
  by (simp add: cap_list_def)

text \<open>Both bounds of a period are inclusive: what happens in the first second of a day is in the digest of that
  day and in the one of the day before.\<close>

lemma midnight_event_counted_twice:
  assumes "ev_created_at e = n * day_ns"
  shows "in_window ((n - 1) * day_ns) (n * day_ns) e" "in_window (n * day_ns) ((n + 1) * day_ns) e"
  using assms by (simp_all add: in_window_def unix_secs_def zdiv_mono1)

end
