(* ===== verification/DigestJob.thy ===== *)
theory DigestJob
  imports Digest Rules
begin

text \<open>
  Sending the digest: the hourly job of internal/jobs/digest.go and the handlers of internal/api/digest.go. Decoding of
  settings, the SMTP server, the rendered templates and the time zone are parameters. The mail of SendNow leaves in a
  goroutine of its own; the handler's answer does not wait for it, and \<open>digest_send\<close> is what that goroutine does.
\<close>

section \<open>digest.go\<close>

record digest_job_env =
  dj_data :: digest_env
  dj_schedule_decode :: "string \<Rightarrow> digest_schedule option"
  dj_schedule_encode :: "digest_schedule \<Rightarrow> string"
  dj_smtp_decode :: "string \<Rightarrow> smtp_settings option"
  dj_server :: smtp_server
  dj_render :: "digest_data \<Rightarrow> string option"
  dj_render_report :: "digest_data \<Rightarrow> string option"
  dj_local :: "go_time \<Rightarrow> go_time"

datatype digest_error = BuildData db_error | RenderHtml | NoRecipients | ReadSchedule

definition digest_smtp_settings :: "digest_job_env \<Rightarrow> db \<Rightarrow> smtp_settings option \<times> db" where
  "digest_smtp_settings env d0 = (case settings_get ''smtp'' d0 of
       (Inl _, d1) \<Rightarrow> (None, d1)
     | (Inr raw, d1) \<Rightarrow> (case dj_smtp_decode env raw of
           None \<Rightarrow> (None, d1) | Some s \<Rightarrow> (if sm_host s = [] then None else Some s, d1)))"

definition smtp_configured :: "digest_job_env \<Rightarrow> db \<Rightarrow> bool \<times> db" where
  "smtp_configured env d0 = (case digest_smtp_settings env d0 of (s, d1) \<Rightarrow> (s \<noteq> None, d1))"

definition admin_emails :: "digest_job_env \<Rightarrow> db \<Rightarrow> string list option \<times> db" where
  "admin_emails env d0 = (case digest_smtp_settings env d0 of
       (None, d1) \<Rightarrow> (None, d1) | (Some s, d1) \<Rightarrow> (Some (email_recipients s), d1))"

text \<open>The result: an error or none, and the SMTP commands that were sent.\<close>

definition digest_send :: "digest_job_env \<Rightarrow> string \<Rightarrow> db \<Rightarrow> digest_error option \<times> smtp_cmd list \<times> db" where
  "digest_send env period d0 = (case build_digest_data (dj_data env) period d0 of
       (Inl e, d1) \<Rightarrow> (Some (BuildData e), [], d1)
     | (Inr data, d1) \<Rightarrow> (case dj_render env data of
         None \<Rightarrow> (Some RenderHtml, [], d1)
       | Some html \<Rightarrow> (case admin_emails env d1 of
           (None, d2) \<Rightarrow> (Some NoRecipients, [], d2)
         | (Some rcpts, d2) \<Rightarrow> (if rcpts = [] then (None, [], d2)
             else case digest_smtp_settings env d2 of
               (None, d3) \<Rightarrow> (None, [], d3)
             | (Some s, d3) \<Rightarrow> (None, snd (send_mail (dj_server env) (sm_host s) (sm_port s) (sm_user s) (sm_pass s) (sm_from s)
                   rcpts (dd_title data) html), d3)))))"

text \<open>The schedule in force: the stored one, or the default if none is stored.\<close>

definition stored_schedule :: "digest_job_env \<Rightarrow> digest_schedule \<Rightarrow> db \<Rightarrow> digest_schedule option \<times> db" where
  "stored_schedule env dflt d0 = (case settings_get ''digest_schedule'' d0 of
       (Inl e, d1) \<Rightarrow> (if e = NotFound then Some dflt else None, d1)
     | (Inr raw, d1) \<Rightarrow> (dj_schedule_decode env raw, d1))"

definition digest_due :: "digest_schedule \<Rightarrow> go_time \<Rightarrow> bool" where
  "digest_due s local = (hour_of local = effective_send_hour s \<and> should_send_today s local)"

definition digest_run :: "digest_job_env \<Rightarrow> db \<Rightarrow> digest_error option \<times> smtp_cmd list \<times> db" where
  "digest_run env d0 = (case stored_schedule env default_schedule d0 of
       (None, d1) \<Rightarrow> (Some ReadSchedule, [], d1)
     | (Some s, d1) \<Rightarrow> (let now = dj_local env (de_now (dj_data env)) in
         if \<not> digest_due s now then (None, [], d1)
         else digest_send env (period_label (ds_frequency s) now) d1))"

definition duration_until_next_hour :: "go_time \<Rightarrow> go_time" where
  "duration_until_next_hour now = truncate_to hour_ns now + hour_ns - now"

text \<open>The clock readings of the hourly runs.\<close>

definition hourly_readings :: "go_time \<Rightarrow> (nat \<Rightarrow> go_time) \<Rightarrow> bool" where
  "hourly_readings first reading = (\<forall>k. first + int k * hour_ns \<le> reading k \<and> reading k < first + int k * hour_ns + hour_ns)"

definition at_time :: "go_time \<Rightarrow> digest_job_env \<Rightarrow> digest_job_env" where
  "at_time t env = env\<lparr>dj_data := (dj_data env)\<lparr>de_now := t\<rparr>\<rparr>"

text \<open>The hourly goroutine: what each run answers and sends. With every run comes what the rest of the program has done to
  the database since the one before.\<close>

fun start_digest_job ::
  "digest_job_env \<Rightarrow> (go_time \<times> (db \<Rightarrow> db)) list \<Rightarrow> db \<Rightarrow> (digest_error option \<times> smtp_cmd list) list \<times> db" where
  "start_digest_job env [] d = ([], d)"
| "start_digest_job env ((t, others) # steps) d = (case digest_run (at_time t env) (others d) of
     (err, sent, d1) \<Rightarrow> (case start_digest_job env steps d1 of (runs, d2) \<Rightarrow> ((err, sent) # runs, d2)))"

definition generate_report_html :: "digest_job_env \<Rightarrow> string \<Rightarrow> db \<Rightarrow> (digest_error + string) \<times> db" where
  "generate_report_html env period d0 = (case build_digest_data (dj_data env) period d0 of
       (Inl e, d1) \<Rightarrow> (Inl (BuildData e), d1)
     | (Inr data, d1) \<Rightarrow> (case dj_render_report env data of None \<Rightarrow> (Inl RenderHtml, d1) | Some html \<Rightarrow> (Inr html, d1)))"

section \<open>digest.go (api)\<close>

definition digest_handler_get_schedule :: "digest_job_env \<Rightarrow> db \<Rightarrow> digest_schedule response \<times> db" where
  "digest_handler_get_schedule env d0 = (case stored_schedule env default_schedule d0 of
       (None, d1) \<Rightarrow> (Failed 500 ''database'', d1) | (Some s, d1) \<Rightarrow> (Answer 200 s, d1))"

definition schedule_fault :: "digest_schedule \<Rightarrow> string option" where
  "schedule_fault q =
     (if ds_frequency q \<notin> {''daily'', ''weekly'', ''monthly''} then Some ''frequency must be one of: daily, weekly, monthly''
      else if ds_day_of_week q < 0 \<or> 6 < ds_day_of_week q then Some (''day_of_week must be 0'' @ en_dash @ ''6'')
      else if ds_day_of_month q < 1 \<or> 28 < ds_day_of_month q then Some (''day_of_month must be 1'' @ en_dash @ ''28'')
      else case ds_send_hour q of
        None \<Rightarrow> None
      | Some h \<Rightarrow> (if h < 0 \<or> 23 < h then Some (''send_hour must be 0'' @ en_dash @ ''23'') else None))"

definition digest_handler_put_schedule :: "digest_job_env \<Rightarrow> digest_schedule option \<Rightarrow> db \<Rightarrow> digest_schedule response \<times> db" where
  "digest_handler_put_schedule env body d0 = (case body of
       None \<Rightarrow> (Failed 400 ''invalid request body'', d0)
     | Some q \<Rightarrow> (case schedule_fault q of
         Some m \<Rightarrow> (Failed 400 m, d0)
       | None \<Rightarrow> (case smtp_configured env d0 of (ok, d1) \<Rightarrow>
           if \<not> ok then (Failed 422 (''SMTP is not configured'' @ dash @ ''set up SMTP before enabling the digest schedule''), d1)
           else case settings_set ''digest_schedule'' (dj_schedule_encode env q) d1 of
             (Inl _, d2) \<Rightarrow> (Failed 500 ''database'', d2) | (Inr _, d2) \<Rightarrow> (Answer 200 q, d2))))"

text \<open>The period a request means: the one it names, or the current one of the schedule.\<close>

definition request_period :: "digest_job_env \<Rightarrow> string \<Rightarrow> db \<Rightarrow> string option \<times> db" where
  "request_period env period d0 = (if period \<noteq> [] then (Some period, d0)
     else case stored_schedule env default_schedule d0 of
       (None, d1) \<Rightarrow> (None, d1)
     | (Some s, d1) \<Rightarrow> (Some (period_label_from_schedule (ds_frequency s) (dj_local env (de_now (dj_data env)))), d1))"

definition digest_handler_send_now :: "digest_job_env \<Rightarrow> string \<Rightarrow> db \<Rightarrow> string response \<times> db" where
  "digest_handler_send_now env period d0 = (case smtp_configured env d0 of (ok, d1) \<Rightarrow>
     if \<not> ok then (Failed 422 (''SMTP is not configured'' @ dash @ ''set up SMTP before sending a digest''), d1)
     else case request_period env period d1 of
       (None, d2) \<Rightarrow> (Failed 500 ''database'', d2) | (Some p, d2) \<Rightarrow> (Answer 202 p, d2))"

definition digest_handler_get_report :: "digest_job_env \<Rightarrow> string \<Rightarrow> db \<Rightarrow> string response \<times> db" where
  "digest_handler_get_report env period d0 = (case request_period env period d0 of
       (None, d1) \<Rightarrow> (Failed 500 ''database'', d1)
     | (Some p, d1) \<Rightarrow> (case generate_report_html env p d1 of
           (Inl _, d2) \<Rightarrow> (Failed 500 ''report'', d2) | (Inr html, d2) \<Rightarrow> (Answer 200 html, d2)))"

section \<open>The schedule\<close>

lemma next_hour_delay:
  "0 < duration_until_next_hour now" "duration_until_next_hour now \<le> hour_ns"
  "(now + duration_until_next_hour now) mod hour_ns = 0"
proof -
  have t: "truncate_to hour_ns now = now - now mod hour_ns"
    by (simp only: truncate_to_def minus_mod_eq_div_mult)
  show "0 < duration_until_next_hour now" "duration_until_next_hour now \<le> hour_ns"
    using pos_mod_sign [of hour_ns now] pos_mod_bound [of hour_ns now] by (simp_all add: duration_until_next_hour_def t)
  show "(now + duration_until_next_hour now) mod hour_ns = 0"
    by (simp add: duration_until_next_hour_def truncate_to_def)
qed

lemma hour_slot:
  assumes "j * hour_ns \<le> t" and "t < (j + 1) * hour_ns"
  shows "day_of t = j div 24" "hour_of t = j mod 24"
proof -
  obtain q m where j: "j = 24 * q + m" "0 \<le> m" "m < 24" "j div 24 = q" "j mod 24 = m"
    by (metis mult_div_mod_eq pos_mod_bound pos_mod_sign zero_less_numeral)
  let ?r = "t - j * hour_ns"
  have r: "0 \<le> ?r" "?r < hour_ns" using assms by (simp_all add: algebra_simps)
  have t: "t = day_ns * q + (m * hour_ns + ?r)" by (simp add: j(1) algebra_simps)
  have part: "0 \<le> m * hour_ns + ?r" "m * hour_ns + ?r < day_ns" using r j(2,3) by auto
  show "day_of t = j div 24" unfolding day_of_def j(4) by (rule int_div_pos_eq [OF t part])
  have "t mod day_ns = m * hour_ns + ?r" by (rule int_mod_pos_eq [OF t part])
  moreover have "(m * hour_ns + ?r) div hour_ns = m" by (rule int_div_pos_eq [where r = ?r]) (use r in auto)
  ultimately show "hour_of t = j mod 24" by (simp only: hour_of_def j(5))
qed

lemma hourly_slot:
  assumes "hourly_readings (first * hour_ns) reading"
  shows "day_of (reading k + off * hour_ns) = (first + int k + off) div 24"
    and "hour_of (reading k + off * hour_ns) = (first + int k + off) mod 24"
proof -
  have "first * hour_ns + int k * hour_ns \<le> reading k" "reading k < first * hour_ns + int k * hour_ns + hour_ns"
    using assms by (auto simp: hourly_readings_def)
  then have b: "(first + int k + off) * hour_ns \<le> reading k + off * hour_ns"
    "reading k + off * hour_ns < (first + int k + off + 1) * hour_ns" by (simp_all add: algebra_simps)
  show "day_of (reading k + off * hour_ns) = (first + int k + off) div 24"
    "hour_of (reading k + off * hour_ns) = (first + int k + off) mod 24"
    using hour_slot [OF b] by simp_all
qed

lemma due_slot:
  assumes "hourly_readings (first * hour_ns) reading"
    and "0 \<le> effective_send_hour s" and "effective_send_hour s < 24" and "should_send_today s (n * day_ns)"
  shows "digest_due s (reading k + off * hour_ns) \<and> day_of (reading k + off * hour_ns) = n
      \<longleftrightarrow> first + int k + off = 24 * n + effective_send_hour s"
proof -
  let ?h = "effective_send_hour s"
  have today: "should_send_today s local = should_send_today s (n * day_ns)" if "day_of local = n" for local
    using that by (simp add: should_send_today_def day_of_def)
  have "(first + int k + off) mod 24 = ?h \<and> (first + int k + off) div 24 = n \<longleftrightarrow> first + int k + off = 24 * n + ?h"
  proof
    assume "(first + int k + off) mod 24 = ?h \<and> (first + int k + off) div 24 = n"
    then show "first + int k + off = 24 * n + ?h" using mult_div_mod_eq [of 24 "first + int k + off"] by linarith
  next
    assume "first + int k + off = 24 * n + ?h"
    then show "(first + int k + off) mod 24 = ?h \<and> (first + int k + off) div 24 = n" using assms(2,3) by simp
  qed
  then show ?thesis using today assms(4) by (auto simp: digest_due_def hourly_slot [OF assms(1)])
qed

text \<open>A database that answers, with a schedule and mail settings that name a recipient.\<close>

definition mail_ready :: "digest_job_env \<Rightarrow> digest_schedule \<Rightarrow> smtp_settings \<Rightarrow> db \<Rightarrow> bool" where
  "mail_ready env s m d = (d_faults d = [] \<and> payloads_readable (dj_data env) d \<and> stored_schedule env default_schedule d = (Some s, d)
     \<and> digest_smtp_settings env d = (Some m, d) \<and> email_recipients m \<noteq> [])"

lemma mail_ready_host: "mail_ready env s m d \<Longrightarrow> sm_host m \<noteq> []"
  by (auto simp: mail_ready_def digest_smtp_settings_def split: sum.splits prod.splits option.splits if_splits)

lemma at_time_fields [simp]:
  "dj_schedule_decode (at_time t env) = dj_schedule_decode env" "dj_smtp_decode (at_time t env) = dj_smtp_decode env"
  "dj_render (at_time t env) = dj_render env" "dj_server (at_time t env) = dj_server env" "dj_local (at_time t env) = dj_local env"
  "payloads_readable (dj_data (at_time t env)) = payloads_readable (dj_data env)" "de_now (dj_data (at_time t env)) = t"
  by (simp_all add: at_time_def payloads_readable_def [abs_def])

lemma at_time_keeps [simp]:
  "stored_schedule (at_time t env) = stored_schedule env" "digest_smtp_settings (at_time t env) = digest_smtp_settings env"
  "admin_emails (at_time t env) = admin_emails env"
  unfolding stored_schedule_def [abs_def] digest_smtp_settings_def [abs_def] admin_emails_def [abs_def] at_time_fields by (rule refl)+

definition digest_mail :: "digest_job_env \<Rightarrow> smtp_settings \<Rightarrow> digest_data \<Rightarrow> string \<Rightarrow> smtp_cmd list" where
  "digest_mail env m data html = smtp_commands (dj_server env) (sm_host m) (sm_port m) (sm_user m) (sm_pass m) (sm_from m)
     (email_recipients m) (dd_title data) html"

lemma ready_run:
  assumes "mail_ready env s m d" and "\<And>data. dj_render env data \<noteq> None" and "\<And>c. sv_fail (dj_server env) c = None"
  shows "digest_run (at_time t env) d =
    (if digest_due s (dj_local env t)
     then (case fst (build_digest_data (dj_data (at_time t env)) (period_label (ds_frequency s) (dj_local env t)) d) of
         Inr data \<Rightarrow> (None, digest_mail env m data (the (dj_render env data)), d) | Inl e \<Rightarrow> (Some (BuildData e), [], d))
     else (None, [], d))"
    and "\<exists>data. build_digest_data (dj_data (at_time t env)) period d = (Inr data, d)"
proof -
  have d: "d_faults d = []" "payloads_readable (dj_data env) d" "stored_schedule env default_schedule d = (Some s, d)"
      "digest_smtp_settings env d = (Some m, d)" "email_recipients m \<noteq> []"
    using assms(1) by (auto simp: mail_ready_def)
  show built: "\<exists>data. build_digest_data (dj_data (at_time t env)) period d = (Inr data, d)" for period
    using build_digest_parts [OF d(1) _ refl refl, of "dj_data (at_time t env)" period] d(2) by auto
  obtain data where data: "build_digest_data (dj_data (at_time t env)) (period_label (ds_frequency s) (dj_local env t)) d = (Inr data, d)"
    using built by blast
  obtain html where html: "dj_render env data = Some html" using assms(2) by blast
  have mail: "snd (send_mail (dj_server env) (sm_host m) (sm_port m) (sm_user m) (sm_pass m) (sm_from m) (email_recipients m) (dd_title data) html)
      = digest_mail env m data html"
    using mail_ready_host [OF assms(1)] d(5) assms(3) by (simp add: send_mail_def digest_mail_def run_smtp_none)
  show "digest_run (at_time t env) d =
    (if digest_due s (dj_local env t)
     then (case fst (build_digest_data (dj_data (at_time t env)) (period_label (ds_frequency s) (dj_local env t)) d) of
         Inr data \<Rightarrow> (None, digest_mail env m data (the (dj_render env data)), d) | Inl e \<Rightarrow> (Some (BuildData e), [], d))
     else (None, [], d))"
    using d(3-5) data html mail by (simp add: digest_run_def digest_send_def admin_emails_def Let_def)
qed

lemma job_runs:
  assumes "mail_ready env s m d" and "\<And>data. dj_render env data \<noteq> None" and "\<And>c. sv_fail (dj_server env) c = None"
    and "\<And>t others d. (t, others) \<in> set steps \<Longrightarrow> mail_ready env s m d \<Longrightarrow> mail_ready env s m (others d)"
    and "k < length steps"
  shows "let dk = snd (start_digest_job env (take (Suc k) steps) d) in mail_ready env s m dk
    \<and> digest_run (at_time (fst (steps ! k)) env) dk = (fst (fst (start_digest_job env steps d) ! k), snd (fst (start_digest_job env steps d) ! k), dk)"
  using assms(1,4,5)
proof (induction steps arbitrary: d k)
  case (Cons step steps)
  obtain t others where step: "step = (t, others)" by fastforce
  have ready: "mail_ready env s m (others d)" using Cons.prems(1,2) step by auto
  obtain data where "build_digest_data (dj_data (at_time t env)) (period_label (ds_frequency s) (dj_local env t)) (others d) = (Inr data, others d)"
    using ready_run(2) [OF ready assms(2,3)] by blast
  then have "digest_run (at_time t env) (others d) = (None, if digest_due s (dj_local env t)
      then digest_mail env m data (the (dj_render env data)) else [], others d)"
    using ready_run(1) [OF ready assms(2,3), of t] by simp
  then obtain err sent where run: "digest_run (at_time t env) (others d) = (err, sent, others d)" by blast
  show ?case
  proof (cases k)
    case 0
    then show ?thesis using ready run by (auto simp: step split: prod.split)
  next
    case (Suc i)
    have "let dk = snd (start_digest_job env (take (Suc i) steps) (others d)) in mail_ready env s m dk
      \<and> digest_run (at_time (fst (steps ! i)) env) dk
        = (fst (fst (start_digest_job env steps (others d)) ! i), snd (fst (start_digest_job env steps (others d)) ! i), dk)"
      by (rule Cons.IH [OF ready]) (use Cons.prems(2,3) Suc in auto)
    moreover have "fst (start_digest_job env (step # steps) d) ! k = fst (start_digest_job env steps (others d)) ! i"
      "snd (start_digest_job env (take (Suc k) (step # steps)) d) = snd (start_digest_job env (take (Suc i) steps) (others d))"
      using run by (simp_all add: step Suc case_prod_beta)
    ultimately show ?thesis by (simp only: Suc nth_Cons_Suc)
  qed
qed simp

lemma run_result: "x = (fst r, snd r, c) \<Longrightarrow> x = (e, sent, c') \<Longrightarrow> r = (e, sent)"
  by (cases r) simp

text \<open>C19: The hourly job sends the digest of a scheduled day, and once. In a time zone a whole number of hours off UTC,
  with the schedule and mail settings in place and a mail server that accepts, exactly one of the runs whose local date
  is that day sends: the whole mail of the digest built for the label of that day, to the recipients of the settings. The
  other runs of the day send nothing, whatever the rest of the program does to the data between the runs.\<close>

theorem digest_sent_once_per_scheduled_day:
  assumes "mail_ready env s m d" and "\<And>data. dj_render env data \<noteq> None" and "\<And>c. sv_fail (dj_server env) c = None"
    and "\<And>k x. mail_ready env s m x \<Longrightarrow> mail_ready env s m (others k x)"
    and "\<And>t. dj_local env t = t + off * hour_ns"
    and "hourly_readings (first * hour_ns) reading"
    and "0 \<le> effective_send_hour s" and "effective_send_hour s < 24" and "should_send_today s (n * day_ns)"
    and "first + off \<le> 24 * n + effective_send_hour s" and "24 * n + effective_send_hour s < first + off + int hours"
    and "runs = fst (start_digest_job env (map (\<lambda>k. (reading k, others k)) [0..<hours]) d)"
  shows "\<exists>k < hours. day_of (dj_local env (reading k)) = n
    \<and> (\<exists>data html. let dk = snd (start_digest_job env (map (\<lambda>k. (reading k, others k)) [0..<Suc k]) d) in build_digest_data (dj_data (at_time (reading k) env)) (period_label (ds_frequency s) (dj_local env (reading k))) dk
          = (Inr data, dk) \<and> dj_render env data = Some html \<and> runs ! k = (None, digest_mail env m data html))
    \<and> (\<forall>j < hours. j \<noteq> k \<and> day_of (dj_local env (reading j)) = n \<longrightarrow> runs ! j = (None, []))"
proof -
  let ?steps = "map (\<lambda>k. (reading k, others k)) [0..<hours]"
  let ?k = "nat (24 * n + effective_send_hour s - first - off)"
  have k: "?k < hours" "first + int ?k + off = 24 * n + effective_send_hour s" using assms(10,11) by auto
  note slot = due_slot [OF assms(6-9)]
  let ?db = "\<lambda>j. snd (start_digest_job env (map (\<lambda>k. (reading k, others k)) [0..<Suc j]) d)"
  have seen: "mail_ready env s m (?db j) \<and> digest_run (at_time (reading j) env) (?db j) = (fst (runs ! j), snd (runs ! j), ?db j)"
    if "j < hours" for j
  proof -
    have "let dk = snd (start_digest_job env (take (Suc j) ?steps) d) in mail_ready env s m dk \<and> digest_run (at_time (fst (?steps ! j)) env) dk
        = (fst (fst (start_digest_job env ?steps d) ! j), snd (fst (start_digest_job env ?steps d) ! j), dk)"
      by (rule job_runs [OF assms(1-3)]) (use assms(4) that in auto)
    then show ?thesis using that by (simp add: assms(12) Let_def take_map)
  qed
  note dk = seen [OF k(1), THEN conjunct1] seen [OF k(1), THEN conjunct2]
  obtain data where data: "build_digest_data (dj_data (at_time (reading ?k) env)) (period_label (ds_frequency s) (dj_local env (reading ?k))) (?db ?k)
      = (Inr data, ?db ?k)"
    using ready_run(2) [OF dk(1) assms(2,3)] by blast
  obtain html where html: "dj_render env data = Some html" using assms(2) by blast
  have due: "digest_due s (dj_local env (reading ?k))" "day_of (dj_local env (reading ?k)) = n"
    using slot [of ?k off] k(2) by (simp_all add: assms(5))
  have "digest_run (at_time (reading ?k) env) (?db ?k) = (None, digest_mail env m data html, ?db ?k)"
    using ready_run(1) [OF dk(1) assms(2,3), of "reading ?k"] due(1) data html by simp
  then have sent: "runs ! ?k = (None, digest_mail env m data html)" by (rule run_result [OF dk(2)])
  have other: "runs ! j = (None, [])" if j: "j < hours" "j \<noteq> ?k" "day_of (dj_local env (reading j)) = n" for j
  proof -
    have "\<not> digest_due s (dj_local env (reading j))"
    proof
      assume "digest_due s (dj_local env (reading j))"
      then have "first + int j + off = 24 * n + effective_send_hour s" using slot [of j off] j(3) by (simp add: assms(5))
      then show False using j(2) k(2) by simp
    qed
    then have "digest_run (at_time (reading j) env) (?db j) = (None, [], ?db j)"
      using ready_run(1) [OF seen [OF j(1), THEN conjunct1] assms(2,3), of "reading j"] by (simp only: if_False)
    then show ?thesis by (rule run_result [OF seen [OF j(1), THEN conjunct2]])
  qed
  show ?thesis using k(1) due(2) data html sent other unfolding Let_def by (intro exI [of _ ?k] conjI) blast+
qed

definition sample_mail :: smtp_settings where
  "sample_mail = \<lparr>sm_host = ''mx'', sm_port = 25, sm_user = [], sm_pass = [], sm_from = ''nora@x'', sm_to = ''ops@x''\<rparr>"

definition sample_job_env :: digest_job_env where
  "sample_job_env = \<lparr>dj_data = quiet_env, dj_schedule_decode = (\<lambda>_. Some default_schedule), dj_schedule_encode = (\<lambda>_. []),
     dj_smtp_decode = (\<lambda>_. Some sample_mail), dj_server = \<lparr>sv_starttls = False, sv_fail = (\<lambda>_. None)\<rparr>,
     dj_render = (\<lambda>_. Some ''<p>''), dj_render_report = (\<lambda>_. None), dj_local = (\<lambda>t. t + 0 * hour_ns)\<rparr>"

theorem digest_sent_once_per_scheduled_day_witness:
  "\<exists>k < 24. \<exists>data. fst (start_digest_job sample_job_env (map (\<lambda>k. ((24 * 20518 + int k) * hour_ns, \<lambda>d. d)) [0..<24])
      (empty_db\<lparr>d_settings := [(''smtp'', ''x'')]\<rparr>)) ! k = (None, digest_mail sample_job_env sample_mail data ''<p>'')"
proof -
  let ?d = "empty_db\<lparr>d_settings := [(''smtp'', ''x'')]\<rparr>"
  have ready: "mail_ready sample_job_env default_schedule sample_mail ?d"
    by (simp add: mail_ready_def sample_job_env_def empty_db_def payloads_readable_def stored_schedule_def settings_get_def
        digest_smtp_settings_def sample_mail_def email_recipients_def)
  have r: "hourly_readings ((24 * 20518) * hour_ns) (\<lambda>k. (24 * 20518 + int k) * hour_ns)"
    by (simp add: hourly_readings_def algebra_simps)
  have h: "0 \<le> effective_send_hour default_schedule" "effective_send_hour default_schedule < 24" by code_simp+
  have "weekday 20518 = 5" by code_simp
  then have t: "should_send_today default_schedule (20518 * day_ns)"
    by (simp add: should_send_today_def default_schedule_def day_of_def)
  have b: "24 * 20518 + 0 \<le> 24 * 20518 + effective_send_hour default_schedule"
    "24 * 20518 + effective_send_hour default_schedule < 24 * 20518 + 0 + int 24" using h by simp_all
  have env: "\<And>data. dj_render sample_job_env data \<noteq> None" "\<And>c. sv_fail (dj_server sample_job_env) c = None"
    "\<And>t. dj_local sample_job_env t = t + 0 * hour_ns" "\<And>data html. dj_render sample_job_env data = Some html \<Longrightarrow> html = ''<p>''"
    by (simp_all add: sample_job_env_def)
  have others: "\<And>(k::nat) x. mail_ready sample_job_env default_schedule sample_mail x
      \<Longrightarrow> mail_ready sample_job_env default_schedule sample_mail ((\<lambda>_ d. d) k x)" by simp
  note sent = digest_sent_once_per_scheduled_day [where others = "\<lambda>_ d. d", OF ready env(1,2) others env(3) r h t b refl]
  then obtain k data html where "k < 24" "dj_render sample_job_env data = Some html"
      "fst (start_digest_job sample_job_env (map (\<lambda>k. ((24 * 20518 + int k) * hour_ns, \<lambda>d. d)) [0..<24]) ?d) ! k
        = (None, digest_mail sample_job_env sample_mail data html)"
    unfolding Let_def by blast
  then show ?thesis using env(4) by blast
qed

text \<open>With a daily schedule in UTC an event after the send hour is in no digest: today's has been sent, and later
  ones begin at a later midnight.\<close>

lemma late_event_in_no_digest:
  assumes "effective_send_hour s < hour_of t" and "digest_due s sent" and "t \<le> sent"
    and "0 \<le> year_of_day (day_of sent)" "year_of_day (day_of sent) \<le> 9999" and "ev_created_at e = t"
  shows "\<not> in_window (fst (period_time_range sent (period_label ''daily'' sent)))
     (snd (period_time_range sent (period_label ''daily'' sent))) e"
proof -
  have "fst (period_days (day_of sent) (period_label ''daily'' sent)) = day_of sent"
    using period_of_label [OF assms(4,5), of "period_label ''daily'' sent" "''daily''"] by (simp add: Let_def)
  then have since: "fst (period_time_range sent (period_label ''daily'' sent)) = day_of sent * day_ns"
    by (simp add: period_time_range_def)
  have "day_of t \<noteq> day_of sent"
  proof
    assume same: "day_of t = day_of sent"
    have "t mod day_ns \<le> sent mod day_ns"
      using assms(3) same [unfolded day_of_def] mult_div_mod_eq [of day_ns t] mult_div_mod_eq [of day_ns sent] by linarith
    then have "hour_of t \<le> hour_of sent" unfolding hour_of_def by (rule zdiv_mono1) simp
    then show False using assms(1,2) by (simp add: digest_due_def)
  qed
  moreover have "day_of t \<le> day_of sent" unfolding day_of_def by (rule zdiv_mono1 [OF assms(3)]) simp
  ultimately have "day_of t + 1 \<le> day_of sent" by simp
  then have "(day_of t + 1) * day_ns \<le> day_of sent * day_ns" by (rule mult_right_mono) simp
  moreover have "t < (day_of t + 1) * day_ns"
    using pos_mod_bound [of day_ns t] mult_div_mod_eq [of day_ns t] by (simp add: day_of_def algebra_simps)
  ultimately have "t < day_of sent * day_ns" by simp
  then have "unix_secs t < unix_secs (day_of sent * day_ns)"
  proof -
    have "day_of sent * day_ns = (day_of sent * 86400) * second_ns" by simp
    then have "unix_secs (day_of sent * day_ns) = day_of sent * 86400" by (simp only: unix_secs_def) 
    moreover have "t div second_ns * second_ns \<le> t"
      using pos_mod_sign [of second_ns t] div_mult_mod_eq [of t second_ns] by linarith
    ultimately show ?thesis using \<open>t < day_of sent * day_ns\<close> by (simp add: unix_secs_def)
  qed
  then show ?thesis by (simp add: in_window_def since assms(6))
qed

text \<open>An accepted schedule is valid and is the one in force afterwards; a run that is not due sends nothing.\<close>

lemma put_schedule_in_force:
  assumes "digest_handler_put_schedule env body d = (Answer st q, d2)" and "d_faults d = []"
    and "dj_schedule_decode env (dj_schedule_encode env q) = Some q"
  shows "body = Some q \<and> schedule_fault q = None \<and> 0 \<le> effective_send_hour q \<and> effective_send_hour q < 24
    \<and> stored_schedule env default_schedule d2 = (Some q, d2)"
proof -
  have "snd (smtp_configured env d) = d"
    using assms(2) by (simp add: smtp_configured_def digest_smtp_settings_def settings_get_def split: option.split)
  then obtain b where b: "smtp_configured env d = (b, d)" by (metis prod.collapse)
  have q: "body = Some q" "schedule_fault q = None" "d2 = snd (settings_set ''digest_schedule'' (dj_schedule_encode env q) d)"
    using assms(1) by (auto simp: digest_handler_put_schedule_def b split: option.splits if_splits sum.splits prod.splits)
  have "0 \<le> effective_send_hour q \<and> effective_send_hour q < 24"
    using q(2) by (auto simp: schedule_fault_def effective_send_hour_def split: if_splits option.splits)
  moreover have "settings_get ''digest_schedule'' d2 = (Inr (dj_schedule_encode env q), d2)"
    unfolding q(3) by (rule settings_get_set [OF assms(2)])
  ultimately show ?thesis using q(1,2) assms(3) by (simp add: stored_schedule_def)
qed

lemma idle_run_sends_nothing:
  assumes "d_faults d = []" and "stored_schedule env default_schedule d = (Some s, d)"
    and "\<not> digest_due s (dj_local env (de_now (dj_data env)))"
  shows "digest_run env d = (None, [], d)"
  using assms by (simp add: digest_run_def Let_def)

end
