(* ===== verification/InfraApi.thy ===== *)
theory InfraApi
  imports Components Apps Jobs Rollups Checks
begin

text \<open>
  The infrastructure API: internal/api/infra_components.go, with the on-demand scan and discovery it starts,
  internal/jobs/scan.go and internal/jobs/discover.go.

  Credentials are JSON texts; \<open>codec\<close> decodes them. A request body that could not be decoded is \<open>None\<close>. The
  pollers and discovery scanners a scan dispatches to are arguments, functions from the database to an optional
  error and the new database. A handler that panics is answered 500 by the router's Recoverer.
\<close>

section \<open>Requests, responses, credentials\<close>

type_synonym 'n object = "(string \<times> 'n json) list"

record infra_request =
  iq_name :: string
  iq_ip :: string
  iq_type :: string
  iq_collection_method :: string
  iq_parent_id :: "string option"
  iq_snmp_config :: "string option"
  iq_notes :: string
  iq_enabled :: "bool option"
  iq_credentials :: "string option"

record 'n infra_response =
  ip_id :: string
  ip_name :: string
  ip_ip :: string
  ip_type :: string
  ip_collection_method :: string
  ip_snmp_config :: "string option"
  ip_notes :: string
  ip_enabled :: bool
  ip_last_polled_at :: "string option"
  ip_last_status :: string
  ip_created_at :: string
  ip_has_credentials :: bool
  ip_credential_meta :: "'n object option"

definition credential_secret_fields :: "string \<Rightarrow> string list" where
  "credential_secret_fields ty =
     (if ty = ''proxmox_node'' then [''token_secret''] else if ty = ''synology'' then [''password'']
      else if ty = ''traefik'' then [''api_key''] else if ty = ''portainer'' then [''api_key''] else [])"

text \<open>\<open>json.Unmarshal\<close> into a map: \<open>None\<close> an error, \<open>Some None\<close> the nil map \<open>null\<close> gives.\<close>

definition unmarshal_map :: "'n codec \<Rightarrow> string \<Rightarrow> 'n object option option" where
  "unmarshal_map c s = (case json_unmarshal c s of
       Some (JObj m) \<Rightarrow> Some (Some m) | Some JNull \<Rightarrow> Some None | _ \<Rightarrow> None)"

definition without_keys :: "string list \<Rightarrow> 'n object \<Rightarrow> 'n object" where
  "without_keys ks m = filter (\<lambda>(k, _). k \<notin> set ks) m"

definition extract_credential_meta :: "'n codec \<Rightarrow> string \<Rightarrow> string \<Rightarrow> 'n object option" where
  "extract_credential_meta c ty cred = (case unmarshal_map c cred of
       None \<Rightarrow> None
     | Some m \<Rightarrow> (let raw = without_keys (credential_secret_fields ty) (case m of None \<Rightarrow> [] | Some kvs \<Rightarrow> kvs)
                  in if raw = [] then None else Some raw))"

definition blank_value :: "'n json option \<Rightarrow> bool" where
  "blank_value v = (case v of None \<Rightarrow> True | Some JNull \<Rightarrow> True | Some (JStr s) \<Rightarrow> s = [] | _ \<Rightarrow> False)"

text \<open>The loop over the secret keys, with \<open>changed\<close>. An assignment to the nil map panics: \<open>None\<close>.\<close>

fun restore_secrets :: "string list \<Rightarrow> 'n object \<Rightarrow> 'n object option \<Rightarrow> bool \<Rightarrow> ('n object option \<times> bool) option" where
  "restore_secrets [] old new changed = Some (new, changed)"
| "restore_secrets (k # ks) old new changed =
     (case (if blank_value (map_of (case new of None \<Rightarrow> [] | Some m \<Rightarrow> m) k) then map_of old k else None) of
        None \<Rightarrow> restore_secrets ks old new changed
      | Some v \<Rightarrow> (case new of
            None \<Rightarrow> None
          | Some m \<Rightarrow> restore_secrets ks old (Some (upsert_assoc k v m)) True))"

text \<open>\<open>None\<close> is a panic.\<close>

definition merge_credentials ::
  "'n codec \<Rightarrow> string option \<Rightarrow> string option \<Rightarrow> string \<Rightarrow> string option option" where
  "merge_credentials c existing incoming ty =
     (let secrets = credential_secret_fields ty in
      case (existing, incoming) of
        (Some old, Some new) \<Rightarrow>
          (if secrets = [] \<or> old = [] then Some incoming
           else case (unmarshal_map c old, unmarshal_map c new) of
               (Some om, Some nm) \<Rightarrow>
                 (case restore_secrets secrets (case om of None \<Rightarrow> [] | Some m \<Rightarrow> m) nm False of
                    None \<Rightarrow> None
                  | Some (m2, changed) \<Rightarrow>
                      Some (if changed then Some (json_marshal (num_fmt c) (case m2 of None \<Rightarrow> JNull | Some m \<Rightarrow> JObj m))
                            else incoming))
             | _ \<Rightarrow> Some incoming)
      | _ \<Rightarrow> Some incoming)"

definition has_credentials :: "infra_component \<Rightarrow> bool" where
  "has_credentials c = (ic_credentials c \<noteq> None \<and> ic_credentials c \<noteq> Some [])"

definition to_infra_response :: "'n codec \<Rightarrow> infra_component \<Rightarrow> 'n infra_response" where
  "to_infra_response cd c =
     \<lparr>ip_id = ic_id c, ip_name = ic_name c, ip_ip = ic_ip c, ip_type = ic_type c,
      ip_collection_method = ic_collection_method c, ip_snmp_config = ic_snmp_config c, ip_notes = ic_notes c,
      ip_enabled = ic_enabled c, ip_last_polled_at = ic_last_polled_at c, ip_last_status = ic_last_status c,
      ip_created_at = ic_created_at c, ip_has_credentials = has_credentials c,
      ip_credential_meta = (case ic_credentials c of
          Some s \<Rightarrow> if s = [] then None else extract_credential_meta cd (ic_type c) s | None \<Rightarrow> None)\<rparr>"

definition valid_component_types :: "string list" where
  "valid_component_types = [''proxmox_node'', ''vm_linux'', ''vm_windows'', ''vm_other'', ''linux_host'',
     ''windows_host'', ''generic_host'', ''synology'', ''docker_engine'', ''traefik'', ''portainer'']"

definition valid_collection_methods :: "string list" where
  "valid_collection_methods = [''proxmox_api'', ''synology_api'', ''snmp'', ''docker_socket'', ''traefik_api'',
     ''portainer_api'', ''none'']"

section \<open>List, Create, Get, Update, Delete\<close>

definition component_failure :: "db_error \<Rightarrow> 'a response" where
  "component_failure e = (if e = NotFound then Failed 404 ''component not found'' else Failed 500 ''database'')"

text \<open>The look-up most handlers start with.\<close>

definition with_component :: "string \<Rightarrow> (infra_component \<Rightarrow> db \<Rightarrow> 'a response \<times> db) \<Rightarrow> db \<Rightarrow> 'a response \<times> db" where
  "with_component cid k d0 = (case component_get cid d0 of
       (Inl e, d1) \<Rightarrow> (component_failure e, d1) | (Inr c, d1) \<Rightarrow> k c d1)"

definition infra_handler_list :: "'n codec \<Rightarrow> db \<Rightarrow> 'n infra_response list response \<times> db" where
  "infra_handler_list cd d0 = (case component_list d0 of
       (Inl _, d1) \<Rightarrow> (Failed 500 ''database'', d1)
     | (Inr cs, d1) \<Rightarrow> (Answer 200 (map (to_infra_response cd) cs), d1))"

text \<open>The parent a request names, looked up; \<open>None\<close> when it names none.\<close>

definition fetch_parent :: "infra_request \<Rightarrow> db \<Rightarrow> (nat \<times> string + infra_component option) \<times> db" where
  "fetch_parent q d0 = (case iq_parent_id q of
       None \<Rightarrow> (Inr None, d0)
     | Some pid \<Rightarrow> (if pid = [] then (Inr None, d0)
         else case component_get pid d0 of
             (Inl NotFound, d1) \<Rightarrow> (Inl (422, ''parent_id not found''), d1)
           | (Inl _, d1) \<Rightarrow> (Inl (500, ''database''), d1)
           | (Inr p, d1) \<Rightarrow> (Inr (Some p), d1)))"

definition new_component :: "string \<Rightarrow> string \<Rightarrow> infra_request \<Rightarrow> infra_component" where
  "new_component uuid now_text q =
     \<lparr>ic_id = uuid, ic_name = iq_name q, ic_ip = iq_ip q, ic_type = iq_type q,
      ic_collection_method = (if iq_collection_method q = [] then ''none'' else iq_collection_method q),
      ic_credentials = iq_credentials q, ic_snmp_config = iq_snmp_config q, ic_meta = None, ic_notes = iq_notes q,
      ic_enabled = (case iq_enabled q of None \<Rightarrow> True | Some b \<Rightarrow> b), ic_last_polled_at = None,
      ic_last_status = ''unknown'', ic_created_at = now_text\<rparr>"

definition infra_handler_create ::
  "'n codec \<Rightarrow> string \<Rightarrow> string \<Rightarrow> infra_request option \<Rightarrow> db \<Rightarrow> 'n infra_response response \<times> db" where
  "infra_handler_create cd uuid now_text body d0 = (case body of
       None \<Rightarrow> (Failed 400 ''invalid request body'', d0)
     | Some q \<Rightarrow>
         (if iq_name q = [] then (Failed 400 ''name is required'', d0)
          else if iq_type q \<notin> set valid_component_types then (Failed 400 ''invalid type'', d0)
          else if ic_collection_method (new_component uuid now_text q) \<notin> set valid_collection_methods
            then (Failed 400 ''invalid collection_method'', d0)
          else case fetch_parent q d0 of
            (Inl (code, msg), d1) \<Rightarrow> (Failed code msg, d1)
          | (Inr parent, d1) \<Rightarrow>
              (let c = new_component uuid now_text q in
               case component_create c d1 of
                 (Inl _, d2) \<Rightarrow> (Failed 500 ''database'', d2)
               | (Inr _, d2) \<Rightarrow>
                   (case parent of
                      None \<Rightarrow> (Answer 201 (to_infra_response cd c), d2)
                    | Some p \<Rightarrow> (case set_parent (ic_type p) (ic_id p) (ic_type c) (ic_id c) d2 of
                          (Inl _, d3) \<Rightarrow> (Failed 500 ''database'', d3)
                        | (Inr _, d3) \<Rightarrow> (Answer 201 (to_infra_response cd c), d3))))))"

definition infra_handler_get :: "'n codec \<Rightarrow> string \<Rightarrow> db \<Rightarrow> 'n infra_response response \<times> db" where
  "infra_handler_get cd cid = with_component cid (\<lambda>c d. (Answer 200 (to_infra_response cd c), d))"

text \<open>The fields of the request that are not empty replace the stored ones, the notes always; the credentials are
  merged with the secret fields of the type the component has from now on. \<open>None\<close> is a panic.\<close>

definition apply_infra_request :: "'n codec \<Rightarrow> infra_request \<Rightarrow> infra_component \<Rightarrow> infra_component option" where
  "apply_infra_request cd q c =
     (let ty = (if iq_type q \<noteq> [] then iq_type q else ic_type c) in
      case (case iq_credentials q of
              None \<Rightarrow> Some (ic_credentials c)
            | Some _ \<Rightarrow> merge_credentials cd (ic_credentials c) (iq_credentials q) ty) of
        None \<Rightarrow> None
      | Some cred \<Rightarrow> Some (c\<lparr>ic_name := (if iq_name q \<noteq> [] then iq_name q else ic_name c),
          ic_ip := (if iq_ip q \<noteq> [] then iq_ip q else ic_ip c), ic_type := ty,
          ic_collection_method := (if iq_collection_method q \<noteq> [] then iq_collection_method q else ic_collection_method c),
          ic_snmp_config := (if iq_snmp_config q \<noteq> None then iq_snmp_config q else ic_snmp_config c),
          ic_credentials := cred, ic_notes := iq_notes q,
          ic_enabled := (case iq_enabled q of None \<Rightarrow> ic_enabled c | Some b \<Rightarrow> b)\<rparr>))"

definition infra_handler_update ::
  "'n codec \<Rightarrow> string \<Rightarrow> infra_request option \<Rightarrow> db \<Rightarrow> 'n infra_response response \<times> db" where
  "infra_handler_update cd cid body = with_component cid (\<lambda>c d1. case body of
       None \<Rightarrow> (Failed 400 ''invalid request body'', d1)
     | Some q \<Rightarrow>
         (if iq_type q \<noteq> [] \<and> iq_type q \<notin> set valid_component_types then (Failed 400 ''invalid type'', d1)
          else if iq_collection_method q \<noteq> [] \<and> iq_collection_method q \<notin> set valid_collection_methods
            then (Failed 400 ''invalid collection_method'', d1)
          else case fetch_parent q d1 of
            (Inl (code, msg), d2) \<Rightarrow> (Failed code msg, d2)
          | (Inr parent, d2) \<Rightarrow>
              (case apply_infra_request cd q c of
                 None \<Rightarrow> (Failed 500 [], d2)
               | Some n \<Rightarrow>
                   (case component_update n d2 of
                      (Inl _, d3) \<Rightarrow> (Failed 500 ''database'', d3)
                    | (Inr _, d3) \<Rightarrow>
                        (case parent of
                           Some p \<Rightarrow> (case set_parent (ic_type p) (ic_id p) (ic_type n) (ic_id n) d3 of
                               (Inl _, d4) \<Rightarrow> (Failed 500 ''database'', d4)
                             | (Inr _, d4) \<Rightarrow> (Answer 200 (to_infra_response cd n), d4))
                         | None \<Rightarrow> (Answer 200 (to_infra_response cd n),
                             (if iq_parent_id q \<noteq> None then db_ignore (remove_parent (ic_type n) (ic_id n) d3) else d3)))))))"

definition infra_handler_delete :: "string \<Rightarrow> db \<Rightarrow> unit response \<times> db" where
  "infra_handler_delete cid = with_component cid (\<lambda>c d1.
     case (if ic_type c = ''traefik'' then check_delete_by_source_component cid d1 else (Inr (), d1)) of
       (Inl _, d2) \<Rightarrow> (Failed 500 ''database'', d2)
     | (Inr _, d2) \<Rightarrow> (case component_delete cid d2 of
           (Inl _, d3) \<Rightarrow> (Failed 500 ''database'', d3) | (Inr _, d3) \<Rightarrow> (Answer 204 (), d3)))"

section \<open>On-demand scans: scan.go\<close>

text \<open>The pollers. \<open>*_new\<close> is the constructor's error, if any; a poll answers its error and the new database.\<close>

record scan_env =
  se_proxmox_new :: "string \<Rightarrow> string \<Rightarrow> string option"
  se_proxmox_poll :: scanner
  se_proxmox_metrics :: scanner
  se_synology_new :: "string \<Rightarrow> string \<Rightarrow> string option"
  se_synology_poll :: scanner
  se_snmp_new :: "string \<Rightarrow> string \<Rightarrow> string \<Rightarrow> string option"
  se_snmp_poll :: scanner
  se_traefik_discover :: scanner
  se_traefik_metrics :: scanner
  se_traefik_snapshot :: scanner
  se_portainer_run :: "db \<Rightarrow> string option \<times> db"
  se_docker_new :: "string option"
  se_docker_poll_all :: "db \<Rightarrow> db"

text \<open>A scan either stops before its poller runs, with the status and error it answers, or runs it.\<close>

datatype scan_run = Refused string string | Polled string "string option"

definition poll_with_credentials ::
  "string \<Rightarrow> (string \<Rightarrow> string \<Rightarrow> string option) \<Rightarrow> scanner \<Rightarrow> infra_component \<Rightarrow> db \<Rightarrow> scan_run \<times> db" where
  "poll_with_credentials source new poll c d =
     (if \<not> has_credentials c
      then (Refused ''offline'' (''no credentials configured '' @ em_dash @ '' edit the component and save credentials first''), d)
      else case new (ic_id c) (the (ic_credentials c)) of
          Some err \<Rightarrow> (Refused ''offline'' (''invalid credentials: '' @ err), d)
        | None \<Rightarrow> (case poll (ic_id c) (ic_type c) d of (err, d2) \<Rightarrow> (Polled source err, d2)))"

definition poll_traefik :: "scan_env \<Rightarrow> infra_component \<Rightarrow> db \<Rightarrow> scan_run \<times> db" where
  "poll_traefik env c d =
     (let (e1, d1) = se_traefik_discover env (ic_id c) (ic_type c) d;
          (e2, d2) = se_traefik_metrics env (ic_id c) (ic_type c) d1;
          (e3, d3) = se_traefik_snapshot env (ic_id c) (ic_type c) d2
      in (Polled ''traefik'' (if e1 \<noteq> None then e1 else if e2 \<noteq> None then e2 else e3), d3))"

definition run_poller :: "scan_env \<Rightarrow> infra_component \<Rightarrow> db \<Rightarrow> scan_run \<times> db" where
  "run_poller env c d = (let m = ic_collection_method c in
     if m = ''proxmox_api'' then
       (case poll_with_credentials ''proxmox'' (se_proxmox_new env) (se_proxmox_poll env) c d of
          (Polled src None, d2) \<Rightarrow> (Polled src None, snd (se_proxmox_metrics env (ic_id c) (ic_type c) d2))
        | r \<Rightarrow> r)
     else if m = ''synology_api'' then poll_with_credentials ''synology'' (se_synology_new env) (se_synology_poll env) c d
     else if m = ''snmp'' then
       (if ic_snmp_config c = None \<or> ic_snmp_config c = Some []
        then (Refused ''offline'' (''no SNMP config '' @ em_dash @ '' edit the component and save SNMP settings first''), d)
        else case se_snmp_new env (ic_id c) (ic_ip c) (the (ic_snmp_config c)) of
            Some err \<Rightarrow> (Refused ''offline'' (''invalid SNMP config: '' @ err), d)
          | None \<Rightarrow> (case se_snmp_poll env (ic_id c) (ic_type c) d of (err, d2) \<Rightarrow> (Polled ''snmp'' err, d2)))
     else if m = ''traefik_api'' then poll_traefik env c d
     else if m = ''portainer_api'' then (case se_portainer_run env d of (err, d2) \<Rightarrow> (Polled ''portainer'' err, d2))
     else if m = ''docker_socket'' then
       (case se_docker_new env of
          Some err \<Rightarrow> (Refused ''offline'' (''docker client unavailable: '' @ err), d)
        | None \<Rightarrow> (Polled ''docker'' None, se_docker_poll_all env d))
     else (Refused (ic_last_status c) (''collection method '' @ go_quote m @ '' does not support on-demand scanning''), d))"

definition scan_report :: "infra_component \<Rightarrow> string \<Rightarrow> string option \<Rightarrow> poll_report" where
  "scan_report c source err =
     \<lparr>pr_component_id = ic_id c, pr_component_name = ic_name c, pr_source = source, pr_trigger = ''manual'',
      pr_status = (case err of None \<Rightarrow> ''ok'' | Some _ \<Rightarrow> ''failed''),
      pr_detail = (case err of None \<Rightarrow> [] | Some e \<Rightarrow> e)\<rparr>"

definition scan_one_component ::
  "scan_env \<Rightarrow> string \<Rightarrow> go_time \<Rightarrow> string \<Rightarrow> infra_component \<Rightarrow> db \<Rightarrow> (string \<times> string option) \<times> db" where
  "scan_one_component env uuid now polled_at c d =
     (if \<not> ic_enabled c then ((ic_last_status c, Some ''component is disabled''), d)
      else case run_poller env c d of
        (Refused status err, d1) \<Rightarrow> ((status, Some err), d1)
      | (Polled source (Some err), d1) \<Rightarrow>
          ((''offline'', Some err), db_ignore (component_update_status (ic_id c) ''offline'' polled_at
              (emit_infra_event uuid now (scan_report c source (Some err)) d1)))
      | (Polled source None, d1) \<Rightarrow>
          (case component_get (ic_id c) (emit_infra_event uuid now (scan_report c source None) d1) of
             (Inl _, d2) \<Rightarrow> ((''online'', None), d2)
           | (Inr u, d2) \<Rightarrow> ((ic_last_status u, None), d2)))"

record scan_result =
  sc_component_id :: string
  sc_status :: string
  sc_last_polled_at :: string
  sc_message :: string
  sc_error :: string

definition infra_handler_scan ::
  "scan_env \<Rightarrow> string \<Rightarrow> go_time \<Rightarrow> string \<Rightarrow> string \<Rightarrow> string \<Rightarrow> db \<Rightarrow> scan_result response \<times> db" where
  "infra_handler_scan env uuid now polled_at now_text cid = with_component cid (\<lambda>c d1.
     case scan_one_component env uuid now polled_at c d1 of ((status, err), d2) \<Rightarrow>
       (Answer 200 \<lparr>sc_component_id = cid, sc_status = status, sc_last_polled_at = now_text,
          sc_message = (case err of None \<Rightarrow> ''scan complete''
             | Some _ \<Rightarrow> ''scan failed '' @ em_dash @ '' check credentials and connectivity''),
          sc_error = (case err of None \<Rightarrow> [] | Some e \<Rightarrow> e)\<rparr>, d2))"

section \<open>On-demand discovery: discover.go\<close>

datatype discovery_kind = ProxmoxDiscovery | DockerDiscovery | SynologyDiscovery | OPNsenseDiscovery
  | PortainerDiscovery | TraefikDiscovery | SNMPDiscovery

definition discovery_scanner :: "infra_component \<Rightarrow> discovery_kind option" where
  "discovery_scanner c = (let t = ic_type c in
     if t = ''proxmox_node'' then Some ProxmoxDiscovery else if t = ''docker_engine'' then Some DockerDiscovery
     else if t = ''synology'' then Some SynologyDiscovery else if t = ''opnsense'' then Some OPNsenseDiscovery
     else if t = ''portainer'' then Some PortainerDiscovery else if t = ''traefik'' then Some TraefikDiscovery
     else if ic_collection_method c = ''snmp'' then Some SNMPDiscovery else None)"

text \<open>What a discovery scanner reports: the numbers of entities found and gone.\<close>

record discovery_result =
  ds_found :: nat
  ds_disappeared :: nat

record discover_env =
  di_portainer_run :: "db \<Rightarrow> string option \<times> db"
  di_scanner :: "discovery_kind \<Rightarrow> string \<Rightarrow> string \<Rightarrow> db \<Rightarrow> (string + discovery_result) \<times> db"
  di_traefik_snapshot :: scanner

definition discover_one_component :: "discover_env \<Rightarrow> infra_component \<Rightarrow> db \<Rightarrow> (string + discovery_result) \<times> db" where
  "discover_one_component env c d =
     (if \<not> ic_enabled c then (Inl ''component is disabled'', d)
      else if ic_type c = ''portainer'' then
        (case di_portainer_run env d of
           (Some err, d2) \<Rightarrow> (Inl err, d2) | (None, d2) \<Rightarrow> (Inr \<lparr>ds_found = 0, ds_disappeared = 0\<rparr>, d2))
      else case discovery_scanner c of
        None \<Rightarrow> (Inl (''no discovery scanner for type='' @ go_quote (ic_type c) @ '' method='' @ go_quote (ic_collection_method c)), d)
      | Some k \<Rightarrow>
          (case di_scanner env k (ic_id c) (ic_type c) d of (result, d2) \<Rightarrow>
             (result, if ic_type c = ''traefik'' then snd (di_traefik_snapshot env (ic_id c) (ic_type c) d2) else d2)))"

record discover_response =
  dp_status :: string
  dp_discovered :: nat
  dp_updated :: nat
  dp_missing :: nat
  dp_message :: string
  dp_error :: string

definition discovery_failed_event :: "string \<Rightarrow> go_time \<Rightarrow> infra_component \<Rightarrow> string \<Rightarrow> event" where
  "discovery_failed_event uuid now c err =
     \<lparr>ev_id = uuid, ev_level = ''error'', ev_source_name = ic_name c, ev_source_type = ic_type c, ev_source_id = ic_id c,
      ev_title = ''[discovery] Discovery failed '' @ em_dash @ '' '' @ err,
      ev_payload = ''{'' @ json_quote ''bucket'' @ '':'' @ json_quote ''discovery'' @ '','' @ json_q ''component_id'' (ic_id c)
        @ '','' @ json_q ''error'' err @ ''}'', ev_created_at = now\<rparr>"

definition infra_handler_discover ::
  "discover_env \<Rightarrow> string \<Rightarrow> go_time \<Rightarrow> string \<Rightarrow> db \<Rightarrow> discover_response response \<times> db" where
  "infra_handler_discover env uuid now cid = with_component cid (\<lambda>c d1.
     case discover_one_component env c d1 of
       (Inl err, d2) \<Rightarrow> (Answer 200 \<lparr>dp_status = ''error'', dp_discovered = 0, dp_updated = 0, dp_missing = 0,
           dp_message = ''discovery failed '' @ em_dash @ '' check credentials and connectivity'', dp_error = err\<rparr>,
         db_ignore (event_create (discovery_failed_event uuid now c err) d2))
     | (Inr r, d2) \<Rightarrow> (Answer 200 \<lparr>dp_status = ''ok'', dp_discovered = ds_found r, dp_updated = 0,
           dp_missing = ds_disappeared r, dp_message = ''discovery complete'', dp_error = []\<rparr>, d2))"

section \<open>Resources\<close>

text \<open>\<open>LatestForSourcePrefix\<close>: per metric, over the rows of the source itself or of a source below it, those of
  the latest period. SQLite leaves open from which row of a group the source id is taken: \<open>pick\<close> chooses.\<close>

definition below_source :: "string \<Rightarrow> resource_rollup \<Rightarrow> bool" where
  "below_source source_id r = (rr_source_id r = source_id \<or> like_match (source_id @ ''/%'') (rr_source_id r))"

definition latest_for_source_prefix ::
  "(resource_rollup list \<Rightarrow> string) \<Rightarrow> string \<Rightarrow> string \<Rightarrow> string \<Rightarrow> db \<Rightarrow> resource_rollup list db_result" where
  "latest_for_source_prefix pick source_id source_type period_type = db_query (\<lambda>d.
     let rs = filter (\<lambda>r. below_source source_id r \<and> rr_source_type r = source_type \<and> rr_period_type r = period_type
           \<and> list_all (\<lambda>q. below_source source_id q \<and> rr_metric q = rr_metric r \<and> rr_period_type q = period_type
                \<longrightarrow> rr_period_start q \<le> rr_period_start r) (d_resource_rollups d)) (d_resource_rollups d)
     in map (\<lambda>m. let g = filter (\<lambda>r. rr_metric r = m) rs in
          \<lparr>rr_source_id = pick g, rr_source_type = source_type, rr_metric = m, rr_period_type = period_type,
           rr_period_start = rr_period_start (hd g), rr_avg = list_avg (map rr_avg g),
           rr_min = list_min (map rr_min g), rr_max = list_max (map rr_max g)\<rparr>) (sort (remdups (map rr_metric rs))))"

record infra_resources =
  ir_component_id :: string
  ir_period :: string
  ir_cpu_percent :: rat
  ir_mem_percent :: rat
  ir_disk_percent :: rat
  ir_volumes :: "(string \<times> rat) list"
  ir_recorded_at :: "go_time option"
  ir_no_data :: bool

definition no_resources :: "string \<Rightarrow> string \<Rightarrow> infra_resources" where
  "no_resources cid period = \<lparr>ir_component_id = cid, ir_period = period, ir_cpu_percent = 0, ir_mem_percent = 0,
     ir_disk_percent = 0, ir_volumes = [], ir_recorded_at = None, ir_no_data = False\<rparr>"

text \<open>The switch on the metric name, the same in both loops.\<close>

definition put_metric :: "string \<Rightarrow> rat \<Rightarrow> infra_resources \<Rightarrow> infra_resources" where
  "put_metric m v r =
     (if m = ''cpu_percent'' then r\<lparr>ir_cpu_percent := v\<rparr>
      else if m = ''mem_percent'' then r\<lparr>ir_mem_percent := v\<rparr>
      else if m = ''disk_percent'' then r\<lparr>ir_disk_percent := v\<rparr>
      else if has_prefix m ''disk_percent_'' then r\<lparr>ir_volumes := ir_volumes r @ [(trim_prefix m ''disk_percent_'', v)]\<rparr>
      else r)"

definition put_rollup :: "resource_rollup \<Rightarrow> infra_resources \<Rightarrow> infra_resources" where
  "put_rollup rr r = (let r2 = put_metric (rr_metric rr) (rr_avg rr) r in
     if rr_metric rr = ''cpu_percent'' \<and> ir_recorded_at r = None
     then r2\<lparr>ir_recorded_at := Some (trunc_sec (rr_period_start rr))\<rparr> else r2)"

text \<open>The fallback to the raw readings of the last hour.\<close>

definition live_resources ::
  "go_time \<Rightarrow> bool \<Rightarrow> infra_resources \<Rightarrow> string \<Rightarrow> db \<Rightarrow> infra_resources response \<times> db" where
  "live_resources now use_prefix resp cid d0 =
     (case aggregate_readings (now - hour_ns) now d0 of
        (Inl _, d1) \<Rightarrow> (Answer 200 (resp\<lparr>ir_no_data := True\<rparr>), d1)
      | (Inr aggs, d1) \<Rightarrow>
          (let own = filter (\<lambda>a. ag_source_id a = cid \<or> use_prefix \<and> has_prefix (ag_source_id a) (cid @ ''/'')) aggs in
           if own = [] then (Answer 200 (resp\<lparr>ir_no_data := True\<rparr>), d1)
           else (Answer 200 ((fold (\<lambda>a. put_metric (ag_metric a) (ag_avg a)) own resp)
                   \<lparr>ir_recorded_at := Some (trunc_sec now)\<rparr>), d1)))"

definition infra_handler_get_resources ::
  "(resource_rollup list \<Rightarrow> string) \<Rightarrow> go_time \<Rightarrow> string \<Rightarrow> string \<Rightarrow> db \<Rightarrow> infra_resources response \<times> db" where
  "infra_handler_get_resources pick now period_param cid = with_component cid (\<lambda>c d1.
     (let period = (if period_param = [] then ''hour'' else period_param);
          source_type = (if ic_collection_method c = ''snmp'' then ''snmp_host'' else ic_type c);
          use_prefix = (ic_type c = ''proxmox_node'');
          resp = no_resources cid period in
      if period \<notin> {''hour'', ''day''} then (Failed 400 ''period must be hour or day'', d1)
      else case (if use_prefix then latest_for_source_prefix pick cid source_type period d1
                 else latest_for_source cid source_type period d1) of
          (Inl _, d2) \<Rightarrow> (Failed 500 ''database'', d2)
        | (Inr rs, d2) \<Rightarrow> (if rs = [] then live_resources now use_prefix resp cid d2
                           else (Answer 200 (fold put_rollup rs resp), d2))))"

section \<open>Children, linked apps, events\<close>

definition infra_handler_list_children :: "'n codec \<Rightarrow> string \<Rightarrow> db \<Rightarrow> 'n infra_response list response \<times> db" where
  "infra_handler_list_children cd cid = with_component cid (\<lambda>_ d1. case component_list_by_parent cid d1 of
       (Inl _, d2) \<Rightarrow> (Failed 500 ''database'', d2)
     | (Inr cs, d2) \<Rightarrow> (Answer 200 (map (to_infra_response cd) cs), d2))"

definition infra_handler_list_linked_apps :: "string \<Rightarrow> db \<Rightarrow> app_row list response \<times> db" where
  "infra_handler_list_linked_apps cid = with_component cid (\<lambda>_ d1. case app_list_by_host cid d1 of
       (Inl _, d2) \<Rightarrow> (Failed 500 ''database'', d2) | (Inr as, d2) \<Rightarrow> (Answer 200 as, d2))"

definition infra_handler_link_app :: "string \<Rightarrow> string \<Rightarrow> db \<Rightarrow> unit response \<times> db" where
  "infra_handler_link_app cid aid = with_component cid (\<lambda>c d1. case app_get aid d1 of
       (Inl e, d2) \<Rightarrow> (app_failure e, d2)
     | (Inr _, d2) \<Rightarrow> (case set_parent (ic_type c) (ic_id c) ''app'' aid d2 of
           (Inl _, d3) \<Rightarrow> (Failed 500 ''database'', d3) | (Inr _, d3) \<Rightarrow> (Answer 204 (), d3)))"

definition infra_handler_unlink_app :: "string \<Rightarrow> db \<Rightarrow> unit response \<times> db" where
  "infra_handler_unlink_app aid d0 = (case app_get aid d0 of
       (Inl e, d1) \<Rightarrow> (app_failure e, d1)
     | (Inr _, d1) \<Rightarrow> (case remove_parent ''app'' aid d1 of
           (Inl _, d2) \<Rightarrow> (Failed 500 ''database'', d2) | (Inr _, d2) \<Rightarrow> (Answer 204 (), d2)))"

definition infra_handler_list_events ::
  "(string \<Rightarrow> go_time option) \<Rightarrow> string \<Rightarrow> (string \<Rightarrow> string) \<Rightarrow> db \<Rightarrow> list_events_response response \<times> db" where
  "infra_handler_list_events parse_time cid q d = (case parse_filter parse_time q of
       Inl msg \<Rightarrow> (Failed 400 msg, d) | Inr f \<Rightarrow> answer_page (f\<lparr>lf_source_id := cid\<rparr>) d)"

section \<open>Traefik\<close>

definition with_traefik :: "string \<Rightarrow> (infra_component \<Rightarrow> db \<Rightarrow> 'a response \<times> db) \<Rightarrow> db \<Rightarrow> 'a response \<times> db" where
  "with_traefik cid k = with_component cid (\<lambda>c d1.
     if ic_type c \<noteq> ''traefik'' then (Failed 400 ''component is not a traefik type'', d1) else k c d1)"

definition overview_zeros :: "string list" where
  "overview_zeros = [''routers_total'', ''routers_errors'', ''routers_warnings'', ''services_total'',
     ''services_errors'', ''middlewares_total'']"

text \<open>A stored \<open>null\<close> decodes to the nil map, whose assignment panics.\<close>

definition infra_handler_traefik_overview :: "'n codec \<Rightarrow> 'n \<Rightarrow> string \<Rightarrow> db \<Rightarrow> 'n object response \<times> db" where
  "infra_handler_traefik_overview cd zero cid = with_traefik cid (\<lambda>c d1.
     case ic_meta c of
       None \<Rightarrow> (Answer 200 ([(''component_id'', JStr cid), (''version'', JStr [])]
          @ map (\<lambda>k. (k, JNum zero)) overview_zeros @ [(''updated_at'', JNull)]), d1)
     | Some s \<Rightarrow> (if s = [] then (Answer 200 ([(''component_id'', JStr cid), (''version'', JStr [])]
            @ map (\<lambda>k. (k, JNum zero)) overview_zeros @ [(''updated_at'', JNull)]), d1)
         else case unmarshal_map cd s of
             None \<Rightarrow> (Failed 500 ''failed to parse meta'', d1)
           | Some None \<Rightarrow> (Failed 500 [], d1)
           | Some (Some ov) \<Rightarrow> (Answer 200 (upsert_assoc ''component_id'' (JStr cid) ov), d1)))"

definition infra_handler_traefik_routers :: "string \<Rightarrow> string \<Rightarrow> db \<Rightarrow> route list response \<times> db" where
  "infra_handler_traefik_routers status cid = with_traefik cid (\<lambda>_ d1. case route_list_by_status cid status d1 of
       (Inl _, d2) \<Rightarrow> (Failed 500 ''database'', d2) | (Inr rs, d2) \<Rightarrow> (Answer 200 rs, d2))"

definition infra_handler_traefik_services :: "string \<Rightarrow> string \<Rightarrow> db \<Rightarrow> service_summary list response \<times> db" where
  "infra_handler_traefik_services status cid = with_traefik cid (\<lambda>_ d1. case list_services cid status d1 of
       (Inl _, d2) \<Rightarrow> (Failed 500 ''database'', d2) | (Inr ss, d2) \<Rightarrow> (Answer 200 ss, d2))"

section \<open>Secrets\<close>

lemma restore_secrets_changed: "restore_secrets ks old w True = Some (z, ch) \<Longrightarrow> ch"
  by (induction ks arbitrary: w) (auto split: option.splits if_splits)

lemma restore_secrets_map:
  "\<exists>m2 ch. restore_secrets ks old (Some n) ch0 = Some (Some m2, ch)
     \<and> (\<forall>k. map_of m2 k = (if k \<in> set ks \<and> blank_value (map_of n k) \<and> map_of old k \<noteq> None then map_of old k else map_of n k))
     \<and> (\<not> ch \<longrightarrow> m2 = n)"
proof (induction ks arbitrary: n ch0)
  case (Cons k ks)
  show ?case
  proof (cases "if blank_value (map_of n k) then map_of old k else None")
    case None
    obtain m2 ch where "restore_secrets ks old (Some n) ch0 = Some (Some m2, ch)" "\<not> ch \<longrightarrow> m2 = n"
        "\<forall>j. map_of m2 j = (if j \<in> set ks \<and> blank_value (map_of n j) \<and> map_of old j \<noteq> None then map_of old j else map_of n j)"
      using Cons.IH by blast
    with None show ?thesis by (intro exI [of _ m2] exI [of _ ch]) auto
  next
    case (Some v)
    obtain m2 ch where r: "restore_secrets ks old (Some (upsert_assoc k v n)) True = Some (Some m2, ch)"
        "\<forall>j. map_of m2 j = (if j \<in> set ks \<and> blank_value (map_of (upsert_assoc k v n) j) \<and> map_of old j \<noteq> None
            then map_of old j else map_of (upsert_assoc k v n) j)"
      using Cons.IH by blast
    have v: "map_of old k = Some v" "blank_value (map_of n k)" using Some by (auto split: if_splits)
    then show ?thesis using r restore_secrets_changed [OF r(1)]
      by (intro exI [of _ m2] exI [of _ ch]) (auto simp: map_of_upsert_assoc)
  qed
qed simp

text \<open>A text that stands for an object: it decodes to it or is what \<open>json.Marshal\<close> writes for it.\<close>

definition denotes :: "'n codec \<Rightarrow> string \<Rightarrow> 'n object \<Rightarrow> bool" where
  "denotes cd s m = (json_unmarshal cd s = Some (JObj m) \<or> s = json_marshal (num_fmt cd) (JObj m))"

text \<open>The object an update stores: the incoming one, a secret it leaves blank taken from the stored one.\<close>

definition merged_object :: "string \<Rightarrow> 'n object \<Rightarrow> 'n object \<Rightarrow> string \<rightharpoonup> 'n json" where
  "merged_object ty m n k = (if k \<in> set (credential_secret_fields ty) \<and> blank_value (map_of n k) \<and> map_of m k \<noteq> None
     then map_of m k else map_of n k)"

lemma merge_credentials_object:
  assumes "json_unmarshal cd old = Some (JObj m)" and "json_unmarshal cd new = Some (JObj n)" and "old \<noteq> []"
  shows "\<exists>s m2. merge_credentials cd (Some old) (Some new) ty = Some (Some s) \<and> denotes cd s m2
    \<and> map_of m2 = merged_object ty m n"
proof (cases "credential_secret_fields ty = []")
  case True
  then show ?thesis using assms(2)
    by (intro exI [of _ new] exI [of _ n]) (simp add: merge_credentials_def denotes_def merged_object_def fun_eq_iff)
next
  case False
  obtain m2 ch where r: "restore_secrets (credential_secret_fields ty) m (Some n) False = Some (Some m2, ch)" "\<not> ch \<longrightarrow> m2 = n"
      "\<forall>k. map_of m2 k = (if k \<in> set (credential_secret_fields ty) \<and> blank_value (map_of n k) \<and> map_of m k \<noteq> None
         then map_of m k else map_of n k)"
    using restore_secrets_map [of "credential_secret_fields ty" m n False] by blast
  have "map_of m2 = merged_object ty m n" using r(3) by (simp add: fun_eq_iff merged_object_def)
  then show ?thesis using r assms False
    by (intro exI [of _ "if ch then json_marshal (num_fmt cd) (JObj m2) else new"] exI [of _ m2])
      (auto simp: merge_credentials_def unmarshal_map_def denotes_def Let_def)
qed

text \<open>A request the handler accepts: type and method are absent or known, the parent absent, cleared or an existing one.\<close>

definition acceptable :: "infra_request \<Rightarrow> db \<Rightarrow> bool" where
  "acceptable q d = ((iq_type q = [] \<or> iq_type q \<in> set valid_component_types)
     \<and> (iq_collection_method q = [] \<or> iq_collection_method q \<in> set valid_collection_methods)
     \<and> (case iq_parent_id q of None \<Rightarrow> True | Some pid \<Rightarrow> pid = [] \<or> pid \<in> ic_id ` set (d_components d)))"

lemma valid_lists: "valid_component_types = component_types" "valid_collection_methods = collection_methods"
  by (simp_all add: valid_component_types_def component_types_def valid_collection_methods_def collection_methods_def)

lemma fetch_parent_accepts:
  assumes "d_faults d = []" and "acceptable q d"
  shows "\<exists>p. fetch_parent q d = (Inr p, d)"
proof (cases "iq_parent_id q")
  case (Some pid)
  show ?thesis
  proof (cases "pid = []")
    case False
    then have "lookup_row ic_id pid (d_components d) \<noteq> None" using assms(2) Some by (simp add: acceptable_def lookup_row_None)
    then show ?thesis using False Some assms(1) by (auto simp: fetch_parent_def component_get_def split: option.split)
  qed (simp add: fetch_parent_def Some)
qed (simp add: fetch_parent_def)

lemma update_handler_effect:
  assumes "d_faults d = []" and "components_ok d" and "c \<in> set (d_components d)"
    and "acceptable q d" and "apply_infra_request cd q c = Some n"
  shows "\<exists>d2. infra_handler_update cd (ic_id c) (Some q) d = (Answer 200 (to_infra_response cd n), d2)
    \<and> d_components d2 = update_where (\<lambda>x. ic_id x = ic_id c) (\<lambda>x. if x = c then n else x) (d_components d)"
proof -
  have dist: "distinct (map ic_id (d_components d))" and ok: "list_all component_row_ok (d_components d)"
    using assms(2) by (simp_all add: components_ok_def)
  have found: "lookup_row ic_id (ic_id c) (d_components d) = Some c" by (rule lookup_row_distinct [OF dist assms(3)])
  have same: "x = c" if "x \<in> set (d_components d)" "ic_id x = ic_id c" for x
    using dist that assms(3) by (auto simp: distinct_map dest: inj_onD)
  have n: "ic_id n = ic_id c" "ic_last_status n = ic_last_status c" "ic_meta n = ic_meta c"
      "ic_last_polled_at n = ic_last_polled_at c" "ic_created_at n = ic_created_at c"
    using assms(5) by (auto simp: apply_infra_request_def Let_def split: option.splits)
  let ?f = "\<lambda>x. x\<lparr>ic_name := ic_name n, ic_ip := ic_ip n, ic_type := ic_type n,
     ic_collection_method := ic_collection_method n, ic_credentials := ic_credentials n,
     ic_snmp_config := ic_snmp_config n, ic_notes := ic_notes n, ic_enabled := ic_enabled n,
     ic_last_status := ic_last_status n\<rparr>"
  have f: "?f c = n" using n by (cases c, cases n) simp
  have "component_row_ok c" using ok assms(3) by (simp add: list_all_iff)
  moreover have "ic_type n = (if iq_type q = [] then ic_type c else iq_type q)"
    "ic_collection_method n = (if iq_collection_method q = [] then ic_collection_method c else iq_collection_method q)"
    using assms(5) by (auto simp: apply_infra_request_def Let_def split: option.splits)
  ultimately have row: "component_row_ok n" using assms(4) n(2) by (auto simp: component_row_ok_def acceptable_def valid_lists)
  have all: "list_all (\<lambda>x. ic_id x = ic_id c \<longrightarrow> component_row_ok (?f x)) (d_components d)"
    unfolding list_all_iff
  proof (intro ballI impI)
    fix x assume "x \<in> set (d_components d)" "ic_id x = ic_id c"
    then have "x = c" by (rule same)
    then show "component_row_ok (?f x)" using f row by simp
  qed
  have upd: "component_update n d = (Inr (),
      d\<lparr>d_components := update_where (\<lambda>x. ic_id x = ic_id c) ?f (d_components d)\<rparr>)"
    using all assms(1,3) n(1) by (simp add: component_update_def component_change_def)
  have "update_where (\<lambda>x. ic_id x = ic_id c) ?f (d_components d)
      = update_where (\<lambda>x. ic_id x = ic_id c) (\<lambda>x. if x = c then n else x) (d_components d)"
    using same f by (auto simp: update_where_def)
  moreover obtain p where "fetch_parent q d = (Inr p, d)" using fetch_parent_accepts [OF assms(1,4)] by blast
  moreover have "component_get (ic_id c) d = (Inr c, d)" using found assms(1) by (simp add: component_get_def)
  moreover have "\<not> (iq_type q \<noteq> [] \<and> iq_type q \<notin> set valid_component_types)"
    "\<not> (iq_collection_method q \<noteq> [] \<and> iq_collection_method q \<notin> set valid_collection_methods)"
    using assms(4) by (auto simp: acceptable_def)
  ultimately show ?thesis
    using assms(1,5) upd
    by (cases p) (simp_all add: infra_handler_update_def with_component_def set_parent_def remove_parent_def db_ignore_def)
qed

lemma form_object: "map_of (without_keys ks m) k = (if k \<in> set ks then None else map_of m k)"
  by (induction m) (auto simp: without_keys_def)

lemma merged_form:
  assumes "\<forall>k. if k \<in> set (credential_secret_fields ty) then blank_value (map_of n k) \<and> (map_of n k = None \<or> map_of m k \<noteq> None)
      else map_of n k = map_of m k"
  shows "merged_object ty m n = map_of m"
proof
  fix k show "merged_object ty m n k = map_of m k"
    using assms [rule_format, of k] by (auto simp: merged_object_def split: if_splits)
qed

lemma lookup_replaced:
  assumes "lookup_row ic_id (ic_id c) cs = Some c" and "ic_id n = ic_id c"
  shows "lookup_row ic_id (ic_id c) (update_where (\<lambda>x. ic_id x = ic_id c) (\<lambda>x. if x = c then n else x) cs) = Some n"
  using assms by (induction cs) (auto simp: update_where_def lookup_row_def split: if_splits)

text \<open>C24: Saving new credentials. For an update the handler accepts, with any type, collection method and parent, what is
  stored is the object that was sent, except that a secret field of the type the component has from now on keeps its
  stored value when the object leaves it out or blank. Saving the form the server filled in, unchanged and with the
  secrets left blank, keeps the stored credentials as they were. No other component is touched.\<close>

theorem update_merges_credentials:
  assumes "d_faults d = []" and "components_ok d" and "c \<in> set (d_components d)" and "acceptable q d"
    and "ic_credentials c = Some old" and "old \<noteq> []" and "json_unmarshal cd old = Some (JObj m)"
    and "iq_credentials q = Some new" and "json_unmarshal cd new = Some (JObj n)"
    and "ty = (if iq_type q = [] then ic_type c else iq_type q)"
  shows "\<exists>d2 c2 s m2. infra_handler_update cd (ic_id c) (Some q) d = (Answer 200 (to_infra_response cd c2), d2)
    \<and> lookup_row ic_id (ic_id c) (d_components d2) = Some c2
    \<and> (\<forall>x \<in> set (d_components d). ic_id x \<noteq> ic_id c \<longrightarrow> x \<in> set (d_components d2))
    \<and> ic_type c2 = ty \<and> ic_credentials c2 = Some s \<and> denotes cd s m2
    \<and> (\<forall>k. map_of m2 k = (if k \<in> set (credential_secret_fields ty) \<and> blank_value (map_of n k) \<and> map_of m k \<noteq> None
         then map_of m k else map_of n k))
    \<and> (\<forall>form. ty = ic_type c \<and> extract_credential_meta cd ty old = Some form
         \<and> (\<forall>k. if k \<in> set (credential_secret_fields ty)
                then blank_value (map_of n k) \<and> (map_of n k = None \<or> map_of m k \<noteq> None) else map_of n k = map_of form k)
         \<longrightarrow> map_of m2 = map_of m)"
proof -
  obtain s m2 where s: "merge_credentials cd (Some old) (Some new) ty = Some (Some s)" "denotes cd s m2"
      "map_of m2 = merged_object ty m n"
    using merge_credentials_object [OF assms(7,9,6), of ty] by blast
  then obtain c2 where c2: "apply_infra_request cd q c = Some c2" "ic_credentials c2 = Some s" "ic_id c2 = ic_id c" "ic_type c2 = ty"
    using assms(5,8,10) by (cases "iq_type q = []") (simp_all add: apply_infra_request_def)
  have "distinct (map ic_id (d_components d))" using assms(2) by (simp add: components_ok_def)
  then have found: "lookup_row ic_id (ic_id c) (d_components d) = Some c" using assms(3) by (rule lookup_row_distinct)
  let ?cs = "update_where (\<lambda>x. ic_id x = ic_id c) (\<lambda>x. if x = c then c2 else x) (d_components d)"
  obtain d2 where eff: "infra_handler_update cd (ic_id c) (Some q) d = (Answer 200 (to_infra_response cd c2), d2)"
      "d_components d2 = ?cs"
    using update_handler_effect [OF assms(1-4) c2(1)] by blast
  have form: "map_of m2 = map_of m" if "ty = ic_type c \<and> extract_credential_meta cd ty old = Some form
      \<and> (\<forall>k. if k \<in> set (credential_secret_fields ty)
           then blank_value (map_of n k) \<and> (map_of n k = None \<or> map_of m k \<noteq> None) else map_of n k = map_of form k)" for form
  proof -
    have "form = without_keys (credential_secret_fields ty) m"
      using that assms(7) by (auto simp: extract_credential_meta_def unmarshal_map_def Let_def split: if_splits)
    then have "map_of form k = map_of m k" if "k \<notin> set (credential_secret_fields ty)" for k
      using that by (simp add: form_object)
    then show ?thesis unfolding s(3) using that by (intro merged_form) metis
  qed
  have others: "\<forall>x \<in> set (d_components d). ic_id x \<noteq> ic_id c \<longrightarrow> x \<in> set ?cs"
    by (auto simp: update_where_def)
  have keys: "\<forall>k. map_of m2 k = (if k \<in> set (credential_secret_fields ty) \<and> blank_value (map_of n k) \<and> map_of m k \<noteq> None
       then map_of m k else map_of n k)"
    by (simp add: s(3) merged_object_def)
  have stored: "lookup_row ic_id (ic_id c) (d_components d2) = Some c2"
    unfolding eff(2) by (rule lookup_replaced [OF found c2(3)])
  have forms: "\<forall>form. ty = ic_type c \<and> extract_credential_meta cd ty old = Some form
      \<and> (\<forall>k. if k \<in> set (credential_secret_fields ty)
           then blank_value (map_of n k) \<and> (map_of n k = None \<or> map_of m k \<noteq> None) else map_of n k = map_of form k)
      \<longrightarrow> map_of m2 = map_of m"
    by (intro allI impI, rule form)
  show ?thesis
    by (rule exI [of _ d2], rule exI [of _ c2], rule exI [of _ s], rule exI [of _ m2])
      (intro conjI eff(1) stored others [folded eff(2)] c2(2,4) s(2) keys forms)
qed

definition sample_traefik :: infra_component where
  "sample_traefik = \<lparr>ic_id = ''t1'', ic_name = ''edge'', ic_ip = ''10.0.0.1'', ic_type = ''traefik'',
     ic_collection_method = ''traefik_api'', ic_credentials = Some ''old'', ic_snmp_config = None, ic_meta = None,
     ic_notes = [], ic_enabled = True, ic_last_polled_at = None, ic_last_status = ''unknown'', ic_created_at = []\<rparr>"

definition sample_infra_db :: db where
  "sample_infra_db = empty_db\<lparr>d_components := [sample_traefik]\<rparr>"

definition sample_credentials :: "nat codec" where
  "sample_credentials = \<lparr>json_unmarshal = (\<lambda>s. if s = ''old'' then Some (JObj [(''url'', JStr ''a''), (''api_key'', JStr ''k'')])
     else if s = ''new'' then Some (JObj [(''url'', JStr ''b''), (''api_key'', JStr [])])
     else if s = ''null'' then Some JNull else None), num_fmt = show_nat\<rparr>"

definition no_change :: infra_request where
  "no_change = \<lparr>iq_name = [], iq_ip = [], iq_type = [], iq_collection_method = [], iq_parent_id = None,
     iq_snmp_config = None, iq_notes = [], iq_enabled = None, iq_credentials = None\<rparr>"

definition saved_form :: infra_request where
  "saved_form = no_change\<lparr>iq_name := ''edge'', iq_type := ''traefik'', iq_collection_method := ''traefik_api'',
     iq_parent_id := Some [], iq_enabled := Some True, iq_credentials := Some ''new''\<rparr>"

theorem update_merges_credentials_witness:
  "\<exists>d2 c2 s m2. infra_handler_update sample_credentials ''t1'' (Some saved_form) sample_infra_db
      = (Answer 200 (to_infra_response sample_credentials c2), d2)
    \<and> ic_credentials c2 = Some s \<and> denotes sample_credentials s m2
    \<and> map_of m2 ''url'' = Some (JStr ''b'') \<and> map_of m2 ''api_key'' = Some (JStr ''k'')"
proof -
  have f: "d_faults sample_infra_db = []" "components_ok sample_infra_db" "sample_traefik \<in> set (d_components sample_infra_db)"
    by (simp_all add: sample_infra_db_def empty_db_def components_ok_def component_row_ok_def sample_traefik_def
        component_types_def collection_methods_def component_statuses_def)
  let ?old = "[(''url'', JStr ''a''), (''api_key'', JStr ''k'')] :: nat object"
  let ?new = "[(''url'', JStr ''b''), (''api_key'', JStr [])] :: nat object"
  have j: "json_unmarshal sample_credentials ''old'' = Some (JObj ?old)" "json_unmarshal sample_credentials ''new'' = Some (JObj ?new)"
    by (simp_all add: sample_credentials_def)
  have t: "ic_credentials sample_traefik = Some ''old''" "''old'' \<noteq> []" by (simp_all add: sample_traefik_def)
  have q: "acceptable saved_form sample_infra_db" "iq_credentials saved_form = Some ''new''"
    "''traefik'' = (if iq_type saved_form = [] then ic_type sample_traefik else iq_type saved_form)"
    by (simp_all add: saved_form_def no_change_def acceptable_def valid_component_types_def valid_collection_methods_def)
  have n: "ic_id sample_traefik = ''t1''" by (simp add: sample_traefik_def)
  have k: "credential_secret_fields ''traefik'' = [''api_key'']" by (simp add: credential_secret_fields_def)
  obtain d2 c2 s m2 where u: "infra_handler_update sample_credentials ''t1'' (Some saved_form) sample_infra_db
        = (Answer 200 (to_infra_response sample_credentials c2), d2)" "ic_credentials c2 = Some s" "denotes sample_credentials s m2"
      and m: "\<forall>k. map_of m2 k = (if k \<in> set [''api_key''] \<and> blank_value (map_of ?new k) \<and> map_of ?old k \<noteq> None
         then map_of ?old k else map_of ?new k)"
    using update_merges_credentials [OF f q(1) t j(1) q(2) j(2) q(3), unfolded n k] by (elim exE conjE) (rule that)
  have "map_of m2 ''url'' = Some (JStr ''b'')" "map_of m2 ''api_key'' = Some (JStr ''k'')"
    using m by (simp_all add: blank_value_def)
  with u show ?thesis by blast
qed

text \<open>What is kept from the client depends on the type alone: changing the type shows the secret.\<close>

lemma response_hides_secrets:
  "ip_credential_meta (to_infra_response cd c) = Some m \<Longrightarrow> k \<in> set (credential_secret_fields (ic_type c)) \<Longrightarrow> k \<notin> fst ` set m"
  by (auto simp: to_infra_response_def extract_credential_meta_def without_keys_def Let_def split: option.splits if_splits)

lemma type_change_shows_secret:
  "(case fst (infra_handler_update sample_credentials ''t1'' (Some (no_change\<lparr>iq_type := ''linux_host''\<rparr>)) sample_infra_db) of
      Answer _ r \<Rightarrow> ip_credential_meta r | Failed _ _ \<Rightarrow> None) = Some [(''url'', JStr ''a''), (''api_key'', JStr ''k'')]"
  by code_simp

text \<open>A component whose stored secret is to be kept cannot be sent the credentials \<open>null\<close>.\<close>

lemma null_credentials_panic:
  "infra_handler_update sample_credentials ''t1'' (Some (no_change\<lparr>iq_credentials := Some ''null''\<rparr>)) sample_infra_db
     = (Failed 500 [], sample_infra_db)"
  by code_simp

text \<open>Deleting a component leaves its routes and the links from and to it.\<close>

lemma delete_leaves_routes:
  assumes "d_faults d = []" and "lookup_row ic_id cid (d_components d) = Some c"
  shows "\<exists>d2. infra_handler_delete cid d = (Answer 204 (), d2) \<and> d_links d2 = d_links d
    \<and> map rt_infrastructure_id (d_routes d2) = map rt_infrastructure_id (d_routes d)"
proof -
  have "cid \<in> ic_id ` set (d_components d)" using lookup_row_Some [OF assms(2)] by auto
  then show ?thesis
    using assms
    by (auto simp: infra_handler_delete_def with_component_def component_get_def component_delete_def Let_def
        check_delete_by_source_component_def delete_containers_def map_update_where set_update_where
        intro!: map_update_where split: option.split)
qed

section \<open>What a manual scan records\<close>
















end
