(* ===== verification/ApiPoll.thy ===== *)
theory ApiPoll
  imports Apps
begin

text \<open>
  Polling of application APIs: internal/scanner/discovery/api_poll.go, internal/apipoller, internal/repo/
  app_metric_snapshots.go and the handlers of internal/api/apps.go that use them.

  The HTTP client is a function from requests to replies. The texts of net/url, encoding/base64 and the \<open>%v\<close> verb
  the code relies on are written out; \<open>po_num_v\<close> is what \<open>%v\<close> prints for a number. Context cancellation is an
  argument of the loop over the apps.
\<close>

type_synonym 'n config = "(string \<times> 'n json) list"

section \<open>app_metric_snapshots.go\<close>

definition polled_key :: "polled_value \<Rightarrow> string \<times> string" where
  "polled_key p = (pv_app_id p, pv_metric_name p)"

text \<open>\<open>INSERT OR REPLACE\<close> removes the row of the same metric and a row with the same id.\<close>

definition polled_upsert :: "polled_value \<Rightarrow> db \<Rightarrow> unit db_result" where
  "polled_upsert p = db_op (\<lambda>d. (Inr (),
     d\<lparr>d_polled := replace_row polled_key p (filter (\<lambda>x. pv_id x \<noteq> pv_id p) (d_polled d))\<rparr>))"

definition polled_list_by_app :: "string \<Rightarrow> db \<Rightarrow> polled_value list db_result" where
  "polled_list_by_app aid = db_query (\<lambda>d. order_asc pv_metric_name (filter (\<lambda>p. pv_app_id p = aid) (d_polled d)))"

definition polled_get :: "string \<Rightarrow> string \<Rightarrow> db \<Rightarrow> polled_value db_result" where
  "polled_get aid metric = db_op (\<lambda>d. case lookup_row polled_key (aid, metric) (d_polled d) of
       Some p \<Rightarrow> (Inr p, d) | None \<Rightarrow> (Inl NotFound, d))"

section \<open>Requests\<close>

definition base64_char :: "nat \<Rightarrow> char" where
  "base64_char n = (if n < 26 then char_of (65 + n) else if n < 52 then char_of (71 + n)
     else if n < 62 then char_of (n - 4) else if n = 62 then CHR ''+'' else CHR ''/'')"

fun base64_encode :: "string \<Rightarrow> string" where
  "base64_encode [] = []"
| "base64_encode [a] = (let n = of_char a * 16 in [base64_char (n div 64), base64_char (n mod 64), CHR ''='', CHR ''=''])"
| "base64_encode [a, b] = (let n = (of_char a * 256 + of_char b) * 4 in
     [base64_char (n div 4096), base64_char (n div 64 mod 64), base64_char (n mod 64), CHR ''=''])"
| "base64_encode (a # b # c # s) = (let n = of_char a * 65536 + of_char b * 256 + of_char c in
     [base64_char (n div 262144), base64_char (n div 4096 mod 64), base64_char (n div 64 mod 64), base64_char (n mod 64)]
     @ base64_encode s)"

text \<open>\<open>url.QueryEscape\<close> and its inverse, which fails on a malformed escape.\<close>

definition upper_hex :: "nat \<Rightarrow> char" where
  "upper_hex n = (if n < 10 then char_of (48 + n) else char_of (55 + n))"

definition unreserved :: "char \<Rightarrow> bool" where
  "unreserved c = (let n = of_char c :: nat in (48 \<le> n \<and> n \<le> 57) \<or> (65 \<le> n \<and> n \<le> 90) \<or> (97 \<le> n \<and> n \<le> 122)
     \<or> c \<in> {CHR ''-'', CHR ''_'', CHR ''.'', CHR ''~''})"

definition query_escape :: "string \<Rightarrow> string" where
  "query_escape s = concat (map (\<lambda>c. if unreserved c then [c] else if c = CHR '' '' then ''+''
     else let n = of_char c :: nat in [CHR ''%'', upper_hex (n div 16), upper_hex (n mod 16)]) s)"

definition hex_value :: "char \<Rightarrow> nat option" where
  "hex_value c = (let n = of_char c :: nat in
     if 48 \<le> n \<and> n \<le> 57 then Some (n - 48) else if 65 \<le> n \<and> n \<le> 70 then Some (n - 55)
     else if 97 \<le> n \<and> n \<le> 102 then Some (n - 87) else None)"

fun query_unescape :: "string \<Rightarrow> string option" where
  "query_unescape [] = Some []"
| "query_unescape (c # s) =
     (if c = CHR ''%'' then
        (case s of
           h # l # rest \<Rightarrow> (case (hex_value h, hex_value l) of
               (Some x, Some y) \<Rightarrow> map_option ((#) (char_of (16 * x + y))) (query_unescape rest)
             | _ \<Rightarrow> None)
         | _ \<Rightarrow> None)
      else map_option ((#) (if c = CHR ''+'' then CHR '' '' else c)) (query_unescape s))"

text \<open>\<open>URL.Query()\<close> drops malformed pairs; \<open>Set\<close> leaves one value of the key; \<open>Encode\<close> sorts by key.\<close>

definition parse_pair :: "string \<Rightarrow> (string \<times> string) option" where
  "parse_pair s = (if s = [] \<or> CHR '';'' \<in> set s then None
     else let (k, v) = (case split_first (CHR ''='') s of None \<Rightarrow> (s, []) | Some kv \<Rightarrow> kv) in
       (case (query_unescape k, query_unescape v) of (Some a, Some b) \<Rightarrow> Some (a, b) | _ \<Rightarrow> None))"

definition query_set :: "string \<Rightarrow> string \<Rightarrow> string \<Rightarrow> string" where
  "query_set k v query = join ''&'' (map (\<lambda>(a, b). query_escape a @ ''='' @ query_escape b)
     (sort_key fst (filter (\<lambda>p. fst p \<noteq> k) (List.map_filter parse_pair (split_on (CHR ''&'') query)) @ [(k, v)])))"

definition set_url_query :: "string \<Rightarrow> string \<Rightarrow> string \<Rightarrow> string" where
  "set_url_query k v url = (let (path, query) = (case split_first (CHR ''?'') url of None \<Rightarrow> (url, []) | Some pq \<Rightarrow> pq)
     in path @ ''?'' @ query_set k v query)"

record poll_request =
  po_url :: string
  po_headers :: "(string \<times> string) list"

text \<open>An invalid URL, no connection, a status with a body (\<open>None\<close> when reading it fails).\<close>

datatype poll_reply = BadURL string | NoConnection string | Reply int "string option"

section \<open>apipoller.go and the effective authentication\<close>

definition config_str :: "'n config \<Rightarrow> string \<Rightarrow> string" where
  "config_str cfg k = (case map_of cfg k of Some (JStr s) \<Rightarrow> s | _ \<Rightarrow> [])"

definition resolve_api_base_url :: "'n config \<Rightarrow> string" where
  "resolve_api_base_url cfg = (if config_str cfg ''api_url'' \<noteq> [] then config_str cfg ''api_url'' else config_str cfg ''base_url'')"

record poll_auth =
  pa_type :: string
  pa_header :: string

definition resolve_auth :: "'n config \<Rightarrow> api_polling_block \<Rightarrow> poll_auth" where
  "resolve_auth cfg b =
     (let ty = (if config_str cfg ''auth_type'' \<noteq> [] then config_str cfg ''auth_type'' else pb_auth_type b);
          hd = (if config_str cfg ''auth_header'' \<noteq> [] then config_str cfg ''auth_header'' else pb_auth_header b)
      in \<lparr>pa_type = (if ty = [] then ''none'' else ty), pa_header = hd\<rparr>)"

definition poll_request_for :: "string \<Rightarrow> string \<Rightarrow> poll_auth \<Rightarrow> api_polling_entry \<Rightarrow> poll_request" where
  "poll_request_for base key auth e =
     (let url = trim_right (CHR ''/'') base @ pe_path e in
      if key = [] then \<lparr>po_url = url, po_headers = []\<rparr>
      else if pa_type auth = ''apikey_header'' \<and> pa_header auth \<noteq> [] then \<lparr>po_url = url, po_headers = [(pa_header auth, key)]\<rparr>
      else if pa_type auth = ''apikey_query'' \<and> pa_header auth \<noteq> []
        then \<lparr>po_url = set_url_query (pa_header auth) key url, po_headers = []\<rparr>
      else if pa_type auth = ''bearer'' then \<lparr>po_url = url, po_headers = [(''Authorization'', ''Bearer '' @ key)]\<rparr>
      else if pa_type auth = ''basic'' then \<lparr>po_url = url, po_headers = [(''Authorization'', ''Basic '' @ base64_encode key)]\<rparr>
      else \<lparr>po_url = url, po_headers = []\<rparr>)"

section \<open>Extraction\<close>

text \<open>\<open>fmt.Sprintf("%v")\<close> on decoded JSON.\<close>

fun fmt_v :: "('n \<Rightarrow> string) \<Rightarrow> 'n json \<Rightarrow> string" where
  "fmt_v f JNull = ''<nil>''"
| "fmt_v f (JBool b) = (if b then ''true'' else ''false'')"
| "fmt_v f (JNum n) = f n"
| "fmt_v f (JStr s) = s"
| "fmt_v f (JArr vs) = ''['' @ join '' '' (map (fmt_v f) vs) @ '']''"
| "fmt_v f (JObj kvs) = ''map['' @ join '' '' (map (\<lambda>(k, t). k @ '':'' @ t)
     (sort_key fst (map (\<lambda>(k, v). (k, fmt_v f v)) kvs))) @ '']''"

definition poll_to_string :: "('n \<Rightarrow> string) \<Rightarrow> 'n json \<Rightarrow> string" where
  "poll_to_string f v = (case v of JNull \<Rightarrow> [] | JStr s \<Rightarrow> s | _ \<Rightarrow> fmt_v f v)"

function poll_json_path_get_raw :: "'n json \<Rightarrow> string \<Rightarrow> 'n json option" where
  "poll_json_path_get_raw v path =
     (let p = trim_dollar path in
      if p = [] then Some v
      else let (segment, rest) = split_segment p in
        (case array_index_re segment of
           Some (key, idx) \<Rightarrow>
             (case v of
                JObj obj \<Rightarrow>
                  (case map_of obj key of
                     Some (JArr arr) \<Rightarrow>
                       (if length arr \<le> idx then None
                        else if rest = [] then Some (arr ! idx) else poll_json_path_get_raw (arr ! idx) rest)
                   | _ \<Rightarrow> None)
              | _ \<Rightarrow> None)
         | None \<Rightarrow>
             (case v of
                JObj obj \<Rightarrow>
                  (case map_of obj segment of
                     None \<Rightarrow> None
                   | Some child \<Rightarrow> (if rest = [] then Some child else poll_json_path_get_raw child rest))
              | _ \<Rightarrow> None)))"
  by pat_completeness auto
termination
proof -
  have less: "length rest < length path" if "trim_dollar path \<noteq> []" "(segment, rest) = split_segment (trim_dollar path)" for path segment rest
    using length_split_segment [OF that(1)] length_trim_dollar [of path] that(2) [symmetric] by simp
  show ?thesis by (relation "measure (\<lambda>(v, path). length path)") (auto intro: less)
qed

declare poll_json_path_get_raw.simps [simp del]

definition extract_value :: "'n codec \<Rightarrow> ('n \<Rightarrow> string) \<Rightarrow> string \<Rightarrow> string \<Rightarrow> string \<Rightarrow> string option" where
  "extract_value c f body target value_type =
     (if target = ''length'' then
        (case json_unmarshal c body of
           Some (JArr xs) \<Rightarrow> Some (show_nat (length xs)) | Some JNull \<Rightarrow> Some ''0'' | _ \<Rightarrow> None)
      else if has_prefix target ''$'' then
        (case json_unmarshal c body of
           None \<Rightarrow> None
         | Some v0 \<Rightarrow> map_option (\<lambda>raw. if value_type = ''list'' then json_marshal (num_fmt c) raw else poll_to_string f raw)
             (poll_json_path_get_raw v0 target))
      else None)"

section \<open>Polling\<close>

record 'n poll_env =
  pl_codec :: "'n codec"
  pl_num_v :: "'n \<Rightarrow> string"
  pl_profiler :: template_loader
  pl_fetch :: "poll_request \<Rightarrow> poll_reply"
  pl_snap_uuid :: "string \<Rightarrow> string \<Rightarrow> string"   \<comment> \<open>the snapshot's id, by app and entry\<close>
  pl_event_uuid :: "string \<Rightarrow> string \<Rightarrow> string"
  pl_now :: go_time

definition poll_failure_event :: "string \<Rightarrow> go_time \<Rightarrow> app_row \<Rightarrow> api_polling_entry \<Rightarrow> string \<Rightarrow> event" where
  "poll_failure_event uuid now a e reason =
     \<lparr>ev_id = uuid, ev_level = ''warn'', ev_source_name = ap_name a, ev_source_type = ''app'', ev_source_id = ap_id a,
      ev_title = ''API poll failed '' @ em_dash @ '' '' @ pe_label e @ '': '' @ reason,
      ev_payload = ''{'' @ join '','' [json_q ''metric'' (pe_name e), json_q ''path'' (pe_path e), json_q ''reason'' reason] @ ''}'',
      ev_created_at = now\<rparr>"

definition polled_row :: "string \<Rightarrow> go_time \<Rightarrow> app_row \<Rightarrow> api_polling_entry \<Rightarrow> string \<Rightarrow> polled_value" where
  "polled_row uuid now a e v = \<lparr>pv_id = uuid, pv_app_id = ap_id a, pv_profile_id = ap_profile_id a, pv_metric_name = pe_name e,
     pv_label = pe_label e, pv_value = v, pv_value_type = pe_value_type e, pv_polled_at = now\<rparr>"

definition poll_event :: "string \<Rightarrow> go_time \<Rightarrow> app_row \<Rightarrow> api_polling_entry \<Rightarrow> string \<Rightarrow> event" where
  "poll_event uuid now a e v =
     \<lparr>ev_id = uuid, ev_level = ''info'', ev_source_name = ap_name a, ev_source_type = ''app'', ev_source_id = ap_id a,
      ev_title = replace_all ''{value}'' v (replace_all ''{label}'' (pe_label e)
        (if pe_event_message e = [] then ''{label}: {value}'' else pe_event_message e)),
      ev_payload = ''{'' @ join '','' [json_q ''metric'' (pe_name e), json_q ''value'' v, json_q ''label'' (pe_label e)] @ ''}'',
      ev_created_at = now\<rparr>"

text \<open>The error of \<open>http.Client.Do\<close> names the method and the URL it was asked for.\<close>

definition client_error :: "poll_request \<Rightarrow> string \<Rightarrow> string" where
  "client_error q cause = ''Get '' @ go_quote (po_url q) @ '': '' @ cause"

text \<open>What one entry comes to: nothing, a value, or the reason of a failure.\<close>

datatype poll_outcome = PollNothing | PollValue string | PollFailed string

definition entry_outcome :: "'n poll_env \<Rightarrow> poll_request \<Rightarrow> api_polling_entry \<Rightarrow> poll_outcome" where
  "entry_outcome env q e = (case pl_fetch env q of
       BadURL _ \<Rightarrow> PollNothing
     | NoConnection cause \<Rightarrow> PollFailed (''connection error: '' @ client_error q cause)
     | Reply status body \<Rightarrow>
         (if status < 200 \<or> 300 \<le> status then PollFailed (''HTTP '' @ show_int status @ '' from '' @ pe_path e)
          else case body of
              None \<Rightarrow> PollNothing
            | Some b \<Rightarrow> (case extract_value (pl_codec env) (pl_num_v env) b (pe_target e) (pe_value_type e) of
                None \<Rightarrow> PollNothing | Some v \<Rightarrow> PollValue v)))"

definition poll_entry :: "'n poll_env \<Rightarrow> app_row \<Rightarrow> string \<Rightarrow> string \<Rightarrow> poll_auth \<Rightarrow> api_polling_entry \<Rightarrow> db \<Rightarrow> db" where
  "poll_entry env a base key auth e d =
     (let eid = pl_event_uuid env (ap_id a) (pe_name e) in
      case entry_outcome env (poll_request_for base key auth e) e of
        PollNothing \<Rightarrow> d
      | PollFailed reason \<Rightarrow> db_ignore (event_create (poll_failure_event eid (pl_now env) a e reason) d)
      | PollValue v \<Rightarrow>
          (case polled_upsert (polled_row (pl_snap_uuid env (ap_id a) (pe_name e)) (pl_now env) a e v) d of
             (Inl _, d1) \<Rightarrow> d1
           | (Inr _, d1) \<Rightarrow> db_ignore (event_create (poll_event eid (pl_now env) a e v) d1)))"

definition app_config :: "'n codec \<Rightarrow> app_row \<Rightarrow> 'n config" where
  "app_config c a = (case json_unmarshal c (ap_config a) of Some (JObj m) \<Rightarrow> m | _ \<Rightarrow> [])"

definition poll_app :: "'n poll_env \<Rightarrow> app_row \<Rightarrow> api_polling_block \<Rightarrow> db \<Rightarrow> db" where
  "poll_app env a b d =
     (let cfg = app_config (pl_codec env) a in
      fold (poll_entry env a (resolve_api_base_url cfg) (config_str cfg ''api_key'') (resolve_auth cfg b)) (pb_endpoints b) d)"

definition poll_one_app :: "'n poll_env \<Rightarrow> string \<Rightarrow> db \<Rightarrow> (string + unit) \<times> db" where
  "poll_one_app env aid d0 = (case app_get aid d0 of
       (Inl _, d1) \<Rightarrow> (Inl ''get app'', d1)
     | (Inr a, d1) \<Rightarrow>
         (if ap_profile_id a = [] then (Inl (''app has no profile '' @ em_dash @ '' API polling requires a template''), d1)
          else case pl_profiler env (ap_profile_id a) of
              Inr (Some t) \<Rightarrow>
                (if pb_endpoints (at_api_polling t) = []
                 then (Inl (''profile '' @ go_quote (ap_profile_id a) @ '' has no api_polling entries''), d1)
                 else (Inr (), poll_app env a (at_api_polling t) d1))
            | _ \<Rightarrow> (Inl (''template not found for profile '' @ go_quote (ap_profile_id a)), d1)))"

text \<open>\<open>alive a\<close>: the context is not cancelled when the loop reaches app \<open>a\<close>.\<close>

fun poll_apps :: "'n poll_env \<Rightarrow> (app_row \<Rightarrow> bool) \<Rightarrow> app_row list \<Rightarrow> db \<Rightarrow> (string + unit) \<times> db" where
  "poll_apps env alive [] d = (Inr (), d)"
| "poll_apps env alive (a # as) d =
     (if \<not> alive a then (Inl ''context canceled'', d)
      else poll_apps env alive as
        (if ap_profile_id a = [] then d
         else case pl_profiler env (ap_profile_id a) of
             Inr (Some t) \<Rightarrow> (if pb_endpoints (at_api_polling t) = [] then d else poll_app env a (at_api_polling t) d)
           | _ \<Rightarrow> d))"

definition run_api_polling :: "'n poll_env \<Rightarrow> (app_row \<Rightarrow> bool) \<Rightarrow> db \<Rightarrow> (string + unit) \<times> db" where
  "run_api_polling env alive d0 = (case app_list d0 of
       (Inl _, d1) \<Rightarrow> (Inl ''api polling: list apps'', d1) | (Inr as, d1) \<Rightarrow> poll_apps env alive as d1)"

section \<open>Handlers\<close>

text \<open>\<open>available\<close>: the handler was given a store and a template loader.\<close>

definition apps_handler_poll_now :: "'n poll_env \<Rightarrow> bool \<Rightarrow> string \<Rightarrow> db \<Rightarrow> unit response \<times> db" where
  "apps_handler_poll_now env available aid d =
     (if \<not> available then (Failed 503 ''polling not available'', d)
      else case poll_one_app env aid d of (Inl msg, d1) \<Rightarrow> (Failed 400 msg, d1) | (Inr _, d1) \<Rightarrow> (Answer 204 (), d1))"

definition apps_handler_get_metrics :: "bool \<Rightarrow> string \<Rightarrow> db \<Rightarrow> polled_value list response \<times> db" where
  "apps_handler_get_metrics available aid d0 = (case app_get aid d0 of
       (Inl e, d1) \<Rightarrow> (app_failure e, d1)
     | (Inr _, d1) \<Rightarrow> (if \<not> available then (Answer 200 [], d1)
         else case polled_list_by_app aid d1 of (Inl _, d2) \<Rightarrow> (Failed 500 ''database'', d2) | (Inr ps, d2) \<Rightarrow> (Answer 200 ps, d2)))"

section \<open>The poller reads paths as the templates do\<close>

text \<open>C27: The poller's own JSON path walker finds a value exactly where the walker of the template engine does, and the
  same one.\<close>

theorem poller_reads_like_templates:
  "json_path_get fmt v path = map_option (json_to_string fmt) (poll_json_path_get_raw v path)"
proof (induction v path rule: poll_json_path_get_raw.induct)
  case (1 v path)
  obtain seg rest where s: "split_segment (trim_dollar path) = (seg, rest)" by fastforce
  show ?case
    using 1 s
    by (subst json_path_get.simps, subst poll_json_path_get_raw.simps)
      (auto simp: json_child_def Let_def split: option.split json.split prod.split)
qed

section \<open>What a poll stores\<close>

definition app_outcome :: "'n poll_env \<Rightarrow> app_row \<Rightarrow> api_polling_block \<Rightarrow> api_polling_entry \<Rightarrow> poll_outcome" where
  "app_outcome env a b e = (let cfg = app_config (pl_codec env) a in
     entry_outcome env (poll_request_for (resolve_api_base_url cfg) (config_str cfg ''api_key'') (resolve_auth cfg b) e) e)"

definition entry_event :: "'n poll_env \<Rightarrow> app_row \<Rightarrow> api_polling_block \<Rightarrow> api_polling_entry \<Rightarrow> event option" where
  "entry_event env a b e = (let uuid = pl_event_uuid env (ap_id a) (pe_name e) in case app_outcome env a b e of
       PollNothing \<Rightarrow> None
     | PollFailed reason \<Rightarrow> Some (poll_failure_event uuid (pl_now env) a e reason)
     | PollValue v \<Rightarrow> Some (poll_event uuid (pl_now env) a e v))"

definition entry_row :: "'n poll_env \<Rightarrow> app_row \<Rightarrow> api_polling_block \<Rightarrow> api_polling_entry \<Rightarrow> polled_value option" where
  "entry_row env a b e = (case app_outcome env a b e of
       PollValue v \<Rightarrow> Some (polled_row (pl_snap_uuid env (ap_id a) (pe_name e)) (pl_now env) a e v) | _ \<Rightarrow> None)"

lemma poll_events_ok [simp]:
  "event_row_ok (poll_failure_event u now a e r)" "event_row_ok (poll_event u now a e v)"
  "ev_id (poll_failure_event u now a e r) = u" "ev_id (poll_event u now a e v) = u"
  by (simp_all add: poll_failure_event_def poll_event_def event_row_ok_def event_levels_def event_source_types_def)

lemma polled_row_fields [simp]:
  "polled_key (polled_row u now a e v) = (ap_id a, pe_name e)" "pv_id (polled_row u now a e v) = u"
  by (simp_all add: polled_row_def polled_key_def)

lemma filter_fresh_id: "u \<notin> pv_id ` set ps \<Longrightarrow> filter (\<lambda>x. pv_id x \<noteq> u) ps = ps"
  by (auto simp: filter_id_conv)

lemma poll_entry_effect:
  fixes env :: "'n poll_env"
  defines "cfg \<equiv> (\<lambda>a :: app_row. app_config (pl_codec env) a)"
  assumes "d_faults d = []" and "pl_event_uuid env (ap_id a) (pe_name e) \<notin> ev_id ` set (d_events d)"
    and "pl_snap_uuid env (ap_id a) (pe_name e) \<notin> pv_id ` set (d_polled d)"
  shows "poll_entry env a (resolve_api_base_url (cfg a)) (config_str (cfg a) ''api_key'') (resolve_auth (cfg a) b) e d
    = d\<lparr>d_events := d_events d @ (case entry_event env a b e of None \<Rightarrow> [] | Some x \<Rightarrow> [x]),
        d_polled := (case entry_row env a b e of None \<Rightarrow> d_polled d | Some r \<Rightarrow> replace_row polled_key r (d_polled d))\<rparr>"
  using assms(2-)
  by (simp add: cfg_def poll_entry_def app_outcome_def entry_event_def entry_row_def Let_def polled_upsert_def filter_fresh_id
      event_create_def event_insertable_def split: poll_outcome.split)

lemma disjoint_grown: "A \<inter> Y = {} \<Longrightarrow> x \<notin> A \<Longrightarrow> B \<subseteq> insert x Y \<Longrightarrow> A \<inter> B = {}"
  by blast

lemma poll_entries_effect:
  fixes env :: "'n poll_env"
  defines "cfg \<equiv> (\<lambda>a :: app_row. app_config (pl_codec env) a)"
  assumes "d_faults d = []" and "distinct (map pe_name es)"
    and "inj (pl_event_uuid env (ap_id a))" and "inj (pl_snap_uuid env (ap_id a))"
    and "pl_event_uuid env (ap_id a) ` pe_name ` set es \<inter> ev_id ` set (d_events d) = {}"
    and "pl_snap_uuid env (ap_id a) ` pe_name ` set es \<inter> pv_id ` set (d_polled d) = {}"
  shows "fold (poll_entry env a (resolve_api_base_url (cfg a)) (config_str (cfg a) ''api_key'') (resolve_auth (cfg a) b)) es d
    = d\<lparr>d_events := d_events d @ List.map_filter (entry_event env a b) es,
        d_polled := fold (replace_row polled_key) (List.map_filter (entry_row env a b) es) (d_polled d)\<rparr>"
  using assms(2-)
proof (induction es arbitrary: d)
  case Nil
  then show ?case by (simp add: List.map_filter_def)
next
  case (Cons e es)
  let ?d = "d\<lparr>d_events := d_events d @ (case entry_event env a b e of None \<Rightarrow> [] | Some x \<Rightarrow> [x]),
        d_polled := (case entry_row env a b e of None \<Rightarrow> d_polled d | Some r \<Rightarrow> replace_row polled_key r (d_polled d))\<rparr>"
  have one: "poll_entry env a (resolve_api_base_url (cfg a)) (config_str (cfg a) ''api_key'') (resolve_auth (cfg a) b) e d = ?d"
    unfolding cfg_def by (rule poll_entry_effect) (use Cons.prems in auto)
  have ev: "ev_id ` set (d_events ?d) \<subseteq> insert (pl_event_uuid env (ap_id a) (pe_name e)) (ev_id ` set (d_events d))"
    by (auto simp: entry_event_def Let_def split: poll_outcome.split)
  have pv: "pv_id ` set (d_polled ?d) \<subseteq> insert (pl_snap_uuid env (ap_id a) (pe_name e)) (pv_id ` set (d_polled d))"
    by (auto simp: entry_row_def replace_row_def split: poll_outcome.split)
  have new: "pe_name e \<notin> pe_name ` set es" using Cons.prems(2) by simp
  have u: "pl_event_uuid env (ap_id a) (pe_name e) \<notin> pl_event_uuid env (ap_id a) ` pe_name ` set es"
    "pl_snap_uuid env (ap_id a) (pe_name e) \<notin> pl_snap_uuid env (ap_id a) ` pe_name ` set es"
    using new inj_image_mem_iff [OF Cons.prems(3)] inj_image_mem_iff [OF Cons.prems(4)] by simp_all
  have old: "pl_event_uuid env (ap_id a) ` pe_name ` set es \<inter> ev_id ` set (d_events d) = {}"
    "pl_snap_uuid env (ap_id a) ` pe_name ` set es \<inter> pv_id ` set (d_polled d) = {}"
    using Cons.prems(5,6) by simp_all
  note fresh = disjoint_grown [OF old(1) u(1) ev] disjoint_grown [OF old(2) u(2) pv]
  have "d_faults ?d = []" "distinct (map pe_name es)" using Cons.prems(1,2) by simp_all
  then have "fold (poll_entry env a (resolve_api_base_url (cfg a)) (config_str (cfg a) ''api_key'') (resolve_auth (cfg a) b)) es ?d
    = ?d\<lparr>d_events := d_events ?d @ List.map_filter (entry_event env a b) es,
        d_polled := fold (replace_row polled_key) (List.map_filter (entry_row env a b) es) (d_polled ?d)\<rparr>"
    using fresh by (intro Cons.IH Cons.prems(3,4))
  then show ?case using one by (auto simp: List.map_filter_simps split: option.split)
qed

lemma lookup_entry_rows:
  assumes "distinct (map pe_name es)"
  shows "lookup_row polled_key (aid, m) (rev (List.map_filter (entry_row env a b) es))
    = (if aid = ap_id a then Option.bind (List.find (\<lambda>e. pe_name e = m) es) (entry_row env a b) else None)"
  using assms
proof (induction es)
  case Nil
  then show ?case by (simp add: List.map_filter_def lookup_row_def)
next
  case (Cons e es)
  have none: "List.find (\<lambda>x. pe_name x = pe_name e) es = None" using Cons.prems by (simp add: find_None_iff) (metis imageI)
  have key: "polled_key r = (ap_id a, pe_name e)" if "entry_row env a b e = Some r" for r
    using that by (auto simp: entry_row_def split: poll_outcome.splits)
  show ?case
    using Cons none key
    by (cases "entry_row env a b e") (auto simp: List.map_filter_simps lookup_row_append lookup_row_simps split: option.split)
qed

text \<open>C26: Polling an app adds at most one event per entry (its value, or why the request failed), in the order of the
  entries, and leaves for each of its metrics the value just polled or, where the poll brought none, the old one; the
  metrics of other apps are untouched.\<close>

theorem poll_keeps_latest_values:
  assumes "d_faults d = []" and "distinct (map pe_name (pb_endpoints b))"
    and "inj (pl_event_uuid env (ap_id a))" and "inj (pl_snap_uuid env (ap_id a))"
    and "range (pl_event_uuid env (ap_id a)) \<inter> ev_id ` set (d_events d) = {}"
    and "range (pl_snap_uuid env (ap_id a)) \<inter> pv_id ` set (d_polled d) = {}"
  shows "d_events (poll_app env a b d) = d_events d @ List.map_filter (entry_event env a b) (pb_endpoints b)
    \<and> lookup_row polled_key (aid, m) (d_polled (poll_app env a b d))
      = (case (if aid = ap_id a then Option.bind (List.find (\<lambda>e. pe_name e = m) (pb_endpoints b)) (entry_row env a b) else None) of
           Some r \<Rightarrow> Some r | None \<Rightarrow> lookup_row polled_key (aid, m) (d_polled d))"
proof -
  have "poll_app env a b d = d\<lparr>d_events := d_events d @ List.map_filter (entry_event env a b) (pb_endpoints b),
        d_polled := fold (replace_row polled_key) (List.map_filter (entry_row env a b) (pb_endpoints b)) (d_polled d)\<rparr>"
    unfolding poll_app_def Let_def
    by (rule poll_entries_effect [OF assms(1-4)]) (use assms(5,6) in blast)+
  then show ?thesis by (simp add: lookup_replaces lookup_entry_rows [OF assms(2)])
qed

definition sample_entry :: api_polling_entry where
  "sample_entry = \<lparr>pe_path = ''/api/queue'', pe_name = ''queue'', pe_label = ''Queue'', pe_target = ''length'',
     pe_value_type = ''number'', pe_event_message = []\<rparr>"

definition sample_block :: api_polling_block where
  "sample_block = \<lparr>pb_auth_type = ''apikey_query'', pb_auth_header = ''apikey'', pb_endpoints = [sample_entry]\<rparr>"

definition sample_poll :: "poll_reply \<Rightarrow> nat poll_env" where
  "sample_poll reply = \<lparr>pl_codec = \<lparr>json_unmarshal = (\<lambda>s. if s = ''cfg''
       then Some (JObj [(''base_url'', JStr ''http://h/''), (''api_key'', JStr ''s3cret'')])
       else Some (JArr [JNull, JNull])), num_fmt = show_nat\<rparr>,
     pl_num_v = show_nat, pl_profiler = (\<lambda>_. Inr None), pl_fetch = (\<lambda>_. reply), pl_snap_uuid = (\<lambda>_ m. m),
     pl_event_uuid = (\<lambda>_ m. m), pl_now = 7\<rparr>"

definition polled_app :: app_row where
  "polled_app = sample_app\<lparr>ap_config := ''cfg''\<rparr>"

theorem poll_keeps_latest_values_witness:
  "map ev_title (d_events (poll_app (sample_poll (Reply 200 (Some ''[]''))) polled_app sample_block empty_db)) = [''Queue: 2'']
   \<and> map_option pv_value (lookup_row polled_key (''a1'', ''queue'')
        (d_polled (poll_app (sample_poll (Reply 200 (Some ''[]''))) polled_app sample_block empty_db))) = Some ''2''"
proof -
  let ?env = "sample_poll (Reply 200 (Some ''[]''))"
  have p: "d_faults empty_db = []" "distinct (map pe_name (pb_endpoints sample_block))"
    "inj (pl_event_uuid ?env (ap_id polled_app))" "inj (pl_snap_uuid ?env (ap_id polled_app))"
    "range (pl_event_uuid ?env (ap_id polled_app)) \<inter> ev_id ` set (d_events empty_db) = {}"
    "range (pl_snap_uuid ?env (ap_id polled_app)) \<inter> pv_id ` set (d_polled empty_db) = {}"
    by (simp_all add: empty_db_def sample_block_def sample_poll_def inj_def)
  have o: "app_outcome ?env polled_app sample_block sample_entry = PollValue ''2''" by code_simp
  have e: "pb_endpoints sample_block = [sample_entry]" by (simp add: sample_block_def)
  have none: "d_events empty_db = []" by (simp add: empty_db_def)
  have t: "ev_title (poll_event u n polled_app sample_entry ''2'') = ''Queue: 2''" for u n
    unfolding poll_event_def by code_simp
  have i: "ap_id polled_app = ''a1''" "pe_name sample_entry = ''queue''"
    by (simp_all add: polled_app_def sample_app_def sample_entry_def)
  note q = poll_keeps_latest_values [OF p, of "''a1''" "''queue''", unfolded e i none]
  show ?thesis using q o t
    by (simp add: List.map_filter_def entry_event_def entry_row_def i polled_row_def)
qed

text \<open>A request that cannot be sent: the event written for it shows the key of the URL.\<close>

lemma connection_error_shows_key:
  "map ev_title (d_events (poll_app (sample_poll (NoConnection ''dial tcp: refused'')) polled_app sample_block empty_db))
     = [''API poll failed '' @ em_dash @ '' Queue: connection error: Get '' @ go_quote ''http://h/api/queue?apikey=s3cret''
        @ '': dial tcp: refused'']"
  by code_simp

end
