(* ===== verification/DockerApi.thy ===== *)
theory DockerApi
  imports Apps
begin

text \<open>
  The API of discovered containers and routes, internal/api/docker_discovery.go, and what linking one to an app sets up,
  internal/infra/docker_enrichment.go.

  \<open>stable_id\<close> is \<open>StableContainerSourceID\<close>, a name-based UUID (package google/uuid) of engine and container name. Lists
  answer whole rows where the JSON leaves some columns out. A request body that could not be decoded is \<open>None\<close>.
\<close>

section \<open>Lists\<close>

record container_item =
  ci_row :: container
  ci_cpu_percent :: "rat option"
  ci_mem_percent :: "rat option"

text \<open>The first source with metrics gives them.\<close>

fun pick_metrics :: "(string \<Rightarrow> string \<rightharpoonup> rat) \<Rightarrow> string list \<Rightarrow> rat option \<times> rat option" where
  "pick_metrics m [] = (None, None)"
| "pick_metrics m (i # is) =
     (if m i ''cpu_percent'' \<noteq> None \<or> m i ''mem_percent'' \<noteq> None then (m i ''cpu_percent'', m i ''mem_percent'')
      else pick_metrics m is)"

definition metric_sources :: "(string \<Rightarrow> string \<Rightarrow> string) \<Rightarrow> string \<Rightarrow> container \<Rightarrow> string list" where
  "metric_sources stable_id cid c = stable_id cid (dc_container_name c)
     # (case dc_app_id c of Some a \<Rightarrow> if a \<noteq> [] then [a] else [] | None \<Rightarrow> []) @ [dc_container_id c]"

definition container_item_of :: "(string \<Rightarrow> string \<rightharpoonup> rat) \<Rightarrow> string list \<Rightarrow> container \<Rightarrow> container_item" where
  "container_item_of m ids c = (case pick_metrics m ids of (cpu, mem) \<Rightarrow>
     \<lparr>ci_row = c, ci_cpu_percent = cpu, ci_mem_percent = mem\<rparr>)"

definition host_failure :: "db_error \<Rightarrow> 'a response" where
  "host_failure e = (if e = NotFound then Failed 404 ''infrastructure component not found'' else Failed 500 ''database'')"

text \<open>Metrics that cannot be read are left out.\<close>

definition metrics_or_none :: "(string \<Rightarrow> string \<rightharpoonup> rat) db_result \<Rightarrow> (string \<Rightarrow> string \<rightharpoonup> rat) \<times> db" where
  "metrics_or_none r = (case r of (Inl _, d) \<Rightarrow> ((\<lambda>_ _. None), d) | (Inr m, d) \<Rightarrow> (m, d))"

definition docker_handler_list_containers ::
  "(string \<Rightarrow> string \<Rightarrow> string) \<Rightarrow> string \<Rightarrow> db \<Rightarrow> container_item list response \<times> db" where
  "docker_handler_list_containers stable_id cid d0 = (case component_get cid d0 of
       (Inl e, d1) \<Rightarrow> (host_failure e, d1)
     | (Inr _, d1) \<Rightarrow> (case container_list cid d1 of
           (Inl _, d2) \<Rightarrow> (Failed 500 ''database'', d2)
         | (Inr cs, d2) \<Rightarrow>
             (case metrics_or_none (latest_metrics ''docker_container'' (concat (map (metric_sources stable_id cid) cs)) d2) of
                (m, d3) \<Rightarrow> (Answer 200 (map (\<lambda>c. container_item_of m (metric_sources stable_id cid c) c) cs), d3))))"

record route_item =
  ri_row :: route
  ri_container_name :: "string option"

definition container_name_index :: "container list \<Rightarrow> string \<rightharpoonup> string" where
  "container_name_index cs = map_of (rev (map (\<lambda>c. (dc_id c, dc_container_name c)) cs))"

definition build_route_responses :: "route list \<Rightarrow> (string \<rightharpoonup> string) \<Rightarrow> route_item list" where
  "build_route_responses rs names = map (\<lambda>r. \<lparr>ri_row = r,
     ri_container_name = (case rt_container_id r of None \<Rightarrow> None | Some k \<Rightarrow> names k)\<rparr>) rs"

definition names_or_none :: "container list db_result \<Rightarrow> (string \<rightharpoonup> string) \<times> db" where
  "names_or_none r = (case r of (Inl _, d) \<Rightarrow> (container_name_index [], d) | (Inr cs, d) \<Rightarrow> (container_name_index cs, d))"

definition docker_handler_list_routes :: "string \<Rightarrow> db \<Rightarrow> route_item list response \<times> db" where
  "docker_handler_list_routes cid d0 = (case component_get cid d0 of
       (Inl e, d1) \<Rightarrow> (host_failure e, d1)
     | (Inr _, d1) \<Rightarrow> (case route_list cid d1 of
           (Inl _, d2) \<Rightarrow> (Failed 500 ''database'', d2)
         | (Inr rs, d2) \<Rightarrow> (case names_or_none (container_list_all d2) of
               (names, d3) \<Rightarrow> (Answer 200 (build_route_responses rs names), d3))))"

text \<open>Here the metrics are looked up by the Docker id alone.\<close>

definition docker_handler_list_all :: "db \<Rightarrow> (container_item list \<times> route_item list) response \<times> db" where
  "docker_handler_list_all d0 = (case container_list_all d0 of
       (Inl _, d1) \<Rightarrow> (Failed 500 ''database'', d1)
     | (Inr cs, d1) \<Rightarrow> (case metrics_or_none (latest_metrics ''docker_container'' (map dc_container_id cs) d1) of
           (m, d2) \<Rightarrow> (case route_list_all d2 of
               (Inl _, d3) \<Rightarrow> (Failed 500 ''database'', d3)
             | (Inr rs, d3) \<Rightarrow> (Answer 200 (map (\<lambda>c. container_item_of m [dc_container_id c] c) cs,
                 build_route_responses rs (container_name_index cs)), d3))))"

definition docker_handler_list_all_containers :: "db \<Rightarrow> container_item list response \<times> db" where
  "docker_handler_list_all_containers d0 = (case container_list_all d0 of
       (Inl _, d1) \<Rightarrow> (Failed 500 ''database'', d1)
     | (Inr cs, d1) \<Rightarrow> (Answer 200 (map (container_item_of (\<lambda>_ _. None) []) cs), d1))"

definition docker_handler_list_all_routes :: "db \<Rightarrow> route_item list response \<times> db" where
  "docker_handler_list_all_routes d0 = (case route_list_all d0 of
       (Inl _, d1) \<Rightarrow> (Failed 500 ''database'', d1)
     | (Inr rs, d1) \<Rightarrow> (case names_or_none (container_list_all d1) of
           (names, d2) \<Rightarrow> (Answer 200 (build_route_responses rs names), d2)))"

section \<open>Enrichment: docker_enrichment.go\<close>

definition ssl_check_for :: "string \<Rightarrow> go_time \<Rightarrow> string \<Rightarrow> monitor_check" where
  "ssl_check_for uuid now domain = \<lparr>mc_id = uuid, mc_app_id = [], mc_name = ''SSL '' @ em_dash @ '' '' @ domain,
     mc_type = ''ssl'', mc_target = domain, mc_interval_secs = 3600, mc_expected_status = 0, mc_ssl_warn_days = 30,
     mc_ssl_crit_days = 7, mc_source_component_id = None, mc_skip_tls_verify = False, mc_dns_record_type = [],
     mc_dns_expected_value = [], mc_dns_resolver = [], mc_enabled = True, mc_last_checked_at = None,
     mc_last_status = [], mc_last_result = [], mc_created_at = now\<rparr>"

text \<open>\<open>dbnow\<close> is the clock of the repository.\<close>

definition enrich_ssl_check :: "string \<Rightarrow> go_time \<Rightarrow> go_time \<Rightarrow> string \<Rightarrow> db \<Rightarrow> db" where
  "enrich_ssl_check uuid now dbnow rid d0 = (case route_get rid d0 of
       (Inl _, d1) \<Rightarrow> d1
     | (Inr r, d1) \<Rightarrow> (case rt_domain r of
           None \<Rightarrow> d1
         | Some domain \<Rightarrow> (if domain = [] then d1
             else case check_exists_for_type_and_target ''ssl'' domain d1 of
                 (Inl _, d2) \<Rightarrow> d2
               | (Inr yes, d2) \<Rightarrow> (if yes then d2 else db_ignore (check_create dbnow (ssl_check_for uuid now domain) d2)))))"

definition enrich_resource_readings :: "string \<Rightarrow> string \<Rightarrow> db \<Rightarrow> db" where
  "enrich_resource_readings aid kid d0 = (case container_get kid d0 of
       (Inl _, d1) \<Rightarrow> d1
     | (Inr c, d1) \<Rightarrow> db_ignore (reading_backfill_app_id (dc_container_id c) aid d1))"

definition enrich_app_on_link ::
  "string \<Rightarrow> go_time \<Rightarrow> go_time \<Rightarrow> string \<Rightarrow> string option \<Rightarrow> string option \<Rightarrow> db \<Rightarrow> unit db_result" where
  "enrich_app_on_link uuid now dbnow aid container_id route_id d0 = (case app_get aid d0 of
       (Inl e, d1) \<Rightarrow> (Inl e, d1)
     | (Inr a, d1) \<Rightarrow>
         (let d2 = (case route_id of None \<Rightarrow> d1 | Some rid \<Rightarrow> enrich_ssl_check uuid now dbnow rid d1);
              d3 = (case container_id of None \<Rightarrow> d2 | Some kid \<Rightarrow> enrich_resource_readings (ap_id a) kid d2)
          in (Inr (), d3)))"

section \<open>Linking\<close>

record link_request =
  lr_mode :: string
  lr_app_id :: string
  lr_profile_id :: string
  lr_name :: string
  lr_config :: string  \<comment> \<open>empty when absent\<close>

text \<open>What a link needs from outside: templates, fresh ids, the random token, the clocks.\<close>

record link_env =
  lv_profiles :: template_loader
  lv_uuid :: string
  lv_check_uuid :: string
  lv_token :: "string option"
  lv_now :: go_time
  lv_db_now :: go_time

datatype link_answer = LinkedContainer container | LinkedRoute route | CreatedApp app_row

text \<open>Both handlers look an existing app up the same way and create a new one the same way; \<open>link aid\<close> is the statement
  that sets the reference.\<close>

definition link_existing :: "(string \<Rightarrow> db \<Rightarrow> unit db_result) \<Rightarrow> link_request \<Rightarrow> db \<Rightarrow> (nat \<times> string + string) \<times> db" where
  "link_existing link q d0 =
     (if lr_app_id q = [] then (Inl (422, ''app_id is required for mode=existing''), d0)
      else case app_get (lr_app_id q) d0 of
          (Inl e, d1) \<Rightarrow> (Inl (if e = NotFound then (422, ''app_id does not exist'') else (500, ''database'')), d1)
        | (Inr _, d1) \<Rightarrow> (case link (lr_app_id q) d1 of
              (Inl _, d2) \<Rightarrow> (Inl (500, ''database''), d2) | (Inr _, d2) \<Rightarrow> (Inr (lr_app_id q), d2)))"

definition linked_app :: "link_env \<Rightarrow> string \<Rightarrow> link_request \<Rightarrow> app_row" where
  "linked_app env tok q = \<lparr>ap_id = lv_uuid env, ap_name = lr_name q, ap_token = tok, ap_profile_id = lr_profile_id q,
     ap_config = (if lr_config q \<noteq> [] then lr_config q else ''{}''), ap_rate_limit = 100, ap_created_at = lv_now env\<rparr>"

definition link_create ::
  "link_env \<Rightarrow> (string \<Rightarrow> db \<Rightarrow> unit db_result) \<Rightarrow> link_request \<Rightarrow> db \<Rightarrow> (nat \<times> string + app_row) \<times> db" where
  "link_create env link q d0 =
     (if lr_name q = [] then (Inl (422, ''name is required for mode=create''), d0)
      else if lr_profile_id q = [] then (Inl (422, ''profile_id is required for mode=create''), d0)
      else case lv_profiles env (lr_profile_id q) of
        Inr (Some _) \<Rightarrow>
          (case lv_token env of
             None \<Rightarrow> (Inl (500, ''failed to generate token''), d0)
           | Some tok \<Rightarrow> (let a = linked_app env tok q in
               case app_create (lv_db_now env) a d0 of
                 (Inl _, d1) \<Rightarrow> (Inl (500, ''database''), d1)
               | (Inr _, d1) \<Rightarrow> (case link (ap_id a) d1 of
                     (Inl _, d2) \<Rightarrow> (Inl (500, ''database''), db_ignore (app_delete (ap_id a) d2))
                   | (Inr _, d2) \<Rightarrow> (Inr a, d2))))
      | _ \<Rightarrow> (Inl (422, ''profile_id does not exist''), d0))"

definition bad_mode :: string where
  "bad_mode = ''mode must be '' @ [CHR 0x27] @ ''existing'' @ [CHR 0x27] @ '' or '' @ [CHR 0x27] @ ''create'' @ [CHR 0x27]"

definition docker_handler_link_container ::
  "link_env \<Rightarrow> string \<Rightarrow> link_request option \<Rightarrow> db \<Rightarrow> link_answer response \<times> db" where
  "docker_handler_link_container env kid body d0 =
     (let finish = (\<lambda>aid d. db_ignore (enrich_app_on_link (lv_check_uuid env) (lv_now env) (lv_db_now env) aid (Some kid) None
                       (db_ignore (set_parent ''container'' kid ''app'' aid d)))) in
      case container_get kid d0 of
        (Inl e, d1) \<Rightarrow> (if e = NotFound then Failed 404 ''discovered container not found'' else Failed 500 ''database'', d1)
      | (Inr c, d1) \<Rightarrow>
          (case body of
             None \<Rightarrow> (Failed 400 ''invalid request body'', d1)
           | Some q \<Rightarrow>
               (if lr_mode q = ''existing'' then
                  (case link_existing (container_set_app kid) q d1 of
                     (Inl (code, msg), d2) \<Rightarrow> (Failed code msg, d2)
                   | (Inr aid, d2) \<Rightarrow> (Answer 200 (LinkedContainer (c\<lparr>dc_app_id := Some aid\<rparr>)), finish aid d2))
                else if lr_mode q = ''create'' then
                  (case link_create env (container_set_app kid) q d1 of
                     (Inl (code, msg), d2) \<Rightarrow> (Failed code msg, d2)
                   | (Inr a, d2) \<Rightarrow> (Answer 201 (CreatedApp a), finish (ap_id a) d2))
                else (Failed 422 bad_mode, d1))))"

definition docker_handler_link_route ::
  "link_env \<Rightarrow> string \<Rightarrow> link_request option \<Rightarrow> db \<Rightarrow> link_answer response \<times> db" where
  "docker_handler_link_route env rid body d0 =
     (let finish = (\<lambda>aid d. db_ignore (enrich_app_on_link (lv_check_uuid env) (lv_now env) (lv_db_now env) aid None (Some rid) d)) in
      case route_get rid d0 of
        (Inl e, d1) \<Rightarrow> (if e = NotFound then Failed 404 ''discovered route not found'' else Failed 500 ''database'', d1)
      | (Inr r, d1) \<Rightarrow>
          (case body of
             None \<Rightarrow> (Failed 400 ''invalid request body'', d1)
           | Some q \<Rightarrow>
               (if lr_mode q = ''existing'' then
                  (case link_existing (route_set_app rid) q d1 of
                     (Inl (code, msg), d2) \<Rightarrow> (Failed code msg, d2)
                   | (Inr aid, d2) \<Rightarrow> (Answer 200 (LinkedRoute (r\<lparr>rt_app_id := Some aid\<rparr>)), finish aid d2))
                else if lr_mode q = ''create'' then
                  (case link_create env (route_set_app rid) q d1 of
                     (Inl (code, msg), d2) \<Rightarrow> (Failed code msg, d2)
                   | (Inr a, d2) \<Rightarrow> (Answer 201 (CreatedApp a), finish (ap_id a) d2))
                else (Failed 422 bad_mode, d1))))"

section \<open>Get, Delete, Unlink\<close>

definition container_failure :: "db_error \<Rightarrow> 'a response" where
  "container_failure e = (if e = NotFound then Failed 404 ''discovered container not found'' else Failed 500 ''database'')"

definition docker_handler_get_container :: "string \<Rightarrow> db \<Rightarrow> container response \<times> db" where
  "docker_handler_get_container kid d0 = (case container_get kid d0 of
       (Inl e, d1) \<Rightarrow> (container_failure e, d1) | (Inr c, d1) \<Rightarrow> (Answer 200 c, d1))"

definition docker_handler_delete_container :: "string \<Rightarrow> db \<Rightarrow> unit response \<times> db" where
  "docker_handler_delete_container kid d0 = (case container_get kid d0 of
       (Inl e, d1) \<Rightarrow> (container_failure e, d1)
     | (Inr _, d1) \<Rightarrow> (case container_delete kid d1 of
           (Inl _, d2) \<Rightarrow> (Failed 500 ''database'', d2) | (Inr _, d2) \<Rightarrow> (Answer 204 (), d2)))"

definition docker_handler_unlink_container :: "string \<Rightarrow> db \<Rightarrow> unit response \<times> db" where
  "docker_handler_unlink_container kid d0 = (case container_get kid d0 of
       (Inl e, d1) \<Rightarrow> (container_failure e, d1)
     | (Inr c, d1) \<Rightarrow> (case container_clear_app kid d1 of
           (Inl _, d2) \<Rightarrow> (Failed 500 ''database'', d2)
         | (Inr _, d2) \<Rightarrow> (Answer 204 (), (case dc_app_id c of
               None \<Rightarrow> d2 | Some aid \<Rightarrow> db_ignore (remove_parent ''app'' aid d2)))))"

definition docker_handler_unlink_route :: "string \<Rightarrow> db \<Rightarrow> unit response \<times> db" where
  "docker_handler_unlink_route rid d0 = (case route_clear_app rid d0 of
       (Inl e, d1) \<Rightarrow> (if e = NotFound then Failed 404 ''discovered route not found'' else Failed 500 ''database'', d1)
     | (Inr _, d1) \<Rightarrow> (Answer 204 (), d1))"

section \<open>A failed link leaves nothing behind\<close>

text \<open>Equal up to the statements that are still to come.\<close>

definition same_db :: "db \<Rightarrow> db \<Rightarrow> bool" where
  "same_db d d2 = (d2 = d\<lparr>d_faults := d_faults d2\<rparr>)"

lemma same_db_refl [simp]: "same_db d d"
  by (simp add: same_db_def)

lemma same_db_faults [simp]: "same_db d (d\<lparr>d_faults := bs\<rparr>)"
  by (simp add: same_db_def)

lemma same_db_trans: "same_db d d1 \<Longrightarrow> same_db d1 d2 \<Longrightarrow> same_db d d2"
  by (cases d, cases d1, cases d2) (simp add: same_db_def)

definition at_most_one_fault :: "db \<Rightarrow> bool" where
  "at_most_one_fault d = (count_list (d_faults d) True \<le> 1)"

text \<open>A read, whatever it answers.\<close>

lemma db_op_read_same:
  assumes "\<And>d. snd (f d) = d"
  shows "same_db d (snd (db_op f d))" "at_most_one_fault d \<Longrightarrow> at_most_one_fault (snd (db_op f d))"
  using assms by (auto simp: db_op_def at_most_one_fault_def split: list.split)

lemma container_get_same:
  "same_db d (snd (container_get kid d))" "at_most_one_fault d \<Longrightarrow> at_most_one_fault (snd (container_get kid d))"
  unfolding container_get_def by (rule db_op_read_same, simp split: option.split)+

lemma route_get_same:
  "same_db d (snd (route_get rid d))" "at_most_one_fault d \<Longrightarrow> at_most_one_fault (snd (route_get rid d))"
  unfolding route_get_def by (rule db_op_read_same, simp split: option.split)+

lemma app_get_same:
  "same_db d (snd (app_get aid d))" "at_most_one_fault d \<Longrightarrow> at_most_one_fault (snd (app_get aid d))"
  unfolding app_get_def by (rule db_op_read_same, simp split: option.split)+

text \<open>A statement that sets a reference fails without an effect, and where the rows it names exist only by a fault.\<close>

definition clean_link :: "(db \<Rightarrow> bool) \<Rightarrow> (string \<Rightarrow> db \<Rightarrow> unit db_result) \<Rightarrow> bool" where
  "clean_link present link = (\<forall>aid d e d2. link aid d = (Inl e, d2) \<longrightarrow> same_db d d2
     \<and> (present d \<longrightarrow> aid \<in> ap_id ` set (d_apps d) \<longrightarrow> d_faults d = True # d_faults d2))"

lemma container_set_app_clean: "clean_link (\<lambda>d. kid \<in> dc_id ` set (d_containers d)) (container_set_app kid)"
  by (auto simp: clean_link_def container_set_app_def db_op_def split: list.splits if_splits prod.splits sum.splits)

lemma route_set_app_clean: "clean_link (\<lambda>d. rid \<in> rt_id ` set (d_routes d)) (route_set_app rid)"
  by (auto simp: clean_link_def route_set_app_def db_op_def split: list.splits if_splits prod.splits sum.splits)

lemma update_where_absent: "(\<And>x. x \<in> set xs \<Longrightarrow> \<not> P x) \<Longrightarrow> update_where P f xs = xs"
  by (auto simp: update_where_def intro: map_idI)

text \<open>Rolling back a new app, which nothing references yet.\<close>

lemma rollback_new_app:
  assumes "app_refs_ok d" and "ap_id a \<notin> ap_id ` set (d_apps d)" and "ap_id a \<noteq> []" and "True \<notin> set bs"
  shows "same_db d (snd (app_delete (ap_id a) (d\<lparr>d_apps := d_apps d @ [a], d_faults := bs\<rparr>)))"
proof -
  have apps: "filter (\<lambda>x. ap_id x \<noteq> ap_id a) (d_apps d) = d_apps d" using assms(2) by (auto simp: filter_id_conv) (metis imageI)
  note r = assms(1) [unfolded app_refs_ok_def Let_def]
  have gone: "filter (\<lambda>r. ro_app_id r \<noteq> ap_id a) (d_rollups d) = d_rollups d"
    "filter (\<lambda>m. am_app_id m \<noteq> ap_id a) (d_metrics d) = d_metrics d"
    using r assms(2) by (auto simp: filter_id_conv) metis+
  have kept: "update_where (\<lambda>c. mc_app_id c = ap_id a) (\<lambda>c. c\<lparr>mc_app_id := []\<rparr>) (d_checks d) = d_checks d"
    "update_where (\<lambda>c. dc_app_id c = Some (ap_id a)) (\<lambda>c. c\<lparr>dc_app_id := None\<rparr>) (d_containers d) = d_containers d"
    "update_where (\<lambda>r. rt_app_id r = Some (ap_id a)) (\<lambda>r. r\<lparr>rt_app_id := None\<rparr>) (d_routes d) = d_routes d"
    "update_where (\<lambda>r. rd_app_id r = Some (ap_id a)) (\<lambda>r. r\<lparr>rd_app_id := None\<rparr>) (d_readings d) = d_readings d"
    using r assms(2,3) by (auto intro!: update_where_absent) metis+
  show ?thesis
    using assms(4) apps gone kept by (cases bs) (auto simp: app_delete_def db_op_def same_db_def)
qed

lemma app_create_failed: "app_create now a d = (Inl e, d1) \<Longrightarrow> same_db d d1"
  by (auto simp: app_create_def db_op_def split: list.splits if_splits)

lemma app_create_done:
  assumes "app_create now a d = (Inr (), d1)"
  shows "d1 = d\<lparr>d_apps := d_apps d @ [a\<lparr>ap_created_at := now\<rparr>], d_faults := d_faults d1\<rparr> \<and> ap_id a \<notin> ap_id ` set (d_apps d)
    \<and> count_list (d_faults d1) True = count_list (d_faults d) True"
  using assms by (cases d) (auto simp: app_create_def db_op_def split: list.splits if_splits)

lemma link_create_clean:
  assumes "at_most_one_fault d" and "app_refs_ok d" and "clean_link present link" and "present d"
    and "\<And>as bs. present (d\<lparr>d_apps := as, d_faults := bs\<rparr>)" and "lv_uuid env \<noteq> []"
    and "link_create env link q d = (Inl err, d2)"
  shows "same_db d d2"
proof -
  consider "d2 = d" | e tok d1 where "app_create (lv_db_now env) (linked_app env tok q) d = (Inl e, d1)" "d2 = d1"
    | tok d1 e d3 where "app_create (lv_db_now env) (linked_app env tok q) d = (Inr (), d1)"
        "link (lv_uuid env) d1 = (Inl e, d3)" "d2 = snd (app_delete (lv_uuid env) d3)"
    using assms(7)
    by (auto simp: link_create_def Let_def linked_app_def db_ignore_def split: if_splits sum.splits option.splits prod.splits)
  then show ?thesis
  proof cases
    case 1
    then show ?thesis by simp
  next
    case 2
    then show ?thesis using app_create_failed by simp
  next
    case (3 tok d1 e d3)
    let ?a = "(linked_app env tok q)\<lparr>ap_created_at := lv_db_now env\<rparr>"
    have id: "ap_id ?a = lv_uuid env" by (simp add: linked_app_def)
    obtain bs where bs: "d_faults d1 = bs" by blast
    have d1: "d1 = d\<lparr>d_apps := d_apps d @ [?a], d_faults := bs\<rparr>" "lv_uuid env \<notin> ap_id ` set (d_apps d)"
        "count_list bs True \<le> 1"
      using app_create_done [OF 3(1), unfolded bs] assms(1) id by (simp_all add: at_most_one_fault_def)
    have "present d1" unfolding d1(1) by (rule assms(5))
    moreover have "lv_uuid env \<in> ap_id ` set (d_apps d1)" unfolding d1(1) using id by simp
    ultimately have d3: "same_db d1 d3" "d_faults d1 = True # d_faults d3"
      using assms(3) 3(2) unfolding clean_link_def by blast+
    have "True \<notin> set (d_faults d3)" using d3(2) d1(1,3) by (simp add: count_list_0_iff)
    moreover have "d3 = d\<lparr>d_apps := d_apps d @ [?a], d_faults := d_faults d3\<rparr>"
      using d3(1) unfolding same_db_def d1(1) by simp
    ultimately show ?thesis
      using rollback_new_app [OF assms(2), of ?a "d_faults d3"] id d1(2) assms(6) 3(3) by simp
  qed
qed

lemma link_existing_clean:
  assumes "clean_link present link" and "link_existing link q d = (Inl err, d2)"
  shows "same_db d d2"
proof -
  obtain r d1 where g: "app_get (lr_app_id q) d = (r, d1)" by fastforce
  then have "same_db d d1" using app_get_same(1) [of d "lr_app_id q"] by simp
  moreover have "same_db d1 d2" if "link aid d1 = (Inl e, d2)" for aid e
    using assms(1) that unfolding clean_link_def by blast
  ultimately show ?thesis
    using assms(2) g by (auto simp: link_existing_def split: if_splits sum.splits prod.splits intro: same_db_trans)
qed

lemma lookup_row_in: "lookup_row key k xs = Some x \<Longrightarrow> k \<in> key ` set xs"
  using lookup_row_Some [of key k xs x] by auto

text \<open>C23: A request to link a container or a route to an app that fails (any mode, any reason, one database fault at
  most) leaves the database as it was: an app created for it is rolled back.\<close>

theorem link_fails_cleanly:
  assumes "at_most_one_fault d" and "app_refs_ok d" and "lv_uuid env \<noteq> []"
  shows "(docker_handler_link_container env kid body d = (Failed code msg, d2) \<longrightarrow> same_db d d2)
    \<and> (docker_handler_link_route env rid body d = (Failed code msg, d2) \<longrightarrow> same_db d d2)"
proof (intro conjI impI)
  assume h: "docker_handler_link_container env kid body d = (Failed code msg, d2)"
  obtain r d1 where g: "container_get kid d = (r, d1)" by fastforce
  then have d1: "same_db d d1" "at_most_one_fault d1"
    using container_get_same [of d kid] assms(1) by simp_all
  have refs: "app_refs_ok d1" using assms(2) d1(1) unfolding same_db_def by (metis app_refs_blind fault_blind_def)
  have present: "kid \<in> dc_id ` set (d_containers d1)" if "r = Inr c" for c
    using g that d1(1) by (auto simp: container_get_def db_op_def lookup_row_in split: list.splits option.splits if_splits)
  have "same_db d1 d2" if "link_create env (container_set_app kid) q d1 = (Inl err, d2)" "r = Inr c" for q err c
    by (rule link_create_clean [OF d1(2) refs container_set_app_clean present [OF that(2)] _ assms(3) that(1)])
      (use present [OF that(2)] in simp)
  moreover have "same_db d1 d2" if "link_existing (container_set_app kid) q d1 = (Inl err, d2)" for q err
    by (rule link_existing_clean [OF container_set_app_clean that])
  ultimately have "same_db d1 d2"
    using h g by (auto simp: docker_handler_link_container_def Let_def split: sum.splits option.splits if_splits prod.splits)
  then show "same_db d d2" by (rule same_db_trans [OF d1(1)])
next
  assume h: "docker_handler_link_route env rid body d = (Failed code msg, d2)"
  obtain r d1 where g: "route_get rid d = (r, d1)" by fastforce
  then have d1: "same_db d d1" "at_most_one_fault d1"
    using route_get_same [of d rid] assms(1) by simp_all
  have refs: "app_refs_ok d1" using assms(2) d1(1) unfolding same_db_def by (metis app_refs_blind fault_blind_def)
  have present: "rid \<in> rt_id ` set (d_routes d1)" if "r = Inr c" for c
    using g that d1(1) by (auto simp: route_get_def db_op_def lookup_row_in split: list.splits option.splits if_splits)
  have "same_db d1 d2" if "link_create env (route_set_app rid) q d1 = (Inl err, d2)" "r = Inr c" for q err c
    by (rule link_create_clean [OF d1(2) refs route_set_app_clean present [OF that(2)] _ assms(3) that(1)])
      (use present [OF that(2)] in simp)
  moreover have "same_db d1 d2" if "link_existing (route_set_app rid) q d1 = (Inl err, d2)" for q err
    by (rule link_existing_clean [OF route_set_app_clean that])
  ultimately have "same_db d1 d2"
    using h g by (auto simp: docker_handler_link_route_def Let_def split: sum.splits option.splits if_splits prod.splits)
  then show "same_db d d2" by (rule same_db_trans [OF d1(1)])
qed

definition sample_route :: route where
  "sample_route = \<lparr>rt_id = ''r1'', rt_infrastructure_id = ''t1'', rt_router_name = ''sonarr@docker'', rt_rule = [],
     rt_domain = Some ''s.example'', rt_container_id = None, rt_app_id = None, rt_ssl_expiry = None, rt_ssl_issuer = None,
     rt_last_seen_at = 0, rt_created_at = 0, rt_router_status = ''enabled'', rt_provider = None, rt_entry_points = None,
     rt_has_tls_resolver = 0, rt_cert_resolver_name = None, rt_service_name = None, rt_service_status = None,
     rt_service_type = None, rt_servers_total = 0, rt_servers_up = 0, rt_servers_down = 0, rt_servers_json = None\<rparr>"

definition sample_link :: link_env where
  "sample_link = \<lparr>lv_profiles = (\<lambda>_. Inr (Some (sample_template []))), lv_uuid = ''a9'', lv_check_uuid = ''c9'',
     lv_token = Some ''t9'', lv_now = 5, lv_db_now = 5\<rparr>"

definition sample_create :: link_request where
  "sample_create = \<lparr>lr_mode = ''create'', lr_app_id = [], lr_profile_id = ''sonarr'', lr_name = ''Sonarr'', lr_config = []\<rparr>"

definition faulty_db :: "bool list \<Rightarrow> db" where
  "faulty_db faults = empty_db\<lparr>d_routes := [sample_route], d_faults := faults\<rparr>"

text \<open>The statement that sets the reference fails: the app is rolled back.\<close>

theorem link_fails_cleanly_witness:
  "fst (docker_handler_link_route sample_link ''r1'' (Some sample_create) (faulty_db [False, False, True])) = Failed 500 ''database''
   \<and> same_db (faulty_db [False, False, True])
       (snd (docker_handler_link_route sample_link ''r1'' (Some sample_create) (faulty_db [False, False, True])))"
proof -
  let ?r = "docker_handler_link_route sample_link ''r1'' (Some sample_create) (faulty_db [False, False, True])"
  have p: "at_most_one_fault (faulty_db [False, False, True])" "app_refs_ok (faulty_db [False, False, True])" "lv_uuid sample_link \<noteq> []"
    by (simp_all add: at_most_one_fault_def faulty_db_def app_refs_ok_def empty_db_def sample_route_def sample_link_def)
  have f: "fst ?r = Failed 500 ''database''"
    by (simp add: docker_handler_link_route_def route_get_def route_set_app_def link_create_def app_create_def db_op_def faulty_db_def
        empty_db_def lookup_row_def sample_route_def sample_create_def sample_link_def linked_app_def)
  then have "?r = (Failed 500 ''database'', snd ?r)" by (simp add: prod_eq_iff)
  with link_fails_cleanly [OF p] f show ?thesis by blast
qed

text \<open>With two faults the roll-back fails as well and the app stays.\<close>

lemma failed_rollback_keeps_app:
  "map ap_id (d_apps (snd (docker_handler_link_route sample_link ''r1'' (Some sample_create)
     (faulty_db [False, False, True, True])))) = [''a9'']"
  by (simp add: docker_handler_link_route_def route_get_def route_set_app_def link_create_def app_create_def app_delete_def
      db_op_def faulty_db_def empty_db_def lookup_row_def sample_route_def sample_create_def sample_link_def linked_app_def)

section \<open>A linked route has its certificate watched\<close>

definition ssl_checks :: "string \<Rightarrow> db \<Rightarrow> monitor_check list" where
  "ssl_checks domain d = filter (\<lambda>c. mc_type c = ''ssl'' \<and> mc_target c = domain) (d_checks d)"

lemma enrich_ssl_effect:
  assumes "d_faults d = []" and "lookup_row rt_id rid (d_routes d) = Some r" and "rt_domain r = Some domain" and "domain \<noteq> []"
    and "uuid \<notin> mc_id ` set (d_checks d)"
  shows "\<exists>d2. enrich_ssl_check uuid now dbnow rid d = d2 \<and> d_faults d2 = []
    \<and> d_checks d2 = d_checks d @ (if ssl_checks domain d = [] then [new_check_row dbnow (ssl_check_for uuid now domain)] else [])"
proof -
  have "check_insertable d (ssl_check_for uuid now domain)"
    using assms(5) by (simp add: check_insertable_def ssl_check_for_def check_types_def)
  moreover have "mc_app_id (ssl_check_for uuid now domain) = []" by (simp add: ssl_check_for_def)
  ultimately show ?thesis
    using assms
    by (auto simp: enrich_ssl_check_def route_get_def check_exists_for_type_and_target_def check_create_def ssl_checks_def
        filter_empty_conv)
qed

text \<open>C28: Linking a route with a domain to an existing app leaves the domain with a certificate check: a new one if there
  was none, the old ones otherwise; every other check is as before.\<close>

theorem linked_route_is_watched:
  assumes "d_faults d = []" and "lookup_row rt_id rid (d_routes d) = Some r" and "rt_domain r = Some domain" and "domain \<noteq> []"
    and "lr_mode q = ''existing''" and "lr_app_id q \<noteq> []" and "lr_app_id q \<in> ap_id ` set (d_apps d)"
    and "lv_check_uuid env \<notin> mc_id ` set (d_checks d)"
  shows "case docker_handler_link_route env rid (Some q) d of (answer, d2) \<Rightarrow>
    answer = Answer 200 (LinkedRoute (r\<lparr>rt_app_id := Some (lr_app_id q)\<rparr>))
    \<and> d_checks d2 = d_checks d @ (if ssl_checks domain d = []
        then [new_check_row (lv_db_now env) (ssl_check_for (lv_check_uuid env) (lv_now env) domain)] else [])
    \<and> length (ssl_checks domain d2) = max 1 (length (ssl_checks domain d))"
proof -
  have rid: "rid \<in> rt_id ` set (d_routes d)" by (rule lookup_row_in [OF assms(2)])
  obtain a where a: "lookup_row ap_id (lr_app_id q) (d_apps d) = Some a"
    using assms(7) lookup_row_None [of ap_id "lr_app_id q" "d_apps d"] by (cases "lookup_row ap_id (lr_app_id q) (d_apps d)") auto
  obtain d1 where d1: "route_set_app rid (lr_app_id q) d = (Inr (), d1)" "d_faults d1 = []" "d_checks d1 = d_checks d" "d_apps d1 = d_apps d"
      "d_routes d1 = update_where (\<lambda>r. rt_id r = rid) (\<lambda>r. r\<lparr>rt_app_id := Some (lr_app_id q)\<rparr>) (d_routes d)"
    using assms(1,7) rid by (simp add: route_set_app_def route_set_def link_insert_ignore_def)
  have r1: "lookup_row rt_id rid (d_routes d1) = Some (r\<lparr>rt_app_id := Some (lr_app_id q)\<rparr>)"
    using assms(2) lookup_row_Some [OF assms(2)] by (simp add: d1(5) lookup_row_update_where)
  have dom: "rt_domain (r\<lparr>rt_app_id := Some (lr_app_id q)\<rparr>) = Some domain" using assms(3) by simp
  have fresh: "lv_check_uuid env \<notin> mc_id ` set (d_checks d1)" using assms(8) d1(3) by simp
  obtain d2 where d2: "enrich_ssl_check (lv_check_uuid env) (lv_now env) (lv_db_now env) rid d1 = d2" "d_faults d2 = []"
      "d_checks d2 = d_checks d1 @ (if ssl_checks domain d1 = []
        then [new_check_row (lv_db_now env) (ssl_check_for (lv_check_uuid env) (lv_now env) domain)] else [])"
    using enrich_ssl_effect [OF d1(2) r1 dom assms(4) fresh] by blast
  have same: "ssl_checks domain d1 = ssl_checks domain d" by (simp add: ssl_checks_def d1(3))
  have handler: "docker_handler_link_route env rid (Some q) d
      = (Answer 200 (LinkedRoute (r\<lparr>rt_app_id := Some (lr_app_id q)\<rparr>)), d2)"
    using assms(1,2,5,6) a d1 d2(1)
    by (simp add: docker_handler_link_route_def route_get_def link_existing_def app_get_def enrich_app_on_link_def)
  have "length (ssl_checks domain d2) = max 1 (length (ssl_checks domain d))"
    using same by (auto simp: ssl_checks_def d2(3) d1(3) new_check_row_def ssl_check_for_def Suc_le_eq max_def)
  then show ?thesis using handler d2(3) d1(3) same by simp
qed

theorem linked_route_is_watched_witness:
  "length (ssl_checks ''s.example'' (snd (docker_handler_link_route sample_link ''r1''
     (Some \<lparr>lr_mode = ''existing'', lr_app_id = ''a1'', lr_profile_id = [], lr_name = [], lr_config = []\<rparr>)
     (faulty_db []\<lparr>d_apps := [sample_app]\<rparr>)))) = 1"
proof -
  let ?d = "faulty_db []\<lparr>d_apps := [sample_app]\<rparr>"
  let ?q = "\<lparr>lr_mode = ''existing'', lr_app_id = ''a1'', lr_profile_id = [], lr_name = [], lr_config = []\<rparr>"
  have p: "d_faults ?d = []" "lookup_row rt_id ''r1'' (d_routes ?d) = Some sample_route" "rt_domain sample_route = Some ''s.example''"
    "''s.example'' \<noteq> []" "lr_mode ?q = ''existing''" "lr_app_id ?q \<noteq> []" "lr_app_id ?q \<in> ap_id ` set (d_apps ?d)"
    "lv_check_uuid sample_link \<notin> mc_id ` set (d_checks ?d)"
    by (simp_all add: faulty_db_def empty_db_def sample_route_def lookup_row_def sample_app_def)
  have "ssl_checks ''s.example'' ?d = []" by (simp add: ssl_checks_def faulty_db_def empty_db_def)
  then show ?thesis using linked_route_is_watched [OF p] by (auto simp: case_prod_unfold)
qed

section \<open>Readings are stored under other ids\<close>

text \<open>The backfill looks for readings under the Docker id; the poller stores none under it.\<close>

lemma backfill_misses_stable_ids:
  assumes "d_faults d = []" and "lookup_row dc_id kid (d_containers d) = Some c"
    and "\<forall>r \<in> set (d_readings d). rd_source_id r \<noteq> dc_container_id c"
  shows "enrich_resource_readings aid kid d = d"
proof -
  let ?P = "\<lambda>r. rd_source_type r = ''docker_container'' \<and> rd_source_id r = dc_container_id c \<and> rd_app_id r = None"
  have n: "filter ?P (d_readings d) = []" "update_where ?P f (d_readings d) = d_readings d" for f
    using assms(3) by (auto simp: filter_empty_conv intro!: update_where_absent)
  show ?thesis
    using assms(1,2) n
    by (cases "aid \<in> ap_id ` set (d_apps d)")
      (simp_all add: enrich_resource_readings_def container_get_def reading_backfill_app_id_def)
qed

end
