(* ===== verification/ContainerMetrics.thy ===== *)
theory ContainerMetrics
  imports Rollups Components Ingest "HOL-Library.Word"
begin

text \<open>
  Readings of containers: internal/scanner/metrics/docker_metrics.go and \<open>writeReading\<close> of events.go in the same package.

  The Docker daemon is a record: what \<open>ContainerList\<close> and \<open>ContainerStats\<close> answer in this poll. Byte and tick counters are
  64-bit words; float64 values are rationals. \<open>re_stable_id\<close> is \<open>StableContainerSourceID\<close> (a name-based UUID). The poller
  remembers a level per container and metric and writes an event on a change: an instance of the locale
  \<open>transition_detector\<close>, extended here by the pruning of keys.
\<close>

section \<open>Writing readings\<close>

definition reading_row :: "string \<Rightarrow> go_time \<Rightarrow> string \<Rightarrow> string \<Rightarrow> string \<Rightarrow> rat \<Rightarrow> resource_reading" where
  "reading_row uuid now source source_type metric v =
     \<lparr>rd_id = uuid, rd_source_id = source, rd_source_type = source_type, rd_metric = metric, rd_value = v,
      rd_recorded_at = now, rd_app_id = None\<rparr>"

definition write_reading :: "string \<Rightarrow> go_time \<Rightarrow> string \<Rightarrow> string \<Rightarrow> string \<Rightarrow> rat \<Rightarrow> db \<Rightarrow> db" where
  "write_reading uuid now source source_type metric v d =
     db_ignore (reading_create (reading_row uuid now source source_type metric v) d)"

text \<open>A loop over (metric, value) pairs, each with a fresh id.\<close>

fun write_readings ::
  "(string \<Rightarrow> string) \<Rightarrow> go_time \<Rightarrow> string \<Rightarrow> string \<Rightarrow> (string \<times> rat) list \<Rightarrow> db \<Rightarrow> db" where
  "write_readings uuid now source source_type [] d = d"
| "write_readings uuid now source source_type ((m, v) # ms) d =
     write_readings uuid now source source_type ms (write_reading (uuid m) now source source_type m v d)"

abbreviation reading_rows :: "(string \<Rightarrow> string) \<Rightarrow> go_time \<Rightarrow> string \<Rightarrow> string \<Rightarrow> (string \<times> rat) list \<Rightarrow> resource_reading list" where
  "reading_rows uuid now source source_type ms \<equiv> map (\<lambda>(m, v). reading_row (uuid m) now source source_type m v) ms"

text \<open>New ids, given in one batch.\<close>

definition fresh_ids :: "string list \<Rightarrow> string set \<Rightarrow> bool" where
  "fresh_ids xs used = (distinct xs \<and> set xs \<inter> used = {})"

lemma fresh_ids_append [simp]:
  "fresh_ids (xs @ ys) used \<longleftrightarrow> fresh_ids xs used \<and> fresh_ids ys (used \<union> set xs)"
  by (auto simp: fresh_ids_def)

lemma fresh_ids_Cons: "fresh_ids (x # xs) used \<longleftrightarrow> x \<notin> used \<and> fresh_ids xs (insert x used)"
  by (auto simp: fresh_ids_def)

lemma fresh_ids_Nil [simp]: "fresh_ids [] used"
  by (simp add: fresh_ids_def)

lemma reading_row_fields [simp]:
  "rd_id (reading_row i now s t m v) = i" "rd_source_type (reading_row i now s t m v) = t"
  "rd_app_id (reading_row i now s t m v) = None"
  by (simp_all add: reading_row_def)

lemma write_readings_no_fault:
  assumes "d_faults d = []" and "source_type \<in> set resource_source_types"
    and "fresh_ids (map (\<lambda>p. uuid (fst p)) ms) (rd_id ` set (d_readings d))"
  shows "write_readings uuid now source source_type ms d
    = d\<lparr>d_readings := d_readings d @ reading_rows uuid now source source_type ms\<rparr>"
  using assms
proof (induction ms arbitrary: d)
  case (Cons p ms)
  obtain m v where p: "p = (m, v)" by fastforce
  have one: "write_reading (uuid m) now source source_type m v d
      = d\<lparr>d_readings := d_readings d @ [reading_row (uuid m) now source source_type m v]\<rparr>"
    using Cons.prems by (simp add: p write_reading_def reading_create_def fresh_ids_Cons reading_row_def)
  show ?case
    using Cons.prems by (subst p, simp only: write_readings.simps one, subst Cons.IH) (simp_all add: p fresh_ids_Cons)
qed simp

text \<open>A reading of a source type the table does not list is lost.\<close>

lemma unlisted_type_writes_nothing:
  "d_faults d = [] \<Longrightarrow> source_type \<notin> set resource_source_types \<Longrightarrow> write_readings uuid now source source_type ms d = d"
  by (induction ms) (auto simp: write_reading_def reading_create_def)

section \<open>Levels of a container\<close>

definition threshold_for :: "rat \<Rightarrow> threshold_level" where
  "threshold_for pct = (if pct > 95 then LevelError else if pct > 80 then LevelWarn else LevelNormal)"

record container_levels =
  cv_cpu :: threshold_level
  cv_mem :: threshold_level

definition no_levels :: container_levels where
  "no_levels = \<lparr>cv_cpu = LevelNormal, cv_mem = LevelNormal\<rparr>"

type_synonym level_states = "string \<rightharpoonup> container_levels"

definition levels_of :: "rat \<times> rat \<Rightarrow> container_levels" where
  "levels_of v = \<lparr>cv_cpu = threshold_for (fst v), cv_mem = threshold_for (snd v)\<rparr>"

record alarm =
  al_metric :: string
  al_from :: threshold_level
  al_to :: threshold_level

definition level_alarms :: "container_levels option \<Rightarrow> container_levels \<Rightarrow> alarm list" where
  "level_alarms before new =
     (let prev = (case before of Some l \<Rightarrow> l | None \<Rightarrow> no_levels) in
      (if cv_cpu new \<noteq> cv_cpu prev then [\<lparr>al_metric = ''CPU'', al_from = cv_cpu prev, al_to = cv_cpu new\<rparr>] else [])
      @ (if cv_mem new \<noteq> cv_mem prev then [\<lparr>al_metric = ''Memory'', al_from = cv_mem prev, al_to = cv_mem new\<rparr>] else []))"

definition level_step :: "string \<Rightarrow> container_levels \<Rightarrow> level_states \<Rightarrow> alarm list \<times> level_states" where
  "level_step cid new st = (level_alarms (st cid) new, st(cid \<mapsto> new))"

interpretation level_detector: transition_detector level_step level_alarms
  by unfold_locales (simp_all add: level_step_def)

definition alarm_severity :: "threshold_level \<Rightarrow> string" where
  "alarm_severity l = (case l of LevelError \<Rightarrow> ''error'' | LevelWarn \<Rightarrow> ''warn'' | LevelNormal \<Rightarrow> ''info'')"

definition level_name :: "threshold_level \<Rightarrow> string" where
  "level_name l = (case l of LevelWarn \<Rightarrow> ''warn'' | LevelError \<Rightarrow> ''error'' | LevelNormal \<Rightarrow> [])"

definition alarm_title :: "string \<Rightarrow> rat \<Rightarrow> alarm \<Rightarrow> string" where
  "alarm_title name pct a = (case al_to a of
       LevelNormal \<Rightarrow> al_metric a @ '' recovered '' @ em_dash @ '' '' @ name @ '': '' @ format_fixed 1 pct
         @ ''% (was '' @ level_name (al_from a) @ '')''
     | _ \<Rightarrow> ''High '' @ al_metric a @ '' '' @ em_dash @ '' '' @ name @ '': '' @ format_fixed 1 pct @ ''%'')"

definition alarm_event :: "string \<Rightarrow> go_time \<Rightarrow> string \<Rightarrow> string \<Rightarrow> rat \<Rightarrow> alarm \<Rightarrow> event" where
  "alarm_event uuid now app_id name pct a =
     \<lparr>ev_id = uuid, ev_level = alarm_severity (al_to a), ev_source_name = name,
      ev_source_type = (if app_id \<noteq> [] then ''app'' else ''docker_engine''), ev_source_id = app_id,
      ev_title = alarm_title name pct a,
      ev_payload = ''{'' @ json_quote ''source_type'' @ '':'' @ json_quote ''docker_container'' @ '',''
        @ json_quote ''metric'' @ '':'' @ json_quote (to_lower (al_metric a)) @ '','' @ json_quote ''value'' @ '':''
        @ format_fixed 2 pct @ ''}'',
      ev_created_at = now\<rparr>"

section \<open>One container\<close>

record container_stats =
  st_name :: string
  st_cpu_total :: "64 word"
  st_cpu_total_before :: "64 word"
  st_system :: "64 word"
  st_system_before :: "64 word"
  st_percpu_len :: nat
  st_online_cpus :: nat
  st_mem_usage :: "64 word"
  st_mem_limit :: "64 word"

definition float_of :: "64 word \<Rightarrow> rat" where
  "float_of w = of_nat (unat w)"

definition calculate_cpu_percent ::
  "64 word \<Rightarrow> 64 word \<Rightarrow> 64 word \<Rightarrow> 64 word \<Rightarrow> nat \<Rightarrow> nat \<Rightarrow> rat" where
  "calculate_cpu_percent all all_before system system_before percpu_len online_cpus =
     (let cpu_delta = float_of all - float_of all_before;
          system_delta = float_of system - float_of system_before;
          cpus = (if percpu_len = 0 then online_cpus else percpu_len) in
      if system_delta \<le> 0 \<or> cpu_delta < 0 \<or> cpus = 0 then 0
      else cpu_delta / system_delta * of_nat cpus * 100)"

definition calculate_mem_percent :: "64 word \<Rightarrow> 64 word \<Rightarrow> rat" where
  "calculate_mem_percent usage limit = (if limit = 0 then 0 else float_of usage / float_of limit * 100)"

definition stats_cpu :: "container_stats \<Rightarrow> rat" where
  "stats_cpu s = calculate_cpu_percent (st_cpu_total s) (st_cpu_total_before s) (st_system s) (st_system_before s)
     (st_percpu_len s) (st_online_cpus s)"

definition stats_mem :: "container_stats \<Rightarrow> rat" where
  "stats_mem s = calculate_mem_percent (st_mem_usage s) (st_mem_limit s)"

record listed_container =
  li_id :: string
  li_names :: "string list"

text \<open>The engine, the clock and fresh ids, and the daemon: \<open>ContainerStats\<close> with its decoding (\<open>Inl\<close> the error).\<close>

record resource_env =
  re_engine_id :: string
  re_stable_id :: "string \<Rightarrow> string \<Rightarrow> string"
  re_now :: go_time
  re_reading_uuid :: "string \<Rightarrow> string \<Rightarrow> string"
  re_event_uuid :: "string \<Rightarrow> string \<Rightarrow> string"
  re_stats :: "string \<Rightarrow> string + container_stats"

definition reading_source :: "resource_env \<Rightarrow> string \<Rightarrow> container_stats \<Rightarrow> string" where
  "reading_source env app_id s =
     (if app_id \<noteq> [] then app_id else re_stable_id env (re_engine_id env) (trim_prefix (st_name s) ''/''))"

definition display_name :: "string \<Rightarrow> container_stats \<Rightarrow> string" where
  "display_name cid s = (let name = trim_prefix (st_name s) ''/'' in if name = [] then take 12 cid else name)"

definition stats_metrics :: "container_stats \<Rightarrow> (string \<times> rat) list" where
  "stats_metrics s = [(''cpu_percent'', stats_cpu s), (''mem_percent'', stats_mem s), (''mem_bytes'', float_of (st_mem_usage s))]"

definition container_alarm :: "resource_env \<Rightarrow> string \<Rightarrow> string \<Rightarrow> string \<Rightarrow> rat \<times> rat \<Rightarrow> alarm \<Rightarrow> event" where
  "container_alarm env cid app_id name v a =
     alarm_event (re_event_uuid env cid (al_metric a)) (re_now env) app_id name (if al_metric a = ''CPU'' then fst v else snd v) a"

definition check_thresholds ::
  "resource_env \<Rightarrow> string \<Rightarrow> string \<Rightarrow> string \<Rightarrow> rat \<times> rat \<Rightarrow> level_states \<Rightarrow> db \<Rightarrow> level_states \<times> db" where
  "check_thresholds env cid app_id name v st d = (case level_step cid (levels_of v) st of (alarms, st2) \<Rightarrow>
     (st2, post_all event_create (map (container_alarm env cid app_id name v) alarms) d))"

definition poll_container ::
  "resource_env \<Rightarrow> string \<Rightarrow> string \<Rightarrow> level_states \<Rightarrow> db \<Rightarrow> string option \<times> level_states \<times> db" where
  "poll_container env cid app_id st d = (case re_stats env cid of
       Inl err \<Rightarrow> (Some err, st, d)
     | Inr s \<Rightarrow>
         (case check_thresholds env cid app_id (display_name cid s) (stats_cpu s, stats_mem s) st
              (write_readings (re_reading_uuid env cid) (re_now env) (reading_source env app_id s) ''docker_container''
                 (stats_metrics s) d) of
            (st2, d2) \<Rightarrow> (None, st2, d2)))"

section \<open>All containers\<close>

definition app_by_name :: "app_row list \<Rightarrow> string \<rightharpoonup> string" where
  "app_by_name apps = foldl (\<lambda>m a. m(to_lower (ap_name a) \<mapsto> ap_id a)) Map.empty apps"

definition app_of_names :: "(string \<rightharpoonup> string) \<Rightarrow> string list \<Rightarrow> string" where
  "app_of_names by_name names =
     (case List.map_filter (\<lambda>n. by_name (to_lower (trim_prefix n ''/''))) names of [] \<Rightarrow> [] | aid # _ \<Rightarrow> aid)"

definition resolve_app_ids :: "listed_container list \<Rightarrow> db \<Rightarrow> (string \<Rightarrow> string) \<times> db" where
  "resolve_app_ids cs d0 = (case app_list d0 of
       (Inl _, d1) \<Rightarrow> (\<lambda>_. [], d1)
     | (Inr apps, d1) \<Rightarrow> (foldl (\<lambda>m c. let aid = app_of_names (app_by_name apps) (li_names c) in
             if aid = [] then m else m(li_id c := aid)) (\<lambda>_. []) cs, d1))"

fun poll_containers ::
  "resource_env \<Rightarrow> (string \<Rightarrow> string) \<Rightarrow> listed_container list \<Rightarrow> level_states \<Rightarrow> db \<Rightarrow> level_states \<times> db" where
  "poll_containers env app_ids [] st d = (st, d)"
| "poll_containers env app_ids (c # cs) st d =
     (case poll_container env (li_id c) (app_ids (li_id c)) st d of (_, st2, d2) \<Rightarrow> poll_containers env app_ids cs st2 d2)"

definition prune_levels :: "listed_container list \<Rightarrow> level_states \<Rightarrow> level_states" where
  "prune_levels cs st = (\<lambda>cid. if cid \<in> li_id ` set cs then st cid else None)"

definition resource_poll_all ::
  "resource_env \<Rightarrow> listed_container list option \<Rightarrow> level_states \<Rightarrow> db \<Rightarrow> level_states \<times> db" where
  "resource_poll_all env listing st d = (case listing of
       None \<Rightarrow> (st, d)
     | Some cs \<Rightarrow> (case resolve_app_ids cs d of (app_ids, d1) \<Rightarrow> poll_containers env app_ids cs (prune_levels cs st) d1))"


section \<open>The alarms of a container\<close>

lemma write_readings_keeps:
  assumes "d_faults d = []"
  shows "d_faults (write_readings uuid now s t ms d) = [] \<and> d_events (write_readings uuid now s t ms d) = d_events d
    \<and> d_apps (write_readings uuid now s t ms d) = d_apps d"
  using assms
proof (induction ms arbitrary: d)
  case (Cons p ms)
  have "d_faults (write_reading i now s t m v d) = [] \<and> d_events (write_reading i now s t m v d) = d_events d
      \<and> d_apps (write_reading i now s t m v d) = d_apps d" for i m v
    using Cons.prems by (simp add: write_reading_def reading_create_def)
  then show ?case using Cons.IH by (cases p) simp
qed simp

text \<open>What the polls of one daemon after the other raise: the event id, the container and the alarm.\<close>

type_synonym resource_tick = "resource_env \<times> listed_container list option"

definition container_levels_now :: "resource_env \<Rightarrow> string \<Rightarrow> container_levels option" where
  "container_levels_now env cid = (case re_stats env cid of Inl _ \<Rightarrow> None | Inr s \<Rightarrow> Some (levels_of (stats_cpu s, stats_mem s)))"

fun tick_alarms :: "resource_env \<Rightarrow> listed_container list \<Rightarrow> level_states \<Rightarrow> (string \<times> string \<times> alarm) list" where
  "tick_alarms env [] st = []"
| "tick_alarms env (c # cs) st = (case container_levels_now env (li_id c) of
       None \<Rightarrow> tick_alarms env cs st
     | Some l \<Rightarrow> map (\<lambda>a. (re_event_uuid env (li_id c) (al_metric a), li_id c, a)) (level_alarms (st (li_id c)) l)
         @ tick_alarms env cs (st(li_id c \<mapsto> l)))"

fun levels_after :: "resource_env \<Rightarrow> listed_container list \<Rightarrow> level_states \<Rightarrow> level_states" where
  "levels_after env [] st = st"
| "levels_after env (c # cs) st = levels_after env cs (case container_levels_now env (li_id c) of
       None \<Rightarrow> st | Some l \<Rightarrow> st(li_id c \<mapsto> l))"

fun run_alarms :: "resource_tick list \<Rightarrow> level_states \<Rightarrow> (string \<times> string \<times> alarm) list" where
  "run_alarms [] st = []"
| "run_alarms ((env, None) # ts) st = run_alarms ts st"
| "run_alarms ((env, Some cs) # ts) st =
     tick_alarms env cs (prune_levels cs st) @ run_alarms ts (levels_after env cs (prune_levels cs st))"

fun run_resource_polls :: "resource_tick list \<Rightarrow> level_states \<Rightarrow> db \<Rightarrow> level_states \<times> db" where
  "run_resource_polls [] st d = (st, d)"
| "run_resource_polls ((env, listing) # ts) st d =
     (case resource_poll_all env listing st d of (st2, d2) \<Rightarrow> run_resource_polls ts st2 d2)"

text \<open>What one container shows: \<open>None\<close> when a poll does not list it, its levels when a poll reads them.\<close>

definition own_levels :: "string \<Rightarrow> resource_tick \<Rightarrow> container_levels option list" where
  "own_levels cid t = (case t of (env, listing) \<Rightarrow> (case listing of
       None \<Rightarrow> []
     | Some cs \<Rightarrow> (if cid \<notin> li_id ` set cs then [None]
         else case container_levels_now env cid of None \<Rightarrow> [] | Some l \<Rightarrow> [Some l])))"

fun alarms_along :: "container_levels option \<Rightarrow> container_levels option list \<Rightarrow> alarm list" where
  "alarms_along prev [] = []"
| "alarms_along prev (None # ls) = alarms_along None ls"
| "alarms_along prev (Some l # ls) = level_alarms prev l @ alarms_along (Some l) ls"

lemma levels_after_at:
  "distinct (map li_id cs) \<Longrightarrow> levels_after env cs st cid
     = (if cid \<in> li_id ` set cs then (case container_levels_now env cid of None \<Rightarrow> st cid | Some l \<Rightarrow> Some l) else st cid)"
  by (induction cs arbitrary: st) (auto split: option.split)

lemma filter_own: "filter (\<lambda>(u, c, a). c = cid) (map (\<lambda>a. (f a, k, a)) as) = (if k = cid then map (\<lambda>a. (f a, k, a)) as else [])"
  by (induction as) auto

lemma tick_alarms_own:
  "distinct (map li_id cs) \<Longrightarrow> map (\<lambda>(u, c, a). a) (filter (\<lambda>(u, c, a). c = cid) (tick_alarms env cs st))
     = (if cid \<in> li_id ` set cs then (case container_levels_now env cid of None \<Rightarrow> [] | Some l \<Rightarrow> level_alarms (st cid) l) else [])"
proof (induction cs arbitrary: st)
  case (Cons c cs)
  then show ?case
    by (cases "container_levels_now env (li_id c)"; cases "li_id c = cid") (auto simp: filter_own comp_def split: option.split)
qed simp

definition tick_distinct :: "resource_tick \<Rightarrow> bool" where
  "tick_distinct t = (case snd t of None \<Rightarrow> True | Some cs \<Rightarrow> distinct (map li_id cs))"

lemma run_alarms_own:
  "list_all tick_distinct ts \<Longrightarrow> map (\<lambda>(u, c, a). a) (filter (\<lambda>(u, c, a). c = cid) (run_alarms ts st))
     = alarms_along (st cid) (concat (map (own_levels cid) ts))"
proof (induction ts st rule: run_alarms.induct)
  case (3 env cs ts st)
  have d: "distinct (map li_id cs)" using "3.prems" by (simp add: tick_distinct_def)
  have ih: "map (\<lambda>(u, c, a). a) (filter (\<lambda>(u, c, a). c = cid) (run_alarms ts (levels_after env cs (prune_levels cs st))))
      = alarms_along (levels_after env cs (prune_levels cs st) cid) (concat (map (own_levels cid) ts))"
    using 3 by simp
  have at: "prune_levels cs st cid = (if cid \<in> li_id ` set cs then st cid else None)" by (simp add: prune_levels_def)
  have own: "own_levels cid (env, Some cs) = (if cid \<notin> li_id ` set cs then [None]
      else case container_levels_now env cid of None \<Rightarrow> [] | Some l \<Rightarrow> [Some l])"
    by (simp add: own_levels_def)
  show ?case
    by (cases "container_levels_now env cid"; cases "cid \<in> li_id ` set cs")
      (simp_all add: ih own tick_alarms_own [OF d] levels_after_at [OF d] at)
qed (auto simp: own_levels_def)

lemma alarm_event_row_ok: "event_row_ok (alarm_event i now aid name pct a)"
  by (cases "al_to a") (simp_all add: event_row_ok_def alarm_event_def alarm_severity_def event_levels_def event_source_types_def)

lemma post_all_fresh:
  assumes "d_faults d = []" and "list_all event_row_ok es" and "fresh_ids (map ev_id es) (ev_id ` set (d_events d))"
  shows "post_all event_create es d = d\<lparr>d_events := d_events d @ es\<rparr>"
  using assms
proof (induction es arbitrary: d)
  case Nil
  then show ?case by (simp add: post_all_def)
next
  case (Cons e es)
  have one: "snd (event_create e d) = d\<lparr>d_events := d_events d @ [e]\<rparr>"
    using Cons.prems by (simp add: event_create_no_fault event_insertable_def fresh_ids_Cons)
  have "post_all event_create (e # es) d = post_all event_create es (snd (event_create e d))" by (simp add: post_all_def)
  also have "\<dots> = d\<lparr>d_events := d_events d @ e # es\<rparr>"
    unfolding one by (subst Cons.IH) (use Cons.prems in \<open>simp_all add: fresh_ids_Cons\<close>)
  finally show ?case .
qed

lemma container_alarm_id [simp]: "ev_id (container_alarm env cid aid name v a) = re_event_uuid env cid (al_metric a)"
  by (simp add: container_alarm_def alarm_event_def)

lemma poll_containers_events:
  assumes "d_faults d = []" and "fresh_ids (map fst (tick_alarms env cs st)) (ev_id ` set (d_events d))"
  shows "\<exists>es d2. poll_containers env aids cs st d = (levels_after env cs st, d2) \<and> d_faults d2 = [] \<and> d_events d2 = d_events d @ es
    \<and> map ev_id es = map fst (tick_alarms env cs st)
    \<and> map ev_level es = map (\<lambda>(u, c, a). alarm_severity (al_to a)) (tick_alarms env cs st)"
  using assms
proof (induction cs arbitrary: st d)
  case (Cons c cs)
  show ?case
  proof (cases "re_stats env (li_id c)")
    case (Inl err)
    then show ?thesis using Cons by (simp add: poll_container_def container_levels_now_def)
  next
    case (Inr s)
    let ?l = "levels_of (stats_cpu s, stats_mem s)"
    let ?w = "write_readings (re_reading_uuid env (li_id c)) (re_now env) (reading_source env (aids (li_id c)) s)
      ''docker_container'' (stats_metrics s) d"
    let ?new = "map (container_alarm env (li_id c) (aids (li_id c)) (display_name (li_id c) s) (stats_cpu s, stats_mem s))
      (level_alarms (st (li_id c)) ?l)"
    have now: "container_levels_now env (li_id c) = Some ?l" by (simp add: container_levels_now_def Inr)
    have w: "d_faults ?w = []" "d_events ?w = d_events d" using write_readings_keeps [OF Cons.prems(1)] by simp_all
    have ids: "map ev_id ?new = map (\<lambda>a. re_event_uuid env (li_id c) (al_metric a)) (level_alarms (st (li_id c)) ?l)"
      by simp
    have used: "ev_id ` set (d_events d @ ?new) = ev_id ` set (d_events d)
        \<union> (\<lambda>a. re_event_uuid env (li_id c) (al_metric a)) ` set (level_alarms (st (li_id c)) ?l)"
      by (simp only: set_append image_Un set_map image_image container_alarm_id)
    have fresh: "fresh_ids (map ev_id ?new) (ev_id ` set (d_events ?w))"
        "fresh_ids (map fst (tick_alarms env cs (st(li_id c \<mapsto> ?l)))) (ev_id ` set (d_events ?w @ ?new))"
      unfolding ids w(2) using Cons.prems(2) by (simp_all only: used) (simp_all add: now comp_def)
    have post: "post_all event_create ?new ?w = ?w\<lparr>d_events := d_events d @ ?new\<rparr>"
      by (subst post_all_fresh) (use w fresh in \<open>simp_all add: list_all_iff container_alarm_def alarm_event_row_ok\<close>)
    let ?D = "?w\<lparr>d_events := d_events d @ ?new\<rparr>"
    have D: "d_faults ?D = []" "d_events ?D = d_events d @ ?new" using w by simp_all
    have "fresh_ids (map fst (tick_alarms env cs (st(li_id c \<mapsto> ?l)))) (ev_id ` set (d_events ?D))"
      unfolding D(2) using fresh(2) w(2) by (simp only:)
    from Cons.IH [OF D(1) this, unfolded D(2)]
    obtain es and d2 :: db where es: "poll_containers env aids cs (st(li_id c \<mapsto> ?l)) (?w\<lparr>d_events := d_events d @ ?new\<rparr>)
        = (levels_after env cs (st(li_id c \<mapsto> ?l)), d2)" "d_faults d2 = []"
      "d_events d2 = (d_events d @ ?new) @ es" "map ev_id es = map fst (tick_alarms env cs (st(li_id c \<mapsto> ?l)))"
      "map ev_level es = map (\<lambda>(u, c, a). alarm_severity (al_to a)) (tick_alarms env cs (st(li_id c \<mapsto> ?l)))"
      by blast
    have "poll_containers env aids (c # cs) st d = (levels_after env (c # cs) st, d2)"
      by (simp add: poll_container_def Inr check_thresholds_def level_step_def post es(1) now)
    then show ?thesis
      by (intro exI [of _ "?new @ es"] exI [of _ d2])
        (simp add: es now ids comp_def, simp add: container_alarm_def alarm_event_def)
  qed
qed simp

lemma resolve_no_fault: "d_faults d = [] \<Longrightarrow> \<exists>aids. resolve_app_ids cs d = (aids, d)"
  by (simp add: resolve_app_ids_def app_list_def)

lemma run_polls_events:
  assumes "d_faults d = []" and "fresh_ids (map fst (run_alarms ts st)) (ev_id ` set (d_events d))"
  shows "\<exists>es. d_events (snd (run_resource_polls ts st d)) = d_events d @ es
    \<and> map ev_level es = map (\<lambda>(u, c, a). alarm_severity (al_to a)) (run_alarms ts st)"
  using assms
proof (induction ts st arbitrary: d rule: run_alarms.induct)
  case (2 env ts st)
  then show ?case by (simp add: resource_poll_all_def)
next
  case (3 env cs ts st)
  obtain aids where aids: "resolve_app_ids cs d = (aids, d)" using resolve_no_fault [OF "3.prems"(1)] by blast
  have first: "fresh_ids (map fst (tick_alarms env cs (prune_levels cs st))) (ev_id ` set (d_events d))"
    using "3.prems"(2) by simp
  from poll_containers_events [OF "3.prems"(1) first, of aids] obtain es and d2 :: db where
    es: "poll_containers env aids cs (prune_levels cs st) d = (levels_after env cs (prune_levels cs st), d2)" "d_faults d2 = []"
      "d_events d2 = d_events d @ es" "map ev_id es = map fst (tick_alarms env cs (prune_levels cs st))"
      "map ev_level es = map (\<lambda>(u, c, a). alarm_severity (al_to a)) (tick_alarms env cs (prune_levels cs st))"
    by blast
  have "ev_id ` set (d_events d2) = ev_id ` set (d_events d) \<union> set (map fst (tick_alarms env cs (prune_levels cs st)))"
    unfolding es(3) es(4) [symmetric] by (simp add: image_Un)
  then have "\<exists>es2. d_events (snd (run_resource_polls ts (levels_after env cs (prune_levels cs st)) d2)) = d_events d2 @ es2
      \<and> map ev_level es2 = map (\<lambda>(u, c, a). alarm_severity (al_to a)) (run_alarms ts (levels_after env cs (prune_levels cs st)))"
    using "3.prems"(2) by (intro "3.IH" es(2)) simp
  then obtain es2 where "d_events (snd (run_resource_polls ts (levels_after env cs (prune_levels cs st)) d2)) = d_events d2 @ es2"
      "map ev_level es2 = map (\<lambda>(u, c, a). alarm_severity (al_to a)) (run_alarms ts (levels_after env cs (prune_levels cs st)))"
    by blast
  then show ?case
    by (intro exI [of _ "es @ es2"]) (simp add: resource_poll_all_def aids es)
qed simp

text \<open>C22: Polls of the Docker daemon, one after the other, write one event per change of a CPU or memory level, at the
  severity of the level entered; the changes of a container are those along its own readings, starting from normal,
  and from normal again after a poll that did not list it.\<close>

theorem container_alarms_follow_levels:
  assumes "d_faults d = []" and "list_all tick_distinct ts"
    and "fresh_ids (map fst (run_alarms ts Map.empty)) (ev_id ` set (d_events d))"
  shows "\<exists>es (alarms :: (string \<times> string \<times> alarm) list). d_events (snd (run_resource_polls ts Map.empty d)) = d_events d @ es
    \<and> map ev_level es = map (\<lambda>(u, c, a). alarm_severity (al_to a)) alarms
    \<and> (\<forall>cid. map (\<lambda>(u, c, a). a) (filter (\<lambda>(u, c, a). c = cid) alarms)
         = alarms_along None (concat (map (own_levels cid) ts)))"
proof -
  from run_polls_events [OF assms(1,3)] obtain es where "d_events (snd (run_resource_polls ts Map.empty d)) = d_events d @ es"
      "map ev_level es = map (\<lambda>(u, c, a). alarm_severity (al_to a)) (run_alarms ts Map.empty)"
    by blast
  then show ?thesis
    using run_alarms_own [OF assms(2), of _ Map.empty]
    by (intro exI [of _ es] exI [of _ "run_alarms ts Map.empty"] conjI allI) simp_all
qed

definition busy_stats :: container_stats where
  "busy_stats = \<lparr>st_name = ''/web'', st_cpu_total = 97, st_cpu_total_before = 0, st_system = 100, st_system_before = 0,
     st_percpu_len = 0, st_online_cpus = 1, st_mem_usage = 50, st_mem_limit = 100\<rparr>"

definition busy_env :: "string \<Rightarrow> resource_env" where
  "busy_env u = \<lparr>re_engine_id = ''e1'', re_stable_id = (\<lambda>e n. e @ ''/'' @ n), re_now = 0, re_reading_uuid = (\<lambda>c m. u @ c @ m),
     re_event_uuid = (\<lambda>c m. u @ c @ m), re_stats = (\<lambda>c. Inr busy_stats)\<rparr>"

definition busy_ticks :: "resource_tick list" where
  "busy_ticks = (let up = Some [\<lparr>li_id = ''c1'', li_names = [''/web'']\<rparr>] in
     [(busy_env ''1'', up), (busy_env ''2'', up), (busy_env ''3'', Some []), (busy_env ''4'', up)])"

text \<open>A container at 97 percent raises one alarm, and the same alarm again after a restart, with no recovery between.\<close>

lemma busy_alarms:
  "alarms_along None (concat (map (own_levels ''c1'') busy_ticks))
     = [\<lparr>al_metric = ''CPU'', al_from = LevelNormal, al_to = LevelError\<rparr>, \<lparr>al_metric = ''CPU'', al_from = LevelNormal, al_to = LevelError\<rparr>]"
  by code_simp

theorem container_alarms_follow_levels_witness:
  "\<exists>es (alarms :: (string \<times> string \<times> alarm) list). d_events (snd (run_resource_polls busy_ticks Map.empty empty_db)) = es
    \<and> map ev_level es = map (\<lambda>(u, c, a). alarm_severity (al_to a)) alarms
    \<and> map (\<lambda>(u, c, a). alarm_severity (al_to a)) (filter (\<lambda>(u, c, a). c = ''c1'') alarms) = [''error'', ''error'']"
proof -
  have none: "d_faults empty_db = []" "d_events empty_db = []" by (simp_all add: empty_db_def)
  have "list_all tick_distinct busy_ticks" by code_simp
  moreover have "fresh_ids (map fst (run_alarms busy_ticks Map.empty)) (ev_id ` set (d_events empty_db))" by code_simp
  ultimately obtain es and alarms :: "(string \<times> string \<times> alarm) list" where
    es: "d_events (snd (run_resource_polls busy_ticks Map.empty empty_db)) = d_events empty_db @ es"
      "map ev_level es = map (\<lambda>(u, c, a). alarm_severity (al_to a)) alarms"
    and own: "\<forall>cid. map (\<lambda>(u, c, a). a) (filter (\<lambda>(u, c, a). c = cid) alarms)
        = alarms_along None (concat (map (own_levels cid) busy_ticks))"
    using container_alarms_follow_levels [OF none(1)] by blast
  have "map (\<lambda>(u, c, a). alarm_severity (al_to a)) xs = map (\<lambda>a. alarm_severity (al_to a)) (map (\<lambda>(u, c, a). a) xs)"
    for xs :: "(string \<times> string \<times> alarm) list"
    by auto
  from this [of "filter (\<lambda>(u, c, a). c = ''c1'') alarms"]
  have "map (\<lambda>(u, c, a). alarm_severity (al_to a)) (filter (\<lambda>(u, c, a). c = ''c1'') alarms) = [''error'', ''error'']"
    unfolding own [rule_format, of "''c1''"] busy_alarms by (simp add: alarm_severity_def)
  then show ?thesis using es none(2) by (intro exI [of _ es] exI [of _ alarms]) simp
qed

section \<open>Bounds of the readings\<close>

lemma float_of_nonneg: "0 \<le> float_of w"
  unfolding float_of_def by (rule of_nat_0_le_iff)

lemma float_of_mono: "u \<le> l \<Longrightarrow> float_of u \<le> float_of l"
  unfolding float_of_def of_nat_le_iff by (rule word_le_nat_alt [THEN iffD1])

lemma float_of_positive: "l \<noteq> 0 \<Longrightarrow> 0 < float_of l"
  unfolding float_of_def of_nat_0_less_iff by (simp add: unat_gt_0)

text \<open>A CPU reading is never negative, whatever the counters do (a counter that went back reads 0), and memory stays
  within 100 percent while the usage is within the limit.\<close>

theorem readings_bounded:
  "0 \<le> stats_cpu s \<and> 0 \<le> stats_mem s \<and> (st_mem_usage s \<le> st_mem_limit s \<longrightarrow> stats_mem s \<le> 100)"
  using float_of_nonneg [of "st_mem_usage s"] float_of_nonneg [of "st_mem_limit s"] float_of_positive [of "st_mem_limit s"]
    float_of_mono [of "st_mem_usage s" "st_mem_limit s"]
  by (auto simp: stats_cpu_def stats_mem_def calculate_cpu_percent_def calculate_mem_percent_def Let_def divide_le_eq)

section \<open>Which app a container belongs to\<close>

definition two_apps :: "app_row list" where
  "two_apps = [sample_app\<lparr>ap_id := ''a1'', ap_name := ''Web''\<rparr>, sample_app\<lparr>ap_id := ''a2'', ap_name := ''web''\<rparr>]"

text \<open>Of two apps with the container's name the resource poller takes the last, the health poller the first.\<close>

lemma pollers_pick_different_apps:
  "app_of_names (app_by_name two_apps) [''/web''] = ''a2''
    \<and> map_option ap_id (List.find (\<lambda>a. equal_fold (ap_name a) ''web'') two_apps) = Some ''a1''"
  by code_simp

end
