(* ===== verification/ScanCommon.thy ===== *)
theory ScanCommon
  imports ContainerMetrics InfraApi SnapshotScanners DockerApi
begin

text \<open>
  What the device scanners share: the discovery event of internal/scanner/discovery/events.go, and what single
  statements on the components table do when no statement faults.
\<close>

section \<open>Discovery events\<close>

definition discovery_event ::
  "string \<Rightarrow> go_time \<Rightarrow> string \<Rightarrow> string \<Rightarrow> string \<Rightarrow> string \<Rightarrow> string \<Rightarrow> event" where
  "discovery_event uuid now cid name source_type level title =
     \<lparr>ev_id = uuid, ev_level = level, ev_source_name = name, ev_source_type = source_type, ev_source_id = cid,
      ev_title = title,
      ev_payload = ''{'' @ json_quote ''bucket'' @ '':'' @ json_quote ''discovery'' @ '','' @ json_quote ''component_id''
        @ '':'' @ go_quote cid @ '','' @ json_quote ''component_name'' @ '':'' @ go_quote name @ ''}'',
      ev_created_at = now\<rparr>"

definition write_discovery_event ::
  "string \<Rightarrow> go_time \<Rightarrow> string \<Rightarrow> string \<Rightarrow> string \<Rightarrow> string \<Rightarrow> string \<Rightarrow> db \<Rightarrow> db" where
  "write_discovery_event uuid now cid name source_type level title d =
     db_ignore (event_create (discovery_event uuid now cid name source_type level title) d)"

section \<open>Statements on components that do not fault\<close>

lemma component_change_no_fault:
  assumes "d_faults d = []" and "components_ok d" and "\<And>c. ic_id (f c) = ic_id c"
    and "\<And>c. component_row_ok c \<Longrightarrow> component_row_ok (f c)"
  shows "component_change cid f d = (if cid \<in> ic_id ` set (d_components d)
    then (Inr (), d\<lparr>d_components := update_where (\<lambda>c. ic_id c = cid) f (d_components d)\<rparr>) else (Inl NotFound, d))"
  using assms by (auto simp: component_change_def components_ok_def list_all_iff)

lemma update_status_no_fault:
  assumes "d_faults d = []" and "components_ok d" and "status \<in> set component_statuses"
  shows "component_update_status cid status polled d = (if cid \<in> ic_id ` set (d_components d)
    then (Inr (), d\<lparr>d_components := update_where (\<lambda>c. ic_id c = cid)
            (\<lambda>c. c\<lparr>ic_last_status := status, ic_last_polled_at := Some polled\<rparr>) (d_components d)\<rparr>) else (Inl NotFound, d))"
  unfolding component_update_status_def
  by (rule component_change_no_fault [OF assms(1,2)]) (use assms(3) in \<open>simp_all add: component_row_ok_def\<close>)

lemma update_ip_no_fault:
  assumes "d_faults d = []" and "components_ok d"
  shows "component_update_ip cid ip d = (if cid \<in> ic_id ` set (d_components d)
    then (Inr (), d\<lparr>d_components := update_where (\<lambda>c. ic_id c = cid) (\<lambda>c. c\<lparr>ic_ip := ip\<rparr>) (d_components d)\<rparr>) else (Inl NotFound, d))"
  unfolding component_update_ip_def by (rule component_change_no_fault [OF assms]) (simp_all add: component_row_ok_def)

text \<open>The row of one component; what a change does to the rows.\<close>

abbreviation component_row :: "db \<Rightarrow> string \<Rightarrow> infra_component option" where
  "component_row d cid \<equiv> lookup_row ic_id cid (d_components d)"

lemma component_row_change:
  "(\<And>c. ic_id (f c) = ic_id c) \<Longrightarrow> lookup_row ic_id k (update_where (\<lambda>c. ic_id c = cid) f cs)
     = (if k = cid then map_option f (lookup_row ic_id k cs) else lookup_row ic_id k cs)"
  by (induction cs) (auto simp: update_where_def)

lemma component_ids_change:
  "(\<And>c. ic_id (f c) = ic_id c) \<Longrightarrow> map ic_id (update_where P f cs) = map ic_id cs"
  by (induction cs) (auto simp: update_where_def)

lemma components_ok_change:
  "components_ok d \<Longrightarrow> (\<And>c. ic_id (f c) = ic_id c) \<Longrightarrow> (\<And>c. component_row_ok c \<Longrightarrow> component_row_ok (f c))
     \<Longrightarrow> components_ok (d\<lparr>d_components := update_where P f (d_components d)\<rparr>)"
  unfolding components_ok_def
  by (simp add: component_ids_change) (auto simp: list_all_iff update_where_def)

section \<open>Which tables a write touches\<close>

lemma write_reading_only:
  assumes "d_faults d = []"
  shows "\<exists>rs. write_reading i now s t m v d = d\<lparr>d_readings := rs\<rparr>"
proof (cases "t \<in> set resource_source_types \<and> i \<notin> rd_id ` set (d_readings d)")
  case True
  then show ?thesis using assms by (simp add: write_reading_def reading_create_def) blast
next
  case False
  then show ?thesis
    using assms by (intro exI [of _ "d_readings d"]) (simp add: write_reading_def reading_create_def)
qed

lemma write_readings_only:
  assumes "d_faults d = []"
  shows "\<exists>rs. write_readings uuid now s t ms d = d\<lparr>d_readings := rs\<rparr>"
  using assms
proof (induction ms arbitrary: d)
  case Nil
  then show ?case by (intro exI [of _ "d_readings d"]) simp
next
  case (Cons p ms)
  have one: "\<exists>rs. write_reading i now s t m v d = d\<lparr>d_readings := rs\<rparr>" for i m v
    by (rule write_reading_only) (rule Cons.prems)
  obtain m v where p: "p = (m, v)" by fastforce
  obtain rs where rs: "write_reading (uuid m) now s t m v d = d\<lparr>d_readings := rs\<rparr>" using one by blast
  obtain rs2 where "write_readings uuid now s t ms (d\<lparr>d_readings := rs\<rparr>) = (d\<lparr>d_readings := rs\<rparr>)\<lparr>d_readings := rs2\<rparr>"
    using Cons.IH [of "d\<lparr>d_readings := rs\<rparr>"] Cons.prems by auto
  then show ?case by (intro exI [of _ rs2]) (simp add: p rs)
qed

lemma event_create_only:
  assumes "d_faults d = []"
  shows "\<exists>es2. snd (event_create e d) = d\<lparr>d_events := es2\<rparr>"
proof (cases "event_insertable d e")
  case False
  then show ?thesis using assms by (intro exI [of _ "d_events d"]) (simp add: event_create_def)
qed (use assms in \<open>auto simp: event_create_def\<close>)

lemma post_all_only:
  assumes "d_faults d = []"
  shows "\<exists>es2. post_all event_create es d = d\<lparr>d_events := es2\<rparr>"
  using assms
proof (induction es arbitrary: d)
  case Nil
  then show ?case by (intro exI [of _ "d_events d"]) (simp add: post_all_def)
next
  case (Cons e es)
  obtain x where x: "snd (event_create e d) = d\<lparr>d_events := x\<rparr>"
    using event_create_only [OF Cons.prems] by blast
  obtain y where "post_all event_create es (d\<lparr>d_events := x\<rparr>) = (d\<lparr>d_events := x\<rparr>)\<lparr>d_events := y\<rparr>"
    using Cons.IH [of "d\<lparr>d_events := x\<rparr>"] Cons.prems by auto
  then show ?case by (intro exI [of _ y]) (simp add: post_all_def x [unfolded post_all_def])
qed

section \<open>Components that mirror what was found\<close>

text \<open>Every id of \<open>ks\<close> has a component with the status \<open>f\<close> says, every other component is as before.\<close>

definition mirrors :: "(string \<rightharpoonup> string) \<Rightarrow> db \<Rightarrow> db \<Rightarrow> bool" where
  "mirrors f d d2 = (d_faults d2 = [] \<and> components_ok d2
     \<and> (\<forall>k. case f k of None \<Rightarrow> component_row d2 k = component_row d k
          | Some s \<Rightarrow> map_option ic_last_status (component_row d2 k) = Some s))"

lemma mirrorsI:
  assumes "d_faults d2 = []" and "components_ok d2" and "\<And>k. f k = None \<Longrightarrow> component_row d2 k = component_row d k"
    and "\<And>k s. f k = Some s \<Longrightarrow> map_option ic_last_status (component_row d2 k) = Some s"
  shows "mirrors f d d2"
  unfolding mirrors_def using assms by (auto split: option.split)

lemma mirrors_refl: "d_faults d = [] \<Longrightarrow> components_ok d \<Longrightarrow> mirrors Map.empty d d"
  by (simp add: mirrors_def)

lemma mirrors_trans: "mirrors f d d1 \<Longrightarrow> mirrors g d1 d2 \<Longrightarrow> dom g \<inter> dom f = {} \<Longrightarrow> mirrors (f ++ g) d d2"
  unfolding mirrors_def map_add_def disjoint_iff dom_def
  by (simp split: option.splits) (metis option.distinct(1))

lemma components_row_ids: "cid \<in> ic_id ` set (d_components d) \<longleftrightarrow> component_row d cid \<noteq> None"
  by (simp add: lookup_row_None)

lemma update_status_mirrors:
  assumes "d_faults d = []" and "components_ok d" and "status \<in> set component_statuses" and "kid \<in> ic_id ` set (d_components d)"
  shows "mirrors [kid \<mapsto> status] d (db_ignore (component_update_status kid status polled d))"
proof -
  let ?up = "update_where (\<lambda>c. ic_id c = kid) (\<lambda>c. c\<lparr>ic_last_status := status, ic_last_polled_at := Some polled\<rparr>) (d_components d)"
  have "components_ok (d\<lparr>d_components := ?up\<rparr>)"
    by (rule components_ok_change [OF assms(2)]) (use assms(3) in \<open>simp_all add: component_row_ok_def\<close>)
  moreover obtain r where "component_row d kid = Some r" using assms(4) lookup_row_None [of ic_id kid] by auto
  ultimately show ?thesis
    using assms(1,4) by (simp add: update_status_no_fault [OF assms(1-3)] mirrors_def component_row_change split: option.split)
qed

lemma mirrors_row: "mirrors f d d2 \<Longrightarrow> f k = Some s \<Longrightarrow> \<exists>r. component_row d2 k = Some r \<and> ic_last_status r = s"
  unfolding mirrors_def by (auto dest: spec [of _ k])

lemma update_ip_mirrors:
  assumes "mirrors f d d1" and "f kid \<noteq> None"
  shows "mirrors f d (db_ignore (component_update_ip kid ip d1))"
proof -
  have d1: "d_faults d1 = []" "components_ok d1" using assms(1) by (simp_all add: mirrors_def)
  obtain s r where r: "component_row d1 kid = Some r" using assms mirrors_row [of f d d1 kid] by auto
  then have in1: "kid \<in> ic_id ` set (d_components d1)" by (rule lookup_row_in)
  let ?d2 = "d1\<lparr>d_components := update_where (\<lambda>c. ic_id c = kid) (\<lambda>c. c\<lparr>ic_ip := ip\<rparr>) (d_components d1)\<rparr>"
  have ok: "components_ok ?d2" by (rule components_ok_change [OF d1(2)]) (simp_all add: component_row_ok_def)
  have row: "component_row ?d2 k = (if k = kid then map_option (\<lambda>c. c\<lparr>ic_ip := ip\<rparr>) (component_row d1 k) else component_row d1 k)" for k
    by (simp add: component_row_change)
  have "mirrors f d ?d2"
  proof (rule mirrorsI [OF _ ok])
    fix k assume "f k = None"
    moreover from this assms(2) have "k \<noteq> kid" by blast
    ultimately show "component_row ?d2 k = component_row d k" using assms(1) unfolding row mirrors_def by (auto dest: spec [of _ k])
  next
    fix k s assume "f k = Some s"
    then show "map_option ic_last_status (component_row ?d2 k) = Some s"
      using mirrors_row [OF assms(1)] unfolding row by force
  qed (simp add: d1)
  then show ?thesis using in1 by (simp add: update_ip_no_fault [OF d1])
qed

section \<open>Statements that write no event\<close>

lemma events_blind: "fault_blind (\<lambda>d. d_events d = es)"
  by (simp add: fault_blind_def)

lemma component_change_events: "d_events (snd (component_change cid f d)) = d_events d"
  unfolding component_change_def by (rule db_op_invariant [OF events_blind]) simp_all

lemma component_create_events: "d_events (snd (component_create c d)) = d_events d"
  unfolding component_create_def by (rule db_op_invariant [OF events_blind]) simp_all

lemma set_parent_events: "d_events (snd (set_parent pt pid ct cid d)) = d_events d"
  unfolding set_parent_def by (rule db_op_invariant [OF events_blind]) simp_all

lemma write_readings_events: "d_events (write_readings uuid now s t ms d) = d_events d"
proof (induction ms arbitrary: d)
  case (Cons p ms)
  have "d_events (snd (reading_create r d)) = d_events d" for r d
    unfolding reading_create_def by (rule db_op_invariant [OF events_blind]) simp_all
  then show ?case using Cons.IH by (cases p) (simp add: write_reading_def db_ignore_def)
qed simp

section \<open>Storing a snapshot and a status\<close>

text \<open>What a poller does at its end: store the snapshot in the component, then its status.\<close>

definition store_poll :: "string \<Rightarrow> string \<Rightarrow> string \<Rightarrow> string \<Rightarrow> db \<Rightarrow> db" where
  "store_poll cid meta status polled d =
     db_ignore (component_update_status cid status polled (db_ignore (component_update_meta cid meta d)))"

lemma store_poll_rows:
  assumes "d_faults d = []" and "components_ok d" and "cid \<in> ic_id ` set (d_components d)" and "status \<in> set component_statuses"
  shows "component_row (store_poll cid meta status polled d) k
    = (if k = cid then map_option (\<lambda>c. c\<lparr>ic_meta := Some meta, ic_last_status := status, ic_last_polled_at := Some polled\<rparr>)
         (component_row d k) else component_row d k)"
proof -
  let ?up = "update_where (\<lambda>c. ic_id c = cid) (\<lambda>c. c\<lparr>ic_meta := Some meta\<rparr>) (d_components d)"
  have m: "component_update_meta cid meta d = (Inr (), d\<lparr>d_components := ?up\<rparr>)"
    unfolding component_update_meta_def
    by (subst component_change_no_fault [OF assms(1,2)]) (use assms(3) in \<open>simp_all add: component_row_ok_def\<close>)
  have ok: "components_ok (d\<lparr>d_components := ?up\<rparr>)"
    using components_ok_change [OF assms(2), of "\<lambda>c. c\<lparr>ic_meta := Some meta\<rparr>" "\<lambda>c. ic_id c = cid"]
    by (simp add: component_row_ok_def)
  have ids: "map ic_id ?up = map ic_id (d_components d)" by (rule component_ids_change) simp
  have there: "cid \<in> ic_id ` set ?up" using arg_cong [OF ids, of set] assms(3) by (simp only: set_map)
  show ?thesis
    unfolding store_poll_def m db_ignore_def snd_conv
    using update_status_no_fault [OF _ ok assms(4), of cid polled] assms(1) there
    by (simp add: component_row_change option.map_comp comp_def)
qed

lemma degraded_known: "(if b then ''degraded'' else ''online'') \<in> set component_statuses"
  by (simp add: component_statuses_def)

end
