(* ===== verification/Proxmox.thy ===== *)
theory Proxmox
  imports ScanCommon
begin

text \<open>
  The Proxmox VE client: internal/infra/proxmox.go and proxmox_detail.go.

  The cluster is a record \<open>pve_api\<close>: what each endpoint the client asks answers, decoded, or the error of the request
  (\<open>Inl\<close>). Numbers of the answers are integers and rationals. \<open>xv_child_id\<close> is \<open>proxmoxChildID\<close>, a name-based UUID.
  fetchLXCIP and parseLXCNetIP have no callers but each other; the former is left out.
\<close>

section \<open>Answers of the API\<close>

record pve_status =
  py_cpu :: rat
  py_cpus :: int
  py_mem_used :: int
  py_mem_total :: int
  py_uptime :: int
  py_version :: string

record pve_storage =
  px_storage :: string
  px_type :: string
  px_used :: int
  px_total :: int
  px_active :: int

record pve_guest =
  pg_vmid :: int
  pg_name :: string
  pg_status :: string
  pg_cpus :: int
  pg_max_mem :: int
  pg_max_disk :: int
  pg_uptime :: int
  pg_tags :: string

record pve_task =
  pt_upid :: string
  pt_id :: string
  pt_type :: string
  pt_status :: string
  pt_exit_status :: string
  pt_start :: int
  pt_finish :: int
  pt_user :: string
  pt_node :: string

record pve_content =
  pc_volid :: string
  pc_vmid :: int
  pc_ctime :: int
  pc_size :: int
  pc_format :: string

record pve_api =
  pa_host :: "string option"                                  \<comment> \<open>the host of \<open>base_url\<close>, if that parses\<close>
  pa_members :: "string + string list"                        \<comment> \<open>/nodes\<close>
  pa_status :: "string \<Rightarrow> string + pve_status"                \<comment> \<open>/nodes/N/status\<close>
  pa_storage :: "string \<Rightarrow> string + pve_storage list"         \<comment> \<open>/nodes/N/storage\<close>
  pa_qemu :: "string \<Rightarrow> string + pve_guest list"              \<comment> \<open>/nodes/N/qemu\<close>
  pa_agent :: "string \<Rightarrow> int \<Rightarrow> string + (string \<times> string) list list"  \<comment> \<open>addresses and types per interface\<close>
  pa_config :: "string \<Rightarrow> int \<Rightarrow> string + rat object"
  pa_apt :: "string \<Rightarrow> string + nat"                          \<comment> \<open>the number of packages\<close>
  pa_vzdump :: "string \<Rightarrow> string + pve_task list"
  pa_failed :: "string \<Rightarrow> string + pve_task list"
  pa_content :: "string \<Rightarrow> string \<Rightarrow> string + pve_content list"

section \<open>Addresses\<close>

definition is_usable_ipv4 :: "string \<Rightarrow> bool" where
  "is_usable_ipv4 a = (\<not> has_prefix a ''127.'' \<and> \<not> has_prefix a ''169.254.'')"

text \<open>The values of a key in \<open>k=v,k=v,...\<close>, in order, blanks trimmed.\<close>

definition net_values :: "string \<Rightarrow> string \<Rightarrow> string list" where
  "net_values key net_config = List.map_filter (\<lambda>part. case split_first CHR ''='' part of
       Some (k, v) \<Rightarrow> if trim_space k = key then Some (trim_space v) else None
     | None \<Rightarrow> None) (split_on CHR '','' net_config)"

definition parse_lxc_net_ip :: "string \<Rightarrow> string" where
  "parse_lxc_net_ip net_config =
     (case List.find (\<lambda>ip. ip \<noteq> [] \<and> ip \<noteq> ''dhcp'' \<and> is_usable_ipv4 ip)
        (map (\<lambda>v. hd (split_on CHR ''/'' v)) (net_values ''ip'' net_config)) of
      Some ip \<Rightarrow> ip | None \<Rightarrow> [])"

definition fetch_vm_ip :: "pve_api \<Rightarrow> string \<Rightarrow> int \<Rightarrow> string" where
  "fetch_vm_ip api node vmid = (case pa_agent api node vmid of
       Inl _ \<Rightarrow> []
     | Inr ifaces \<Rightarrow> (case List.find (\<lambda>(a, t). t = ''ipv4'' \<and> is_usable_ipv4 a) (concat ifaces) of
           Some (a, _) \<Rightarrow> a | None \<Rightarrow> []))"

definition parse_net_bridge :: "string \<Rightarrow> string" where
  "parse_net_bridge net_config = (case net_values ''bridge'' net_config of [] \<Rightarrow> [] | b # _ \<Rightarrow> b)"

section \<open>Metrics of a node\<close>

record node_metrics =
  nm_node :: string
  nm_cpu :: rat
  nm_mem :: rat
  nm_mem_used_gb :: rat
  nm_mem_total_gb :: rat
  nm_disk :: rat
  nm_uptime :: int

definition percent_of :: "int \<Rightarrow> int \<Rightarrow> rat" where
  "percent_of used whole = (if whole > 0 then of_int used / of_int whole * 100 else 0)"

definition gib :: "int \<Rightarrow> rat" where
  "gib n = of_int n / (1024 * 1024 * 1024)"

text \<open>Over the storages that are active.\<close>

definition disk_percent :: "pve_storage list \<Rightarrow> rat" where
  "disk_percent ss = (let act = filter (\<lambda>s. px_active s \<noteq> 0) ss in
     percent_of (sum_list (map px_used act)) (sum_list (map px_total act)))"

definition fetch_node_metrics :: "pve_api \<Rightarrow> string \<Rightarrow> string + node_metrics" where
  "fetch_node_metrics api node = (case pa_status api node of
       Inl err \<Rightarrow> Inl (''node status: '' @ err)
     | Inr st \<Rightarrow> Inr \<lparr>nm_node = node, nm_cpu = py_cpu st * 100,
         nm_mem = percent_of (py_mem_used st) (py_mem_total st),
         nm_mem_used_gb = (if py_mem_total st > 0 then gib (py_mem_used st) else 0),
         nm_mem_total_gb = (if py_mem_total st > 0 then gib (py_mem_total st) else 0),
         nm_disk = (case pa_storage api node of Inl _ \<Rightarrow> 0 | Inr ss \<Rightarrow> disk_percent ss),
         nm_uptime = py_uptime st\<rparr>)"

definition list_nodes :: "pve_api \<Rightarrow> string + string list" where
  "list_nodes api = (case pa_members api of Inl err \<Rightarrow> Inl (''list nodes: '' @ err) | Inr ns \<Rightarrow> Inr ns)"

definition answers :: "(string + 'a) list \<Rightarrow> 'a list" where
  "answers xs = List.map_filter (\<lambda>x. case x of Inl _ \<Rightarrow> None | Inr a \<Rightarrow> Some a) xs"

definition collect_node_metrics :: "pve_api \<Rightarrow> string + node_metrics list" where
  "collect_node_metrics api = map_sum (\<lambda>e. e) (\<lambda>ns. answers (map (fetch_node_metrics api) ns)) (list_nodes api)"

section \<open>State changes of virtual machines\<close>

record pve_env =
  xv_now :: go_time
  xv_polled_at :: string
  xv_child_id :: "string \<Rightarrow> int \<Rightarrow> string"
  xv_reading_uuid :: "string \<Rightarrow> string \<Rightarrow> string"
  xv_event_uuid :: "string \<Rightarrow> string"

type_synonym vm_states = "string \<rightharpoonup> string"

definition vm_emit :: "string option \<Rightarrow> string \<Rightarrow> string list" where
  "vm_emit prev status = (case prev of
       None \<Rightarrow> []
     | Some p \<Rightarrow>
         (if p = ''running'' \<and> status = ''stopped'' then [''warn'']
          else if p = ''stopped'' \<and> status = ''running'' then [''info''] else []))"

definition vm_step :: "string \<Rightarrow> string \<Rightarrow> vm_states \<Rightarrow> string list \<times> vm_states" where
  "vm_step key status st = (vm_emit (st key) status, st(key \<mapsto> status))"

interpretation vm_detector: transition_detector vm_step vm_emit
  by unfold_locales (simp_all add: vm_step_def)

definition vm_key :: "string \<Rightarrow> int \<Rightarrow> string" where
  "vm_key node vmid = node @ ''/'' @ show_int vmid"

definition vm_json :: "pve_guest \<Rightarrow> string" where
  "vm_json g = ''{'' @ json_quote ''vmid'' @ '':'' @ show_int (pg_vmid g) @ '','' @ json_quote ''name'' @ '':''
     @ json_quote (pg_name g) @ '','' @ json_quote ''status'' @ '':'' @ json_quote (pg_status g) @ ''}''"

definition vm_event :: "pve_env \<Rightarrow> string \<Rightarrow> string \<Rightarrow> pve_guest \<Rightarrow> string \<Rightarrow> event" where
  "vm_event env cid node g severity =
     \<lparr>ev_id = xv_event_uuid env (vm_key node (pg_vmid g)), ev_level = severity, ev_source_name = pg_name g,
      ev_source_type = ''vm_other'', ev_source_id = cid,
      ev_title = ''VM '' @ pg_name g @ '' is now '' @ pg_status g @ '' on '' @ node,
      ev_payload = vm_json g, ev_created_at = xv_now env\<rparr>"

fun check_state_changes ::
  "pve_env \<Rightarrow> string \<Rightarrow> string \<Rightarrow> pve_guest list \<Rightarrow> vm_states \<Rightarrow> db \<Rightarrow> vm_states \<times> db" where
  "check_state_changes env cid node [] st d = (st, d)"
| "check_state_changes env cid node (g # gs) st d =
     (case vm_step (vm_key node (pg_vmid g)) (pg_status g) st of (levels, st2) \<Rightarrow>
        check_state_changes env cid node gs st2 (post_all event_create (map (vm_event env cid node g) levels) d))"

section \<open>Virtual machines as components\<close>

definition vm_status :: "string \<Rightarrow> string" where
  "vm_status s = (if s = ''running'' then ''online'' else ''offline'')"

definition vm_child :: "string \<Rightarrow> string \<Rightarrow> string \<Rightarrow> string \<Rightarrow> string \<Rightarrow> string \<Rightarrow> infra_component" where
  "vm_child polled kid name ip ty status =
     \<lparr>ic_id = kid, ic_name = name, ic_ip = ip, ic_type = ty, ic_collection_method = ''none'', ic_credentials = None,
      ic_snmp_config = None, ic_meta = None, ic_notes = [], ic_enabled = True, ic_last_polled_at = None,
      ic_last_status = status, ic_created_at = polled\<rparr>"

lemma vm_child_fields [simp]:
  "ic_id (vm_child polled kid name ip ty status) = kid" "ic_last_status (vm_child polled kid name ip ty status) = status"
  "ic_type (vm_child polled kid name ip ty status) = ty" "ic_name (vm_child polled kid name ip ty status) = name"
  "ic_meta (vm_child polled kid name ip ty status) = None" "ic_last_polled_at (vm_child polled kid name ip ty status) = None"
  "ic_collection_method (vm_child polled kid name ip ty status) = ''none''"
  by (simp_all add: vm_child_def)

definition upsert_child :: "pve_env \<Rightarrow> pve_api \<Rightarrow> string \<Rightarrow> string \<Rightarrow> pve_guest \<Rightarrow> db \<Rightarrow> db" where
  "upsert_child env api cid node g d =
     (let kid = xv_child_id env cid (pg_vmid g); status = vm_status (pg_status g);
          ip = (if pg_status g = ''running'' then fetch_vm_ip api node (pg_vmid g) else []) in
      case component_update_status kid status (xv_polled_at env) d of
        (Inr _, d1) \<Rightarrow> (if ip \<noteq> [] then db_ignore (component_update_ip kid ip d1) else d1)
      | (Inl e, d1) \<Rightarrow>
          (if e \<noteq> NotFound then d1
           else case component_create (vm_child (xv_polled_at env) kid (pg_name g) ip ''vm_other'' status) d1 of
               (Inl _, d2) \<Rightarrow> d2
             | (Inr _, d2) \<Rightarrow> db_ignore (set_parent ''proxmox_node'' cid ''vm_other'' kid d2)))"

definition upsert_children :: "pve_env \<Rightarrow> pve_api \<Rightarrow> string \<Rightarrow> string \<Rightarrow> pve_guest list \<Rightarrow> db \<Rightarrow> db" where
  "upsert_children env api cid node gs d = fold (upsert_child env api cid node) gs d"

section \<open>A poll\<close>

definition poll_node ::
  "pve_env \<Rightarrow> pve_api \<Rightarrow> string \<Rightarrow> string \<Rightarrow> vm_states \<Rightarrow> db \<Rightarrow> string option \<times> vm_states \<times> db" where
  "poll_node env api cid node st d = (case pa_status api node of
       Inl err \<Rightarrow> (Some (''node status: '' @ err), st, d)
     | Inr s \<Rightarrow>
         (let d1 = write_readings (xv_reading_uuid env node) (xv_now env) cid ''proxmox_node''
                [(''cpu_percent'', py_cpu s * 100), (''mem_percent'', percent_of (py_mem_used s) (py_mem_total s))] d in
          case pa_storage api node of
            Inl err \<Rightarrow> (Some (''node storage: '' @ err), st, d1)
          | Inr ss \<Rightarrow>
              (let d2 = write_readings (xv_reading_uuid env node) (xv_now env) cid ''proxmox_node''
                     [(''disk_percent'', disk_percent ss)] d1 in
               case pa_qemu api node of
                 Inl _ \<Rightarrow> (None, st, d2)
               | Inr gs \<Rightarrow> (case check_state_changes env cid node gs st d2 of
                     (st2, d3) \<Rightarrow> (None, st2, upsert_children env api cid node gs d3)))))"

fun poll_nodes ::
  "pve_env \<Rightarrow> pve_api \<Rightarrow> string \<Rightarrow> string list \<Rightarrow> bool \<Rightarrow> vm_states \<Rightarrow> db \<Rightarrow> bool \<times> vm_states \<times> db" where
  "poll_nodes env api cid [] partly st d = (partly, st, d)"
| "poll_nodes env api cid (n # ns) partly st d = (case poll_node env api cid n st d of
       (err, st2, d2) \<Rightarrow> poll_nodes env api cid ns (partly \<or> err \<noteq> None) st2 d2)"

definition proxmox_poll :: "pve_env \<Rightarrow> pve_api \<Rightarrow> string \<Rightarrow> vm_states \<Rightarrow> db \<Rightarrow> string option \<times> vm_states \<times> db" where
  "proxmox_poll env api cid st d = (case list_nodes api of
       Inl err \<Rightarrow> (Some err, st, d)
     | Inr nodes \<Rightarrow> (case poll_nodes env api cid nodes False st d of (partly, st2, d2) \<Rightarrow>
         (let d3 = db_ignore (component_update_status cid (if partly then ''degraded'' else ''online'') (xv_polled_at env) d2);
              d4 = (case pa_host api of None \<Rightarrow> d3
                    | Some host \<Rightarrow> if host \<noteq> [] then db_ignore (component_update_ip cid host d3) else d3) in
          (None, st2, d4))))"

section \<open>proxmox_detail.go\<close>

definition upid_object_id :: "string \<Rightarrow> string" where
  "upid_object_id upid = (let parts = split_on CHR '':'' upid in if 7 \<le> length parts then parts ! 6 else [])"

record pve_pool_detail = pve_pool +
  pp_type :: string

record pve_guest_info =
  gi_guest :: pve_guest
  gi_tags :: "string list"
  gi_ip :: string
  gi_os_type :: string
  gi_bridges :: "string list"
  gi_onboot :: bool
  gi_node :: string

record pve_node_detail = pve_node +
  pn_cpu_count :: int
  pn_mem_total :: int
  pn_uptime :: int

record pve_failure =
  tf_upid :: string
  tf_type :: string
  tf_object_id :: string
  tf_exit_status :: string
  tf_start :: int
  tf_finish :: int
  tf_user :: string
  tf_node :: string

record pve_backup_job =
  bj_upid :: string
  bj_object_id :: string
  bj_exit_status :: string
  bj_start :: int
  bj_finish :: int
  bj_node :: string

record pve_backup_file =
  bf_content :: pve_content
  bf_node :: string
  bf_store :: string

text \<open>Per node, what one request for it gives; a node whose request fails is left out.\<close>

definition per_node :: "pve_api \<Rightarrow> (string \<Rightarrow> string + 'a list) \<Rightarrow> (string \<Rightarrow> 'a \<Rightarrow> 'b list) \<Rightarrow> string + 'b list" where
  "per_node api ask keep = (case list_nodes api of
       Inl err \<Rightarrow> Inl err
     | Inr nodes \<Rightarrow> Inr (concat (map (\<lambda>n. case ask n of Inl _ \<Rightarrow> [] | Inr xs \<Rightarrow> concat (map (keep n) xs)) nodes)))"

definition fetch_storage_pools :: "pve_api \<Rightarrow> string + pve_pool_detail list" where
  "fetch_storage_pools api = per_node api (pa_storage api) (\<lambda>n s.
     [\<lparr>pp_name = px_storage s, pp_node = n, pp_used_bytes = px_used s, pp_total_bytes = px_total s,
       pp_used_percent = percent_of (px_used s) (px_total s), pp_active = (px_active s = 1), pp_type = px_type s\<rparr>])"

definition parse_tags :: "string \<Rightarrow> string list" where
  "parse_tags tags = filter (\<lambda>t. t \<noteq> []) (map trim_space
     (split_on CHR '','' (map (\<lambda>c. if c = CHR '';'' then CHR '','' else c) tags)))"

definition config_text :: "rat object \<Rightarrow> string \<Rightarrow> string" where
  "config_text cfg k = (case map_of cfg k of Some (JStr s) \<Rightarrow> s | _ \<Rightarrow> [])"

definition bridges_of :: "rat object \<Rightarrow> string list" where
  "bridges_of cfg = sort (remdups (filter (\<lambda>b. b \<noteq> [])
     (map (\<lambda>i. parse_net_bridge (config_text cfg (''net'' @ show_nat i))) [0..<10])))"

definition enrich_guest :: "pve_api \<Rightarrow> string \<Rightarrow> pve_guest \<Rightarrow> pve_guest_info" where
  "enrich_guest api node g =
     (let info = \<lparr>gi_guest = g, gi_tags = parse_tags (pg_tags g), gi_ip = [], gi_os_type = [], gi_bridges = [],
            gi_onboot = False, gi_node = node\<rparr> in
      case pa_config api node (pg_vmid g) of
        Inl _ \<Rightarrow> info
      | Inr cfg \<Rightarrow> info\<lparr>gi_os_type := config_text cfg ''ostype'', gi_onboot := (map_of cfg ''onboot'' = Some (JNum 1)),
          gi_bridges := bridges_of cfg,
          gi_ip := (if pg_status g = ''running'' then fetch_vm_ip api node (pg_vmid g) else [])\<rparr>)"

definition fetch_guests :: "pve_api \<Rightarrow> string + pve_guest_info list" where
  "fetch_guests api = per_node api (pa_qemu api) (\<lambda>n g. [enrich_guest api n g])"

definition fetch_node_status :: "pve_api \<Rightarrow> string + pve_node_detail list" where
  "fetch_node_status api = (case list_nodes api of
       Inl err \<Rightarrow> Inl err
     | Inr nodes \<Rightarrow> Inr (answers (map (\<lambda>n. case pa_status api n of
           Inl err \<Rightarrow> Inl err
         | Inr st \<Rightarrow> Inr \<lparr>pn_node = n, pn_version = py_version st,
             pn_updates = (case pa_apt api n of Inl _ \<Rightarrow> 0 | Inr k \<Rightarrow> int k),
             pn_cpu_count = py_cpus st, pn_mem_total = py_mem_total st, pn_uptime = py_uptime st\<rparr>) nodes)))"

definition fetch_backup_jobs :: "pve_api \<Rightarrow> string + pve_backup_job list" where
  "fetch_backup_jobs api = per_node api (pa_vzdump api) (\<lambda>n t.
     if pt_finish t = 0 then [] else
     [\<lparr>bj_upid = pt_upid t, bj_object_id = (if pt_id t = [] then upid_object_id (pt_upid t) else pt_id t),
       bj_exit_status = (if pt_exit_status t = [] then pt_status t else pt_exit_status t),
       bj_start = pt_start t, bj_finish = pt_finish t, bj_node = pt_node t\<rparr>])"

definition fetch_task_failures :: "pve_api \<Rightarrow> string + pve_failure list" where
  "fetch_task_failures api = per_node api (pa_failed api) (\<lambda>n t.
     if pt_exit_status t = [] \<or> pt_exit_status t = ''OK'' then [] else
     [\<lparr>tf_upid = pt_upid t, tf_type = pt_type t, tf_object_id = pt_id t, tf_exit_status = pt_exit_status t,
       tf_start = pt_start t, tf_finish = pt_finish t, tf_user = pt_user t, tf_node = pt_node t\<rparr>])"

definition fetch_backup_files :: "pve_api \<Rightarrow> string + pve_backup_file list" where
  "fetch_backup_files api = per_node api (pa_storage api) (\<lambda>n s.
     if px_active s \<noteq> 1 then [] else
     (case pa_content api n (px_storage s) of
        Inl _ \<Rightarrow> []
      | Inr cs \<Rightarrow> map (\<lambda>c. \<lparr>bf_content = c, bf_node = n, bf_store = px_storage s\<rparr>) (filter (\<lambda>c. pc_vmid c \<noteq> 0) cs)))"

text \<open>What the snapshot scanner asks of a poller, in terms of these.\<close>

definition pve_snapshot_answers :: "pve_api \<Rightarrow> pve_answers" where
  "pve_snapshot_answers api =
     \<lparr>pa_pools = (case fetch_storage_pools api of Inl _ \<Rightarrow> None | Inr ps \<Rightarrow> Some (map pve_pool.truncate ps)),
      pa_nodes = (case fetch_node_status api of Inl _ \<Rightarrow> None | Inr ns \<Rightarrow> Some (map pve_node.truncate ns)),
      pa_backups = (case fetch_backup_files api of
         Inl _ \<Rightarrow> None | Inr fs \<Rightarrow> Some (map (\<lambda>f. (pc_vmid (bf_content f), pc_ctime (bf_content f))) fs))\<rparr>"

section \<open>api/proxmox_detail.go\<close>

text \<open>\<open>connect\<close> is \<open>NewProxmoxPoller\<close>: it decodes the credentials, and the cluster answers.\<close>

definition get_pve_poller :: "(string \<Rightarrow> string + pve_api) \<Rightarrow> string \<Rightarrow> db \<Rightarrow> (nat \<times> string + pve_api) \<times> db" where
  "get_pve_poller connect cid d0 = (case component_get cid d0 of
       (Inl e, d1) \<Rightarrow> (Inl (if e = NotFound then (404, ''component not found'') else (400, ''database'')), d1)
     | (Inr c, d1) \<Rightarrow>
         ((if ic_type c \<noteq> ''proxmox_node'' then Inl (400, ''component is not a proxmox_node'')
           else if \<not> non_empty_config (ic_credentials c) then Inl (400, ''no credentials configured for this component'')
           else case connect (the (ic_credentials c)) of Inl err \<Rightarrow> Inl (400, err) | Inr api \<Rightarrow> Inr api), d1))"

definition pve_handler ::
  "(pve_api \<Rightarrow> string + 'a list) \<Rightarrow> (string \<Rightarrow> string + pve_api) \<Rightarrow> string \<Rightarrow> db \<Rightarrow> 'a list response \<times> db" where
  "pve_handler fetch connect cid d0 = (case get_pve_poller connect cid d0 of
       (Inl (code, msg), d1) \<Rightarrow> (Failed code msg, d1)
     | (Inr api, d1) \<Rightarrow> (case fetch api of
           Inl err \<Rightarrow> (Failed 502 (''proxmox api: '' @ err), d1) | Inr xs \<Rightarrow> (Answer 200 xs, d1)))"

definition pve_handler_storage :: "(string \<Rightarrow> string + pve_api) \<Rightarrow> string \<Rightarrow> db \<Rightarrow> pve_pool_detail list response \<times> db" where
  "pve_handler_storage = pve_handler fetch_storage_pools"

definition pve_handler_guests :: "(string \<Rightarrow> string + pve_api) \<Rightarrow> string \<Rightarrow> db \<Rightarrow> pve_guest_info list response \<times> db" where
  "pve_handler_guests = pve_handler fetch_guests"

definition pve_handler_status :: "(string \<Rightarrow> string + pve_api) \<Rightarrow> string \<Rightarrow> db \<Rightarrow> pve_node_detail list response \<times> db" where
  "pve_handler_status = pve_handler fetch_node_status"

definition pve_handler_backups :: "(string \<Rightarrow> string + pve_api) \<Rightarrow> string \<Rightarrow> db \<Rightarrow> pve_backup_job list response \<times> db" where
  "pve_handler_backups = pve_handler fetch_backup_jobs"

definition pve_handler_backup_files :: "(string \<Rightarrow> string + pve_api) \<Rightarrow> string \<Rightarrow> db \<Rightarrow> pve_backup_file list response \<times> db" where
  "pve_handler_backup_files = pve_handler fetch_backup_files"

definition pve_handler_tasks :: "(string \<Rightarrow> string + pve_api) \<Rightarrow> string \<Rightarrow> db \<Rightarrow> pve_failure list response \<times> db" where
  "pve_handler_tasks = pve_handler fetch_task_failures"

section \<open>scanner/metrics/proxmox.go\<close>

definition metric_title :: "string \<Rightarrow> string \<Rightarrow> string \<Rightarrow> rat \<Rightarrow> string \<Rightarrow> threshold_level \<Rightarrow> string" where
  "metric_title rec high who v unit l = ''[metrics] '' @ (if l = LevelNormal then rec @ '' recovered'' else ''High '' @ high)
     @ '' '' @ em_dash @ '' '' @ who @ '': '' @ format_fixed 1 v @ unit"

definition pve_node_readings :: "node_metrics \<Rightarrow> (string \<times> rat) list" where
  "pve_node_readings m = [(''cpu_percent'', nm_cpu m), (''mem_percent'', nm_mem m), (''mem_used_gb'', nm_mem_used_gb m),
     (''mem_total_gb'', nm_mem_total_gb m), (''disk_percent'', nm_disk m), (''uptime_seconds'', of_int (nm_uptime m))]"

text \<open>Fresh ids: per source and metric.\<close>

record scan_ids =
  si_now :: go_time
  si_polled_at :: string
  si_reading_uuid :: "string \<Rightarrow> string \<Rightarrow> string"
  si_event_uuid :: "string \<Rightarrow> string \<Rightarrow> string"

definition fire_metric ::
  "scan_ids \<Rightarrow> string \<Rightarrow> string \<Rightarrow> string \<Rightarrow> string \<Rightarrow> threshold_level \<Rightarrow> (threshold_level \<Rightarrow> string) \<Rightarrow> tracker \<times> db \<Rightarrow> tracker \<times> db" where
  "fire_metric ids eid name source_type metric level title st =
     snd (check_and_fire (si_event_uuid ids eid metric) (si_now ids)
       \<lparr>ms_entity_id = eid, ms_entity_name = name, ms_source_type = source_type, ms_metric = metric\<rparr> level title (fst st) (snd st))"

definition pve_node_scan :: "scan_ids \<Rightarrow> string \<Rightarrow> infra_component \<Rightarrow> node_metrics \<Rightarrow> tracker \<times> db \<Rightarrow> tracker \<times> db" where
  "pve_node_scan ids eid c m st =
     (let nid = eid @ ''/'' @ nm_node m; who = ic_name c @ ''/'' @ nm_node m;
          d1 = write_readings (si_reading_uuid ids nid) (si_now ids) nid ''proxmox_node'' (pve_node_readings m) (snd st) in
      fire_metric ids nid (ic_name c) ''physical_host'' ''mem_percent'' (mem_threshold (nm_mem m))
          (metric_title ''Memory'' ''memory'' who (nm_mem m) ''%'')
        (fire_metric ids nid (ic_name c) ''physical_host'' ''cpu_percent'' (cpu_threshold (nm_cpu m))
          (metric_title ''CPU'' ''CPU'' who (nm_cpu m) ''%'') (fst st, d1)))"

text \<open>A poller is kept per component; \<open>ask\<close> is what the cluster answers it now.\<close>

definition proxmox_metrics_scan ::
  "(string \<Rightarrow> string + 'p) \<Rightarrow> ('p \<Rightarrow> pve_api) \<Rightarrow> scan_ids \<Rightarrow> string \<Rightarrow> (string \<rightharpoonup> 'p) \<Rightarrow> tracker \<Rightarrow> db
     \<Rightarrow> (string + nat) \<times> (string \<rightharpoonup> 'p) \<times> tracker \<times> db" where
  "proxmox_metrics_scan connect ask ids eid cache t d0 = (case component_get eid d0 of
       (Inl _, d1) \<Rightarrow> (Inl (''get component '' @ eid), cache, t, d1)
     | (Inr c, d1) \<Rightarrow>
         (if \<not> non_empty_config (ic_credentials c) then (Inl (''no credentials configured for '' @ ic_name c), cache, t, d1)
          else case get_or_create_poller connect eid (the (ic_credentials c)) cache of
            (Inl err, cache2) \<Rightarrow> (Inl (''create proxmox poller: '' @ err), cache2, t, d1)
          | (Inr p, cache2) \<Rightarrow> (case collect_node_metrics (ask p) of
                Inl err \<Rightarrow> (Inl (''collect node metrics: '' @ err), cache2, t, d1)
              | Inr ms \<Rightarrow> (case fold (pve_node_scan ids eid c) ms (t, d1) of
                    (t2, d2) \<Rightarrow> (Inr (6 * length ms), cache2, t2,
                      if ms = [] then d2 else db_ignore (component_update_status eid ''online'' (si_polled_at ids) d2))))))"

section \<open>What a poll leaves behind\<close>

lemma check_state_changes_only:
  assumes "d_faults d = []"
  shows "\<exists>st2 es. check_state_changes env cid node gs st d = (st2, d\<lparr>d_events := es\<rparr>)"
  using assms
proof (induction gs arbitrary: st d)
  case Nil
  then show ?case by (simp add: exI [of _ "d_events d"])
next
  case (Cons g gs)
  obtain levels st1 where step: "vm_step (vm_key node (pg_vmid g)) (pg_status g) st = (levels, st1)" by fastforce
  obtain x where x: "post_all event_create (map (vm_event env cid node g) levels) d = d\<lparr>d_events := x\<rparr>"
    using post_all_only [OF Cons.prems] by blast
  obtain st2 y where "check_state_changes env cid node gs st1 (d\<lparr>d_events := x\<rparr>) = (st2, (d\<lparr>d_events := x\<rparr>)\<lparr>d_events := y\<rparr>)"
    using Cons.IH [of "d\<lparr>d_events := x\<rparr>" st1] Cons.prems by auto
  then have "check_state_changes env cid node (g # gs) st d = (st2, d\<lparr>d_events := y\<rparr>)" by (simp add: step x)
  then show ?case by blast
qed

lemma upsert_child_mirrors:
  assumes "d_faults d = []" and "components_ok d"
  shows "mirrors [xv_child_id env cid (pg_vmid g) \<mapsto> vm_status (pg_status g)] d (upsert_child env api cid node g d)"
proof -
  let ?k = "xv_child_id env cid (pg_vmid g)" and ?s = "vm_status (pg_status g)"
  let ?ip = "if pg_status g = ''running'' then fetch_vm_ip api node (pg_vmid g) else []"
  let ?up = "update_where (\<lambda>c. ic_id c = ?k) (\<lambda>c. c\<lparr>ic_last_status := ?s, ic_last_polled_at := Some (xv_polled_at env)\<rparr>) (d_components d)"
  have s: "?s \<in> set component_statuses" by (simp add: vm_status_def component_statuses_def)
  note status = update_status_no_fault [OF assms s, of ?k "xv_polled_at env"]
  show ?thesis
  proof (cases "?k \<in> ic_id ` set (d_components d)")
    case True
    have m: "mirrors [?k \<mapsto> ?s] d (d\<lparr>d_components := ?up\<rparr>)"
      using update_status_mirrors [OF assms s True, of "xv_polled_at env"] True by (simp add: status)
    have "mirrors [?k \<mapsto> ?s] d (db_ignore (component_update_ip ?k ip (d\<lparr>d_components := ?up\<rparr>)))" for ip
      by (rule update_ip_mirrors [OF m]) simp
    then show ?thesis using m by (simp add: upsert_child_def Let_def status True)
  next
    case False
    let ?new = "vm_child (xv_polled_at env) ?k (pg_name g) ?ip ''vm_other'' ?s"
    have row: "component_row_ok ?new"
      using s by (simp add: component_row_ok_def vm_child_def component_types_def collection_methods_def)
    have eq: "upsert_child env api cid node g d = d\<lparr>d_components := d_components d @ [?new],
        d_links := upsert_row link_key link_merge (mk_link ''proxmox_node'' cid ''vm_other'' ?k) (d_links d)\<rparr>"
      using assms(1) False row
      by (simp add: upsert_child_def Let_def status component_create_def set_parent_def)
    have none: "component_row d ?k = None" using False by (simp add: lookup_row_None)
    have ok: "components_ok (d\<lparr>d_components := d_components d @ [?new]\<rparr>)"
      using assms(2) row False by (simp add: components_ok_def)
    show ?thesis
      unfolding eq by (rule mirrorsI) (use ok none assms(1) in \<open>auto simp: components_ok_def lookup_row_append split: option.splits if_splits\<close>)
  qed
qed


abbreviation vm_entry :: "pve_env \<Rightarrow> string \<Rightarrow> pve_guest \<Rightarrow> string \<times> string" where
  "vm_entry env cid g \<equiv> (xv_child_id env cid (pg_vmid g), vm_status (pg_status g))"

abbreviation child_of :: "pve_env \<Rightarrow> string \<Rightarrow> pve_guest \<Rightarrow> string" where
  "child_of env cid g \<equiv> xv_child_id env cid (pg_vmid g)"

lemma upsert_children_mirrors:
  assumes "d_faults d = []" and "components_ok d" and "distinct (map (child_of env cid) gs)"
  shows "mirrors (map_of (map (vm_entry env cid) gs)) d (upsert_children env api cid node gs d)"
  using assms
proof (induction gs arbitrary: d)
  case Nil
  then show ?case by (simp add: upsert_children_def mirrors_refl)
next
  case (Cons g gs)
  let ?k = "xv_child_id env cid (pg_vmid g)" and ?m = "map_of (map (vm_entry env cid) gs)"
  have one: "mirrors [?k \<mapsto> vm_status (pg_status g)] d (upsert_child env api cid node g d)"
    by (rule upsert_child_mirrors [OF Cons.prems(1,2)])
  have rest: "mirrors ?m (upsert_child env api cid node g d) (upsert_children env api cid node gs (upsert_child env api cid node g d))"
    by (rule Cons.IH) (use one Cons.prems(3) in \<open>simp_all add: mirrors_def\<close>)
  have new: "?k \<notin> dom ?m" using Cons.prems(3) by (auto simp: dom_map_of_conv_image_fst)
  then have eq: "map_of (map (vm_entry env cid) (g # gs)) = [?k \<mapsto> vm_status (pg_status g)] ++ ?m"
    by (intro ext) (auto simp: map_add_def split: option.split)
  have up: "upsert_children env api cid node (g # gs) d = upsert_children env api cid node gs (upsert_child env api cid node g d)"
    by (simp add: upsert_children_def)
  show ?case unfolding eq up by (rule mirrors_trans [OF one rest]) (use new in simp)
qed

definition node_answers :: "pve_api \<Rightarrow> string \<Rightarrow> bool" where
  "node_answers api n = (case (pa_status api n, pa_storage api n) of (Inr _, Inr _) \<Rightarrow> True | _ \<Rightarrow> False)"

definition polled_guests :: "pve_api \<Rightarrow> string \<Rightarrow> pve_guest list" where
  "polled_guests api n = (if node_answers api n then (case pa_qemu api n of Inl _ \<Rightarrow> [] | Inr gs \<Rightarrow> gs) else [])"

lemma mirrors_same_components:
  "d_components d1 = d_components d \<Longrightarrow> mirrors f d1 d2 \<longleftrightarrow> mirrors f d d2"
  by (simp only: mirrors_def)

lemma poll_node_mirrors:
  assumes "d_faults d = []" and "components_ok d" and "distinct (map (child_of env cid) (polled_guests api n))"
  shows "\<exists>err st2 d2. poll_node env api cid n st d = (err, st2, d2) \<and> (err = None \<longleftrightarrow> node_answers api n)
    \<and> mirrors (map_of (map (vm_entry env cid) (polled_guests api n))) d d2"
proof -
  have w: "\<exists>rs. write_readings uuid now s t ms (d\<lparr>d_readings := r\<rparr>) = d\<lparr>d_readings := rs\<rparr>" for uuid now s t ms r
    using write_readings_only [of "d\<lparr>d_readings := r\<rparr>"] assms(1) by simp
  show ?thesis
  proof (cases "pa_status api n")
    case (Inl err)
    then show ?thesis
      using assms(1,2) by (simp add: poll_node_def node_answers_def polled_guests_def mirrors_refl)
  next
    case (Inr s)
    obtain rs where rs: "write_readings (xv_reading_uuid env n) (xv_now env) cid ''proxmox_node''
        [(''cpu_percent'', py_cpu s * 100), (''mem_percent'', percent_of (py_mem_used s) (py_mem_total s))] d
      = d\<lparr>d_readings := rs\<rparr>"
      using write_readings_only [OF assms(1)] by blast
    show ?thesis
    proof (cases "pa_storage api n")
      case (Inl err)
      then show ?thesis
        using Inr rs assms(1,2) mirrors_refl [of d] mirrors_refl [of "d\<lparr>d_readings := rs\<rparr>"]
        by (simp add: poll_node_def node_answers_def polled_guests_def mirrors_def components_ok_def del: write_readings.simps)
    next
      case (Inr ss)
      obtain rs2 where rs2: "write_readings (xv_reading_uuid env n) (xv_now env) cid ''proxmox_node''
          [(''disk_percent'', disk_percent ss)] (d\<lparr>d_readings := rs\<rparr>) = d\<lparr>d_readings := rs2\<rparr>"
        using w by blast
      let ?d2 = "d\<lparr>d_readings := rs2\<rparr>"
      have ans: "node_answers api n" using Inr \<open>pa_status api n = Inr s\<close> by (simp add: node_answers_def)
      show ?thesis
      proof (cases "pa_qemu api n")
        case (Inl err)
        then show ?thesis
          using Inr \<open>pa_status api n = Inr s\<close> rs rs2 assms(1,2) ans
          by (simp add: poll_node_def polled_guests_def mirrors_def components_ok_def del: write_readings.simps)
      next
        case (Inr gs)
        obtain st2 es where ch: "check_state_changes env cid n gs st ?d2 = (st2, ?d2\<lparr>d_events := es\<rparr>)"
          using check_state_changes_only [of ?d2 env cid n gs st] assms(1) by auto
        have gs: "polled_guests api n = gs" using ans Inr by (simp add: polled_guests_def)
        have ok: "d_faults (?d2\<lparr>d_events := es\<rparr>) = []" "components_ok (?d2\<lparr>d_events := es\<rparr>)"
          using assms(1,2) by (simp_all add: components_ok_def)
        have "mirrors (map_of (map (vm_entry env cid) gs)) (?d2\<lparr>d_events := es\<rparr>)
            (upsert_children env api cid n gs (?d2\<lparr>d_events := es\<rparr>))"
          by (rule upsert_children_mirrors [OF ok]) (use assms(3) gs in simp)
        then have "mirrors (map_of (map (vm_entry env cid) gs)) d (upsert_children env api cid n gs (?d2\<lparr>d_events := es\<rparr>))"
          by (subst (asm) mirrors_same_components) simp_all
        then show ?thesis
          using \<open>pa_storage api n = Inr ss\<close> \<open>pa_status api n = Inr s\<close> Inr
          by (simp add: poll_node_def rs rs2 ch gs ans del: write_readings.simps)
      qed
    qed
  qed
qed

lemma poll_nodes_mirrors:
  assumes "d_faults d = []" and "components_ok d" and "distinct (map (child_of env cid) (concat (map (polled_guests api) ns)))"
  shows "\<exists>st2 d2. poll_nodes env api cid ns partly st d = (partly \<or> \<not> list_all (node_answers api) ns, st2, d2)
    \<and> mirrors (map_of (map (vm_entry env cid) (concat (map (polled_guests api) ns)))) d d2"
  using assms
proof (induction ns arbitrary: partly st d)
  case Nil
  then show ?case by (simp add: mirrors_refl)
next
  case (Cons n ns)
  let ?f = "map_of (map (vm_entry env cid) (polled_guests api n))"
    and ?g = "map_of (map (vm_entry env cid) (concat (map (polled_guests api) ns)))"
  have dist: "distinct (map (child_of env cid) (polled_guests api n))"
      "distinct (map (child_of env cid) (concat (map (polled_guests api) ns)))" "dom ?g \<inter> dom ?f = {}"
    using Cons.prems(3) by (auto simp: dom_map_of_conv_image_fst image_image)
  obtain err st1 and d1 :: db where one: "poll_node env api cid n st d = (err, st1, d1)" "(err = None) = node_answers api n" "mirrors ?f d d1"
    using poll_node_mirrors [OF Cons.prems(1,2) dist(1)] by blast
  have d1: "d_faults d1 = []" "components_ok d1" using one(3) by (simp_all add: mirrors_def)
  obtain st2 and d2 :: db where rest: "poll_nodes env api cid ns (partly \<or> err \<noteq> None) st1 d1
        = ((partly \<or> err \<noteq> None) \<or> \<not> list_all (node_answers api) ns, st2, d2)" "mirrors ?g d1 d2"
    using Cons.IH [OF d1 dist(2)] by blast
  have "mirrors (?f ++ ?g) d d2" by (rule mirrors_trans [OF one(3) rest(2) dist(3)])
  moreover have "?f ++ ?g = ?g ++ ?f" by (rule map_add_comm) (use dist(3) in blast)
  moreover have "poll_nodes env api cid (n # ns) partly st d
      = (partly \<or> \<not> list_all (node_answers api) (n # ns), st2, d2)"
    using one(2) rest(1) by (auto simp: one(1))
  ultimately show ?case by simp
qed

lemma distinct_children: "distinct (map pg_vmid gs) \<Longrightarrow> inj (xv_child_id env cid) \<Longrightarrow> distinct (map (child_of env cid) gs)"
  by (induction gs) (auto simp: inj_eq image_iff)

text \<open>C21: A poll that reaches the cluster leaves the component online if every node answered and degraded otherwise, and
  every virtual machine that a node which answered lists is a component with the status that follows from its state;
  no row of the component table other than the cluster's and those machines' changes. (Besides the components the
  poll writes readings, events and links, of which this says nothing.) A cluster that cannot be reached changes neither
  the database nor the poller.\<close>

theorem poll_mirrors_cluster:
  assumes "d_faults d = []" and "components_ok d" and "cid \<in> ic_id ` set (d_components d)"
    and "inj (xv_child_id env cid)" and "cid \<notin> range (xv_child_id env cid)"
    and "\<And>ns. list_nodes api = Inr ns \<Longrightarrow> distinct (map pg_vmid (concat (map (polled_guests api) ns)))"
  shows "case proxmox_poll env api cid st d of (err, st2, d2) \<Rightarrow> (case list_nodes api of
      Inl e \<Rightarrow> err = Some e \<and> st2 = st \<and> d2 = d
    | Inr ns \<Rightarrow> err = None
        \<and> map_option ic_last_status (component_row d2 cid)
          = Some (if list_all (node_answers api) ns then ''online'' else ''degraded'')
        \<and> (\<forall>g \<in> set (concat (map (polled_guests api) ns)).
             map_option ic_last_status (component_row d2 (xv_child_id env cid (pg_vmid g))) = Some (vm_status (pg_status g)))
        \<and> (\<forall>k. k \<noteq> cid \<and> k \<notin> (\<lambda>g. xv_child_id env cid (pg_vmid g)) ` set (concat (map (polled_guests api) ns))
             \<longrightarrow> component_row d2 k = component_row d k))"
proof (cases "list_nodes api")
  case (Inl e)
  then show ?thesis by (simp add: proxmox_poll_def)
next
  case (Inr ns)
  let ?gs = "concat (map (polled_guests api) ns)"
  obtain s where s: "s = (if list_all (node_answers api) ns then ''online'' else ''degraded'')" by blast
  have partly: "(if \<not> list_all (node_answers api) ns then ''degraded'' else ''online'') = s" by (simp add: s)
  let ?f = "map_of (map (vm_entry env cid) ?gs)"
  have dist: "distinct (map (child_of env cid) ?gs)"
    using assms(6) [OF Inr] assms(4) by (rule distinct_children)
  obtain st2 and d2 :: db where polled: "poll_nodes env api cid ns False st d = (\<not> list_all (node_answers api) ns, st2, d2)"
      and m: "mirrors ?f d d2"
    using poll_nodes_mirrors [OF assms(1,2) dist, of False st] by auto
  have cid: "?f cid = None" using assms(5) by (auto simp: map_of_eq_None_iff)
  then have "component_row d2 cid = component_row d cid" using m unfolding mirrors_def by (auto dest: spec [of _ cid])
  then have in2: "cid \<in> ic_id ` set (d_components d2)" using assms(3) by (simp add: components_row_ids)
  let ?d3 = "db_ignore (component_update_status cid s (xv_polled_at env) d2)"
  have m3: "mirrors (?f ++ [cid \<mapsto> s]) d ?d3"
    by (rule mirrors_trans [OF m update_status_mirrors [OF _ _ _ in2]])
      (use m cid s in \<open>auto simp: mirrors_def component_statuses_def\<close>)
  have "mirrors (?f ++ [cid \<mapsto> s]) d (db_ignore (component_update_ip cid ip ?d3))" for ip
    by (rule update_ip_mirrors [OF m3]) simp
  moreover have "proxmox_poll env api cid st d = (None, st2, case pa_host api of None \<Rightarrow> ?d3
      | Some host \<Rightarrow> if host \<noteq> [] then db_ignore (component_update_ip cid host ?d3) else ?d3)"
    by (simp only: proxmox_poll_def Inr polled sum.case prod.case Let_def partly)
  ultimately obtain d4 where d4: "proxmox_poll env api cid st d = (None, st2, d4)" "mirrors (?f ++ [cid \<mapsto> s]) d d4"
    using m3 by (cases "pa_host api") auto
  have one: "map_option ic_last_status (component_row d4 (xv_child_id env cid (pg_vmid g))) = Some (vm_status (pg_status g))"
    if "g \<in> set ?gs" for g
  proof -
    have "?f (xv_child_id env cid (pg_vmid g)) = Some (vm_status (pg_status g))"
      by (rule map_of_is_SomeI) (use dist that in \<open>auto simp: comp_def\<close>)
    moreover have "xv_child_id env cid (pg_vmid g) \<noteq> cid" using assms(5) by (metis rangeI)
    ultimately show ?thesis
      using mirrors_row [OF d4(2), of "xv_child_id env cid (pg_vmid g)" "vm_status (pg_status g)"] by (auto simp: map_add_def)
  qed
  have own: "map_option ic_last_status (component_row d4 cid) = Some s"
    using mirrors_row [OF d4(2), of cid s] by auto
  have other: "component_row d4 k = component_row d k" if "k \<noteq> cid" "k \<notin> (\<lambda>g. xv_child_id env cid (pg_vmid g)) ` set ?gs" for k
  proof -
    have "(?f ++ [cid \<mapsto> s]) k = None" using that by (auto simp: map_add_None map_of_eq_None_iff)
    then show ?thesis using d4(2) unfolding mirrors_def by (auto dest: spec [of _ k])
  qed
  show ?thesis
    unfolding d4(1) Inr prod.case sum.case s [symmetric] by (intro conjI ballI allI impI) (simp, rule own, erule one, blast intro: other)
qed

definition sample_pve :: infra_component where
  "sample_pve = \<lparr>ic_id = ''p1'', ic_name = ''pve'', ic_ip = [], ic_type = ''proxmox_node'', ic_collection_method = ''proxmox_api'',
     ic_credentials = Some ''cred'', ic_snmp_config = None, ic_meta = None, ic_notes = [], ic_enabled = True,
     ic_last_polled_at = None, ic_last_status = ''unknown'', ic_created_at = []\<rparr>"

definition sample_pve_db :: db where
  "sample_pve_db = empty_db\<lparr>d_components := [sample_pve]\<rparr>"

definition tally_id :: "string \<Rightarrow> int \<Rightarrow> string" where
  "tally_id cid v = cid @ (if v < 0 then CHR ''-'' # replicate (nat (- v)) CHR ''i'' else CHR ''+'' # replicate (nat v) CHR ''i'')"

definition sample_pve_env :: pve_env where
  "sample_pve_env = \<lparr>xv_now = 0, xv_polled_at = ''t0'', xv_child_id = tally_id, xv_reading_uuid = (\<lambda>n m. n @ m), xv_event_uuid = (\<lambda>k. k)\<rparr>"

definition sample_guest :: pve_guest where
  "sample_guest = \<lparr>pg_vmid = 3, pg_name = ''web'', pg_status = ''running'', pg_cpus = 2, pg_max_mem = 0, pg_max_disk = 0,
     pg_uptime = 0, pg_tags = ''prod;web, ''\<rparr>"

text \<open>Two nodes; the second does not answer its status.\<close>

definition sample_pve_api :: pve_api where
  "sample_pve_api = \<lparr>pa_host = Some ''10.0.0.9'', pa_members = Inr [''n1'', ''n2''],
     pa_status = (\<lambda>n. if n = ''n1'' then Inr \<lparr>py_cpu = 1 / 2, py_cpus = 4, py_mem_used = 1, py_mem_total = 4, py_uptime = 60,
        py_version = ''8''\<rparr> else Inl ''timeout''),
     pa_storage = (\<lambda>n. Inr [\<lparr>px_storage = ''local'', px_type = ''dir'', px_used = 1, px_total = 2, px_active = 1\<rparr>]),
     pa_qemu = (\<lambda>n. Inr [sample_guest]), pa_agent = (\<lambda>n v. Inr [[(''127.0.0.1'', ''ipv4''), (''10.0.0.5'', ''ipv4'')]]),
     pa_config = (\<lambda>n v. Inr [(''ostype'', JStr ''l26''), (''net0'', JStr ''virtio=aa, bridge=vmbr0'')]),
     pa_apt = (\<lambda>n. Inr 3), pa_vzdump = (\<lambda>n. Inr []), pa_failed = (\<lambda>n. Inr []), pa_content = (\<lambda>n s. Inr [])\<rparr>"

lemma tally_id_inj: "inj (tally_id cid)"
proof (rule injI)
  fix v w assume "tally_id cid v = tally_id cid w"
  then have "v < 0 \<longleftrightarrow> w < 0" "nat (- v) = nat (- w) \<or> 0 \<le> v" "nat v = nat w \<or> v < 0"
    by (auto simp: tally_id_def split: if_splits dest: arg_cong [where f = length])
  then show "v = w" by auto
qed

theorem poll_mirrors_cluster_witness:
  "case proxmox_poll sample_pve_env sample_pve_api ''p1'' Map.empty sample_pve_db of (err, st2, d2) \<Rightarrow>
     err = None \<and> map_option ic_last_status (component_row d2 ''p1'') = Some ''degraded''
     \<and> map_option ic_last_status (component_row d2 (tally_id ''p1'' 3)) = Some ''online''"
proof -
  have d: "d_faults sample_pve_db = []" "components_ok sample_pve_db" "''p1'' \<in> ic_id ` set (d_components sample_pve_db)"
    by (simp_all add: sample_pve_db_def empty_db_def components_ok_def component_row_ok_def sample_pve_def
        component_types_def collection_methods_def component_statuses_def)
  have child: "xv_child_id sample_pve_env = tally_id" by (simp add: sample_pve_env_def)
  have own: "''p1'' \<notin> range (xv_child_id sample_pve_env ''p1'')" by (auto simp: child tally_id_def split: if_splits)
  have inj: "inj (xv_child_id sample_pve_env ''p1'')" unfolding child by (rule tally_id_inj)
  have ns: "list_nodes sample_pve_api = Inr [''n1'', ''n2'']" by (simp add: list_nodes_def sample_pve_api_def)
  have gs: "concat (map (polled_guests sample_pve_api) [''n1'', ''n2'']) = [sample_guest]"
    by (simp add: polled_guests_def node_answers_def sample_pve_api_def)
  have one: "distinct (map pg_vmid (concat (map (polled_guests sample_pve_api) ms)))" if "list_nodes sample_pve_api = Inr ms" for ms
  proof -
    have "ms = [''n1'', ''n2'']" using that unfolding ns by simp
    then show ?thesis by (simp only: gs) simp
  qed
  have bad: "list_all (node_answers sample_pve_api) [''n1'', ''n2''] = False"
    by (simp add: node_answers_def sample_pve_api_def)
  have v: "pg_vmid sample_guest = 3" "vm_status (pg_status sample_guest) = ''online''"
    by (simp_all add: sample_guest_def vm_status_def)
  show ?thesis
    using poll_mirrors_cluster [OF d inj own one, of Map.empty]
    unfolding ns sum.case gs bad by (simp add: v child split: prod.splits)
qed

section \<open>What the state changes miss\<close>

text \<open>A virtual machine that is paused before it stops is never reported as stopped, nor as running again.\<close>

lemma pause_hides_stop: "emits_along vm_emit None [''running'', ''paused'', ''stopped'', ''paused'', ''running''] = []"
  by (simp add: vm_emit_def)

text \<open>A virtual machine that moves to another node has a new key: its stop is not reported.\<close>

lemma migration_hides_stop:
  "snd (check_state_changes sample_pve_env ''p1'' ''n2'' [sample_guest\<lparr>pg_status := ''stopped''\<rparr>]
     [vm_key ''n1'' 3 \<mapsto> ''running''] empty_db) = empty_db"
  by code_simp

section \<open>A poller that has just been made\<close>

text \<open>Manual scans, the only callers of the poll, make a new poller each time: no state change is ever reported.\<close>

lemma upsert_child_events: "d_events (upsert_child env api cid node g d) = d_events d"
proof -
  have st: "d_events d1 = d_events d0" if "component_update_status k s p d0 = (r, d1)" for k s p d0 r d1
    using component_change_events [of k _ d0] that unfolding component_update_status_def by (metis snd_conv)
  have ip: "d_events (db_ignore (component_update_ip k i d0)) = d_events d0" for k i d0
    using component_change_events by (simp add: component_update_ip_def db_ignore_def)
  have cr: "d_events d1 = d_events d0" if "component_create c d0 = (r, d1)" for c d0 r d1
    using component_create_events [of c d0] that by simp
  have pa: "d_events (db_ignore (set_parent a b e k d0)) = d_events d0" for a b e k d0
    using set_parent_events by (simp add: db_ignore_def)
  show ?thesis
    unfolding upsert_child_def Let_def by (auto simp: ip pa dest!: st cr split: prod.split sum.split)
qed

lemma upsert_children_events: "d_events (upsert_children env api cid node gs d) = d_events d"
  unfolding upsert_children_def by (induction gs arbitrary: d) (simp_all add: upsert_child_events)

lemma check_state_changes_fresh:
  assumes "distinct (map (\<lambda>g. vm_key node (pg_vmid g)) gs)" and "\<And>g. g \<in> set gs \<Longrightarrow> st (vm_key node (pg_vmid g)) = None"
  shows "\<exists>st2. check_state_changes env cid node gs st d = (st2, d)
    \<and> (\<forall>k. k \<notin> (\<lambda>g. vm_key node (pg_vmid g)) ` set gs \<longrightarrow> st2 k = st k)"
  using assms
proof (induction gs arbitrary: st)
  case (Cons g gs)
  let ?k = "vm_key node (pg_vmid g)"
  have first: "check_state_changes env cid node (g # gs) st d = check_state_changes env cid node gs (st(?k \<mapsto> pg_status g)) d"
    using Cons.prems(2) [of g] by (simp add: vm_step_def vm_emit_def post_all_def)
  have "\<exists>st2. check_state_changes env cid node gs (st(?k \<mapsto> pg_status g)) d = (st2, d)
    \<and> (\<forall>k. k \<notin> (\<lambda>g. vm_key node (pg_vmid g)) ` set gs \<longrightarrow> st2 k = (st(?k \<mapsto> pg_status g)) k)"
  proof (rule Cons.IH)
    show "distinct (map (\<lambda>g. vm_key node (pg_vmid g)) gs)" using Cons.prems(1) by simp
    show "(st(?k \<mapsto> pg_status g)) (vm_key node (pg_vmid h)) = None" if "h \<in> set gs" for h
    proof -
      have "vm_key node (pg_vmid h) \<noteq> ?k" using Cons.prems(1) that by (metis (mono_tags, lifting) distinct.simps(2) image_eqI list.simps(9) set_map)
      then show ?thesis using Cons.prems(2) that by simp
    qed
  qed
  then show ?case unfolding first by fastforce
qed simp

abbreviation listed_keys :: "pve_api \<Rightarrow> string \<Rightarrow> string list" where
  "listed_keys api n \<equiv> map (\<lambda>g. vm_key n (pg_vmid g)) (case pa_qemu api n of Inl _ \<Rightarrow> [] | Inr gs \<Rightarrow> gs)"

lemma poll_node_fresh:
  assumes "distinct (listed_keys api n)" and "\<And>k. k \<in> set (listed_keys api n) \<Longrightarrow> st k = None"
  shows "\<exists>err st2 d2. poll_node env api cid n st d = (err, st2, d2) \<and> d_events d2 = d_events d
    \<and> (\<forall>k. k \<notin> set (listed_keys api n) \<longrightarrow> st2 k = st k)"
proof (cases "pa_qemu api n")
  case (Inl e)
  then show ?thesis by (simp add: poll_node_def Let_def write_readings_events del: write_readings.simps split: sum.split)
next
  case (Inr gs)
  let ?w = "\<lambda>x ss. write_readings (xv_reading_uuid env n) (xv_now env) cid ''proxmox_node'' [(''disk_percent'', disk_percent ss)]
    (write_readings (xv_reading_uuid env n) (xv_now env) cid ''proxmox_node''
       [(''cpu_percent'', py_cpu x * 100), (''mem_percent'', percent_of (py_mem_used x) (py_mem_total x))] d)"
  have w: "d_events (?w x ss) = d_events d" for x ss by (simp only: write_readings_events)
  show ?thesis
  proof (cases "pa_status api n")
    case (Inl e)
    then show ?thesis by (simp add: poll_node_def)
  next
    case status: (Inr x)
    show ?thesis
    proof (cases "pa_storage api n")
      case (Inl e)
      then show ?thesis by (simp add: poll_node_def status write_readings_events del: write_readings.simps)
    next
      case storage: (Inr ss)
      have "\<exists>st2. check_state_changes env cid n gs st (?w x ss) = (st2, ?w x ss)
          \<and> (\<forall>k. k \<notin> (\<lambda>g. vm_key n (pg_vmid g)) ` set gs \<longrightarrow> st2 k = st k)"
        by (rule check_state_changes_fresh) (use assms Inr in simp_all)
      then obtain st2 where st2: "check_state_changes env cid n gs st (?w x ss) = (st2, ?w x ss)"
          "\<And>k. k \<notin> set (listed_keys api n) \<Longrightarrow> st2 k = st k" using Inr by auto
      have "poll_node env api cid n st d = (None, st2, upsert_children env api cid n gs (?w x ss))"
        unfolding poll_node_def status storage sum.case Inr Let_def st2(1) prod.case ..
      then show ?thesis using st2(2) w upsert_children_events by metis
    qed
  qed
qed

lemma fresh_poll_reports_nothing:
  assumes "\<And>ns. list_nodes api = Inr ns \<Longrightarrow> distinct (concat (map (listed_keys api) ns))"
  shows "d_events (snd (snd (proxmox_poll env api cid Map.empty d))) = d_events d"
proof (cases "list_nodes api")
  case (Inl e)
  then show ?thesis by (simp add: proxmox_poll_def)
next
  case (Inr ns)
  have nodes: "d_events (snd (snd (poll_nodes env api cid ms partly st d0))) = d_events d0"
    if "distinct (concat (map (listed_keys api) ms))" "\<And>k. k \<in> set (concat (map (listed_keys api) ms)) \<Longrightarrow> st k = None" for ms partly st d0
    using that
  proof (induction ms arbitrary: partly st d0)
    case (Cons m ms)
    obtain err st2 and d2 :: db where one: "poll_node env api cid m st d0 = (err, st2, d2)" "d_events d2 = d_events d0"
        "\<And>k. k \<notin> set (listed_keys api m) \<Longrightarrow> st2 k = st k"
      using poll_node_fresh [of m api st env cid d0] Cons.prems by (metis (no_types, lifting) Un_iff concat.simps(2) distinct_append list.simps(9) set_append)
    have "st2 k = None" if "k \<in> set (concat (map (listed_keys api) ms))" for k
    proof -
      have "k \<notin> set (listed_keys api m)" using Cons.prems(1) that by auto
      then show ?thesis using one(3) Cons.prems(2) [of k] that by simp
    qed
    then show ?case using Cons.IH [of st2] Cons.prems(1) one(2) by (simp add: one(1))
  qed simp
  have "d_events (db_ignore (component_update_status a b e d0)) = d_events d0" "d_events (db_ignore (component_update_ip a b d0)) = d_events d0" for a b e d0
    using component_change_events by (simp_all add: component_update_ip_def component_update_status_def db_ignore_def)
  moreover have "d_events (snd (snd (poll_nodes env api cid ns False Map.empty d))) = d_events d"
    by (rule nodes [OF assms [OF Inr]]) simp
  ultimately show ?thesis
    by (cases "poll_nodes env api cid ns False Map.empty d") (simp add: proxmox_poll_def Inr Let_def split: option.split)
qed

end
