(* ===== verification/ProxmoxScan.thy ===== *)
theory ProxmoxScan
  imports Proxmox
begin

text \<open>
  Discovery of virtual machines: internal/scanner/discovery/proxmox.go. It reconciles the guests the cluster lists with
  the children of the component. \<open>order\<close> is the order in which Go ranges over the known children.
\<close>

section \<open>One guest\<close>

definition os_component_type :: "string \<Rightarrow> string" where
  "os_component_type os =
     (if os \<in> set [''l24'', ''l26'', ''debian'', ''ubuntu'', ''centos'', ''fedora'', ''opensuse'', ''archlinux'', ''gentoo'',
           ''alpine'', ''nixos''] then ''vm_linux''
      else if os \<in> set [''win10'', ''win11'', ''win7'', ''win8'', ''wxp'', ''w2k'', ''w2k3'', ''w2k8'', ''w2k19'', ''w2k22'']
      then ''vm_windows'' else ''vm_other'')"

type_synonym children = "string \<rightharpoonup> infra_component"

definition known_children :: "infra_component list \<Rightarrow> children" where
  "known_children cs = foldl (\<lambda>m c. m(ic_id c \<mapsto> c)) Map.empty cs"

definition guest_status :: "pve_guest_info \<Rightarrow> string" where
  "guest_status g = vm_status (pg_status (gi_guest g))"

definition guest_type :: "pve_guest_info \<Rightarrow> string" where
  "guest_type g = os_component_type (gi_os_type g)"

abbreviation guest_name :: "pve_guest_info \<Rightarrow> string" where
  "guest_name g \<equiv> pg_name (gi_guest g)"

definition pve_discovery_event ::
  "scan_ids \<Rightarrow> infra_component \<Rightarrow> string \<Rightarrow> string \<Rightarrow> string \<Rightarrow> db \<Rightarrow> db" where
  "pve_discovery_event ids c key level title =
     write_discovery_event (si_event_uuid ids (ic_id c) key) (si_now ids) (ic_id c) (ic_name c) ''physical_host'' level title"

definition discover_guest ::
  "scan_ids \<Rightarrow> (string \<Rightarrow> int \<Rightarrow> string) \<Rightarrow> infra_component \<Rightarrow> pve_guest_info \<Rightarrow> children \<times> nat \<times> db \<Rightarrow> children \<times> nat \<times> db" where
  "discover_guest ids child_id c g st = (case st of (known, found, d) \<Rightarrow>
     (let kid = child_id (ic_id c) (pg_vmid (gi_guest g)); status = guest_status g; ty = guest_type g in
      case known kid of
        Some k \<Rightarrow>
          (if ic_name k \<noteq> guest_name g \<or> ic_last_status k \<noteq> status \<or> ic_type k \<noteq> ty then
             (let k2 = k\<lparr>ic_name := guest_name g, ic_type := ty\<rparr>;
                  d1 = db_ignore (component_update k2 d);
                  d2 = db_ignore (component_update_status kid status (si_polled_at ids) d1);
                  d3 = pve_discovery_event ids c kid ''info'' (''[discovery] vm updated: '' @ guest_name g @ '' (status='' @ status
                         @ '', type='' @ ty @ '')'') d2 in
              (known(kid \<mapsto> k2), Suc found, d3))
           else (known, found, db_ignore (component_update_status kid status (si_polled_at ids) d)))
      | None \<Rightarrow>
          (case component_create (vm_child (si_polled_at ids) kid (guest_name g) (gi_ip g) ty status) d of
             (Inl _, d1) \<Rightarrow> (known, found, d1)
           | (Inr _, d1) \<Rightarrow>
               (let d2 = db_ignore (set_parent ''proxmox_node'' (ic_id c) ty kid d1);
                    d3 = pve_discovery_event ids c kid ''info'' (''[discovery] New vm discovered: '' @ guest_name g @ '' (type=''
                           @ ty @ '')'') d2 in
                (known, Suc found, d3)))))"

section \<open>Guests that are gone\<close>

definition is_vm_type :: "string \<Rightarrow> bool" where
  "is_vm_type t \<longleftrightarrow> t \<in> {''vm_linux'', ''vm_windows'', ''vm_other''}"

definition mark_missing ::
  "scan_ids \<Rightarrow> infra_component \<Rightarrow> string set \<Rightarrow> infra_component \<Rightarrow> nat \<times> db \<Rightarrow> nat \<times> db" where
  "mark_missing ids c current k st = (case st of (gone, d) \<Rightarrow>
     (if \<not> is_vm_type (ic_type k) \<or> ic_id k \<in> current \<or> ic_last_status k = ''offline'' then (gone, d)
      else (Suc gone, pve_discovery_event ids c (ic_id k) ''warn'' (''[discovery] Entity no longer found: '' @ ic_name k)
              (db_ignore (component_update_status (ic_id k) ''offline'' (si_polled_at ids) d)))))"

definition reconcile_guests ::
  "scan_ids \<Rightarrow> (string \<Rightarrow> int \<Rightarrow> string) \<Rightarrow> (children \<Rightarrow> infra_component list) \<Rightarrow> infra_component \<Rightarrow> pve_guest_info list
     \<Rightarrow> infra_component list \<Rightarrow> db \<Rightarrow> discovery_result \<times> db" where
  "reconcile_guests ids child_id order c gs existing d =
     (let current = set (map (\<lambda>g. child_id (ic_id c) (pg_vmid (gi_guest g))) gs) in
      case fold (discover_guest ids child_id c) gs (known_children existing, 0, d) of (known, found, d1) \<Rightarrow>
      (case fold (mark_missing ids c current) (order known) (0, d1) of (gone, d2) \<Rightarrow>
        (\<lparr>ds_found = found, ds_disappeared = gone\<rparr>,
         if found = 0 \<and> gone = 0
         then pve_discovery_event ids c [] ''debug'' (''[discovery] '' @ ic_name c @ '' discovery completed '' @ em_dash @ '' no changes'') d2
         else d2)))"

definition proxmox_discover ::
  "(string \<Rightarrow> string + pve_api) \<Rightarrow> scan_ids \<Rightarrow> (string \<Rightarrow> int \<Rightarrow> string) \<Rightarrow> (children \<Rightarrow> infra_component list) \<Rightarrow> string \<Rightarrow> db
     \<Rightarrow> (string + discovery_result) \<times> db" where
  "proxmox_discover connect ids child_id order eid d0 = (case component_get eid d0 of
       (Inl _, d1) \<Rightarrow> (Inl (''get component '' @ eid), d1)
     | (Inr c, d1) \<Rightarrow>
         (if \<not> non_empty_config (ic_credentials c) then (Inl (''no credentials configured for '' @ ic_name c), d1)
          else case connect (the (ic_credentials c)) of
            Inl err \<Rightarrow> (Inl (''create proxmox poller: '' @ err), d1)
          | Inr api \<Rightarrow> (case fetch_guests api of
                Inl err \<Rightarrow> (Inl (''fetch guests: '' @ err), d1)
              | Inr gs \<Rightarrow> (case component_list_by_parent eid d1 of
                    (Inl _, d2) \<Rightarrow> (Inl ''list children'', d2)
                  | (Inr existing, d2) \<Rightarrow>
                      (case reconcile_guests ids child_id order c gs existing d2 of (r, d3) \<Rightarrow> (Inr r, d3))))))"

section \<open>What a discovery leaves behind\<close>

text \<open>The children of a component: components with a link to it.\<close>

definition linked :: "string \<Rightarrow> db \<Rightarrow> string \<Rightarrow> bool" where
  "linked eid d k \<longleftrightarrow> (\<exists>l \<in> set (d_links d). cl_child_id l = k \<and> cl_parent_id l = eid)"

definition child_rows :: "string \<Rightarrow> db \<Rightarrow> children" where
  "child_rows eid d = (\<lambda>k. if linked eid d k then component_row d k else None)"

lemma known_children_at: "known_children cs k = lookup_row ic_id k (rev cs)"
proof -
  have "foldl (\<lambda>m c. m(ic_id c \<mapsto> c)) m cs k = (case lookup_row ic_id k (rev cs) of Some c \<Rightarrow> Some c | None \<Rightarrow> m k)" for m
    by (induction cs arbitrary: m) (auto simp: lookup_row_append split: option.split)
  then show ?thesis by (simp add: known_children_def split: option.split)
qed

lemma lookup_row_unique:
  assumes "inj_on key (set ys)" and "set xs \<subseteq> set ys" and "k \<in> key ` set xs"
  shows "lookup_row key k xs = lookup_row key k ys"
proof -
  obtain x where x: "lookup_row key k xs = Some x" using assms(3) lookup_row_None [of key k xs] by auto
  obtain y where y: "lookup_row key k ys = Some y" using assms(2,3) lookup_row_None [of key k ys] by auto
  have "x \<in> set ys" "key x = key y" "y \<in> set ys"
    using lookup_row_Some [OF x] lookup_row_Some [OF y] assms(2) by auto
  then show ?thesis using assms(1) x y by (simp add: inj_onD)
qed

lemma list_by_parent_rows:
  assumes "d_faults d = []" and "components_ok d"
  shows "\<exists>ex. component_list_by_parent eid d = (Inr ex, d) \<and> known_children ex = child_rows eid d"
proof -
  let ?raw = "concat (map (\<lambda>c. map (\<lambda>_. c) (filter (\<lambda>l. cl_child_id l = ic_id c \<and> cl_parent_id l = eid) (d_links d))) (d_components d))"
  let ?ex = "order_asc ic_type (order_asc ic_name ?raw)"
  have list: "component_list_by_parent eid d = (Inr ?ex, d)" using assms(1) by (simp add: component_list_by_parent_def)
  have set: "set (rev ?ex) = {c \<in> set (d_components d). linked eid d (ic_id c)}"
    by (auto simp: order_asc_def linked_def)
  have inj: "inj_on ic_id (set (d_components d))" using assms(2) by (simp add: components_ok_def distinct_map)
  have "known_children ?ex k = child_rows eid d k" for k
  proof (cases "k \<in> ic_id ` set (rev ?ex)")
    case True
    have "lookup_row ic_id k (rev ?ex) = component_row d k"
      by (rule lookup_row_unique [OF inj _ True]) (use set in blast)
    moreover have "linked eid d k" using True unfolding set by auto
    ultimately show ?thesis by (simp only: known_children_at child_rows_def if_True)
  next
    case False
    then have "lookup_row ic_id k (rev ?ex) = None" by (simp only: lookup_row_None simp_thms)
    moreover have "child_rows eid d k = None"
    proof (cases "linked eid d k")
      case True
      then have "k \<notin> ic_id ` set (d_components d)" using False unfolding set by auto
      then show ?thesis by (simp add: child_rows_def lookup_row_None)
    qed (simp add: child_rows_def)
    ultimately show ?thesis by (simp only: known_children_at)
  qed
  then show ?thesis using list by blast
qed

text \<open>What one guest does to the rows.\<close>

definition shows_guest :: "infra_component \<Rightarrow> pve_guest_info \<Rightarrow> bool" where
  "shows_guest r g \<longleftrightarrow> ic_name r = guest_name g \<and> ic_last_status r = guest_status g \<and> ic_type r = guest_type g"

definition stays_for :: "(string \<Rightarrow> bool) \<Rightarrow> string \<Rightarrow> db \<Rightarrow> db \<Rightarrow> bool" where
  "stays_for P eid d d2 \<longleftrightarrow> d_faults d2 = [] \<and> components_ok d2
     \<and> (\<forall>k. P k \<longrightarrow> component_row d2 k = component_row d k \<and> linked eid d2 k = linked eid d k)"

lemma guest_type_ok: "guest_type g \<in> set component_types" "is_vm_type (guest_type g)"
  by (auto simp: guest_type_def os_component_type_def component_types_def is_vm_type_def)

lemma guest_status_ok: "guest_status g \<in> set component_statuses"
  by (auto simp: guest_status_def vm_status_def component_statuses_def)

lemma discovery_event_only:
  assumes "d_faults d = []"
  shows "\<exists>es. pve_discovery_event ids c key level title d = d\<lparr>d_events := es\<rparr>"
  using event_create_only [OF assms] by (simp add: pve_discovery_event_def write_discovery_event_def db_ignore_def)

lemma linked_set_parent:
  assumes "d_faults d = []"
  shows "linked eid (snd (set_parent pt eid ct kid d)) k \<longleftrightarrow> k = kid \<or> linked eid d k"
proof -
  let ?l = "mk_link pt eid ct kid"
  have l: "cl_child_id ?l = kid" "cl_parent_id ?l = eid" by (simp_all add: mk_link_def)
  have m: "cl_child_id (link_merge x ?l) = cl_child_id x" "cl_parent_id (link_merge x ?l) = eid" for x
    by (simp_all add: link_merge_def mk_link_def)
  have key: "link_key x = (ct, kid) \<Longrightarrow> cl_child_id x = kid" for x by (simp add: link_key_def)
  have "(\<exists>x \<in> set (upsert_row link_key link_merge ?l (d_links d)). cl_child_id x = k \<and> cl_parent_id x = eid)
      \<longleftrightarrow> k = kid \<or> linked eid d k"
  proof (cases "(ct, kid) \<in> link_key ` set (d_links d)")
    case True
    then obtain x0 where x0: "x0 \<in> set (d_links d)" "link_key x0 = (ct, kid)" by auto
    have up: "set (upsert_row link_key link_merge ?l (d_links d))
        = (\<lambda>x. if link_key x = (ct, kid) then link_merge x ?l else x) ` set (d_links d)"
      using True by (simp add: upsert_row_def)
    show ?thesis
    proof
      assume "\<exists>x \<in> set (upsert_row link_key link_merge ?l (d_links d)). cl_child_id x = k \<and> cl_parent_id x = eid"
      then obtain y where y: "y \<in> set (d_links d)" "cl_child_id (if link_key y = (ct, kid) then link_merge y ?l else y) = k"
          "cl_parent_id (if link_key y = (ct, kid) then link_merge y ?l else y) = eid"
        unfolding up by blast
      then show "k = kid \<or> linked eid d k"
        by (cases "link_key y = (ct, kid)") (use key [of y] m(1) [of y] in \<open>auto simp: linked_def\<close>)
    next
      assume h: "k = kid \<or> linked eid d k"
      show "\<exists>x \<in> set (upsert_row link_key link_merge ?l (d_links d)). cl_child_id x = k \<and> cl_parent_id x = eid"
      proof (cases "k = kid")
        case True
        have "link_merge x0 ?l \<in> set (upsert_row link_key link_merge ?l (d_links d))"
          unfolding up by (rule image_eqI [of _ _ x0]) (simp_all add: x0)
        then show ?thesis using True m [of x0] key [OF x0(2)] by (intro bexI [of _ "link_merge x0 ?l"]) simp_all
      next
        case False
        then obtain y where y: "y \<in> set (d_links d)" "cl_child_id y = k" "cl_parent_id y = eid" using h by (auto simp: linked_def)
        then have "link_key y \<noteq> (ct, kid)" using False key [of y] by blast
        then have "y \<in> set (upsert_row link_key link_merge ?l (d_links d))"
          unfolding up by (intro image_eqI [of _ _ y]) (simp_all add: y)
        then show ?thesis using y by blast
      qed
    qed
  next
    case False
    then show ?thesis by (auto simp: upsert_row_def linked_def l)
  qed
  then show ?thesis using assms by (simp add: set_parent_def linked_def)
qed

text \<open>A guest whose child is known, one that is new, and one whose id belongs to a component that is not a child.\<close>

lemma discover_guest_step:
  assumes "d_faults d = []" and "components_ok d"
    and "known (child_id (ic_id c) (pg_vmid (gi_guest g))) = child_rows (ic_id c) d (child_id (ic_id c) (pg_vmid (gi_guest g)))"
  shows "case discover_guest ids child_id c g (known, n, d) of (known2, n2, d2) \<Rightarrow>
    stays_for (\<lambda>k. k \<noteq> child_id (ic_id c) (pg_vmid (gi_guest g))) (ic_id c) d d2
    \<and> (\<forall>k. k \<noteq> child_id (ic_id c) (pg_vmid (gi_guest g)) \<longrightarrow> known2 k = known k) \<and> dom known2 = dom known
    \<and> (\<exists>r. component_row d2 (child_id (ic_id c) (pg_vmid (gi_guest g))) = Some r
         \<and> (linked (ic_id c) d2 (child_id (ic_id c) (pg_vmid (gi_guest g))) \<longrightarrow> shows_guest r g))"
proof -
  let ?k = "child_id (ic_id c) (pg_vmid (gi_guest g))" and ?s = "guest_status g" and ?t = "guest_type g"
  show ?thesis
  proof (cases "known ?k")
    case (Some r)
    then have lr: "linked (ic_id c) d ?k" "component_row d ?k = Some r"
      using assms(3) by (simp_all add: child_rows_def split: if_splits)
    have rk: "ic_id r = ?k" "r \<in> set (d_components d)" using lookup_row_Some [OF lr(2)] by simp_all
    have inn: "?k \<in> ic_id ` set (d_components d)" by (rule lookup_row_in [OF lr(2)])
    have rok: "component_row_ok r" using assms(2) rk(2) by (simp add: components_ok_def list_all_iff)
    show ?thesis
    proof (cases "ic_name r \<noteq> guest_name g \<or> ic_last_status r \<noteq> ?s \<or> ic_type r \<noteq> ?t")
      case False
      let ?d2 = "d\<lparr>d_components := update_where (\<lambda>c. ic_id c = ?k)
        (\<lambda>c. c\<lparr>ic_last_status := ?s, ic_last_polled_at := Some (si_polled_at ids)\<rparr>) (d_components d)\<rparr>"
      have eq: "discover_guest ids child_id c g (known, n, d) = (known, n, ?d2)"
        using False inn by (simp add: discover_guest_def Let_def Some update_status_no_fault [OF assms(1,2) guest_status_ok])
      have ok: "components_ok ?d2"
        by (rule components_ok_change [OF assms(2)]) (use guest_status_ok in \<open>simp_all add: component_row_ok_def\<close>)
      show ?thesis
        using ok assms(1) lr False
        by (simp add: eq stays_for_def component_row_change linked_def shows_guest_def)
    next
      case True
      let ?r2 = "r\<lparr>ic_name := guest_name g, ic_type := ?t\<rparr>"
      let ?f = "\<lambda>c. c\<lparr>ic_name := ic_name ?r2, ic_ip := ic_ip ?r2, ic_type := ic_type ?r2,
         ic_collection_method := ic_collection_method ?r2, ic_credentials := ic_credentials ?r2,
         ic_snmp_config := ic_snmp_config ?r2, ic_notes := ic_notes ?r2, ic_enabled := ic_enabled ?r2,
         ic_last_status := ic_last_status ?r2\<rparr>"
      let ?d1 = "d\<lparr>d_components := update_where (\<lambda>c. ic_id c = ?k) ?f (d_components d)\<rparr>"
      let ?g = "\<lambda>c. c\<lparr>ic_last_status := ?s, ic_last_polled_at := Some (si_polled_at ids)\<rparr>"
      let ?d2 = "d\<lparr>d_components := update_where (\<lambda>c. ic_id c = ?k) ?g (update_where (\<lambda>c. ic_id c = ?k) ?f (d_components d))\<rparr>"
      have fok: "component_row_ok (?f x)" for x :: infra_component
        using rok guest_type_ok(1) by (simp add: component_row_ok_def)
      have up: "component_update ?r2 d = (Inr (), ?d1)"
        unfolding component_update_def using inn rk(1) fok
        by (subst component_change_no_fault [OF assms(1,2)]) simp_all
      have ok1: "components_ok ?d1" by (rule components_ok_change [OF assms(2)]) (simp, rule fok)
      have in1: "?k \<in> ic_id ` set (d_components ?d1)" using inn by (simp add: component_ids_change flip: set_map)
      have f1: "d_faults ?d1 = []" using assms(1) by simp
      have st: "component_update_status ?k ?s (si_polled_at ids) ?d1 = (Inr (), ?d2)"
        using in1 by (subst update_status_no_fault [OF f1 ok1 guest_status_ok]) (simp only: if_True, simp)
      have ok2: "components_ok ?d2"
        using components_ok_change [OF ok1, of ?g "\<lambda>c. ic_id c = ?k"] guest_status_ok by (simp add: component_row_ok_def)
      have f2: "d_faults ?d2 = []" using assms(1) by simp
      obtain es where es: "pve_discovery_event ids c ?k ''info'' (''[discovery] vm updated: '' @ guest_name g @ '' (status='' @ ?s
                         @ '', type='' @ ?t @ '')'') ?d2 = ?d2\<lparr>d_events := es\<rparr>"
        using discovery_event_only [OF f2] by blast
      have eq: "discover_guest ids child_id c g (known, n, d) = (known(?k \<mapsto> ?r2), Suc n, ?d2\<lparr>d_events := es\<rparr>)"
        unfolding discover_guest_def Let_def prod.case Some option.case using True
        by (simp only: if_True up st db_ignore_simp es)
      show ?thesis
        unfolding eq prod.case
        using ok2 assms(1) lr
        by (simp add: stays_for_def component_row_change linked_def shows_guest_def components_ok_def dom_def)
          (auto simp: Some)
    qed
  next
    case None
    let ?new = "vm_child (si_polled_at ids) ?k (guest_name g) (gi_ip g) ?t ?s"
    have row: "component_row_ok ?new"
      using guest_type_ok(1) guest_status_ok by (simp add: component_row_ok_def collection_methods_def)
    show ?thesis
    proof (cases "?k \<in> ic_id ` set (d_components d)")
      case True
      then obtain r where r: "component_row d ?k = Some r" using lookup_row_None [of ic_id ?k "d_components d"] by auto
      have "\<not> linked (ic_id c) d ?k" using None assms(3) r by (simp add: child_rows_def split: if_splits)
      then show ?thesis
        using True r assms(1,2) by (simp add: discover_guest_def Let_def None component_create_def stays_for_def)
    next
      case False
      let ?d1 = "d\<lparr>d_components := d_components d @ [?new]\<rparr>"
      let ?d2 = "snd (set_parent ''proxmox_node'' (ic_id c) ?t ?k ?d1)"
      have cr: "component_create ?new d = (Inr (), ?d1)"
        using False row assms(1) by (simp add: component_create_def)
      have f1: "d_faults ?d1 = []" using assms(1) by simp
      have d2: "d_components ?d2 = d_components d @ [?new]" "d_faults ?d2 = []" using assms(1) by (simp_all add: set_parent_def)
      obtain es where es: "pve_discovery_event ids c ?k ''info'' (''[discovery] New vm discovered: '' @ guest_name g @ '' (type=''
                           @ ?t @ '')'') ?d2 = ?d2\<lparr>d_events := es\<rparr>"
        using discovery_event_only [OF d2(2)] by blast
      have eq: "discover_guest ids child_id c g (known, n, d) = (known, Suc n, ?d2\<lparr>d_events := es\<rparr>)"
        unfolding discover_guest_def Let_def prod.case None option.case cr sum.case db_ignore_def es ..
      have none: "component_row d ?k = None" using False by (simp add: lookup_row_None)
      have li: "linked (ic_id c) (?d2\<lparr>d_events := es\<rparr>) k \<longleftrightarrow> k = ?k \<or> linked (ic_id c) d k" for k
        using linked_set_parent [OF f1, of "ic_id c" "''proxmox_node''" ?t ?k k] by (simp add: linked_def)
      have ok: "components_ok (?d2\<lparr>d_events := es\<rparr>)"
        using assms(2) row False by (simp add: components_ok_def d2)
      show ?thesis
        unfolding eq prod.case stays_for_def li
        using ok none d2 by (auto simp: lookup_row_append shows_guest_def split: option.split)
    qed
  qed
qed


abbreviation kid_of :: "(string \<Rightarrow> int \<Rightarrow> string) \<Rightarrow> infra_component \<Rightarrow> pve_guest_info \<Rightarrow> string" where
  "kid_of child_id c g \<equiv> child_id (ic_id c) (pg_vmid (gi_guest g))"

lemma discover_guests_all:
  assumes "d_faults d = []" and "components_ok d" and "distinct (map (kid_of child_id c) gs)"
    and "\<And>g. g \<in> set gs \<Longrightarrow> known (kid_of child_id c g) = child_rows (ic_id c) d (kid_of child_id c g)"
  shows "\<exists>known2 n2 d2. fold (discover_guest ids child_id c) gs (known, n, d) = (known2, n2, d2)
    \<and> stays_for (\<lambda>k. k \<notin> kid_of child_id c ` set gs) (ic_id c) d d2
    \<and> (\<forall>k. k \<notin> kid_of child_id c ` set gs \<longrightarrow> known2 k = known k) \<and> dom known2 = dom known
    \<and> (\<forall>g \<in> set gs. \<exists>r. component_row d2 (kid_of child_id c g) = Some r
         \<and> (linked (ic_id c) d2 (kid_of child_id c g) \<longrightarrow> shows_guest r g))"
  using assms
proof (induction gs arbitrary: known n d)
  case Nil
  then show ?case by (simp add: stays_for_def)
next
  case (Cons g gs)
  let ?k = "kid_of child_id c g" and ?ks = "kid_of child_id c ` set gs"
  obtain known1 n1 and d1 :: db where step: "discover_guest ids child_id c g (known, n, d) = (known1, n1, d1)" by (cases "discover_guest ids child_id c g (known, n, d)")
  have k: "known ?k = child_rows (ic_id c) d ?k" using Cons.prems(4) [of g] by simp
  from discover_guest_step [of d known child_id c g ids n, OF Cons.prems(1,2) k] have one: "stays_for (\<lambda>k. k \<noteq> ?k) (ic_id c) d d1"
      "\<And>k. k \<noteq> ?k \<Longrightarrow> known1 k = known k" "dom known1 = dom known"
      "\<exists>r. component_row d1 ?k = Some r \<and> (linked (ic_id c) d1 ?k \<longrightarrow> shows_guest r g)"
    unfolding step prod.case by blast+
  have d1: "d_faults d1 = []" "components_ok d1" using one(1) by (simp_all add: stays_for_def)
  have notin: "?k \<notin> ?ks" "distinct (map (kid_of child_id c) gs)" using Cons.prems(3) by auto
  have rest: "known1 (kid_of child_id c h) = child_rows (ic_id c) d1 (kid_of child_id c h)" if "h \<in> set gs" for h
  proof -
    have ne: "kid_of child_id c h \<noteq> ?k" using that notin(1) by (metis imageI)
    show ?thesis
      using one(1,2) ne Cons.prems(4) [of h] that unfolding stays_for_def child_rows_def by simp
  qed
  obtain known2 n2 and d2 :: db where two: "fold (discover_guest ids child_id c) gs (known1, n1, d1) = (known2, n2, d2)"
      "stays_for (\<lambda>k. k \<notin> ?ks) (ic_id c) d1 d2" "\<And>k. k \<notin> ?ks \<Longrightarrow> known2 k = known1 k" "dom known2 = dom known1"
      "\<And>h. h \<in> set gs \<Longrightarrow> \<exists>r. component_row d2 (kid_of child_id c h) = Some r
         \<and> (linked (ic_id c) d2 (kid_of child_id c h) \<longrightarrow> shows_guest r h)"
    using Cons.IH [OF d1 notin(2) rest, of n1] by blast
  have same: "component_row d2 ?k = component_row d1 ?k" "linked (ic_id c) d2 ?k = linked (ic_id c) d1 ?k"
    using two(2) notin(1) by (simp_all add: stays_for_def)
  have stays: "stays_for (\<lambda>k. k \<notin> kid_of child_id c ` set (g # gs)) (ic_id c) d d2"
    using one(1) two(2) by (simp add: stays_for_def)
  have kn: "known2 k = known k" if "k \<notin> kid_of child_id c ` set (g # gs)" for k
    using that one(2) two(3) by simp
  have all: "\<exists>r. component_row d2 (kid_of child_id c h) = Some r
         \<and> (linked (ic_id c) d2 (kid_of child_id c h) \<longrightarrow> shows_guest r h)" if "h \<in> set (g # gs)" for h
    using that one(4) two(5) same by auto
  have "fold (discover_guest ids child_id c) (g # gs) (known, n, d) = (known2, n2, d2)" by (simp add: step two(1))
  moreover have "dom known2 = dom known" using one(3) two(4) by simp
  ultimately show ?case using stays kn all by blast
qed

definition went_offline :: "infra_component \<Rightarrow> infra_component \<Rightarrow> bool" where
  "went_offline r r2 \<longleftrightarrow> ic_type r2 = ic_type r \<and> ic_credentials r2 = ic_credentials r
     \<and> (ic_last_status r2 = ic_last_status r \<or> ic_last_status r2 = ''offline'')"

definition only_goes_offline :: "db \<Rightarrow> db \<Rightarrow> bool" where
  "only_goes_offline d d2 \<longleftrightarrow> d_faults d2 = [] \<and> components_ok d2 \<and> d_links d2 = d_links d
     \<and> (\<forall>k. rel_option went_offline (component_row d k) (component_row d2 k))"

lemma went_offline_refl: "rel_option went_offline x x"
  by (rule option.rel_refl) (simp add: went_offline_def)

lemma went_offline_trans: "rel_option went_offline x y \<Longrightarrow> rel_option went_offline y z \<Longrightarrow> rel_option went_offline x z"
  by (cases x; cases y; cases z) (auto simp: went_offline_def)

lemma only_goes_offline_refl: "d_faults d = [] \<Longrightarrow> components_ok d \<Longrightarrow> only_goes_offline d d"
  by (simp add: only_goes_offline_def went_offline_refl)

lemma only_goes_offlineD:
  assumes "only_goes_offline d d2" and "component_row d k = Some r"
  shows "\<exists>r2. component_row d2 k = Some r2 \<and> went_offline r r2"
proof -
  have "rel_option went_offline (component_row d k) (component_row d2 k)" using assms(1) by (simp add: only_goes_offline_def)
  then show ?thesis unfolding assms(2) by (simp add: option_rel_Some1)
qed

lemma only_goes_offline_None:
  assumes "only_goes_offline d d2" and "component_row d k = None"
  shows "component_row d2 k = None"
proof -
  have "rel_option went_offline (component_row d k) (component_row d2 k)" using assms(1) by (simp add: only_goes_offline_def)
  then show ?thesis unfolding assms(2) by simp
qed

lemma only_goes_offline_trans: "only_goes_offline d d1 \<Longrightarrow> only_goes_offline d1 d2 \<Longrightarrow> only_goes_offline d d2"
  unfolding only_goes_offline_def by (metis went_offline_trans)

definition missing :: "string set \<Rightarrow> infra_component \<Rightarrow> bool" where
  "missing cur k \<longleftrightarrow> is_vm_type (ic_type k) \<and> ic_id k \<notin> cur \<and> ic_last_status k \<noteq> ''offline''"

lemma mark_missing_step:
  assumes "d_faults d = []" and "components_ok d"
  shows "\<exists>d2. mark_missing ids c cur k (n, d) = (if missing cur k then Suc n else n, d2) \<and> only_goes_offline d d2
    \<and> (\<forall>j. j \<in> cur \<longrightarrow> component_row d2 j = component_row d j)
    \<and> (missing cur k \<longrightarrow> (\<forall>r. component_row d2 (ic_id k) = Some r \<longrightarrow> ic_last_status r = ''offline''))"
proof (cases "missing cur k")
  case False
  then show ?thesis using only_goes_offline_refl [OF assms] by (auto simp: mark_missing_def missing_def)
next
  case True
  let ?g = "\<lambda>c. c\<lparr>ic_last_status := ''offline'', ic_last_polled_at := Some (si_polled_at ids)\<rparr>"
  let ?d1 = "d\<lparr>d_components := update_where (\<lambda>c. ic_id c = ic_id k) ?g (d_components d)\<rparr>"
  have off: "''offline'' \<in> set component_statuses" by (simp add: component_statuses_def)
  have ok: "components_ok ?d1"
    by (rule components_ok_change [OF assms(2)]) (use off in \<open>simp_all add: component_row_ok_def\<close>)
  have d1: "db_ignore (component_update_status (ic_id k) ''offline'' (si_polled_at ids) d) = ?d1"
  proof (cases "ic_id k \<in> ic_id ` set (d_components d)")
    case False
    then have "update_where (\<lambda>c. ic_id c = ic_id k) ?g (d_components d) = d_components d"
      by (intro update_where_absent) (metis imageI)
    then have "?d1 = d" by simp
    then show ?thesis using False by (simp add: update_status_no_fault [OF assms off] db_ignore_def)
  qed (simp add: update_status_no_fault [OF assms off])
  have f1: "d_faults ?d1 = []" using assms(1) by simp
  obtain es where es: "pve_discovery_event ids c (ic_id k) ''warn'' (''[discovery] Entity no longer found: '' @ ic_name k) ?d1
      = ?d1\<lparr>d_events := es\<rparr>"
    using discovery_event_only [OF f1] by blast
  have eq: "mark_missing ids c cur k (n, d) = (Suc n, ?d1\<lparr>d_events := es\<rparr>)"
    using True unfolding mark_missing_def prod.case d1 es missing_def by (simp only: simp_thms if_False)
  have row: "component_row (?d1\<lparr>d_events := es\<rparr>) j
      = (if j = ic_id k then map_option ?g (component_row d j) else component_row d j)" for j
    by (simp add: component_row_change)
  have "only_goes_offline d (?d1\<lparr>d_events := es\<rparr>)"
    using ok assms(1) unfolding only_goes_offline_def row
    by (simp add: components_ok_def went_offline_refl option.rel_map) (auto simp: went_offline_def intro: option.rel_refl)
  moreover have "ic_id k \<notin> cur" using True by (simp add: missing_def)
  ultimately show ?thesis
    unfolding eq using True by (intro exI [of _ "?d1\<lparr>d_events := es\<rparr>"] conjI) (auto simp: component_row_change)
qed

lemma mark_missing_all:
  assumes "d_faults d = []" and "components_ok d"
  shows "\<exists>d2. fold (mark_missing ids c cur) ks (n, d) = (n + length (filter (missing cur) ks), d2) \<and> only_goes_offline d d2
    \<and> (\<forall>j. j \<in> cur \<longrightarrow> component_row d2 j = component_row d j)
    \<and> (\<forall>k \<in> set ks. missing cur k \<longrightarrow> (\<forall>r. component_row d2 (ic_id k) = Some r \<longrightarrow> ic_last_status r = ''offline''))"
  using assms
proof (induction ks arbitrary: n d)
  case Nil
  then show ?case by (simp add: only_goes_offline_refl)
next
  case (Cons k ks)
  obtain d1 where one: "mark_missing ids c cur k (n, d) = (if missing cur k then Suc n else n, d1)" "only_goes_offline d d1"
      "\<And>j. j \<in> cur \<Longrightarrow> component_row d1 j = component_row d j"
      "\<And>r. missing cur k \<Longrightarrow> component_row d1 (ic_id k) = Some r \<Longrightarrow> ic_last_status r = ''offline''"
    using mark_missing_step [OF Cons.prems, of ids c cur k n] by (elim exE conjE) (rule that; blast)
  have d1: "d_faults d1 = []" "components_ok d1" using one(2) by (simp_all add: only_goes_offline_def)
  obtain d2 where two: "fold (mark_missing ids c cur) ks (if missing cur k then Suc n else n, d1)
        = ((if missing cur k then Suc n else n) + length (filter (missing cur) ks), d2)" "only_goes_offline d1 d2"
      "\<And>j. j \<in> cur \<Longrightarrow> component_row d2 j = component_row d1 j"
      "\<And>h r. h \<in> set ks \<Longrightarrow> missing cur h \<Longrightarrow> component_row d2 (ic_id h) = Some r \<Longrightarrow> ic_last_status r = ''offline''"
    using Cons.IH [OF d1, of "if missing cur k then Suc n else n"] by (elim exE conjE) (rule that; blast)
  have k: "ic_last_status r = ''offline''" if "missing cur k" "component_row d2 (ic_id k) = Some r" for r
  proof (cases "component_row d1 (ic_id k)")
    case None
    then show ?thesis using only_goes_offline_None [OF two(2) None] that(2) by simp
  next
    case (Some r1)
    then show ?thesis using only_goes_offlineD [OF two(2) Some] one(4) [OF that(1) Some] that(2) by (auto simp: went_offline_def)
  qed
  have "fold (mark_missing ids c cur) (k # ks) (n, d) = (n + length (filter (missing cur) (k # ks)), d2)"
    by (simp add: one(1) two(1) [unfolded one(1)])
  moreover have "only_goes_offline d d2" by (rule only_goes_offline_trans [OF one(2) two(2)])
  moreover have "component_row d2 j = component_row d j" if "j \<in> cur" for j using one(3) two(3) that by simp
  moreover have "ic_last_status r = ''offline''" if "h \<in> set (k # ks)" "missing cur h" "component_row d2 (ic_id h) = Some r" for h r
    using that k two(4) by auto
  ultimately show ?case by blast
qed

section \<open>A second discovery\<close>

lemma discover_guests_settled:
  assumes "d_faults d = []" and "components_ok d"
    and "\<And>g. g \<in> set gs \<Longrightarrow> (case known (kid_of child_id c g) of
         Some r \<Rightarrow> shows_guest r g | None \<Rightarrow> kid_of child_id c g \<in> ic_id ` set (d_components d))"
  shows "\<exists>d2. fold (discover_guest ids child_id c) gs (known, n, d) = (known, n, d2) \<and> d_faults d2 = [] \<and> components_ok d2"
  using assms
proof (induction gs arbitrary: d)
  case Nil
  then show ?case by simp
next
  case (Cons g gs)
  let ?k = "kid_of child_id c g" and ?s = "guest_status g"
  have k: "case known ?k of Some r \<Rightarrow> shows_guest r g | None \<Rightarrow> ?k \<in> ic_id ` set (d_components d)"
    using Cons.prems(3) [of g] by simp
  have "\<exists>d1. discover_guest ids child_id c g (known, n, d) = (known, n, d1) \<and> d_faults d1 = [] \<and> components_ok d1
      \<and> map ic_id (d_components d1) = map ic_id (d_components d)"
  proof (cases "known ?k")
    case None
    then show ?thesis using k Cons.prems(1,2) by (simp add: discover_guest_def Let_def component_create_def)
  next
    case (Some r)
    have ok: "components_ok (d\<lparr>d_components := update_where (\<lambda>c. ic_id c = ?k)
        (\<lambda>c. c\<lparr>ic_last_status := ?s, ic_last_polled_at := Some (si_polled_at ids)\<rparr>) (d_components d)\<rparr>)"
      by (rule components_ok_change [OF Cons.prems(2)]) (use guest_status_ok in \<open>simp_all add: component_row_ok_def\<close>)
    show ?thesis
      using Some k ok Cons.prems(1,2)
      by (simp add: discover_guest_def Let_def shows_guest_def db_ignore_def
          update_status_no_fault [OF Cons.prems(1,2) guest_status_ok] component_ids_change)
  qed
  then obtain d1 where d1: "discover_guest ids child_id c g (known, n, d) = (known, n, d1)" "d_faults d1 = []" "components_ok d1"
      "map ic_id (d_components d1) = map ic_id (d_components d)" by blast
  have "ic_id ` set (d_components d1) = ic_id ` set (d_components d)" using d1(4) by (metis set_map)
  then have "\<exists>d2. fold (discover_guest ids child_id c) gs (known, n, d1) = (known, n, d2) \<and> d_faults d2 = [] \<and> components_ok d2"
    using Cons.prems(3) by (intro Cons.IH [OF d1(2,3)]) (metis list.set_intros(2))
  then show ?case by (simp add: d1(1))
qed

definition order_lists :: "(children \<Rightarrow> infra_component list) \<Rightarrow> bool" where
  "order_lists order \<longleftrightarrow> (\<forall>m. finite (dom m) \<longrightarrow> set (order m) = ran m)"

lemma order_listsD: "order_lists order \<Longrightarrow> finite (dom m) \<Longrightarrow> set (order m) = ran m"
  by (simp add: order_lists_def)

text \<open>The first discovery.\<close>

lemma reconcile_effect:
  assumes "d_faults d = []" and "components_ok d" and "distinct (map (kid_of child_id c) gs)"
    and "known_children existing = child_rows (ic_id c) d"
    and "order_lists order"
  shows "\<exists>r d2. reconcile_guests ids child_id order c gs existing d = (r, d2) \<and> d_faults d2 = [] \<and> components_ok d2
    \<and> (\<forall>g \<in> set gs. \<exists>r. component_row d2 (kid_of child_id c g) = Some r
         \<and> (linked (ic_id c) d2 (kid_of child_id c g) \<longrightarrow> shows_guest r g))
    \<and> (\<forall>k r. linked (ic_id c) d2 k \<and> component_row d2 k = Some r \<and> is_vm_type (ic_type r) \<and> k \<notin> kid_of child_id c ` set gs
         \<longrightarrow> ic_last_status r = ''offline'')
    \<and> (\<forall>k. k \<notin> kid_of child_id c ` set gs \<longrightarrow> rel_option went_offline (component_row d k) (component_row d2 k))"
proof -
  let ?known = "known_children existing" and ?ks = "kid_of child_id c ` set gs"
  have kn: "?known (kid_of child_id c g) = child_rows (ic_id c) d (kid_of child_id c g)" for g by (simp only: assms(4))
  obtain known2 n2 and d1 :: db where one: "fold (discover_guest ids child_id c) gs (?known, 0, d) = (known2, n2, d1)"
      "stays_for (\<lambda>k. k \<notin> ?ks) (ic_id c) d d1" "\<And>k. k \<notin> ?ks \<Longrightarrow> known2 k = ?known k" "dom known2 = dom ?known"
      "\<And>h. h \<in> set gs \<Longrightarrow> \<exists>r. component_row d1 (kid_of child_id c h) = Some r
         \<and> (linked (ic_id c) d1 (kid_of child_id c h) \<longrightarrow> shows_guest r h)"
    using discover_guests_all [of d child_id c gs ?known ids 0, OF assms(1-3) kn] by (elim exE conjE) (rule that; blast)
  have d1: "d_faults d1 = []" "components_ok d1" using one(2) by (simp_all add: stays_for_def)
  have "dom ?known \<subseteq> ic_id ` set (d_components d)"
    unfolding assms(4) by (auto simp: child_rows_def dom_def lookup_row_in split: if_splits)
  then have fin: "finite (dom known2)" unfolding one(4) by (rule finite_subset) simp
  let ?n = "length (filter (missing ?ks) (order known2))"
  obtain d2 where two: "fold (mark_missing ids c ?ks) (order known2) (0, d1) = (?n, d2)" "only_goes_offline d1 d2"
      "\<And>j. j \<in> ?ks \<Longrightarrow> component_row d2 j = component_row d1 j"
      "\<And>k r. k \<in> ran known2 \<Longrightarrow> missing ?ks k \<Longrightarrow> component_row d2 (ic_id k) = Some r \<Longrightarrow> ic_last_status r = ''offline''"
    using mark_missing_all [OF d1, of ids c ?ks "order known2" 0] unfolding order_listsD [OF assms(5) fin] add_0 by (elim exE conjE) (rule that; blast)
  have d2: "d_faults d2 = []" "components_ok d2" "d_links d2 = d_links d1" using two(2) by (simp_all add: only_goes_offline_def)
  have links: "linked (ic_id c) d2 k = linked (ic_id c) d1 k" for k by (simp add: linked_def d2(3))
  have off: "ic_last_status r = ''offline''"
    if "linked (ic_id c) d2 k" "component_row d2 k = Some r" "is_vm_type (ic_type r)" "k \<notin> ?ks" for k r
  proof (cases "component_row d1 k")
    case None
    then show ?thesis using only_goes_offline_None [OF two(2) None] that(2) by simp
  next
    case (Some r1)
    then have w: "went_offline r1 r" using only_goes_offlineD [OF two(2) Some] that(2) by auto
    have "known2 k = Some r1"
      using one(2,3) that(1,4) Some links unfolding assms(4) child_rows_def stays_for_def by simp
    then have "r1 \<in> ran known2" by (rule ranI)
    moreover have "ic_id r1 = k" using lookup_row_Some [OF Some] by simp
    ultimately show ?thesis
      using two(4) [of r1 r] that w unfolding missing_def went_offline_def by metis
  qed
  have rows: "\<exists>r. component_row d2 (kid_of child_id c h) = Some r
         \<and> (linked (ic_id c) d2 (kid_of child_id c h) \<longrightarrow> shows_guest r h)" if "h \<in> set gs" for h
    using one(5) [OF that] two(3) [of "kid_of child_id c h"] that links by simp
  have other: "rel_option went_offline (component_row d k) (component_row d2 k)" if "k \<notin> ?ks" for k
  proof -
    have "component_row d1 k = component_row d k" using one(2) that by (simp add: stays_for_def)
    moreover have "rel_option went_offline (component_row d1 k) (component_row d2 k)" using two(2) by (simp add: only_goes_offline_def)
    ultimately show ?thesis by (simp only:)
  qed
  let ?r = "\<lparr>ds_found = n2, ds_disappeared = ?n\<rparr>"
  obtain es where es: "pve_discovery_event ids c [] ''debug'' (''[discovery] '' @ ic_name c @ '' discovery completed '' @ em_dash
      @ '' no changes'') d2 = d2\<lparr>d_events := es\<rparr>"
    using discovery_event_only [OF d2(1)] by blast
  have cur: "set (map (\<lambda>g. child_id (ic_id c) (pg_vmid (gi_guest g))) gs) = ?ks" by simp
  have eq: "reconcile_guests ids child_id order c gs existing d = (?r, if n2 = 0 \<and> ?n = 0 then d2\<lparr>d_events := es\<rparr> else d2)"
    unfolding reconcile_guests_def Let_def cur one(1) prod.case two(1) es by (rule refl)
  obtain d3 where d3: "d3 = (if n2 = 0 \<and> ?n = 0 then d2\<lparr>d_events := es\<rparr> else d2)" by blast
  have same: "d_faults d3 = d_faults d2" "d_components d3 = d_components d2" "d_links d3 = d_links d2" by (simp_all add: d3)
  then have ok3: "d_faults d3 = []" "components_ok d3" and lk: "linked (ic_id c) d3 k = linked (ic_id c) d2 k" for k
    using d2 by (simp_all add: components_ok_def linked_def)
  have "\<forall>g \<in> set gs. \<exists>r. component_row d3 (kid_of child_id c g) = Some r
      \<and> (linked (ic_id c) d3 (kid_of child_id c g) \<longrightarrow> shows_guest r g)"
    unfolding same lk using rows by blast
  moreover have "\<forall>k r. linked (ic_id c) d3 k \<and> component_row d3 k = Some r \<and> is_vm_type (ic_type r) \<and> k \<notin> ?ks
      \<longrightarrow> ic_last_status r = ''offline''"
    unfolding same lk using off by blast
  moreover have "\<forall>k. k \<notin> ?ks \<longrightarrow> rel_option went_offline (component_row d k) (component_row d3 k)"
    unfolding same using other by blast
  ultimately show ?thesis using eq [folded d3] ok3 by blast
qed

lemma reconcile_settled:
  assumes "d_faults d = []" and "components_ok d" and "known_children existing = child_rows (ic_id c) d"
    and "\<And>g. g \<in> set gs \<Longrightarrow> \<exists>r. component_row d (kid_of child_id c g) = Some r
         \<and> (linked (ic_id c) d (kid_of child_id c g) \<longrightarrow> shows_guest r g)"
    and "\<And>k r. linked (ic_id c) d k \<Longrightarrow> component_row d k = Some r \<Longrightarrow> is_vm_type (ic_type r)
         \<Longrightarrow> k \<notin> kid_of child_id c ` set gs \<Longrightarrow> ic_last_status r = ''offline''"
    and "order_lists order"
  shows "fst (reconcile_guests ids child_id order c gs existing d) = \<lparr>ds_found = 0, ds_disappeared = 0\<rparr>"
proof -
  let ?known = "known_children existing" and ?ks = "kid_of child_id c ` set gs"
  have k: "case ?known (kid_of child_id c g) of Some r \<Rightarrow> shows_guest r g | None \<Rightarrow> kid_of child_id c g \<in> ic_id ` set (d_components d)"
    if "g \<in> set gs" for g
    using assms(4) [OF that] lookup_row_in [of ic_id "kid_of child_id c g" "d_components d"] unfolding assms(3) child_rows_def by auto
  obtain d1 where one: "fold (discover_guest ids child_id c) gs (?known, 0, d) = (?known, 0, d1)" "d_faults d1 = []" "components_ok d1"
    using discover_guests_settled [of d gs child_id c ?known ids 0, OF assms(1,2) k] by blast
  have "dom ?known \<subseteq> ic_id ` set (d_components d)"
    unfolding assms(3) by (auto simp: child_rows_def dom_def lookup_row_in split: if_splits)
  then have fin: "finite (dom ?known)" by (rule finite_subset) simp
  have "\<not> missing ?ks r" if "r \<in> ran ?known" for r
  proof -
    obtain k where k: "?known k = Some r" using \<open>r \<in> ran ?known\<close> by (auto simp: ran_def)
    then have r: "linked (ic_id c) d k" "component_row d k = Some r"
      unfolding assms(3) by (simp_all add: child_rows_def split: if_splits)
    then show ?thesis using assms(5) [OF r] lookup_row_Some [OF r(2)] by (auto simp: missing_def)
  qed
  then have "filter (missing ?ks) (order ?known) = []" unfolding filter_empty_conv order_listsD [OF assms(6) fin] by blast
  then obtain d2 where two: "fold (mark_missing ids c ?ks) (order ?known) (0, d1) = (0, d2)"
    using mark_missing_all [OF one(2,3), of ids c ?ks "order ?known" 0] by auto
  have cur: "set (map (\<lambda>g. child_id (ic_id c) (pg_vmid (gi_guest g))) gs) = ?ks" by simp
  show ?thesis unfolding reconcile_guests_def Let_def cur one(1) prod.case two by simp
qed


text \<open>C20: After a discovery every guest the cluster lists has a component, which, where it is a child, shows its name, type
  and state; every other virtual machine below the component is offline; and a second discovery with the same answer
  reports nothing found and nothing gone.\<close>

theorem discovery_settles:
  assumes "d_faults d = []" and "components_ok d" and "component_row d eid = Some c" and "non_empty_config (ic_credentials c)"
    and "connect (the (ic_credentials c)) = Inr api" and "fetch_guests api = Inr gs"
    and "distinct (map (\<lambda>g. pg_vmid (gi_guest g)) gs)" and "inj (child_id eid)" and "eid \<notin> range (child_id eid)"
    and "order_lists order"
  shows "case proxmox_discover connect ids child_id order eid d of (answer, d2) \<Rightarrow>
    (\<forall>g \<in> set gs. \<exists>r. component_row d2 (child_id eid (pg_vmid (gi_guest g))) = Some r
       \<and> (linked eid d2 (ic_id r) \<longrightarrow> shows_guest r g))
    \<and> (\<forall>r \<in> set (d_components d2). linked eid d2 (ic_id r) \<and> is_vm_type (ic_type r)
         \<and> ic_id r \<notin> (\<lambda>g. child_id eid (pg_vmid (gi_guest g))) ` set gs \<longrightarrow> ic_last_status r = ''offline'')
    \<and> fst (proxmox_discover connect ids2 child_id order eid d2) = Inr \<lparr>ds_found = 0, ds_disappeared = 0\<rparr>"
proof -
  have c: "ic_id c = eid" using lookup_row_Some [OF assms(3)] by simp
  have dist: "distinct (map (kid_of child_id c) gs)" unfolding c using assms(7,8) by (induction gs) (auto simp: inj_eq)
  obtain ex where ex: "component_list_by_parent eid d = (Inr ex, d)" "known_children ex = child_rows eid d"
    using list_by_parent_rows [OF assms(1,2)] by blast
  have kc: "known_children ex = child_rows (ic_id c) d" by (simp only: c ex(2))
  obtain r and d2 :: db where one: "reconcile_guests ids child_id order c gs ex d = (r, d2)" "d_faults d2 = []" "components_ok d2"
      "\<And>g. g \<in> set gs \<Longrightarrow> \<exists>r. component_row d2 (kid_of child_id c g) = Some r
         \<and> (linked (ic_id c) d2 (kid_of child_id c g) \<longrightarrow> shows_guest r g)"
      "\<And>k r. linked (ic_id c) d2 k \<Longrightarrow> component_row d2 k = Some r \<Longrightarrow> is_vm_type (ic_type r)
         \<Longrightarrow> k \<notin> kid_of child_id c ` set gs \<Longrightarrow> ic_last_status r = ''offline''"
      "\<And>k. k \<notin> kid_of child_id c ` set gs \<Longrightarrow> rel_option went_offline (component_row d k) (component_row d2 k)"
    using reconcile_effect [of d child_id c gs ex order ids, OF assms(1,2) dist kc assms(10)]
    by (elim exE conjE) (rule that; blast)
  note one4 = one(4) [unfolded c] and one5 = one(5) [unfolded c]
  have first: "proxmox_discover connect ids child_id order eid d = (Inr r, d2)"
    using assms(1,3-6) by (simp add: proxmox_discover_def component_get_def ex(1) one(1))
  have "eid \<notin> kid_of child_id c ` set gs" using assms(9) by (auto simp: c)
  from one(6) [OF this] obtain c2 where c2: "component_row d2 eid = Some c2" "went_offline c c2"
    unfolding assms(3) option_rel_Some1 by blast
  have id2: "ic_id c2 = eid" using lookup_row_Some [OF c2(1)] by simp
  obtain ex2 where ex2: "component_list_by_parent eid d2 = (Inr ex2, d2)" "known_children ex2 = child_rows eid d2"
    using list_by_parent_rows [OF one(2,3)] by blast
  have "fst (reconcile_guests ids2 child_id order c2 gs ex2 d2) = \<lparr>ds_found = 0, ds_disappeared = 0\<rparr>"
    by (rule reconcile_settled [OF one(2,3)]) (use one4 one5 assms(10) in \<open>simp_all add: id2 c ex2(2)\<close>)
  then have second: "fst (proxmox_discover connect ids2 child_id order eid d2) = Inr \<lparr>ds_found = 0, ds_disappeared = 0\<rparr>"
    using assms(4-6) c2(2) one(2)
    by (cases "reconcile_guests ids2 child_id order c2 gs ex2 d2")
      (simp add: proxmox_discover_def component_get_def c2(1) ex2(1) went_offline_def)
  have rows: "\<exists>r. component_row d2 (child_id eid (pg_vmid (gi_guest g))) = Some r \<and> (linked eid d2 (ic_id r) \<longrightarrow> shows_guest r g)"
    if g: "g \<in> set gs" for g
  proof -
    obtain r where r: "component_row d2 (child_id eid (pg_vmid (gi_guest g))) = Some r"
        "linked eid d2 (child_id eid (pg_vmid (gi_guest g))) \<longrightarrow> shows_guest r g"
      using one4 [OF g] by blast
    then show ?thesis using lookup_row_Some [OF r(1)] by auto
  qed
  have off: "ic_last_status r = ''offline''"
    if "r \<in> set (d_components d2)" "linked eid d2 (ic_id r)" "is_vm_type (ic_type r)" "ic_id r \<notin> kid_of child_id c ` set gs" for r
  proof -
    have "component_row d2 (ic_id r) = Some r"
      by (rule lookup_row_distinct) (use one(3) that(1) in \<open>simp_all add: components_ok_def\<close>)
    then show ?thesis using one(5) that unfolding c by blast
  qed
  show ?thesis unfolding first prod.case using rows off second by (simp add: c)
qed

definition sorted_children :: "children \<Rightarrow> infra_component list" where
  "sorted_children m = map (\<lambda>k. the (m k)) (sorted_list_of_set (dom m))"

lemma sorted_children_lists: "order_lists sorted_children"
  by (auto simp: order_lists_def sorted_children_def ran_def dom_def image_iff) (metis option.sel)

definition one_node_api :: pve_api where
  "one_node_api = sample_pve_api\<lparr>pa_members := Inr [''n1'']\<rparr>"

definition sample_scan_ids :: "string \<Rightarrow> scan_ids" where
  "sample_scan_ids u = \<lparr>si_now = 0, si_polled_at = ''t0'', si_reading_uuid = (\<lambda>s m. u @ s @ m), si_event_uuid = (\<lambda>s m. u @ s @ m)\<rparr>"

lemma one_node_guests:
  "fetch_guests one_node_api = Inr [\<lparr>gi_guest = sample_guest, gi_tags = [''prod'', ''web''], gi_ip = ''10.0.0.5'',
     gi_os_type = ''l26'', gi_bridges = [''vmbr0''], gi_onboot = False, gi_node = ''n1''\<rparr>]"
  by code_simp

theorem discovery_settles_witness:
  "case proxmox_discover (\<lambda>_. Inr one_node_api) (sample_scan_ids ''1'') tally_id sorted_children ''p1'' sample_pve_db of (answer, d2) \<Rightarrow>
    (\<exists>r. component_row d2 (tally_id ''p1'' 3) = Some r \<and> (linked ''p1'' d2 (ic_id r) \<longrightarrow> ic_type r = ''vm_linux'' \<and> ic_last_status r = ''online''))
    \<and> fst (proxmox_discover (\<lambda>_. Inr one_node_api) (sample_scan_ids ''2'') tally_id sorted_children ''p1'' d2)
        = Inr \<lparr>ds_found = 0, ds_disappeared = 0\<rparr>"
proof -
  have d: "d_faults sample_pve_db = []" "components_ok sample_pve_db" "component_row sample_pve_db ''p1'' = Some sample_pve"
      "non_empty_config (ic_credentials sample_pve)"
    by (simp_all add: sample_pve_db_def empty_db_def components_ok_def component_row_ok_def sample_pve_def
        component_types_def collection_methods_def component_statuses_def non_empty_config_def)
  have own: "''p1'' \<notin> range (tally_id ''p1'')" by (auto simp: tally_id_def split: if_splits)
  have connect: "(\<lambda>_. Inr one_node_api) (the (ic_credentials sample_pve)) = Inr one_node_api" by simp
  have dist: "distinct (map (\<lambda>g. pg_vmid (gi_guest g)) [\<lparr>gi_guest = sample_guest, gi_tags = [''prod'', ''web''], gi_ip = ''10.0.0.5'',
     gi_os_type = ''l26'', gi_bridges = [''vmbr0''], gi_onboot = False, gi_node = ''n1''\<rparr>])" by simp
  note settled = discovery_settles [where connect = "\<lambda>_. Inr one_node_api" and child_id = tally_id,
      OF d connect one_node_guests dist tally_id_inj own sorted_children_lists]
  have guest: "ic_type r = ''vm_linux'' \<and> ic_last_status r = ''online''"
    if "shows_guest r \<lparr>gi_guest = sample_guest, gi_tags = t, gi_ip = a, gi_os_type = ''l26'', gi_bridges = b, gi_onboot = e, gi_node = n\<rparr>"
    for r t a b e n
    using that by (simp add: sample_guest_def shows_guest_def guest_type_def guest_status_def os_component_type_def vm_status_def)
  have v: "pg_vmid sample_guest = 3" by (simp add: sample_guest_def)
  obtain answer and d2 :: db where first: "proxmox_discover (\<lambda>_. Inr one_node_api) (sample_scan_ids ''1'') tally_id sorted_children
      ''p1'' sample_pve_db = (answer, d2)" by fastforce
  note s = settled [where ?ids = "sample_scan_ids ''1''" and ?ids2.0 = "sample_scan_ids ''2''", unfolded first prod.case]
  note s = s [THEN conjunct1] s [THEN conjunct2, THEN conjunct1] s [THEN conjunct2, THEN conjunct2]
  have all: "\<exists>r. component_row d2 (tally_id ''p1'' 3) = Some r \<and> (linked ''p1'' d2 (ic_id r) \<longrightarrow>
        shows_guest r \<lparr>gi_guest = sample_guest, gi_tags = [''prod'', ''web''], gi_ip = ''10.0.0.5'', gi_os_type = ''l26'',
          gi_bridges = [''vmbr0''], gi_onboot = False, gi_node = ''n1''\<rparr>)"
      "fst (proxmox_discover (\<lambda>_. Inr one_node_api) (sample_scan_ids ''2'') tally_id sorted_children ''p1'' d2)
        = Inr \<lparr>ds_found = 0, ds_disappeared = 0\<rparr>"
    using s(1) [rule_format, OF list.set_intros(1)] s(3) unfolding pve_guest_info.select_convs v by blast+
  show ?thesis unfolding first prod.case using all guest by blast
qed

section \<open>What a discovery misreads\<close>

text \<open>A component with the id of a guest that has lost its link is never updated again, and no event says so.\<close>

lemma unlinked_child_is_never_updated:
  assumes "d_faults d = []" and "known (kid_of child_id c g) = None" and "kid_of child_id c g \<in> ic_id ` set (d_components d)"
  shows "discover_guest ids child_id c g (known, n, d) = (known, n, d)"
  using assms by (simp add: discover_guest_def Let_def component_create_def)

text \<open>A guest whose configuration cannot be read at the moment becomes a virtual machine of unknown type.\<close>

lemma config_failure_changes_type:
  "pa_config api node (pg_vmid g) = Inl err \<Longrightarrow> guest_type (enrich_guest api node g) = ''vm_other''"
  by (simp add: enrich_guest_def guest_type_def os_component_type_def)

text \<open>The guests of a node that does not answer are taken for gone.\<close>

lemma silent_node_loses_guests:
  "list_nodes api = Inr [n] \<Longrightarrow> pa_qemu api n = Inl err \<Longrightarrow> fetch_guests api = Inr []"
  by (simp add: fetch_guests_def per_node_def)

end
