(* ===== verification/Synology.thy ===== *)
theory Synology
  imports Proxmox
begin

text \<open>
  Synology DSM: internal/infra/synology.go, scanner/metrics/synology.go, scanner/discovery/synology.go and
  GetSynologyDetail of api/infra_components.go.

  The device is a state machine of the environment, \<open>'s\<close>: logging in gives a session id, a request with a session id
  gives a reply, and both may change its state. The client caches the session id. Answers are records; the texts
  \<open>json.Marshal\<close> writes for the stored snapshot and the event payloads are arguments.
\<close>

section \<open>Sessions\<close>

text \<open>A reply of entry.cgi: no usable answer, \<open>success: false\<close> with a code (0 if there is none), or the data, which may
  fail to decode.\<close>

datatype 'a dsm_reply = ReplyLost string | ReplyRefused int | ReplyData "string + 'a"

datatype call_error = CallFailed string | CallRefused int

record dsm_session =
  dn_sid :: string
  dn_since :: go_time

definition no_session :: dsm_session where
  "no_session = \<lparr>dn_sid = [], dn_since = 0\<rparr>"

definition session_days :: int where
  "session_days = 6 * 24 * 3600 * 1000000000"

definition sid_expired :: "dsm_session \<Rightarrow> go_time \<Rightarrow> bool" where
  "sid_expired ses now \<longleftrightarrow> dn_sid ses = [] \<or> session_days < now - dn_since ses"

type_synonym 's dsm_login = "'s \<Rightarrow> (string + string) \<times> 's"
type_synonym ('s, 'a) dsm_call = "string \<Rightarrow> 's \<Rightarrow> 'a dsm_reply \<times> 's"

definition dsm_log_in :: "'s dsm_login \<Rightarrow> go_time \<Rightarrow> dsm_session \<times> 's \<Rightarrow> string option \<times> dsm_session \<times> 's" where
  "dsm_log_in login now st = (case login (snd st) of
       (Inl err, s2) \<Rightarrow> (Some err, fst st, s2)
     | (Inr sid, s2) \<Rightarrow>
         (if sid = [] then (Some ''login returned empty session ID'', fst st, s2)
          else (None, \<lparr>dn_sid = sid, dn_since = now\<rparr>, s2)))"

definition session_codes :: "int list" where
  "session_codes = [119, 105, 106]"

fun settle_reply :: "'a dsm_reply \<Rightarrow> call_error + 'a" where
  "settle_reply (ReplyLost err) = Inl (CallFailed err)"
| "settle_reply (ReplyRefused code) = Inl (CallRefused code)"
| "settle_reply (ReplyData (Inl err)) = Inl (CallFailed err)"
| "settle_reply (ReplyData (Inr a)) = Inr a"

text \<open>\<open>get\<close>: log in first if the session is too old, and once more if the device refuses it.\<close>

definition dsm_request ::
  "'s dsm_login \<Rightarrow> ('s, 'a) dsm_call \<Rightarrow> go_time \<Rightarrow> dsm_session \<times> 's \<Rightarrow> (call_error + 'a) \<times> dsm_session \<times> 's" where
  "dsm_request login call now st1 = (case call (dn_sid (fst st1)) (snd st1) of
       (ReplyRefused code, s2) \<Rightarrow>
         (if code \<in> set session_codes then
            (case dsm_log_in login now (fst st1, s2) of
               (Some err, st3) \<Rightarrow> (Inl (CallFailed (''re-authenticate: '' @ err)), st3)
             | (None, st3) \<Rightarrow> (case call (dn_sid (fst st3)) (snd st3) of (r, s4) \<Rightarrow> (settle_reply r, fst st3, s4)))
          else (Inl (CallRefused code), fst st1, s2))
     | (r, s2) \<Rightarrow> (settle_reply r, fst st1, s2))"

definition dsm_get ::
  "'s dsm_login \<Rightarrow> ('s, 'a) dsm_call \<Rightarrow> go_time \<Rightarrow> dsm_session \<times> 's \<Rightarrow> (call_error + 'a) \<times> dsm_session \<times> 's" where
  "dsm_get login call now st =
     (case (if sid_expired (fst st) now then dsm_log_in login now st else (None, st)) of
        (Some err, st1) \<Rightarrow> (Inl (CallFailed (''authenticate: '' @ err)), st1)
      | (None, st1) \<Rightarrow> dsm_request login call now st1)"

definition dsm_log_out :: "dsm_session \<Rightarrow> (string \<Rightarrow> 's \<Rightarrow> 's) \<Rightarrow> 's \<Rightarrow> 's" where
  "dsm_log_out ses logout s = (if dn_sid ses = [] then s else logout (dn_sid ses) s)"

section \<open>Answers\<close>

record dsm_info =
  di_model :: string
  di_firmware :: string
  di_hostname :: string
  di_up_time :: string
  di_temperature :: int

record dsm_util =
  du_user_load :: rat
  du_real_usage :: rat
  du_real_total :: int
  du_avail_real :: int

record dsm_volume =
  dv_path :: string
  dv_status :: string
  dv_total_size :: string
  dv_used_size :: string

record dsm_disk =
  dd_slot :: int
  dd_model :: string
  dd_temp :: int
  dd_status :: string

record dsm_upgrade =
  dg_available :: bool
  dg_version :: string

record 's dsm_server =
  sv_login :: "'s dsm_login"
  sv_info :: "('s, dsm_info) dsm_call"
  sv_util :: "('s, dsm_util) dsm_call"
  sv_storage :: "('s, dsm_volume list) dsm_call"
  sv_disks :: "('s, dsm_disk list) dsm_call"
  sv_upgrade :: "('s, dsm_upgrade) dsm_call"

section \<open>The snapshot kept in the component\<close>

record meta_volume =
  mv_path :: string
  mv_status :: string
  mv_used :: int
  mv_total :: int
  mv_percent :: rat

record dsm_meta =
  mt_model :: string
  mt_version :: string
  mt_hostname :: string
  mt_uptime :: string
  mt_uptime_secs :: int
  mt_temperature :: int
  mt_cpu :: rat
  mt_mem_used :: int
  mt_mem_total :: int
  mt_mem_percent :: rat
  mt_volumes :: "meta_volume list"
  mt_disks :: "dsm_disk list"
  mt_update_available :: bool
  mt_update_version :: string
  mt_update_checked :: bool
  mt_polled_at :: string

definition empty_meta :: "string \<Rightarrow> dsm_meta" where
  "empty_meta polled = \<lparr>mt_model = [], mt_version = [], mt_hostname = [], mt_uptime = [], mt_uptime_secs = 0, mt_temperature = 0,
     mt_cpu = 0, mt_mem_used = 0, mt_mem_total = 0, mt_mem_percent = 0, mt_volumes = [], mt_disks = [],
     mt_update_available = False, mt_update_version = [], mt_update_checked = False, mt_polled_at = polled\<rparr>"

definition format_syno_uptime :: "int \<Rightarrow> string" where
  "format_syno_uptime secs =
     (if secs \<le> 0 then em_dash
      else let d = secs div 86400; h = secs mod 86400 div 3600; m = secs mod 3600 div 60 in
        if 0 < d then show_int d @ ''d '' @ show_int h @ ''h '' @ show_int m @ ''m''
        else show_int h @ ''h '' @ show_int m @ ''m'')"

text \<open>\<open>strconv.ParseInt(s, 10, 64)\<close> with its error dropped: 0 for no number, the nearest bound for one out of range.\<close>

definition parse_secs :: "string \<Rightarrow> int" where
  "parse_secs s =
     (case go_atoi s of
        Some n \<Rightarrow> n
      | None \<Rightarrow>
          (let neg = (s \<noteq> [] \<and> hd s = CHR ''-''); digits = (if s \<noteq> [] \<and> hd s \<in> {CHR ''-'', CHR ''+''} then tl s else s) in
           if digits = [] \<or> \<not> list_all is_digit digits then 0 else if neg then - (2 ^ 63) else 2 ^ 63 - 1))"

definition memory_bytes :: "dsm_util \<Rightarrow> int \<times> int" where
  "memory_bytes u = (let all = wrap64 (du_real_total u * 1024); avail = wrap64 (du_avail_real u * 1024) in
     (max 0 (wrap64 (all - avail)), all))"

definition volume_key :: "string \<Rightarrow> string" where
  "volume_key path = (let k = dropWhile (\<lambda>c. c = CHR ''/'') path in if k = [] then ''unknown'' else k)"

text \<open>Volumes whose sizes cannot be read or are zero are skipped.\<close>

definition volume_usage :: "dsm_volume \<Rightarrow> (int \<times> int \<times> rat) option" where
  "volume_usage v = (case (go_atoi (dv_total_size v), go_atoi (dv_used_size v)) of
       (Some all, Some used) \<Rightarrow> (if all = 0 then None else Some (used, all, of_int used / of_int all * 100))
     | _ \<Rightarrow> None)"

section \<open>Metrics only\<close>

record dsm_metrics =
  dm_cpu :: rat
  dm_mem :: rat
  dm_mem_used_gb :: rat
  dm_mem_total_gb :: rat
  dm_temp :: int
  dm_uptime :: int
  dm_volumes :: "(string \<times> rat) list"

definition in_gib :: "int \<Rightarrow> rat" where
  "in_gib n = of_int n / (1024 * 1024 * 1024)"

definition error_text :: "call_error \<Rightarrow> string" where
  "error_text e = (case e of CallFailed s \<Rightarrow> s | CallRefused code \<Rightarrow> ''API call failed (error code '' @ show_int code @ '')'')"

definition dsm_collect ::
  "'s dsm_server \<Rightarrow> go_time \<Rightarrow> dsm_session \<times> 's \<Rightarrow> (string + dsm_metrics) \<times> dsm_session \<times> 's" where
  "dsm_collect srv now st0 = (case dsm_get (sv_login srv) (sv_info srv) now st0 of
       (Inl err, st1) \<Rightarrow> (Inl (''system info: '' @ error_text err), st1)
     | (Inr info, st1) \<Rightarrow> (case dsm_get (sv_login srv) (sv_util srv) now st1 of (util, st2) \<Rightarrow>
         (case dsm_get (sv_login srv) (sv_storage srv) now st2 of (vols, st3) \<Rightarrow>
           (Inr \<lparr>dm_cpu = (case util of Inl _ \<Rightarrow> 0 | Inr u \<Rightarrow> du_user_load u),
              dm_mem = (case util of Inl _ \<Rightarrow> 0 | Inr u \<Rightarrow> du_real_usage u),
              dm_mem_used_gb = (case util of Inl _ \<Rightarrow> 0 | Inr u \<Rightarrow> in_gib (fst (memory_bytes u))),
              dm_mem_total_gb = (case util of Inl _ \<Rightarrow> 0 | Inr u \<Rightarrow> in_gib (snd (memory_bytes u))),
              dm_temp = di_temperature info, dm_uptime = (case go_atoi (trim_space (di_up_time info)) of Some n \<Rightarrow> n | None \<Rightarrow> 0),
              dm_volumes = (case vols of Inl _ \<Rightarrow> []
                | Inr vs \<Rightarrow> List.map_filter (\<lambda>v. map_option (\<lambda>(u, t, p). (volume_key (dv_path v), p)) (volume_usage v)) vs)\<rparr>,
            st3))))"

section \<open>Alarms of volumes and disks\<close>

text \<open>Nothing known yet reads as the empty status.\<close>

definition known_status :: "string option \<Rightarrow> string" where
  "known_status o1 = (case o1 of Some s \<Rightarrow> s | None \<Rightarrow> [])"

definition volume_emit :: "string option \<Rightarrow> string \<Rightarrow> string list" where
  "volume_emit prev status =
     (if status = known_status prev then []
      else if status = ''crashed'' then [''error''] else if status = ''degraded'' then [''warn''] else [])"

definition volume_step :: "string \<Rightarrow> string \<Rightarrow> (string \<rightharpoonup> string) \<Rightarrow> string list \<times> (string \<rightharpoonup> string)" where
  "volume_step k status m = (volume_emit (m k) status, m(k \<mapsto> status))"

definition disk_emit :: "string option \<Rightarrow> string \<Rightarrow> string list" where
  "disk_emit prev status =
     (if status = known_status prev then []
      else if status = ''critical'' then [''error''] else if status = ''warning'' then [''warn''] else [])"

definition disk_step :: "string \<Rightarrow> string \<Rightarrow> (string \<rightharpoonup> string) \<Rightarrow> string list \<times> (string \<rightharpoonup> string)" where
  "disk_step k status m = (disk_emit (m k) status, m(k \<mapsto> status))"

definition hot_emit :: "bool option \<Rightarrow> bool \<Rightarrow> string list" where
  "hot_emit prev hot = (if hot \<and> prev \<noteq> Some True then [''warn''] else [])"

definition hot_step :: "string \<Rightarrow> bool \<Rightarrow> (string \<rightharpoonup> bool) \<Rightarrow> string list \<times> (string \<rightharpoonup> bool)" where
  "hot_step k hot m = (hot_emit (m k) hot, m(k \<mapsto> hot))"

interpretation volume_detector: transition_detector volume_step volume_emit
  by unfold_locales (simp_all add: volume_step_def)

interpretation disk_detector: transition_detector disk_step disk_emit
  by unfold_locales (simp_all add: disk_step_def)

interpretation hot_detector: transition_detector hot_step hot_emit
  by unfold_locales (simp_all add: hot_step_def)

section \<open>Poll\<close>

record dsm_env =
  ye_now :: go_time
  ye_polled_at :: string
  ye_reading_uuid :: "string \<Rightarrow> string"
  ye_event_uuid :: "string \<Rightarrow> string"
  ye_meta_json :: "dsm_meta \<Rightarrow> string"

record dsm_poller =
  yp_session :: dsm_session
  yp_volumes :: "string \<rightharpoonup> string"
  yp_disks :: "string \<rightharpoonup> string"
  yp_hot :: "string \<rightharpoonup> bool"
  yp_update :: string

definition new_dsm_poller :: dsm_poller where
  "new_dsm_poller = \<lparr>yp_session = no_session, yp_volumes = Map.empty, yp_disks = Map.empty, yp_hot = Map.empty, yp_update = []\<rparr>"

definition json_str_field :: "string \<Rightarrow> string \<Rightarrow> string" where
  "json_str_field k v = json_quote k @ '':'' @ json_quote v"

definition volume_json :: "dsm_volume \<Rightarrow> string" where
  "volume_json v = ''{'' @ json_str_field ''vol_path'' (dv_path v) @ '','' @ json_str_field ''status'' (dv_status v) @ '',''
     @ json_str_field ''total_size'' (dv_total_size v) @ '','' @ json_str_field ''used_size'' (dv_used_size v) @ ''}''"

definition disk_json :: "dsm_disk \<Rightarrow> string" where
  "disk_json k = ''{'' @ json_quote ''slot'' @ '':'' @ show_int (dd_slot k) @ '','' @ json_str_field ''model'' (dd_model k) @ '',''
     @ json_quote ''temp'' @ '':'' @ show_int (dd_temp k) @ '','' @ json_str_field ''status'' (dd_status k) @ ''}''"

definition upgrade_json :: "dsm_upgrade \<Rightarrow> string" where
  "upgrade_json g = ''{'' @ json_quote ''update_available'' @ '':'' @ (if dg_available g then ''true'' else ''false'') @ '',''
     @ json_str_field ''version'' (dg_version g) @ ''}''"

definition dsm_event :: "dsm_env \<Rightarrow> string \<Rightarrow> string \<Rightarrow> string \<Rightarrow> string \<Rightarrow> string \<Rightarrow> event" where
  "dsm_event env cid key severity title payload =
     \<lparr>ev_id = ye_event_uuid env key, ev_level = severity, ev_source_name = cid, ev_source_type = ''physical_host'',
      ev_source_id = cid, ev_title = title, ev_payload = payload, ev_created_at = ye_now env\<rparr>"

abbreviation dsm_readings :: "dsm_env \<Rightarrow> string \<Rightarrow> (string \<times> rat) list \<Rightarrow> db \<Rightarrow> db" where
  "dsm_readings env cid \<equiv> write_readings (ye_reading_uuid env) (ye_now env) cid ''synology''"

definition note_utilization :: "dsm_env \<Rightarrow> string \<Rightarrow> dsm_util \<Rightarrow> dsm_meta \<Rightarrow> db \<Rightarrow> dsm_meta \<times> db" where
  "note_utilization env cid u m d =
     (m\<lparr>mt_cpu := du_user_load u, mt_mem_used := fst (memory_bytes u), mt_mem_total := snd (memory_bytes u),
        mt_mem_percent := du_real_usage u\<rparr>,
      dsm_readings env cid [(''cpu_percent'', du_user_load u), (''mem_percent'', du_real_usage u)] d)"

definition volume_title :: "dsm_volume \<Rightarrow> string" where
  "volume_title v = ''Volume '' @ dv_path v @ (if dv_status v = ''crashed'' then '' crashed'' else '' degraded'')"

fun note_volumes ::
  "dsm_env \<Rightarrow> string \<Rightarrow> dsm_volume list \<Rightarrow> dsm_poller \<times> dsm_meta \<times> db \<Rightarrow> dsm_poller \<times> dsm_meta \<times> db" where
  "note_volumes env cid [] st = st"
| "note_volumes env cid (v # vs) (p, m, d) = (case volume_usage v of
       None \<Rightarrow> note_volumes env cid vs (p, m, d)
     | Some (used, all, pct) \<Rightarrow>
         (let m2 = m\<lparr>mt_volumes := mt_volumes m @ [\<lparr>mv_path = dv_path v, mv_status = dv_status v, mv_used = used, mv_total = all,
                mv_percent = pct\<rparr>]\<rparr>;
              d2 = dsm_readings env cid [(''disk_percent_'' @ volume_key (dv_path v), pct)] d in
          case volume_step (dv_path v) (dv_status v) (yp_volumes p) of
            (levels, vm) \<Rightarrow> note_volumes env cid vs (p\<lparr>yp_volumes := vm\<rparr>, m2,
              post_all event_create (map (\<lambda>l. dsm_event env cid (''volume'' @ dv_path v) l (volume_title v) (volume_json v)) levels) d2)))"

definition slot_key :: "dsm_disk \<Rightarrow> string" where
  "slot_key k = show_int (dd_slot k)"

definition disk_title :: "dsm_disk \<Rightarrow> string" where
  "disk_title k = ''Disk '' @ show_int (dd_slot k) @ '' ('' @ dd_model k @ '') ''
     @ (if dd_status k = ''critical'' then ''critical'' else ''warning'')"

definition degree_c :: string where
  "degree_c = [CHR 0xC2, CHR 0xB0, CHR ''C'']"

fun note_disks ::
  "dsm_env \<Rightarrow> string \<Rightarrow> dsm_disk list \<Rightarrow> dsm_poller \<times> dsm_meta \<times> db \<Rightarrow> dsm_poller \<times> dsm_meta \<times> db" where
  "note_disks env cid [] st = st"
| "note_disks env cid (k # ks) (p, m, d) =
     (case (disk_step (slot_key k) (dd_status k) (yp_disks p), hot_step (slot_key k) (55 < dd_temp k) (yp_hot p)) of
        ((levels, dm), (hots, hm)) \<Rightarrow>
          note_disks env cid ks (p\<lparr>yp_disks := dm, yp_hot := hm\<rparr>, m\<lparr>mt_disks := mt_disks m @ [k]\<rparr>,
            post_all event_create (map (\<lambda>l. dsm_event env cid (''temp'' @ slot_key k) l
                (''Disk '' @ show_int (dd_slot k) @ '' temp '' @ show_int (dd_temp k) @ degree_c) (disk_json k)) hots)
              (post_all event_create (map (\<lambda>l. dsm_event env cid (''disk'' @ slot_key k) l (disk_title k) (disk_json k)) levels) d)))"

definition note_update :: "dsm_env \<Rightarrow> string \<Rightarrow> dsm_upgrade \<Rightarrow> dsm_poller \<times> dsm_meta \<times> db \<Rightarrow> dsm_poller \<times> dsm_meta \<times> db" where
  "note_update env cid g st = (case st of (p, m, d) \<Rightarrow>
     (let m2 = m\<lparr>mt_update_available := dg_available g, mt_update_version := dg_version g, mt_update_checked := True\<rparr> in
      if dg_available g \<and> dg_version g \<noteq> [] then
        (if dg_version g = yp_update p then (p, m2, d)
         else (p\<lparr>yp_update := dg_version g\<rparr>, m2, db_ignore (event_create (dsm_event env cid ''update'' ''info''
                (''DSM update available: '' @ dg_version g) (upgrade_json g)) d)))
      else if \<not> dg_available g then (p\<lparr>yp_update := []\<rparr>, m2, d) else (p, m2, d)))"

definition system_meta :: "dsm_env \<Rightarrow> dsm_info \<Rightarrow> dsm_meta" where
  "system_meta env i = (let secs = parse_secs (trim_space (di_up_time i)) in
     (empty_meta (ye_polled_at env))\<lparr>mt_model := di_model i, mt_version := di_firmware i, mt_hostname := di_hostname i,
       mt_uptime_secs := secs, mt_uptime := format_syno_uptime secs, mt_temperature := di_temperature i\<rparr>)"

text \<open>The requests of a poll in turn, each with the session the one before left.\<close>

record dsm_answers =
  da_util :: "call_error + dsm_util"
  da_storage :: "call_error + dsm_volume list"
  da_disks :: "call_error + dsm_disk list"
  da_upgrade :: "call_error + dsm_upgrade"

definition dsm_ask_all :: "'s dsm_server \<Rightarrow> go_time \<Rightarrow> dsm_session \<times> 's \<Rightarrow> dsm_answers \<times> dsm_session \<times> 's" where
  "dsm_ask_all srv now st = (case dsm_get (sv_login srv) (sv_util srv) now st of (util, st1) \<Rightarrow>
     (case dsm_get (sv_login srv) (sv_storage srv) now st1 of (vols, st2) \<Rightarrow>
     (case dsm_get (sv_login srv) (sv_disks srv) now st2 of (disks, st3) \<Rightarrow>
     (case dsm_get (sv_login srv) (sv_upgrade srv) now st3 of (up, st4) \<Rightarrow>
       (\<lparr>da_util = util, da_storage = vols, da_disks = disks, da_upgrade = up\<rparr>, st4)))))"

fun is_error :: "'a + 'b \<Rightarrow> bool" where
  "is_error (Inl _) = True"
| "is_error (Inr _) = False"

definition dsm_degraded :: "dsm_answers \<Rightarrow> bool" where
  "dsm_degraded a \<longleftrightarrow> is_error (da_util a) \<or> is_error (da_storage a) \<or> is_error (da_disks a)
     \<or> (case da_disks a of Inl _ \<Rightarrow> False | Inr ks \<Rightarrow> list_ex (\<lambda>k. dd_status k = ''critical'') ks)"

definition note_answers :: "dsm_env \<Rightarrow> string \<Rightarrow> dsm_answers \<Rightarrow> dsm_poller \<times> dsm_meta \<times> db \<Rightarrow> dsm_poller \<times> dsm_meta \<times> db" where
  "note_answers env cid a st =
     (let st1 = (case da_util a of Inl _ \<Rightarrow> st
                 | Inr u \<Rightarrow> (case st of (p, m, d) \<Rightarrow> (case note_utilization env cid u m d of (m2, d2) \<Rightarrow> (p, m2, d2))));
          st2 = (case da_storage a of Inl _ \<Rightarrow> st1 | Inr vs \<Rightarrow> note_volumes env cid vs st1);
          st3 = (case da_disks a of Inl _ \<Rightarrow> st2 | Inr ks \<Rightarrow> note_disks env cid ks st2) in
      (case da_upgrade a of Inl _ \<Rightarrow> st3 | Inr g \<Rightarrow> note_update env cid g st3))"

definition synology_poll ::
  "dsm_env \<Rightarrow> 's dsm_server \<Rightarrow> string \<Rightarrow> dsm_poller \<Rightarrow> 's \<Rightarrow> db \<Rightarrow> string option \<times> dsm_poller \<times> 's \<times> db" where
  "synology_poll env srv cid p s d = (case dsm_get (sv_login srv) (sv_info srv) (ye_now env) (yp_session p, s) of
       (Inl err, ses, s1) \<Rightarrow> (Some (''system info: '' @ error_text err), p\<lparr>yp_session := ses\<rparr>, s1, d)
     | (Inr info, ses, s1) \<Rightarrow> (case dsm_ask_all srv (ye_now env) (ses, s1) of (a, ses2, s2) \<Rightarrow>
         (case note_answers env cid a (p\<lparr>yp_session := ses2\<rparr>, system_meta env info, d) of (p2, m, d2) \<Rightarrow>
           (None, p2, s2, store_poll cid (ye_meta_json env m) (if dsm_degraded a then ''degraded'' else ''online'') (ye_polled_at env) d2))))"

section \<open>scanner/metrics/synology.go\<close>

definition dsm_metric_readings :: "dsm_metrics \<Rightarrow> (string \<times> rat) list" where
  "dsm_metric_readings m = [(''cpu_percent'', dm_cpu m), (''mem_percent'', dm_mem m), (''mem_used_gb'', dm_mem_used_gb m),
     (''mem_total_gb'', dm_mem_total_gb m), (''temperature_c'', of_int (dm_temp m)), (''uptime_seconds'', of_int (dm_uptime m))]
     @ map (\<lambda>(k, p). (''disk_percent_'' @ k, p)) (dm_volumes m)"

definition temp_title :: "string \<Rightarrow> int \<Rightarrow> threshold_level \<Rightarrow> string" where
  "temp_title name t l = ''[metrics] '' @ (case l of LevelError \<Rightarrow> ''Critical temperature'' | LevelWarn \<Rightarrow> ''High temperature''
     | LevelNormal \<Rightarrow> ''Temperature recovered'') @ '' '' @ em_dash @ '' '' @ name @ '': '' @ show_int t @ degree_c"

text \<open>The pollers and their sessions are kept per component.\<close>

definition synology_metrics_scan ::
  "(string \<Rightarrow> string + 's dsm_server) \<Rightarrow> scan_ids \<Rightarrow> string \<Rightarrow> (string \<rightharpoonup> 's dsm_server \<times> dsm_session) \<Rightarrow> tracker \<Rightarrow> 's \<Rightarrow> db
     \<Rightarrow> (string + nat) \<times> (string \<rightharpoonup> 's dsm_server \<times> dsm_session) \<times> tracker \<times> 's \<times> db" where
  "synology_metrics_scan connect ids eid cache t s d0 = (case component_get eid d0 of
       (Inl _, d1) \<Rightarrow> (Inl (''get component '' @ eid), cache, t, s, d1)
     | (Inr c, d1) \<Rightarrow>
         (if \<not> non_empty_config (ic_credentials c) then (Inl (''no credentials configured for '' @ ic_name c), cache, t, s, d1)
          else case get_or_create_poller (\<lambda>cred. map_sum (\<lambda>e. e) (\<lambda>srv. (srv, no_session)) (connect cred)) eid
              (the (ic_credentials c)) cache of
            (Inl err, cache2) \<Rightarrow> (Inl (''create synology poller: '' @ err), cache2, t, s, d1)
          | (Inr (srv, ses), cache2) \<Rightarrow> (case dsm_collect srv (si_now ids) (ses, s) of
                (Inl err, ses2, s2) \<Rightarrow> (Inl (''collect metrics: '' @ err), cache2(eid \<mapsto> (srv, ses2)), t, s2, d1)
              | (Inr m, ses2, s2) \<Rightarrow>
                  (let d2 = write_readings (si_reading_uuid ids eid) (si_now ids) eid ''synology'' (dsm_metric_readings m) d1;
                       st = fire_metric ids eid (ic_name c) ''physical_host'' ''temperature_c'' (temp_threshold (of_int (dm_temp m)))
                              (temp_title (ic_name c) (dm_temp m))
                         (fire_metric ids eid (ic_name c) ''physical_host'' ''mem_percent'' (mem_threshold (dm_mem m))
                              (metric_title ''Memory'' ''memory'' (ic_name c) (dm_mem m) ''%'')
                         (fire_metric ids eid (ic_name c) ''physical_host'' ''cpu_percent'' (cpu_threshold (dm_cpu m))
                              (metric_title ''CPU'' ''CPU'' (ic_name c) (dm_cpu m) ''%'') (t, d2))) in
                   (Inr (length (dsm_metric_readings m)), cache2(eid \<mapsto> (srv, ses2)), fst st, s2, snd st)))))"

section \<open>scanner/discovery/synology.go\<close>

definition compare_counts ::
  "scan_ids \<Rightarrow> infra_component \<Rightarrow> string \<Rightarrow> nat \<Rightarrow> nat \<Rightarrow> db \<Rightarrow> nat \<times> nat \<times> db" where
  "compare_counts ids c what before now d =
     (if before < now then (now - before, 0,
        write_discovery_event (si_event_uuid ids (ic_id c) what) (si_now ids) (ic_id c) (ic_name c) ''physical_host'' ''info''
          (''[discovery] '' @ ic_name c @ '': '' @ show_nat (now - before) @ '' new '' @ what @ ''(s) discovered ('' @ show_nat now
             @ '' total)'') d)
      else if now < before then (0, before - now,
        write_discovery_event (si_event_uuid ids (ic_id c) what) (si_now ids) (ic_id c) (ic_name c) ''physical_host'' ''warn''
          (''[discovery] Entity no longer found: '' @ show_nat (before - now) @ '' '' @ what @ ''(s) missing on '' @ ic_name c
             @ '' ('' @ show_nat now @ '' total)'') d)
      else (0, 0, d))"

definition no_changes_event :: "scan_ids \<Rightarrow> infra_component \<Rightarrow> string \<Rightarrow> db \<Rightarrow> db" where
  "no_changes_event ids c detail = write_discovery_event (si_event_uuid ids (ic_id c) ''summary'') (si_now ids) (ic_id c) (ic_name c)
     ''physical_host'' ''debug'' (''[discovery] '' @ ic_name c @ '' discovery completed '' @ em_dash @ '' no changes'' @ detail)"

definition meta_counts :: "(string \<Rightarrow> dsm_meta option) \<Rightarrow> infra_component \<Rightarrow> nat \<times> nat" where
  "meta_counts decode c = (if non_empty_config (ic_meta c) then (case decode (the (ic_meta c)) of
       Some m \<Rightarrow> (length (mt_volumes m), length (mt_disks m)) | None \<Rightarrow> (0, 0)) else (0, 0))"

definition synology_discover ::
  "(string \<Rightarrow> string + 's dsm_server) \<Rightarrow> (string \<Rightarrow> dsm_meta option) \<Rightarrow> dsm_env \<Rightarrow> scan_ids \<Rightarrow> string \<Rightarrow> 's \<Rightarrow> db
     \<Rightarrow> (string + discovery_result) \<times> 's \<times> db" where
  "synology_discover connect decode env ids eid s d0 = (case component_get eid d0 of
       (Inl _, d1) \<Rightarrow> (Inl (''get component '' @ eid), s, d1)
     | (Inr c, d1) \<Rightarrow>
         (if \<not> non_empty_config (ic_credentials c) then (Inl (''no credentials configured for '' @ ic_name c), s, d1)
          else case connect (the (ic_credentials c)) of
            Inl err \<Rightarrow> (Inl (''create synology poller: '' @ err), s, d1)
          | Inr srv \<Rightarrow> (case synology_poll env srv eid new_dsm_poller s d1 of
                (Some err, _, s2, d2) \<Rightarrow> (Inl (''poll failed: '' @ err), s2, d2)
              | (None, _, s2, d2) \<Rightarrow> (case component_get eid d2 of
                    (Inl _, d3) \<Rightarrow> (Inr \<lparr>ds_found = 0, ds_disappeared = 0\<rparr>, s2, no_changes_event ids c [] d3)
                  | (Inr u, d3) \<Rightarrow>
                      (if \<not> non_empty_config (ic_meta u) then (Inr \<lparr>ds_found = 0, ds_disappeared = 0\<rparr>, s2, no_changes_event ids c [] d3)
                       else case decode (the (ic_meta u)) of
                         None \<Rightarrow> (Inl ''parse synology meta'', s2, d3)
                       | Some m \<Rightarrow>
                           (let nv = length (mt_volumes m); nd = length (mt_disks m) in
                            case compare_counts ids c ''volume'' (fst (meta_counts decode c)) nv d3 of (f1, g1, d4) \<Rightarrow>
                            (case compare_counts ids c ''disk'' (snd (meta_counts decode c)) nd d4 of (f2, g2, d5) \<Rightarrow>
                              (Inr \<lparr>ds_found = f1 + f2, ds_disappeared = g1 + g2\<rparr>, s2,
                               if f1 + f2 = 0 \<and> g1 + g2 = 0
                               then no_changes_event ids c ('' ('' @ show_nat nv @ '' volumes, '' @ show_nat nd @ '' disks)'') d5
                               else d5))))))))"

section \<open>GetSynologyDetail\<close>

text \<open>The answer is the stored snapshot; the flag is \<open>no_data\<close>.\<close>

definition infra_handler_synology ::
  "(string \<Rightarrow> dsm_meta option) \<Rightarrow> string \<Rightarrow> db \<Rightarrow> (dsm_meta \<times> bool) response \<times> db" where
  "infra_handler_synology decode cid = with_component cid (\<lambda>c d1.
     (if ic_type c \<noteq> ''synology'' then Failed 400 ''component is not a Synology NAS''
      else if \<not> non_empty_config (ic_meta c) then Answer 200 (empty_meta [], True)
      else case decode (the (ic_meta c)) of
        None \<Rightarrow> Failed 500 ''failed to parse meta'' | Some m \<Rightarrow> Answer 200 (m, False), d1))"

section \<open>A session that the device has dropped\<close>

text \<open>C40: If the device honours the session of its last login and refuses older ones only with a session error, every
  request is answered, whatever session the client holds: it logs in when it has none, when its session is six days
  old, and once more when the device refuses it.\<close>

theorem dsm_get_recovers:
  assumes "\<And>s. \<exists>sid s2. login s = (Inr sid, s2) \<and> sid \<noteq> [] \<and> fst (call sid s2) = ReplyData (Inr (answer s2))"
    and "\<And>sid s. fst (call sid s) = ReplyData (Inr (answer s)) \<or> (\<exists>code \<in> set session_codes. fst (call sid s) = ReplyRefused code)"
  shows "\<exists>s. fst (dsm_get login call now st) = Inr (answer s)"
proof -
  have in_log: "\<exists>sid s2. dsm_log_in login now st0 = (None, \<lparr>dn_sid = sid, dn_since = now\<rparr>, s2)
      \<and> fst (call sid s2) = ReplyData (Inr (answer s2))" for st0
    using assms(1) [of "snd st0"] by (auto simp: dsm_log_in_def)
  have request: "\<exists>s. fst (dsm_request login call now st1) = Inr (answer s)" for st1 :: "dsm_session \<times> _"
  proof (cases "call (dn_sid (fst st1)) (snd st1)")
    case (Pair r s2)
    from assms(2) [of "dn_sid (fst st1)" "snd st1"] show ?thesis
    proof
      assume "fst (call (dn_sid (fst st1)) (snd st1)) = ReplyData (Inr (answer (snd st1)))"
      then show ?thesis by (auto simp: Pair dsm_request_def)
    next
      assume "\<exists>code \<in> set session_codes. fst (call (dn_sid (fst st1)) (snd st1)) = ReplyRefused code"
      then obtain code where code: "code \<in> set session_codes" "r = ReplyRefused code" by (auto simp: Pair)
      obtain sid s3 where l: "dsm_log_in login now (fst st1, s2) = (None, \<lparr>dn_sid = sid, dn_since = now\<rparr>, s3)"
          "fst (call sid s3) = ReplyData (Inr (answer s3))"
        using in_log by blast
      then show ?thesis using code by (cases "call sid s3") (auto simp: Pair dsm_request_def)
    qed
  qed
  obtain sid s2 where "dsm_log_in login now st = (None, \<lparr>dn_sid = sid, dn_since = now\<rparr>, s2)" using in_log by blast
  then show ?thesis using request [of "(\<lparr>dn_sid = sid, dn_since = now\<rparr>, s2)"] request [of st] by (simp add: dsm_get_def)
qed

text \<open>The device of the witness counts the sessions it gave out and refuses all but the last.\<close>

definition sample_dsm_login :: "nat dsm_login" where
  "sample_dsm_login n = (Inr (replicate (Suc n) CHR ''s''), Suc n)"

definition sample_dsm_call :: "(nat, nat) dsm_call" where
  "sample_dsm_call sid n = (if length sid = n then ReplyData (Inr 7) else ReplyRefused 106, n)"

theorem dsm_get_recovers_witness:
  "\<exists>s :: nat. fst (dsm_get sample_dsm_login sample_dsm_call 0 (\<lparr>dn_sid = ''s'', dn_since = 0\<rparr>, 5)) = Inr ((\<lambda>_. 7) s)"
proof (rule dsm_get_recovers)
  show "\<exists>sid s2. sample_dsm_login n = (Inr sid, s2) \<and> sid \<noteq> [] \<and> fst (sample_dsm_call sid s2) = ReplyData (Inr 7)" for n
    by (simp add: sample_dsm_login_def sample_dsm_call_def)
  show "fst (sample_dsm_call sid n) = ReplyData (Inr 7)
      \<or> (\<exists>code \<in> set session_codes. fst (sample_dsm_call sid n) = ReplyRefused code)" for sid n
    by (simp add: sample_dsm_call_def session_codes_def)
qed

text \<open>A request costs at most two logins and two calls.\<close>

lemma log_in_cost:
  assumes "\<And>s. (cost :: 's \<Rightarrow> nat) (snd (login s)) \<le> cost s + l"
  shows "cost (snd (snd (dsm_log_in login now st))) \<le> cost (snd st) + l"
  using assms [of "snd st"] by (auto simp: dsm_log_in_def split: prod.split sum.split)

lemma request_cost:
  assumes "\<And>s. (cost :: 's \<Rightarrow> nat) (snd (login s)) \<le> cost s + l" and "\<And>sid s. cost (snd (call sid s)) \<le> cost s + c"
  shows "cost (snd (snd (dsm_request login call now st))) \<le> cost (snd st) + l + 2 * c"
proof -
  obtain r and s2 :: 's where one: "call (dn_sid (fst st)) (snd st) = (r, s2)" by (meson surj_pair)
  have c1: "cost s2 \<le> cost (snd st) + c" using assms(2) [of "dn_sid (fst st)" "snd st"] by (simp add: one)
  obtain e and st3 :: "dsm_session \<times> 's" where two: "dsm_log_in login now (fst st, s2) = (e, st3)" by (meson surj_pair)
  have c2: "cost (snd st3) \<le> cost s2 + l" using log_in_cost [where cost = cost and login = login and l = l, OF assms(1), of now "(fst st, s2)"] by (simp add: two)
  have c3: "cost (snd (call (dn_sid (fst st3)) (snd st3))) \<le> cost (snd st3) + c" by (rule assms(2))
  show ?thesis
    using c1 c2 c3 by (cases r; cases e) (auto simp: dsm_request_def one two split: prod.split)
qed

lemma get_cost:
  assumes "\<And>s. (cost :: 's \<Rightarrow> nat) (snd (login s)) \<le> cost s + l" and "\<And>sid s. cost (snd (call sid s)) \<le> cost s + c"
  shows "cost (snd (snd (dsm_get login call now st))) \<le> cost (snd st) + 2 * l + 2 * c"
proof -
  obtain e and st1 :: "dsm_session \<times> 's" where one: "dsm_log_in login now st = (e, st1)" by (meson surj_pair)
  have c1: "cost (snd st1) \<le> cost (snd st) + l" using log_in_cost [where cost = cost and login = login and l = l, OF assms(1), of now st] by (simp add: one)
  show ?thesis
    using c1 request_cost [where cost = cost and login = login and l = l and call = call and c = c, OF assms, of now st1]
      request_cost [where cost = cost and login = login and l = l and call = call and c = c, OF assms, of now st]
    by (cases e) (auto simp: dsm_get_def one)
qed

section \<open>The status after a poll\<close>

lemma utilization_only:
  "d_faults d = [] \<Longrightarrow> \<exists>rs. snd (note_utilization env cid u m d) = d\<lparr>d_readings := rs\<rparr>"
  using write_readings_only by (simp add: note_utilization_def del: write_readings.simps)

lemma note_volumes_only:
  "d_faults d = [] \<Longrightarrow> \<exists>es rs. snd (snd (note_volumes env cid vs (p, m, d))) = d\<lparr>d_events := es, d_readings := rs\<rparr>"
proof (induction vs arbitrary: p m d)
  case Nil
  then show ?case by (intro exI [of _ "d_events d"] exI [of _ "d_readings d"]) simp
next
  case (Cons v vs)
  show ?case
  proof (cases "volume_usage v")
    case None
    then show ?thesis using Cons by simp
  next
    case (Some x)
    obtain used all pct where x: "x = (used, all, pct)" by (cases x)
    obtain p2 m2 es where eq: "note_volumes env cid (v # vs) (p, m, d) = note_volumes env cid vs (p2, m2,
        post_all event_create es (dsm_readings env cid [(''disk_percent_'' @ volume_key (dv_path v), pct)] d))"
      by (simp only: note_volumes.simps Some x option.case prod.case Let_def volume_step_def)
    obtain rs where rs: "dsm_readings env cid [(''disk_percent_'' @ volume_key (dv_path v), pct)] d = d\<lparr>d_readings := rs\<rparr>"
      using write_readings_only [OF Cons.prems] by blast
    obtain es2 where es: "post_all event_create es (d\<lparr>d_readings := rs\<rparr>) = d\<lparr>d_readings := rs, d_events := es2\<rparr>"
      using post_all_only [of "d\<lparr>d_readings := rs\<rparr>" es] Cons.prems by auto
    obtain a b where "snd (snd (note_volumes env cid vs (p2, m2, d\<lparr>d_readings := rs, d_events := es2\<rparr>)))
        = (d\<lparr>d_readings := rs, d_events := es2\<rparr>)\<lparr>d_events := a, d_readings := b\<rparr>"
      using Cons.IH [of "d\<lparr>d_readings := rs, d_events := es2\<rparr>" p2 m2] Cons.prems by auto
    then show ?thesis unfolding eq rs es by (intro exI [of _ a] exI [of _ b]) simp
  qed
qed

lemma note_disks_only:
  "d_faults d = [] \<Longrightarrow> \<exists>es. snd (snd (note_disks env cid ks (p, m, d))) = d\<lparr>d_events := es\<rparr>"
proof (induction ks arbitrary: p m d)
  case Nil
  then show ?case by (intro exI [of _ "d_events d"]) simp
next
  case (Cons k ks)
  obtain p2 m2 es1 es2 where eq: "note_disks env cid (k # ks) (p, m, d)
      = note_disks env cid ks (p2, m2, post_all event_create es2 (post_all event_create es1 d))"
    by (simp only: note_disks.simps disk_step_def hot_step_def prod.case)
  obtain x where x: "post_all event_create es1 d = d\<lparr>d_events := x\<rparr>" using post_all_only [OF Cons.prems] by blast
  obtain y where y: "post_all event_create es2 (d\<lparr>d_events := x\<rparr>) = d\<lparr>d_events := y\<rparr>"
    using post_all_only [of "d\<lparr>d_events := x\<rparr>" es2] Cons.prems by auto
  obtain z where "snd (snd (note_disks env cid ks (p2, m2, d\<lparr>d_events := y\<rparr>))) = (d\<lparr>d_events := y\<rparr>)\<lparr>d_events := z\<rparr>"
    using Cons.IH [of "d\<lparr>d_events := y\<rparr>" p2 m2] Cons.prems by auto
  then show ?case unfolding eq x y by (intro exI [of _ z]) simp
qed

lemma note_update_only:
  assumes "d_faults d = []"
  shows "\<exists>es. snd (snd (note_update env cid g (p, m, d))) = d\<lparr>d_events := es\<rparr>"
proof -
  have "\<exists>es. d = d\<lparr>d_events := es\<rparr>" by (rule exI [of _ "d_events d"]) simp
  moreover have "\<exists>es. snd (event_create e d) = d\<lparr>d_events := es\<rparr>" for e by (rule event_create_only [OF assms])
  ultimately show ?thesis by (simp add: note_update_def Let_def db_ignore_def)
qed

lemma note_answers_only:
  assumes "d_faults d = []"
  shows "\<exists>es rs. snd (snd (note_answers env cid a (p, m, d))) = d\<lparr>d_events := es, d_readings := rs\<rparr>"
proof -
  have st1: "\<exists>p1 m1 rs. (case da_util a of Inl _ \<Rightarrow> (p, m, d)
      | Inr u \<Rightarrow> (case note_utilization env cid u m d of (m2, d2) \<Rightarrow> (p, m2, d2))) = (p1, m1, d\<lparr>d_readings := rs\<rparr>)"
  proof (cases "da_util a")
    case (Inl e)
    then show ?thesis by (intro exI [of _ p] exI [of _ m] exI [of _ "d_readings d"]) simp
  next
    case (Inr u)
    then show ?thesis using utilization_only [OF assms, of env cid u m] by (cases "note_utilization env cid u m d") auto
  qed
  have vol: "\<exists>p2 m2 es rs. (case da_storage a of Inl _ \<Rightarrow> (p1, m1, d1) | Inr vs \<Rightarrow> note_volumes env cid vs (p1, m1, d1))
      = (p2, m2, d1\<lparr>d_events := es, d_readings := rs\<rparr>)" if "d_faults d1 = []" for p1 m1 and d1 :: db
  proof (cases "da_storage a")
    case (Inl e)
    then show ?thesis by (intro exI [of _ p1] exI [of _ m1] exI [of _ "d_events d1"] exI [of _ "d_readings d1"]) simp
  next
    case (Inr vs)
    then show ?thesis using note_volumes_only [OF that, of env cid vs p1 m1]
      by (cases "note_volumes env cid vs (p1, m1, d1)") auto
  qed
  have disks: "\<exists>p2 m2 es. (case da_disks a of Inl _ \<Rightarrow> (p1, m1, d1) | Inr ks \<Rightarrow> note_disks env cid ks (p1, m1, d1))
      = (p2, m2, d1\<lparr>d_events := es\<rparr>)" if "d_faults d1 = []" for p1 m1 and d1 :: db
  proof (cases "da_disks a")
    case (Inl e)
    then show ?thesis by (intro exI [of _ p1] exI [of _ m1] exI [of _ "d_events d1"]) simp
  next
    case (Inr ks)
    then show ?thesis using note_disks_only [OF that, of env cid ks p1 m1]
      by (cases "note_disks env cid ks (p1, m1, d1)") auto
  qed
  have upd: "\<exists>es. snd (snd (case da_upgrade a of Inl _ \<Rightarrow> (p1, m1, d1) | Inr g \<Rightarrow> note_update env cid g (p1, m1, d1)))
      = d1\<lparr>d_events := es\<rparr>" if "d_faults d1 = []" for p1 m1 and d1 :: db
  proof (cases "da_upgrade a")
    case (Inl e)
    then show ?thesis by (intro exI [of _ "d_events d1"]) simp
  next
    case (Inr g)
    then show ?thesis using note_update_only [OF that, of env cid g p1 m1] by simp
  qed
  obtain p1 m1 rs1 where 1: "(case da_util a of Inl _ \<Rightarrow> (p, m, d)
      | Inr u \<Rightarrow> (case note_utilization env cid u m d of (m2, d2) \<Rightarrow> (p, m2, d2))) = (p1, m1, d\<lparr>d_readings := rs1\<rparr>)"
    using st1 by blast
  obtain p2 m2 es2 rs2 where 2: "(case da_storage a of Inl _ \<Rightarrow> (p1, m1, d\<lparr>d_readings := rs1\<rparr>)
      | Inr vs \<Rightarrow> note_volumes env cid vs (p1, m1, d\<lparr>d_readings := rs1\<rparr>)) = (p2, m2, d\<lparr>d_events := es2, d_readings := rs2\<rparr>)"
    using vol [of "d\<lparr>d_readings := rs1\<rparr>" p1 m1] assms by auto
  obtain p3 m3 es3 where 3: "(case da_disks a of Inl _ \<Rightarrow> (p2, m2, d\<lparr>d_events := es2, d_readings := rs2\<rparr>)
      | Inr ks \<Rightarrow> note_disks env cid ks (p2, m2, d\<lparr>d_events := es2, d_readings := rs2\<rparr>))
      = (p3, m3, d\<lparr>d_readings := rs2, d_events := es3\<rparr>)"
    using disks [of "d\<lparr>d_events := es2, d_readings := rs2\<rparr>" p2 m2] assms by auto
  obtain es4 where 4: "snd (snd (case da_upgrade a of Inl _ \<Rightarrow> (p3, m3, d\<lparr>d_readings := rs2, d_events := es3\<rparr>)
      | Inr g \<Rightarrow> note_update env cid g (p3, m3, d\<lparr>d_readings := rs2, d_events := es3\<rparr>))) = d\<lparr>d_readings := rs2, d_events := es4\<rparr>"
    using upd [of "d\<lparr>d_readings := rs2, d_events := es3\<rparr>" p3 m3] assms by auto
  show ?thesis unfolding note_answers_def Let_def prod.case 1 2 3 4 by (intro exI [of _ es4] exI [of _ rs2]) simp
qed

definition noted_volumes :: "dsm_volume list \<Rightarrow> meta_volume list" where
  "noted_volumes vs = List.map_filter (\<lambda>v. map_option (\<lambda>(u, t, q).
     \<lparr>mv_path = dv_path v, mv_status = dv_status v, mv_used = u, mv_total = t, mv_percent = q\<rparr>) (volume_usage v)) vs"

lemma note_volumes_meta:
  "fst (snd (note_volumes env cid vs (p, m, d))) = m\<lparr>mt_volumes := mt_volumes m @ noted_volumes vs\<rparr>"
proof (induction vs arbitrary: p m d)
  case (Cons v vs)
  then show ?case
    by (cases "volume_usage v") (auto simp: noted_volumes_def List.map_filter_simps volume_step_def Let_def split: prod.split)
qed (simp add: noted_volumes_def List.map_filter_simps)

lemma note_disks_meta: "fst (snd (note_disks env cid ks (p, m, d))) = m\<lparr>mt_disks := mt_disks m @ ks\<rparr>"
  by (induction ks arbitrary: p m d) (simp_all add: disk_step_def hot_step_def)

lemma note_update_meta:
  "fst (snd (note_update env cid g st)) = (fst (snd st))\<lparr>mt_update_available := dg_available g, mt_update_version := dg_version g,
     mt_update_checked := True\<rparr>"
  by (cases st) (simp add: note_update_def Let_def)

text \<open>The snapshot the answers amount to: the parts not answered are empty, volumes without usable sizes are left out.\<close>

definition snapshot_of :: "dsm_env \<Rightarrow> dsm_info \<Rightarrow> dsm_answers \<Rightarrow> dsm_meta" where
  "snapshot_of env i a =
     (let m1 = (case da_util a of Inl _ \<Rightarrow> system_meta env i
                | Inr u \<Rightarrow> (system_meta env i)\<lparr>mt_cpu := du_user_load u, mt_mem_used := fst (memory_bytes u),
                    mt_mem_total := snd (memory_bytes u), mt_mem_percent := du_real_usage u\<rparr>);
          m2 = m1\<lparr>mt_volumes := (case da_storage a of Inl _ \<Rightarrow> [] | Inr vs \<Rightarrow> noted_volumes vs),
                  mt_disks := (case da_disks a of Inl _ \<Rightarrow> [] | Inr ks \<Rightarrow> ks)\<rparr> in
      (case da_upgrade a of Inl _ \<Rightarrow> m2
       | Inr g \<Rightarrow> m2\<lparr>mt_update_available := dg_available g, mt_update_version := dg_version g, mt_update_checked := True\<rparr>))"

lemma note_answers_meta: "fst (snd (note_answers env cid a (p, system_meta env i, d))) = snapshot_of env i a"
proof -
  have empty: "mt_volumes (system_meta env i) = []" "mt_disks (system_meta env i) = []"
    by (simp_all add: system_meta_def Let_def empty_meta_def)
  have vols: "fst (snd (note_volumes env cid vs st)) = (fst (snd st))\<lparr>mt_volumes := mt_volumes (fst (snd st)) @ noted_volumes vs\<rparr>" for vs st
    by (cases st) (simp add: note_volumes_meta)
  have disks: "fst (snd (note_disks env cid ks st)) = (fst (snd st))\<lparr>mt_disks := mt_disks (fst (snd st)) @ ks\<rparr>" for ks st
    by (cases st) (simp add: note_disks_meta)
  show ?thesis
    unfolding note_answers_def snapshot_of_def Let_def
    by (cases "da_util a"; cases "da_storage a"; cases "da_disks a"; cases "da_upgrade a")
      (simp_all add: note_update_meta note_utilization_def vols disks empty del: write_readings.simps)
qed

text \<open>C39: A poll whose first request fails changes nothing but the session and names the reason; any other poll succeeds,
  stores the snapshot \<open>snapshot_of\<close> of what the device answered (the parts it did not answer are empty, and of the
  volumes only those with readable sizes and a total that is not zero are in it), marks the component degraded if a
  request other than the update check failed or a disk is critical, online otherwise, and leaves every other component
  row as it is.\<close>

theorem synology_poll_reports:
  assumes "d_faults d = []" and "components_ok d" and "cid \<in> ic_id ` set (d_components d)"
  shows "case synology_poll env srv cid p s d of (err, p2, s2, d2) \<Rightarrow>
    (case dsm_get (sv_login srv) (sv_info srv) (ye_now env) (yp_session p, s) of
       (Inl e, ses, s1) \<Rightarrow> err = Some (''system info: '' @ error_text e) \<and> p2 = p\<lparr>yp_session := ses\<rparr> \<and> s2 = s1 \<and> d2 = d
     | (Inr i, st1) \<Rightarrow> (case dsm_ask_all srv (ye_now env) st1 of (a, _, s3) \<Rightarrow> err = None \<and> s2 = s3
         \<and> component_row d2 cid = map_option (\<lambda>c. c\<lparr>ic_meta := Some (ye_meta_json env (snapshot_of env i a)),
              ic_last_status := if dsm_degraded a then ''degraded'' else ''online'',
              ic_last_polled_at := Some (ye_polled_at env)\<rparr>) (component_row d cid)
         \<and> (\<forall>k. k \<noteq> cid \<longrightarrow> component_row d2 k = component_row d k)))"
proof (cases "dsm_get (sv_login srv) (sv_info srv) (ye_now env) (yp_session p, s)")
  case (fields r ses s1)
  show ?thesis
  proof (cases r)
    case (Inl e)
    then show ?thesis by (simp add: synology_poll_def fields)
  next
    case (Inr i)
    obtain a ses2 s2 where a: "dsm_ask_all srv (ye_now env) (ses, s1) = (a, ses2, s2)" by (rule prod_cases3)
    obtain p2 m and d2 :: db where n: "note_answers env cid a (p\<lparr>yp_session := ses2\<rparr>, system_meta env i, d) = (p2, m, d2)"
      by (rule prod_cases3)
    have m: "m = snapshot_of env i a"
      using note_answers_meta [of env cid a "p\<lparr>yp_session := ses2\<rparr>" i d] by (simp add: n)
    obtain es rs where d2: "d2 = d\<lparr>d_events := es, d_readings := rs\<rparr>"
      using note_answers_only [OF assms(1), of env cid a "p\<lparr>yp_session := ses2\<rparr>" "system_meta env i"] by (auto simp: n)
    have ok2: "components_ok d2" "d_faults d2 = []" "cid \<in> ic_id ` set (d_components d2)"
      using assms by (simp_all add: d2 components_ok_def)
    have poll: "synology_poll env srv cid p s d = (None, p2, s2, store_poll cid (ye_meta_json env m)
        (if dsm_degraded a then ''degraded'' else ''online'') (ye_polled_at env) d2)"
      by (simp only: synology_poll_def fields Inr sum.case prod.case a n)
    show ?thesis
      unfolding poll fields Inr sum.case prod.case a
      using store_poll_rows [OF ok2(2,1,3) degraded_known, where meta = "ye_meta_json env m" and polled = "ye_polled_at env"]
      by (simp add: m d2)
  qed
qed

text \<open>The device of the witness refuses the session it is asked with first, answers after a new login, has no volumes and
  one disk that is critical.\<close>

definition sample_dsm_answer :: "'a \<Rightarrow> (nat, 'a) dsm_call" where
  "sample_dsm_answer a sid n = (if length sid = n then ReplyData (Inr a) else ReplyRefused 106, n)"

definition sample_dsm :: "nat dsm_server" where
  "sample_dsm = \<lparr>sv_login = sample_dsm_login,
     sv_info = sample_dsm_answer \<lparr>di_model = ''DS220'', di_firmware = ''7.2'', di_hostname = ''nas'', di_up_time = ''90061'', di_temperature = 40\<rparr>,
     sv_util = sample_dsm_answer \<lparr>du_user_load = 5, du_real_usage = 20, du_real_total = 100, du_avail_real = 80\<rparr>,
     sv_storage = sample_dsm_answer [], sv_disks = sample_dsm_answer [\<lparr>dd_slot = 1, dd_model = ''WD'', dd_temp = 35, dd_status = ''critical''\<rparr>],
     sv_upgrade = sample_dsm_answer \<lparr>dg_available = False, dg_version = []\<rparr>\<rparr>"

definition sample_dsm_env :: dsm_env where
  "sample_dsm_env = \<lparr>ye_now = 0, ye_polled_at = ''t'', ye_reading_uuid = (\<lambda>m. m), ye_event_uuid = (\<lambda>k. k), ye_meta_json = mt_model\<rparr>"

theorem synology_poll_reports_witness:
  "case synology_poll sample_dsm_env sample_dsm ''p1'' (new_dsm_poller\<lparr>yp_session := \<lparr>dn_sid = ''s'', dn_since = 0\<rparr>\<rparr>) 5 sample_pve_db of
     (err, p2, s2, d2) \<Rightarrow> err = None \<and> s2 = 6 \<and> map_option ic_last_status (component_row d2 ''p1'') = Some ''degraded''
       \<and> map_option ic_meta (component_row d2 ''p1'') = Some (Some ''DS220'')"
proof -
  let ?p = "new_dsm_poller\<lparr>yp_session := \<lparr>dn_sid = ''s'', dn_since = 0\<rparr>\<rparr>"
  have d: "d_faults sample_pve_db = []" "components_ok sample_pve_db" "''p1'' \<in> ic_id ` set (d_components sample_pve_db)"
    by (simp_all add: sample_pve_db_def empty_db_def components_ok_def component_row_ok_def sample_pve_def
        component_types_def collection_methods_def component_statuses_def)
  have row: "component_row sample_pve_db ''p1'' = Some sample_pve"
    by (simp add: sample_pve_db_def empty_db_def sample_pve_def)
  have info: "dsm_get (sv_login sample_dsm) (sv_info sample_dsm) (ye_now sample_dsm_env) (yp_session ?p, 5)
      = (Inr \<lparr>di_model = ''DS220'', di_firmware = ''7.2'', di_hostname = ''nas'', di_up_time = ''90061'', di_temperature = 40\<rparr>,
         \<lparr>dn_sid = ''ssssss'', dn_since = 0\<rparr>, 6)"
    by code_simp
  have asked: "dsm_ask_all sample_dsm (ye_now sample_dsm_env) (\<lparr>dn_sid = ''ssssss'', dn_since = 0\<rparr>, 6)
      = (\<lparr>da_util = Inr \<lparr>du_user_load = 5, du_real_usage = 20, du_real_total = 100, du_avail_real = 80\<rparr>, da_storage = Inr [],
          da_disks = Inr [\<lparr>dd_slot = 1, dd_model = ''WD'', dd_temp = 35, dd_status = ''critical''\<rparr>],
          da_upgrade = Inr \<lparr>dg_available = False, dg_version = []\<rparr>\<rparr>, \<lparr>dn_sid = ''ssssss'', dn_since = 0\<rparr>, 6)"
    by code_simp
  show ?thesis
    using synology_poll_reports [where env = sample_dsm_env and srv = sample_dsm and p = ?p and s = 5, OF d] unfolding info sum.case prod.case asked
    by (simp add: row dsm_degraded_def snapshot_of_def system_meta_def sample_dsm_env_def Let_def split: prod.splits)
qed

section \<open>Alarms and restarts\<close>

text \<open>A volume that reports no size, as a crashed one may, is skipped before its state is looked at: it is not in the
  snapshot and raises no alarm.\<close>

lemma go_atoi_zero: "go_atoi ''0'' = Some 0"
  by code_simp

lemma sizeless_volume_skipped:
  "dv_total_size v = ''0'' \<Longrightarrow> note_volumes env cid [v] st = st \<and> noted_volumes [v] = []"
  by (cases st) (simp add: volume_usage_def go_atoi_zero noted_volumes_def List.map_filter_simps split: option.split)

text \<open>A poller that has just been made announces the state of every volume and disk that is not well, one that is kept
  announces it once: the scans and the manual scan make a poller for every poll.\<close>

lemma fresh_poller_repeats_alarm:
  assumes "d_faults d = []" and "volume_usage v \<noteq> None" and "dv_status v = ''crashed''"
    and "event_insertable d (dsm_event env cid (''volume'' @ dv_path v) ''error'' (volume_title v) (volume_json v))"
  shows "length (d_events (snd (snd (note_volumes env cid [v] (new_dsm_poller, m, d))))) = Suc (length (d_events d))"
    and "yp_volumes p (dv_path v) = Some ''crashed'' \<Longrightarrow> d_events (snd (snd (note_volumes env cid [v] (p, m, d)))) = d_events d"
proof -
  obtain used all pct where u: "volume_usage v = Some (used, all, pct)" using assms(2) by auto
  obtain rs where rs: "dsm_readings env cid [(''disk_percent_'' @ volume_key (dv_path v), pct)] d = d\<lparr>d_readings := rs\<rparr>"
    using write_readings_only [OF assms(1)] by blast
  have step: "volume_step (dv_path v) ''crashed'' Map.empty = ([''error''], [dv_path v \<mapsto> ''crashed''])"
    by (simp add: volume_step_def volume_emit_def known_status_def)
  have posted: "post_all event_create [dsm_event env cid (''volume'' @ dv_path v) ''error'' (volume_title v) (volume_json v)]
      (d\<lparr>d_readings := rs\<rparr>) = d\<lparr>d_readings := rs, d_events := d_events d
        @ [dsm_event env cid (''volume'' @ dv_path v) ''error'' (volume_title v) (volume_json v)]\<rparr>"
    using post_all_fresh [of "d\<lparr>d_readings := rs\<rparr>" "[dsm_event env cid (''volume'' @ dv_path v) ''error'' (volume_title v) (volume_json v)]"]
      assms(1,4) by (simp add: event_insertable_def fresh_ids_def)
  show "length (d_events (snd (snd (note_volumes env cid [v] (new_dsm_poller, m, d))))) = Suc (length (d_events d))"
    unfolding note_volumes.simps u option.case prod.case Let_def rs assms(3)
    by (simp only: new_dsm_poller_def dsm_poller.simps step prod.case list.map posted note_volumes.simps snd_conv db.simps) simp
  show "d_events (snd (snd (note_volumes env cid [v] (p, m, d)))) = d_events d" if "yp_volumes p (dv_path v) = Some ''crashed''"
    by (simp add: u volume_step_def volume_emit_def known_status_def assms(3) that post_all_def write_readings_events
        del: write_readings.simps)
qed

end
