(* ===== verification/ScanPass.thy ===== *)
theory ScanPass
  imports SnapshotScanners
begin

text \<open>
  What a pass of the scan scheduler (scanner/scheduler.go, the theory \<open>Components\<close>) does when the scanners it calls
  answer, fail and write as they like, and that the snapshot scanners are such scanners. The scanners run in goroutines;
  their order is the argument \<open>perm\<close> of the pass, and one scan is one step.
\<close>

section \<open>What is asked of a scanner\<close>

text \<open>A step that adds events with other identifiers than the scheduler uses for its own and keeps the database answering.
  What it answers, and what else it writes, is left open.\<close>

definition appends_events :: "string set \<Rightarrow> db \<Rightarrow> db \<Rightarrow> bool" where
  "appends_events reserved d d2 = (d_faults d2 = []
     \<and> (\<exists>es. d_events d2 = d_events d @ es \<and> ev_id ` set es \<inter> reserved = {}))"

definition keeps_events :: "string set \<Rightarrow> (db \<Rightarrow> db) \<Rightarrow> bool" where
  "keeps_events reserved f = (\<forall>d. d_faults d = [] \<longrightarrow> appends_events reserved d (f d))"

definition registry_polite :: "string set \<Rightarrow> scan_registry \<Rightarrow> bool" where
  "registry_polite reserved r =
     ((\<forall>sc \<in> ran (sr_by_type r) \<union> ran (sr_by_method r). \<forall>i t. keeps_events reserved (\<lambda>d. snd (sc i t d)))
      \<and> (\<forall>j \<in> set (sr_globals r). keeps_events reserved j))"

section \<open>A pass\<close>

text \<open>The scans of a pass in their order: each component that has a scanner, with what the scanner answered at the database
  the scans before had left.\<close>

fun scan_results ::
  "(string \<Rightarrow> string) \<Rightarrow> go_time \<Rightarrow> bucket \<Rightarrow> scan_registry \<Rightarrow> infra_component list \<Rightarrow> db \<Rightarrow> (infra_component \<times> string option) list" where
  "scan_results uuid now b r [] d = []"
| "scan_results uuid now b r (c # cs) d =
     (case scanner_for r c of None \<Rightarrow> [] | Some sc \<Rightarrow> [(c, fst (sc (ic_id c) (ic_type c) d))])
     @ scan_results uuid now b r cs (scan_component uuid now b r c d)"

text \<open>The events the scheduler owes for them.\<close>

definition failure_events ::
  "(string \<Rightarrow> string) \<Rightarrow> go_time \<Rightarrow> bucket \<Rightarrow> (infra_component \<times> string option) list \<Rightarrow> event list" where
  "failure_events uuid now b results =
     concat (map (\<lambda>(c, answer). case answer of None \<Rightarrow> [] | Some err \<Rightarrow> [scan_error_event (uuid (ic_id c)) now c b err]) results)"

definition own_events :: "string set \<Rightarrow> db \<Rightarrow> event list" where
  "own_events reserved d = filter (\<lambda>e. ev_id e \<in> reserved) (d_events d)"

lemma own_events_appends: "appends_events reserved d d2 \<Longrightarrow> own_events reserved d2 = own_events reserved d"
  by (fastforce simp: appends_events_def own_events_def filter_empty_conv disjoint_iff)

lemma appends_events_faults: "appends_events reserved d d2 \<Longrightarrow> d_faults d2 = []"
  by (simp add: appends_events_def)

lemma scan_error_event_fields [simp]:
  "ev_id (scan_error_event u now c b err) = u"
  "event_row_ok (scan_error_event u now c b err)"
  by (simp_all add: scan_error_event_def event_row_ok_def event_levels_def event_source_types_def)

lemma scanner_for_polite:
  "registry_polite reserved r \<Longrightarrow> scanner_for r c = Some sc \<Longrightarrow> keeps_events reserved (\<lambda>d. snd (sc i t d))"
  by (auto simp: registry_polite_def scanner_for_def ran_def split: option.splits)

lemma scanned_components: "map fst (scan_results uuid now b r cs d) = filter (\<lambda>c. scanner_for r c \<noteq> None) cs"
  by (induction cs arbitrary: d) (auto split: option.split)

lemma scan_component_owns:
  assumes "registry_polite (range uuid) r" and "d_faults d = []" and "uuid (ic_id c) \<notin> ev_id ` set (d_events d)"
  shows "own_events (range uuid) (scan_component uuid now b r c d)
      = own_events (range uuid) d @ failure_events uuid now b (scan_results uuid now b r [c] d)
    \<and> d_faults (scan_component uuid now b r c d) = []"
proof (cases "scanner_for r c")
  case None
  then show ?thesis using assms by (simp add: scan_component_def failure_events_def)
next
  case (Some sc)
  obtain res d2 where run: "sc (ic_id c) (ic_type c) d = (res, d2)" by fastforce
  have app: "appends_events (range uuid) d d2"
    using scanner_for_polite [OF assms(1) Some, of "ic_id c" "ic_type c"] assms(2) run unfolding keeps_events_def by (metis snd_conv)
  note same = own_events_appends [OF app] and faults = appends_events_faults [OF app]
  have fresh: "uuid (ic_id c) \<notin> ev_id ` set (d_events d2)"
    using app assms(3) by (fastforce simp: appends_events_def disjoint_iff)
  show ?thesis
  proof (cases res)
    case None
    then show ?thesis using same faults by (simp add: scan_component_def Some run failure_events_def)
  next
    case (Some e)
    then show ?thesis
      using same faults fresh \<open>scanner_for r c = Some sc\<close>
      by (simp add: scan_component_def run failure_events_def event_create_no_fault event_insertable_def own_events_def)
  qed
qed

lemma own_event_ids: "x \<in> reserved \<Longrightarrow> x \<in> ev_id ` set (d_events d) \<longleftrightarrow> x \<in> ev_id ` set (own_events reserved d)"
  by (auto simp: own_events_def)

lemma failure_event_ids: "ev_id ` set (failure_events uuid now b rs) \<subseteq> (uuid \<circ> ic_id \<circ> fst) ` set rs"
  by (force simp: failure_events_def split: option.splits)

lemma failure_events_append: "failure_events uuid now b (rs @ qs) = failure_events uuid now b rs @ failure_events uuid now b qs"
  by (simp add: failure_events_def)

lemma scan_components_own:
  assumes "registry_polite (range uuid) r" and "d_faults d = []"
    and "distinct (map (uuid \<circ> ic_id) cs)" and "(uuid \<circ> ic_id) ` set cs \<inter> ev_id ` set (d_events d) = {}"
  shows "own_events (range uuid) (foldl (\<lambda>d c. scan_component uuid now b r c d) d cs)
      = own_events (range uuid) d @ failure_events uuid now b (scan_results uuid now b r cs d)
    \<and> d_faults (foldl (\<lambda>d c. scan_component uuid now b r c d) d cs) = []"
  using assms(2-)
proof (induction cs arbitrary: d)
  case Nil
  then show ?case by (simp add: failure_events_def)
next
  case (Cons c cs)
  let ?d = "scan_component uuid now b r c d"
  let ?one = "failure_events uuid now b (scan_results uuid now b r [c] d)"
  have own: "own_events (range uuid) ?d = own_events (range uuid) d @ ?one" and faults: "d_faults ?d = []"
    using scan_component_owns [OF assms(1), of d c now b] Cons.prems by auto
  have ids: "ev_id ` set ?one \<subseteq> {uuid (ic_id c)}"
    using failure_event_ids [of uuid now b "scan_results uuid now b r [c] d"] by (auto split: option.splits)
  have "(uuid \<circ> ic_id) ` set cs \<inter> ev_id ` set (d_events ?d) = {}"
  proof (rule ccontr)
    assume "\<not> ?thesis"
    then obtain x where x: "x \<in> set cs" "uuid (ic_id x) \<in> ev_id ` set (d_events ?d)" by auto
    then have "uuid (ic_id x) \<in> ev_id ` set (own_events (range uuid) d) \<or> uuid (ic_id x) \<in> ev_id ` set ?one"
      using own_event_ids [of "uuid (ic_id x)" "range uuid" ?d] own by auto
    moreover have "uuid (ic_id x) \<noteq> uuid (ic_id c)" using Cons.prems(2) x(1) by (force simp: image_iff)
    ultimately have "uuid (ic_id x) \<in> ev_id ` set (d_events d)"
      using ids own_event_ids [of "uuid (ic_id x)" "range uuid" d] by auto
    with Cons.prems x show False by auto
  qed
  moreover have "scan_results uuid now b r (c # cs) d = scan_results uuid now b r [c] d @ scan_results uuid now b r cs ?d"
    by simp
  ultimately show ?case
    using Cons.IH [of ?d] faults own Cons.prems by (simp del: scan_results.simps add: failure_events_append)
qed

lemma globals_own:
  assumes "\<And>j. j \<in> set js \<Longrightarrow> keeps_events reserved j" and "d_faults d = []"
  shows "own_events reserved (foldl (\<lambda>d j. j d) d js) = own_events reserved d"
  using assms
proof (induction js arbitrary: d)
  case (Cons j js)
  have app: "appends_events reserved d (j d)" using Cons.prems by (simp add: keeps_events_def)
  have "own_events reserved (foldl (\<lambda>d j. j d) (j d) js) = own_events reserved (j d)"
    by (rule Cons.IH) (use Cons.prems appends_events_faults [OF app] in auto)
  then show ?case using own_events_appends [OF app] by simp
qed simp

text \<open>C38: A pass scans every enabled component that has a scanner (by type, else by collection method) once, whatever the
  other scans answer and in whatever order the goroutines run, and writes one error event of its own for each scan
  that failed, with its error, and no other: none for a component without a scanner or a disabled one, none for a scan that
  succeeded. What a scan answers may depend on the database it finds.\<close>

theorem pass_reports_failures:
  assumes "d_faults d = []" and "registry_polite (range uuid) (ss_buckets s b)" and "inj uuid"
    and "distinct (map ic_id (d_components d))" and "range uuid \<inter> ev_id ` set (d_events d) = {}"
    and "\<And>cs. mset (perm cs) = mset cs"
    and "order = perm (filter ic_enabled (order_asc ic_created_at (d_components d)))"
    and "results = scan_results uuid now b (ss_buckets s b) order d"
  shows "mset (map fst results) = mset (filter (\<lambda>c. ic_enabled c \<and> scanner_for (ss_buckets s b) c \<noteq> None) (d_components d))
    \<and> own_events (range uuid) (run_pass uuid now perm b s d)
      = [scan_error_event (uuid (ic_id c)) now c b err. (c, Some err) \<leftarrow> results]"
proof -
  have cs: "mset order = filter_mset ic_enabled (mset (d_components d))"
    using assms(6) by (simp add: assms(7))
  have "distinct (map ic_id order)"
  proof -
    have "mset (map ic_id order) = mset (map ic_id (filter ic_enabled (d_components d)))"
      using cs by simp
    then show ?thesis
      using distinct_map_filter_keep [OF assms(4)] by (metis mset_eq_imp_distinct_iff)
  qed
  then have dist: "distinct (map (uuid \<circ> ic_id) order)"
    using assms(3) by (auto simp: distinct_map inj_on_def inj_def)
  have none: "own_events (range uuid) d = []"
    using assms(5) by (auto simp: own_events_def filter_empty_conv)
  have scanned: "own_events (range uuid) (foldl (\<lambda>d c. scan_component uuid now b (ss_buckets s b) c d) d order)
      = failure_events uuid now b results
    \<and> d_faults (foldl (\<lambda>d c. scan_component uuid now b (ss_buckets s b) c d) d order) = []"
    using scan_components_own [OF assms(2,1) dist] assms(5) none by (fastforce simp: assms(8))
  have "run_pass uuid now perm b s d = foldl (\<lambda>d j. j d)
      (foldl (\<lambda>d c. scan_component uuid now b (ss_buckets s b) c d) d order) (sr_globals (ss_buckets s b))"
    using assms(1) by (simp add: run_pass_def list_enabled_def component_list_def assms(7))
  moreover have "own_events (range uuid) (foldl (\<lambda>d j. j d) d0 (sr_globals (ss_buckets s b))) = own_events (range uuid) d0"
    if "d_faults d0 = []" for d0
    by (rule globals_own) (use assms(2) that in \<open>auto simp: registry_polite_def\<close>)
  ultimately have own: "own_events (range uuid) (run_pass uuid now perm b s d) = failure_events uuid now b results"
    using scanned by simp
  have "mset (map fst results) = filter_mset (\<lambda>c. scanner_for (ss_buckets s b) c \<noteq> None) (mset order)"
    unfolding assms(8) scanned_components by simp
  also have "\<dots> = mset (filter (\<lambda>c. ic_enabled c \<and> scanner_for (ss_buckets s b) c \<noteq> None) (d_components d))"
    unfolding cs by (simp add: filter_filter_mset conj_commute)
  moreover have "failure_events uuid now b results = [scan_error_event (uuid (ic_id c)) now c b err. (c, Some err) \<leftarrow> results]"
    unfolding failure_events_def by (rule arg_cong [where f = concat]) (auto split: option.split)
  ultimately show ?thesis using own by simp
qed

section \<open>The snapshot scanners are such scanners\<close>

text \<open>What a scanner answers to the scheduler; the poller it may keep for the next pass is not looked at.\<close>

definition scan_outcome :: "(string + 'a) \<Rightarrow> string option" where
  "scan_outcome r = (case r of Inl err \<Rightarrow> Some err | Inr _ \<Rightarrow> None)"

definition snmp_scanner ::
  "(string \<times> string \<Rightarrow> string + 'p) \<Rightarrow> ('p \<Rightarrow> string + disk_reading list) \<Rightarrow> snap_env \<Rightarrow> (string \<rightharpoonup> 'p) \<Rightarrow> scanner" where
  "snmp_scanner build collect env cache i t d = (case snmp_snapshot build collect env i cache d of (r, _, d2) \<Rightarrow> (scan_outcome r, d2))"

definition synology_scanner ::
  "(string \<Rightarrow> syno_meta option) \<Rightarrow> (string \<Rightarrow> string + 'p) \<Rightarrow> ('p \<Rightarrow> string + (string \<times> rat) list) \<Rightarrow> snap_env
     \<Rightarrow> (string \<rightharpoonup> 'p) \<Rightarrow> scanner" where
  "synology_scanner decode build collect env cache i t d =
     (case synology_snapshot decode build collect env i cache d of (r, _, d2) \<Rightarrow> (scan_outcome r, d2))"

definition proxmox_scanner ::
  "(string \<Rightarrow> string + 'p) \<Rightarrow> ('p \<Rightarrow> pve_answers) \<Rightarrow> ((int \<rightharpoonup> int) \<Rightarrow> (int \<times> int) list) \<Rightarrow> snap_env
     \<Rightarrow> (string \<rightharpoonup> 'p) \<Rightarrow> scanner" where
  "proxmox_scanner build ask vm_order env cache i t d =
     (case proxmox_snapshot build ask vm_order env i cache d of (r, _, d2) \<Rightarrow> (scan_outcome r, d2))"

named_theorems polite \<open>steps that only append events of their own\<close>

definition polite_pass :: "string set \<Rightarrow> db \<Rightarrow> pass_state \<Rightarrow> bool" where
  "polite_pass reserved d st = appends_events reserved d (snd st)"

lemma appends_events_refl: "d_faults d = [] \<Longrightarrow> appends_events reserved d d"
  by (simp add: appends_events_def)

lemma appends_events_trans: "appends_events reserved d d1 \<Longrightarrow> appends_events reserved d1 d2 \<Longrightarrow> appends_events reserved d d2"
  by (fastforce simp: appends_events_def disjoint_iff)

lemma appends_snapshot_capture:
  assumes "appends_events reserved d d1"
  shows "appends_events reserved d (snd (capture_snapshot env et eid mk v d1))"
proof -
  have "d_faults d1 = []" using assms by (simp add: appends_events_def)
  then have "appends_events reserved d1 (snd (capture_snapshot env et eid mk v d1))"
    by (auto simp: capture_snapshot_def snapshot_get_latest_def snapshot_insert_def snapshot_prune_def db_ignore_def
        appends_events_def Let_def split: list.splits)
  then show ?thesis by (rule appends_events_trans [OF assms])
qed

lemma appends_snapshot_event:
  assumes "appends_events reserved d d1" and "\<And>eid tag. sv_uuid env eid tag \<notin> reserved"
  shows "appends_events reserved d (write_snapshot_event env tag sid name ty level title d1)"
proof -
  have "d_faults d1 = []" using assms(1) by (simp add: appends_events_def)
  then have "appends_events reserved d1 (write_snapshot_event env tag sid name ty level title d1)"
    using assms(2) by (auto simp: write_snapshot_event_def event_create_def db_ignore_def appends_events_def snapshot_event_def)
  then show ?thesis by (rule appends_events_trans [OF assms(1)])
qed

lemma polite_host_event [polite]:
  "appends_events reserved d d1 \<Longrightarrow> (\<And>eid tag. sv_uuid env eid tag \<notin> reserved)
     \<Longrightarrow> appends_events reserved d (host_event env c tag level title d1)"
  unfolding host_event_def by (rule appends_snapshot_event)

lemma polite_host_debug [polite]:
  "polite_pass reserved d st \<Longrightarrow> (\<And>eid tag. sv_uuid env eid tag \<notin> reserved) \<Longrightarrow> polite_pass reserved d (host_debug env c st)"
  unfolding polite_pass_def host_debug_def write_debug_event_def by (simp add: appends_snapshot_event)

lemma polite_capture_then:
  assumes "polite_pass reserved d st" and "\<And>prev d1. appends_events reserved d d1 \<Longrightarrow> appends_events reserved d (react prev d1)"
  shows "polite_pass reserved d (capture_then env et eid mk v react st)"
  using appends_snapshot_capture [OF assms(1) [unfolded polite_pass_def], of env et eid mk v] assms(2)
  by (auto simp: polite_pass_def capture_then_def split: prod.split)

lemma polite_capture_only [polite]:
  "polite_pass reserved d st \<Longrightarrow> polite_pass reserved d (capture_only env et eid mk v st)"
  using appends_snapshot_capture by (simp add: polite_pass_def capture_only_def)

lemma polite_foldl:
  "polite_pass reserved d st \<Longrightarrow> (\<And>st x. polite_pass reserved d st \<Longrightarrow> polite_pass reserved d (f st x))
     \<Longrightarrow> polite_pass reserved d (foldl f st xs)"
  by (induction xs arbitrary: st) simp_all

lemma polite_steps [polite]:
  assumes "polite_pass reserved d st" and "\<And>eid tag. sv_uuid env eid tag \<notin> reserved"
  shows "polite_pass reserved d (snmp_disk env c disk st)"
    and "polite_pass reserved d (storage_pool env c mk pool pct st)"
    and "polite_pass reserved d (syno_disk_step env c sdisk st)"
    and "polite_pass reserved d (syno_version_step env c version st)"
    and "polite_pass reserved d (syno_update_step env c available version st)"
    and "polite_pass reserved d (pve_version_step env c n st)"
    and "polite_pass reserved d (pve_updates_step env c n st)"
  unfolding snmp_disk_def storage_pool_def syno_disk_step_def syno_version_step_def syno_update_step_def pve_version_step_def
    pve_updates_step_def Let_def
  using assms by (auto intro!: polite_capture_then polite_host_event split: prod.split)

lemma polite_volume_step [polite]:
  "polite_pass reserved d st \<Longrightarrow> (\<And>eid tag. sv_uuid env eid tag \<notin> reserved) \<Longrightarrow> polite_pass reserved d (syno_volume_step env c v st)"
  unfolding syno_volume_step_def Let_def by (intro polite)

lemma polite_pool_step [polite]:
  "polite_pass reserved d st \<Longrightarrow> (\<And>eid tag. sv_uuid env eid tag \<notin> reserved) \<Longrightarrow> polite_pass reserved d (pve_pool_step env c p st)"
  unfolding pve_pool_step_def Let_def by (simp add: polite)

lemma polite_backup_step [polite]:
  "polite_pass reserved d st \<Longrightarrow> (\<And>eid tag. sv_uuid env eid tag \<notin> reserved) \<Longrightarrow> polite_pass reserved d (pve_backup_step env c vm st)"
  unfolding pve_backup_step_def Let_def by (auto intro!: polite_capture_then polite_host_event split: prod.split)

lemma polite_start: "d_faults d = [] \<Longrightarrow> polite_pass reserved d (b, d)"
  by (simp add: polite_pass_def appends_events_refl)

lemma snapshot_scanners_polite:
  assumes "\<And>eid tag. sv_uuid env eid tag \<notin> reserved"
  shows "keeps_events reserved (\<lambda>d. snd (snmp_scanner build collect env cache i t d))"
    and "keeps_events reserved (\<lambda>d. snd (synology_scanner decode build2 collect2 env cache2 i t d))"
    and "keeps_events reserved (\<lambda>d. snd (proxmox_scanner build3 ask vm_order env cache3 i t d))"
proof -
  have get: "\<exists>r. component_get i d = (r, d)" if "d_faults d = []" for d
    using that by (simp add: component_get_def split: option.split)
  have finish: "appends_events reserved d d2" if "polite_pass reserved d st" "st = (b, d2)" for d d2 st and b :: bool
    using that by (simp add: polite_pass_def)
  note steps = polite polite_foldl polite_start assms
  show "keeps_events reserved (\<lambda>d. snd (snmp_scanner build collect env cache i t d))"
    unfolding keeps_events_def
  proof (intro allI impI)
    fix d :: db assume d: "d_faults d = []"
    obtain r where "component_get i d = (r, d)" using get [OF d] by blast
    then show "appends_events reserved d (snd (snmp_scanner build collect env cache i t d))"
      unfolding snmp_scanner_def snmp_snapshot_def
      by (auto simp: appends_events_refl d split: sum.splits prod.splits intro!: steps elim!: finish [rotated])
  qed
  show "keeps_events reserved (\<lambda>d. snd (synology_scanner decode build2 collect2 env cache2 i t d))"
    unfolding keeps_events_def
  proof (intro allI impI)
    fix d :: db assume d: "d_faults d = []"
    obtain r where "component_get i d = (r, d)" using get [OF d] by blast
    then show "appends_events reserved d (snd (synology_scanner decode build2 collect2 env cache2 i t d))"
      unfolding synology_scanner_def synology_snapshot_def syno_snapshot_from_meta_def
      by (auto simp: appends_events_refl d split: sum.splits prod.splits option.splits intro!: steps elim!: finish [rotated])
  qed
  show "keeps_events reserved (\<lambda>d. snd (proxmox_scanner build3 ask vm_order env cache3 i t d))"
    unfolding keeps_events_def
  proof (intro allI impI)
    fix d :: db assume d: "d_faults d = []"
    obtain r where "component_get i d = (r, d)" using get [OF d] by blast
    then show "appends_events reserved d (snd (proxmox_scanner build3 ask vm_order env cache3 i t d))"
      unfolding proxmox_scanner_def proxmox_snapshot_def Let_def
      by (auto simp: appends_events_refl d split: sum.splits prod.splits option.splits intro!: steps elim!: finish [rotated])
  qed
qed

text \<open>A pass over two NAS: the row of the first has no credentials, so its scan fails, and the other is still scanned.\<close>

definition pass_snap_env :: snap_env where
  "pass_snap_env = \<lparr>sv_uuid = (\<lambda>eid tag. ''row-'' @ eid @ tag), sv_now = 5\<rparr>"

definition pass_scanner :: scanner where
  "pass_scanner = synology_scanner
     (\<lambda>_. Some \<lparr>sm_dsm_version = ''7.2'', sm_volumes = [], sm_disks = [], sm_update_available = False, sm_update_version = []\<rparr>)
     (\<lambda>_. Inr ()) (\<lambda>_. Inl ''unreachable'') pass_snap_env Map.empty"

definition pass_db :: db where
  "pass_db = empty_db\<lparr>d_components := [sample_component,
     sample_component\<lparr>ic_id := ''n2'', ic_credentials := Some ''{}'', ic_meta := Some ''{}''\<rparr>]\<rparr>"

theorem pass_reports_failures_witness:
  "map ev_source_id (own_events (range (\<lambda>i. ''scan-'' @ i)) (run_pass (\<lambda>i. ''scan-'' @ i) 0 rev Snapshots
      (register_scanner Snapshots ''synology'' pass_scanner new_scan_scheduler) pass_db)) = [''n1'']"
proof -
  let ?u = "\<lambda>i. ''scan-'' @ i :: string"
  let ?s = "register_scanner Snapshots ''synology'' pass_scanner new_scan_scheduler"
  have inj: "inj ?u" by (rule injI) simp
  have "sv_uuid pass_snap_env eid tag \<notin> range ?u" for eid tag by (auto simp: pass_snap_env_def)
  then have "keeps_events (range ?u) (\<lambda>d. snd (pass_scanner i t d))" for i t
    unfolding pass_scanner_def by (rule snapshot_scanners_polite)
  then have polite: "registry_polite (range ?u) (ss_buckets ?s Snapshots)"
    by (auto simp: registry_polite_def register_scanner_def in_bucket_def new_scan_scheduler_def ran_def split: if_splits)
  have d: "d_faults pass_db = []" "distinct (map ic_id (d_components pass_db))" "range ?u \<inter> ev_id ` set (d_events pass_db) = {}"
    by (simp_all add: pass_db_def empty_db_def sample_component_def)
  have rev: "mset (rev cs) = mset cs" for cs :: "infra_component list" by simp
  have "map (\<lambda>(c, r). (ic_id c, r)) (scan_results ?u 0 Snapshots (ss_buckets ?s Snapshots)
      (rev (filter ic_enabled (order_asc ic_created_at (d_components pass_db)))) pass_db)
    = [(''n2'', None), (''n1'', Some ''no credentials configured for nas'')]"
    by code_simp
  then obtain c1 c2 where "scan_results ?u 0 Snapshots (ss_buckets ?s Snapshots)
      (rev (filter ic_enabled (order_asc ic_created_at (d_components pass_db)))) pass_db
    = [(c2, None), (c1, Some ''no credentials configured for nas'')]" and "ic_id c1 = ''n1''"
    by (auto simp: map_eq_Cons_conv)
  then show ?thesis
    using pass_reports_failures [OF d(1) polite inj d(2,3) rev refl refl, of 0] by (simp add: scan_error_event_def)
qed

end
