(* ===== verification/Spec2Isabelle.thy ===== *)
theory Spec2Isabelle
  imports Prelude Store Events EventsApi Tokens AppTemplate Ingest Mail Links Rules Checks Monitor MonitorSched
    ChecksApi Thresholds Snapshots Components SnapshotScanners
    Discovery Docker Images Totp Users Auth DigestRegistry
    Calendar Jobs Rollups Apps DigestPeriod Digest DigestJob InfraApi ApiPoll DockerApi ContainerMetrics
    ScanCommon Proxmox ProxmoxScan Synology ScanPass
begin

text \<open>
  A verification development for NORA, a self-hosted monitor for home servers written in Go: it accepts
  webhooks of applications, polls and discovers infrastructure, runs monitor checks, evaluates alert rules
  and delivers notifications, and keeps everything in one SQLite database. All paths below are under
  src/internal/.

  \<^bold>\<open>Ground.\<close>
  \<^item> \<open>Prelude\<close>: Go strings as byte lists with the functions of packages strings, strconv and encoding/json the
    code uses, numerals, and generic list lemmas.
  \<^item> \<open>Store\<close>: the rows of models/ as records and the database as one record of tables. A repository operation
    is a function from a database to a sum (\<open>Inl\<close> an error) and the new database. Every SQL statement can fail
    for outside reasons: \<open>d_faults\<close> is the environment's choice, one Boolean per statement to come, so that
    theorems without a hypothesis on it hold whatever fails.
  \<^item> \<open>Links\<close>: tables written with \<open>INSERT ... ON CONFLICT\<close>, as the locale \<open>keyed_table\<close> (and
    \<open>overwriting_table\<close>, which extends it), interpreted on settings (repo/settings.go), component_links
    (repo/links.go), containers, routes, registry entries and rollups.

  \<^bold>\<open>Events and ingest.\<close>
  \<^item> \<open>Events\<close>, \<open>EventsApi\<close>: repo/events.go with its CHECK constraints and api/events.go; pages partition the
    matching events, aggregates count each event once. The locale \<open>event_sink\<close> is what the writers of events
    rely on.
  \<^item> \<open>Tokens\<close>, \<open>AppTemplate\<close>: apptemplate/; template validation, registry reload, JSON paths, rendering.
  \<^item> \<open>Ingest\<close>: ingest/pipeline.go and ratelimit.go; a webhook call adds exactly one well-formed event or none.

  \<^bold>\<open>Rules and delivery.\<close>
  \<^item> \<open>Mail\<close>: jobs/smtp.go; no header injection. \<open>Rules\<close>: rules/, repo/rules.go, api/rules.go; the engine with its
    cache evaluates exactly the enabled rules in every reachable state of the server.

  \<^bold>\<open>Monitor checks.\<close>
  \<^item> \<open>Checks\<close>, \<open>Monitor\<close>, \<open>MonitorSched\<close>, \<open>ChecksApi\<close>: repo/checks.go, monitor/, api/checks.go; probes and checkers,
    the scheduler as a step relation over goroutines, and the handlers.

  \<^bold>\<open>Metrics and snapshots.\<close>
  \<^item> \<open>Thresholds\<close>: scanner/metrics/events.go and docker_health.go, instances of the locale
    \<open>transition_detector\<close>: the events of a key are the transitions of its own readings.
  \<^item> \<open>Snapshots\<close>, \<open>SnapshotScanners\<close>: repo/snapshots.go and scanner/snapshot/; what a series of snapshots reports.
  \<^item> \<open>ContainerMetrics\<close>: scanner/metrics/docker_metrics.go; the alarms of a container over many polls, restarts
    included, another instance of \<open>transition_detector\<close>. \<open>ScanCommon\<close>: what the device scanners share.
  \<^item> \<open>Proxmox\<close>, \<open>ProxmoxScan\<close>: infra/proxmox.go, infra/proxmox_detail.go, api/proxmox_detail.go,
    scanner/metrics/proxmox.go and scanner/discovery/proxmox.go; after a poll the components mirror the cluster, and a
    discovery repeated finds nothing new.
  \<^item> \<open>Synology\<close>: infra/synology.go and its two scanners; a dropped session is renewed, what a poll stores and which
    status it sets.
  \<^item> \<open>Components\<close>: repo/infrastructure.go and scanner/scheduler.go; \<open>ScanPass\<close>: a pass scans every component
    and reports every failure, and the snapshot scanners are the kind of scanner it asks for. \<open>InfraApi\<close>: api/infra_components.go with
    jobs/scan.go and jobs/discover.go; how credentials are merged for any accepted update, what a manual scan records.

  \<^bold>\<open>Discovery.\<close>
  \<^item> \<open>Discovery\<close>, \<open>Docker\<close>, \<open>Images\<close>: repo/discovery.go, infra/docker_matcher.go, docker_discovery.go,
    docker_watcher.go, docker_registry.go and scanner/daily/image_update.go.
  \<^item> \<open>DockerApi\<close>: api/docker_discovery.go and infra/docker_enrichment.go; a failed link leaves the database as it was,
    a linked route has its certificate watched.
  \<^item> \<open>DigestRegistry\<close>: repo/digest_registry.go, api/digest_registry.go, profile/registry_reconciler.go; what a
    reconciliation leaves of every key, with the cases in which rows and templates disagree.

  \<^bold>\<open>Maintenance.\<close>
  \<^item> \<open>Calendar\<close>, \<open>Jobs\<close>: the Gregorian calendar as far as the jobs need it, and jobs/ with repo/rollups.go and
    api/jobs.go: retention deletes by level and age, the monthly job leaves the counts of every month in the table,
    cleanups delete what their previews list, the job registry.
  \<^item> \<open>Rollups\<close>: readings, their hourly and daily rollups and the hourly metrics of apps (repo/resources.go,
    repo/resource_rollups.go, repo/metrics.go, jobs/resource_rollup.go, scanner/discovery/resource_rollup.go and
    event_rollup.go): what a row holds and what the daily job misses.
  \<^item> \<open>Apps\<close>: repo/apps.go and api/apps.go; references to apps in tables with a foreign key stay valid, token rotation, the chain of parents.
  \<^item> \<open>DigestPeriod\<close>, \<open>Digest\<close>, \<open>DigestJob\<close>: jobs/digest.go, api/digest.go and the schedule of models/settings.go;
    what the labels denote, what the verdict of a digest means in terms of the database, and that the hourly job sends
    the mail of a scheduled day in exactly one of its runs.
  \<^item> \<open>ApiPoll\<close>: scanner/discovery/api_poll.go, apipoller/, repo/app_metric_snapshots.go; which requests a poll sends,
    what it stores and which events it writes.

  \<^bold>\<open>Users.\<close>
  \<^item> \<open>Totp\<close>, \<open>Users\<close>, \<open>Auth\<close>: auth/, repo/users.go, api/users.go, api/auth.go, api/totp.go and the password policy
    and MFA part of api/settings.go.

  \<^bold>\<open>Conventions.\<close> Time is an integer number of nanoseconds since the Unix epoch. UUIDs, the clock, random
  bytes, network answers and decoders of other packages (JWT, bcrypt, HMAC, YAML, the Docker client, HTTP) are
  arguments of the definitions. The order in which Go ranges over a map is an argument wherever it matters.
  Float64 values are rationals; rounding of floating-point arithmetic is not modelled. Loops over slices are
  folds or structural recursion; no fuel is needed anywhere except where the code itself bounds a loop. Equal
  rows sort in insertion order, which SQLite leaves open.

  \<^bold>\<open>Not modelled.\<close> The HTML of the digest mail, the clients of SNMP, Portainer, Traefik and
  OPNsense (decoding of third-party answers; what they return is a parameter), push encryption, process start,
  the HTTP router and middleware other than authentication, and the React frontend.
\<close>

end
